(* ===== verification/Prelude.thy ===== *)
theory Prelude
  imports Main "HOL-Library.Word" "HOL-Library.AList"
begin

text \<open>
  What the components share: the machine integer types, the byte-order functions of
  \<^verbatim>\<open>arpa/inet.h\<close> with the bytes of an integer in memory, copying a block into a buffer
  (\<^verbatim>\<open>memcpy\<close>), association lists used where the code has an \<^verbatim>\<open>unordered_map\<close> (the order of
  the list is the iteration order of the container, which the code never relies on), and
  the theorem collections the component proofs extend.
\<close>

unbundle bit_operations_syntax

named_theorems bytes_simps \<open>lengths and round trips of the byte-level encodings\<close>
named_theorems alist_simps \<open>lookup in updated association lists\<close>

subsection \<open>Machine integers\<close>

type_synonym u8 = "8 word"
type_synonym u16 = "16 word"
type_synonym u32 = "32 word"
type_synonym u64 = "64 word"
type_synonym bytes = "8 word list"

text \<open>The bytes of an integer as a little-endian host keeps them in memory.\<close>

definition mem16 :: "u16 \<Rightarrow> bytes" where
  "mem16 w = [ucast w, ucast (drop_bit 8 w)]"

definition mem32 :: "u32 \<Rightarrow> bytes" where
  "mem32 w = [ucast w, ucast (drop_bit 8 w), ucast (drop_bit 16 w), ucast (drop_bit 24 w)]"

definition load16 :: "bytes \<Rightarrow> u16" where
  "load16 bs = ucast (bs ! 0) OR push_bit 8 (ucast (bs ! 1))"

definition load32 :: "bytes \<Rightarrow> u32" where
  "load32 bs = ucast (bs ! 0) OR push_bit 8 (ucast (bs ! 1)) OR push_bit 16 (ucast (bs ! 2))
     OR push_bit 24 (ucast (bs ! 3))"

text \<open>\<^verbatim>\<open>htons\<close>, \<^verbatim>\<open>htonl\<close> and their inverses on such a host reverse the bytes.\<close>

definition htons :: "u16 \<Rightarrow> u16" where
  "htons w = load16 (rev (mem16 w))"

definition htonl :: "u32 \<Rightarrow> u32" where
  "htonl w = load32 (rev (mem32 w))"

definition ntohs :: "u16 \<Rightarrow> u16" where
  "ntohs w = load16 (rev (mem16 w))"

definition ntohl :: "u32 \<Rightarrow> u32" where
  "ntohl w = load32 (rev (mem32 w))"

lemma length_mem16 [simp]: "length (mem16 w) = 2"
  by (simp add: mem16_def)

lemma length_mem32 [simp]: "length (mem32 w) = 4"
  by (simp add: mem32_def)

lemma load16_mem16 [bytes_simps]: "load16 (mem16 w @ bs) = w"
  unfolding load16_def mem16_def
  by (rule bit_word_eqI) (auto simp: bit_simps)

lemma load32_mem32 [bytes_simps]: "load32 (mem32 w @ bs) = w"
  unfolding load32_def mem32_def
proof (rule bit_word_eqI, goal_cases)
  case (1 n)
  then consider "n < 8" | "8 \<le> n" "n < 16" | "16 \<le> n" "n < 24" | "24 \<le> n" "n < 32"
    by force
  then show ?case using 1 by cases (auto simp: bit_simps)
qed

lemma load16_mem16_Nil [bytes_simps]: "load16 (mem16 w) = w"
  using load16_mem16 [of w "[]"] by simp

lemma load32_mem32_Nil [bytes_simps]: "load32 (mem32 w) = w"
  using load32_mem32 [of w "[]"] by simp

lemma mem16_load16_list: "mem16 (load16 [a, b]) = [a, b]"
  unfolding load16_def mem16_def
  by (simp only: list.inject nth_Cons_0 One_nat_def nth_Cons_Suc, intro conjI bit_word_eqI)
    (auto simp: bit_simps dest: bit_imp_le_length)

lemma mem32_load32_list: "mem32 (load32 [a, b, c, d]) = [a, b, c, d]"
  unfolding load32_def mem32_def
  by (simp only: list.inject nth_Cons_0 nth_Cons_numeral One_nat_def nth_Cons_Suc,
      intro conjI bit_word_eqI) (auto simp: bit_simps nth_Cons_numeral dest: bit_imp_le_length)

lemma length_2_conv: "length xs = 2 \<longleftrightarrow> (\<exists>a b. xs = [a, b])"
  by (auto simp: length_Suc_conv numeral_2_eq_2)

lemma length_4_conv: "length xs = 4 \<longleftrightarrow> (\<exists>a b c d. xs = [a, b, c, d])"
  by (auto simp: length_Suc_conv numeral_eq_Suc)

lemma mem16_load16 [bytes_simps]: "length bs = 2 \<Longrightarrow> mem16 (load16 bs) = bs"
  by (auto simp: length_2_conv mem16_load16_list)

lemma mem32_load32 [bytes_simps]: "length bs = 4 \<Longrightarrow> mem32 (load32 bs) = bs"
  by (auto simp: length_4_conv mem32_load32_list)

lemma ntohs_htons [bytes_simps]: "ntohs (htons w) = w"
  by (simp add: ntohs_def htons_def mem16_load16 load16_mem16_Nil)

lemma ntohl_htonl [bytes_simps]: "ntohl (htonl w) = w"
  by (simp add: ntohl_def htonl_def mem32_load32 load32_mem32_Nil)

lemma htons_0 [simp]: "htons 0 = 0"
  by (simp add: htons_def mem16_def load16_def)

subsection \<open>System calls\<close>

text \<open>
  The error numbers the code tells apart (\<^verbatim>\<open>EWOULDBLOCK\<close> equals \<^verbatim>\<open>EAGAIN\<close> on Linux), and the
  epoll interest set of the kernel: which descriptors are registered, with which events, and for
  which descriptors the kernel refuses \<^verbatim>\<open>epoll_ctl\<close>.
\<close>

datatype errno =
    EINTR | EAGAIN | ENOBUFS | EHOSTUNREACH | ENETUNREACH | EINVAL | EADDRNOTAVAIL | EMSGSIZE
  | EBADF | EOTHER nat

datatype epoll_event = EPOLLIN | EPOLLOUT | EPOLLRDHUP | EPOLLERR | EPOLLHUP

record epoll =
  ep_set :: "int \<rightharpoonup> epoll_event list"
  ep_refuses :: "int \<Rightarrow> bool"

definition epoll_add :: "int \<Rightarrow> epoll_event list \<Rightarrow> epoll \<Rightarrow> bool \<times> epoll" where
  "epoll_add fd evs ep =
     (if ep_refuses ep fd \<or> ep_set ep fd \<noteq> None then (False, ep)
      else (True, ep\<lparr>ep_set := (ep_set ep)(fd \<mapsto> evs)\<rparr>))"

definition epoll_mod :: "int \<Rightarrow> epoll_event list \<Rightarrow> epoll \<Rightarrow> bool \<times> epoll" where
  "epoll_mod fd evs ep =
     (if ep_refuses ep fd \<or> ep_set ep fd = None then (False, ep)
      else (True, ep\<lparr>ep_set := (ep_set ep)(fd \<mapsto> evs)\<rparr>))"

definition epoll_del :: "int \<Rightarrow> epoll \<Rightarrow> epoll" where
  "epoll_del fd ep = ep\<lparr>ep_set := (ep_set ep)(fd := None)\<rparr>"

subsection \<open>Copying into a buffer\<close>

text \<open>\<^verbatim>\<open>memcpy(dst + off, bs, n)\<close> on a buffer that is long enough.\<close>

definition blit :: "'a list \<Rightarrow> nat \<Rightarrow> 'a list \<Rightarrow> 'a list" where
  "blit xs off ys = take off xs @ ys @ drop (off + length ys) xs"

lemma length_blit [simp]: "off + length ys \<le> length xs \<Longrightarrow> length (blit xs off ys) = length xs"
  by (simp add: blit_def)

lemma nth_blit:
  "off + length ys \<le> length xs \<Longrightarrow> i < length xs \<Longrightarrow>
     blit xs off ys ! i = (if off \<le> i \<and> i < off + length ys then ys ! (i - off) else xs ! i)"
  by (auto simp: blit_def nth_append min_def)

subsection \<open>Association lists\<close>

lemmas [alist_simps] = update_conv' map_ran_conv

lemma update_new: "map_of al k = None \<Longrightarrow> AList.update k v al = al @ [(k, v)]"
  by (induction al) auto

lemma length_update: "map_of al k \<noteq> None \<Longrightarrow> length (AList.update k v al) = length al"
  by (induction al) auto

lemma length_map_ran [simp]: "length (AList.map_ran f al) = length al"
  by (induction al) auto

lemma map_of_delete [alist_simps]:
  "map_of (AList.delete k al) k' = (if k' = k then None else map_of al k')"
  by (simp add: AList.delete_conv')

lemma keys_map_ran [simp]: "map fst (AList.map_ran f al) = map fst al"
  by (induction al) auto

lemma map_of_filter_keys:
  "map_of (filter (\<lambda>(k, v). P k) al) k = (if P k then map_of al k else None)"
  by (induction al) auto

end
