(* ===== verification/Byte_Ring.thy ===== *)
theory Byte_Ring
  imports Prelude
begin

text \<open>
  The byte ring of \<^verbatim>\<open>shared/algorithm/ByteRingBuffer\<close>: the record \<open>ring\<close> has the members of
  the class, one definition per method. A pointer into the buffer is an index
  (\<open>None\<close> for \<^verbatim>\<open>nullptr\<close>), sizes are natural numbers (every size is bounded by the
  capacity). \<open>rb_list\<close> reads the stored bytes in order and \<open>ring_ok\<close> is the class invariant;
  the lemmas show that every operation keeps the invariant and acts on the byte sequence as a
  bounded FIFO queue does, which the locale \<open>byte_fifo\<close> states for the clients of the ring.
\<close>

subsection \<open>The class\<close>

record ring =
  m_buffer :: bytes
  m_head :: nat
  m_tail :: nat
  m_size :: nat

definition rb_new :: "nat \<Rightarrow> ring" where
  "rb_new capacity = \<lparr>m_buffer = replicate capacity 0, m_head = 0, m_tail = 0, m_size = 0\<rparr>"

definition rb_capacity :: "ring \<Rightarrow> nat" where
  "rb_capacity r = length (m_buffer r)"

definition rb_readable :: "ring \<Rightarrow> nat" where
  "rb_readable r = m_size r"

definition rb_writable :: "ring \<Rightarrow> nat" where
  "rb_writable r = rb_capacity r - m_size r"

definition rb_writePtr :: "ring \<Rightarrow> nat option" where
  "rb_writePtr r = (if rb_writable r = 0 then None else Some (m_tail r))"

definition rb_writeLen :: "ring \<Rightarrow> nat" where
  "rb_writeLen r =
     (if rb_writable r = 0 then 0
      else let toEnd = length (m_buffer r) - m_tail r in min toEnd (rb_writable r))"

definition rb_produce :: "nat \<Rightarrow> ring \<Rightarrow> ring" where
  "rb_produce n r =
     r\<lparr>m_tail := (m_tail r + n) mod length (m_buffer r), m_size := m_size r + n\<rparr>"

text \<open>\<^verbatim>\<open>memcpy(writePtr(), data, n)\<close>, which the write loop and \<^verbatim>\<open>recv(2)\<close> both do.\<close>

definition rb_fill :: "bytes \<Rightarrow> ring \<Rightarrow> ring" where
  "rb_fill bs r =
     (case rb_writePtr r of None \<Rightarrow> r
      | Some p \<Rightarrow> r\<lparr>m_buffer := blit (m_buffer r) p bs\<rparr>)"

text \<open>
  The loop of \<^verbatim>\<open>write\<close>: the bytes still to be written and the count written so far.
  The class keeps \<open>m_tail < capacity\<close>, so \<open>n\<close> is positive in every round; the test of \<open>n\<close>
  only makes the equation total.
\<close>

function rb_write_loop :: "ring \<Rightarrow> bytes \<Rightarrow> nat \<Rightarrow> ring \<times> nat" where
  "rb_write_loop r bs written =
     (if bs \<noteq> [] \<and> rb_writable r > 0 then
        let n = min (rb_writeLen r) (length bs) in
        if n = 0 then (r, written)
        else rb_write_loop (rb_produce n (rb_fill (take n bs) r)) (drop n bs) (written + n)
      else (r, written))"
  by pat_completeness auto
termination
  by (relation "measure (\<lambda>(r, bs, written). length bs)") (auto simp: min_def)

declare rb_write_loop.simps [simp del]

definition rb_write :: "ring \<Rightarrow> bytes \<Rightarrow> ring \<times> nat" where
  "rb_write r bs = rb_write_loop r bs 0"

definition rb_readPtr :: "ring \<Rightarrow> nat option" where
  "rb_readPtr r = (if rb_readable r = 0 then None else Some (m_head r))"

definition rb_readLen :: "ring \<Rightarrow> nat" where
  "rb_readLen r =
     (if rb_readable r = 0 then 0
      else let toEnd = length (m_buffer r) - m_head r in min toEnd (rb_readable r))"

definition rb_consume :: "nat \<Rightarrow> ring \<Rightarrow> ring" where
  "rb_consume n r =
     r\<lparr>m_head := (m_head r + n) mod length (m_buffer r), m_size := m_size r - n\<rparr>"

text \<open>The \<open>n\<close> bytes that start at \<^verbatim>\<open>readPtr()\<close>.\<close>

definition rb_view :: "ring \<Rightarrow> nat \<Rightarrow> bytes" where
  "rb_view r n = (case rb_readPtr r of None \<Rightarrow> [] | Some p \<Rightarrow> take n (drop p (m_buffer r)))"

function rb_read_loop :: "ring \<Rightarrow> nat \<Rightarrow> bytes \<Rightarrow> ring \<times> bytes" where
  "rb_read_loop r len out =
     (if length out < len \<and> rb_readable r > 0 then
        let n = min (rb_readLen r) (len - length out) in
        if n = 0 \<or> length (rb_view r n) \<noteq> n then (r, out)
        else rb_read_loop (rb_consume n r) len (out @ rb_view r n)
      else (r, out))"
  by pat_completeness auto
termination
  by (relation "measure (\<lambda>(r, len, out). len - length out)") auto

declare rb_read_loop.simps [simp del]

definition rb_read :: "ring \<Rightarrow> nat \<Rightarrow> ring \<times> bytes" where
  "rb_read r len = rb_read_loop r len []"

definition rb_peek :: "ring \<Rightarrow> nat \<Rightarrow> bytes" where
  "rb_peek r len =
     (let toRead = min len (m_size r);
          first = min toRead (length (m_buffer r) - m_head r)
      in take first (drop (m_head r) (m_buffer r)) @
         (if toRead > first then take (toRead - first) (m_buffer r) else []))"

definition rb_clear :: "ring \<Rightarrow> ring" where
  "rb_clear r = r\<lparr>m_head := 0, m_tail := 0, m_size := 0\<rparr>"

subsection \<open>The class invariant and the byte sequence held\<close>

definition ring_ok :: "ring \<Rightarrow> bool" where
  "ring_ok r \<longleftrightarrow> m_head r < rb_capacity r \<and> m_size r \<le> rb_capacity r \<and>
     m_tail r = (m_head r + m_size r) mod rb_capacity r"

definition rb_list :: "ring \<Rightarrow> bytes" where
  "rb_list r = map (\<lambda>i. m_buffer r ! ((m_head r + i) mod rb_capacity r)) [0..<m_size r]"

lemma length_rb_list [simp]: "length (rb_list r) = m_size r"
  by (simp add: rb_list_def)

lemma rb_list_nth:
  "i < m_size r \<Longrightarrow> rb_list r ! i = m_buffer r ! ((m_head r + i) mod rb_capacity r)"
  by (simp add: rb_list_def)

lemma mod_wrap: "(x::nat) < 2 * c \<Longrightarrow> x mod c = (if x < c then x else x - c)"
  by (simp add: mod_if)

lemma ring_ok_tail: "ring_ok r \<Longrightarrow> m_tail r < rb_capacity r"
  by (metis (full_types) ring_ok_def less_nat_zero_code mod_less_divisor neq0_conv)

lemma ring_ok_new: "0 < c \<Longrightarrow> ring_ok (rb_new c)"
  by (simp add: ring_ok_def rb_new_def rb_capacity_def)

lemma capacity_new: "rb_capacity (rb_new c) = c"
  by (simp add: rb_capacity_def rb_new_def)

lemma rb_list_new: "rb_list (rb_new c) = []"
  by (simp add: rb_list_def rb_new_def)


text \<open>
  Every index computation is \<open>(m_head + i) mod capacity\<close> with both summands below the
  capacity, so it wraps at most once.
\<close>

lemma ring_index:
  "ring_ok r \<Longrightarrow> i \<le> rb_capacity r \<Longrightarrow>
     (m_head r + i) mod rb_capacity r =
       (if m_head r + i < rb_capacity r then m_head r + i else m_head r + i - rb_capacity r)"
  by (rule mod_wrap) (simp add: ring_ok_def)

lemma ring_tail_conv:
  "ring_ok r \<Longrightarrow> m_tail r =
     (if m_head r + m_size r < rb_capacity r then m_head r + m_size r
      else m_head r + m_size r - rb_capacity r)"
  using ring_index [of r "m_size r"] by (simp add: ring_ok_def)

lemma ring_slot:
  fixes h c s n t i k :: nat
  assumes "h < c" and "s + n \<le> c" and "i < s + n" and "t + n \<le> c"
    and "t = (if h + s < c then h + s else h + s - c)"
    and "k = (if h + i < c then h + i else h + i - c)"
  shows "(t \<le> k \<and> k < t + n) = (s \<le> i)" and "s \<le> i \<Longrightarrow> k - t = i - s"
  using assms by (auto split: if_splits)

lemma rb_writeLen_le: "rb_writeLen r \<le> rb_writable r"
  by (simp add: rb_writeLen_def Let_def)

lemma rb_writeLen_pos: "ring_ok r \<Longrightarrow> 0 < rb_writable r \<Longrightarrow> 0 < rb_writeLen r"
  by (auto simp: rb_writeLen_def Let_def rb_capacity_def dest: ring_ok_tail)

lemma rb_fill_fits:
  assumes "bs \<noteq> []" and "length bs \<le> rb_writeLen r"
  shows "rb_fill bs r = r\<lparr>m_buffer := blit (m_buffer r) (m_tail r) bs\<rparr>"
    and "m_tail r + length bs \<le> rb_capacity r" and "m_size r + length bs \<le> rb_capacity r"
proof -
  have pos: "0 < length bs" using assms(1) by simp
  then have wr: "rb_writable r \<noteq> 0" using assms(2) by (simp add: rb_writeLen_def split: if_splits)
  then have "length bs \<le> length (m_buffer r) - m_tail r" and "length bs \<le> rb_writable r"
    using assms(2) by (auto simp: rb_writeLen_def Let_def)
  then show "m_tail r + length bs \<le> rb_capacity r" and "m_size r + length bs \<le> rb_capacity r"
    using pos unfolding rb_writable_def rb_capacity_def by linarith+
  show "rb_fill bs r = r\<lparr>m_buffer := blit (m_buffer r) (m_tail r) bs\<rparr>"
    using wr by (simp add: rb_fill_def rb_writePtr_def)
qed

lemma fill_produce_ok:
  assumes ok: "ring_ok r" and len: "length bs \<le> rb_writeLen r"
  shows "ring_ok (rb_produce (length bs) (rb_fill bs r))"
    and "rb_capacity (rb_produce (length bs) (rb_fill bs r)) = rb_capacity r"
proof -
  show cap: "rb_capacity (rb_produce (length bs) (rb_fill bs r)) = rb_capacity r"
  proof (cases "bs = []")
    case True
    then show ?thesis
      by (simp add: rb_produce_def rb_fill_def rb_capacity_def blit_def split: option.split)
  next
    case False
    then show ?thesis using rb_fill_fits [OF False len]
      by (simp add: rb_produce_def rb_capacity_def)
  qed
  show "ring_ok (rb_produce (length bs) (rb_fill bs r))"
  proof (cases "bs = []")
    case True
    have "rb_fill [] r = r" by (simp add: rb_fill_def blit_def split: option.split)
    with True ok show ?thesis
      by (simp add: ring_ok_def rb_produce_def rb_capacity_def)
  next
    case False
    note fits = rb_fill_fits [OF False len]
    have "(m_tail r + length bs) mod rb_capacity r
        = (m_head r + (m_size r + length bs)) mod rb_capacity r"
      using ok by (simp add: ring_ok_def mod_add_left_eq add.assoc)
    with fits ok cap show ?thesis
      by (simp add: ring_ok_def rb_produce_def rb_capacity_def)
  qed
qed

lemma fill_produce_list:
  assumes ok: "ring_ok r" and len: "length bs \<le> rb_writeLen r"
  shows "rb_list (rb_produce (length bs) (rb_fill bs r)) = rb_list r @ bs"
proof (cases "bs = []")
  case True
  have "rb_fill [] r = r" by (simp add: rb_fill_def blit_def split: option.split)
  with True show ?thesis by (simp add: rb_list_def rb_produce_def rb_capacity_def)
next
  case False
  note fits = rb_fill_fits [OF False len]
  let ?r' = "rb_produce (length bs) (rb_fill bs r)"
  have hd: "m_head ?r' = m_head r" and sz: "m_size ?r' = m_size r + length bs"
    and bf: "m_buffer ?r' = blit (m_buffer r) (m_tail r) bs"
    using fits(1) by (simp_all add: rb_produce_def)
  have cap: "rb_capacity ?r' = rb_capacity r" by (rule fill_produce_ok [OF ok len])
  have fit: "m_tail r + length bs \<le> length (m_buffer r)"
    using fits(2) by (simp add: rb_capacity_def)
  show ?thesis
  proof (rule nth_equalityI)
    show "length (rb_list ?r') = length (rb_list r @ bs)" by (simp add: sz)
  next
    fix i assume "i < length (rb_list ?r')"
    then have i: "i < m_size r + length bs" by (simp add: sz)
    then have ile: "i \<le> rb_capacity r" using fits(3) by simp
    have lt: "(m_head r + i) mod rb_capacity r < length (m_buffer r)"
      using ok by (metis (full_types) ring_ok_def rb_capacity_def less_nat_zero_code mod_less_divisor neq0_conv)
    let ?k = "(m_head r + i) mod rb_capacity r"
    note slot = ring_slot [OF _ fits(3) i fits(2) ring_tail_conv [OF ok] ring_index [OF ok ile]]
    have h: "m_head r < rb_capacity r" using ok by (simp add: ring_ok_def)
    have "rb_list ?r' ! i = blit (m_buffer r) (m_tail r) bs ! ?k"
      using i by (simp add: rb_list_nth sz hd bf cap)
    also have "\<dots> = (if m_size r \<le> i then bs ! (i - m_size r) else m_buffer r ! ?k)"
      using slot [OF h] by (simp only: nth_blit [OF fit lt]) simp
    also have "\<dots> = (rb_list r @ bs) ! i"
      using i by (simp add: nth_append rb_list_nth)
    finally show "rb_list ?r' ! i = (rb_list r @ bs) ! i" .
  qed
qed

lemma consume_ok:
  assumes ok: "ring_ok r" and n: "n \<le> m_size r"
  shows "ring_ok (rb_consume n r)"
proof -
  have pos: "0 < rb_capacity r" using ok by (auto simp: ring_ok_def)
  have "((m_head r + n) mod rb_capacity r + (m_size r - n)) mod rb_capacity r
      = (m_head r + n + (m_size r - n)) mod rb_capacity r" by (rule mod_add_left_eq)
  moreover have "m_size r - n \<le> rb_capacity r"
    using ok diff_le_self order_trans by (fastforce simp: ring_ok_def)
  ultimately show ?thesis using ok n pos
    by (simp add: ring_ok_def rb_consume_def rb_capacity_def)
qed

lemma consume_list:
  assumes ok: "ring_ok r" and n: "n \<le> m_size r"
  shows "rb_list (rb_consume n r) = drop n (rb_list r)"
proof (rule nth_equalityI)
  show "length (rb_list (rb_consume n r)) = length (drop n (rb_list r))"
    by (simp add: rb_consume_def)
next
  fix i assume "i < length (rb_list (rb_consume n r))"
  then have "i < m_size r - n" by (simp add: rb_consume_def)
  moreover have "((m_head r + n) mod rb_capacity r + i) mod rb_capacity r
      = (m_head r + n + i) mod rb_capacity r" by (rule mod_add_left_eq)
  ultimately show "rb_list (rb_consume n r) ! i = drop n (rb_list r) ! i"
    by (simp add: rb_list_nth rb_consume_def rb_capacity_def add.assoc)
qed

lemma capacity_consume [simp]: "rb_capacity (rb_consume n r) = rb_capacity r"
  by (simp add: rb_consume_def rb_capacity_def)

lemma size_consume [simp]: "m_size (rb_consume n r) = m_size r - n"
  by (simp add: rb_consume_def)

lemma peek_list:
  assumes ok: "ring_ok r"
  shows "rb_peek r len = take len (rb_list r)"
proof (rule nth_equalityI)
  show "length (rb_peek r len) = length (take len (rb_list r))"
    using ok by (auto simp: rb_peek_def Let_def ring_ok_def rb_capacity_def min_def)
next
  fix i assume "i < length (rb_peek r len)"
  then have i: "i < min len (m_size r)"
    using ok by (auto simp: rb_peek_def Let_def ring_ok_def rb_capacity_def min_def split: if_splits)
  then have ile: "i \<le> rb_capacity r" using ok by (simp add: ring_ok_def)
  show "rb_peek r len ! i = take len (rb_list r) ! i"
    using i ok ring_index [OF ok ile]
    by (auto simp: rb_peek_def Let_def rb_list_nth ring_ok_def rb_capacity_def nth_append min_def
        intro!: arg_cong [of _ _ "\<lambda>k. m_buffer r ! k"] split: if_splits)
qed

lemma view_list:
  assumes ok: "ring_ok r" and n: "n \<le> rb_readLen r"
  shows "rb_view r n = take n (rb_list r)"
proof -
  have "rb_peek r n = rb_view r n" if "0 < m_size r"
    using that n by (auto simp: rb_peek_def rb_view_def rb_readPtr_def rb_readLen_def rb_readable_def Let_def)
  moreover have "rb_view r n = []" "n = 0" if "m_size r = 0"
    using that n by (auto simp: rb_view_def rb_readPtr_def rb_readLen_def rb_readable_def)
  ultimately show ?thesis
    using peek_list [OF ok, of n] by (cases "m_size r = 0") auto
qed


subsection \<open>The copying loops\<close>

lemma write_loop_correct:
  "ring_ok r \<Longrightarrow> rb_write_loop r bs w = (r', w') \<Longrightarrow>
     ring_ok r' \<and> rb_capacity r' = rb_capacity r \<and>
     rb_list r' = rb_list r @ take (rb_writable r) bs \<and>
     w' = w + min (rb_writable r) (length bs)"
proof (induction r bs w rule: rb_write_loop.induct)
  case (1 r bs w)
  let ?n = "min (rb_writeLen r) (length bs)"
  let ?r1 = "rb_produce ?n (rb_fill (take ?n bs) r)"
  show ?case
  proof (cases "bs \<noteq> [] \<and> rb_writable r > 0")
    case False
    with "1.prems" show ?thesis by (auto simp: rb_write_loop.simps [of r bs w])
  next
    case True
    then have n: "?n \<noteq> 0" using rb_writeLen_pos [OF "1.prems"(1)] by simp
    have len: "length (take ?n bs) = ?n" and le: "?n \<le> rb_writeLen r" by simp_all
    have ok1: "ring_ok ?r1" and cap1: "rb_capacity ?r1 = rb_capacity r"
      and list1: "rb_list ?r1 = rb_list r @ take ?n bs"
      using fill_produce_ok [OF "1.prems"(1), of "take ?n bs"]
        fill_produce_list [OF "1.prems"(1), of "take ?n bs"] len le by simp_all
    have "length (rb_list ?r1) = length (rb_list r @ take ?n bs)" using list1 by (rule arg_cong)
    then have "m_size ?r1 = m_size r + ?n" by simp
    then have wr1: "rb_writable ?r1 = rb_writable r - ?n"
      using cap1 by (simp add: rb_writable_def)
    have "rb_write_loop ?r1 (drop ?n bs) (w + ?n) = (r', w')"
      using "1.prems"(2) True n by (simp add: rb_write_loop.simps [of r bs w] Let_def)
    from "1.IH" [OF True refl n ok1 this] have IH: "ring_ok r' \<and> rb_capacity r' = rb_capacity r \<and>
        rb_list r' = rb_list r @ take ?n bs @ take (rb_writable r - ?n) (drop ?n bs) \<and>
        w' = w + ?n + min (rb_writable r - ?n) (length bs - ?n)"
      using cap1 list1 wr1 by simp
    have nle: "?n \<le> rb_writable r" using rb_writeLen_le [of r] by simp
    then have "take ?n bs @ take (rb_writable r - ?n) (drop ?n bs) = take (rb_writable r) bs"
      by (metis take_add le_add_diff_inverse)
    moreover have "?n + min (rb_writable r - ?n) (length bs - ?n) = min (rb_writable r) (length bs)"
      using nle by simp
    ultimately show ?thesis using IH by simp
  qed
qed

lemma write_correct:
  assumes "ring_ok r"
  shows "ring_ok (fst (rb_write r bs))"
    and "rb_capacity (fst (rb_write r bs)) = rb_capacity r"
    and "rb_list (fst (rb_write r bs)) = rb_list r @ take (rb_writable r) bs"
    and "snd (rb_write r bs) = min (rb_writable r) (length bs)"
  using write_loop_correct [OF assms prod.collapse [symmetric], of bs 0]
  by (simp_all add: rb_write_def)

lemma readLen_pos: "ring_ok r \<Longrightarrow> 0 < rb_readable r \<Longrightarrow> 0 < rb_readLen r"
  by (auto simp: rb_readLen_def Let_def ring_ok_def rb_capacity_def)

lemma readLen_le: "rb_readLen r \<le> m_size r"
  by (simp add: rb_readLen_def rb_readable_def Let_def)

lemma read_loop_correct:
  "ring_ok r \<Longrightarrow> length out \<le> len \<Longrightarrow> rb_read_loop r len out = (r', out') \<Longrightarrow>
     ring_ok r' \<and> rb_capacity r' = rb_capacity r \<and>
     out' = out @ take (len - length out) (rb_list r) \<and>
     rb_list r' = drop (len - length out) (rb_list r)"
proof (induction r len out rule: rb_read_loop.induct)
  case (1 r len out)
  let ?n = "min (rb_readLen r) (len - length out)"
  show ?case
  proof (cases "length out < len \<and> rb_readable r > 0")
    case False
    then have "len - length out = 0 \<or> rb_list r = []"
      by (auto simp: rb_readable_def simp flip: length_0_conv)
    with False "1.prems" show ?thesis by (auto simp: rb_read_loop.simps [of r len out])
  next
    case True
    then have n: "0 < ?n" using readLen_pos [OF "1.prems"(1)] by simp
    have nle: "?n \<le> m_size r" using readLen_le [of r] by simp
    have view: "rb_view r ?n = take ?n (rb_list r)" by (rule view_list [OF "1.prems"(1)]) simp
    then have cond: "\<not> (?n = 0 \<or> length (rb_view r ?n) \<noteq> ?n)" using n nle by simp
    have rec: "rb_read_loop (rb_consume ?n r) len (out @ take ?n (rb_list r)) = (r', out')"
      using "1.prems"(3) True cond unfolding rb_read_loop.simps [of r len out] Let_def view [symmetric]
      by (simp only: if_True if_False simp_thms)
    have "length out + ?n \<le> len" using True by linarith
    then have len': "length (out @ take ?n (rb_list r)) \<le> len" using nle by (simp add: min_absorb2)
    have "ring_ok (rb_consume ?n r)" by (rule consume_ok [OF "1.prems"(1) nle])
    from "1.IH" [OF True refl cond this, unfolded view, OF len' rec]
      consume_list [OF "1.prems"(1) nle]
    have IH: "ring_ok r' \<and> rb_capacity r' = rb_capacity r \<and>
        out' = out @ take ?n (rb_list r) @ take (len - (length out + ?n)) (drop ?n (rb_list r)) \<and>
        rb_list r' = drop (len - (length out + ?n)) (drop ?n (rb_list r))"
      using nle by (simp add: min_absorb2)
    have split: "len - length out = ?n + (len - (length out + ?n))" using True by simp
    have "take ?n (rb_list r) @ take (len - (length out + ?n)) (drop ?n (rb_list r))
        = take (len - length out) (rb_list r)"
      using split by (metis take_add)
    moreover have "drop (len - (length out + ?n)) (drop ?n (rb_list r)) = drop (len - length out) (rb_list r)"
      using split by (metis drop_drop add.commute)
    ultimately show ?thesis using IH by simp
  qed
qed

lemma read_correct:
  assumes "ring_ok r"
  shows "ring_ok (fst (rb_read r len))"
    and "snd (rb_read r len) = take len (rb_list r)"
    and "rb_list (fst (rb_read r len)) = drop len (rb_list r)"
  using read_loop_correct [OF assms _ prod.collapse [symmetric], of "[]" len]
  by (simp_all add: rb_read_def)

subsection \<open>The interface the clients use\<close>

text \<open>
  A bounded byte queue: what is pushed is appended as far as it fits, peeking reads a prefix,
  popping drops it. The connections rely on nothing else of the ring.
\<close>

locale byte_fifo =
  fixes content :: "'q \<Rightarrow> bytes"
    and bound :: "'q \<Rightarrow> nat"
    and ok :: "'q \<Rightarrow> bool"
    and push :: "'q \<Rightarrow> bytes \<Rightarrow> 'q"
    and peek :: "'q \<Rightarrow> nat \<Rightarrow> bytes"
    and pop :: "nat \<Rightarrow> 'q \<Rightarrow> 'q"
  assumes content_bound: "ok q \<Longrightarrow> length (content q) \<le> bound q"
    and push_ok: "ok q \<Longrightarrow> ok (push q bs)"
    and push_bound: "ok q \<Longrightarrow> bound (push q bs) = bound q"
    and push_content: "ok q \<Longrightarrow>
      content (push q bs) = content q @ take (bound q - length (content q)) bs"
    and peek_content: "ok q \<Longrightarrow> peek q n = take n (content q)"
    and pop_ok: "ok q \<Longrightarrow> n \<le> length (content q) \<Longrightarrow> ok (pop n q)"
    and pop_bound: "ok q \<Longrightarrow> bound (pop n q) = bound q"
    and pop_content: "ok q \<Longrightarrow> n \<le> length (content q) \<Longrightarrow> content (pop n q) = drop n (content q)"
begin

lemma push_fits:
  "ok q \<Longrightarrow> length (content q) + length bs \<le> bound q \<Longrightarrow> content (push q bs) = content q @ bs"
  by (simp add: push_content)

lemma push_all:
  "ok q \<Longrightarrow> length (content q) + length (concat chunks) \<le> bound q \<Longrightarrow>
     ok (foldl push q chunks) \<and> bound (foldl push q chunks) = bound q \<and>
     content (foldl push q chunks) = content q @ concat chunks"
proof (induction chunks arbitrary: q)
  case Nil
  then show ?case by simp
next
  case (Cons c cs)
  have c: "content (push q c) = content q @ c"
    using Cons.prems by (intro push_fits) auto
  have "length (content (push q c)) + length (concat cs) \<le> bound (push q c)"
    using Cons.prems c by (simp add: push_bound)
  from Cons.IH [OF push_ok [OF Cons.prems(1)] this] c show ?case
    using Cons.prems(1) by (simp add: push_bound)
qed

lemma pop_then_push:
  assumes "ok q" and "n \<le> length (content q)" and "length bs \<le> n"
  shows "content (push (pop n q) bs) = drop n (content q) @ bs"
proof -
  have "length (content (pop n q)) + length bs \<le> bound (pop n q)"
    using assms content_bound [OF assms(1)] by (simp add: pop_content pop_bound)
  from push_fits [OF pop_ok this] assms show ?thesis by (simp add: pop_content)
qed

end

interpretation rq: byte_fifo rb_list rb_capacity ring_ok "\<lambda>r bs. fst (rb_write r bs)" rb_peek rb_consume
  by unfold_locales
    (auto simp: write_correct peek_list consume_ok consume_list rb_writable_def,
      simp add: ring_ok_def)

subsection \<open>Properties\<close>

text \<open>C3. The ring buffer is a bounded FIFO: from any state that satisfies the class invariant,
  \<open>write\<close> stores exactly the longest prefix that fits, appends it to the bytes held and returns its
  length; \<open>read\<close> and \<open>peek\<close> return the oldest bytes, \<open>read\<close> removes them; the invariant and the
  capacity are kept, wherever the head and the tail are.\<close>

theorem ring_bounded_fifo:
  assumes "ring_ok r"
  shows "ring_ok (fst (rb_write r bs)) \<and> ring_ok (fst (rb_read r len)) \<and>
    rb_capacity (fst (rb_write r bs)) = rb_capacity r \<and>
    snd (rb_write r bs) = min (rb_capacity r - length (rb_list r)) (length bs) \<and>
    rb_list (fst (rb_write r bs)) = rb_list r @ take (snd (rb_write r bs)) bs \<and>
    rb_peek r len = take len (rb_list r) \<and>
    rb_list r = snd (rb_read r len) @ rb_list (fst (rb_read r len)) \<and>
    length (snd (rb_read r len)) = min len (length (rb_list r))"
  using assms by (simp add: write_correct read_correct peek_list rb_writable_def min_def)

text \<open>The witness starts from a ring of three bytes whose content wraps around the end.\<close>

theorem ring_bounded_fifo_witness:
  "let r = \<lparr>m_buffer = [7, 0, 5], m_head = 2, m_tail = 1, m_size = 2\<rparr>
   in rb_list r = [5, 7] \<and> snd (rb_write r [8, 9]) = 1 \<and>
      rb_list (fst (rb_write r [8, 9])) = [5, 7, 8] \<and> rb_peek r 2 = [5, 7]"
proof -
  define r :: ring where "r = \<lparr>m_buffer = [7, 0, 5], m_head = 2, m_tail = 1, m_size = 2\<rparr>"
  have ok: "ring_ok r" by (simp add: r_def ring_ok_def rb_capacity_def)
  have l: "rb_list r = [5, 7]" by (simp add: r_def rb_list_def rb_capacity_def upt_rec)
  have c: "rb_capacity r = 3" by (simp add: r_def rb_capacity_def)
  show ?thesis using ring_bounded_fifo [OF ok, of "[8, 9]" 2] l c
    unfolding r_def [symmetric] by simp
qed

text \<open>Writing several blocks one after the other and reading everything back gives the bytes
  that were in the ring followed by the blocks in order, and leaves the ring empty, as long as the
  total fits: nothing is lost, repeated or reordered at the wrap-around.\<close>

theorem ring_blocks_roundtrip:
  assumes "ring_ok r" and "rb_readable r + length (concat blocks) \<le> rb_capacity r"
  defines "full \<equiv> foldl (\<lambda>r bs. fst (rb_write r bs)) r blocks"
  shows "snd (rb_read full (rb_readable full)) = rb_list r @ concat blocks \<and>
    rb_list (fst (rb_read full (rb_readable full))) = []"
proof -
  have "ring_ok full \<and> rb_capacity full = rb_capacity r \<and> rb_list full = rb_list r @ concat blocks"
    unfolding full_def using assms(1,2) by (intro rq.push_all) (simp_all add: rb_readable_def)
  moreover from this have "m_size full = length (rb_list r @ concat blocks)"
    using length_rb_list [of full] by simp
  ultimately show ?thesis by (simp add: read_correct rb_readable_def)
qed

theorem ring_blocks_roundtrip_witness:
  "snd (rb_read (fst (rb_write (fst (rb_write (rb_new 4) [1, 2])) [3, 4]))
     (rb_readable (fst (rb_write (fst (rb_write (rb_new 4) [1, 2])) [3, 4])))) = [1, 2, 3, 4]"
  using ring_blocks_roundtrip [of "rb_new 4" "[[1, 2], [3, 4]]"]
  by (simp add: ring_ok_new rb_list_new rb_readable_def)
    (simp add: rb_new_def rb_capacity_def)

end
