(* ===== verification/Ipc_Protocol.thy ===== *)
theory Ipc_Protocol
  imports Prelude
begin

text \<open>
  The constants of \<^verbatim>\<open>shared/ipc/IpcProtocol\<close>: daemon ids, commands and their categories,
  flags, and the names used in logs and JSON. An \<^verbatim>\<open>enum class\<close> with a fixed underlying type holds
  any value of that type, so each enum is a datatype of the enumerators plus one constructor for
  every other number; \<open>daemon_of_u8\<close> and \<open>cmd_of_u16\<close> are the \<^verbatim>\<open>static_cast\<close> from the wire, whose
  results are always in the canonical form (\<open>known_daemon\<close>, \<open>known_cmd\<close>).
\<close>

subsection \<open>Daemon ids\<close>

datatype ipc_daemon =
    DUnknown | DIpcd | DEngined | DAuthd | DProbed | DCollectord | DTopologyd | DMgmtd | DApid
  | DBroadcast | DRaw u8

primrec u8_of_daemon :: "ipc_daemon \<Rightarrow> u8" where
  "u8_of_daemon DUnknown = 0"
| "u8_of_daemon DIpcd = 1"
| "u8_of_daemon DEngined = 2"
| "u8_of_daemon DAuthd = 3"
| "u8_of_daemon DProbed = 4"
| "u8_of_daemon DCollectord = 5"
| "u8_of_daemon DTopologyd = 6"
| "u8_of_daemon DMgmtd = 7"
| "u8_of_daemon DApid = 8"
| "u8_of_daemon DBroadcast = 255"
| "u8_of_daemon (DRaw w) = w"

definition daemon_enumerators :: "ipc_daemon list" where
  "daemon_enumerators =
     [DUnknown, DIpcd, DEngined, DAuthd, DProbed, DCollectord, DTopologyd, DMgmtd, DApid, DBroadcast]"

definition daemon_of_u8 :: "u8 \<Rightarrow> ipc_daemon" where
  "daemon_of_u8 w =
     (case List.find (\<lambda>d. u8_of_daemon d = w) daemon_enumerators of Some d \<Rightarrow> d | None \<Rightarrow> DRaw w)"

definition known_daemon :: "ipc_daemon \<Rightarrow> bool" where
  "known_daemon d \<longleftrightarrow> daemon_of_u8 (u8_of_daemon d) = d"

lemma u8_of_daemon_of_u8 [bytes_simps]: "u8_of_daemon (daemon_of_u8 w) = w"
  by (auto simp: daemon_of_u8_def find_Some_iff split: option.split)

lemma known_daemon_of_u8 [simp]: "known_daemon (daemon_of_u8 w)"
  by (simp add: known_daemon_def u8_of_daemon_of_u8)

lemma known_daemon_enumerators: "d \<in> set daemon_enumerators \<Longrightarrow> known_daemon d"
  by (auto simp: known_daemon_def daemon_of_u8_def daemon_enumerators_def)

definition daemonToStr :: "ipc_daemon \<Rightarrow> string" where
  "daemonToStr d = (case d of
     DIpcd \<Rightarrow> ''ipcd'' | DEngined \<Rightarrow> ''engined'' | DAuthd \<Rightarrow> ''authd'' | DProbed \<Rightarrow> ''probed''
   | DCollectord \<Rightarrow> ''collectord'' | DTopologyd \<Rightarrow> ''topologyd'' | DMgmtd \<Rightarrow> ''mgmtd''
   | DApid \<Rightarrow> ''apid'' | DBroadcast \<Rightarrow> ''broadcast'' | _ \<Rightarrow> ''unknown'')"

definition strToDaemon :: "string \<Rightarrow> ipc_daemon" where
  "strToDaemon s =
     (if s = ''ipcd'' then DIpcd
      else if s = ''engined'' then DEngined
      else if s = ''authd'' then DAuthd
      else if s = ''probed'' then DProbed
      else if s = ''collectord'' then DCollectord
      else if s = ''topologyd'' then DTopologyd
      else if s = ''mgmtd'' then DMgmtd
      else if s = ''apid'' then DApid
      else if s = ''broadcast'' then DBroadcast
      else DUnknown)"

lemma strToDaemon_daemonToStr:
  "strToDaemon (daemonToStr d) = (if d \<in> set daemon_enumerators then d else DUnknown)"
  by (cases d) (simp_all add: strToDaemon_def daemonToStr_def daemon_enumerators_def)

subsection \<open>Commands\<close>

datatype ipc_cmd =
    CmdUnknown | CmdClientHello | CmdServerHello | CmdSyncRequest | CmdSyncResponse
    | CmdRuntimeReady | CmdRuntimeStart | CmdError | CmdHeartbeatRequest | CmdHeartbeatResponse
    | CmdHeartbeatResult | CmdConfigApply | CmdSettingsCommitRequest | CmdSettingsCommitResponse
    | CmdSettingsCommitStatus | CmdLocalUserUpdate | CmdChatTurnStore | CmdProbeRequest
    | CmdProbeResult | CmdScanRequest | CmdScanResult | CmdAuthLoginRequest
    | CmdAuthLoginResponse | CmdAuthOidcStartRequest | CmdAuthOidcStartResponse
    | CmdAuthOidcCallbackRequest | CmdAuthOidcCallbackResponse | CmdAuthSamlStartRequest
    | CmdAuthSamlStartResponse | CmdAuthSamlAcsRequest | CmdAuthSamlAcsResponse
    | CmdApiCredentialStateUpdate | CmdApiKeygenRequest | CmdApiConnectorTestResponse
    | CmdApiEndpointTestRequest | CmdApiSaseTestRequest | CmdApiTlsProbeRequest
    | CmdApiSaseKeyStoreRequest | CmdApiCredentialStoreRequest | CmdApiCredentialStateRequest
    | CmdApiCredentialStateResponse | CmdApiCollectionSample | CmdSaseApiKeyUpdate
    | CmdSaseHealthResult | CmdTopologyRequest | CmdTopologyResponse
    | CmdAiCredentialStateUpdate | CmdRaw u16

primrec u16_of_cmd :: "ipc_cmd \<Rightarrow> u16" where
  "u16_of_cmd CmdUnknown = 0"
| "u16_of_cmd CmdClientHello = 1"
| "u16_of_cmd CmdServerHello = 2"
| "u16_of_cmd CmdSyncRequest = 3"
| "u16_of_cmd CmdSyncResponse = 4"
| "u16_of_cmd CmdRuntimeReady = 5"
| "u16_of_cmd CmdRuntimeStart = 6"
| "u16_of_cmd CmdError = 102"
| "u16_of_cmd CmdHeartbeatRequest = 104"
| "u16_of_cmd CmdHeartbeatResponse = 105"
| "u16_of_cmd CmdHeartbeatResult = 106"
| "u16_of_cmd CmdConfigApply = 107"
| "u16_of_cmd CmdSettingsCommitRequest = 110"
| "u16_of_cmd CmdSettingsCommitResponse = 109"
| "u16_of_cmd CmdSettingsCommitStatus = 111"
| "u16_of_cmd CmdLocalUserUpdate = 114"
| "u16_of_cmd CmdChatTurnStore = 141"
| "u16_of_cmd CmdProbeRequest = 115"
| "u16_of_cmd CmdProbeResult = 103"
| "u16_of_cmd CmdScanRequest = 112"
| "u16_of_cmd CmdScanResult = 113"
| "u16_of_cmd CmdAuthLoginRequest = 116"
| "u16_of_cmd CmdAuthLoginResponse = 117"
| "u16_of_cmd CmdAuthOidcStartRequest = 118"
| "u16_of_cmd CmdAuthOidcStartResponse = 119"
| "u16_of_cmd CmdAuthOidcCallbackRequest = 120"
| "u16_of_cmd CmdAuthOidcCallbackResponse = 121"
| "u16_of_cmd CmdAuthSamlStartRequest = 122"
| "u16_of_cmd CmdAuthSamlStartResponse = 123"
| "u16_of_cmd CmdAuthSamlAcsRequest = 124"
| "u16_of_cmd CmdAuthSamlAcsResponse = 125"
| "u16_of_cmd CmdApiCredentialStateUpdate = 126"
| "u16_of_cmd CmdApiKeygenRequest = 127"
| "u16_of_cmd CmdApiConnectorTestResponse = 128"
| "u16_of_cmd CmdApiEndpointTestRequest = 134"
| "u16_of_cmd CmdApiSaseTestRequest = 135"
| "u16_of_cmd CmdApiTlsProbeRequest = 136"
| "u16_of_cmd CmdApiSaseKeyStoreRequest = 137"
| "u16_of_cmd CmdApiCredentialStoreRequest = 138"
| "u16_of_cmd CmdApiCredentialStateRequest = 129"
| "u16_of_cmd CmdApiCredentialStateResponse = 130"
| "u16_of_cmd CmdApiCollectionSample = 131"
| "u16_of_cmd CmdSaseApiKeyUpdate = 132"
| "u16_of_cmd CmdSaseHealthResult = 133"
| "u16_of_cmd CmdTopologyRequest = 139"
| "u16_of_cmd CmdTopologyResponse = 140"
| "u16_of_cmd CmdAiCredentialStateUpdate = 147"
| "u16_of_cmd (CmdRaw w) = w"

definition cmd_enumerators :: "ipc_cmd list" where
  "cmd_enumerators =
    [CmdUnknown, CmdClientHello, CmdServerHello, CmdSyncRequest, CmdSyncResponse,
     CmdRuntimeReady, CmdRuntimeStart, CmdError, CmdHeartbeatRequest, CmdHeartbeatResponse,
     CmdHeartbeatResult, CmdConfigApply, CmdSettingsCommitRequest, CmdSettingsCommitResponse,
     CmdSettingsCommitStatus, CmdLocalUserUpdate, CmdChatTurnStore, CmdProbeRequest,
     CmdProbeResult, CmdScanRequest, CmdScanResult, CmdAuthLoginRequest, CmdAuthLoginResponse,
     CmdAuthOidcStartRequest, CmdAuthOidcStartResponse, CmdAuthOidcCallbackRequest,
     CmdAuthOidcCallbackResponse, CmdAuthSamlStartRequest, CmdAuthSamlStartResponse,
     CmdAuthSamlAcsRequest, CmdAuthSamlAcsResponse, CmdApiCredentialStateUpdate,
     CmdApiKeygenRequest, CmdApiConnectorTestResponse, CmdApiEndpointTestRequest,
     CmdApiSaseTestRequest, CmdApiTlsProbeRequest, CmdApiSaseKeyStoreRequest,
     CmdApiCredentialStoreRequest, CmdApiCredentialStateRequest, CmdApiCredentialStateResponse,
     CmdApiCollectionSample, CmdSaseApiKeyUpdate, CmdSaseHealthResult, CmdTopologyRequest,
     CmdTopologyResponse, CmdAiCredentialStateUpdate]"

definition cmd_of_u16 :: "u16 \<Rightarrow> ipc_cmd" where
  "cmd_of_u16 w =
     (case List.find (\<lambda>c. u16_of_cmd c = w) cmd_enumerators of Some c \<Rightarrow> c | None \<Rightarrow> CmdRaw w)"

definition known_cmd :: "ipc_cmd \<Rightarrow> bool" where
  "known_cmd c \<longleftrightarrow> cmd_of_u16 (u16_of_cmd c) = c"

lemma u16_of_cmd_of_u16 [bytes_simps]: "u16_of_cmd (cmd_of_u16 w) = w"
  by (auto simp: cmd_of_u16_def find_Some_iff split: option.split)

lemma known_cmd_of_u16 [simp]: "known_cmd (cmd_of_u16 w)"
  by (simp add: known_cmd_def u16_of_cmd_of_u16)

definition cmdToStr :: "ipc_cmd \<Rightarrow> string" where
  "cmdToStr c = (case c of
     CmdClientHello \<Rightarrow> ''ClientHello''
   | CmdServerHello \<Rightarrow> ''ServerHello''
   | CmdSyncRequest \<Rightarrow> ''SyncRequest''
   | CmdSyncResponse \<Rightarrow> ''SyncResponse''
   | CmdRuntimeReady \<Rightarrow> ''RuntimeReady''
   | CmdRuntimeStart \<Rightarrow> ''RuntimeStart''
   | CmdError \<Rightarrow> ''Error''
   | CmdProbeResult \<Rightarrow> ''ProbeResult''
   | CmdHeartbeatRequest \<Rightarrow> ''HeartbeatRequest''
   | CmdHeartbeatResponse \<Rightarrow> ''HeartbeatResponse''
   | CmdHeartbeatResult \<Rightarrow> ''HeartbeatResult''
   | CmdConfigApply \<Rightarrow> ''ConfigApply''
   | CmdSettingsCommitRequest \<Rightarrow> ''SettingsCommitRequest''
   | CmdSettingsCommitResponse \<Rightarrow> ''SettingsCommitResponse''
   | CmdSettingsCommitStatus \<Rightarrow> ''SettingsCommitStatus''
   | CmdChatTurnStore \<Rightarrow> ''ChatTurnStore''
   | CmdScanRequest \<Rightarrow> ''ScanRequest''
   | CmdScanResult \<Rightarrow> ''ScanResult''
   | CmdLocalUserUpdate \<Rightarrow> ''LocalUserUpdate''
   | CmdApiCredentialStateUpdate \<Rightarrow> ''ApiCredentialStateUpdate''
   | CmdApiKeygenRequest \<Rightarrow> ''ApiKeygenRequest''
   | CmdApiEndpointTestRequest \<Rightarrow> ''ApiEndpointTestRequest''
   | CmdApiSaseTestRequest \<Rightarrow> ''ApiSaseTestRequest''
   | CmdApiTlsProbeRequest \<Rightarrow> ''ApiTlsProbeRequest''
   | CmdApiSaseKeyStoreRequest \<Rightarrow> ''ApiSaseKeyStoreRequest''
   | CmdApiCredentialStoreRequest \<Rightarrow> ''ApiCredentialStoreRequest''
   | CmdAiCredentialStateUpdate \<Rightarrow> ''AiCredentialStateUpdate''
   | CmdApiConnectorTestResponse \<Rightarrow> ''ApiConnectorTestResponse''
   | CmdApiCredentialStateRequest \<Rightarrow> ''ApiCredentialStateRequest''
   | CmdApiCredentialStateResponse \<Rightarrow> ''ApiCredentialStateResponse''
   | CmdApiCollectionSample \<Rightarrow> ''ApiCollectionSample''
   | CmdSaseApiKeyUpdate \<Rightarrow> ''SaseApiKeyUpdate''
   | CmdSaseHealthResult \<Rightarrow> ''SaseHealthResult''
   | CmdTopologyRequest \<Rightarrow> ''TopologyRequest''
   | CmdTopologyResponse \<Rightarrow> ''TopologyResponse''
   | CmdProbeRequest \<Rightarrow> ''ProbeRequest''
   | CmdAuthLoginRequest \<Rightarrow> ''AuthLoginRequest''
   | CmdAuthLoginResponse \<Rightarrow> ''AuthLoginResponse''
   | CmdAuthOidcStartRequest \<Rightarrow> ''AuthOidcStartRequest''
   | CmdAuthOidcStartResponse \<Rightarrow> ''AuthOidcStartResponse''
   | CmdAuthOidcCallbackRequest \<Rightarrow> ''AuthOidcCallbackRequest''
   | CmdAuthOidcCallbackResponse \<Rightarrow> ''AuthOidcCallbackResponse''
   | CmdAuthSamlStartRequest \<Rightarrow> ''AuthSamlStartRequest''
   | CmdAuthSamlStartResponse \<Rightarrow> ''AuthSamlStartResponse''
   | CmdAuthSamlAcsRequest \<Rightarrow> ''AuthSamlAcsRequest''
   | CmdAuthSamlAcsResponse \<Rightarrow> ''AuthSamlAcsResponse''
   | _ \<Rightarrow> ''Unknown'')"

datatype cmd_category = CatLifecycle | CatConfig | CatAuth | CatDeviceOp | CatWrite | CatRead

definition classify :: "ipc_cmd \<Rightarrow> cmd_category" where
  "classify c = (case c of
     CmdConfigApply \<Rightarrow> CatConfig
   | CmdAuthLoginRequest \<Rightarrow> CatAuth
   | CmdAuthLoginResponse \<Rightarrow> CatAuth
   | CmdAuthOidcStartRequest \<Rightarrow> CatAuth
   | CmdAuthOidcStartResponse \<Rightarrow> CatAuth
   | CmdAuthOidcCallbackRequest \<Rightarrow> CatAuth
   | CmdAuthOidcCallbackResponse \<Rightarrow> CatAuth
   | CmdAuthSamlStartRequest \<Rightarrow> CatAuth
   | CmdAuthSamlStartResponse \<Rightarrow> CatAuth
   | CmdAuthSamlAcsRequest \<Rightarrow> CatAuth
   | CmdAuthSamlAcsResponse \<Rightarrow> CatAuth
   | CmdProbeRequest \<Rightarrow> CatDeviceOp
   | CmdScanRequest \<Rightarrow> CatDeviceOp
   | CmdApiKeygenRequest \<Rightarrow> CatDeviceOp
   | CmdApiEndpointTestRequest \<Rightarrow> CatDeviceOp
   | CmdApiSaseTestRequest \<Rightarrow> CatDeviceOp
   | CmdApiTlsProbeRequest \<Rightarrow> CatDeviceOp
   | CmdApiSaseKeyStoreRequest \<Rightarrow> CatDeviceOp
   | CmdApiCredentialStoreRequest \<Rightarrow> CatDeviceOp
   | CmdApiConnectorTestResponse \<Rightarrow> CatDeviceOp
   | CmdSettingsCommitRequest \<Rightarrow> CatWrite
   | CmdChatTurnStore \<Rightarrow> CatWrite
   | CmdLocalUserUpdate \<Rightarrow> CatWrite
   | CmdProbeResult \<Rightarrow> CatWrite
   | CmdScanResult \<Rightarrow> CatWrite
   | CmdApiCredentialStateUpdate \<Rightarrow> CatWrite
   | CmdAiCredentialStateUpdate \<Rightarrow> CatWrite
   | CmdApiCollectionSample \<Rightarrow> CatWrite
   | CmdSaseApiKeyUpdate \<Rightarrow> CatWrite
   | CmdSaseHealthResult \<Rightarrow> CatWrite
   | CmdApiCredentialStateRequest \<Rightarrow> CatRead
   | CmdApiCredentialStateResponse \<Rightarrow> CatRead
   | CmdTopologyRequest \<Rightarrow> CatRead
   | CmdTopologyResponse \<Rightarrow> CatRead
   | _ \<Rightarrow> CatLifecycle)"

definition isRoutingAllowed :: "ipc_daemon \<Rightarrow> ipc_daemon \<Rightarrow> ipc_cmd \<Rightarrow> bool" where
  "isRoutingAllowed src dst cmd =
     (case classify cmd of CatWrite \<Rightarrow> dst = DEngined | _ \<Rightarrow> True)"

subsection \<open>Flags\<close>

datatype ipc_flag = FlagNone | FlagRequest | FlagResponse | FlagError | FlagBroadcast

primrec toFlag :: "ipc_flag \<Rightarrow> u8" where
  "toFlag FlagNone = 0"
| "toFlag FlagRequest = 1"
| "toFlag FlagResponse = 2"
| "toFlag FlagError = 4"
| "toFlag FlagBroadcast = 8"

definition orFlag :: "ipc_flag \<Rightarrow> ipc_flag \<Rightarrow> u8" where
  "orFlag lhs rhs = toFlag lhs OR toFlag rhs"

definition hasFlag :: "u8 \<Rightarrow> ipc_flag \<Rightarrow> bool" where
  "hasFlag flags f \<longleftrightarrow> flags AND toFlag f \<noteq> 0"

text \<open>The names joined by the separator \<^verbatim>\<open>|\<close>, as the lambda \<^verbatim>\<open>append\<close> does.\<close>

definition append_flag :: "string \<Rightarrow> string \<Rightarrow> string" where
  "append_flag out s = (if out \<noteq> [] then out @ ''|'' else out) @ s"

definition flagsToStr :: "u8 \<Rightarrow> string" where
  "flagsToStr flags =
     (if flags = toFlag FlagNone then ''None''
      else
        (let out = [];
             out = (if hasFlag flags FlagRequest then append_flag out ''Request'' else out);
             out = (if hasFlag flags FlagResponse then append_flag out ''Response'' else out);
             out = (if hasFlag flags FlagError then append_flag out ''Error'' else out);
             out = (if hasFlag flags FlagBroadcast then append_flag out ''Broadcast'' else out)
         in out))"

lemma hasFlag_iff_bit:
  "hasFlag a FlagRequest \<longleftrightarrow> bit a 0" "hasFlag a FlagResponse \<longleftrightarrow> bit a 1"
  "hasFlag a FlagError \<longleftrightarrow> bit a 2" "hasFlag a FlagBroadcast \<longleftrightarrow> bit a 3"
  using and_exp_eq_0_iff_not_bit [of a 0] and_exp_eq_0_iff_not_bit [of a 1]
    and_exp_eq_0_iff_not_bit [of a 2] and_exp_eq_0_iff_not_bit [of a 3]
  by (simp_all add: hasFlag_def)

lemma hasFlag_orFlag: "hasFlag (a OR b) f \<longleftrightarrow> hasFlag a f \<or> hasFlag b f"
  by (cases f) (auto simp: hasFlag_iff_bit bit_simps, simp_all add: hasFlag_def)

lemma hasFlag_toFlag: "hasFlag (toFlag f) g \<longleftrightarrow> f = g \<and> f \<noteq> FlagNone"
  by (cases f; cases g) (simp_all add: hasFlag_def)

subsection \<open>Properties\<close>

text \<open>Combining flags with \<^verbatim>\<open>|\<close> and testing them with \<open>hasFlag\<close> treats a flags byte as a set:
  the union has exactly the flags of the two operands, a single flag has only itself, and \<open>None\<close> is
  in no set.\<close>

theorem flags_as_sets:
  "(hasFlag (orFlag f g) h \<longleftrightarrow> h \<noteq> FlagNone \<and> (h = f \<or> h = g)) \<and>
   (hasFlag (a OR b) h \<longleftrightarrow> hasFlag a h \<or> hasFlag b h)"
  by (auto simp: orFlag_def hasFlag_orFlag hasFlag_toFlag)

end
