(* ===== verification/Ipc_Codec.thy ===== *)
theory Ipc_Codec
  imports Ipc_Protocol
begin

text \<open>
  The wire format: \<^verbatim>\<open>shared/ipc/IpcMessage\<close> and \<^verbatim>\<open>shared/ipc/IpcCodec\<close>. A message is a header
  and a payload; \<open>encode\<close> lays out the packed 16-byte header in network order followed by the
  payload, \<open>decode\<close> accepts exactly one whole frame, \<open>peekFrameSize\<close> reads the length of the
  frame a byte stream starts with. A null pointer is \<open>None\<close>. The lemmas give the round trip in
  both directions and the agreement of \<open>peekFrameSize\<close> with \<open>decode\<close>.
\<close>

subsection \<open>Messages\<close>

definition IPC_PROTOCOL_VERSION :: u8 where
  "IPC_PROTOCOL_VERSION = 2"

definition IPC_MAX_FRAME_SIZE :: nat where
  "IPC_MAX_FRAME_SIZE = 1024 * 1024"

record ipc_header =
  h_version :: u8
  h_src :: ipc_daemon
  h_dst :: ipc_daemon
  h_flags :: u8
  h_cmd :: ipc_cmd
  h_seqNo :: u32

definition header_build :: "ipc_daemon \<Rightarrow> ipc_daemon \<Rightarrow> ipc_cmd \<Rightarrow> u32 \<Rightarrow> u8 \<Rightarrow> ipc_header" where
  "header_build src dst cmd seqNo flags =
     \<lparr>h_version = IPC_PROTOCOL_VERSION, h_src = src, h_dst = dst, h_flags = flags, h_cmd = cmd,
      h_seqNo = seqNo\<rparr>"

record ipc_message =
  msg_header :: ipc_header
  msg_payload :: bytes

abbreviation msg_src :: "ipc_message \<Rightarrow> ipc_daemon" where "msg_src m \<equiv> h_src (msg_header m)"
abbreviation msg_dst :: "ipc_message \<Rightarrow> ipc_daemon" where "msg_dst m \<equiv> h_dst (msg_header m)"
abbreviation msg_cmd :: "ipc_message \<Rightarrow> ipc_cmd" where "msg_cmd m \<equiv> h_cmd (msg_header m)"
abbreviation msg_flags :: "ipc_message \<Rightarrow> u8" where "msg_flags m \<equiv> h_flags (msg_header m)"
abbreviation msg_seqNo :: "ipc_message \<Rightarrow> u32" where "msg_seqNo m \<equiv> h_seqNo (msg_header m)"

text \<open>A message built by \<^verbatim>\<open>IpcHeader::build\<close> and \<^verbatim>\<open>setPayload\<close>.\<close>

definition mk_message :: "ipc_daemon \<Rightarrow> ipc_daemon \<Rightarrow> ipc_cmd \<Rightarrow> u32 \<Rightarrow> u8 \<Rightarrow> bytes \<Rightarrow> ipc_message" where
  "mk_message src dst cmd seqNo flags payload =
     \<lparr>msg_header = header_build src dst cmd seqNo flags, msg_payload = payload\<rparr>"

lemma mk_message_sel [simp]:
  "msg_src (mk_message s d c n f p) = s" "msg_dst (mk_message s d c n f p) = d"
  "msg_cmd (mk_message s d c n f p) = c" "msg_flags (mk_message s d c n f p) = f"
  "msg_seqNo (mk_message s d c n f p) = n" "msg_payload (mk_message s d c n f p) = p"
  "h_version (msg_header (mk_message s d c n f p)) = IPC_PROTOCOL_VERSION"
  by (simp_all add: mk_message_def header_build_def)

subsection \<open>The wire header\<close>

record wire_header =
  w_version :: u8
  w_src :: u8
  w_dst :: u8
  w_flags :: u8
  w_cmd :: u16
  w_reserved :: u16
  w_seqNo :: u32
  w_payloadLen :: u32

definition headerLen :: nat where
  "headerLen = 16"

definition hostToNet :: "wire_header \<Rightarrow> wire_header" where
  "hostToNet h = h\<lparr>w_cmd := htons (w_cmd h), w_reserved := htons (w_reserved h),
     w_seqNo := htonl (w_seqNo h), w_payloadLen := htonl (w_payloadLen h)\<rparr>"

definition netToHost :: "wire_header \<Rightarrow> wire_header" where
  "netToHost h = h\<lparr>w_cmd := ntohs (w_cmd h), w_reserved := ntohs (w_reserved h),
     w_seqNo := ntohl (w_seqNo h), w_payloadLen := ntohl (w_payloadLen h)\<rparr>"

text \<open>The packed struct in memory, copied out and in by \<^verbatim>\<open>memcpy\<close>.\<close>

definition wire_store :: "wire_header \<Rightarrow> bytes" where
  "wire_store h = [w_version h, w_src h, w_dst h, w_flags h] @ mem16 (w_cmd h) @
     mem16 (w_reserved h) @ mem32 (w_seqNo h) @ mem32 (w_payloadLen h)"

definition wire_load :: "bytes \<Rightarrow> wire_header" where
  "wire_load bs =
     \<lparr>w_version = bs ! 0, w_src = bs ! 1, w_dst = bs ! 2, w_flags = bs ! 3,
      w_cmd = load16 (take 2 (drop 4 bs)), w_reserved = load16 (take 2 (drop 6 bs)),
      w_seqNo = load32 (take 4 (drop 8 bs)), w_payloadLen = load32 (take 4 (drop 12 bs))\<rparr>"

definition toWireHeader :: "ipc_message \<Rightarrow> wire_header" where
  "toWireHeader m =
     \<lparr>w_version = h_version (msg_header m), w_src = u8_of_daemon (msg_src m),
      w_dst = u8_of_daemon (msg_dst m), w_flags = msg_flags m, w_cmd = u16_of_cmd (msg_cmd m),
      w_reserved = 0, w_seqNo = msg_seqNo m, w_payloadLen = of_nat (length (msg_payload m))\<rparr>"

lemma length_wire_store [simp]: "length (wire_store h) = 16"
  by (simp add: wire_store_def)

lemma netToHost_hostToNet [simp]: "netToHost (hostToNet h) = h"
  by (simp add: netToHost_def hostToNet_def bytes_simps)

lemma wire_load_store [simp]: "wire_load (wire_store h @ bs) = h"
  by (simp add: wire_load_def wire_store_def bytes_simps nth_append)

lemma wire_load_store_Nil [simp]: "wire_load (wire_store h) = h"
  using wire_load_store [of h "[]"] by simp

subsection \<open>The codec\<close>

datatype decode_result = DecOk | DecNeedMoreData | DecInvalidFrame | DecTooLarge
datatype peek_result = PeekOk | PeekNeedMoreData | PeekInvalidFrame

definition encode :: "ipc_message option \<Rightarrow> bytes" where
  "encode msg = (case msg of None \<Rightarrow> []
     | Some m \<Rightarrow>
        (let payloadLen = length (msg_payload m) in
         if payloadLen > IPC_MAX_FRAME_SIZE - headerLen then []
         else wire_store (hostToNet (toWireHeader m)) @ msg_payload m))"

definition decode :: "bytes option \<Rightarrow> decode_result \<times> ipc_message option" where
  "decode frame = (case frame of None \<Rightarrow> (DecInvalidFrame, None)
     | Some bs \<Rightarrow>
        if length bs < headerLen then (DecNeedMoreData, None)
        else
          let wire = netToHost (wire_load (take headerLen bs)) in
          if w_version wire \<noteq> IPC_PROTOCOL_VERSION then (DecInvalidFrame, None)
          else if w_reserved wire \<noteq> 0 then (DecInvalidFrame, None)
          else if unat (w_payloadLen wire) > IPC_MAX_FRAME_SIZE - headerLen then (DecTooLarge, None)
          else
            let totalLen = headerLen + unat (w_payloadLen wire) in
            if length bs < totalLen then (DecNeedMoreData, None)
            else if length bs \<noteq> totalLen then (DecInvalidFrame, None)
            else
              let header = header_build (daemon_of_u8 (w_src wire)) (daemon_of_u8 (w_dst wire))
                             (cmd_of_u16 (w_cmd wire)) (w_seqNo wire) (w_flags wire);
                  header = header\<lparr>h_version := w_version wire\<rparr>;
                  payload = take (unat (w_payloadLen wire)) (drop headerLen bs)
              in (DecOk, Some \<lparr>msg_header = header, msg_payload = payload\<rparr>))"

definition peekFrameSize :: "bytes option \<Rightarrow> peek_result \<times> nat" where
  "peekFrameSize data = (case data of None \<Rightarrow> (PeekNeedMoreData, 0)
     | Some bs \<Rightarrow>
        if length bs < headerLen then (PeekNeedMoreData, 0)
        else
          let wire = netToHost (wire_load (take headerLen bs)) in
          if w_version wire \<noteq> IPC_PROTOCOL_VERSION then (PeekInvalidFrame, 0)
          else if w_reserved wire \<noteq> 0 then (PeekInvalidFrame, 0)
          else if unat (w_payloadLen wire) > IPC_MAX_FRAME_SIZE - headerLen then (PeekInvalidFrame, 0)
          else (PeekOk, headerLen + unat (w_payloadLen wire)))"

subsection \<open>Well-formed messages\<close>

text \<open>
  What the wire can carry: the protocol's version, ids in canonical form, and a payload that fits
  a frame. Every message \<open>decode\<close> produces is of this kind.
\<close>

definition wf_message :: "ipc_message \<Rightarrow> bool" where
  "wf_message m \<longleftrightarrow> h_version (msg_header m) = IPC_PROTOCOL_VERSION \<and>
     known_daemon (msg_src m) \<and> known_daemon (msg_dst m) \<and> known_cmd (msg_cmd m) \<and>
     length (msg_payload m) \<le> IPC_MAX_FRAME_SIZE - headerLen"

lemma payload_len_u32:
  "n \<le> IPC_MAX_FRAME_SIZE - headerLen \<Longrightarrow> unat (of_nat n :: u32) = n"
  by (simp add: unsigned_of_nat take_bit_nat_eq_self IPC_MAX_FRAME_SIZE_def headerLen_def)

lemma encode_wf:
  "wf_message m \<Longrightarrow> encode (Some m) = wire_store (hostToNet (toWireHeader m)) @ msg_payload m"
  by (simp add: encode_def wf_message_def Let_def)

lemma length_encode_wf: "wf_message m \<Longrightarrow> length (encode (Some m)) = headerLen + length (msg_payload m)"
  by (simp add: encode_wf headerLen_def)

lemma encode_nonempty: "wf_message m \<Longrightarrow> encode (Some m) \<noteq> []"
  by (auto simp: length_encode_wf headerLen_def simp flip: length_0_conv)

lemma encode_empty_iff:
  "encode (Some m) = [] \<longleftrightarrow> length (msg_payload m) > IPC_MAX_FRAME_SIZE - headerLen"
  by (auto simp: encode_def Let_def simp flip: length_0_conv)

lemma message_of_wire:
  assumes "wf_message m"
  shows "\<lparr>msg_header = header_build (daemon_of_u8 (w_src (toWireHeader m)))
            (daemon_of_u8 (w_dst (toWireHeader m))) (cmd_of_u16 (w_cmd (toWireHeader m)))
            (w_seqNo (toWireHeader m)) (w_flags (toWireHeader m))
            \<lparr>h_version := w_version (toWireHeader m)\<rparr>,
          msg_payload = msg_payload m\<rparr> = m"
  using assms
  by (cases m) (simp add: toWireHeader_def header_build_def wf_message_def known_daemon_def known_cmd_def)

lemma decode_encode:
  assumes "wf_message m"
  shows "decode (Some (encode (Some m))) = (DecOk, Some m)"
proof -
  have len: "length (msg_payload m) \<le> IPC_MAX_FRAME_SIZE - headerLen"
    using assms by (simp add: wf_message_def)
  have w: "netToHost (wire_load (take headerLen (encode (Some m)))) = toWireHeader m"
    by (simp add: encode_wf [OF assms] headerLen_def)
  have f: "w_version (toWireHeader m) = IPC_PROTOCOL_VERSION" "w_reserved (toWireHeader m) = 0"
    "unat (w_payloadLen (toWireHeader m)) = length (msg_payload m)"
    using assms by (simp_all add: toWireHeader_def wf_message_def payload_len_u32 [OF len])
  have d: "drop headerLen (encode (Some m)) = msg_payload m"
    by (simp add: encode_wf [OF assms] headerLen_def)
  show ?thesis
    using message_of_wire [OF assms] len
    by (simp add: decode_def w f d length_encode_wf [OF assms] Let_def)
qed

lemma peek_encode:
  assumes "wf_message m"
  shows "peekFrameSize (Some (take headerLen (encode (Some m) @ rest)))
       = (PeekOk, length (encode (Some m)))"
proof -
  have len: "length (msg_payload m) \<le> IPC_MAX_FRAME_SIZE - headerLen"
    using assms by (simp add: wf_message_def)
  have "netToHost (wire_load (take headerLen (encode (Some m) @ rest))) = toWireHeader m"
    by (simp add: encode_wf [OF assms] headerLen_def)
  then show ?thesis
    using assms len length_encode_wf [OF assms]
    by (simp add: peekFrameSize_def Let_def toWireHeader_def wf_message_def payload_len_u32 headerLen_def)
qed

lemma length_16_conv:
  "length xs = 16 \<Longrightarrow> \<exists>a b c d e f g h i j k l m n p q. xs = [a,b,c,d,e,f,g,h,i,j,k,l,m,n,p,q]"
  by (auto simp: numeral_eq_Suc length_Suc_conv)

lemma wire_store_load:
  assumes "length bs = 16"
  shows "wire_store (wire_load bs) = bs"
proof -
  from length_16_conv [OF assms] obtain a b c d e f g h i j k l m n p q
    where bs: "bs = [a,b,c,d,e,f,g,h,i,j,k,l,m,n,p,q]" by blast
  show ?thesis
    by (simp add: bs wire_store_def wire_load_def mem16_load16_list mem32_load32_list)
qed

lemma htonl_ntohl: "htonl (ntohl w) = w"
  using ntohl_htonl [of w] by (simp add: ntohl_def htonl_def)

lemma htons_ntohs: "htons (ntohs w) = w"
  using ntohs_htons [of w] by (simp add: ntohs_def htons_def)

lemma hostToNet_netToHost [simp]: "hostToNet (netToHost h) = h"
  by (simp add: netToHost_def hostToNet_def htons_ntohs htonl_ntohl)

lemma decode_OkD:
  assumes "decode (Some bs) = (DecOk, Some m)"
  defines "wire \<equiv> netToHost (wire_load (take headerLen bs))"
  shows "headerLen \<le> length bs" and "w_version wire = IPC_PROTOCOL_VERSION" and "w_reserved wire = 0"
    and "unat (w_payloadLen wire) \<le> IPC_MAX_FRAME_SIZE - headerLen"
    and "length bs = headerLen + unat (w_payloadLen wire)"
    and "m = \<lparr>msg_header = header_build (daemon_of_u8 (w_src wire)) (daemon_of_u8 (w_dst wire))
               (cmd_of_u16 (w_cmd wire)) (w_seqNo wire) (w_flags wire)\<lparr>h_version := w_version wire\<rparr>,
             msg_payload = take (unat (w_payloadLen wire)) (drop headerLen bs)\<rparr>"
  using assms by (auto simp: decode_def Let_def split: if_splits)

lemma decode_wf: "decode (Some bs) = (DecOk, Some m) \<Longrightarrow> wf_message m"
  using decode_OkD [of bs m] by (simp add: wf_message_def header_build_def)

lemma encode_decode:
  assumes "decode (Some bs) = (DecOk, Some m)"
  shows "encode (Some m) = bs"
proof -
  note d = decode_OkD [OF assms]
  let ?wire = "netToHost (wire_load (take headerLen bs))"
  have pl: "length (msg_payload m) = unat (w_payloadLen ?wire)"
    using d(5,6) by simp
  have "toWireHeader m = ?wire"
    using d(2,3) pl arg_cong [OF d(6), of msg_header]
    by (simp add: toWireHeader_def header_build_def u8_of_daemon_of_u8 u16_of_cmd_of_u16)
  then have "wire_store (hostToNet (toWireHeader m)) = take headerLen bs"
    using d(1) by (simp add: wire_store_load headerLen_def)
  moreover have "msg_payload m = drop headerLen bs" using d(5,6) by simp
  ultimately show ?thesis by (simp add: encode_wf [OF decode_wf [OF assms]])
qed

lemma decode_Ok_iff: "decode (Some bs) = (DecOk, Some m) \<longleftrightarrow> wf_message m \<and> bs = encode (Some m)"
  using decode_encode decode_wf encode_decode by blast

lemma encode_inj: "wf_message m \<Longrightarrow> wf_message m' \<Longrightarrow> encode (Some m) = encode (Some m') \<Longrightarrow> m = m'"
  by (metis decode_encode option.inject prod.inject)

text \<open>\<open>peekFrameSize\<close> answers by the first 16 bytes alone.\<close>

lemma peek_prefix: "headerLen \<le> length bs \<Longrightarrow>
    peekFrameSize (Some (take headerLen bs)) = peekFrameSize (Some bs)"
  by (simp add: peekFrameSize_def)

lemma peek_Ok_decode:
  assumes "peekFrameSize (Some bs) = (PeekOk, n)" and "n \<le> length bs"
  shows "\<exists>m. decode (Some (take n bs)) = (DecOk, Some m)"
proof -
  have n: "headerLen \<le> n" using assms(1) by (auto simp: peekFrameSize_def Let_def split: if_splits)
  then have "take headerLen (take n bs) = take headerLen bs" by (simp add: min_absorb1)
  then show ?thesis using assms n
    by (auto simp: peekFrameSize_def decode_def Let_def split: if_splits)
qed

lemma peek_Ok_bounds: "peekFrameSize (Some bs) = (PeekOk, n) \<Longrightarrow> headerLen \<le> n \<and> n \<le> IPC_MAX_FRAME_SIZE"
  by (auto simp: peekFrameSize_def Let_def headerLen_def IPC_MAX_FRAME_SIZE_def split: if_splits)

subsection \<open>Properties\<close>

text \<open>C2. \<open>encode\<close> and \<open>decode\<close> are inverse to each other: \<open>decode\<close> accepts a byte string as a
  message exactly when that message is well formed and the byte string is its encoding. So every
  message survives the wire unchanged, every accepted frame is the only encoding of its message, and
  no two well-formed messages share a frame.\<close>

theorem codec_bijection:
  "decode (Some bs) = (DecOk, Some m) \<longleftrightarrow> wf_message m \<and> encode (Some m) = bs"
  using decode_Ok_iff [of bs m] by auto

text \<open>The frame length read from the first 16 bytes agrees with \<open>decode\<close>: when \<open>peekFrameSize\<close>
  gives a length and that many bytes have arrived, \<open>decode\<close> accepts them; the length is between the
  header's and the maximum; and the answer depends on the header alone.\<close>

theorem peek_agrees_with_decode:
  assumes "peekFrameSize (Some bs) = (PeekOk, n)"
  shows "headerLen \<le> n \<and> n \<le> IPC_MAX_FRAME_SIZE \<and>
    (n \<le> length bs \<longrightarrow> fst (decode (Some (take n bs))) = DecOk) \<and>
    (length bs < n \<longrightarrow> fst (decode (Some bs)) = DecNeedMoreData) \<and>
    peekFrameSize (Some (take headerLen bs @ other)) = (PeekOk, n)"
proof (intro conjI impI)
  show "headerLen \<le> n" "n \<le> IPC_MAX_FRAME_SIZE" using peek_Ok_bounds [OF assms] by auto
  show "fst (decode (Some (take n bs))) = DecOk" if "n \<le> length bs"
    using peek_Ok_decode [OF assms that] by auto
  show "fst (decode (Some bs)) = DecNeedMoreData" if "length bs < n"
    using assms that by (auto simp: peekFrameSize_def decode_def Let_def split: if_splits)
  have "headerLen \<le> length bs" using assms by (auto simp: peekFrameSize_def split: if_splits)
  then show "peekFrameSize (Some (take headerLen bs @ other)) = (PeekOk, n)"
    using assms by (simp add: peekFrameSize_def)
qed

theorem peek_agrees_with_decode_witness:
  "let bs = [2, 3, 1, 1, 0, 1, 0, 0, 0, 0, 0, 7, 0, 0, 0, 2, 65, 66, 2, 3]
   in fst (decode (Some (take 18 bs))) = DecOk"
proof -
  have "peekFrameSize (Some [2, 3, 1, 1, 0, 1, 0, 0, 0, 0, 0, 7, 0, 0, 0, 2, 65, 66, 2, 3])
      = (PeekOk, 18)"
    by (simp add: peekFrameSize_def headerLen_def wire_load_def netToHost_def IPC_PROTOCOL_VERSION_def
        IPC_MAX_FRAME_SIZE_def ntohs_def ntohl_def load16_def load32_def mem16_def mem32_def)
  from peek_agrees_with_decode [OF this] show ?thesis by simp
qed

end
