(* ===== verification/Ipc_Framing.thy ===== *)
theory Ipc_Framing
  imports Byte_Ring Ipc_Codec
begin

text \<open>
  One connection and the framing above it: \<^verbatim>\<open>shared/ipc/IpcConnection\<close> (receive and send
  loops over the two rings) and \<^verbatim>\<open>shared/ipc/IpcHandler\<close> (cutting the received bytes into
  frames). The kernel is the list of results its next calls give; \<open>None\<close> means that the list was
  used up while the loop was still running. \<^verbatim>\<open>ingress\<close> is a virtual method, so it is an argument,
  with the state it works on; it may destroy the connection it is called from, which \<open>alive\<close> tells.
\<close>

subsection \<open>The connection\<close>

datatype io_result = IoOk | IoWouldBlock | IoPeerClosed | IoBufferFull | IoError

record ipc_connection =
  c_fd :: int
  c_rx :: ring
  c_tx :: ring

definition conn_new :: "int \<Rightarrow> nat \<Rightarrow> nat \<Rightarrow> ipc_connection" where
  "conn_new fd rxBuf txBuf =
     \<lparr>c_fd = fd, c_rx = rb_new (max rxBuf IPC_MAX_FRAME_SIZE),
      c_tx = rb_new (max txBuf IPC_MAX_FRAME_SIZE)\<rparr>"

text \<open>
  \<open>RecvBytes bs\<close>: the peer's bytes \<open>bs\<close> are in the socket (none left and the peer gone when \<open>bs\<close>
  is empty). A call takes as many as the pointer has room for; the rest stays in the socket.
\<close>

datatype recv_outcome = RecvBytes bytes | RecvErr errno

primrec outcome_size :: "recv_outcome \<Rightarrow> nat" where
  "outcome_size (RecvBytes bs) = Suc (length bs)"
| "outcome_size (RecvErr e) = 1"

function conn_recv :: "recv_outcome list \<Rightarrow> ring \<Rightarrow>
    (io_result \<times> errno option \<times> ring \<times> recv_outcome list) option" where
  "conn_recv env rx =
     (if rb_writeLen rx = 0 then Some (IoBufferFull, None, rx, env)
      else case env of
        [] \<Rightarrow> None
      | RecvBytes bs # env' \<Rightarrow>
          if bs = [] then Some (IoPeerClosed, None, rx, env')
          else
            let n = min (rb_writeLen rx) (length bs);
                rx' = rb_produce n (rb_fill (take n bs) rx)
            in conn_recv (if n < length bs then RecvBytes (drop n bs) # env' else env') rx'
      | RecvErr e # env' \<Rightarrow>
          if e = EINTR then conn_recv env' rx
          else if e = EAGAIN then Some (IoWouldBlock, None, rx, env')
          else Some (IoError, Some e, rx, env'))"
  by pat_completeness auto
termination
  by (relation "measure (\<lambda>(env, rx). sum_list (map outcome_size env))") (auto simp: min_def)

declare conn_recv.simps [simp del]

datatype send_outcome = SendCount nat | SendErr errno

text \<open>The result carries the bytes handed to the kernel.\<close>

fun conn_send :: "send_outcome list \<Rightarrow> ring \<Rightarrow> (io_result \<times> errno option \<times> ring \<times> bytes) option" where
  "conn_send env tx =
     (if rb_readable tx = 0 then Some (IoOk, None, tx, [])
      else case env of
        [] \<Rightarrow> None
      | SendCount k # env' \<Rightarrow>
          let rlen = rb_readLen tx; n = min k rlen in
          if n > 0 then
            (if n < rlen then Some (IoWouldBlock, None, rb_consume n tx, rb_view tx n)
             else map_option (\<lambda>(r, e, tx', out). (r, e, tx', rb_view tx n @ out))
                    (conn_send env' (rb_consume n tx)))
          else Some (IoPeerClosed, None, tx, [])
      | SendErr e # env' \<Rightarrow>
          if e = EINTR then conn_send env' tx
          else if e = EAGAIN then Some (IoWouldBlock, None, tx, [])
          else Some (IoError, Some e, tx, []))"

declare conn_send.simps [simp del]

definition conn_write :: "bytes \<Rightarrow> ring \<Rightarrow> bool \<times> ring" where
  "conn_write bs tx =
     (if bs = [] then (True, tx)
      else if rb_writable tx < length bs then (False, tx)
      else (True, fst (rb_write tx bs)))"

lemmas conn_recv_steps =
  conn_recv.simps [of "[]" for rx] conn_recv.simps [of "RecvBytes bs # env" for bs env rx]
  conn_recv.simps [of "RecvErr err # env" for err env rx]

lemmas conn_send_steps =
  conn_send.simps [of "[]" for tx] conn_send.simps [of "SendCount k # env" for k env tx]
  conn_send.simps [of "SendErr err # env" for err env tx]

text \<open>The bytes still in the socket.\<close>

primrec socket_bytes :: "recv_outcome \<Rightarrow> bytes" where
  "socket_bytes (RecvBytes bs) = bs"
| "socket_bytes (RecvErr e) = []"

definition in_flight :: "recv_outcome list \<Rightarrow> bytes" where
  "in_flight env = concat (map socket_bytes env)"

lemma in_flight_simps [simp]:
  "in_flight [] = []" "in_flight (RecvBytes bs # env) = bs @ in_flight env"
  "in_flight (RecvErr e # env) = in_flight env"
  by (simp_all add: in_flight_def)

lemma conn_recv_conserves:
  "ring_ok rx \<Longrightarrow> conn_recv env rx = Some (res, e, rx', env') \<Longrightarrow>
     ring_ok rx' \<and> rb_capacity rx' = rb_capacity rx \<and>
     rb_list rx' @ in_flight env' = rb_list rx @ in_flight env \<and>
     (res = IoBufferFull \<longleftrightarrow> rb_writable rx' = 0)"
proof (induction env rx rule: conn_recv.induct)
  case (1 env rx)
  have wl: "rb_writeLen rx = 0 \<longleftrightarrow> rb_writable rx = 0"
    using rb_writeLen_pos [OF "1.prems"(1)] rb_writeLen_le [of rx]
    by (cases "rb_writable rx = 0") simp_all
  show ?case
  proof (cases "rb_writeLen rx = 0")
    case True
    with "1.prems" wl show ?thesis by (simp add: conn_recv.simps [of env rx])
  next
    case False
    show ?thesis
    proof (cases env)
      case Nil
      with "1.prems" False show ?thesis by (simp add: conn_recv_steps)
    next
      case (Cons o1 env1)
      show ?thesis
      proof (cases o1)
        case (RecvErr err)
        with Cons "1.prems" "1.IH"(2) False wl show ?thesis
          by (auto simp: conn_recv_steps split: if_splits)
      next
        case (RecvBytes bs)
        show ?thesis
        proof (cases "bs = []")
          case True
          with RecvBytes Cons "1.prems" False wl show ?thesis
            by (auto simp: conn_recv_steps)
        next
          case ne: False
          let ?n = "min (rb_writeLen rx) (length bs)"
          let ?rx1 = "rb_produce ?n (rb_fill (take ?n bs) rx)"
          let ?env2 = "if ?n < length bs then RecvBytes (drop ?n bs) # env1 else env1"
          have len: "length (take ?n bs) = ?n" by simp
          have step: "ring_ok ?rx1 \<and> rb_capacity ?rx1 = rb_capacity rx \<and>
              rb_list ?rx1 = rb_list rx @ take ?n bs"
            using fill_produce_ok [OF "1.prems"(1), of "take ?n bs"]
              fill_produce_list [OF "1.prems"(1), of "take ?n bs"] len by simp
          have "conn_recv ?env2 ?rx1 = Some (res, e, rx', env')"
            using "1.prems"(2) False ne Cons RecvBytes
            by (simp add: conn_recv_steps Let_def)
          from "1.IH"(1) [OF False Cons RecvBytes ne refl refl _ this] step
          have "ring_ok rx' \<and> rb_capacity rx' = rb_capacity rx \<and>
              rb_list rx' @ in_flight env' = rb_list rx @ take ?n bs @ in_flight ?env2 \<and>
              (res = IoBufferFull \<longleftrightarrow> rb_writable rx' = 0)" by simp
          moreover have "take ?n bs @ in_flight ?env2 = in_flight env"
            using Cons RecvBytes by (cases "?n < length bs") auto
          ultimately show ?thesis by simp
        qed
      qed
    qed
  qed
qed

lemma conn_send_conserves:
  "ring_ok tx \<Longrightarrow> conn_send env tx = Some (res, e, tx', out) \<Longrightarrow>
     ring_ok tx' \<and> rb_capacity tx' = rb_capacity tx \<and> out @ rb_list tx' = rb_list tx \<and>
     (res = IoOk \<longleftrightarrow> rb_list tx' = []) \<and> res \<noteq> IoBufferFull"
proof (induction env tx arbitrary: res e tx' out rule: conn_send.induct)
  case (1 env tx)
  have empty: "rb_readable tx = 0 \<longleftrightarrow> rb_list tx = []"
    by (auto simp: rb_readable_def simp flip: length_0_conv)
  show ?case
  proof (cases "rb_readable tx = 0")
    case True
    with "1.prems" empty show ?thesis by (simp add: conn_send.simps [of env tx])
  next
    case False
    show ?thesis
    proof (cases env)
      case Nil
      with "1.prems"(2) False show ?thesis by (simp add: conn_send_steps)
    next
      case (Cons o1 env1)
      show ?thesis
      proof (cases o1)
        case (SendErr err)
        with Cons "1.prems" "1.IH"(2) False empty show ?thesis
          by (auto simp: conn_send_steps split: if_splits)
      next
        case (SendCount k)
        let ?n = "min k (rb_readLen tx)"
        have nle: "?n \<le> m_size tx" using readLen_le [of tx] by simp
        have view: "rb_view tx ?n = take ?n (rb_list tx)" by (rule view_list [OF "1.prems"(1)]) simp
        have cons: "rb_list (rb_consume ?n tx) = drop ?n (rb_list tx)"
          by (rule consume_list [OF "1.prems"(1) nle])
        have ok: "ring_ok (rb_consume ?n tx)" by (rule consume_ok [OF "1.prems"(1) nle])
        consider (closed) "?n = 0" | (partial) "0 < ?n" "?n < rb_readLen tx"
          | (all) "0 < ?n" "\<not> ?n < rb_readLen tx" by linarith
        then show ?thesis
        proof cases
          case closed
          then have "k = 0" using readLen_pos [OF "1.prems"(1)] False
            by (auto simp: min_def split: if_splits)
          with False Cons SendCount "1.prems" empty show ?thesis
            by (simp add: conn_send_steps Let_def)
        next
          case partial
          then have k: "k < rb_readLen tx" "0 < k" by (auto simp: min_def split: if_splits)
          then have "k < m_size tx" using readLen_le [of tx] by simp
          with k False Cons SendCount "1.prems" ok cons view show ?thesis
            by (auto simp: conn_send_steps Let_def)
        next
          case all
          then have k: "0 < k" "?n = rb_readLen tx" "\<not> k < rb_readLen tx" by (auto simp: min_def split: if_splits)
          then obtain out1 where rec: "conn_send env1 (rb_consume ?n tx) = Some (res, e, tx', out1)"
            and out: "out = rb_view tx ?n @ out1"
            using all(1) False Cons SendCount "1.prems"(2)
            by (auto simp: conn_send_steps Let_def min_def split: if_splits)
          from "1.IH"(1) [OF False Cons SendCount refl refl all ok rec] cons out view
          show ?thesis by (simp add: append_assoc)
        qed
      qed
    qed
  qed
qed

lemma conn_write_correct:
  assumes "ring_ok tx"
  shows "fst (conn_write bs tx) \<longleftrightarrow> length (rb_list tx) + length bs \<le> rb_capacity tx"
    and "ring_ok (snd (conn_write bs tx))"
    and "rb_capacity (snd (conn_write bs tx)) = rb_capacity tx"
    and "rb_list (snd (conn_write bs tx)) = rb_list tx @ (if fst (conn_write bs tx) then bs else [])"
proof -
  have "m_size tx \<le> rb_capacity tx" using assms by (simp add: ring_ok_def)
  then show "fst (conn_write bs tx) \<longleftrightarrow> length (rb_list tx) + length bs \<le> rb_capacity tx"
    by (auto simp: conn_write_def rb_writable_def)
  show "ring_ok (snd (conn_write bs tx))"
    and "rb_capacity (snd (conn_write bs tx)) = rb_capacity tx"
    and "rb_list (snd (conn_write bs tx)) = rb_list tx @ (if fst (conn_write bs tx) then bs else [])"
    using assms by (auto simp: conn_write_def write_correct)
qed

subsection \<open>Flushing\<close>

text \<open>
  \<^verbatim>\<open>IpcHandler::handleSend\<close>: flush, then keep or drop the interest in writability. The result
  is \<open>False\<close> when the caller must close the connection.
\<close>

definition ipc_handleSend :: "int \<Rightarrow> send_outcome list \<Rightarrow> ring \<Rightarrow> epoll \<Rightarrow>
    (bool \<times> ring \<times> epoll \<times> bytes) option" where
  "ipc_handleSend fd env tx ep =
     map_option (\<lambda>(rc, e, tx', out).
       case rc of
         IoOk \<Rightarrow> (let (ok, ep') = epoll_mod fd [EPOLLIN, EPOLLRDHUP] ep in (ok, tx', ep', out))
       | IoWouldBlock \<Rightarrow>
           (let (ok, ep') = epoll_mod fd [EPOLLIN, EPOLLOUT, EPOLLRDHUP] ep in (ok, tx', ep', out))
       | IoPeerClosed \<Rightarrow> (False, tx', ep, out)
       | IoBufferFull \<Rightarrow> (False, tx', ep, out)
       | IoError \<Rightarrow> (False, tx', ep, out)) (conn_send env tx)"

lemma epoll_mod_set:
  "fst (epoll_mod fd evs ep) \<longleftrightarrow> \<not> ep_refuses ep fd \<and> ep_set ep fd \<noteq> None"
  "fst (epoll_mod fd evs ep) \<Longrightarrow> ep_set (snd (epoll_mod fd evs ep)) = (ep_set ep)(fd \<mapsto> evs)"
  "dom (ep_set (snd (epoll_mod fd evs ep))) = dom (ep_set ep)"
  "ep_refuses (snd (epoll_mod fd evs ep)) = ep_refuses ep"
  by (auto simp: epoll_mod_def)

text \<open>
  After a flush that keeps the connection, writability is watched exactly when bytes are left.
\<close>

lemma handleSend_interest:
  assumes "ring_ok tx" and "ipc_handleSend fd env tx ep = Some (True, tx', ep', out)"
  shows "ring_ok tx'" and "out @ rb_list tx' = rb_list tx"
    and "\<exists>evs. ep_set ep' fd = Some evs \<and> EPOLLIN \<in> set evs \<and> (EPOLLOUT \<in> set evs \<longleftrightarrow> rb_list tx' \<noteq> [])"
proof -
  from assms(2) obtain rc e tx1 out1 where send1: "conn_send env tx = Some (rc, e, tx1, out1)"
    by (auto simp: ipc_handleSend_def)
  then have rc: "(rc = IoOk \<and> epoll_mod fd [EPOLLIN, EPOLLRDHUP] ep = (True, ep')) \<or>
      (rc = IoWouldBlock \<and> epoll_mod fd [EPOLLIN, EPOLLOUT, EPOLLRDHUP] ep = (True, ep'))"
    and eqs: "tx1 = tx'" "out1 = out"
    using assms(2) by (cases rc; auto simp: ipc_handleSend_def Let_def split: prod.splits)+
  from send1 eqs have send: "conn_send env tx = Some (rc, e, tx', out)" by simp
  note c = conn_send_conserves [OF assms(1) send]
  show "ring_ok tx'" and "out @ rb_list tx' = rb_list tx" using c by auto
  show "\<exists>evs. ep_set ep' fd = Some evs \<and> EPOLLIN \<in> set evs \<and> (EPOLLOUT \<in> set evs \<longleftrightarrow> rb_list tx' \<noteq> [])"
    using rc c by (auto simp: epoll_mod_def split: if_splits)
qed

lemma handleSend_ring:
  assumes "ring_ok tx" and "ipc_handleSend fd env tx ep = Some (b, tx', ep', out)"
  shows "ring_ok tx'" and "rb_capacity tx' = rb_capacity tx" and "out @ rb_list tx' = rb_list tx"
proof -
  from assms(2) obtain rc e tx1 out1 where c: "conn_send env tx = Some (rc, e, tx1, out1)"
    by (auto simp: ipc_handleSend_def)
  then have "tx1 = tx' \<and> out1 = out"
    using assms(2) by (cases rc) (auto simp: ipc_handleSend_def Let_def split: prod.splits)
  with c have "conn_send env tx = Some (rc, e, tx', out)" by simp
  from conn_send_conserves [OF assms(1) this]
  show "ring_ok tx'" and "rb_capacity tx' = rb_capacity tx" and "out @ rb_list tx' = rb_list tx"
    by simp_all
qed

lemma handleSend_dom:
  assumes "ipc_handleSend fd env tx ep = Some (b, tx', ep', out)"
  shows "dom (ep_set ep') = dom (ep_set ep) \<and> ep_refuses ep' = ep_refuses ep"
proof -
  from assms obtain rc e tx1 out1 where "conn_send env tx = Some (rc, e, tx1, out1)"
    by (auto simp: ipc_handleSend_def)
  then show ?thesis using assms
    by (cases rc) (auto simp: ipc_handleSend_def Let_def epoll_mod_def split: if_splits)
qed

subsection \<open>Cutting frames\<close>

text \<open>
  \<^verbatim>\<open>IpcHandler::drainRxFrames\<close>. The outcome is whether the connection is kept, must be closed,
  or was destroyed by \<open>ingress\<close> while the loop still holds a reference to it: \<^verbatim>\<open>rx.consume\<close> after
  \<open>ingress\<close> would then touch freed memory.
\<close>

datatype drain_outcome = DrainKeep | DrainClose | DrainUseAfterFree

type_synonym 's ingress = "int \<Rightarrow> bytes \<Rightarrow> 's \<Rightarrow> bool \<times> 's"

function drainRxFrames :: "'s ingress \<Rightarrow> ('s \<Rightarrow> bool) \<Rightarrow> int \<Rightarrow> ring \<Rightarrow> 's \<Rightarrow>
    drain_outcome \<times> ring \<times> 's" where
  "drainRxFrames ingress alive fd rx s =
     (if rb_readable rx < headerLen then (DrainKeep, rx, s)
      else
        let headerBuf = rb_peek rx headerLen in
        if length headerBuf < headerLen then (DrainKeep, rx, s)
        else
          let (peekRc, frameSize) = peekFrameSize (Some headerBuf) in
          if peekRc = PeekNeedMoreData then (DrainKeep, rx, s)
          else if peekRc = PeekInvalidFrame then (DrainClose, rx, s)
          else if frameSize = 0 \<or> frameSize > IPC_MAX_FRAME_SIZE then (DrainClose, rx, s)
          else if rb_readable rx < frameSize then (DrainKeep, rx, s)
          else
            let frame = (if rb_readLen rx \<ge> frameSize then rb_view rx frameSize
                         else rb_peek rx frameSize) in
            if length frame < frameSize then (DrainClose, rx, s)
            else
              let (ok, s') = ingress fd frame s in
              if \<not> ok then (DrainClose, rx, s')
              else if \<not> alive s' then (DrainUseAfterFree, rx, s')
              else drainRxFrames ingress alive fd (rb_consume frameSize rx) s')"
  by pat_completeness auto
termination
  by (relation "measure (\<lambda>(ingress, alive, fd, rx, s). m_size rx)") (auto simp: rb_readable_def)

declare drainRxFrames.simps [simp del]

text \<open>
  The same on the byte sequence, one frame at a time: the reference the ring version is
  compared with.
\<close>

datatype next_frame = Incomplete | Malformed | Frame bytes

definition nextFrame :: "bytes \<Rightarrow> next_frame" where
  "nextFrame bs =
     (if length bs < headerLen then Incomplete
      else case peekFrameSize (Some bs) of
        (PeekOk, n) \<Rightarrow> if length bs < n then Incomplete else Frame (take n bs)
      | _ \<Rightarrow> Malformed)"

lemma nextFrame_Nil: "nextFrame [] = Incomplete"
  by (simp add: nextFrame_def headerLen_def)

lemma nextFrame_encode:
  assumes "wf_message m"
  shows "nextFrame (encode (Some m) @ rest) = Frame (encode (Some m))"
proof -
  have "headerLen \<le> length (encode (Some m) @ rest)"
    by (simp add: length_encode_wf [OF assms])
  from peek_prefix [OF this]
  have "peekFrameSize (Some (encode (Some m) @ rest)) = (PeekOk, length (encode (Some m)))"
    using peek_encode [OF assms, of rest] by simp
  then show ?thesis by (simp add: nextFrame_def length_encode_wf [OF assms])
qed

lemma nextFrame_FrameE:
  assumes "nextFrame bs = Frame f"
  obtains m where "wf_message m" "f = encode (Some m)" "take (length f) bs = f"
    "0 < length f" "length f \<le> length bs"
proof -
  from assms obtain n where n: "peekFrameSize (Some bs) = (PeekOk, n)" "n \<le> length bs" "f = take n bs"
    by (auto simp: nextFrame_def split: if_splits prod.splits peek_result.splits)
  from peek_Ok_decode [OF n(1,2)] obtain m where "decode (Some f) = (DecOk, Some m)"
    using n(3) by auto
  moreover have "length f = n" "0 < n"
    using n peek_Ok_bounds [OF n(1)] by (simp_all add: min_absorb2 headerLen_def)
  ultimately show ?thesis using that [of m] n by (simp add: decode_Ok_iff)
qed

lemma nextFrame_Frame_length:
  assumes "nextFrame (rb_list rx) = Frame f"
  shows "f \<noteq> []" and "length f \<le> m_size rx"
proof -
  from assms obtain m where "0 < length f" "length f \<le> length (rb_list rx)"
    by (rule nextFrame_FrameE)
  then show "f \<noteq> []" and "length f \<le> m_size rx" by simp_all
qed

lemma drain_unfold:
  assumes ok: "ring_ok rx"
  shows "drainRxFrames ingress alive fd rx s =
    (case nextFrame (rb_list rx) of
       Incomplete \<Rightarrow> (DrainKeep, rx, s)
     | Malformed \<Rightarrow> (DrainClose, rx, s)
     | Frame f \<Rightarrow>
         let (ok, s') = ingress fd f s in
         if \<not> ok then (DrainClose, rx, s')
         else if \<not> alive s' then (DrainUseAfterFree, rx, s')
         else drainRxFrames ingress alive fd (rb_consume (length f) rx) s')"
proof (cases "rb_readable rx < headerLen")
  case True
  then show ?thesis by (subst drainRxFrames.simps) (simp add: nextFrame_def rb_readable_def)
next
  case False
  then have len: "headerLen \<le> length (rb_list rx)" by (simp add: rb_readable_def)
  have hb: "rb_peek rx headerLen = take headerLen (rb_list rx)" by (rule peek_list [OF ok])
  obtain prc n where prc: "peekFrameSize (Some (rb_list rx)) = (prc, n)" by fastforce
  have frame: "(if rb_readLen rx \<ge> n then rb_view rx n else rb_peek rx n) = take n (rb_list rx)"
    using view_list [OF ok, of n] peek_list [OF ok, of n] by simp
  have bounds: "prc = PeekOk \<Longrightarrow> n \<noteq> 0 \<and> n \<le> IPC_MAX_FRAME_SIZE"
    using peek_Ok_bounds [of "rb_list rx" n] prc by (auto simp: headerLen_def)
  show ?thesis
  proof (cases "prc = PeekOk")
    case True
    with len bounds show ?thesis
      by (cases "m_size rx < n"; subst drainRxFrames.simps)
        (simp_all add: hb peek_prefix [OF len] prc nextFrame_def rb_readable_def Let_def frame
          min_absorb2 not_less split: prod.split)
  next
    case False
    then have "prc = PeekInvalidFrame"
      using prc len by (auto simp: peekFrameSize_def Let_def split: if_splits)
    with len show ?thesis
      by (subst drainRxFrames.simps)
        (simp add: hb peek_prefix [OF len] prc nextFrame_def rb_readable_def Let_def)
  qed
qed


text \<open>Handing frames to \<open>ingress\<close> one after the other until it fails or the connection is gone.\<close>

fun deliver :: "'s ingress \<Rightarrow> ('s \<Rightarrow> bool) \<Rightarrow> int \<Rightarrow> bytes list \<Rightarrow> 's \<Rightarrow>
    drain_outcome \<times> bytes list \<times> 's" where
  "deliver ingress alive fd [] s = (DrainKeep, [], s)"
| "deliver ingress alive fd (f # fs) s =
     (let (ok, s') = ingress fd f s in
      if \<not> ok then (DrainClose, f # fs, s')
      else if \<not> alive s' then (DrainUseAfterFree, f # fs, s')
      else deliver ingress alive fd fs s')"

abbreviation frame_of :: "ipc_message \<Rightarrow> bytes" where
  "frame_of m \<equiv> encode (Some m)"

lemma drain_deliver:
  "ring_ok rx \<Longrightarrow> \<forall>m \<in> set ms. wf_message m \<Longrightarrow>
     rb_list rx = concat (map frame_of ms) @ rest \<Longrightarrow> nextFrame rest = Incomplete \<Longrightarrow>
     deliver ingress alive fd (map frame_of ms) s = (res, left, s') \<Longrightarrow>
     \<exists>rx'. drainRxFrames ingress alive fd rx s = (res, rx', s') \<and> ring_ok rx' \<and>
       rb_capacity rx' = rb_capacity rx \<and> rb_list rx' = concat left @ rest"
proof (induction ms arbitrary: rx s)
  case Nil
  then show ?case by (simp add: drain_unfold)
next
  case (Cons m ms)
  let ?f = "frame_of m"
  have wf: "wf_message m" using Cons.prems(2) by simp
  have nf: "nextFrame (rb_list rx) = Frame ?f"
    using nextFrame_encode [OF wf] Cons.prems(3) by simp
  have flen: "length ?f \<le> m_size rx"
    using arg_cong [OF Cons.prems(3), of length] by simp
  let ?rx1 = "rb_consume (length ?f) rx"
  have rx1: "ring_ok ?rx1" "rb_list ?rx1 = concat (map frame_of ms) @ rest"
    using consume_ok [OF Cons.prems(1) flen] consume_list [OF Cons.prems(1) flen] Cons.prems(3)
    by simp_all
  obtain ok s1 where ing: "ingress fd ?f s = (ok, s1)" by fastforce
  have step: "drainRxFrames ingress alive fd rx s =
      (if \<not> ok then (DrainClose, rx, s1)
       else if \<not> alive s1 then (DrainUseAfterFree, rx, s1)
       else drainRxFrames ingress alive fd ?rx1 s1)"
    by (simp add: drain_unfold [OF Cons.prems(1)] nf ing)
  show ?case
  proof (cases "ok \<and> alive s1")
    case True
    then have "deliver ingress alive fd (map frame_of ms) s1 = (res, left, s')"
      using Cons.prems(5) ing by simp
    from Cons.IH [OF rx1(1) _ rx1(2) Cons.prems(4) this] Cons.prems(2) True step show ?thesis
      by simp
  next
    case False
    then have "drainRxFrames ingress alive fd rx s = (res, rx, s')"
      and "left = ?f # map frame_of ms"
      using step Cons.prems(5) ing by (auto split: if_splits)
    then show ?thesis using Cons.prems(1,3) by simp
  qed
qed

definition ipc_handleRecv :: "'s ingress \<Rightarrow> ('s \<Rightarrow> bool) \<Rightarrow> int \<Rightarrow> recv_outcome list \<Rightarrow> ring \<Rightarrow> 's \<Rightarrow>
    (drain_outcome \<times> ring \<times> 's \<times> recv_outcome list) option" where
  "ipc_handleRecv ingress alive fd env rx s =
     map_option (\<lambda>(rc, e, rx', env').
       if rc = IoOk \<or> rc = IoWouldBlock then
         (let (res, rx'', s') = drainRxFrames ingress alive fd rx' s in (res, rx'', s', env'))
       else (DrainClose, rx', s, env')) (conn_recv env rx)"

subsection \<open>What a subclass has to promise\<close>

text \<open>
  \<^verbatim>\<open>IpcHandler\<close> is the base of the broker's handler and of every client's. \<open>ipc_handler\<close> is the
  contract of the virtual \<open>ingress\<close> with the receive loop: called while the connection exists, it
  keeps an invariant of the object. \<open>ipc_handler_safe\<close> adds that an \<open>ingress\<close> that succeeds has not
  destroyed the connection, which the loop relies on.
\<close>

locale ipc_handler =
  fixes ingress :: "'s ingress" and alive :: "'s \<Rightarrow> bool" and fd :: int and inv :: "'s \<Rightarrow> bool"
  assumes ingress_keeps: "inv s \<Longrightarrow> alive s \<Longrightarrow> ingress fd f s = (ok, s') \<Longrightarrow> inv s'"
begin

lemma drain_keeps:
  "ring_ok rx \<Longrightarrow> inv s \<Longrightarrow> alive s \<Longrightarrow> drainRxFrames ingress alive fd rx s = (res, rx', s') \<Longrightarrow>
     ring_ok rx' \<and> inv s' \<and> (res = DrainKeep \<longrightarrow> alive s')"
proof (induction "m_size rx" arbitrary: rx s rule: less_induct)
  case less
  show ?case
  proof (cases "nextFrame (rb_list rx)")
    case (Frame f)
    then have f: "0 < length f" "length f \<le> m_size rx" by (simp_all add: nextFrame_Frame_length)
    obtain ok s1 where ing: "ingress fd f s = (ok, s1)" by fastforce
    have inv1: "inv s1" by (rule ingress_keeps [OF less.prems(2,3) ing])
    show ?thesis
    proof (cases "ok \<and> alive s1")
      case True
      then have "drainRxFrames ingress alive fd (rb_consume (length f) rx) s1 = (res, rx', s')"
        using less.prems(4) by (simp add: drain_unfold [OF less.prems(1)] Frame ing)
      moreover have "m_size (rb_consume (length f) rx) < m_size rx"
        using f unfolding size_consume by linarith
      ultimately show ?thesis
        using less.hyps consume_ok [OF less.prems(1) f(2)] inv1 True by blast
    next
      case False
      then show ?thesis using less.prems inv1
        by (auto simp: drain_unfold [OF less.prems(1)] Frame ing split: if_splits)
    qed
  qed (use less.prems in \<open>auto simp: drain_unfold\<close>)
qed

lemma handleRecv_keeps:
  assumes "ring_ok rx" and "inv s" and "alive s"
    and "ipc_handleRecv ingress alive fd env rx s = Some (res, rx', s', env')"
  shows "ring_ok rx' \<and> inv s' \<and> (res = DrainKeep \<longrightarrow> alive s')"
proof -
  from assms(4) obtain rc e rx1 env1 where rcv: "conn_recv env rx = Some (rc, e, rx1, env1)"
    by (auto simp: ipc_handleRecv_def)
  have "ring_ok rx1" using conn_recv_conserves [OF assms(1) rcv] by simp
  then show ?thesis
    using assms rcv drain_keeps [of rx1 s]
    by (auto simp: ipc_handleRecv_def split: if_splits prod.splits)
qed

end

locale ipc_handler_safe = ipc_handler +
  assumes ingress_alive: "inv s \<Longrightarrow> alive s \<Longrightarrow> ingress fd f s = (True, s') \<Longrightarrow> alive s'"
begin

lemma drain_safe:
  "ring_ok rx \<Longrightarrow> inv s \<Longrightarrow> alive s \<Longrightarrow> drainRxFrames ingress alive fd rx s = (res, rx', s') \<Longrightarrow>
     res \<noteq> DrainUseAfterFree"
proof (induction "m_size rx" arbitrary: rx s rule: less_induct)
  case less
  show ?case
  proof (cases "nextFrame (rb_list rx)")
    case (Frame f)
    then have f: "0 < length f" "length f \<le> m_size rx" by (simp_all add: nextFrame_Frame_length)
    obtain ok s1 where ing: "ingress fd f s = (ok, s1)" by fastforce
    show ?thesis
    proof (cases ok)
      case True
      then have a: "alive s1" using ingress_alive [OF less.prems(2,3)] ing by simp
      then have "drainRxFrames ingress alive fd (rb_consume (length f) rx) s1 = (res, rx', s')"
        using less.prems(4) True by (simp add: drain_unfold [OF less.prems(1)] Frame ing)
      moreover have "m_size (rb_consume (length f) rx) < m_size rx"
        using f unfolding size_consume by linarith
      ultimately show ?thesis
        using less.hyps consume_ok [OF less.prems(1) f(2)] ingress_keeps [OF less.prems(2,3) ing] a
        by blast
    next
      case False
      then show ?thesis using less.prems
        by (auto simp: drain_unfold [OF less.prems(1)] Frame ing)
    qed
  qed (use less.prems in \<open>auto simp: drain_unfold\<close>)
qed

lemma handleRecv_safe:
  assumes "ring_ok rx" and "inv s" and "alive s"
    and "ipc_handleRecv ingress alive fd env rx s = Some (res, rx', s', env')"
  shows "res \<noteq> DrainUseAfterFree"
proof -
  from assms(4) obtain rc e rx1 env1 where rcv: "conn_recv env rx = Some (rc, e, rx1, env1)"
    by (auto simp: ipc_handleRecv_def)
  have "ring_ok rx1" using conn_recv_conserves [OF assms(1) rcv] by simp
  then show ?thesis
    using assms rcv drain_safe [of rx1 s]
    by (auto simp: ipc_handleRecv_def split: if_splits prod.splits)
qed

end

subsection \<open>Any segmentation of the stream gives the same messages\<close>

lemma nextFrame_proper_prefix:
  assumes "wf_message m" and "part @ q = frame_of m @ rest" and "length part < length (frame_of m)"
  shows "nextFrame part = Incomplete"
proof (cases "length part < headerLen")
  case True
  then show ?thesis by (simp add: nextFrame_def)
next
  case False
  then have le: "headerLen \<le> length part" by simp
  then have "take headerLen (part @ q) = take headerLen part" by simp
  then have "take headerLen part = take headerLen (frame_of m @ rest)" by (simp add: assms(2))
  then have "peekFrameSize (Some part) = (PeekOk, length (frame_of m))"
    using peek_encode [OF assms(1), of rest] peek_prefix [OF le] by simp
  then show ?thesis using assms(3) False by (simp add: nextFrame_def)
qed

lemma split_stream:
  "p @ q = concat (map frame_of ms) \<Longrightarrow> \<forall>m \<in> set ms. wf_message m \<Longrightarrow>
     \<exists>ms1 ms2 part. ms = ms1 @ ms2 \<and> p = concat (map frame_of ms1) @ part \<and>
       part @ q = concat (map frame_of ms2) \<and> nextFrame part = Incomplete \<and>
       (part = [] \<or> (\<exists>m \<in> set ms2. length part < length (frame_of m)))"
proof (induction ms arbitrary: p)
  case Nil
  then show ?case by (simp add: nextFrame_def headerLen_def)
next
  case (Cons m ms)
  show ?case
  proof (cases "length p < length (frame_of m)")
    case True
    have "nextFrame p = Incomplete"
      using Cons.prems True by (intro nextFrame_proper_prefix [of m p q "concat (map frame_of ms)"]) auto
    then show ?thesis using Cons.prems True
      by (intro exI [of _ "[]"] exI [of _ "m # ms"] exI [of _ p]) auto
  next
    case False
    moreover obtain us where "p = frame_of m @ us \<and> us @ q = concat (map frame_of ms) \<or>
        p @ us = frame_of m \<and> q = us @ concat (map frame_of ms)"
      using Cons.prems(1) by (auto simp: append_eq_append_conv2)
    moreover have "us = []" if eq: "p @ us = frame_of m"
    proof -
      have "length us = 0"
        using arg_cong [OF eq, of length] False unfolding length_append by linarith
      then show ?thesis by simp
    qed
    ultimately obtain p' where p': "p = frame_of m @ p'" and "p' @ q = concat (map frame_of ms)"
      by auto
    from Cons.IH [OF this(2)] Cons.prems(2) obtain ms1 ms2 part where
      "ms = ms1 @ ms2" "p' = concat (map frame_of ms1) @ part"
      "part @ q = concat (map frame_of ms2)" "nextFrame part = Incomplete"
      "part = [] \<or> (\<exists>m \<in> set ms2. length part < length (frame_of m))" by auto
    then show ?thesis using p'
      by (intro exI [of _ "m # ms1"] exI [of _ ms2] exI [of _ part]) simp
  qed
qed


lemma conn_recv_chunk:
  "ring_ok rx \<Longrightarrow> c \<noteq> [] \<Longrightarrow> length (rb_list rx) + length c < rb_capacity rx \<Longrightarrow>
     \<exists>rx'. conn_recv [RecvBytes c, RecvErr EAGAIN] rx = Some (IoWouldBlock, None, rx', []) \<and>
       ring_ok rx' \<and> rb_capacity rx' = rb_capacity rx \<and> rb_list rx' = rb_list rx @ c"
proof (induction c arbitrary: rx rule: length_induct)
  case (1 c)
  let ?n = "min (rb_writeLen rx) (length c)"
  let ?rx1 = "rb_produce ?n (rb_fill (take ?n c) rx)"
  have wl: "0 < rb_writeLen rx"
    using "1.prems" by (intro rb_writeLen_pos) (auto simp: rb_writable_def)
  then have n: "0 < ?n" using "1.prems"(2) by simp
  have rx1: "ring_ok ?rx1" "rb_capacity ?rx1 = rb_capacity rx" "rb_list ?rx1 = rb_list rx @ take ?n c"
    using fill_produce_ok [OF "1.prems"(1), of "take ?n c"]
      fill_produce_list [OF "1.prems"(1), of "take ?n c"] by simp_all
  have step: "conn_recv [RecvBytes c, RecvErr EAGAIN] rx =
      conn_recv (if ?n < length c then [RecvBytes (drop ?n c), RecvErr EAGAIN] else [RecvErr EAGAIN]) ?rx1"
    using wl "1.prems"(2) by (simp add: conn_recv_steps Let_def)
  show ?case
  proof (cases "?n < length c")
    case True
    have "length (drop ?n c) < length c" using n "1.prems"(2) by simp
    moreover have "drop ?n c \<noteq> []" using True by simp
    moreover have "length (rb_list ?rx1) + length (drop ?n c) < rb_capacity ?rx1"
      using "1.prems"(3) True by (simp only: rx1 length_append length_take length_drop)
    ultimately obtain rx' where
      "conn_recv [RecvBytes (drop ?n c), RecvErr EAGAIN] ?rx1 = Some (IoWouldBlock, None, rx', [])"
      "ring_ok rx'" "rb_capacity rx' = rb_capacity ?rx1" "rb_list rx' = rb_list ?rx1 @ drop ?n c"
      using "1.IH" rx1(1) by blast
    then show ?thesis using step True rx1 by auto
  next
    case False
    then have c: "take ?n c = c" by simp
    have sz: "m_size ?rx1 = m_size rx + length (take ?n c)"
      using arg_cong [OF rx1(3), of length] unfolding length_append length_rb_list .
    have "length (take ?n c) = length c" using False by simp
    then have "0 < rb_writable ?rx1"
      using "1.prems"(3) unfolding rb_writable_def rx1(2) sz length_rb_list by linarith
    then have "0 < rb_writeLen ?rx1" by (rule rb_writeLen_pos [OF rx1(1)])
    then have "conn_recv [RecvErr EAGAIN] ?rx1 = Some (IoWouldBlock, None, ?rx1, [])"
      by (simp add: conn_recv_steps)
    then show ?thesis using step False rx1 c by auto
  qed
qed

text \<open>One readiness event per chunk: the chunk is in the socket, then the socket is empty.\<close>

fun recv_chunks :: "'s ingress \<Rightarrow> ('s \<Rightarrow> bool) \<Rightarrow> int \<Rightarrow> bytes list \<Rightarrow> ring \<Rightarrow> 's \<Rightarrow>
    (drain_outcome \<times> ring \<times> 's) option" where
  "recv_chunks ingress alive fd [] rx s = Some (DrainKeep, rx, s)"
| "recv_chunks ingress alive fd (c # cs) rx s =
     (case ipc_handleRecv ingress alive fd [RecvBytes c, RecvErr EAGAIN] rx s of
        None \<Rightarrow> None
      | Some (res, rx', s', env') \<Rightarrow>
          if res = DrainKeep then recv_chunks ingress alive fd cs rx' s' else Some (res, rx', s'))"

definition log_ingress :: "bytes list ingress" where
  "log_ingress fd f frames = (True, frames @ [f])"

lemma deliver_log: "deliver log_ingress (\<lambda>_. True) fd fs frames = (DrainKeep, [], frames @ fs)"
  by (induction fs arbitrary: frames) (simp_all add: log_ingress_def)

lemma recv_chunks_log:
  "ring_ok rx \<Longrightarrow> \<forall>m \<in> set ms. wf_message m \<Longrightarrow> nextFrame (rb_list rx) = Incomplete \<Longrightarrow>
     rb_list rx = [] \<or> (\<exists>m \<in> set ms. length (rb_list rx) < length (frame_of m)) \<Longrightarrow>
     rb_list rx @ concat chunks = concat (map frame_of ms) \<Longrightarrow>
     \<forall>c \<in> set chunks. c \<noteq> [] \<and> (\<forall>m \<in> set ms. length c + length (frame_of m) \<le> rb_capacity rx) \<Longrightarrow>
     \<exists>rx'. recv_chunks log_ingress (\<lambda>_. True) fd chunks rx frames
         = Some (DrainKeep, rx', frames @ map frame_of ms) \<and> rb_list rx' = []"
proof (induction chunks arbitrary: rx ms frames)
  case Nil
  have "ms = []"
  proof (cases ms)
    case (Cons m ms')
    then have "nextFrame (rb_list rx) = Frame (frame_of m)"
      using Nil.prems nextFrame_encode by simp
    with Nil.prems(3) show ?thesis by simp
  qed simp
  with Nil.prems show ?case by simp
next
  case (Cons c cs)
  have ne: "c \<noteq> []" using Cons.prems(6) by simp
  then obtain m where m: "m \<in> set ms" using Cons.prems(5) by (cases ms) auto
  have "length (rb_list rx) + length c < rb_capacity rx"
  proof (cases "rb_list rx = []")
    case True
    have "length c + length (frame_of m) \<le> rb_capacity rx" using Cons.prems(6) m by simp
    moreover have "0 < length (frame_of m)" using Cons.prems(2) m encode_nonempty by auto
    ultimately show ?thesis unfolding True list.size by linarith
  next
    case False
    then obtain m' where "m' \<in> set ms" "length (rb_list rx) < length (frame_of m')"
      using Cons.prems(4) by auto
    moreover from this Cons.prems(6) have "length c + length (frame_of m') \<le> rb_capacity rx" by simp
    ultimately show ?thesis by linarith
  qed
  from conn_recv_chunk [OF Cons.prems(1) ne this] obtain rx1 where
    rx1: "conn_recv [RecvBytes c, RecvErr EAGAIN] rx = Some (IoWouldBlock, None, rx1, [])"
      "ring_ok rx1" "rb_capacity rx1 = rb_capacity rx" "rb_list rx1 = rb_list rx @ c" by blast
  have "(rb_list rx @ c) @ concat cs = concat (map frame_of ms)" using Cons.prems(5) by simp
  from split_stream [OF this Cons.prems(2)] obtain ms1 ms2 part where
    sp: "ms = ms1 @ ms2" "rb_list rx @ c = concat (map frame_of ms1) @ part"
      "part @ concat cs = concat (map frame_of ms2)" "nextFrame part = Incomplete"
      "part = [] \<or> (\<exists>m \<in> set ms2. length part < length (frame_of m))" by blast
  have "\<exists>rx2. drainRxFrames log_ingress (\<lambda>_. True) fd rx1 frames
        = (DrainKeep, rx2, frames @ map frame_of ms1) \<and>
      ring_ok rx2 \<and> rb_capacity rx2 = rb_capacity rx1 \<and> rb_list rx2 = concat [] @ part"
    using Cons.prems(2) sp rx1 by (intro drain_deliver) (auto simp: deliver_log)
  then obtain rx2 where rx2: "drainRxFrames log_ingress (\<lambda>_. True) fd rx1 frames
        = (DrainKeep, rx2, frames @ map frame_of ms1)"
      "ring_ok rx2" "rb_capacity rx2 = rb_capacity rx1" "rb_list rx2 = part" by auto
  have "\<exists>rx'. recv_chunks log_ingress (\<lambda>_. True) fd cs rx2 (frames @ map frame_of ms1)
         = Some (DrainKeep, rx', (frames @ map frame_of ms1) @ map frame_of ms2) \<and> rb_list rx' = []"
    using Cons.prems(2,6) sp rx1 rx2 by (intro Cons.IH) auto
  then show ?case using rx1(1) rx2(1) sp(1) by (simp add: ipc_handleRecv_def)
qed

text \<open>A chunk that does not leave room for another byte fills the ring, and the connection is given up.\<close>

lemma conn_recv_full:
  "ring_ok rx \<Longrightarrow> c \<noteq> [] \<Longrightarrow> rb_capacity rx \<le> length (rb_list rx) + length c \<Longrightarrow>
     \<exists>rx' env'. conn_recv [RecvBytes c, RecvErr EAGAIN] rx = Some (IoBufferFull, None, rx', env')"
proof (induction c arbitrary: rx rule: length_induct)
  case (1 c)
  let ?n = "min (rb_writeLen rx) (length c)"
  let ?rx1 = "rb_produce ?n (rb_fill (take ?n c) rx)"
  show ?case
  proof (cases "rb_writeLen rx = 0")
    case True
    then show ?thesis by (simp add: conn_recv_steps)
  next
    case False
    then have n: "0 < ?n" using "1.prems"(2) by simp
    have rx1: "ring_ok ?rx1" "rb_capacity ?rx1 = rb_capacity rx" "rb_list ?rx1 = rb_list rx @ take ?n c"
      using fill_produce_ok [OF "1.prems"(1), of "take ?n c"]
        fill_produce_list [OF "1.prems"(1), of "take ?n c"] by simp_all
    have step: "conn_recv [RecvBytes c, RecvErr EAGAIN] rx =
        conn_recv (if ?n < length c then [RecvBytes (drop ?n c), RecvErr EAGAIN] else [RecvErr EAGAIN]) ?rx1"
      using False "1.prems"(2) by (simp add: conn_recv_steps Let_def)
    show ?thesis
    proof (cases "?n < length c")
      case True
      have "length (drop ?n c) < length c" using n "1.prems"(2) by simp
      moreover have "drop ?n c \<noteq> []" using True by simp
      moreover have "rb_capacity ?rx1 \<le> length (rb_list ?rx1) + length (drop ?n c)"
        using "1.prems"(3) True by (simp only: rx1 length_append length_take length_drop)
      ultimately have "\<exists>rx' env'. conn_recv [RecvBytes (drop ?n c), RecvErr EAGAIN] ?rx1 = Some (IoBufferFull, None, rx', env')"
        using "1.IH" rx1(1) by blast
      then show ?thesis using step True by auto
    next
      case False
      then have "rb_capacity ?rx1 \<le> length (rb_list ?rx1)"
        using "1.prems"(3) by (simp only: rx1 length_append length_take)
      then have "rb_writeLen ?rx1 = 0" using rb_writeLen_le [of ?rx1] by (simp add: rb_writable_def)
      then have "conn_recv [RecvErr EAGAIN] ?rx1 = Some (IoBufferFull, None, ?rx1, [RecvErr EAGAIN])"
        by (simp add: conn_recv_steps)
      then show ?thesis using step False by auto
    qed
  qed
qed

text \<open>However the stream is cut, the frames handed up are the first of those sent; all of them unless a chunk filled the ring.\<close>

lemma recv_chunks_prefix:
  "ring_ok rx \<Longrightarrow> \<forall>m \<in> set ms. wf_message m \<Longrightarrow> nextFrame (rb_list rx) = Incomplete \<Longrightarrow>
     rb_list rx @ concat chunks = concat (map frame_of ms) \<Longrightarrow> [] \<notin> set chunks \<Longrightarrow>
     \<exists>res rx' n. recv_chunks log_ingress (\<lambda>_. True) fd chunks rx frames = Some (res, rx', frames @ map frame_of (take n ms)) \<and>
       (res = DrainKeep \<and> n = length ms \<and> rb_list rx' = [] \<or> res = DrainClose)"
proof (induction chunks arbitrary: rx ms frames)
  case Nil
  have "ms = []"
  proof (cases ms)
    case (Cons m ms')
    then have "nextFrame (rb_list rx) = Frame (frame_of m)"
      using Nil.prems nextFrame_encode by simp
    with Nil.prems(3) show ?thesis by simp
  qed simp
  with Nil.prems show ?case by simp
next
  case (Cons c cs)
  have ne: "c \<noteq> []" using Cons.prems(5) by auto
  show ?case
  proof (cases "length (rb_list rx) + length c < rb_capacity rx")
    case False
    then obtain rx' env' where "conn_recv [RecvBytes c, RecvErr EAGAIN] rx = Some (IoBufferFull, None, rx', env')"
      using conn_recv_full [OF Cons.prems(1) ne] by (auto simp: not_less)
    then show ?thesis by (intro exI [of _ DrainClose] exI [of _ rx'] exI [of _ 0]) (simp add: ipc_handleRecv_def)
  next
    case True
    from conn_recv_chunk [OF Cons.prems(1) ne True] obtain rx1 where
      rx1: "conn_recv [RecvBytes c, RecvErr EAGAIN] rx = Some (IoWouldBlock, None, rx1, [])"
        "ring_ok rx1" "rb_capacity rx1 = rb_capacity rx" "rb_list rx1 = rb_list rx @ c" by blast
    have "(rb_list rx @ c) @ concat cs = concat (map frame_of ms)" using Cons.prems(4) by simp
    from split_stream [OF this Cons.prems(2)] obtain ms1 ms2 part where
      sp: "ms = ms1 @ ms2" "rb_list rx @ c = concat (map frame_of ms1) @ part"
        "part @ concat cs = concat (map frame_of ms2)" "nextFrame part = Incomplete" by blast
    have "\<exists>rx2. drainRxFrames log_ingress (\<lambda>_. True) fd rx1 frames
          = (DrainKeep, rx2, frames @ map frame_of ms1) \<and>
        ring_ok rx2 \<and> rb_capacity rx2 = rb_capacity rx1 \<and> rb_list rx2 = concat [] @ part"
      using Cons.prems(2) sp rx1 by (intro drain_deliver) (auto simp: deliver_log)
    then obtain rx2 where rx2: "drainRxFrames log_ingress (\<lambda>_. True) fd rx1 frames
          = (DrainKeep, rx2, frames @ map frame_of ms1)" "ring_ok rx2" "rb_list rx2 = part" by auto
    have "\<exists>res rx' n. recv_chunks log_ingress (\<lambda>_. True) fd cs rx2 (frames @ map frame_of ms1)
           = Some (res, rx', (frames @ map frame_of ms1) @ map frame_of (take n ms2)) \<and>
         (res = DrainKeep \<and> n = length ms2 \<and> rb_list rx' = [] \<or> res = DrainClose)"
      using Cons.prems(2,5) sp rx2 by (intro Cons.IH) auto
    then obtain res rx' n where r: "recv_chunks log_ingress (\<lambda>_. True) fd cs rx2 (frames @ map frame_of ms1)
           = Some (res, rx', (frames @ map frame_of ms1) @ map frame_of (take n ms2))"
         "res = DrainKeep \<and> n = length ms2 \<and> rb_list rx' = [] \<or> res = DrainClose" by blast
    show ?thesis
      using rx1(1) rx2(1) sp(1) r
      by (intro exI [of _ res] exI [of _ rx'] exI [of _ "length ms1 + n"]) (simp add: ipc_handleRecv_def)
  qed
qed

subsection \<open>Whatever is in the ring, only whole decodable frames are handed up\<close>

lemma drain_log_sound:
  "ring_ok rx \<Longrightarrow> drainRxFrames log_ingress (\<lambda>_. True) fd rx frames = (res, rx', frames') \<Longrightarrow>
     ring_ok rx' \<and> rb_capacity rx' = rb_capacity rx \<and>
     (\<exists>fs. frames' = frames @ fs \<and> rb_list rx = concat fs @ rb_list rx' \<and>
        (\<forall>f \<in> set fs. fst (decode (Some f)) = DecOk)) \<and>
     (res = DrainKeep \<and> nextFrame (rb_list rx') = Incomplete \<or>
      res = DrainClose \<and> nextFrame (rb_list rx') = Malformed)"
proof (induction "m_size rx" arbitrary: rx frames rule: less_induct)
  case less
  show ?case
  proof (cases "nextFrame (rb_list rx)")
    case (Frame f)
    then obtain m where m: "wf_message m" "f = frame_of m" "take (length f) (rb_list rx) = f"
      "0 < length f" "length f \<le> length (rb_list rx)" by (rule nextFrame_FrameE)
    have fl: "length f \<le> m_size rx" using m(5) by simp
    let ?rx1 = "rb_consume (length f) rx"
    have rx1: "ring_ok ?rx1" "rb_list rx = f @ rb_list ?rx1"
      using consume_ok [OF less.prems(1) fl] consume_list [OF less.prems(1) fl] m(3)
        append_take_drop_id [of "length f" "rb_list rx"] by simp_all
    have "drainRxFrames log_ingress (\<lambda>_. True) fd ?rx1 (frames @ [f]) = (res, rx', frames')"
      using less.prems(2) by (simp add: drain_unfold [OF less.prems(1)] Frame log_ingress_def)
    moreover have "m_size ?rx1 < m_size rx" using m(4) fl unfolding size_consume by linarith
    ultimately obtain fs where ih: "ring_ok rx'" "rb_capacity rx' = rb_capacity rx"
      "frames' = (frames @ [f]) @ fs" "rb_list ?rx1 = concat fs @ rb_list rx'"
      "\<forall>f \<in> set fs. fst (decode (Some f)) = DecOk"
      "res = DrainKeep \<and> nextFrame (rb_list rx') = Incomplete \<or>
       res = DrainClose \<and> nextFrame (rb_list rx') = Malformed"
      using less.hyps rx1(1) by (metis capacity_consume)
    have "fst (decode (Some f)) = DecOk" using m(1,2) decode_encode by simp
    then show ?thesis using ih rx1(2) by (intro conjI exI [of _ "f # fs"]) auto
  qed (use less.prems in \<open>auto simp: drain_unfold\<close>)
qed

subsection \<open>Properties\<close>

text \<open>C1. Reassembly: when well-formed messages are sent one after the other on a new connection and their
  bytes arrive in chunks cut anywhere, the frames handed to \<open>ingress\<close> decode to the first \<open>n\<close> of the
  messages, in order, whatever the chunks: none is made up, altered, skipped or doubled. Either the connection is
  kept, and then \<open>n\<close> is all of them and the receive ring ends empty, or it is closed, which happens only
  when a chunk fills the ring. It is kept for certain when every chunk together with any one frame fits into the
  ring; a faster sender can be cut off (\<^verbatim>\<open>IpcConnection.cpp:29\<close>).\<close>

theorem stream_reassembly:
  assumes "\<forall>m \<in> set ms. wf_message m" and "concat chunks = concat (map frame_of ms)" and "[] \<notin> set chunks"
  shows "\<exists>res rx' frames n. recv_chunks log_ingress (\<lambda>_. True) fd chunks (c_rx (conn_new fd rxBuf txBuf)) []
      = Some (res, rx', frames) \<and>
    map (\<lambda>f. decode (Some f)) frames = map (\<lambda>m. (DecOk, Some m)) (take n ms) \<and>
    (res = DrainKeep \<and> n = length ms \<and> rb_list rx' = [] \<or> res = DrainClose) \<and>
    ((\<forall>c \<in> set chunks. \<forall>m \<in> set ms. length c + length (frame_of m) \<le> max rxBuf IPC_MAX_FRAME_SIZE) \<longrightarrow> res = DrainKeep)"
proof -
  let ?rx = "c_rx (conn_new fd rxBuf txBuf)"
  have rx: "?rx = rb_new (max rxBuf IPC_MAX_FRAME_SIZE)" by (simp add: conn_new_def)
  have start: "ring_ok ?rx" "nextFrame (rb_list ?rx) = Incomplete" "rb_list ?rx = []"
      "rb_capacity ?rx = max rxBuf IPC_MAX_FRAME_SIZE"
    unfolding rx by (simp_all add: ring_ok_new capacity_new rb_list_new nextFrame_Nil IPC_MAX_FRAME_SIZE_def)
  from recv_chunks_prefix [OF start(1) assms(1) start(2), of chunks fd "[]"] assms(2,3) start(3)
  obtain res rx' n where r: "recv_chunks log_ingress (\<lambda>_. True) fd chunks ?rx [] = Some (res, rx', map frame_of (take n ms))"
    "res = DrainKeep \<and> n = length ms \<and> rb_list rx' = [] \<or> res = DrainClose" by auto
  have "\<exists>rx'. recv_chunks log_ingress (\<lambda>_. True) fd chunks ?rx [] = Some (DrainKeep, rx', [] @ map frame_of ms) \<and> rb_list rx' = []"
    if "\<forall>c \<in> set chunks. \<forall>m \<in> set ms. length c + length (frame_of m) \<le> max rxBuf IPC_MAX_FRAME_SIZE"
    using that assms start by (intro recv_chunks_log) auto
  moreover have "map (\<lambda>f. decode (Some f)) (map frame_of (take n ms)) = map (\<lambda>m. (DecOk, Some m)) (take n ms)"
    using assms(1) decode_encode in_set_takeD [of _ n ms] by simp
  ultimately show ?thesis using r by (intro exI [of _ res] exI [of _ rx'] exI [of _ "map frame_of (take n ms)"] exI [of _ n]) auto
qed


text \<open>The witness: two messages in three chunks, the second cut inside both headers.\<close>

definition hello_example :: ipc_message where
  "hello_example = mk_message DAuthd DIpcd CmdClientHello 7 (toFlag FlagRequest) [65, 66]"

lemma hello_example_wf: "wf_message hello_example"
  by (simp add: hello_example_def wf_message_def mk_message_def header_build_def known_cmd_def
      known_daemon_def cmd_of_u16_def cmd_enumerators_def daemon_of_u8_def daemon_enumerators_def
      IPC_MAX_FRAME_SIZE_def headerLen_def)

lemma hello_example_length: "length (frame_of hello_example) = 18"
  using length_encode_wf [OF hello_example_wf] by (simp add: hello_example_def headerLen_def mk_message_def)

theorem stream_reassembly_witness:
  "let f = frame_of hello_example in
   \<exists>rx' frames. recv_chunks log_ingress (\<lambda>_. True) 5 [take 9 f, drop 9 f @ take 3 f, drop 3 f]
        (c_rx (conn_new 5 0 0)) [] = Some (DrainKeep, rx', frames) \<and> rb_list rx' = [] \<and>
     map (\<lambda>f. decode (Some f)) frames = [(DecOk, Some hello_example), (DecOk, Some hello_example)]"
proof -
  let ?f = "frame_of hello_example" and ?ms = "[hello_example, hello_example]"
  have l: "length ?f = 18" by (rule hello_example_length)
  have "concat [take 9 ?f, drop 9 ?f @ take 3 ?f, drop 3 ?f]
      = (take 9 ?f @ drop 9 ?f) @ (take 3 ?f @ drop 3 ?f)"
    unfolding concat.simps append_assoc append_Nil2 ..
  then have c: "concat [take 9 ?f, drop 9 ?f @ take 3 ?f, drop 3 ?f] = concat (map frame_of ?ms)"
    unfolding append_take_drop_id by simp
  have d: "\<forall>c \<in> set [take 9 ?f, drop 9 ?f @ take 3 ?f, drop 3 ?f]. \<forall>m \<in> set ?ms.
      length c + length (frame_of m) \<le> max 0 IPC_MAX_FRAME_SIZE"
    using l by (auto simp: IPC_MAX_FRAME_SIZE_def)
  have e: "[] \<notin> set [take 9 ?f, drop 9 ?f @ take 3 ?f, drop 3 ?f]"
    using l by auto
  have w: "\<forall>m \<in> set ?ms. wf_message m" by (simp add: hello_example_wf)
  from stream_reassembly [OF w c e, of 5 0 0] d obtain res rx' frames n where
    "recv_chunks log_ingress (\<lambda>_. True) 5 [take 9 ?f, drop 9 ?f @ take 3 ?f, drop 3 ?f] (c_rx (conn_new 5 0 0)) []
       = Some (res, rx', frames)" "res = DrainKeep" "n = length ?ms" "rb_list rx' = []"
    "map (\<lambda>f. decode (Some f)) frames = map (\<lambda>m. (DecOk, Some m)) (take n ?ms)" by auto
  then show ?thesis by (simp add: Let_def)
qed

text \<open>Whatever bytes are in the receive ring, \<open>drainRxFrames\<close> hands to \<open>ingress\<close> only byte
  strings \<open>decode\<close> accepts, removes exactly those bytes from the ring, keeps the connection exactly
  when what is left is the start of a frame that has not arrived in full, and closes it exactly when
  the next header is malformed.\<close>

theorem drain_hands_up_only_frames:
  assumes "ring_ok rx" and "drainRxFrames log_ingress (\<lambda>_. True) fd rx [] = (res, rx', frames)"
  shows "rb_list rx = concat frames @ rb_list rx' \<and>
    list_all (\<lambda>f. fst (decode (Some f)) = DecOk) frames \<and>
    (res = DrainKeep \<longleftrightarrow> nextFrame (rb_list rx') = Incomplete) \<and>
    (res = DrainClose \<longleftrightarrow> nextFrame (rb_list rx') = Malformed) \<and> res \<noteq> DrainUseAfterFree"
  using drain_log_sound [OF assms] by (auto simp: list_all_iff)

theorem drain_hands_up_only_frames_witness:
  "let rx = \<lparr>m_buffer = replicate 20 9, m_head = 5, m_tail = 3, m_size = 18\<rparr>
   in \<exists>rx' frames. drainRxFrames log_ingress (\<lambda>_. True) 4 rx [] = (DrainClose, rx', frames) \<and>
        concat frames @ rb_list rx' = replicate 18 9"
proof -
  define rx :: ring where "rx = \<lparr>m_buffer = replicate 20 9, m_head = 5, m_tail = 3, m_size = 18\<rparr>"
  have ok: "ring_ok rx" by (simp add: rx_def ring_ok_def rb_capacity_def)
  have l: "rb_list rx = replicate 18 9"
    by (rule nth_equalityI) (simp_all add: rx_def rb_list_nth, simp add: rb_list_nth rb_capacity_def)
  have bad: "nextFrame (rb_list rx) = Malformed"
    by (simp add: l nextFrame_def headerLen_def peekFrameSize_def wire_load_def netToHost_def
        IPC_PROTOCOL_VERSION_def)
  have d: "drainRxFrames log_ingress (\<lambda>_. True) 4 rx [] = (DrainClose, rx, [])"
    by (simp add: drain_unfold [OF ok] bad)
  from drain_hands_up_only_frames [OF ok d] d l show ?thesis
    unfolding rx_def [symmetric] by auto
qed

text \<open>No byte is lost or reordered between the socket and the receive ring: however the kernel
  splits, interrupts or ends the transfer, the bytes in the ring followed by those still in the socket
  are the same before and after \<open>recv\<close>, and it reports \<open>BufferFull\<close> exactly when the ring is full.\<close>

theorem recv_conserves_bytes:
  assumes "ring_ok rx" and "conn_recv env rx = Some (res, e, rx', env')"
  shows "ring_ok rx' \<and> rb_list rx' @ in_flight env' = rb_list rx @ in_flight env \<and>
    (res = IoBufferFull \<longleftrightarrow> length (rb_list rx') = rb_capacity rx')"
  using conn_recv_conserves [OF assms] by (auto simp: rb_writable_def ring_ok_def)

text \<open>The witness is the burst that fills the ring: it is answered with \<open>BufferFull\<close>.\<close>

theorem recv_conserves_bytes_witness:
  "\<exists>rx'. conn_recv [RecvErr EINTR, RecvBytes [1, 2, 3]] (rb_new 3) = Some (IoBufferFull, None, rx', [])
     \<and> rb_list rx' = [1, 2, 3]"
proof -
  let ?rx' = "\<lparr>m_buffer = [1, 2, 3 :: u8], m_head = 0, m_tail = 0, m_size = 3\<rparr>"
  have ring_3: "rb_new 3 = \<lparr>m_buffer = [0, 0, 0], m_head = 0, m_tail = 0, m_size = 0\<rparr>"
    by (simp add: rb_new_def numeral_eq_Suc)
  have "conn_recv [RecvErr EINTR, RecvBytes [1, 2, 3]] (rb_new 3) = Some (IoBufferFull, None, ?rx', [])"
    by (simp add: ring_3 conn_recv_steps rb_writeLen_def rb_writable_def rb_capacity_def
        rb_produce_def rb_fill_def rb_writePtr_def blit_def)
  moreover from recv_conserves_bytes [OF ring_ok_new this] have "rb_list ?rx' = [1, 2, 3]"
    by (simp add: rb_list_new)
  ultimately show ?thesis by blast
qed

text \<open>Flushing: the bytes handed to the kernel are a prefix of those queued and the rest stays
  queued in order; as long as the connection is kept, its descriptor is watched for writability
  exactly when bytes are left to send, so no queued frame is forgotten and an idle connection does
  not spin.\<close>

theorem flush_interest:
  assumes "ring_ok tx" and "ipc_handleSend fd env tx ep = Some (True, tx', ep', out)"
  shows "out @ rb_list tx' = rb_list tx \<and> ring_ok tx' \<and>
    (\<exists>evs. ep_set ep' fd = Some evs \<and> EPOLLIN \<in> set evs \<and> (EPOLLOUT \<in> set evs) = (rb_list tx' \<noteq> []))"
  using handleSend_interest [OF assms] by simp

theorem flush_interest_witness:
  "let ep = \<lparr>ep_set = [4 \<mapsto> [EPOLLIN, EPOLLRDHUP]], ep_refuses = (\<lambda>_. False)\<rparr>;
       tx = \<lparr>m_buffer = [1, 2, 3], m_head = 2, m_tail = 1, m_size = 2\<rparr>
   in \<exists>tx' ep'. ipc_handleSend 4 [SendErr EINTR, SendErr EAGAIN] tx ep = Some (True, tx', ep', []) \<and>
        (\<exists>evs. ep_set ep' 4 = Some evs \<and> EPOLLIN \<in> set evs \<and>
           (EPOLLOUT \<in> set evs) = (rb_list tx' \<noteq> []))"
proof -
  define ep :: epoll where
    "ep = \<lparr>ep_set = [4 \<mapsto> [EPOLLIN, EPOLLRDHUP]], ep_refuses = (\<lambda>_. False)\<rparr>"
  define tx :: ring where "tx = \<lparr>m_buffer = [1, 2, 3], m_head = 2, m_tail = 1, m_size = 2\<rparr>"
  have ok: "ring_ok tx" by (simp add: tx_def ring_ok_def rb_capacity_def)
  have "conn_send [SendErr EINTR, SendErr EAGAIN] tx = Some (IoWouldBlock, None, tx, [])"
    by (simp add: conn_send_steps tx_def rb_readable_def)
  then obtain ep' where "ipc_handleSend 4 [SendErr EINTR, SendErr EAGAIN] tx ep = Some (True, tx, ep', [])"
    by (simp add: ipc_handleSend_def epoll_mod_def ep_def)
  from flush_interest [OF ok this] this show ?thesis
    unfolding ep_def [symmetric] tx_def [symmetric] by auto
qed

end
