(* ===== verification/Json_Model.thy ===== *)
theory Json_Model
  imports Prelude
begin

text \<open>
  JSON values as the code sees them through \<^verbatim>\<open>nlohmann::json\<close>: the value kinds (floating-point
  numbers are left out: nothing the modelled code reads or writes is one) and the accessors the
  code calls, with their documented exceptions. An object is an association list. Parsing,
  printing and \<^verbatim>\<open>merge_patch\<close> belong to the library and stay parameters: they are the fields of
  a \<open>jlib\<close> record the definitions take as an argument, and \<open>json_lib\<close> is what the code relies
  on: what is printed is never empty and parses back.
\<close>

subsection \<open>Values\<close>

datatype json =
    JNull
  | JBool bool
  | JInt int
  | JStr string
  | JArr "json list"
  | JObj "(string \<times> json) list"

text \<open>\<^verbatim>\<open>type_error\<close> with its number: 302 (wrong type), 304 and 403 (\<^verbatim>\<open>at\<close>),
  305 (\<^verbatim>\<open>operator[]\<close>), 306 (\<^verbatim>\<open>value\<close>), 316 (\<^verbatim>\<open>dump\<close> of a string that is not UTF-8).\<close>

datatype json_error = TypeError nat

definition is_object :: "json \<Rightarrow> bool" where
  "is_object j = (case j of JObj kvs \<Rightarrow> True | _ \<Rightarrow> False)"

definition is_array :: "json \<Rightarrow> bool" where
  "is_array j = (case j of JArr xs \<Rightarrow> True | _ \<Rightarrow> False)"

definition jfind :: "string \<Rightarrow> json \<Rightarrow> json option" where
  "jfind k j = (case j of JObj kvs \<Rightarrow> map_of kvs k | _ \<Rightarrow> None)"

definition jcontains :: "string \<Rightarrow> json \<Rightarrow> bool" where
  "jcontains k j \<longleftrightarrow> jfind k j \<noteq> None"

definition jitems :: "json \<Rightarrow> json list" where
  "jitems j = (case j of JArr xs \<Rightarrow> xs | _ \<Rightarrow> [])"

definition jfields :: "json \<Rightarrow> (string \<times> json) list" where
  "jfields j = (case j of JObj kvs \<Rightarrow> kvs | _ \<Rightarrow> [])"

text \<open>Iterating over a JSON value: the elements, the members' values, or a scalar itself.\<close>

definition jiterate :: "json \<Rightarrow> json list" where
  "jiterate j = (case j of JNull \<Rightarrow> [] | JArr xs \<Rightarrow> xs | JObj kvs \<Rightarrow> map snd kvs | v \<Rightarrow> [v])"

definition get_str :: "json \<Rightarrow> json_error + string" where
  "get_str j = (case j of JStr s \<Rightarrow> Inr s | _ \<Rightarrow> Inl (TypeError 302))"

text \<open>
  For an arithmetic type other than its own \<^verbatim>\<open>int64_t\<close>, \<^verbatim>\<open>uint64_t\<close> and \<^verbatim>\<open>double\<close> the library also converts
  a boolean; the default \<^verbatim>\<open>0ull\<close> the callers pass is an \<^verbatim>\<open>unsigned long long\<close>, such a type where
  \<^verbatim>\<open>uint64_t\<close> is \<^verbatim>\<open>unsigned long\<close>.
\<close>

definition get_u64 :: "json \<Rightarrow> json_error + u64" where
  "get_u64 j = (case j of JInt i \<Rightarrow> Inr (of_int i) | JBool b \<Rightarrow> Inr (of_bool b)
     | _ \<Rightarrow> Inl (TypeError 302))"

definition get_u32 :: "json \<Rightarrow> json_error + u32" where
  "get_u32 j = (case j of JInt i \<Rightarrow> Inr (of_int i) | JBool b \<Rightarrow> Inr (of_bool b)
     | _ \<Rightarrow> Inl (TypeError 302))"

definition get_int :: "json \<Rightarrow> json_error + int" where
  "get_int j = (case j of JInt i \<Rightarrow> Inr i | JBool b \<Rightarrow> Inr (of_bool b)
     | _ \<Rightarrow> Inl (TypeError 302))"

text \<open>An \<^verbatim>\<open>int\<close> keeps the low 32 bits.\<close>

definition get_i32 :: "json \<Rightarrow> json_error + int" where
  "get_i32 j = map_sum id (\<lambda>i. sint (of_int i :: u32)) (get_int j)"

text \<open>\<^verbatim>\<open>j.value(key, default)\<close>.\<close>

definition jvalue :: "(json \<Rightarrow> json_error + 'a) \<Rightarrow> string \<Rightarrow> 'a \<Rightarrow> json \<Rightarrow> json_error + 'a" where
  "jvalue get k d j =
     (if \<not> is_object j then Inl (TypeError 306)
      else case jfind k j of None \<Rightarrow> Inr d | Some v \<Rightarrow> get v)"

definition get_json :: "json \<Rightarrow> json_error + json" where
  "get_json j = Inr j"

text \<open>\<^verbatim>\<open>j[key] = v\<close>: null becomes an object, another non-object throws.\<close>

definition jset :: "string \<Rightarrow> json \<Rightarrow> json \<Rightarrow> json_error + json" where
  "jset k v j = (case j of
     JNull \<Rightarrow> Inr (JObj [(k, v)])
   | JObj kvs \<Rightarrow> Inr (JObj (AList.update k v kvs))
   | _ \<Rightarrow> Inl (TypeError 305))"

text \<open>Reading through \<^verbatim>\<open>j[key]\<close>: an absent member is created as null.\<close>

definition jsub :: "string \<Rightarrow> json \<Rightarrow> json_error + json" where
  "jsub k j = (case j of
     JNull \<Rightarrow> Inr JNull
   | JObj kvs \<Rightarrow> Inr (case map_of kvs k of None \<Rightarrow> JNull | Some v \<Rightarrow> v)
   | _ \<Rightarrow> Inl (TypeError 305))"

text \<open>\<^verbatim>\<open>j.at(key)\<close>: only an object has members (304), and the member must be there (403).\<close>

definition jat :: "string \<Rightarrow> json \<Rightarrow> json_error + json" where
  "jat k j = (if \<not> is_object j then Inl (TypeError 304)
     else case jfind k j of None \<Rightarrow> Inl (TypeError 403) | Some v \<Rightarrow> Inr v)"

definition get_bool :: "json \<Rightarrow> json_error + bool" where
  "get_bool j = (case j of JBool b \<Rightarrow> Inr b | _ \<Rightarrow> Inl (TypeError 302))"

definition bind_err :: "'e + 'a \<Rightarrow> ('a \<Rightarrow> 'e + 'b) \<Rightarrow> 'e + 'b" where
  "bind_err r f = (case r of Inl e \<Rightarrow> Inl e | Inr x \<Rightarrow> f x)"

lemma bind_err_simps [simp]: "bind_err (Inl e) f = Inl e" "bind_err (Inr x) f = f x"
  by (simp_all add: bind_err_def)

lemma bind_err_Inr_iff: "bind_err r f = Inr y \<longleftrightarrow> (\<exists>x. r = Inr x \<and> f x = Inr y)"
  by (cases r) auto

lemma map_sum_Inr_iff: "map_sum f g r = Inr y \<longleftrightarrow> (\<exists>x. r = Inr x \<and> y = g x)"
  by (cases r) auto

lemma jfind_simps [simp]:
  "jfind k (JObj kvs) = map_of kvs k" "jfind k JNull = None" "jfind k (JBool b) = None"
  "jfind k (JInt i) = None" "jfind k (JStr s) = None" "jfind k (JArr xs) = None"
  by (simp_all add: jfind_def)

lemma is_object_simps [simp]:
  "is_object (JObj kvs)" "\<not> is_object JNull" "\<not> is_object (JBool b)"
  "\<not> is_object (JInt i)" "\<not> is_object (JStr s)" "\<not> is_object (JArr xs)"
  by (simp_all add: is_object_def)

lemma is_array_simps [simp]: "is_array (JArr xs)" "\<not> is_array (JObj kvs)"
  by (simp_all add: is_array_def)

lemma jset_jfind: "jset k v j = Inr j' \<Longrightarrow> jfind k' j' = (if k' = k then Some v else jfind k' j)"
  by (auto simp: jset_def update_conv' split: json.splits)

subsection \<open>The library\<close>

text \<open>The bytes of a \<^verbatim>\<open>std::string\<close>.\<close>

definition bytes_of_string :: "string \<Rightarrow> bytes" where
  "bytes_of_string s = map of_char s"

record jlib =
  jl_parse :: "bytes \<Rightarrow> json option"
  jl_dump :: "json \<Rightarrow> bytes"
  jl_merge :: "json \<Rightarrow> json \<Rightarrow> json"

locale json_lib =
  fixes L :: jlib
  assumes parse_dump: "jl_parse L (jl_dump L j) = Some j"
    and dump_nonempty: "jl_dump L j \<noteq> []"
begin

lemma dump_inject: "jl_dump L j = jl_dump L j' \<Longrightarrow> j = j'"
  by (metis parse_dump option.inject)

end

text \<open>
  Such a library exists: a prefix text format with numbers in unary, its printer and a
  recursive-descent reader, which every call makes shorter by at least a byte.
\<close>

fun print_nat :: "nat \<Rightarrow> bytes" where
  "print_nat n = replicate n 1 @ [0]"

fun read_nat :: "bytes \<Rightarrow> (nat \<times> bytes) option" where
  "read_nat [] = None"
| "read_nat (b # bs) =
     (if b = 0 then Some (0, bs) else map_option (\<lambda>(n, r). (Suc n, r)) (read_nat bs))"

definition print_str :: "string \<Rightarrow> bytes" where
  "print_str s = print_nat (length s) @ bytes_of_string s"

definition read_str :: "bytes \<Rightarrow> (string \<times> bytes) option" where
  "read_str bs =
     (case read_nat bs of None \<Rightarrow> None
      | Some (n, r) \<Rightarrow> if length r < n then None
          else Some (map (\<lambda>b. char_of (unat b)) (take n r), drop n r))"

fun print_json :: "json \<Rightarrow> bytes" and print_items :: "json list \<Rightarrow> bytes"
  and print_fields :: "(string \<times> json) list \<Rightarrow> bytes" where
  "print_json JNull = [0]"
| "print_json (JBool b) = [1, of_bool b]"
| "print_json (JInt i) = 2 # of_bool (i < 0) # print_nat (nat \<bar>i\<bar>)"
| "print_json (JStr s) = 3 # print_str s"
| "print_json (JArr xs) = 4 # print_items xs"
| "print_json (JObj kvs) = 5 # print_fields kvs"
| "print_items [] = [0]"
| "print_items (x # xs) = 1 # print_json x @ print_items xs"
| "print_fields [] = [0]"
| "print_fields ((k, v) # kvs) = 1 # print_str k @ print_json v @ print_fields kvs"

fun read_json :: "nat \<Rightarrow> bytes \<Rightarrow> (json \<times> bytes) option"
  and read_items :: "nat \<Rightarrow> bytes \<Rightarrow> (json list \<times> bytes) option"
  and read_fields :: "nat \<Rightarrow> bytes \<Rightarrow> ((string \<times> json) list \<times> bytes) option" where
  "read_json (Suc n) (b # bs) =
     (if b = 0 then Some (JNull, bs)
      else if b = 1 then (case bs of [] \<Rightarrow> None | c # r \<Rightarrow> Some (JBool (c = 1), r))
      else if b = 2 then
        (case bs of [] \<Rightarrow> None
         | c # r \<Rightarrow> map_option (\<lambda>(k, r'). (JInt (if c = 1 then - int k else int k), r')) (read_nat r))
      else if b = 3 then map_option (\<lambda>(s, r). (JStr s, r)) (read_str bs)
      else if b = 4 then map_option (\<lambda>(xs, r). (JArr xs, r)) (read_items n bs)
      else map_option (\<lambda>(kvs, r). (JObj kvs, r)) (read_fields n bs))"
| "read_json _ _ = None"
| "read_items (Suc n) (b # bs) =
     (if b = 0 then Some ([], bs)
      else case read_json n bs of None \<Rightarrow> None
        | Some (x, r) \<Rightarrow> map_option (\<lambda>(xs, r'). (x # xs, r')) (read_items n r))"
| "read_items _ _ = None"
| "read_fields (Suc n) (b # bs) =
     (if b = 0 then Some ([], bs)
      else case read_str bs of None \<Rightarrow> None
        | Some (k, r) \<Rightarrow>
           (case read_json n r of None \<Rightarrow> None
            | Some (v, r') \<Rightarrow> map_option (\<lambda>(kvs, r''). ((k, v) # kvs, r'')) (read_fields n r')))"
| "read_fields _ _ = None"

lemma read_nat_print [simp]: "read_nat (print_nat n @ r) = Some (n, r)"
  by (induction n) simp_all

lemma unat_of_char: "unat (of_char c :: u8) = of_char c"
proof -
  have "(of_char c :: u8) = of_nat (of_char c)" by (cases c) simp
  moreover have "of_char c < (256 :: nat)" by (rule nat_of_char_less_256)
  ultimately show ?thesis by (simp add: unsigned_of_nat take_bit_nat_eq_self)
qed

lemma read_str_print [simp]: "read_str (print_str s @ r) = Some (s, r)"
  by (simp add: read_str_def print_str_def bytes_of_string_def comp_def unat_of_char del: print_nat.simps)

lemma read_print:
  "length (print_json j) \<le> n \<Longrightarrow> read_json n (print_json j @ r) = Some (j, r)"
  "length (print_items xs) \<le> n \<Longrightarrow> read_items n (print_items xs @ r) = Some (xs, r)"
  "length (print_fields kvs) \<le> n \<Longrightarrow> read_fields n (print_fields kvs @ r) = Some (kvs, r)"
proof (induction j and xs and kvs arbitrary: n r and n r and n r
    rule: print_json_print_items_print_fields.induct)
  case 1 then show ?case by (cases n) auto
next
  case 2 then show ?case by (cases n) auto
next
  case (3 i)
  then obtain k where "n = Suc k" by (cases n) auto
  then show ?case by (simp del: print_nat.simps)
next
  case 4 then show ?case by (cases n) (auto simp del: print_nat.simps)
next
  case 5 then show ?case by (cases n) auto
next
  case 6 then show ?case by (cases n) auto
next
  case 7 then show ?case by (cases n) auto
next
  case 8 then show ?case by (cases n) auto
next
  case 9 then show ?case by (cases n) auto
next
  case 10 then show ?case by (cases n) (auto simp del: print_nat.simps)
qed

definition unary_lib :: jlib where
  "unary_lib =
     \<lparr>jl_parse = (\<lambda>bs. case read_json (length bs) bs of Some (j, []) \<Rightarrow> Some j | _ \<Rightarrow> None),
      jl_dump = print_json, jl_merge = (\<lambda>target patch. patch)\<rparr>"

interpretation unary: json_lib unary_lib
proof unfold_locales
  fix j
  show "jl_parse unary_lib (jl_dump unary_lib j) = Some j"
    using read_print(1) [of j "length (print_json j)" "[]"] by (simp add: unary_lib_def)
  show "jl_dump unary_lib j \<noteq> []" by (cases j) (simp_all add: unary_lib_def)
qed

subsection \<open>Sequencing and catching\<close>

text \<open>The next statement, unless an exception left the one before; a \<^verbatim>\<open>try\<close> block with its handler.\<close>

definition then_do :: "('e + 'a) \<times> 's \<Rightarrow> ('a \<Rightarrow> 's \<Rightarrow> ('e + 'b) \<times> 's) \<Rightarrow> ('e + 'b) \<times> 's" where
  "then_do r f = (case r of (Inl e, s) \<Rightarrow> (Inl e, s) | (Inr x, s) \<Rightarrow> f x s)"

definition catch :: "('e + 'a) \<times> 's \<Rightarrow> ('s \<Rightarrow> ('e + 'a) \<times> 's) \<Rightarrow> ('e + 'a) \<times> 's" where
  "catch r f = (case r of (Inl e, s) \<Rightarrow> f s | (Inr x, s) \<Rightarrow> (Inr x, s))"

lemma then_do_simps [simp]: "then_do (Inl e, s) f = (Inl e, s)" "then_do (Inr x, s) f = f x s"
  by (simp_all add: then_do_def)

lemma catch_simps [simp]: "catch (Inl e, s) f = f s" "catch (Inr x, s) f = (Inr x, s)"
  by (simp_all add: catch_def)

lemma catch_no_error: "(\<And>s. fst (f s) \<noteq> Inl e) \<Longrightarrow> fst (catch r f) \<noteq> Inl e"
  by (cases r; cases "fst r") auto

end
