(* ===== verification/Ipcd_Server.thy ===== *)
theory Ipcd_Server
  imports Ipc_Framing Json_Model
begin

text \<open>
  The broker daemon: \<^verbatim>\<open>ipcd/ipc/IpcServerHandler\<close> (route table, connections, unicast and
  broadcast), \<^verbatim>\<open>ipcd/ipc/IpcServer\<close> (the event loop's dispatch), the routers, and
  \<^verbatim>\<open>ipcd/service\<close> (the handshake service and its two queues), as one state record. An
  \<^verbatim>\<open>unordered_map\<close> is an association list. The kernel's answers are arguments. \<open>s_openFds\<close> is
  not a member of the class: it records which accepted descriptors the process still holds open.
\<close>

subsection \<open>State\<close>

record runtime_state =
  rs_fd :: int
  rs_ready :: bool
  rs_generation :: u32
  rs_appliedVersion :: u64

datatype boot_event_type = BootEvUnknown | ReceiveClientHello | ReceiveSyncRequest | ReceiveRuntimeReady
datatype boot_action_type = BootActUnknown | SendServerHello | SendSyncResponse

datatype boot_event = BootEvent boot_event_type "ipc_message option"
datatype boot_action = BootAction boot_action_type "ipc_message option"

record ipcd =
  s_connections :: "(int \<times> ipc_connection) list"
  s_runtimeTable :: "(ipc_daemon \<times> runtime_state) list"
  s_epoll :: epoll
  s_rxRouter :: bool
  s_eventQueue :: "boot_event list"
  s_actionQueue :: "boot_action list"
  s_openFds :: "int list"
  s_listenFd :: int
  s_eventFd :: int
  s_maxConnections :: nat
  s_rxBufferSize :: nat
  s_txBufferSize :: nat

text \<open>What makes a run end abnormally.\<close>

datatype fault = StillRunning | UseAfterFree | Uncaught json_error

subsection \<open>The route table\<close>

definition bindRoute :: "ipc_daemon \<Rightarrow> int \<Rightarrow> ipcd \<Rightarrow> bool \<times> ipcd" where
  "bindRoute daemon fd s =
     (case map_of (s_runtimeTable s) daemon of
        None \<Rightarrow>
          (True, s\<lparr>s_runtimeTable := s_runtimeTable s @
             [(daemon, \<lparr>rs_fd = fd, rs_ready = False, rs_generation = 1, rs_appliedVersion = 0\<rparr>)]\<rparr>)
      | Some st \<Rightarrow>
          if rs_fd st = fd then (True, s)
          else if rs_fd st \<ge> 0 \<and> rs_fd st \<noteq> fd then (False, s)
          else
            (True, s\<lparr>s_runtimeTable := AList.update daemon
               (st\<lparr>rs_fd := fd, rs_ready := False, rs_appliedVersion := 0,
                   rs_generation := rs_generation st + 1\<rparr>) (s_runtimeTable s)\<rparr>))"

definition findRoute :: "ipc_daemon \<Rightarrow> ipcd \<Rightarrow> int" where
  "findRoute daemon s =
     (case map_of (s_runtimeTable s) daemon of
        None \<Rightarrow> -1
      | Some st \<Rightarrow> if rs_fd st < 0 then -1 else rs_fd st)"

definition removeRoute :: "int \<Rightarrow> ipcd \<Rightarrow> ipcd" where
  "removeRoute fd s =
     s\<lparr>s_runtimeTable := AList.map_ran
         (\<lambda>daemon st. if rs_fd st \<noteq> fd then st
            else st\<lparr>rs_fd := -1, rs_ready := False, rs_appliedVersion := 0\<rparr>) (s_runtimeTable s)\<rparr>"

definition markRuntimeReady :: "ipc_daemon \<Rightarrow> bool \<Rightarrow> u64 \<Rightarrow> ipcd \<Rightarrow> ipcd" where
  "markRuntimeReady daemon ready appliedVersion s =
     (case map_of (s_runtimeTable s) daemon of
        None \<Rightarrow> s
      | Some st \<Rightarrow>
          let st = st\<lparr>rs_ready := ready\<rparr>;
              st = (if appliedVersion > 0 then st\<lparr>rs_appliedVersion := appliedVersion\<rparr> else st)
          in s\<lparr>s_runtimeTable := AList.update daemon st (s_runtimeTable s)\<rparr>)"

subsection \<open>Connections and sending\<close>

text \<open>
  The descriptor is taken out of epoll and the map; nothing closes it (neither this method nor
  the destructor of \<^verbatim>\<open>IpcConnection\<close>), so \<open>s_openFds\<close> is left alone.
\<close>

definition closeConnection :: "int \<Rightarrow> ipcd \<Rightarrow> ipcd" where
  "closeConnection fd s =
     (let s = removeRoute fd s in
      case map_of (s_connections s) fd of
        None \<Rightarrow> s
      | Some c \<Rightarrow> s\<lparr>s_epoll := epoll_del fd (s_epoll s),
                   s_connections := AList.delete fd (s_connections s)\<rparr>)"

definition enqueueFrame :: "int \<Rightarrow> bytes \<Rightarrow> ipcd \<Rightarrow> bool \<times> ipcd" where
  "enqueueFrame fd frame s =
     (case map_of (s_connections s) fd of
        None \<Rightarrow> (False, s)
      | Some c \<Rightarrow>
          if frame = [] then (False, s)
          else
            let (written, tx') = conn_write frame (c_tx c) in
            if \<not> written then (False, s)
            else
              let s = s\<lparr>s_connections := AList.update fd (c\<lparr>c_tx := tx'\<rparr>) (s_connections s)\<rparr>;
                  (ok, ep') = epoll_mod fd [EPOLLIN, EPOLLOUT, EPOLLRDHUP] (s_epoll s)
              in if \<not> ok then (False, closeConnection fd s)
                 else (True, s\<lparr>s_epoll := ep'\<rparr>))"

definition sendFrame :: "int \<Rightarrow> ipc_message \<Rightarrow> ipcd \<Rightarrow> bool \<times> ipcd" where
  "sendFrame fd msg s =
     (let frame = encode (Some msg) in
      if frame = [] then (False, s) else enqueueFrame fd frame s)"

definition unicast :: "ipc_message \<Rightarrow> ipcd \<Rightarrow> ipcd" where
  "unicast msg s =
     (let fd = findRoute (msg_dst msg) s in
      if fd < 0 then s else snd (sendFrame fd msg s))"

text \<open>
  The loop of \<^verbatim>\<open>broadcast\<close> over the daemons of the table. A failing \<open>enqueueFrame\<close> changes the
  entries the loop has still to visit (never the set of daemons), so each is read when its turn
  comes.
\<close>

fun broadcast_loop :: "ipc_daemon \<Rightarrow> bytes \<Rightarrow> ipc_daemon list \<Rightarrow> ipcd \<Rightarrow> ipcd" where
  "broadcast_loop src frame [] s = s"
| "broadcast_loop src frame (daemon # ds) s =
     broadcast_loop src frame ds
       (case map_of (s_runtimeTable s) daemon of
          None \<Rightarrow> s
        | Some st \<Rightarrow>
            if rs_fd st < 0 then s
            else if daemon = src \<or> daemon = DIpcd \<or> daemon = DBroadcast then s
            else snd (enqueueFrame (rs_fd st) frame s))"

definition broadcast :: "ipc_message \<Rightarrow> ipcd \<Rightarrow> ipcd" where
  "broadcast msg s =
     (let frame = encode (Some msg) in
      if frame = [] then s
      else broadcast_loop (msg_src msg) frame (map fst (s_runtimeTable s)) s)"

definition egress :: "ipc_message option \<Rightarrow> ipcd \<Rightarrow> ipcd" where
  "egress msg s =
     (case msg of None \<Rightarrow> s
      | Some m \<Rightarrow>
          if msg_dst m = DBroadcast \<or> hasFlag (msg_flags m) FlagBroadcast then broadcast m s
          else unicast m s)"

subsection \<open>Receiving\<close>

definition event_create :: "ipc_message \<Rightarrow> boot_event option" where
  "event_create msg = (case msg_cmd msg of
     CmdClientHello \<Rightarrow> Some (BootEvent ReceiveClientHello (Some msg))
   | CmdSyncRequest \<Rightarrow> Some (BootEvent ReceiveSyncRequest (Some msg))
   | CmdRuntimeReady \<Rightarrow> Some (BootEvent ReceiveRuntimeReady (Some msg))
   | _ \<Rightarrow> None)"

definition postEvent :: "boot_event option \<Rightarrow> ipcd \<Rightarrow> ipcd" where
  "postEvent event s = (case event of None \<Rightarrow> s
     | Some e \<Rightarrow> s\<lparr>s_eventQueue := s_eventQueue s @ [e]\<rparr>)"

definition postAction :: "boot_action option \<Rightarrow> ipcd \<Rightarrow> ipcd" where
  "postAction action s = (case action of None \<Rightarrow> s
     | Some a \<Rightarrow> s\<lparr>s_actionQueue := s_actionQueue s @ [a]\<rparr>)"

definition rx_handleIpcMessage :: "ipc_message \<Rightarrow> ipcd \<Rightarrow> ipcd" where
  "rx_handleIpcMessage msg s =
     (if msg_cmd msg \<in> {CmdClientHello, CmdSyncRequest, CmdRuntimeReady}
      then postEvent (event_create msg) s
      else egress (Some msg) s)"

definition server_ingress :: "ipcd ingress" where
  "server_ingress fd frame s =
     (if frame = [] then (False, s)
      else if \<not> s_rxRouter s then (False, s)
      else
        let (rc, out) = decode (Some frame) in
        if rc \<noteq> DecOk then (False, s)
        else case out of None \<Rightarrow> (False, s)
          | Some msg \<Rightarrow>
              let (bound, s) = bindRoute (msg_src msg) fd s in
              if \<not> bound then (False, s)
              else (True, rx_handleIpcMessage msg s))"

definition connected :: "int \<Rightarrow> ipcd \<Rightarrow> bool" where
  "connected fd s \<longleftrightarrow> map_of (s_connections s) fd \<noteq> None"

text \<open>
  While frames are cut the receive ring is held by the loop; it is put back into the connection
  afterwards. \<open>ingress\<close> never looks at it.
\<close>

definition put_rx :: "int \<Rightarrow> ring \<Rightarrow> ipcd \<Rightarrow> ipcd" where
  "put_rx fd rx s =
     s\<lparr>s_connections := AList.map_ran (\<lambda>k c. if k = fd then c\<lparr>c_rx := rx\<rparr> else c) (s_connections s)\<rparr>"

definition server_handleRecv :: "recv_outcome list \<Rightarrow> int \<Rightarrow> ipcd \<Rightarrow> fault + (bool \<times> ipcd)" where
  "server_handleRecv env fd s =
     (case map_of (s_connections s) fd of
        None \<Rightarrow> Inr (False, s)
      | Some c \<Rightarrow>
          (case ipc_handleRecv server_ingress (connected fd) fd env (c_rx c) s of
             None \<Rightarrow> Inl StillRunning
           | Some (res, rx', s', env') \<Rightarrow>
               (case res of
                  DrainUseAfterFree \<Rightarrow> Inl UseAfterFree
                | DrainKeep \<Rightarrow> Inr (True, put_rx fd rx' s')
                | DrainClose \<Rightarrow> Inr (False, closeConnection fd (put_rx fd rx' s')))))"

definition server_handleSend :: "send_outcome list \<Rightarrow> int \<Rightarrow> ipcd \<Rightarrow> fault + (bool \<times> ipcd)" where
  "server_handleSend env fd s =
     (case map_of (s_connections s) fd of
        None \<Rightarrow> Inr (False, s)
      | Some c \<Rightarrow>
          (case ipc_handleSend fd env (c_tx c) (s_epoll s) of
             None \<Rightarrow> Inl StillRunning
           | Some (ok, tx', ep', out) \<Rightarrow>
               let s = s\<lparr>s_connections := AList.update fd (c\<lparr>c_tx := tx'\<rparr>) (s_connections s),
                         s_epoll := ep'\<rparr>
               in if \<not> ok then Inr (False, closeConnection fd s) else Inr (True, s)))"

datatype accept_outcome = AcceptFd nat | AcceptErr errno

fun handleAccept :: "accept_outcome list \<Rightarrow> ipcd \<Rightarrow> fault + ipcd" where
  "handleAccept [] s = Inl StillRunning"
| "handleAccept (AcceptErr e # env) s = (if e = EINTR then handleAccept env s else Inr s)"
| "handleAccept (AcceptFd n # env) s =
     (if length (s_connections s) \<ge> s_maxConnections s then handleAccept env s
      else
        let fd = int n;
            (ok, ep') = epoll_add fd [EPOLLIN, EPOLLRDHUP] (s_epoll s) in
        if \<not> ok then handleAccept env s
        else handleAccept env
          (s\<lparr>s_epoll := ep', s_openFds := fd # s_openFds s,
             s_connections := (if map_of (s_connections s) fd = None
                then s_connections s @ [(fd, conn_new fd (s_rxBufferSize s) (s_txBufferSize s))]
                else s_connections s)\<rparr>))"

record io_env =
  e_accept :: "accept_outcome list"
  e_recv :: "recv_outcome list"
  e_send :: "send_outcome list"

definition server_handleEvent :: "io_env \<Rightarrow> int \<Rightarrow> epoll_event list \<Rightarrow> ipcd \<Rightarrow> fault + ipcd" where
  "server_handleEvent env fd events s =
     (let isClose = (EPOLLERR \<in> set events \<or> EPOLLHUP \<in> set events \<or> EPOLLRDHUP \<in> set events);
          isRecv = (EPOLLIN \<in> set events);
          isSend = (EPOLLOUT \<in> set events) in
      if fd = s_eventFd s then Inr s
      else if fd = s_listenFd s then
        (if isClose then Inr s else if isRecv then handleAccept (e_accept env) s else Inr s)
      else case map_of (s_connections s) fd of
        None \<Rightarrow> Inr s
      | Some c \<Rightarrow>
          if isClose then Inr (closeConnection fd s)
          else
            bind_err (if isRecv then map_sum id snd (server_handleRecv (e_recv env) fd s) else Inr s)
              (\<lambda>s. if isSend then map_sum id snd (server_handleSend (e_send env) fd s) else Inr s))"

lemma handleEvent_keeps:
  assumes "P s" and "server_handleEvent env fd evs s = Inr s'"
    and accept: "\<And>s s'. P s \<Longrightarrow> fd = s_listenFd s \<Longrightarrow> handleAccept (e_accept env) s = Inr s' \<Longrightarrow> P s'"
    and close: "\<And>s. P s \<Longrightarrow> connected fd s \<Longrightarrow> P (closeConnection fd s)"
    and recv: "\<And>s b s'. P s \<Longrightarrow> server_handleRecv (e_recv env) fd s = Inr (b, s') \<Longrightarrow> P s'"
    and send: "\<And>s b s'. P s \<Longrightarrow> server_handleSend (e_send env) fd s = Inr (b, s') \<Longrightarrow> P s'"
  shows "P s'"
proof (cases "fd = s_eventFd s \<or> fd = s_listenFd s")
  case True
  then show ?thesis using assms(1,2) accept [of s s']
    by (auto simp: server_handleEvent_def Let_def split: if_splits)
next
  case False
  show ?thesis
  proof (cases "EPOLLERR \<in> set evs \<or> EPOLLHUP \<in> set evs \<or> EPOLLRDHUP \<in> set evs \<or> \<not> connected fd s")
    case True
    then show ?thesis using False assms(1,2) close [OF assms(1)]
      by (auto simp: server_handleEvent_def Let_def connected_def split: option.splits)
  next
    case on: False
    then obtain t where
      t: "(if EPOLLIN \<in> set evs then map_sum id snd (server_handleRecv (e_recv env) fd s) else Inr s) = Inr t"
      "(if EPOLLOUT \<in> set evs then map_sum id snd (server_handleSend (e_send env) fd t) else Inr t) = Inr s'"
      using False assms(2)
      by (auto simp: server_handleEvent_def Let_def connected_def bind_err_Inr_iff)
    from t(1) have "P t"
      using assms(1) recv [OF assms(1)]
      by (cases "server_handleRecv (e_recv env) fd s") (auto split: if_splits)
    with t(2) show ?thesis
      using send [of t] by (cases "server_handleSend (e_send env) fd t") (auto split: if_splits)
  qed
qed

subsection \<open>The handshake service\<close>

definition buildServerHello :: "ipc_message \<Rightarrow> ipc_message" where
  "buildServerHello req =
     mk_message DIpcd (msg_src req) CmdServerHello (msg_seqNo req) (toFlag FlagResponse)
       (bytes_of_string (daemonToStr DIpcd))"

definition sync_entry :: "ipc_daemon \<Rightarrow> runtime_state \<Rightarrow> json" where
  "sync_entry daemon st =
     JObj [(''daemon'', JStr (daemonToStr daemon)), (''ready'', JBool (rs_ready st)),
           (''generation'', JInt (uint (rs_generation st))),
           (''applied_version'', JInt (uint (rs_appliedVersion st)))]"

definition sync_reported :: "ipc_daemon \<times> runtime_state \<Rightarrow> bool" where
  "sync_reported = (\<lambda>(daemon, st). \<not> (daemon = DEngined \<or> daemon = DMgmtd) \<and> \<not> rs_fd st < 0)"

definition sync_json :: "(ipc_daemon \<times> runtime_state) list \<Rightarrow> json" where
  "sync_json table =
     JObj [(''daemons'', JArr (map (\<lambda>(daemon, st). sync_entry daemon st) (filter sync_reported table)))]"

definition buildSyncResponse :: "jlib \<Rightarrow> ipc_message \<Rightarrow> ipcd \<Rightarrow> ipc_message" where
  "buildSyncResponse L req s =
     mk_message DIpcd (msg_src req) CmdSyncResponse (msg_seqNo req) (toFlag FlagResponse)
       (jl_dump L (sync_json (s_runtimeTable s)))"

definition reported_version :: "jlib \<Rightarrow> bytes \<Rightarrow> json_error + u64" where
  "reported_version L payload =
     (if payload = [] then Inr 0
      else case jl_parse L payload of
        None \<Rightarrow> Inr 0
      | Some parsed \<Rightarrow>
          if is_object parsed then jvalue get_u64 ''applied_version'' 0 parsed else Inr 0)"

fun boot_handleEvent :: "jlib \<Rightarrow> boot_event \<Rightarrow> ipcd \<Rightarrow> json_error + ipcd" where
  "boot_handleEvent L (BootEvent ReceiveClientHello None) s = Inr s"
| "boot_handleEvent L (BootEvent ReceiveClientHello (Some msg)) s =
     Inr (postAction (Some (BootAction SendServerHello (Some msg))) s)"
| "boot_handleEvent L (BootEvent ReceiveSyncRequest None) s = Inr s"
| "boot_handleEvent L (BootEvent ReceiveSyncRequest (Some msg)) s =
     Inr (postAction (Some (BootAction SendSyncResponse (Some msg))) s)"
| "boot_handleEvent L (BootEvent ReceiveRuntimeReady None) s = Inr s"
| "boot_handleEvent L (BootEvent ReceiveRuntimeReady (Some msg)) s =
     map_sum id (\<lambda>v. markRuntimeReady (msg_src msg) True v s) (reported_version L (msg_payload msg))"
| "boot_handleEvent L (BootEvent BootEvUnknown m) s = Inr s"

fun boot_handleAction :: "jlib \<Rightarrow> boot_action \<Rightarrow> ipcd \<Rightarrow> ipcd" where
  "boot_handleAction L (BootAction SendServerHello None) s = s"
| "boot_handleAction L (BootAction SendServerHello (Some req)) s = egress (Some (buildServerHello req)) s"
| "boot_handleAction L (BootAction SendSyncResponse None) s = s"
| "boot_handleAction L (BootAction SendSyncResponse (Some req)) s =
     egress (Some (buildSyncResponse L req s)) s"
| "boot_handleAction L (BootAction BootActUnknown m) s = s"

text \<open>Sending never touches the queues, so \<open>execute\<close> comes to an end.\<close>

definition queues :: "ipcd \<Rightarrow> boot_event list \<times> boot_action list" where
  "queues s = (s_eventQueue s, s_actionQueue s)"

lemma queues_simps [simp]:
  "queues (removeRoute fd s) = queues s" "queues (closeConnection fd s) = queues s"
  "queues (snd (enqueueFrame fd frame s)) = queues s" "queues (markRuntimeReady d b v s) = queues s"
  "queues (snd (bindRoute d fd s)) = queues s" "queues (put_rx fd rx s) = queues s"
  by (auto simp: queues_def removeRoute_def closeConnection_def enqueueFrame_def markRuntimeReady_def
      bindRoute_def put_rx_def Let_def split: option.splits prod.splits)

lemma queues_broadcast_loop [simp]: "queues (broadcast_loop src frame ds s) = queues s"
  by (induction ds arbitrary: s) (simp_all split: option.split)

lemma queues_egress [simp]: "queues (egress m s) = queues s"
  by (simp add: egress_def broadcast_def unicast_def sendFrame_def Let_def split: option.split)

lemma queues_handleAction [simp]: "queues (boot_handleAction L a s) = queues s"
  by (cases "(L, a, s)" rule: boot_handleAction.cases) simp_all

lemma queue_handleAction [simp]:
  "s_eventQueue (boot_handleAction L a s) = s_eventQueue s"
  "s_actionQueue (boot_handleAction L a s) = s_actionQueue s"
  using queues_handleAction [of L a s] by (simp_all add: queues_def)

lemma queues_handleEvent:
  "boot_handleEvent L e s = Inr s' \<Longrightarrow>
     s_eventQueue s' = s_eventQueue s \<and> length (s_actionQueue s') \<le> Suc (length (s_actionQueue s))"
  using queues_simps(4)
  by (cases "(L, e, s)" rule: boot_handleEvent.cases)
    (auto simp: postAction_def queues_def map_sum_def split: sum.splits)

function service_execute :: "jlib \<Rightarrow> ipcd \<Rightarrow> fault + ipcd" where
  "service_execute L s =
     (case s_eventQueue s of
        e # es \<Rightarrow>
          (case boot_handleEvent L e (s\<lparr>s_eventQueue := es\<rparr>) of
             Inl err \<Rightarrow> Inl (Uncaught err)
           | Inr s' \<Rightarrow> service_execute L s')
      | [] \<Rightarrow>
          (case s_actionQueue s of
             a # as \<Rightarrow> service_execute L (boot_handleAction L a (s\<lparr>s_actionQueue := as\<rparr>))
           | [] \<Rightarrow> Inr s))"
  by pat_completeness auto
termination
proof (relation "measure (\<lambda>(L, s). 2 * length (s_eventQueue s) + length (s_actionQueue s))", goal_cases)
  case 1
  show ?case by simp
next
  case 2
  then show ?case by simp
next
  case 3
  then show ?case using queues_handleEvent [OF 3(2)] by simp
qed

declare service_execute.simps [simp del]

lemma execute_steps:
  "s_eventQueue s = [] \<Longrightarrow> s_actionQueue s = [] \<Longrightarrow> service_execute L s = Inr s"
  "s_eventQueue s = [] \<Longrightarrow> s_actionQueue s = a # as \<Longrightarrow>
     service_execute L s = service_execute L (boot_handleAction L a (s\<lparr>s_actionQueue := as\<rparr>))"
  "s_eventQueue s = e # es \<Longrightarrow> service_execute L s =
     (case boot_handleEvent L e (s\<lparr>s_eventQueue := es\<rparr>) of
        Inl err \<Rightarrow> Inl (Uncaught err) | Inr s' \<Rightarrow> service_execute L s')"
  by (simp_all add: service_execute.simps [of L s])

text \<open>What pops and handlers keep, a whole \<open>execute\<close> keeps; it ends with both queues empty.\<close>

lemma execute_keeps:
  assumes "P s" and "service_execute L s = Inr s'"
    and event: "\<And>e es s s'. P s \<Longrightarrow> s_eventQueue s = e # es \<Longrightarrow>
      boot_handleEvent L e (s\<lparr>s_eventQueue := es\<rparr>) = Inr s' \<Longrightarrow> P s'"
    and action: "\<And>a as s. P s \<Longrightarrow> s_eventQueue s = [] \<Longrightarrow> s_actionQueue s = a # as \<Longrightarrow>
      P (boot_handleAction L a (s\<lparr>s_actionQueue := as\<rparr>))"
  shows "P s' \<and> s_eventQueue s' = [] \<and> s_actionQueue s' = []"
  using assms(1,2)
proof (induction "2 * length (s_eventQueue s) + length (s_actionQueue s)" arbitrary: s
    rule: less_induct)
  case less
  show ?case
  proof (cases "s_eventQueue s")
    case Nil
    show ?thesis
    proof (cases "s_actionQueue s")
      case (Cons a as)
      let ?t = "boot_handleAction L a (s\<lparr>s_actionQueue := as\<rparr>)"
      have "service_execute L ?t = Inr s'"
        using less.prems(2) Cons Nil by (simp add: execute_steps)
      then show ?thesis
        using Nil Cons action [OF less.prems(1) Nil Cons] by (intro less.hyps [of ?t]) simp_all
    qed (use Nil less.prems in \<open>simp add: execute_steps\<close>)
  next
    case (Cons e es)
    then obtain t where t: "boot_handleEvent L e (s\<lparr>s_eventQueue := es\<rparr>) = Inr t"
      "service_execute L t = Inr s'"
      using less.prems(2) by (auto simp: execute_steps split: sum.splits)
    show ?thesis
      using queues_handleEvent [OF t(1)] Cons event [OF less.prems(1) Cons t(1)] t(2)
      by (intro less.hyps [of t]) simp_all
  qed
qed

text \<open>One round of \<^verbatim>\<open>IpcdProcess::tick\<close>: the events epoll reports, then the queues.\<close>

fun poll_events :: "(io_env \<times> int \<times> epoll_event list) list \<Rightarrow> ipcd \<Rightarrow> fault + ipcd" where
  "poll_events [] s = Inr s"
| "poll_events ((env, fd, events) # evs) s =
     bind_err (server_handleEvent env fd events s) (poll_events evs)"

definition ipcd_tick :: "jlib \<Rightarrow> (io_env \<times> int \<times> epoll_event list) list \<Rightarrow> ipcd \<Rightarrow> fault + ipcd" where
  "ipcd_tick L evs s = bind_err (poll_events evs s) (service_execute L)"

end
