(* ===== verification/Ipcd_Invariant.thy ===== *)
theory Ipcd_Invariant
  imports Ipcd_Server
begin

text \<open>
  What holds of the broker's state at all times: connections and routes are maps, every live route
  leads to a connection, and every connection has well-formed rings, is watched by epoll and has an
  open descriptor. Every operation keeps it, so every tick does; under the assumption that the
  kernel never refuses \<^verbatim>\<open>epoll_ctl\<close>, no tick touches a destroyed connection.
\<close>

definition conn_ok :: "ipcd \<Rightarrow> int \<times> ipc_connection \<Rightarrow> bool" where
  "conn_ok s = (\<lambda>(fd, c). 0 \<le> fd \<and> ring_ok (c_rx c) \<and> ring_ok (c_tx c) \<and>
     ep_set (s_epoll s) fd \<noteq> None \<and> fd \<in> set (s_openFds s))"

definition route_ok :: "ipcd \<Rightarrow> ipc_daemon \<times> runtime_state \<Rightarrow> bool" where
  "route_ok s = (\<lambda>(d, st). 0 \<le> rs_fd st \<longrightarrow> connected (rs_fd st) s)"

definition ipcd_ok :: "ipcd \<Rightarrow> bool" where
  "ipcd_ok s \<longleftrightarrow> distinct (map fst (s_connections s)) \<and> distinct (map fst (s_runtimeTable s)) \<and>
     list_all (conn_ok s) (s_connections s) \<and> list_all (route_ok s) (s_runtimeTable s) \<and>
     length (s_connections s) \<le> s_maxConnections s"

text \<open>The same through lookups, which the operations use.\<close>

lemma ipcd_ok_conn:
  "ipcd_ok s \<Longrightarrow> map_of (s_connections s) fd = Some c \<Longrightarrow>
     0 \<le> fd \<and> ring_ok (c_rx c) \<and> ring_ok (c_tx c) \<and> ep_set (s_epoll s) fd \<noteq> None \<and>
     fd \<in> set (s_openFds s)"
  by (auto simp: ipcd_ok_def list_all_iff conn_ok_def dest!: map_of_SomeD)

lemma ipcd_ok_route:
  "ipcd_ok s \<Longrightarrow> map_of (s_runtimeTable s) d = Some st \<Longrightarrow> 0 \<le> rs_fd st \<Longrightarrow> connected (rs_fd st) s"
  by (auto simp: ipcd_ok_def list_all_iff route_ok_def dest!: map_of_SomeD)

lemma ipcd_okI:
  assumes "distinct (map fst (s_connections s))" and "distinct (map fst (s_runtimeTable s))"
    and "\<And>fd c. map_of (s_connections s) fd = Some c \<Longrightarrow> conn_ok s (fd, c)"
    and "\<And>d st. map_of (s_runtimeTable s) d = Some st \<Longrightarrow> route_ok s (d, st)"
    and "length (s_connections s) \<le> s_maxConnections s"
  shows "ipcd_ok s"
  using assms by (auto simp: ipcd_ok_def list_all_iff map_of_eq_Some_iff)

lemma ipcd_ok_keys:
  "ipcd_ok s \<Longrightarrow> distinct (map fst (s_connections s)) \<and> distinct (map fst (s_runtimeTable s))"
  by (simp add: ipcd_ok_def)

lemma ipcd_ok_bound: "ipcd_ok s \<Longrightarrow> length (s_connections s) \<le> s_maxConnections s"
  by (simp add: ipcd_ok_def)

lemma connected_simps [simp]:
  "connected fd (s\<lparr>s_runtimeTable := t\<rparr>) = connected fd s"
  "connected fd (s\<lparr>s_epoll := ep\<rparr>) = connected fd s"
  "connected fd (s\<lparr>s_eventQueue := es\<rparr>) = connected fd s"
  "connected fd (s\<lparr>s_actionQueue := as\<rparr>) = connected fd s"
  by (simp_all add: connected_def)

lemma ipcd_ok_queues [simp]:
  "ipcd_ok (s\<lparr>s_eventQueue := es\<rparr>) = ipcd_ok s" "ipcd_ok (s\<lparr>s_actionQueue := as\<rparr>) = ipcd_ok s"
  by (simp_all add: ipcd_ok_def conn_ok_def route_ok_def connected_def)

lemma ipcd_ok_posts [simp]:
  "ipcd_ok (postEvent e s) = ipcd_ok s" "ipcd_ok (postAction a s) = ipcd_ok s"
  by (simp_all add: postEvent_def postAction_def split: option.split)

subsection \<open>The route table\<close>

lemma removeRoute_lookup:
  "map_of (s_runtimeTable (removeRoute fd s)) d =
     map_option (\<lambda>st. if rs_fd st \<noteq> fd then st
       else st\<lparr>rs_fd := -1, rs_ready := False, rs_appliedVersion := 0\<rparr>) (map_of (s_runtimeTable s) d)"
  by (simp add: removeRoute_def map_ran_conv)

lemma removeRoute_conns [simp]:
  "s_connections (removeRoute fd s) = s_connections s" "s_epoll (removeRoute fd s) = s_epoll s"
  "s_openFds (removeRoute fd s) = s_openFds s" "connected fd' (removeRoute fd s) = connected fd' s"
  by (simp_all add: removeRoute_def)

lemma removeRoute_keys [simp]:
  "map fst (s_runtimeTable (removeRoute fd s)) = map fst (s_runtimeTable s)"
  by (simp add: removeRoute_def)

lemma ipcd_ok_close:
  assumes "ipcd_ok s"
  shows "ipcd_ok (closeConnection fd s)"
proof (rule ipcd_okI)
  show "distinct (map fst (s_connections (closeConnection fd s)))"
    and "distinct (map fst (s_runtimeTable (closeConnection fd s)))"
    using ipcd_ok_keys [OF assms]
    by (auto simp: closeConnection_def Let_def distinct_delete split: option.split)
  show "length (s_connections (closeConnection fd s)) \<le> s_maxConnections (closeConnection fd s)"
    using ipcd_ok_bound [OF assms] length_delete_le [of fd "s_connections s"]
    by (auto simp: closeConnection_def Let_def removeRoute_def split: option.split)
next
  fix k c assume "map_of (s_connections (closeConnection fd s)) k = Some c"
  then show "conn_ok (closeConnection fd s) (k, c)"
    using ipcd_ok_conn [OF assms, of k c]
    by (auto simp: closeConnection_def Let_def conn_ok_def epoll_del_def map_of_delete removeRoute_def
        split: option.splits if_splits)
next
  fix d st assume "map_of (s_runtimeTable (closeConnection fd s)) d = Some st"
  then have "map_of (s_runtimeTable (removeRoute fd s)) d = Some st"
    by (simp add: closeConnection_def Let_def split: option.splits)
  then obtain st0 where "map_of (s_runtimeTable s) d = Some st0"
    and "st = (if rs_fd st0 \<noteq> fd then st0
       else st0\<lparr>rs_fd := -1, rs_ready := False, rs_appliedVersion := 0\<rparr>)"
    by (auto simp: removeRoute_lookup)
  then show "route_ok (closeConnection fd s) (d, st)"
    using ipcd_ok_route [OF assms, of d st0]
    by (auto simp: route_ok_def connected_def closeConnection_def Let_def map_of_delete split: option.splits)
qed

lemma ipcd_ok_table_update:
  assumes "ipcd_ok s" and "0 \<le> rs_fd st \<Longrightarrow> connected (rs_fd st) s"
  shows "ipcd_ok (s\<lparr>s_runtimeTable := AList.update d st (s_runtimeTable s)\<rparr>)"
  using assms ipcd_ok_keys [OF assms(1)] ipcd_ok_conn [OF assms(1)] ipcd_ok_route [OF assms(1)]
    ipcd_ok_bound [OF assms(1)]
  by (intro ipcd_okI)
    (auto simp: distinct_update conn_ok_def route_ok_def update_conv' split: if_splits)

lemma ipcd_ok_bindRoute:
  assumes "ipcd_ok s" and "connected fd s"
  shows "ipcd_ok (snd (bindRoute d fd s))"
proof (cases "map_of (s_runtimeTable s) d")
  case None
  then have "AList.update d st (s_runtimeTable s) = s_runtimeTable s @ [(d, st)]" for st
    by (rule update_new)
  then show ?thesis
    using ipcd_ok_table_update [OF assms(1), of
        "\<lparr>rs_fd = fd, rs_ready = False, rs_generation = 1, rs_appliedVersion = 0\<rparr>" d] assms(2) None
    by (simp add: bindRoute_def)
next
  case (Some st)
  then show ?thesis using assms ipcd_ok_table_update [OF assms(1)]
    by (simp add: bindRoute_def)
qed

lemma bindRoute_refused [simp]: "\<not> fst (bindRoute d fd s) \<Longrightarrow> snd (bindRoute d fd s) = s"
  by (auto simp: bindRoute_def split: option.splits if_splits)

lemma bindRoute_conns [simp]:
  "s_connections (snd (bindRoute d fd s)) = s_connections s" "s_epoll (snd (bindRoute d fd s)) = s_epoll s"
  "connected fd' (snd (bindRoute d fd s)) = connected fd' s"
  by (simp_all add: bindRoute_def split: option.split)

lemma ipcd_ok_markReady:
  assumes "ipcd_ok s"
  shows "ipcd_ok (markRuntimeReady d b v s)"
proof (cases "map_of (s_runtimeTable s) d")
  case (Some st)
  then show ?thesis
    using ipcd_ok_route [OF assms Some]
    by (auto simp: markRuntimeReady_def Let_def intro!: ipcd_ok_table_update [OF assms])
qed (simp add: markRuntimeReady_def assms)

subsection \<open>Connections\<close>

lemma ipcd_ok_conn_update:
  assumes "ipcd_ok s" and "map_of (s_connections s) fd = Some c"
    and "ring_ok (c_rx c')" and "ring_ok (c_tx c')"
    and "dom (ep_set ep') = dom (ep_set (s_epoll s))"
  shows "ipcd_ok (s\<lparr>s_connections := AList.update fd c' (s_connections s), s_epoll := ep'\<rparr>)"
proof (rule ipcd_okI)
  let ?s = "s\<lparr>s_connections := AList.update fd c' (s_connections s), s_epoll := ep'\<rparr>"
  have ep: "ep_set ep' k \<noteq> None \<longleftrightarrow> ep_set (s_epoll s) k \<noteq> None" for k
    using assms(5) by (auto simp: dom_def set_eq_iff)
  show "distinct (map fst (s_connections ?s))" "distinct (map fst (s_runtimeTable ?s))"
    using ipcd_ok_keys [OF assms(1)] by (simp_all add: distinct_update)
  show "length (s_connections ?s) \<le> s_maxConnections ?s"
    using ipcd_ok_bound [OF assms(1)] assms(2) by (simp add: length_update)
  show "conn_ok ?s (k, c1)" if "map_of (s_connections ?s) k = Some c1" for k c1
    using that ipcd_ok_conn [OF assms(1,2)] ipcd_ok_conn [OF assms(1), of k c1] assms(3,4) ep
    by (auto simp: conn_ok_def update_conv' split: if_splits)
  show "route_ok ?s (d, st)" if "map_of (s_runtimeTable ?s) d = Some st" for d st
    using that ipcd_ok_route [OF assms(1), of d st]
    by (auto simp: route_ok_def connected_def update_conv')
qed

lemma ipcd_ok_put_rx:
  assumes "ipcd_ok s" and "ring_ok rx"
  shows "ipcd_ok (put_rx fd rx s)"
  using ipcd_ok_keys [OF assms(1)] ipcd_ok_conn [OF assms(1)] ipcd_ok_route [OF assms(1)] assms(2)
    ipcd_ok_bound [OF assms(1)]
  by (intro ipcd_okI)
    (fastforce simp: put_rx_def conn_ok_def route_ok_def connected_def map_ran_conv)+

lemma ipcd_ok_enqueue:
  assumes "ipcd_ok s"
  shows "ipcd_ok (snd (enqueueFrame fd frame s))"
proof (cases "map_of (s_connections s) fd")
  case (Some c)
  obtain written tx' where w: "conn_write frame (c_tx c) = (written, tx')" by fastforce
  obtain ok ep' where m: "epoll_mod fd [EPOLLIN, EPOLLOUT, EPOLLRDHUP] (s_epoll s) = (ok, ep')"
    by fastforce
  have "ring_ok (c_tx c)" "ring_ok (c_rx c)" using ipcd_ok_conn [OF assms Some] by auto
  then have "ring_ok (c_rx (c\<lparr>c_tx := tx'\<rparr>))" "ring_ok (c_tx (c\<lparr>c_tx := tx'\<rparr>))"
    using conn_write_correct(2) [of "c_tx c" frame] w by simp_all
  note u = ipcd_ok_conn_update [OF assms Some this]
  have "dom (ep_set ep') = dom (ep_set (s_epoll s))"
    using epoll_mod_set(3) [of fd _ "s_epoll s"] m by (metis snd_conv)
  from u [OF this] u [of "s_epoll s"] show ?thesis
    using assms Some w m by (auto simp: enqueueFrame_def Let_def intro: ipcd_ok_close)
qed (simp add: enqueueFrame_def assms)

lemma ipcd_ok_broadcast_loop: "ipcd_ok s \<Longrightarrow> ipcd_ok (broadcast_loop src frame ds s)"
  by (induction ds arbitrary: s) (auto split: option.split intro!: ipcd_ok_enqueue)

lemma ipcd_ok_egress: "ipcd_ok s \<Longrightarrow> ipcd_ok (egress m s)"
  by (auto simp: egress_def broadcast_def unicast_def sendFrame_def Let_def
      intro: ipcd_ok_broadcast_loop ipcd_ok_enqueue split: option.split)

lemma ipcd_ok_rx_handle: "ipcd_ok s \<Longrightarrow> ipcd_ok (rx_handleIpcMessage m s)"
  by (simp add: rx_handleIpcMessage_def ipcd_ok_egress)

lemma ipcd_ok_ingress:
  "ipcd_ok s \<Longrightarrow> connected fd s \<Longrightarrow> server_ingress fd f s = (ok, s') \<Longrightarrow> ipcd_ok s'"
  using ipcd_ok_bindRoute [of s fd]
  by (auto simp: server_ingress_def Let_def ipcd_ok_rx_handle split: if_splits prod.splits option.splits)
    (metis snd_conv ipcd_ok_rx_handle)+

text \<open>The broker's \<open>ingress\<close> meets the contract of the receive loop.\<close>

interpretation sv: ipc_handler server_ingress "connected fd" fd ipcd_ok for fd
  by unfold_locales (rule ipcd_ok_ingress)


lemma ipcd_ok_handleRecv:
  assumes "ipcd_ok s" and "server_handleRecv env fd s = Inr (b, s')"
  shows "ipcd_ok s'"
proof (cases "map_of (s_connections s) fd")
  case None
  with assms show ?thesis by (simp add: server_handleRecv_def)
next
  case (Some c)
  have alive: "connected fd s" using Some by (simp add: connected_def)
  have ok: "ring_ok (c_rx c)" using ipcd_ok_conn [OF assms(1) Some] by simp
  obtain res rx' s1 env' where
    r: "ipc_handleRecv server_ingress (connected fd) fd env (c_rx c) s = Some (res, rx', s1, env')"
    using assms(2) Some by (auto simp: server_handleRecv_def split: option.splits)
  have "ring_ok rx'" "ipcd_ok s1" using sv.handleRecv_keeps [OF ok assms(1) alive r] by auto
  then have "ipcd_ok (put_rx fd rx' s1)" by (intro ipcd_ok_put_rx)
  then show ?thesis using assms(2) Some r
    by (auto simp: server_handleRecv_def split: drain_outcome.splits intro: ipcd_ok_close)
qed

lemma ipcd_ok_handleSend:
  assumes "ipcd_ok s" and "server_handleSend env fd s = Inr (b, s')"
  shows "ipcd_ok s'"
proof (cases "map_of (s_connections s) fd")
  case None
  with assms show ?thesis by (simp add: server_handleSend_def)
next
  case (Some c)
  have ok: "ring_ok (c_rx c)" "ring_ok (c_tx c)" using ipcd_ok_conn [OF assms(1) Some] by auto
  obtain k tx' ep' out where
    f: "ipc_handleSend fd env (c_tx c) (s_epoll s) = Some (k, tx', ep', out)"
    using assms(2) Some by (auto simp: server_handleSend_def split: option.splits)
  have tx: "ring_ok tx'" and ep: "dom (ep_set ep') = dom (ep_set (s_epoll s))"
    using handleSend_ring [OF ok(2) f] handleSend_dom [OF f] by auto
  let ?s = "s\<lparr>s_connections := AList.update fd (c\<lparr>c_tx := tx'\<rparr>) (s_connections s), s_epoll := ep'\<rparr>"
  have "ipcd_ok ?s"
    using ok tx ep by (intro ipcd_ok_conn_update [OF assms(1) Some]) simp_all
  then show ?thesis using assms(2) Some f
    by (auto simp: server_handleSend_def Let_def split: if_splits intro: ipcd_ok_close)
qed

lemma ipcd_ok_accept:
  "ipcd_ok s \<Longrightarrow> handleAccept env s = Inr s' \<Longrightarrow> ipcd_ok s'"
proof (induction env s rule: handleAccept.induct)
  case (3 n env s)
  obtain ok ep' where a: "epoll_add (int n) [EPOLLIN, EPOLLRDHUP] (s_epoll s) = (ok, ep')" by fastforce
  let ?conns = "if map_of (s_connections s) (int n) = None
      then s_connections s @ [(int n, conn_new (int n) (s_rxBufferSize s) (s_txBufferSize s))]
      else s_connections s"
  let ?s = "s\<lparr>s_epoll := ep', s_openFds := int n # s_openFds s, s_connections := ?conns\<rparr>"
  have "ipcd_ok ?s" if ok and room: "length (s_connections s) < s_maxConnections s"
  proof -
    have new: "ring_ok (rb_new (max k IPC_MAX_FRAME_SIZE))" for k
      by (rule ring_ok_new) (simp add: IPC_MAX_FRAME_SIZE_def)
    show ?thesis
      using a that ipcd_ok_keys [OF "3.prems"(1)] ipcd_ok_conn [OF "3.prems"(1)]
        ipcd_ok_route [OF "3.prems"(1)] ipcd_ok_bound [OF "3.prems"(1)] room
      by (intro ipcd_okI)
        (auto simp: conn_ok_def route_ok_def connected_def epoll_add_def conn_new_def new
          map_of_eq_None_iff map_add_Some_iff split: if_splits)
  qed
  with "3" a show ?case by (auto simp: Let_def split: if_splits)
qed (auto split: if_splits)

lemma ipcd_ok_handleEvent:
  assumes "ipcd_ok s" and "server_handleEvent env fd evs s = Inr s'"
  shows "ipcd_ok s'"
  using assms
  by (rule handleEvent_keeps) (auto intro: ipcd_ok_accept ipcd_ok_close ipcd_ok_handleRecv ipcd_ok_handleSend)

lemma ipcd_ok_poll: "ipcd_ok s \<Longrightarrow> poll_events evs s = Inr s' \<Longrightarrow> ipcd_ok s'"
  by (induction evs s rule: poll_events.induct) (auto simp: bind_err_Inr_iff dest: ipcd_ok_handleEvent)

lemma ipcd_ok_boot:
  "ipcd_ok s \<Longrightarrow> boot_handleEvent L e s = Inr s' \<Longrightarrow> ipcd_ok s'"
  "ipcd_ok s \<Longrightarrow> ipcd_ok (boot_handleAction L a s)"
proof -
  show "ipcd_ok s \<Longrightarrow> boot_handleEvent L e s = Inr s' \<Longrightarrow> ipcd_ok s'"
    by (cases "(L, e, s)" rule: boot_handleEvent.cases)
      (auto simp: map_sum_def ipcd_ok_markReady split: sum.splits)
  show "ipcd_ok s \<Longrightarrow> ipcd_ok (boot_handleAction L a s)"
    by (cases "(L, a, s)" rule: boot_handleAction.cases) (simp_all add: ipcd_ok_egress)
qed

lemma ipcd_ok_execute: "ipcd_ok s \<Longrightarrow> service_execute L s = Inr s' \<Longrightarrow> ipcd_ok s'"
  using execute_keeps [of ipcd_ok s L s'] ipcd_ok_boot
  by (metis ipcd_ok_queues)

lemma ipcd_ok_tick: "ipcd_ok s \<Longrightarrow> ipcd_tick L evs s = Inr s' \<Longrightarrow> ipcd_ok s'"
  by (auto simp: ipcd_tick_def bind_err_Inr_iff dest: ipcd_ok_poll ipcd_ok_execute)


subsection \<open>When the kernel never refuses epoll_ctl\<close>

definition epoll_willing :: "ipcd \<Rightarrow> bool" where
  "epoll_willing s \<longleftrightarrow> (\<forall>fd. \<not> ep_refuses (s_epoll s) fd)"

text \<open>Then sending never closes a connection: routes and the set of connections stay.\<close>

definition same_links :: "ipcd \<Rightarrow> ipcd \<Rightarrow> bool" where
  "same_links s s' \<longleftrightarrow> s_runtimeTable s' = s_runtimeTable s \<and>
     (\<forall>fd. connected fd s' = connected fd s) \<and> (epoll_willing s \<longrightarrow> epoll_willing s')"

lemma same_links_refl [simp]: "same_links s s"
  by (simp add: same_links_def)

lemma same_links_trans: "same_links s t \<Longrightarrow> same_links t u \<Longrightarrow> same_links s u"
  by (simp add: same_links_def)

lemma same_links_enqueue:
  assumes "ipcd_ok s" and "epoll_willing s"
  shows "same_links s (snd (enqueueFrame fd frame s))"
proof (cases "map_of (s_connections s) fd")
  case (Some c)
  obtain written tx' where w: "conn_write frame (c_tx c) = (written, tx')" by fastforce
  obtain ok ep' where m: "epoll_mod fd [EPOLLIN, EPOLLOUT, EPOLLRDHUP] (s_epoll s) = (ok, ep')"
    by fastforce
  have "ep_set (s_epoll s) fd \<noteq> None" using ipcd_ok_conn [OF assms(1) Some] by simp
  then have "ok" "ep_refuses ep' = ep_refuses (s_epoll s)"
    using assms(2) m by (auto simp: epoll_willing_def epoll_mod_def split: if_splits)
  then show ?thesis
    using Some w m by (simp add: enqueueFrame_def Let_def same_links_def connected_def update_conv'
        epoll_willing_def)
qed (simp add: enqueueFrame_def)

lemma same_links_broadcast_loop:
  "ipcd_ok s \<Longrightarrow> epoll_willing s \<Longrightarrow> same_links s (broadcast_loop src frame ds s)"
proof (induction ds arbitrary: s)
  case (Cons d ds)
  let ?t = "case map_of (s_runtimeTable s) d of None \<Rightarrow> s
     | Some st \<Rightarrow> if rs_fd st < 0 then s else if d = src \<or> d = DIpcd \<or> d = DBroadcast then s
         else snd (enqueueFrame (rs_fd st) frame s)"
  have t: "same_links s ?t" "ipcd_ok ?t"
    using same_links_enqueue [OF Cons.prems] ipcd_ok_enqueue [OF Cons.prems(1)] Cons.prems(1)
    by (simp_all split: option.split)
  then have "epoll_willing ?t" using Cons.prems(2) by (simp add: same_links_def)
  from same_links_trans [OF t(1) Cons.IH [OF t(2) this]] show ?case by simp
qed simp

lemma same_links_egress:
  "ipcd_ok s \<Longrightarrow> epoll_willing s \<Longrightarrow> same_links s (egress m s)"
  by (simp add: egress_def broadcast_def unicast_def sendFrame_def Let_def same_links_enqueue
      same_links_broadcast_loop split: option.split)

lemma same_links_posts [simp]:
  "same_links s (postEvent e s)" "same_links s (postAction a s)"
  by (simp_all add: postEvent_def postAction_def same_links_def epoll_willing_def split: option.split)

lemma same_links_rx_handle:
  "ipcd_ok s \<Longrightarrow> epoll_willing s \<Longrightarrow> same_links s (rx_handleIpcMessage m s)"
  by (simp add: rx_handleIpcMessage_def same_links_egress)

lemma epoll_willing_bind [simp]: "epoll_willing (snd (bindRoute d fd s)) = epoll_willing s"
  by (simp add: epoll_willing_def)

lemma ingress_links:
  assumes "ipcd_ok s" and "epoll_willing s" and "connected fd s"
    and "server_ingress fd f s = (ok, s')"
  shows "s' = s \<or> (\<exists>d. same_links (snd (bindRoute d fd s)) s')"
proof -
  have "same_links (snd (bindRoute d fd s)) (rx_handleIpcMessage m (snd (bindRoute d fd s)))" for d m
    using ipcd_ok_bindRoute [OF assms(1,3)] assms(2) by (intro same_links_rx_handle) simp_all
  moreover obtain rc out where "decode (Some f) = (rc, out)" by fastforce
  ultimately show ?thesis
    using assms(4) same_links_refl
    by (cases out) (auto simp: server_ingress_def Let_def split_beta split: if_splits)
qed

lemma ingress_willing:
  assumes "ipcd_ok s \<and> epoll_willing s" and "connected fd s" and "server_ingress fd f s = (ok, s')"
  shows "(ipcd_ok s' \<and> epoll_willing s') \<and> connected fd s'"
  using ingress_links [OF _ _ assms(2,3)] ipcd_ok_ingress [OF _ assms(2,3)] assms(1,2)
  by (auto simp: same_links_def)

interpretation sv_safe: ipc_handler_safe server_ingress "connected fd" fd "\<lambda>s. ipcd_ok s \<and> epoll_willing s"
    for fd
  by unfold_locales (use ingress_willing in blast)+

end
