(* ===== verification/Ipcd_Routing.thy ===== *)
theory Ipcd_Routing
  imports Ipcd_Invariant
begin

text \<open>
  The broker's behaviour over whole runs and for single messages: every state a run reaches
  satisfies the invariant, no run touches a destroyed connection while the kernel accepts
  \<^verbatim>\<open>epoll_ctl\<close>, a route cannot be taken over, unicast and broadcast put the frame where they
  should, and the handshake messages are answered.
\<close>

subsection \<open>Runs\<close>

text \<open>The state after \<^verbatim>\<open>IpcServer::init\<close>, with the router set and the listener registered.\<close>

definition ipcd_init :: "int \<Rightarrow> int \<Rightarrow> nat \<Rightarrow> nat \<Rightarrow> nat \<Rightarrow> (int \<Rightarrow> bool) \<Rightarrow> ipcd" where
  "ipcd_init listenFd eventFd maxConn rxBuf txBuf refuses =
     \<lparr>s_connections = [], s_runtimeTable = [],
      s_epoll = \<lparr>ep_set = [listenFd \<mapsto> [EPOLLIN, EPOLLRDHUP]], ep_refuses = refuses\<rparr>,
      s_rxRouter = True, s_eventQueue = [], s_actionQueue = [], s_openFds = [],
      s_listenFd = listenFd, s_eventFd = eventFd, s_maxConnections = maxConn,
      s_rxBufferSize = rxBuf, s_txBufferSize = txBuf\<rparr>"

inductive ipcd_reachable :: "jlib \<Rightarrow> ipcd \<Rightarrow> ipcd \<Rightarrow> bool" for L s0 where
  start: "ipcd_reachable L s0 s0"
| tick: "ipcd_reachable L s0 s \<Longrightarrow> ipcd_tick L evs s = Inr s' \<Longrightarrow> ipcd_reachable L s0 s'"

lemma ipcd_ok_init: "ipcd_ok (ipcd_init l e m r t w)"
  by (simp add: ipcd_ok_def ipcd_init_def)

lemma reachable_ok: "ipcd_reachable L s0 s \<Longrightarrow> ipcd_ok s0 \<Longrightarrow> ipcd_ok s"
  by (induction rule: ipcd_reachable.induct) (auto intro: ipcd_ok_tick)

lemma tick_drained: "ipcd_tick L evs s = Inr s' \<Longrightarrow> s_eventQueue s' = [] \<and> s_actionQueue s' = []"
  using execute_keeps [of "\<lambda>_. True"] by (auto simp: ipcd_tick_def bind_err_Inr_iff)

subsection \<open>What one event keeps when epoll is willing\<close>

lemma put_rx_simps [simp]:
  "connected fd (put_rx fd' rx s) = connected fd s" "epoll_willing (put_rx fd rx s) = epoll_willing s"
  "findRoute d (put_rx fd rx s) = findRoute d s"
  by (auto simp: put_rx_def connected_def epoll_willing_def findRoute_def map_ran_conv)

lemma findRoute_close:
  "findRoute d (closeConnection fd s) = (if findRoute d s = fd then -1 else findRoute d s)"
proof -
  have "s_runtimeTable (closeConnection fd s) = s_runtimeTable (removeRoute fd s)"
    by (simp add: closeConnection_def Let_def split: option.split)
  then show ?thesis
    by (auto simp: findRoute_def removeRoute_lookup split: option.split)
qed

lemma willing_close [simp]: "epoll_willing (closeConnection fd s) = epoll_willing s"
  by (simp add: closeConnection_def Let_def epoll_willing_def epoll_del_def split: option.split)

lemma willing_handleSend:
  "epoll_willing s \<Longrightarrow> server_handleSend env fd s = Inr (b, s') \<Longrightarrow> epoll_willing s'"
  using handleSend_dom
  by (fastforce simp: server_handleSend_def Let_def epoll_willing_def closeConnection_def epoll_del_def
      removeRoute_def split: option.splits if_splits)

lemma findRoute_simps [simp]:
  "findRoute d (s\<lparr>s_connections := cs\<rparr>) = findRoute d s" "findRoute d (s\<lparr>s_epoll := ep\<rparr>) = findRoute d s"
  "findRoute d (s\<lparr>s_eventQueue := es\<rparr>) = findRoute d s"
  "findRoute d (s\<lparr>s_actionQueue := as\<rparr>) = findRoute d s"
  "findRoute d (s\<lparr>s_openFds := fs\<rparr>) = findRoute d s"
  by (simp_all add: findRoute_def)

lemma findRoute_handleSend:
  "findRoute d s = fd0 \<Longrightarrow> fd0 \<noteq> fd \<Longrightarrow> server_handleSend env fd s = Inr (b, s') \<Longrightarrow>
     findRoute d s' = fd0"
  by (auto simp: server_handleSend_def Let_def findRoute_close split: option.splits if_splits)

lemma willing_accept: "epoll_willing s \<Longrightarrow> handleAccept env s = Inr s' \<Longrightarrow> epoll_willing s'"
  by (induction env s rule: handleAccept.induct)
    (auto simp: Let_def epoll_add_def epoll_willing_def split: if_splits)

lemma findRoute_accept: "handleAccept env s = Inr s' \<Longrightarrow> findRoute d s' = findRoute d s"
  by (induction env s rule: handleAccept.induct)
    (auto simp: Let_def split: if_splits prod.splits)

lemma findRoute_same: "s_runtimeTable s' = s_runtimeTable s \<Longrightarrow> findRoute d s' = findRoute d s"
  by (simp add: findRoute_def)

lemma findRoute_bind:
  "0 \<le> findRoute d s \<Longrightarrow> findRoute d s \<noteq> fd \<Longrightarrow> findRoute d (snd (bindRoute d' fd s)) = findRoute d s"
  by (auto simp: bindRoute_def findRoute_def update_conv' split: option.splits)

definition holds_route :: "ipc_daemon \<Rightarrow> int \<Rightarrow> ipcd \<Rightarrow> bool" where
  "holds_route d fd s \<longleftrightarrow> ipcd_ok s \<and> epoll_willing s \<and> findRoute d s = fd"

lemma holds_route_ingress:
  assumes "holds_route d fd0 s" and "0 \<le> fd0" and "fd0 \<noteq> fd" and "connected fd s"
    and "server_ingress fd f s = (ok, s')"
  shows "holds_route d fd0 s'"
proof -
  have w: "ipcd_ok s \<and> epoll_willing s" using assms(1) by (simp add: holds_route_def)
  have d: "findRoute d s = fd0" using assms(1) by (simp add: holds_route_def)
  consider "s' = s" | d' where "same_links (snd (bindRoute d' fd s)) s'"
    using ingress_links [OF _ _ assms(4,5)] w by blast
  then have "findRoute d s' = fd0"
  proof cases
    case (2 d')
    then have "findRoute d s' = findRoute d (snd (bindRoute d' fd s))"
      by (intro findRoute_same) (simp add: same_links_def)
    then show ?thesis using findRoute_bind [of d s fd d'] d assms(2,3) by simp
  qed (use d in simp)
  then show ?thesis using ingress_willing [OF w assms(4,5)] by (simp add: holds_route_def)
qed

lemma handleRecv_cases:
  assumes "server_handleRecv env fd s = Inr (b, s')"
  obtains "\<not> connected fd s" "s' = s"
  | c res rx' s1 env' where "map_of (s_connections s) fd = Some c"
      "ipc_handleRecv server_ingress (connected fd) fd env (c_rx c) s = Some (res, rx', s1, env')"
      "s' = put_rx fd rx' s1 \<or> s' = closeConnection fd (put_rx fd rx' s1)"
  using assms
  by (cases "map_of (s_connections s) fd")
    (auto simp: server_handleRecv_def connected_def split: option.splits drain_outcome.splits)

text \<open>An invariant the contract of \<open>ingress\<close> keeps is kept by \<open>handleRecv\<close>.\<close>

lemma handleRecv_inv:
  assumes "ipc_handler server_ingress (connected fd) fd P" and "P s" and "ipcd_ok s"
    and "\<And>rx s. ring_ok rx \<Longrightarrow> P s \<Longrightarrow> P (put_rx fd rx s)" and "\<And>s. P s \<Longrightarrow> P (closeConnection fd s)"
    and "server_handleRecv env fd s = Inr (b, s')"
  shows "P s'"
  using assms(6)
proof (cases rule: handleRecv_cases)
  case (2 c res rx' s1 env')
  have "ring_ok (c_rx c)" using ipcd_ok_conn [OF assms(3) 2(1)] by simp
  moreover have "connected fd s" using 2(1) by (simp add: connected_def)
  ultimately have "ring_ok rx' \<and> P s1"
    using ipc_handler.handleRecv_keeps [OF assms(1)] assms(2) 2(2) by blast
  then show ?thesis using 2(3) assms(4,5) by blast
qed (use assms in simp)

interpretation sv_held: ipc_handler server_ingress "connected fd" fd
    "\<lambda>s. holds_route d fd0 s \<and> 0 \<le> fd0 \<and> fd0 \<noteq> fd" for fd d fd0
  by unfold_locales (use holds_route_ingress in blast)

lemma willing_handleEvent:
  assumes "ipcd_ok s \<and> epoll_willing s" and "server_handleEvent env fd evs s = Inr s'"
  shows "ipcd_ok s' \<and> epoll_willing s'"
  using assms
proof (rule handleEvent_keeps)
  fix s b s' assume "ipcd_ok s \<and> epoll_willing s" "server_handleRecv (e_recv env) fd s = Inr (b, s')"
  then show "ipcd_ok s' \<and> epoll_willing s'"
    using handleRecv_inv [OF sv_safe.ipc_handler_axioms, of s fd "e_recv env" b s']
    by (simp add: ipcd_ok_put_rx ipcd_ok_close)
qed (auto intro: ipcd_ok_accept ipcd_ok_close ipcd_ok_handleSend willing_accept willing_handleSend)

lemma server_recv_safe:
  assumes "ipcd_ok s" and "epoll_willing s"
  shows "server_handleRecv env fd s \<noteq> Inl UseAfterFree"
proof (cases "map_of (s_connections s) fd")
  case (Some c)
  have "ring_ok (c_rx c)" using ipcd_ok_conn [OF assms(1) Some] by simp
  moreover have "connected fd s" using Some by (simp add: connected_def)
  ultimately have "res \<noteq> DrainUseAfterFree"
    if "ipc_handleRecv server_ingress (connected fd) fd env (c_rx c) s = Some (res, rx', s1, env')"
    for res rx' s1 env'
    using sv_safe.handleRecv_safe assms that by blast
  then show ?thesis using Some
    by (auto simp: server_handleRecv_def split: option.split drain_outcome.split)
qed (simp add: server_handleRecv_def)

lemma handleAccept_safe: "handleAccept env s \<noteq> Inl UseAfterFree"
proof (induction env arbitrary: s)
  case (Cons o1 env)
  then show ?case by (cases o1) (simp_all add: Let_def split: prod.split)
qed simp

lemma handleSend_safe: "server_handleSend env fd s \<noteq> Inl UseAfterFree"
  by (auto simp: server_handleSend_def Let_def split: option.split)

lemma handleEvent_safe:
  assumes "ipcd_ok s" and "epoll_willing s"
  shows "server_handleEvent env fd evs s \<noteq> Inl UseAfterFree"
  using server_recv_safe [OF assms, of "e_recv env" fd] handleAccept_safe handleSend_safe
  by (auto simp: server_handleEvent_def Let_def bind_err_def map_sum_def id_def
      split: option.split sum.splits)

lemma poll_willing:
  "ipcd_ok s \<and> epoll_willing s \<Longrightarrow> poll_events evs s = Inr s' \<Longrightarrow> ipcd_ok s' \<and> epoll_willing s'"
proof (induction evs s rule: poll_events.induct)
  case (2 env fd events evs s)
  from "2.prems"(2) obtain t where t: "server_handleEvent env fd events s = Inr t"
    "poll_events evs t = Inr s'" by (auto simp: bind_err_Inr_iff)
  show ?case by (rule "2.IH" [OF willing_handleEvent [OF "2.prems"(1) t(1)] t(2)])
qed simp

lemma poll_safe:
  "ipcd_ok s \<and> epoll_willing s \<Longrightarrow> poll_events evs s \<noteq> Inl UseAfterFree"
proof (induction evs s rule: poll_events.induct)
  case (2 env fd events evs s)
  show ?case
  proof (cases "server_handleEvent env fd events s")
    case (Inl e)
    then show ?thesis using handleEvent_safe [of s env fd events] "2.prems" by simp
  next
    case (Inr t)
    from "2.IH" [OF willing_handleEvent [OF "2.prems" Inr]] Inr show ?thesis by simp
  qed
qed simp

lemma willing_boot:
  "ipcd_ok s \<Longrightarrow> epoll_willing s \<Longrightarrow> boot_handleEvent L e s = Inr s' \<Longrightarrow> epoll_willing s'"
  "ipcd_ok s \<Longrightarrow> epoll_willing s \<Longrightarrow> same_links s (boot_handleAction L a s)"
proof -
  have "epoll_willing (markRuntimeReady d b v s) = epoll_willing s" for d b v s
    by (simp add: markRuntimeReady_def Let_def epoll_willing_def split: option.split)
  moreover have "epoll_willing (postAction a s) = epoll_willing s" for a s
    by (simp add: postAction_def epoll_willing_def split: option.split)
  ultimately show "ipcd_ok s \<Longrightarrow> epoll_willing s \<Longrightarrow> boot_handleEvent L e s = Inr s' \<Longrightarrow> epoll_willing s'"
    by (cases "(L, e, s)" rule: boot_handleEvent.cases) (auto simp: map_sum_def split: sum.splits)
  show "ipcd_ok s \<Longrightarrow> epoll_willing s \<Longrightarrow> same_links s (boot_handleAction L a s)"
    by (cases "(L, a, s)" rule: boot_handleAction.cases) (simp_all add: same_links_egress)
qed

lemma willing_queues [simp]:
  "epoll_willing (s\<lparr>s_eventQueue := es\<rparr>) = epoll_willing s"
  "epoll_willing (s\<lparr>s_actionQueue := as\<rparr>) = epoll_willing s"
  by (simp_all add: epoll_willing_def)

lemma willing_execute:
  assumes "ipcd_ok s \<and> epoll_willing s" and "service_execute L s = Inr s'"
  shows "ipcd_ok s' \<and> epoll_willing s'"
proof -
  have action: "ipcd_ok t \<and> epoll_willing t"
    if "ipcd_ok s \<and> epoll_willing s" "t = boot_handleAction L a (s\<lparr>s_actionQueue := as\<rparr>)" for a as s t
    using that willing_boot(2) [of "s\<lparr>s_actionQueue := as\<rparr>" L a]
    by (simp add: same_links_def ipcd_ok_boot(2))
  have event: "ipcd_ok t \<and> epoll_willing t"
    if "ipcd_ok s \<and> epoll_willing s" "boot_handleEvent L e (s\<lparr>s_eventQueue := es\<rparr>) = Inr t" for e es s t
    using that(1) ipcd_ok_boot(1) [OF _ that(2)] willing_boot(1) [OF _ _ that(2)] by simp
  have "(ipcd_ok s' \<and> epoll_willing s') \<and> s_eventQueue s' = [] \<and> s_actionQueue s' = []"
    by (rule execute_keeps [where P = "\<lambda>s. ipcd_ok s \<and> epoll_willing s", OF assms])
      (erule (1) event, erule action, rule refl)
  then show ?thesis by simp
qed

lemma tick_willing:
  "ipcd_ok s \<and> epoll_willing s \<Longrightarrow> ipcd_tick L evs s = Inr s' \<Longrightarrow> ipcd_ok s' \<and> epoll_willing s'"
  unfolding ipcd_tick_def bind_err_Inr_iff using poll_willing willing_execute by blast

subsection \<open>A route held through events of other descriptors\<close>

lemma held_close:
  "holds_route d fd0 s \<Longrightarrow> fd0 \<noteq> fd \<Longrightarrow> holds_route d fd0 (closeConnection fd s)"
  by (simp add: holds_route_def ipcd_ok_close findRoute_close)

lemma held_handleRecv:
  assumes "holds_route d fd0 s" and "0 \<le> fd0" and "fd0 \<noteq> fd"
    and "server_handleRecv env fd s = Inr (b, s')"
  shows "holds_route d fd0 s'"
proof -
  let ?P = "\<lambda>s. holds_route d fd0 s \<and> 0 \<le> fd0 \<and> fd0 \<noteq> fd"
  have "?P s'"
    using sv_held.ipc_handler_axioms
  proof (rule handleRecv_inv)
    show "?P s" "ipcd_ok s" using assms by (simp_all add: holds_route_def)
    show "server_handleRecv env fd s = Inr (b, s')" by fact
  qed (simp_all add: held_close, simp add: holds_route_def ipcd_ok_put_rx)
  then show ?thesis by simp
qed

lemma held_handleEvent:
  assumes "holds_route d fd0 s" and "0 \<le> fd0" and "fd0 \<noteq> fd"
    and "server_handleEvent env fd evs s = Inr s'"
  shows "holds_route d fd0 s'"
  using assms(1,4)
proof (rule handleEvent_keeps)
  show "holds_route d fd0 s'" if "holds_route d fd0 s" "handleAccept (e_accept env) s = Inr s'" for s s'
    using that ipcd_ok_accept [OF _ that(2)] willing_accept [OF _ that(2)] findRoute_accept [OF that(2)]
    by (simp add: holds_route_def)
  show "holds_route d fd0 (closeConnection fd s)" if "holds_route d fd0 s" for s
    using that assms(3) by (rule held_close)
  show "holds_route d fd0 s'" if "holds_route d fd0 s"
    "server_handleRecv (e_recv env) fd s = Inr (b, s')" for s b s'
    using that(1) assms(2,3) that(2) by (rule held_handleRecv)
  show "holds_route d fd0 s'" if "holds_route d fd0 s"
    "server_handleSend (e_send env) fd s = Inr (b, s')" for s b s'
    using that(1) ipcd_ok_handleSend [OF _ that(2)] willing_handleSend [OF _ that(2)]
      findRoute_handleSend [OF _ assms(3) that(2)]
    by (simp add: holds_route_def)
qed

lemma held_poll:
  "holds_route d fd0 s \<Longrightarrow> 0 \<le> fd0 \<Longrightarrow> list_all (\<lambda>(env, fd, evs). fd \<noteq> fd0) evs \<Longrightarrow>
     poll_events evs s = Inr s' \<Longrightarrow> holds_route d fd0 s'"
proof (induction evs s rule: poll_events.induct)
  case (2 env fd events evs s)
  from "2.prems"(4) obtain t where t: "server_handleEvent env fd events s = Inr t"
    "poll_events evs t = Inr s'" by (auto simp: bind_err_Inr_iff)
  have "fd0 \<noteq> fd" "list_all (\<lambda>(env, fd, evs). fd \<noteq> fd0) evs" using "2.prems"(3) by auto
  then show ?case
    using "2.IH" [OF held_handleEvent [OF "2.prems"(1,2) _ t(1)] "2.prems"(2)] t(2) by blast
qed simp

lemma findRoute_markReady [simp]: "findRoute d (markRuntimeReady d' b v s) = findRoute d s"
  by (auto simp: markRuntimeReady_def findRoute_def Let_def update_conv' split: option.split)

lemma findRoute_post [simp]: "findRoute d (postAction a s) = findRoute d s"
  by (simp add: postAction_def split: option.split)

lemma held_execute:
  assumes "holds_route d fd0 s" and "service_execute L s = Inr s'"
  shows "holds_route d fd0 s'"
proof -
  have event: "holds_route d fd0 t"
    if "holds_route d fd0 s" "boot_handleEvent L e (s\<lparr>s_eventQueue := es\<rparr>) = Inr t" for e es s t
  proof -
    have "findRoute d t = findRoute d s"
      using that(2) by (cases "(L, e, s\<lparr>s_eventQueue := es\<rparr>)" rule: boot_handleEvent.cases)
        (auto simp: map_sum_def split: sum.splits)
    then show ?thesis
      using that(1) ipcd_ok_boot(1) [OF _ that(2)] willing_boot(1) [OF _ _ that(2)]
      by (simp add: holds_route_def)
  qed
  have action: "holds_route d fd0 t"
    if "holds_route d fd0 s" "t = boot_handleAction L a (s\<lparr>s_actionQueue := as\<rparr>)" for a as s t
  proof -
    have l: "same_links (s\<lparr>s_actionQueue := as\<rparr>) t"
      using that willing_boot(2) [of "s\<lparr>s_actionQueue := as\<rparr>" L a] by (simp add: holds_route_def)
    then have "findRoute d t = findRoute d (s\<lparr>s_actionQueue := as\<rparr>)"
      by (intro findRoute_same) (simp add: same_links_def)
    then show ?thesis using that l
      by (simp add: holds_route_def same_links_def ipcd_ok_boot(2))
  qed
  have "holds_route d fd0 s' \<and> s_eventQueue s' = [] \<and> s_actionQueue s' = []"
    by (rule execute_keeps [where P = "holds_route d fd0", OF assms])
      (erule (1) event, erule action, rule refl)
  then show ?thesis by simp
qed

subsection \<open>What sending does to the transmit rings\<close>

definition tx_of :: "int \<Rightarrow> ipcd \<Rightarrow> bytes" where
  "tx_of fd s = (case map_of (s_connections s) fd of None \<Rightarrow> [] | Some c \<Rightarrow> rb_list (c_tx c))"

definition tx_room :: "int \<Rightarrow> ipcd \<Rightarrow> nat" where
  "tx_room fd s = (case map_of (s_connections s) fd of None \<Rightarrow> 0 | Some c \<Rightarrow> rb_writable (c_tx c))"

definition watched :: "int \<Rightarrow> ipcd \<Rightarrow> bool" where
  "watched fd s \<longleftrightarrow> (case ep_set (s_epoll s) fd of None \<Rightarrow> False | Some evs \<Rightarrow> EPOLLOUT \<in> set evs)"

lemma tx_simps [simp]:
  "tx_of k (s\<lparr>s_runtimeTable := t\<rparr>) = tx_of k s" "tx_of k (s\<lparr>s_eventQueue := es\<rparr>) = tx_of k s"
  "tx_of k (s\<lparr>s_actionQueue := as\<rparr>) = tx_of k s" "tx_room k (s\<lparr>s_runtimeTable := t\<rparr>) = tx_room k s"
  "tx_room k (s\<lparr>s_eventQueue := es\<rparr>) = tx_room k s" "tx_room k (s\<lparr>s_actionQueue := as\<rparr>) = tx_room k s"
  by (simp_all add: tx_of_def tx_room_def)

lemma enqueue_effect:
  assumes "ipcd_ok s" and "epoll_willing s" and "connected fd s" and "frame \<noteq> []"
    and "length frame \<le> tx_room fd s"
  shows "tx_of k (snd (enqueueFrame fd frame s)) = tx_of k s @ (if k = fd then frame else [])"
    and "tx_room k (snd (enqueueFrame fd frame s)) = tx_room k s - (if k = fd then length frame else 0)"
    and "watched fd (snd (enqueueFrame fd frame s))"
proof -
  obtain c where c: "map_of (s_connections s) fd = Some c" using assms(3) by (auto simp: connected_def)
  have ring: "ring_ok (c_tx c)" and ep: "ep_set (s_epoll s) fd \<noteq> None"
    using ipcd_ok_conn [OF assms(1) c] by simp_all
  obtain written tx' where w: "conn_write frame (c_tx c) = (written, tx')" by fastforce
  have "m_size (c_tx c) \<le> rb_capacity (c_tx c)" using ring by (simp add: ring_ok_def)
  moreover have "length frame \<le> rb_writable (c_tx c)" using assms(5) c by (simp add: tx_room_def)
  ultimately have "written" using conn_write_correct(1) [OF ring, of frame] w
    by (simp add: rb_writable_def)
  then have tx: "rb_list tx' = rb_list (c_tx c) @ frame" "rb_capacity tx' = rb_capacity (c_tx c)"
    using conn_write_correct(3,4) [OF ring, of frame] w by simp_all
  have room: "rb_writable tx' = rb_writable (c_tx c) - length frame"
    using arg_cong [OF tx(1), of length] tx(2) by (simp add: rb_writable_def)
  have m: "epoll_mod fd [EPOLLIN, EPOLLOUT, EPOLLRDHUP] (s_epoll s) =
      (True, s_epoll s\<lparr>ep_set := (ep_set (s_epoll s))(fd \<mapsto> [EPOLLIN, EPOLLOUT, EPOLLRDHUP])\<rparr>)"
    using ep assms(2) by (simp add: epoll_mod_def epoll_willing_def)
  have e: "snd (enqueueFrame fd frame s) =
      s\<lparr>s_connections := AList.update fd (c\<lparr>c_tx := tx'\<rparr>) (s_connections s),
        s_epoll := s_epoll s\<lparr>ep_set := (ep_set (s_epoll s))(fd \<mapsto> [EPOLLIN, EPOLLOUT, EPOLLRDHUP])\<rparr>\<rparr>"
    using c w m assms(4) \<open>written\<close> by (simp add: enqueueFrame_def Let_def)
  show "tx_of k (snd (enqueueFrame fd frame s)) = tx_of k s @ (if k = fd then frame else [])"
    and "tx_room k (snd (enqueueFrame fd frame s)) = tx_room k s - (if k = fd then length frame else 0)"
    and "watched fd (snd (enqueueFrame fd frame s))"
    unfolding e using c tx room by (simp_all add: tx_of_def tx_room_def update_conv' watched_def)
qed

definition copies_of :: "ipc_daemon \<Rightarrow> ipc_daemon list \<Rightarrow> int \<Rightarrow> ipcd \<Rightarrow> nat" where
  "copies_of src ds k s = length (filter (\<lambda>d. d \<noteq> src \<and> d \<noteq> DIpcd \<and> d \<noteq> DBroadcast \<and> findRoute d s = k) ds)"

lemma copies_same: "s_runtimeTable s' = s_runtimeTable s \<Longrightarrow> copies_of src ds k s' = copies_of src ds k s"
  by (simp add: copies_of_def findRoute_def)

lemma broadcast_loop_effect:
  "ipcd_ok s \<Longrightarrow> epoll_willing s \<Longrightarrow> frame \<noteq> [] \<Longrightarrow>
   (\<And>k. 0 \<le> k \<Longrightarrow> copies_of src ds k s * length frame \<le> tx_room k s) \<Longrightarrow> 0 \<le> k \<Longrightarrow>
     tx_of k (broadcast_loop src frame ds s) =
       tx_of k s @ concat (replicate (copies_of src ds k s) frame)"
proof (induction ds arbitrary: s)
  case (Cons d ds)
  let ?go = "d \<noteq> src \<and> d \<noteq> DIpcd \<and> d \<noteq> DBroadcast \<and> 0 \<le> findRoute d s"
  let ?t = "snd (enqueueFrame (findRoute d s) frame s)"
  have step: "broadcast_loop src frame (d # ds) s = broadcast_loop src frame ds (if ?go then ?t else s)"
    by (auto simp: findRoute_def split: option.split)
  show ?case
  proof (cases ?go)
    case False
    then have "copies_of src (d # ds) j s = copies_of src ds j s" if "0 \<le> j" for j
      using that by (auto simp: copies_of_def)
    then show ?thesis unfolding step if_not_P [OF False] using Cons by simp
  next
    case True
    let ?fd = "findRoute d s"
    have con: "connected ?fd s"
      using True ipcd_ok_route [OF Cons.prems(1), of d] by (auto simp: findRoute_def split: option.splits)
    have n: "copies_of src (d # ds) j s = (if j = ?fd then 1 else 0) + copies_of src ds j s" for j
      using True by (simp add: copies_of_def)
    have "length frame \<le> tx_room ?fd s" using Cons.prems(4) [of ?fd] True n [of ?fd] by simp
    note e = enqueue_effect [OF Cons.prems(1,2) con Cons.prems(3) this]
    note l = same_links_enqueue [OF Cons.prems(1,2), of ?fd frame]
    have t: "copies_of src ds j ?t = copies_of src ds j s" for j
      using l by (intro copies_same) (simp add: same_links_def)
    have room: "copies_of src ds j ?t * length frame \<le> tx_room j ?t" if "0 \<le> j" for j
      unfolding t e(2) using Cons.prems(4) [OF that] n [of j] by auto
    have "epoll_willing ?t" using l Cons.prems(2) by (simp add: same_links_def)
    from Cons.IH [OF ipcd_ok_enqueue [OF Cons.prems(1)] this Cons.prems(3) room Cons.prems(5)]
    show ?thesis unfolding step using True n [of k] by (simp add: t e(1))
  qed
qed (simp add: copies_of_def)

lemma unicast_effect:
  assumes "ipcd_ok s" and "epoll_willing s" and "0 \<le> findRoute (msg_dst m) s"
    and "msg_dst m \<noteq> DBroadcast" and "\<not> hasFlag (msg_flags m) FlagBroadcast" and "frame_of m \<noteq> []"
    and "length (frame_of m) \<le> tx_room (findRoute (msg_dst m) s) s"
  shows "tx_of k (egress (Some m) s) = tx_of k s @ (if k = findRoute (msg_dst m) s then frame_of m else [])"
    and "watched (findRoute (msg_dst m) s) (egress (Some m) s)"
proof -
  have con: "connected (findRoute (msg_dst m) s) s"
    using assms(1,3) ipcd_ok_route [OF assms(1), of "msg_dst m"]
    by (auto simp: findRoute_def split: option.splits if_splits)
  have "egress (Some m) s = snd (enqueueFrame (findRoute (msg_dst m) s) (frame_of m) s)"
    using assms(3-6) by (simp add: egress_def unicast_def sendFrame_def Let_def)
  then show "tx_of k (egress (Some m) s) = tx_of k s @ (if k = findRoute (msg_dst m) s then frame_of m else [])"
    and "watched (findRoute (msg_dst m) s) (egress (Some m) s)"
    using enqueue_effect [OF assms(1,2) con assms(6,7)] by simp_all
qed

text \<open>A concrete broker: one connection, \<open>authd\<close> bound to it.\<close>

definition broker_example :: ipcd where
  "broker_example = (ipcd_init 3 4 8 0 0 (\<lambda>_. False))
     \<lparr>s_connections := [(7, conn_new 7 0 0)], s_openFds := [7],
      s_epoll := \<lparr>ep_set = [3 \<mapsto> [EPOLLIN, EPOLLRDHUP], 7 \<mapsto> [EPOLLIN, EPOLLRDHUP]], ep_refuses = (\<lambda>_. False)\<rparr>,
      s_runtimeTable := [(DAuthd, \<lparr>rs_fd = 7, rs_ready = False, rs_generation = 1, rs_appliedVersion = 0\<rparr>)]\<rparr>"

lemma new_ring_ok: "ring_ok (rb_new IPC_MAX_FRAME_SIZE)" "m_size (rb_new n) = 0"
  by (rule ring_ok_new, simp add: IPC_MAX_FRAME_SIZE_def, simp add: rb_new_def)

lemma broker_example_facts:
  "ipcd_ok broker_example" "epoll_willing broker_example" "connected 7 broker_example"
  "findRoute DAuthd broker_example = 7" "tx_room 7 broker_example = IPC_MAX_FRAME_SIZE"
  "tx_of 7 broker_example = []" "s_rxRouter broker_example"
  "s_eventQueue broker_example = []" "s_actionQueue broker_example = []"
  by (simp_all add: broker_example_def ipcd_init_def ipcd_ok_def conn_ok_def route_ok_def connected_def
      epoll_willing_def findRoute_def tx_room_def tx_of_def conn_new_def new_ring_ok rb_list_new
      rb_writable_def capacity_new)

subsection \<open>Properties\<close>

text \<open>C5. In every state a run of the broker reaches from its initial state, connections and routes
  are maps, every live route leads to an existing connection, every connection has well-formed rings,
  an epoll registration and an open descriptor, the number of connections is within the limit, and
  between two ticks the event and action queues are empty.\<close>

theorem reachable_broker_ok:
  assumes "ipcd_reachable L (ipcd_init listenFd eventFd maxConn rxBuf txBuf refuses) s"
  shows "ipcd_ok s \<and> s_eventQueue s = [] \<and> s_actionQueue s = []"
proof
  show "ipcd_ok s" by (rule reachable_ok [OF assms ipcd_ok_init])
  show "s_eventQueue s = [] \<and> s_actionQueue s = []"
    using assms by (cases rule: ipcd_reachable.cases) (simp add: ipcd_init_def, blast dest: tick_drained)
qed

text \<open>The witness runs one tick in which a client connects.\<close>

theorem reachable_broker_ok_witness:
  "\<exists>s. ipcd_reachable unary_lib (ipcd_init 3 4 8 0 0 (\<lambda>_. False)) s \<and> map fst (s_connections s) = [7] \<and>
     ipcd_ok s"
proof -
  let ?s0 = "ipcd_init 3 4 8 0 0 (\<lambda>_. False)"
  let ?evs = "[(\<lparr>e_accept = [AcceptFd 7, AcceptErr EAGAIN], e_recv = [], e_send = []\<rparr>, 3, [EPOLLIN])]"
  obtain s where s: "ipcd_tick unary_lib ?evs ?s0 = Inr s" "map fst (s_connections s) = [7]"
    by (simp add: ipcd_tick_def server_handleEvent_def ipcd_init_def epoll_add_def execute_steps)
  have "ipcd_reachable unary_lib ?s0 s" by (rule ipcd_reachable.tick [OF ipcd_reachable.start s(1)])
  from reachable_broker_ok [OF this] this s(2) show ?thesis by (intro exI [of _ s]) simp
qed

text \<open>As long as the kernel never refuses \<^verbatim>\<open>epoll_ctl\<close>, no tick from a state that satisfies the
  invariant uses a connection object after it was destroyed, whatever frames arrive and whatever the
  other system calls return, and the assumption carries over to the next state.\<close>

theorem tick_no_use_after_free:
  assumes "ipcd_ok s" and "epoll_willing s"
  shows "ipcd_tick L evs s \<noteq> Inl UseAfterFree \<and>
    (\<forall>s'. ipcd_tick L evs s = Inr s' \<longrightarrow> ipcd_ok s' \<and> epoll_willing s')"
proof (intro conjI allI impI)
  have "service_execute L t \<noteq> Inl UseAfterFree" for t
  proof (induction L t rule: service_execute.induct)
    case (1 L t)
    then show ?case
      by (cases "s_eventQueue t"; cases "s_actionQueue t") (auto simp: execute_steps split: sum.split)
  qed
  then show "ipcd_tick L evs s \<noteq> Inl UseAfterFree"
    using poll_safe [of s evs] assms by (cases "poll_events evs s") (simp_all add: ipcd_tick_def)
qed (use tick_willing assms in blast)+

theorem tick_no_use_after_free_witness:
  "ipcd_tick unary_lib [(\<lparr>e_accept = [], e_recv = [RecvBytes [1, 2, 3], RecvErr EAGAIN], e_send = []\<rparr>,
     7, [EPOLLIN])] broker_example \<noteq> Inl UseAfterFree"
  using tick_no_use_after_free [OF broker_example_facts(1,2)] by blast

text \<open>C6. A route cannot be taken over: in a state that satisfies the broker's invariant, while a daemon's route leads to a live connection and the kernel
  refuses no \<^verbatim>\<open>epoll_ctl\<close>, nothing that arrives on any other descriptor in a tick (new connections,
  frames that claim its id, broken or closing connections) changes it. The condition on the kernel (\<open>epoll_willing\<close>) is
  needed: when arming a descriptor for writing fails, \<^verbatim>\<open>enqueueFrame\<close> (\<^verbatim>\<open>IpcServer.cpp:94\<close>) closes
  the connection the frame is for, so traffic from another descriptor can then end a live route.\<close>

theorem route_not_hijacked:
  assumes "ipcd_ok s" and "epoll_willing s" and "findRoute d s = fd" and "0 \<le> fd"
    and "list_all (\<lambda>(env, fd', evs). fd' \<noteq> fd) evs" and "ipcd_tick L evs s = Inr s'"
  shows "findRoute d s' = fd \<and> connected fd s'"
proof -
  have "holds_route d fd s" using assms(1-3) by (simp add: holds_route_def)
  moreover obtain t where "poll_events evs s = Inr t" "service_execute L t = Inr s'"
    using assms(6) by (auto simp: ipcd_tick_def bind_err_Inr_iff)
  ultimately have "holds_route d fd s'" using held_poll [OF _ assms(4,5)] held_execute by blast
  then have "ipcd_ok s'" "findRoute d s' = fd" by (simp_all add: holds_route_def)
  then show ?thesis using ipcd_ok_route [of s' d] assms(4)
    by (auto simp: findRoute_def split: option.splits if_splits)
qed

theorem route_not_hijacked_witness:
  "\<exists>s'. ipcd_tick unary_lib [(\<lparr>e_accept = [AcceptFd 9, AcceptErr EAGAIN], e_recv = [], e_send = []\<rparr>,
      3, [EPOLLIN])] broker_example = Inr s' \<and> findRoute DAuthd s' = 7"
proof -
  let ?evs = "[(\<lparr>e_accept = [AcceptFd 9, AcceptErr EAGAIN], e_recv = [], e_send = []\<rparr>, 3, [EPOLLIN])]"
  obtain s where s: "ipcd_tick unary_lib ?evs broker_example = Inr s"
    by (simp add: ipcd_tick_def server_handleEvent_def broker_example_def ipcd_init_def epoll_add_def
        execute_steps)
  show ?thesis
    using route_not_hijacked [OF broker_example_facts(1,2,4) _ _ s] s by simp
qed

text \<open>A reconnecting daemon starts from scratch: closing its connection frees its route, a new
  connection may bind it, and the new entry is not ready, has no applied version and the next
  generation number.\<close>

theorem reconnect_resets_runtime:
  assumes "map_of (s_runtimeTable s) d = Some st" and "rs_fd st = fd" and "0 \<le> fd"
  shows "findRoute d (closeConnection fd s) = -1 \<and>
    (let (ok, s') = bindRoute d fd' (closeConnection fd s)
     in ok \<and> map_of (s_runtimeTable s') d =
          Some \<lparr>rs_fd = (if fd' = -1 then -1 else fd'), rs_ready = False,
            rs_generation = rs_generation st + (if fd' = -1 then 0 else 1), rs_appliedVersion = 0\<rparr>)"
proof -
  have "s_runtimeTable (closeConnection fd s) = s_runtimeTable (removeRoute fd s)"
    by (simp add: closeConnection_def Let_def split: option.split)
  then have "map_of (s_runtimeTable (closeConnection fd s)) d =
      Some (st\<lparr>rs_fd := -1, rs_ready := False, rs_appliedVersion := 0\<rparr>)"
    using assms by (simp add: removeRoute_lookup)
  then show ?thesis
    by (cases st) (simp add: findRoute_def bindRoute_def update_conv')
qed

theorem reconnect_resets_runtime_witness:
  "findRoute DAuthd (closeConnection 7 broker_example) = -1"
  using reconnect_resets_runtime [of broker_example DAuthd _ 7 9]
  by (simp add: broker_example_def ipcd_init_def)

text \<open>Unicast delivery: a message whose destination has a route goes, as one frame, to the end of
  that connection's transmit ring and to no other, if the ring has room, and the descriptor is
  watched for writability afterwards.\<close>

theorem unicast_delivers:
  assumes "ipcd_ok s" and "epoll_willing s" and "findRoute (msg_dst m) s = fd" and "0 \<le> fd"
    and "msg_dst m \<noteq> DBroadcast" and "\<not> hasFlag (msg_flags m) FlagBroadcast" and "wf_message m"
    and "length (frame_of m) \<le> tx_room fd s"
  shows "(\<forall>k. tx_of k (egress (Some m) s) = tx_of k s @ (if k = fd then frame_of m else [])) \<and>
    watched fd (egress (Some m) s)"
  using unicast_effect [OF assms(1,2) _ assms(5,6) encode_nonempty [OF assms(7)]] assms(3,4,8) by simp

theorem unicast_delivers_witness:
  "let m = mk_message DIpcd DAuthd CmdServerHello 7 (toFlag FlagResponse) [65]
   in tx_of 7 (egress (Some m) broker_example) = frame_of m"
proof -
  let ?m = "mk_message DIpcd DAuthd CmdServerHello 7 (toFlag FlagResponse) [65]"
  have wf: "wf_message ?m"
    by (simp add: wf_message_def mk_message_def header_build_def known_cmd_def known_daemon_def
        cmd_of_u16_def cmd_enumerators_def daemon_of_u8_def daemon_enumerators_def
        IPC_MAX_FRAME_SIZE_def headerLen_def)
  have "length (frame_of ?m) \<le> tx_room 7 broker_example"
    using length_encode_wf [OF wf] by (simp add: broker_example_facts headerLen_def IPC_MAX_FRAME_SIZE_def)
  with unicast_delivers [OF broker_example_facts(1,2) _ _ _ _ wf, of 7] show ?thesis
    by (simp add: broker_example_facts hasFlag_def)
qed

text \<open>Broadcast delivery: every connection gets the frame once for each daemon bound to it other
  than the sender, \<open>ipcd\<close> and \<open>broadcast\<close>, and nothing else changes in the transmit rings, if the
  rings have room.\<close>

theorem broadcast_delivers:
  assumes "ipcd_ok s" and "epoll_willing s" and "wf_message m"
    and "\<forall>k \<ge> 0. copies_of (msg_src m) (map fst (s_runtimeTable s)) k s * length (frame_of m) \<le> tx_room k s"
  shows "\<forall>k \<ge> 0. tx_of k (broadcast m s) =
    tx_of k s @ concat (replicate (copies_of (msg_src m) (map fst (s_runtimeTable s)) k s) (frame_of m))"
  using broadcast_loop_effect [OF assms(1,2) encode_nonempty [OF assms(3)]] assms(4)
    encode_nonempty [OF assms(3)] by (simp add: broadcast_def Let_def)

theorem broadcast_delivers_witness:
  "let m = mk_message DEngined DBroadcast CmdConfigApply 7 0 []
   in tx_of 7 (broadcast m broker_example) = frame_of m"
proof -
  let ?m = "mk_message DEngined DBroadcast CmdConfigApply 7 0 []"
  have wf: "wf_message ?m"
    by (simp add: wf_message_def mk_message_def header_build_def known_cmd_def known_daemon_def
        cmd_of_u16_def cmd_enumerators_def daemon_of_u8_def daemon_enumerators_def
        IPC_MAX_FRAME_SIZE_def headerLen_def)
  have t: "map fst (s_runtimeTable broker_example) = [DAuthd]" by (simp add: broker_example_def)
  have c: "copies_of DEngined [DAuthd] k broker_example = (if k = 7 then 1 else 0)" for k
    by (simp add: copies_of_def broker_example_facts)
  have "length (frame_of ?m) \<le> tx_room 7 broker_example"
    using length_encode_wf [OF wf] by (simp add: broker_example_facts headerLen_def IPC_MAX_FRAME_SIZE_def)
  with broadcast_delivers [OF broker_example_facts(1,2) wf] show ?thesis
    by (simp add: t c broker_example_facts)
qed

text \<open>The handshake is answered: when a \<open>ClientHello\<close> arrives on a connection whose daemon id
  is free or its own, the frame is accepted, and executing the queues appends exactly one
  \<open>ServerHello\<close>, addressed to the sender and with its sequence number, to that connection's transmit
  ring and nothing to any other.\<close>

theorem client_hello_answered:
  assumes "ipcd_ok s" and "epoll_willing s" and "connected fd s" and "s_rxRouter s"
    and "s_eventQueue s = []" and "s_actionQueue s = []"
    and "wf_message m" and "msg_cmd m = CmdClientHello" and "msg_src m \<noteq> DBroadcast"
    and "findRoute (msg_src m) s = -1 \<or> findRoute (msg_src m) s = fd"
    and "length (frame_of (buildServerHello m)) \<le> tx_room fd s"
  shows "\<exists>s1 s2. server_ingress fd (frame_of m) s = (True, s1) \<and> service_execute L s1 = Inr s2 \<and>
    (\<forall>k. tx_of k s2 = tx_of k s @ (if k = fd then frame_of (buildServerHello m) else [])) \<and>
    findRoute (msg_src m) s2 = fd \<and> msg_seqNo (buildServerHello m) = msg_seqNo m"
proof -
  let ?r = "buildServerHello m"
  have fd0: "0 \<le> fd" using assms(1,3) ipcd_ok_conn by (auto simp: connected_def)
  obtain b where b: "bindRoute (msg_src m) fd s = (True, b)" "findRoute (msg_src m) b = fd"
    using assms(10) fd0
    by (auto simp: bindRoute_def findRoute_def update_conv' map_add_def split: option.splits if_splits)
  have q: "queues b = ([], [])"
    using queues_simps(5) [of "msg_src m" fd s] b assms(5,6) by (simp add: queues_def)
  have tx: "tx_of k b = tx_of k s" "tx_room k b = tx_room k s" for k
    using bindRoute_conns(1) [of "msg_src m" fd s] b by (simp_all add: tx_of_def tx_room_def)
  have ok: "ipcd_ok b" "epoll_willing b"
    using ipcd_ok_bindRoute [OF assms(1,3), of "msg_src m"] epoll_willing_bind [of "msg_src m" fd s] b assms(2)
    by simp_all
  have ing: "server_ingress fd (frame_of m) s = (True, b\<lparr>s_eventQueue := [BootEvent ReceiveClientHello (Some m)]\<rparr>)"
    using assms(4,8) encode_nonempty [OF assms(7)] decode_encode [OF assms(7)] b q
    by (simp add: server_ingress_def rx_handleIpcMessage_def event_create_def postEvent_def queues_def)
  have dst: "msg_dst ?r = msg_src m" "\<not> hasFlag (msg_flags ?r) FlagBroadcast"
    by (simp_all add: buildServerHello_def hasFlag_def)
  have "frame_of ?r \<noteq> []"
    by (simp add: encode_empty_iff buildServerHello_def daemonToStr_def bytes_of_string_def
        IPC_MAX_FRAME_SIZE_def headerLen_def)
  note u = unicast_effect(1) [OF ok, of ?r, unfolded dst, OF _ assms(9) dst(2) this]
  have b0: "b\<lparr>s_eventQueue := [], s_actionQueue := []\<rparr> = b" using q by (simp add: queues_def)
  have run: "service_execute L (b\<lparr>s_eventQueue := [BootEvent ReceiveClientHello (Some m)]\<rparr>)
      = Inr (egress (Some ?r) b)"
    using q queues_egress [of "Some ?r" b]
    by (simp add: execute_steps postAction_def queues_def b0)
  have "same_links b (egress (Some ?r) b)" by (rule same_links_egress [OF ok])
  then have "findRoute (msg_src m) (egress (Some ?r) b) = fd"
    using findRoute_same [of "egress (Some ?r) b" b] b(2) by (simp add: same_links_def)
  then show ?thesis
    using ing run u b(2) fd0 assms(11) tx by (simp add: buildServerHello_def)
qed

theorem client_hello_answered_witness:
  "\<exists>s1 s2. server_ingress 7 (frame_of hello_example) broker_example = (True, s1) \<and>
     service_execute unary_lib s1 = Inr s2 \<and> tx_of 7 s2 = frame_of (buildServerHello hello_example)"
proof -
  have wf: "wf_message (buildServerHello hello_example)"
    by (simp add: buildServerHello_def hello_example_def wf_message_def mk_message_def header_build_def
        known_cmd_def known_daemon_def cmd_of_u16_def cmd_enumerators_def daemon_of_u8_def
        daemon_enumerators_def daemonToStr_def bytes_of_string_def IPC_MAX_FRAME_SIZE_def headerLen_def)
  have "length (frame_of (buildServerHello hello_example)) \<le> tx_room 7 broker_example"
    using length_encode_wf [OF wf]
    by (simp add: broker_example_facts headerLen_def IPC_MAX_FRAME_SIZE_def buildServerHello_def
        mk_message_def daemonToStr_def bytes_of_string_def)
  moreover have "msg_cmd hello_example = CmdClientHello" "msg_src hello_example = DAuthd"
    by (simp_all add: hello_example_def)
  ultimately show ?thesis
    using client_hello_answered [OF broker_example_facts(1-3,7-9) hello_example_wf, of unary_lib]
      broker_example_facts(4,6) by auto
qed

text \<open>A \<open>SyncResponse\<close> tells the truth about the runtime table: for any JSON library that reads
  back what it prints, its payload is an object whose \<open>daemons\<close> array holds the ready flag,
  generation and applied version of every daemon that is currently connected other than \<open>engined\<close> and
  \<open>mgmtd\<close>, and of no other daemon.\<close>

theorem sync_response_reports_live_daemons:
  assumes "json_lib L" and "ipcd_ok s"
  shows "\<exists>entries. jl_parse L (msg_payload (buildSyncResponse L req s)) = Some (JObj [(''daemons'', JArr entries)]) \<and>
    set entries = {sync_entry d st | d st. map_of (s_runtimeTable s) d = Some st \<and>
      connected (rs_fd st) s \<and> 0 \<le> rs_fd st \<and> d \<noteq> DEngined \<and> d \<noteq> DMgmtd}"
proof -
  have "map_of (s_runtimeTable s) d = Some st \<longleftrightarrow> (d, st) \<in> set (s_runtimeTable s)" for d st
    using ipcd_ok_keys [OF assms(2)] by simp
  then have "set (map (\<lambda>(d, st). sync_entry d st) (filter sync_reported (s_runtimeTable s))) =
      {sync_entry d st | d st. map_of (s_runtimeTable s) d = Some st \<and> connected (rs_fd st) s \<and>
        0 \<le> rs_fd st \<and> d \<noteq> DEngined \<and> d \<noteq> DMgmtd}"
    using ipcd_ok_route [OF assms(2)] by (force simp: sync_reported_def)
  then show ?thesis
    by (simp add: buildSyncResponse_def sync_json_def json_lib.parse_dump [OF assms(1)])
qed

theorem sync_response_reports_live_daemons_witness:
  "\<exists>entries. jl_parse unary_lib (msg_payload (buildSyncResponse unary_lib hello_example broker_example))
      = Some (JObj [(''daemons'', JArr entries)]) \<and>
    JObj [(''daemon'', JStr ''authd''), (''ready'', JBool False), (''generation'', JInt 1),
      (''applied_version'', JInt 0)] \<in> set entries"
proof -
  have "map_of (s_runtimeTable broker_example) DAuthd =
      Some \<lparr>rs_fd = 7, rs_ready = False, rs_generation = 1, rs_appliedVersion = 0\<rparr>"
    by (simp add: broker_example_def)
  then have "JObj [(''daemon'', JStr ''authd''), (''ready'', JBool False), (''generation'', JInt 1),
      (''applied_version'', JInt 0)] \<in> {sync_entry d st | d st. map_of (s_runtimeTable broker_example) d = Some st \<and>
      connected (rs_fd st) broker_example \<and> 0 \<le> rs_fd st \<and> d \<noteq> DEngined \<and> d \<noteq> DMgmtd}"
    using broker_example_facts(3) by (force simp: sync_entry_def daemonToStr_def)
  with sync_response_reports_live_daemons [OF unary.json_lib_axioms broker_example_facts(1), of hello_example]
  show ?thesis by auto
qed

end
