(* ===== verification/Ipc_Client.thy ===== *)
theory Ipc_Client
  imports Ipc_Framing
begin

text \<open>
  The client end every other daemon has: \<^verbatim>\<open>shared/ipc/IpcClient\<close> (connecting with retries, the event
  loop's dispatch, queueing frames), \<^verbatim>\<open>shared/ipc/IpcClientHandler\<close> (its \<open>ingress\<close> and
  \<open>egress\<close>) and the client side of \<^verbatim>\<open>shared/socket/UnixDomainSocket\<close>. The kernel's answers are
  arguments. The receive router's only effect is to post an event, so the messages it is given are
  kept in \<open>cl_received\<close>; \<open>cl_queued\<close> and \<open>cl_sent\<close> are not members of the class: they record the
  frames accepted for sending and the bytes handed to the kernel since the last connect.
\<close>

subsection \<open>The socket\<close>

datatype connect_result = ConnectFailed | ConnectInProgress | ConnectConnected

text \<open>What \<^verbatim>\<open>::socket\<close>, \<^verbatim>\<open>fcntl\<close> and \<^verbatim>\<open>::connect\<close> answer.\<close>

datatype connect_outcome = ConnectOk | ConnectPending | ConnectRefused

record connect_env =
  ce_socket :: "nat option"
  ce_nonblock :: bool
  ce_connect :: connect_outcome

definition sun_path_size :: nat where
  "sun_path_size = 108"

definition uds_createSocket :: "connect_env \<Rightarrow> bool \<times> int" where
  "uds_createSocket env =
     (case ce_socket env of
        None \<Rightarrow> (False, -1)
      | Some fd \<Rightarrow> if \<not> ce_nonblock env then (False, -1) else (True, int fd))"

definition uds_connect :: "connect_env \<Rightarrow> string \<Rightarrow> int \<Rightarrow> connect_result \<times> int" where
  "uds_connect env socketPath fd =
     (if fd \<ge> 0 then (ConnectFailed, fd)
      else
        let (created, fd) = uds_createSocket env in
        if \<not> created then (ConnectFailed, fd)
        else if length socketPath \<ge> sun_path_size then (ConnectFailed, -1)
        else case ce_connect env of
          ConnectOk \<Rightarrow> (ConnectConnected, fd)
        | ConnectPending \<Rightarrow> (ConnectInProgress, fd)
        | ConnectRefused \<Rightarrow> (ConnectFailed, -1))"

subsection \<open>State\<close>

datatype client_state = Disconnected | Connecting | Connected

record ipc_client =
  cl_socketPath :: string
  cl_rxBufferSize :: nat
  cl_txBufferSize :: nat
  cl_epoll :: epoll
  cl_eventFd :: int
  cl_socket :: "int option"
  cl_conn :: "ipc_connection option"
  cl_initialized :: bool
  cl_state :: client_state
  cl_received :: "ipc_message list"
  cl_queued :: "bytes list"
  cl_sent :: bytes

definition client_new :: "string \<Rightarrow> nat \<Rightarrow> nat \<Rightarrow> epoll \<Rightarrow> int \<Rightarrow> ipc_client" where
  "client_new path rx tx ep eventFd =
     \<lparr>cl_socketPath = path, cl_rxBufferSize = rx, cl_txBufferSize = tx, cl_epoll = ep,
      cl_eventFd = eventFd, cl_socket = None, cl_conn = None, cl_initialized = False,
      cl_state = Disconnected, cl_received = [], cl_queued = [], cl_sent = []\<rparr>"

definition client_fd :: "ipc_client \<Rightarrow> int" where
  "client_fd s = (case cl_socket s of Some fd \<Rightarrow> fd | None \<Rightarrow> -1)"

definition isConnected :: "ipc_client \<Rightarrow> bool" where
  "isConnected s \<longleftrightarrow> cl_state s = Connected"

subsection \<open>Connecting\<close>

definition client_close :: "ipc_client \<Rightarrow> ipc_client" where
  "client_close s =
     (let s = (case cl_socket s of
                 None \<Rightarrow> s
               | Some fd \<Rightarrow> if fd \<ge> 0 then s\<lparr>cl_epoll := epoll_del fd (cl_epoll s)\<rparr> else s)
      in s\<lparr>cl_conn := None, cl_socket := map_option (\<lambda>_. -1) (cl_socket s),
           cl_state := Disconnected\<rparr>)"

definition initEpoll :: "bool \<Rightarrow> ipc_client \<Rightarrow> bool \<times> ipc_client" where
  "initEpoll created s =
     (if \<not> created then (False, s)
      else (True, s\<lparr>cl_epoll := snd (epoll_add (cl_eventFd s) [EPOLLIN] (cl_epoll s))\<rparr>))"

definition initSocket :: "ipc_client \<Rightarrow> ipc_client" where
  "initSocket s = (case cl_socket s of Some fd \<Rightarrow> s | None \<Rightarrow> s\<lparr>cl_socket := Some (-1)\<rparr>)"

definition watch_socket :: "int \<Rightarrow> client_state \<Rightarrow> epoll_event list \<Rightarrow> ipc_client \<Rightarrow> bool \<times> ipc_client" where
  "watch_socket fd st events s =
     (let s = s\<lparr>cl_state := st\<rparr>; (ok, ep') = epoll_add fd events (cl_epoll s) in
      if \<not> ok then (False, client_close s) else (True, s\<lparr>cl_epoll := ep'\<rparr>))"

definition connectServer :: "connect_env \<Rightarrow> ipc_client \<Rightarrow> bool \<times> ipc_client" where
  "connectServer env s =
     (let (rc, fd) = uds_connect env (cl_socketPath s) (client_fd s);
          s = s\<lparr>cl_socket := Some fd\<rparr> in
      if rc = ConnectFailed then (False, s)
      else
        let s = s\<lparr>cl_conn := Some (conn_new fd (cl_rxBufferSize s) (cl_txBufferSize s)),
                  cl_queued := [], cl_sent := []\<rparr> in
        if rc = ConnectConnected then watch_socket fd Connected [EPOLLIN, EPOLLRDHUP] s
        else watch_socket fd Connecting [EPOLLIN, EPOLLOUT, EPOLLRDHUP] s)"

text \<open>
  The loop of \<^verbatim>\<open>init\<close> with \<open>n\<close> attempts left; \<open>env\<close> tells the outcome of each attempt. The number
  returned counts the delays slept between attempts. \<^verbatim>\<open>m_socket.reset()\<close> drops a socket whose
  descriptor the failed attempt has already closed.
\<close>

fun connect_loop :: "(nat \<Rightarrow> connect_env) \<Rightarrow> nat \<Rightarrow> nat \<Rightarrow> nat \<Rightarrow> ipc_client \<Rightarrow> bool \<times> nat \<times> ipc_client" where
  "connect_loop env attempt 0 slept s = (False, slept, s)"
| "connect_loop env attempt (Suc n) slept s =
     (let (ok, s) = connectServer (env attempt) (initSocket s) in
      if ok then (True, slept, s\<lparr>cl_initialized := True\<rparr>)
      else
        let s = s\<lparr>cl_socket := None\<rparr> in
        if n = 0 then (False, slept, s)
        else connect_loop env (Suc attempt) n (Suc slept) s)"

text \<open>\<open>maxAttempts\<close> is \<^verbatim>\<open>ipc_retry_attempts\<close> of the configuration, an \<^verbatim>\<open>int\<close>.\<close>

definition client_init :: "bool \<Rightarrow> int \<Rightarrow> (nat \<Rightarrow> connect_env) \<Rightarrow> ipc_client \<Rightarrow> bool \<times> nat \<times> ipc_client" where
  "client_init epollCreated maxAttempts env s =
     (if cl_initialized s then (True, 0, s)
      else
        let (ok, s) = initEpoll epollCreated s in
        if \<not> ok then (False, 0, s)
        else connect_loop env 1 (nat maxAttempts) 0 s)"

subsection \<open>Sending\<close>

definition client_enqueueFrame :: "bytes \<Rightarrow> ipc_client \<Rightarrow> bool \<times> ipc_client" where
  "client_enqueueFrame frame s =
     (case (cl_conn s, cl_socket s) of
        (Some c, Some fd) \<Rightarrow>
          if cl_state s \<noteq> Connected then (False, s)
          else if frame = [] then (False, s)
          else
            let (written, tx') = conn_write frame (c_tx c) in
            if \<not> written then (False, s)
            else
              let s = s\<lparr>cl_conn := Some (c\<lparr>c_tx := tx'\<rparr>), cl_queued := cl_queued s @ [frame]\<rparr>;
                  (ok, ep') = epoll_mod fd [EPOLLIN, EPOLLOUT, EPOLLRDHUP] (cl_epoll s) in
              if \<not> ok then (False, client_close s) else (True, s\<lparr>cl_epoll := ep'\<rparr>)
      | _ \<Rightarrow> (False, s))"

definition client_egress :: "ipc_message option \<Rightarrow> ipc_client \<Rightarrow> ipc_client" where
  "client_egress msg s =
     (case msg of
        None \<Rightarrow> s
      | Some m \<Rightarrow>
          let frame = encode (Some m) in
          if frame = [] then s else snd (client_enqueueFrame frame s))"

subsection \<open>Receiving and the event loop\<close>

definition client_ingress :: "ipc_client ingress" where
  "client_ingress fd frame s =
     (if frame = [] then (False, s)
      else
        let (rc, msg) = decode (Some frame) in
        if rc \<noteq> DecOk then (False, s)
        else case msg of None \<Rightarrow> (False, s)
          | Some m \<Rightarrow> (True, s\<lparr>cl_received := cl_received s @ [m]\<rparr>))"

definition has_conn :: "ipc_client \<Rightarrow> bool" where
  "has_conn s \<longleftrightarrow> cl_conn s \<noteq> None"

datatype client_fault = LoopNotDone | ReadAfterFree

definition client_handleRecv :: "recv_outcome list \<Rightarrow> int \<Rightarrow> ipc_client \<Rightarrow> client_fault + (bool \<times> ipc_client)" where
  "client_handleRecv env fd s =
     (case cl_conn s of
        None \<Rightarrow> Inr (False, s)
      | Some c \<Rightarrow>
          (case ipc_handleRecv client_ingress has_conn fd env (c_rx c) s of
             None \<Rightarrow> Inl LoopNotDone
           | Some (res, rx', s', env') \<Rightarrow>
               if res = DrainUseAfterFree then Inl ReadAfterFree
               else Inr (res = DrainKeep, s'\<lparr>cl_conn := map_option (\<lambda>c. c\<lparr>c_rx := rx'\<rparr>) (cl_conn s')\<rparr>)))"

definition client_handleSend :: "send_outcome list \<Rightarrow> int \<Rightarrow> ipc_client \<Rightarrow> client_fault + (bool \<times> ipc_client)" where
  "client_handleSend env fd s =
     (case cl_conn s of
        None \<Rightarrow> Inr (False, s)
      | Some c \<Rightarrow>
          (case ipc_handleSend fd env (c_tx c) (cl_epoll s) of
             None \<Rightarrow> Inl LoopNotDone
           | Some (ok, tx', ep', out) \<Rightarrow>
               Inr (ok, s\<lparr>cl_conn := Some (c\<lparr>c_tx := tx'\<rparr>), cl_epoll := ep', cl_sent := cl_sent s @ out\<rparr>)))"

text \<open>\<^verbatim>\<open>getsockopt(SO_ERROR)\<close> fails or gives the pending error.\<close>

datatype so_error = SoFailed | SoValue int

definition handleConnect :: "so_error \<Rightarrow> int \<Rightarrow> epoll \<Rightarrow> bool \<times> epoll" where
  "handleConnect so fd ep =
     (case so of
        SoFailed \<Rightarrow> (False, ep)
      | SoValue e \<Rightarrow>
          if e \<noteq> 0 then (False, ep)
          else let (ok, ep') = epoll_mod fd [EPOLLIN, EPOLLRDHUP] ep in (ok, ep'))"

record client_io =
  ci_soerror :: so_error
  ci_recv :: "recv_outcome list"
  ci_send :: "send_outcome list"

definition closing :: "bool \<times> ipc_client \<Rightarrow> bool \<times> ipc_client" where
  "closing r = (case r of (ok, s) \<Rightarrow> if ok then (True, s) else (False, client_close s))"

definition client_handleEvent :: "client_io \<Rightarrow> int \<Rightarrow> epoll_event list \<Rightarrow> ipc_client \<Rightarrow> client_fault + ipc_client" where
  "client_handleEvent env fd events s =
     (let isClose = (EPOLLERR \<in> set events \<or> EPOLLHUP \<in> set events \<or> EPOLLRDHUP \<in> set events);
          isRecv = (EPOLLIN \<in> set events);
          isSend = (EPOLLOUT \<in> set events) in
      if fd = cl_eventFd s then Inr s
      else if cl_socket s = None \<or> fd \<noteq> client_fd s then Inr s
      else if cl_state s = Connecting then
        (if isClose \<or> isRecv \<or> isSend then
           let (ok, ep') = handleConnect (ci_soerror env) fd (cl_epoll s);
               s = s\<lparr>cl_epoll := ep'\<rparr> in
           if \<not> ok then Inr (client_close s) else Inr (s\<lparr>cl_state := Connected\<rparr>)
         else Inr s)
      else if cl_state s \<noteq> Connected \<or> cl_conn s = None then Inr s
      else if isClose then Inr (client_close s)
      else
        case (if isRecv then map_sum id closing (client_handleRecv (ci_recv env) fd s) else Inr (True, s)) of
          Inl e \<Rightarrow> Inl e
        | Inr (keep, s) \<Rightarrow>
            if \<not> keep then Inr s
            else if isSend then map_sum id (snd \<circ> closing) (client_handleSend (ci_send env) fd s)
            else Inr s)"

text \<open>One \<^verbatim>\<open>poll\<close>: the wait fails or gives the ready descriptors.\<close>

datatype wait_outcome = WaitErr errno | WaitReady "(int \<times> epoll_event list \<times> client_io) list"

fun client_dispatch :: "(int \<times> epoll_event list \<times> client_io) list \<Rightarrow> ipc_client \<Rightarrow> client_fault + ipc_client" where
  "client_dispatch [] s = Inr s"
| "client_dispatch ((fd, events, env) # rest) s =
     (case client_handleEvent env fd events s of
        Inl e \<Rightarrow> Inl e
      | Inr s \<Rightarrow> client_dispatch rest s)"

definition client_poll :: "wait_outcome \<Rightarrow> ipc_client \<Rightarrow> client_fault + (bool \<times> ipc_client)" where
  "client_poll wait s =
     (case wait of
        WaitErr e \<Rightarrow> Inr (e = EINTR, s)
      | WaitReady ready \<Rightarrow> map_sum id (\<lambda>s. (True, s)) (client_dispatch ready s))"

subsection \<open>The invariant\<close>

text \<open>
  A connection exists exactly while the client is connecting or connected; its socket is then open
  and watched, its rings are well formed, and what was sent followed by what is queued in the ring is
  the frames accepted, in order.
\<close>

definition client_ok :: "ipc_client \<Rightarrow> bool" where
  "client_ok s \<longleftrightarrow>
     (case cl_conn s of
        None \<Rightarrow> cl_state s = Disconnected \<and> client_fd s = -1
      | Some c \<Rightarrow> cl_state s \<noteq> Disconnected \<and> 0 \<le> client_fd s \<and> c_fd c = client_fd s \<and>
          ep_set (cl_epoll s) (client_fd s) \<noteq> None \<and> ring_ok (c_rx c) \<and> ring_ok (c_tx c) \<and>
          cl_sent s @ rb_list (c_tx c) = concat (cl_queued s))"

lemma client_fd_simps [simp]:
  "client_fd (s\<lparr>cl_initialized := b\<rparr>) = client_fd s" "client_fd (s\<lparr>cl_received := rs\<rparr>) = client_fd s"
  "client_fd (s\<lparr>cl_epoll := ep\<rparr>) = client_fd s" "client_fd (s\<lparr>cl_state := st\<rparr>) = client_fd s"
  "client_fd (s\<lparr>cl_conn := c\<rparr>) = client_fd s" "client_fd (s\<lparr>cl_queued := qs\<rparr>) = client_fd s"
  "client_fd (s\<lparr>cl_sent := bs\<rparr>) = client_fd s"
  "client_fd (s\<lparr>cl_socket := so\<rparr>) = (case so of Some fd \<Rightarrow> fd | None \<Rightarrow> -1)"
  by (simp_all add: client_fd_def)

lemma client_ok_simps [simp]:
  "client_ok (s\<lparr>cl_initialized := b\<rparr>) = client_ok s" "client_ok (s\<lparr>cl_received := rs\<rparr>) = client_ok s"
  by (simp_all add: client_ok_def split: option.split)

lemma client_okD:
  assumes "client_ok s" and "cl_conn s = Some c"
  shows "cl_state s \<noteq> Disconnected" "0 \<le> client_fd s" "ep_set (cl_epoll s) (client_fd s) \<noteq> None"
    "ring_ok (c_rx c)" "ring_ok (c_tx c)" "cl_sent s @ rb_list (c_tx c) = concat (cl_queued s)"
    "c_fd c = client_fd s"
  using assms by (simp_all add: client_ok_def)

lemma client_ok_idle: "client_ok s \<Longrightarrow> cl_state s = Disconnected \<Longrightarrow> cl_conn s = None \<and> client_fd s = -1"
  by (auto simp: client_ok_def split: option.splits)

lemma client_ok_new: "client_ok (client_new path rx tx ep eventFd)"
  by (simp add: client_new_def client_ok_def client_fd_def)

lemma client_close_simps [simp]:
  "cl_conn (client_close s) = None" "cl_state (client_close s) = Disconnected"
  "client_fd (client_close s) = -1" "cl_initialized (client_close s) = cl_initialized s"
  "cl_received (client_close s) = cl_received s" "cl_queued (client_close s) = cl_queued s"
  "cl_eventFd (client_close s) = cl_eventFd s"
  by (auto simp: client_close_def client_fd_def Let_def split: option.splits)

lemma client_ok_close [simp]: "client_ok (client_close s)"
  by (simp add: client_ok_def)

lemma uds_connect_fd:
  assumes "uds_connect env path (-1) = (rc, fd)"
  shows "rc = ConnectFailed \<and> fd = -1 \<or> rc \<noteq> ConnectFailed \<and> 0 \<le> fd"
  using assms
  by (auto simp: uds_connect_def uds_createSocket_def Let_def
      split: if_splits option.splits connect_outcome.splits)

text \<open>An attempt that fails leaves the client as it was, disconnected.\<close>

lemma watch_socket_ok:
  assumes "cl_conn s = Some (conn_new fd rxBuf txBuf)" and "cl_socket s = Some fd" and "0 \<le> fd"
    and "cl_queued s = []" and "cl_sent s = []" and "st \<noteq> Disconnected"
    and "watch_socket fd st events s = (ok, s')"
  shows "client_ok s' \<and> (cl_state s' = (if ok then st else Disconnected)) \<and>
    cl_initialized s' = cl_initialized s \<and> cl_queued s' = []"
proof -
  have "0 < max b IPC_MAX_FRAME_SIZE" for b by (simp add: IPC_MAX_FRAME_SIZE_def)
  then have c: "ring_ok (c_rx (conn_new fd rxBuf txBuf))" "ring_ok (c_tx (conn_new fd rxBuf txBuf))"
    "rb_list (c_tx (conn_new fd rxBuf txBuf)) = []" "c_fd (conn_new fd rxBuf txBuf) = fd"
    by (simp_all add: conn_new_def ring_ok_new rb_list_new)
  have fd: "client_fd s = fd" by (simp add: client_fd_def assms(2))
  show ?thesis
  proof (cases ok)
    case True
    with assms(7) show ?thesis
      by (auto simp: watch_socket_def Let_def epoll_add_def client_ok_def fd assms(1-6) c split: if_splits)
  next
    case False
    then have "s' = client_close (s\<lparr>cl_state := st\<rparr>)"
      using assms(7) by (auto simp: watch_socket_def Let_def split: prod.splits if_splits)
    then show ?thesis using False assms(4) by simp
  qed
qed

lemma connectServer_ok:
  assumes "client_fd s = -1" and "cl_conn s = None" and "cl_state s = Disconnected"
    and "connectServer env s = (ok, s')"
  shows "client_ok s' \<and> (ok \<longleftrightarrow> cl_state s' \<noteq> Disconnected) \<and> cl_initialized s' = cl_initialized s \<and>
    (cl_queued s' = cl_queued s \<or> cl_queued s' = [])"
proof -
  obtain rc fd where u: "uds_connect env (cl_socketPath s) (-1) = (rc, fd)" by fastforce
  note fd = uds_connect_fd [OF u]
  show ?thesis
  proof (cases rc)
    case ConnectFailed
    then show ?thesis using fd assms u
      by (auto simp: connectServer_def client_ok_def client_fd_def)
  next
    case ConnectInProgress
    let ?s = "s\<lparr>cl_socket := Some fd, cl_conn := Some (conn_new fd (cl_rxBufferSize s) (cl_txBufferSize s)),
      cl_queued := [], cl_sent := []\<rparr>"
    have "watch_socket fd Connecting [EPOLLIN, EPOLLOUT, EPOLLRDHUP] ?s = (ok, s')"
      using assms(1,4) u ConnectInProgress by (simp add: connectServer_def Let_def)
    from watch_socket_ok [OF _ _ _ _ _ _ this] fd ConnectInProgress show ?thesis by simp
  next
    case ConnectConnected
    let ?s = "s\<lparr>cl_socket := Some fd, cl_conn := Some (conn_new fd (cl_rxBufferSize s) (cl_txBufferSize s)),
      cl_queued := [], cl_sent := []\<rparr>"
    have "watch_socket fd Connected [EPOLLIN, EPOLLRDHUP] ?s = (ok, s')"
      using assms(1,4) u ConnectConnected by (simp add: connectServer_def Let_def)
    from watch_socket_ok [OF _ _ _ _ _ _ this] fd ConnectConnected show ?thesis by simp
  qed
qed

lemma initSocket_simps [simp]:
  "client_fd (initSocket s) = client_fd s" "cl_conn (initSocket s) = cl_conn s"
  "cl_state (initSocket s) = cl_state s" "cl_queued (initSocket s) = cl_queued s"
  "cl_initialized (initSocket s) = cl_initialized s"
  by (auto simp: initSocket_def client_fd_def split: option.splits)

lemma connect_loop_ok:
  "client_fd s = -1 \<Longrightarrow> cl_conn s = None \<Longrightarrow> cl_state s = Disconnected \<Longrightarrow>
     connect_loop env attempt n slept s = (ok, slept', s') \<Longrightarrow>
     client_ok s' \<and> (ok \<longleftrightarrow> cl_state s' \<noteq> Disconnected) \<and> (ok \<longrightarrow> cl_initialized s') \<and>
     (cl_queued s' = cl_queued s \<or> cl_queued s' = []) \<and> slept' \<le> slept + (n - 1)"
proof (induction env attempt n slept s rule: connect_loop.induct)
  case (1 env attempt slept s)
  then show ?case by (auto simp: client_ok_def)
next
  case (2 env attempt n slept s)
  obtain b t where t: "connectServer (env attempt) (initSocket s) = (b, t)" by fastforce
  have t_ok: "client_ok t \<and> (b \<longleftrightarrow> cl_state t \<noteq> Disconnected) \<and>
      (cl_queued t = cl_queued s \<or> cl_queued t = [])"
    using connectServer_ok [OF _ _ _ t] "2.prems" by simp
  show ?case
  proof (cases b)
    case True
    then show ?thesis using t t_ok "2.prems"
      by (auto simp: Let_def)
  next
    case False
    let ?t = "t\<lparr>cl_socket := None\<rparr>"
    have idle: "cl_conn t = None" "cl_state t = Disconnected"
      using t_ok False client_ok_idle by auto
    have t': "client_fd ?t = -1" "cl_conn ?t = None" "cl_state ?t = Disconnected"
      using idle by (simp_all add: client_fd_def)
    show ?thesis
    proof (cases "n = 0")
      case True
      then show ?thesis using False t t_ok t' "2.prems"(4)
        by (auto simp: client_ok_def)
    next
      case n: False
      then have "connect_loop env (Suc attempt) n (Suc slept) ?t = (ok, slept', s')"
        using False t "2.prems"(4) by (simp add: Let_def)
      with "2.IH" [OF t [symmetric] refl False refl n t'] t_ok n show ?thesis by auto
    qed
  qed
qed

lemma client_init_ok:
  assumes "client_ok s" and "cl_state s = Disconnected \<or> cl_initialized s"
    and "client_init created maxAttempts env s = (ok, slept, s')"
  shows "client_ok s' \<and> (cl_state s' = Disconnected \<or> cl_initialized s') \<and>
    (cl_queued s' = cl_queued s \<or> cl_queued s' = [])"
proof (cases "cl_initialized s \<or> \<not> created")
  case True
  with assms show ?thesis by (auto simp: client_init_def initEpoll_def split: if_splits)
next
  case False
  then have "client_fd s = -1" "cl_conn s = None" "cl_state s = Disconnected"
    using assms(1,2) client_ok_idle by auto
  moreover from this False obtain ep where "connect_loop env 1 (nat maxAttempts) 0 (s\<lparr>cl_epoll := ep\<rparr>) = (ok, slept, s')"
    using assms(3) by (auto simp: client_init_def initEpoll_def)
  ultimately show ?thesis
    using connect_loop_ok [of "s\<lparr>cl_epoll := ep\<rparr>"] by fastforce
qed

lemma client_ok_enqueue:
  assumes "client_ok s" and "client_enqueueFrame frame s = (ok, s')"
  shows "client_ok s' \<and> (cl_state s' = cl_state s \<or> cl_state s' = Disconnected) \<and>
    cl_initialized s' = cl_initialized s \<and> (cl_queued s' = cl_queued s \<or> cl_queued s' = cl_queued s @ [frame]) \<and>
    (ok \<longrightarrow> cl_state s' = Connected \<and> cl_queued s' = cl_queued s @ [frame])"
proof (cases "cl_conn s")
  case None
  with assms show ?thesis by (auto simp: client_enqueueFrame_def)
next
  case (Some c)
  note c = client_okD [OF assms(1) Some]
  then obtain fd where fd: "cl_socket s = Some fd" "client_fd s = fd"
    by (auto simp: client_fd_def split: option.splits)
  obtain w tx' where w: "conn_write frame (c_tx c) = (w, tx')" by fastforce
  note tx' = conn_write_correct [OF c(5), of frame, unfolded w fst_conv snd_conv]
  show ?thesis
  proof (cases "cl_state s = Connected \<and> frame \<noteq> [] \<and> w")
    case False
    then have "s' = s \<and> \<not> ok"
      using assms(2) by (auto simp: client_enqueueFrame_def Some fd w Let_def split: if_splits)
    then show ?thesis using assms(1) by simp
  next
    case True
    let ?s = "s\<lparr>cl_conn := Some (c\<lparr>c_tx := tx'\<rparr>), cl_queued := cl_queued s @ [frame]\<rparr>"
    obtain b ep' where ep: "epoll_mod fd [EPOLLIN, EPOLLOUT, EPOLLRDHUP] (cl_epoll s) = (b, ep')" by fastforce
    then have dom: "ep_set ep' fd \<noteq> None"
      using c(3) fd by (auto simp: epoll_mod_def split: if_splits)
    have res: "(ok, s') = (if b then (True, ?s\<lparr>cl_epoll := ep'\<rparr>) else (False, client_close ?s))"
      using assms(2) True by (auto simp: client_enqueueFrame_def Some fd w ep Let_def)
    show ?thesis
    proof (cases b)
      case False
      with res show ?thesis by simp
    next
      case b: True
      have "cl_sent s @ rb_list tx' = concat (cl_queued s @ [frame])"
        using tx'(4) True c(6) by simp
      then have "client_ok (?s\<lparr>cl_epoll := ep'\<rparr>)"
        using c tx'(2) dom fd True by (simp add: client_ok_def)
      with res b True show ?thesis by simp
    qed
  qed
qed

lemma client_ok_egress:
  assumes "client_ok s"
  shows "client_ok (client_egress msg s) \<and>
    (cl_state (client_egress msg s) = cl_state s \<or> cl_state (client_egress msg s) = Disconnected) \<and>
    cl_initialized (client_egress msg s) = cl_initialized s \<and>
    (cl_queued (client_egress msg s) = cl_queued s \<or>
     cl_queued (client_egress msg s) = cl_queued s @ [encode msg])"
proof (cases msg)
  case (Some m)
  obtain ok t where "client_enqueueFrame (encode msg) s = (ok, t)" by fastforce
  with client_ok_enqueue [OF assms this] Some assms show ?thesis
    by (cases "encode msg = []") (auto simp: client_egress_def Let_def)
qed (use assms in \<open>simp add: client_egress_def\<close>)

text \<open>The client's \<open>ingress\<close> only hands the message on: it keeps everything else of the object.\<close>

definition same_client :: "ipc_client \<Rightarrow> ipc_client \<Rightarrow> bool" where
  "same_client s0 s \<longleftrightarrow> (\<exists>rs. s = s0\<lparr>cl_received := rs\<rparr>)"

lemma same_client_ingress:
  assumes "same_client s0 s" and "client_ingress fd f s = (ok, s')"
  shows "same_client s0 s' \<and> has_conn s' = has_conn s"
  using assms
  by (auto simp: client_ingress_def same_client_def has_conn_def Let_def split: if_splits prod.splits option.splits)

interpretation cl: ipc_handler_safe client_ingress has_conn fd "same_client s0" for fd s0
  by unfold_locales (use same_client_ingress in blast)+

lemma client_recv_cases:
  assumes "client_ok s" and "cl_conn s = Some c"
  obtains "client_handleRecv env fd s = Inl LoopNotDone"
  | ok rs rx' where "client_handleRecv env fd s = Inr (ok, s\<lparr>cl_received := rs, cl_conn := Some (c\<lparr>c_rx := rx'\<rparr>)\<rparr>)"
      "ring_ok rx'"
proof (cases "ipc_handleRecv client_ingress has_conn fd env (c_rx c) s")
  case None
  then show ?thesis using that(1) assms(2) by (simp add: client_handleRecv_def)
next
  case (Some r)
  then obtain res rx' s1 env' where r: "ipc_handleRecv client_ingress has_conn fd env (c_rx c) s = Some (res, rx', s1, env')"
    by (cases r) auto
  have pre: "ring_ok (c_rx c)" "same_client s s" "has_conn s"
    using client_okD(4) [OF assms] assms(2) exI [of "\<lambda>rs. s = s\<lparr>cl_received := rs\<rparr>" "cl_received s"]
    by (simp_all add: same_client_def has_conn_def)
  obtain rs where "s1 = s\<lparr>cl_received := rs\<rparr>" "ring_ok rx'" "res \<noteq> DrainUseAfterFree"
    using cl.handleRecv_keeps [OF pre r] cl.handleRecv_safe [OF pre r] by (auto simp: same_client_def)
  then show ?thesis using that(2) r assms(2) by (simp add: client_handleRecv_def)
qed

lemma client_send_ok:
  assumes "client_ok s" and "cl_conn s = Some c" and "client_handleSend env (client_fd s) s = Inr (ok, s')"
  shows "client_ok s' \<and> cl_state s' = cl_state s \<and> cl_initialized s' = cl_initialized s \<and>
    cl_queued s' = cl_queued s"
proof -
  note c = client_okD [OF assms(1,2)]
  from assms(2,3) obtain tx' ep' out where h: "ipc_handleSend (client_fd s) env (c_tx c) (cl_epoll s) = Some (ok, tx', ep', out)"
    and s': "s' = s\<lparr>cl_conn := Some (c\<lparr>c_tx := tx'\<rparr>), cl_epoll := ep', cl_sent := cl_sent s @ out\<rparr>"
    by (auto simp: client_handleSend_def split: option.splits)
  note tx' = handleSend_ring [OF c(5) h]
  have "ep_set ep' (client_fd s) \<noteq> None"
    using handleSend_dom [OF h] c(3) by (metis domIff)
  then show ?thesis using c tx' by (simp add: s' client_ok_def)
qed

text \<open>What an event can do: nothing of it ever connects a client that is disconnected.\<close>

lemma client_handleEvent_ok:
  assumes "client_ok s" and "client_handleEvent env fd evs s = Inr s'"
  shows "client_ok s' \<and> (cl_state s = Disconnected \<longrightarrow> cl_state s' = Disconnected) \<and>
    cl_initialized s' = cl_initialized s \<and> cl_queued s' = cl_queued s"
proof (cases "fd = cl_eventFd s \<or> cl_socket s = None \<or> fd \<noteq> client_fd s \<or> cl_conn s = None")
  case True
  then have "s' = s \<or> cl_conn s = None \<and> cl_state s = Connecting"
    using assms(2) by (auto simp: client_handleEvent_def Let_def split: if_splits)
  then show ?thesis using assms(1) by (auto simp: client_ok_def)
next
  case False
  then obtain c where conn: "cl_conn s = Some c" by auto
  note c = client_okD [OF assms(1) conn]
  have fd: "fd = client_fd s" "fd \<noteq> cl_eventFd s" "cl_socket s \<noteq> None" using False by auto
  show ?thesis
  proof (cases "cl_state s = Connecting")
    case True
    obtain b ep' where h: "handleConnect (ci_soerror env) fd (cl_epoll s) = (b, ep')" by fastforce
    then have "ep_set ep' fd \<noteq> None"
      using c(3) fd(1) by (auto simp: handleConnect_def epoll_mod_def Let_def split: so_error.splits if_splits)
    then have "client_ok (s\<lparr>cl_epoll := ep', cl_state := Connected\<rparr>)"
      using c conn fd(1) by (simp add: client_ok_def)
    moreover have "s' = s \<or> s' = client_close (s\<lparr>cl_epoll := ep'\<rparr>) \<or> s' = s\<lparr>cl_epoll := ep', cl_state := Connected\<rparr>"
      using assms(2) fd True h by (auto simp: client_handleEvent_def Let_def split: if_splits)
    ultimately show ?thesis using assms(1) True by auto
  next
    case False
    then have st: "cl_state s = Connected" using c(1) by (cases "cl_state s") auto
    show ?thesis
    proof (cases "EPOLLERR \<in> set evs \<or> EPOLLHUP \<in> set evs \<or> EPOLLRDHUP \<in> set evs")
      case True
      then show ?thesis using assms fd st conn
        by (auto simp: client_handleEvent_def Let_def split: if_splits)
    next
      case on: False
      let ?r = "if EPOLLIN \<in> set evs then map_sum id closing (client_handleRecv (ci_recv env) fd s)
                else Inr (True, s)"
      from assms(2) obtain keep t where t: "?r = Inr (keep, t)"
        and s': "(if \<not> keep then Inr t
          else if EPOLLOUT \<in> set evs then map_sum id (snd \<circ> closing) (client_handleSend (ci_send env) fd t)
          else Inr t) = (Inr s' :: client_fault + ipc_client)"
        using on fd st conn
        by (cases ?r) (auto simp: client_handleEvent_def Let_def split: if_splits)
      have t_ok: "client_ok t \<and> cl_initialized t = cl_initialized s \<and> cl_queued t = cl_queued s \<and>
          (keep \<longrightarrow> (\<exists>c'. cl_conn t = Some c') \<and> client_fd t = fd)"
      proof (cases "EPOLLIN \<in> set evs")
        case False
        then show ?thesis using t assms(1) conn fd by auto
      next
        case True
        show ?thesis
        proof (rule client_recv_cases [OF assms(1) conn, of "ci_recv env" fd])
          fix ok rs rx'
          assume r: "client_handleRecv (ci_recv env) fd s =
            Inr (ok, s\<lparr>cl_received := rs, cl_conn := Some (c\<lparr>c_rx := rx'\<rparr>)\<rparr>)" "ring_ok rx'"
          have "client_ok (s\<lparr>cl_received := rs, cl_conn := Some (c\<lparr>c_rx := rx'\<rparr>)\<rparr>)"
            using c r(2) by (simp add: client_ok_def)
          then show ?thesis using t r(1) True fd by (cases ok) (auto simp: closing_def)
        qed (use t True in simp)
      qed
      show ?thesis
      proof (cases "keep \<and> EPOLLOUT \<in> set evs")
        case False
        then show ?thesis using s' t_ok st by (auto split: if_splits)
      next
        case True
        then obtain ok u where "client_handleSend (ci_send env) fd t = Inr (ok, u)"
          "s' = (if ok then u else client_close u)"
          using s' by (cases "client_handleSend (ci_send env) fd t") (auto simp: closing_def split: if_splits)
        moreover from this t_ok True have "client_ok u \<and> cl_state u = cl_state t \<and>
            cl_initialized u = cl_initialized t \<and> cl_queued u = cl_queued t"
          using client_send_ok [of t _ "ci_send env" ok u] by auto
        ultimately show ?thesis using t_ok st by auto
      qed
    qed
  qed
qed

lemma client_event_no_uaf:
  assumes "client_ok s"
  shows "client_handleEvent env fd evs s \<noteq> Inl ReadAfterFree"
proof (cases "cl_conn s")
  case None
  then show ?thesis
    by (auto simp: client_handleEvent_def Let_def split: prod.splits)
next
  case (Some c)
  have "client_handleRecv (ci_recv env) fd s \<noteq> Inl ReadAfterFree"
    by (rule client_recv_cases [OF assms Some, of "ci_recv env" fd]) auto
  moreover have "client_handleSend e fd t \<noteq> Inl ReadAfterFree" for e t
    by (auto simp: client_handleSend_def split: option.splits)
  ultimately show ?thesis
    by (auto simp: client_handleEvent_def Let_def map_sum_def split: sum.splits prod.splits)
qed

lemma client_dispatch_ok:
  "client_ok s \<Longrightarrow> client_dispatch ready s \<noteq> Inl ReadAfterFree \<and>
     (\<forall>s'. client_dispatch ready s = Inr s' \<longrightarrow> client_ok s' \<and>
        (cl_state s = Disconnected \<longrightarrow> cl_state s' = Disconnected) \<and>
        cl_initialized s' = cl_initialized s \<and> cl_queued s' = cl_queued s)"
proof (induction ready s rule: client_dispatch.induct)
  case (2 fd events env rest s)
  show ?case
  proof (cases "client_handleEvent env fd events s")
    case (Inl e)
    then show ?thesis using client_event_no_uaf [OF "2.prems", of env fd events] by simp
  next
    case (Inr t)
    with "2.IH" [OF Inr] client_handleEvent_ok [OF "2.prems" Inr] show ?thesis by auto
  qed
qed simp

subsection \<open>A run of the client\<close>

text \<open>
  What a daemon does with its client, in any order and with any answers of the kernel. A message
  given to \<open>egress\<close> is well formed, or too long, and then \<open>encode\<close> gives nothing.
\<close>

inductive client_run :: "ipc_client \<Rightarrow> ipc_client \<Rightarrow> bool" where
  run_start: "client_run s s"
| run_init: "client_run s t \<Longrightarrow> client_init created maxAttempts env t = (ok, slept, u) \<Longrightarrow> client_run s u"
| run_egress: "client_run s t \<Longrightarrow> wf_message m \<or> encode (Some m) = [] \<Longrightarrow>
    client_run s (client_egress (Some m) t)"
| run_poll: "client_run s t \<Longrightarrow> client_poll wait t = Inr (ok, u) \<Longrightarrow> client_run s u"

lemma client_init_again: "cl_initialized s \<Longrightarrow> client_init created maxAttempts env s = (True, 0, s)"
  by (simp add: client_init_def)

lemma client_poll_ok:
  assumes "client_ok s" and "client_poll wait s = Inr (ok, s')"
  shows "client_ok s' \<and> (cl_state s = Disconnected \<longrightarrow> cl_state s' = Disconnected) \<and>
    cl_initialized s' = cl_initialized s \<and> cl_queued s' = cl_queued s"
proof (cases wait)
  case (WaitErr e)
  with assms show ?thesis by (auto simp: client_poll_def)
next
  case (WaitReady ready)
  with assms(2) have "client_dispatch ready s = Inr s'"
    by (cases "client_dispatch ready s") (auto simp: client_poll_def)
  with client_dispatch_ok [OF assms(1), of ready] show ?thesis by simp
qed

lemma client_run_trans: "client_run t u \<Longrightarrow> client_run s t \<Longrightarrow> client_run s u"
  by (induction rule: client_run.induct) (auto intro: client_run.intros)

definition frames_wf :: "bytes list \<Rightarrow> bool" where
  "frames_wf fs \<longleftrightarrow> (\<exists>ms. list_all wf_message ms \<and> fs = map (\<lambda>m. encode (Some m)) ms)"

lemma frames_wf_snoc: "frames_wf fs \<Longrightarrow> wf_message m \<Longrightarrow> frames_wf (fs @ [encode (Some m)])"
proof -
  assume "frames_wf fs" and "wf_message m"
  then obtain ms where "list_all wf_message (ms @ [m])" "fs @ [encode (Some m)] = map (\<lambda>m. encode (Some m)) (ms @ [m])"
    by (auto simp: frames_wf_def)
  then show ?thesis unfolding frames_wf_def by blast
qed

lemma frames_wf_Nil [simp]: "frames_wf []"
  by (simp add: frames_wf_def)

lemma run_client_ok:
  "client_run s t \<Longrightarrow> client_ok s \<Longrightarrow> cl_state s = Disconnected \<or> cl_initialized s \<Longrightarrow> frames_wf (cl_queued s) \<Longrightarrow>
     client_ok t \<and> (cl_state t = Disconnected \<or> cl_initialized t) \<and> frames_wf (cl_queued t)"
proof (induction rule: client_run.induct)
  case (run_init s t created maxAttempts env ok slept u)
  then have t: "client_ok t" "cl_state t = Disconnected \<or> cl_initialized t" "frames_wf (cl_queued t)" by auto
  then show ?case using client_init_ok [OF t(1,2) run_init.hyps(2)] t(3) by auto
next
  case (run_egress s t m)
  then have t: "client_ok t" "cl_state t = Disconnected \<or> cl_initialized t" "frames_wf (cl_queued t)" by auto
  show ?case
  proof (cases "encode (Some m) = []")
    case True
    then show ?thesis using t by (simp add: client_egress_def)
  next
    case False
    then have "wf_message m" using run_egress.hyps(2) by simp
    then show ?thesis using client_ok_egress [OF t(1), of "Some m"] t frames_wf_snoc [OF t(3)] by auto
  qed
next
  case (run_poll s t wait ok u)
  then show ?case using client_poll_ok [of t wait ok u] by auto
qed simp

subsection \<open>Properties\<close>

lemma client_new_idle [simp]:
  "cl_state (client_new path rx tx ep ev) = Disconnected" "cl_queued (client_new path rx tx ep ev) = []"
  "cl_conn (client_new path rx tx ep ev) = None" "client_fd (client_new path rx tx ep ev) = -1"
  "\<not> cl_initialized (client_new path rx tx ep ev)"
  by (simp_all add: client_new_def client_fd_def)

lemmas run_from_new = run_client_ok [OF _ client_ok_new, simplified]

definition attempt_connects :: "connect_env \<Rightarrow> bool" where
  "attempt_connects env \<longleftrightarrow> ce_socket env \<noteq> None \<and> ce_nonblock env \<and> ce_connect env \<noteq> ConnectRefused"

definition can_watch :: "connect_env \<Rightarrow> ipc_client \<Rightarrow> bool" where
  "can_watch env s \<longleftrightarrow> (case ce_socket env of None \<Rightarrow> True
     | Some fd \<Rightarrow> ep_set (cl_epoll s) (int fd) = None \<and> \<not> ep_refuses (cl_epoll s) (int fd))"

lemma can_watch_cong: "cl_epoll t = cl_epoll s \<Longrightarrow> can_watch env t = can_watch env s"
  by (simp add: can_watch_def split: option.split)

lemma connectServer_attempt:
  assumes "length (cl_socketPath s) < sun_path_size" and "client_fd s = -1" and "can_watch env s"
    and "connectServer env s = (ok, s')"
  shows "ok \<longleftrightarrow> attempt_connects env"
    and "ok \<Longrightarrow> cl_state s' = (if ce_connect env = ConnectOk then Connected else Connecting)"
    and "\<not> ok \<Longrightarrow> s' = s\<lparr>cl_socket := Some (-1)\<rparr>"
  using assms
  by (auto simp: connectServer_def uds_connect_def uds_createSocket_def watch_socket_def can_watch_def
      epoll_add_def attempt_connects_def Let_def split: option.splits if_splits connect_outcome.splits)

lemma connect_loop_find:
  "length (cl_socketPath s) < sun_path_size \<Longrightarrow> client_fd s = -1 \<Longrightarrow> cl_state s = Disconnected \<Longrightarrow>
     list_all (\<lambda>k. can_watch (env k) s) [attempt..<attempt + n] \<Longrightarrow>
     connect_loop env attempt n slept s = (ok, slept', s') \<Longrightarrow>
     case find (\<lambda>k. attempt_connects (env k)) [attempt..<attempt + n] of
       Some k \<Rightarrow> ok \<and> slept' = slept + (k - attempt) \<and> attempt \<le> k \<and>
         cl_state s' = (if ce_connect (env k) = ConnectOk then Connected else Connecting)
     | None \<Rightarrow> \<not> ok \<and> slept' = slept + (n - 1) \<and> cl_state s' = Disconnected"
proof (induction n arbitrary: attempt slept s)
  case (Suc n)
  have up: "[attempt..<attempt + Suc n] = attempt # [Suc attempt..<Suc attempt + n]"
    by (simp add: upt_conv_Cons)
  let ?i = "initSocket s"
  have i: "length (cl_socketPath ?i) < sun_path_size" "client_fd ?i = -1" "can_watch (env attempt) ?i"
    "cl_epoll ?i = cl_epoll s"
    using Suc.prems(1,2,4) unfolding up
    by (auto simp: initSocket_def can_watch_def split: option.splits)
  obtain b t where t: "connectServer (env attempt) ?i = (b, t)" by fastforce
  note at = connectServer_attempt [OF i(1-3) t]
  show ?case
  proof (cases b)
    case True
    then show ?thesis using at(1,2) Suc.prems(5) t unfolding up by auto
  next
    case False
    let ?t = "t\<lparr>cl_socket := None\<rparr>"
    have t': "cl_socketPath ?t = cl_socketPath s" "client_fd ?t = -1" "cl_state ?t = Disconnected"
      "cl_epoll ?t = cl_epoll s"
      using at(3) [OF False] Suc.prems(3) i by (auto simp: initSocket_def split: option.splits)
    have w: "list_all (\<lambda>k. can_watch (env k) ?t) [Suc attempt..<Suc attempt + n]"
      using Suc.prems(4) can_watch_cong [OF t'(4)] unfolding up by (simp del: upt_Suc)
    show ?thesis
    proof (cases "n = 0")
      case True
      then show ?thesis using False t at(1) t' Suc.prems(5) unfolding up by auto
    next
      case n: False
      then have "connect_loop env (Suc attempt) n (Suc slept) ?t = (ok, slept', s')"
        using Suc.prems(5) False t by (simp add: Let_def)
      from Suc.IH [OF _ t'(2,3) w this] False at(1) Suc.prems(1) t'(1) n show ?thesis
        unfolding up by (auto split: option.splits simp del: upt_Suc add_Suc)
    qed
  qed
qed (auto simp: upt_rec)

text \<open>A daemon's IPC client never touches a connection it has destroyed, whatever it does and
  whatever the kernel answers; while it has a connection its descriptor is open and watched, and
  the bytes handed to the kernel followed by those in the transmit ring are exactly the frames
  accepted, in order.\<close>

theorem client_connection_sound:
  assumes "client_run (client_new path rx tx ep ev) s"
  shows "client_poll wait s \<noteq> Inl ReadAfterFree \<and>
    (case cl_conn s of
       None \<Rightarrow> cl_state s = Disconnected
     | Some c \<Rightarrow> 0 \<le> client_fd s \<and> ep_set (cl_epoll s) (client_fd s) \<noteq> None \<and>
         cl_sent s @ rb_list (c_tx c) = concat (cl_queued s))"
proof -
  note ok = run_from_new [OF assms]
  then have "client_poll wait s \<noteq> Inl ReadAfterFree"
    using client_dispatch_ok by (cases wait) (auto simp: client_poll_def map_sum_def split: sum.splits)
  with ok show ?thesis by (auto simp: client_ok_def split: option.splits)
qed

text \<open>A run for the witnesses: the first connect is refused, the second succeeds, one frame is queued.\<close>

definition attempts_example :: "nat \<Rightarrow> connect_env" where
  "attempts_example k = \<lparr>ce_socket = Some (4 + k), ce_nonblock = True,
     ce_connect = (if k = 1 then ConnectRefused else ConnectOk)\<rparr>"

definition epoll_example :: epoll where
  "epoll_example = \<lparr>ep_set = Map.empty, ep_refuses = (\<lambda>_. False)\<rparr>"

definition connected_example :: ipc_client where
  "connected_example =
     snd (snd (client_init True 3 attempts_example (client_new ''/run/ipc'' 0 0 epoll_example 3)))"

definition queued_example :: ipc_client where
  "queued_example = client_egress (Some hello_example) connected_example"

lemmas client_init_simps = client_init_def initEpoll_def connectServer_def initSocket_def uds_connect_def
  uds_createSocket_def watch_socket_def client_new_def epoll_add_def client_fd_def sun_path_size_def
  attempts_example_def epoll_example_def numeral_3_eq_3 Let_def

text \<open>A socket that takes everything empties the ring.\<close>

lemma conn_send_flush:
  "ring_ok tx \<Longrightarrow> \<exists>env tx'. conn_send env tx = Some (IoOk, None, tx', rb_list tx) \<and> rb_list tx' = []"
proof (induction "m_size tx" arbitrary: tx rule: less_induct)
  case less
  show ?case
  proof (cases "rb_readable tx = 0")
    case True
    then have "rb_list tx = []" by (simp add: rb_readable_def flip: length_0_conv)
    with True show ?thesis by (intro exI [of _ "[]"] exI [of _ tx]) (simp add: conn_send_steps)
  next
    case False
    let ?n = "rb_readLen tx"
    have n: "0 < ?n" "?n \<le> m_size tx"
      using readLen_pos [OF less.prems] False readLen_le [of tx] by simp_all
    have "m_size (rb_consume ?n tx) < m_size tx" using n by (simp add: size_consume)
    then obtain env tx' where
      "conn_send env (rb_consume ?n tx) = Some (IoOk, None, tx', rb_list (rb_consume ?n tx))" "rb_list tx' = []"
      using less.hyps consume_ok [OF less.prems n(2)] by blast
    moreover have "rb_view tx ?n @ rb_list (rb_consume ?n tx) = rb_list tx"
      using view_list [OF less.prems, of ?n] consume_list [OF less.prems n(2)] by simp
    ultimately show ?thesis using n False
      by (intro exI [of _ "SendCount ?n # env"] exI [of _ tx']) (simp add: conn_send_steps)
  qed
qed

lemma connected_example_fields:
  "cl_state connected_example = Connected" "cl_conn connected_example = Some (conn_new 6 0 0)"
  "cl_socket connected_example = Some 6" "cl_queued connected_example = []" "cl_sent connected_example = []"
  "cl_epoll connected_example = \<lparr>ep_set = [3 \<mapsto> [EPOLLIN], 6 \<mapsto> [EPOLLIN, EPOLLRDHUP]],
     ep_refuses = (\<lambda>_. False)\<rparr>" "cl_initialized connected_example"
  "cl_eventFd connected_example = 3"
  by (simp_all add: connected_example_def client_init_simps)

lemma run_connected_example:
  "client_run (client_new ''/run/ipc'' 0 0 epoll_example 3) connected_example"
proof -
  obtain ok slept where "client_init True 3 attempts_example (client_new ''/run/ipc'' 0 0 epoll_example 3)
      = (ok, slept, connected_example)"
    unfolding connected_example_def by (metis prod.collapse)
  then show ?thesis by (rule run_init [OF run_start])
qed

lemma run_queued_example:
  "client_run (client_new ''/run/ipc'' 0 0 epoll_example 3) queued_example"
  unfolding queued_example_def
  by (rule run_egress [OF run_connected_example]) (simp add: hello_example_wf)

lemma queued_example_fields:
  "cl_queued queued_example = [frame_of hello_example]" "cl_state queued_example = Connected"
  "cl_sent queued_example = []" "\<not> ep_refuses (cl_epoll queued_example) fd"
  "client_fd queued_example = 6" "cl_eventFd queued_example = 3" "cl_socket queued_example = Some 6"
proof -
  obtain w tx' where w: "conn_write (frame_of hello_example) (c_tx (conn_new 6 0 0)) = (w, tx')" by fastforce
  have c: "ring_ok (c_tx (conn_new 6 0 0))" "rb_list (c_tx (conn_new 6 0 0)) = []"
    "rb_capacity (c_tx (conn_new 6 0 0)) = IPC_MAX_FRAME_SIZE"
    by (simp_all add: conn_new_def ring_ok_new rb_list_new capacity_new IPC_MAX_FRAME_SIZE_def)
  have "w" using conn_write_correct(1) [OF c(1), of "frame_of hello_example"] w c hello_example_length
    by (simp add: IPC_MAX_FRAME_SIZE_def)
  then show "cl_queued queued_example = [frame_of hello_example]" "cl_state queued_example = Connected"
    "cl_sent queued_example = []" "\<not> ep_refuses (cl_epoll queued_example) fd"
    "client_fd queued_example = 6" "cl_eventFd queued_example = 3" "cl_socket queued_example = Some 6"
    using encode_nonempty [OF hello_example_wf]
    by (simp_all add: client_fd_def queued_example_def client_egress_def client_enqueueFrame_def Let_def w
        connected_example_fields epoll_mod_def)
qed

lemma flushed_example:
  assumes "cl_conn queued_example = Some c"
  shows "\<exists>s' c'. client_run queued_example s' \<and> cl_conn s' = Some c' \<and> rb_list (c_tx c') = [] \<and>
    cl_queued s' = cl_queued queued_example"
proof -
  let ?s = queued_example
  have ok: "client_ok ?s" using run_from_new [OF run_queued_example] by simp
  note c = client_okD [OF ok assms]
  obtain env tx' where send: "conn_send env (c_tx c) = Some (IoOk, None, tx', rb_list (c_tx c))" "rb_list tx' = []"
    using conn_send_flush [OF c(5)] by blast
  obtain evs where "ep_set (cl_epoll ?s) (client_fd ?s) = Some evs" using c(3) by auto
  moreover have "\<not> ep_refuses (cl_epoll ?s) (client_fd ?s)"
    by (simp add: queued_example_fields)
  ultimately obtain ep' where "epoll_mod (client_fd ?s) [EPOLLIN, EPOLLRDHUP] (cl_epoll ?s) = (True, ep')"
    by (simp add: epoll_mod_def)
  then have h: "ipc_handleSend (client_fd ?s) env (c_tx c) (cl_epoll ?s) = Some (True, tx', ep', rb_list (c_tx c))"
    using send by (simp add: ipc_handleSend_def)
  let ?io = "\<lparr>ci_soerror = SoFailed, ci_recv = [], ci_send = env\<rparr>"
  let ?s' = "?s\<lparr>cl_conn := Some (c\<lparr>c_tx := tx'\<rparr>), cl_epoll := ep', cl_sent := cl_sent ?s @ rb_list (c_tx c)\<rparr>"
  have "client_fd ?s \<noteq> cl_eventFd ?s" "cl_socket ?s = Some 6"
    by (simp_all add: queued_example_fields)
  then have "client_poll (WaitReady [(client_fd ?s, [EPOLLOUT], ?io)]) ?s = Inr (True, ?s')"
    using queued_example_fields(2) assms h
    by (simp add: client_poll_def client_handleEvent_def client_handleSend_def closing_def)
  then have "client_run ?s ?s'" by (rule run_poll [OF run_start])
  then show ?thesis using send(2)
    by (intro exI [of _ ?s'] exI [of _ "c\<lparr>c_tx := tx'\<rparr>"]) simp
qed

theorem client_connection_sound_witness:
  "client_poll (WaitErr EBADF) queued_example \<noteq> Inl ReadAfterFree \<and>
   cl_queued queued_example = [frame_of hello_example] \<and>
   (\<exists>c. cl_conn queued_example = Some c \<and> rb_list (c_tx c) = frame_of hello_example)"
  using client_connection_sound [OF run_queued_example, of "WaitErr EBADF"] queued_example_fields
  by (auto split: option.splits)

text \<open>A client that has lost its broker never comes back: once it has been connected and is
  disconnected, no sequence of calls, \<open>init\<close> included, connects it again, and every frame is refused.\<close>

theorem client_never_reconnects:
  assumes "client_run (client_new path rx tx ep ev) s" and "cl_initialized s" and "\<not> isConnected s"
    and "cl_state s \<noteq> Connecting" and "client_run s s'"
  shows "\<not> isConnected s' \<and> client_enqueueFrame frame s' = (False, s')"
proof -
  have s: "cl_state s = Disconnected" using assms(3,4) by (cases "cl_state s") (auto simp: isConnected_def)
  have "client_ok s" using run_from_new [OF assms(1)] by simp
  with assms(5) s assms(2) have "client_ok s' \<and> cl_state s' = Disconnected \<and> cl_initialized s'"
  proof (induction rule: client_run.induct)
    case (run_egress s t m)
    then show ?case using client_ok_egress [of t "Some m"] by auto
  next
    case (run_poll s t wait ok u)
    then show ?case using client_poll_ok [of t wait ok u] by auto
  qed (auto simp: client_init_again)
  then show ?thesis
    using client_ok_idle [of s'] by (auto simp: isConnected_def client_enqueueFrame_def)
qed

theorem client_never_reconnects_witness:
  "let s = client_close connected_example in
   fst (client_init True 3 attempts_example s) \<and>
   \<not> isConnected (snd (snd (client_init True 3 attempts_example s))) \<and>
   client_enqueueFrame (frame_of hello_example) s = (False, s)"
proof -
  let ?io = "\<lparr>ci_soerror = SoFailed, ci_recv = [], ci_send = []\<rparr>" and ?s = "client_close connected_example"
  have "client_poll (WaitReady [(6, [EPOLLRDHUP], ?io)]) connected_example = Inr (True, ?s)"
    by (simp add: client_poll_def client_handleEvent_def connected_example_fields client_fd_def)
  with run_connected_example have run: "client_run (client_new ''/run/ipc'' 0 0 epoll_example 3) ?s"
    by (rule run_poll)
  have i: "cl_initialized ?s" "\<not> isConnected ?s" "cl_state ?s \<noteq> Connecting"
    by (simp_all add: isConnected_def connected_example_fields)
  have init: "client_init True 3 attempts_example ?s = (True, 0, ?s)"
    by (rule client_init_again [OF i(1)])
  from client_never_reconnects [OF run i run_init [OF run_start init], of "frame_of hello_example"] init
  show ?thesis by (simp add: Let_def)
qed



text \<open>Connecting: \<open>init\<close> makes at most \<^verbatim>\<open>ipc_retry_attempts\<close> attempts, stops at the first whose socket
  can be created and whose connect is not refused, and has then slept once per attempt that failed
  before it; when every attempt fails it has slept between attempts only, one time less than it tried.\<close>

theorem init_first_success:
  assumes "length path < sun_path_size"
    and "list_all (\<lambda>k. case ce_socket (env k) of None \<Rightarrow> True
       | Some fd \<Rightarrow> int fd \<noteq> ev \<and> ep_set ep (int fd) = None \<and> \<not> ep_refuses ep (int fd)) [1..<Suc (nat n)]"
    and "client_init True n env (client_new path rx tx ep ev) = (ok, slept, s)"
  shows "case find (\<lambda>k. attempt_connects (env k)) [1..<Suc (nat n)] of
       Some k \<Rightarrow> ok \<and> slept = k - 1 \<and>
         cl_state s = (if ce_connect (env k) = ConnectOk then Connected else Connecting)
     | None \<Rightarrow> \<not> ok \<and> slept = nat n - 1 \<and> cl_state s = Disconnected"
proof -
  let ?s = "client_new path rx tx ep ev\<lparr>cl_epoll := snd (epoll_add ev [EPOLLIN] ep)\<rparr>"
  have "connect_loop env 1 (nat n) 0 ?s = (ok, slept, s)"
    using assms(3) by (simp add: client_init_def initEpoll_def client_new_def)
  moreover have "list_all (\<lambda>k. can_watch (env k) ?s) [1..<1 + nat n]"
    using assms(2)
    by (auto simp: list_all_iff can_watch_def epoll_add_def split: option.splits)
  ultimately show ?thesis
    using connect_loop_find [of ?s env 1 "nat n" 0 ok slept s] assms(1)
    by (cases "find (\<lambda>k. attempt_connects (env k)) [1..<Suc (nat n)]")
      (simp_all add: client_new_def client_fd_def del: upt_Suc)
qed

theorem init_first_success_witness:
  "let r = client_init True 3 attempts_example (client_new ''/run/ipc'' 0 0 epoll_example 3) in
   fst r \<and> fst (snd r) = 1 \<and> cl_state (snd (snd r)) = Connected"
proof -
  let ?r = "client_init True 3 attempts_example (client_new ''/run/ipc'' 0 0 epoll_example 3)"
  have "case find (\<lambda>k. attempt_connects (attempts_example k)) [1..<Suc (nat 3)] of
       Some k \<Rightarrow> fst ?r \<and> fst (snd ?r) = k - 1 \<and>
         cl_state (snd (snd ?r)) = (if ce_connect (attempts_example k) = ConnectOk then Connected else Connecting)
     | None \<Rightarrow> \<not> fst ?r \<and> fst (snd ?r) = nat 3 - 1 \<and> cl_state (snd (snd ?r)) = Disconnected"
    by (rule init_first_success [where path = "''/run/ipc''" and ev = 3 and ep = epoll_example and rx = 0 and tx = 0
        and env = attempts_example])
      (simp_all add: sun_path_size_def attempts_example_def epoll_example_def list_all_iff del: upt_Suc)
  moreover have "[1..<Suc (nat 3)] = [1, 2, 3]" by (simp add: upt_rec numeral_eq_Suc)
  ultimately show ?thesis by (simp add: attempt_connects_def attempts_example_def Let_def)
qed

end
