(* ===== verification/Api_Refs.thy ===== *)
theory Api_Refs
  imports Json_Model
begin

text \<open>
  \<^verbatim>\<open>shared/config/ApiRefs\<close>: the referential integrity check a settings commit runs on the API
  section (connectors refer to endpoints and credentials by oid). The loops are translated with
  their early returns and with the exceptions a member of the wrong type raises; \<open>refs_resolve\<close> is
  what the check means, on sections whose members have the expected types.
\<close>

fun containsOid_loop :: "json list \<Rightarrow> string \<Rightarrow> json_error + bool" where
  "containsOid_loop [] oid = Inr False"
| "containsOid_loop (entry # es) oid =
     (if is_object entry then
        bind_err (jvalue get_str ''oid'' [] entry)
          (\<lambda>o'. if o' = oid then Inr True else containsOid_loop es oid)
      else containsOid_loop es oid)"

definition containsOid :: "json \<Rightarrow> string \<Rightarrow> json_error + bool" where
  "containsOid arr oid = (if \<not> is_array arr then Inr False else containsOid_loop (jitems arr) oid)"

text \<open>The messages; \<open>em_dash\<close> is the UTF-8 encoding of the dash in the source.\<close>

definition em_dash :: string where
  "em_dash = [CHR 0xE2, CHR 0x80, CHR 0x94]"

definition endpoint_error :: "string \<Rightarrow> string" where
  "endpoint_error label = ''connector '' @ [CHR 0x27] @ label @ [CHR 0x27] @
     '' collects an endpoint that does not exist '' @ em_dash @
     '' remove that entry from the connector first''"

definition key_error :: "string \<Rightarrow> string" where
  "key_error label = ''connector '' @ [CHR 0x27] @ label @ [CHR 0x27] @
     '' references an API key that does not exist '' @ em_dash @
     '' re-point or remove that connector first''"

text \<open>\<open>None\<close> stands for \<^verbatim>\<open>true\<close>, \<open>Some error\<close> for \<^verbatim>\<open>false\<close> with the text left in \<^verbatim>\<open>error\<close>.\<close>

fun check_items :: "json \<Rightarrow> string \<Rightarrow> json list \<Rightarrow> json_error + string option" where
  "check_items endpoints label [] = Inr None"
| "check_items endpoints label (item # items) =
     (if \<not> is_object item then check_items endpoints label items
      else
        bind_err (jvalue get_str ''endpoint'' [] item) (\<lambda>endpoint.
          if endpoint = [] then check_items endpoints label items
          else bind_err (containsOid endpoints endpoint) (\<lambda>found.
            if \<not> found then Inr (Some (endpoint_error label))
            else check_items endpoints label items)))"

definition check_connector :: "json \<Rightarrow> json \<Rightarrow> json \<Rightarrow> json_error + string option" where
  "check_connector endpoints apiKeys c =
     bind_err (jvalue get_str ''oid'' ''unnamed'' c) (\<lambda>fallback.
     bind_err (jvalue get_str ''name'' fallback c) (\<lambda>label.
     bind_err (jvalue get_json ''items'' (JArr []) c) (\<lambda>items.
     bind_err (if is_array items then check_items endpoints label (jitems items) else Inr None)
       (\<lambda>res. case res of Some e \<Rightarrow> Inr (Some e)
        | None \<Rightarrow>
            bind_err (jvalue get_str ''auth_profile'' [] c) (\<lambda>authProfile.
              if authProfile = [] then Inr None
              else bind_err (containsOid apiKeys authProfile) (\<lambda>found.
                if \<not> found then Inr (Some (key_error label)) else Inr None))))))"

fun check_connectors :: "json \<Rightarrow> json \<Rightarrow> json list \<Rightarrow> json_error + string option" where
  "check_connectors endpoints apiKeys [] = Inr None"
| "check_connectors endpoints apiKeys (c # cs) =
     (if \<not> is_object c then check_connectors endpoints apiKeys cs
      else bind_err (check_connector endpoints apiKeys c)
        (\<lambda>res. case res of Some e \<Rightarrow> Inr (Some e) | None \<Rightarrow> check_connectors endpoints apiKeys cs))"

definition checkApiReferences :: "json \<Rightarrow> json_error + string option" where
  "checkApiReferences api =
     (if \<not> is_object api then Inr None
      else
        bind_err (jvalue get_json ''endpoints'' (JArr []) api) (\<lambda>endpoints.
        bind_err (jvalue get_json ''api_credentials'' (JArr []) api) (\<lambda>apiKeys.
        bind_err (jvalue get_json ''connectors'' (JArr []) api) (\<lambda>connectors.
          if \<not> is_array connectors then Inr None
          else check_connectors endpoints apiKeys (jitems connectors)))))"

subsection \<open>What the check means\<close>

text \<open>A string member, with the empty string for an absent one.\<close>

definition str_of :: "string \<Rightarrow> json \<Rightarrow> string" where
  "str_of k j = (case jfind k j of Some (JStr s) \<Rightarrow> s | _ \<Rightarrow> [])"

definition has_str :: "string \<Rightarrow> json \<Rightarrow> bool" where
  "has_str k j \<longleftrightarrow> (case jfind k j of None \<Rightarrow> True | Some (JStr s) \<Rightarrow> True | Some _ \<Rightarrow> False)"

definition items_of :: "string \<Rightarrow> json \<Rightarrow> json list" where
  "items_of k j = (case jfind k j of Some v \<Rightarrow> filter is_object (jitems v) | None \<Rightarrow> [])"

text \<open>Sections whose members, where present, have the types the console writes.\<close>

definition well_typed :: "json \<Rightarrow> bool" where
  "well_typed api \<longleftrightarrow>
     list_all (has_str ''oid'') (items_of ''endpoints'' api) \<and>
     list_all (has_str ''oid'') (items_of ''api_credentials'' api) \<and>
     list_all (\<lambda>c. has_str ''oid'' c \<and> has_str ''name'' c \<and> has_str ''auth_profile'' c \<and>
       list_all (has_str ''endpoint'') (items_of ''items'' c)) (items_of ''connectors'' api)"

definition refs_resolve :: "json \<Rightarrow> bool" where
  "refs_resolve api \<longleftrightarrow>
     list_all (\<lambda>c.
       list_all (\<lambda>i. str_of ''endpoint'' i = [] \<or>
         str_of ''endpoint'' i \<in> set (map (str_of ''oid'') (items_of ''endpoints'' api))) (items_of ''items'' c) \<and>
       (str_of ''auth_profile'' c = [] \<or>
         str_of ''auth_profile'' c \<in> set (map (str_of ''oid'') (items_of ''api_credentials'' api))))
     (items_of ''connectors'' api)"

lemma jvalue_str:
  "is_object j \<Longrightarrow> has_str k j \<Longrightarrow>
     jvalue get_str k d j = Inr (if jfind k j = None then d else str_of k j)"
  by (auto simp: jvalue_def has_str_def str_of_def get_str_def split: option.splits json.splits)

lemma str_of_absent: "jfind k j = None \<Longrightarrow> str_of k j = []"
  by (simp add: str_of_def)

lemma jvalue_str_Nil: "is_object j \<Longrightarrow> has_str k j \<Longrightarrow> jvalue get_str k [] j = Inr (str_of k j)"
  by (simp add: jvalue_str str_of_absent)

lemma containsOid_loop_correct:
  "list_all (has_str ''oid'') (filter is_object es) \<Longrightarrow>
     containsOid_loop es oid = Inr (oid \<in> set (map (str_of ''oid'') (filter is_object es)))"
  by (induction es) (auto simp: jvalue_str_Nil)

lemma containsOid_correct:
  "list_all (has_str ''oid'') (filter is_object (jitems arr)) \<Longrightarrow>
     containsOid arr oid = Inr (oid \<in> set (map (str_of ''oid'') (filter is_object (jitems arr))))"
  by (cases arr) (simp_all add: containsOid_def containsOid_loop_correct is_array_def jitems_def)

lemma check_items_correct:
  assumes "list_all (has_str ''oid'') (filter is_object (jitems endpoints))"
  shows "list_all (has_str ''endpoint'') (filter is_object items) \<Longrightarrow>
    check_items endpoints label items = Inr
      (if list_all (\<lambda>i. str_of ''endpoint'' i = [] \<or>
            str_of ''endpoint'' i \<in> set (map (str_of ''oid'') (filter is_object (jitems endpoints))))
          (filter is_object items)
       then None else Some (endpoint_error label))"
proof (induction items)
  case (Cons item items)
  show ?case
  proof (cases "is_object item")
    case True
    then show ?thesis
      using Cons jvalue_str_Nil [OF True, of "''endpoint''"] by (simp add: containsOid_correct [OF assms])
  qed (use Cons in simp)
qed simp

text \<open>\<^verbatim>\<open>value(k, json::array())\<close> of an object.\<close>

lemma jvalue_array:
  assumes "is_object j"
  obtains v where "jvalue get_json k (JArr []) j = Inr v" "items_of k j = filter is_object (jitems v)"
  using assms by (cases "jfind k j") (auto simp: jvalue_def get_json_def items_of_def jitems_def)

definition connector_ok :: "json \<Rightarrow> json \<Rightarrow> json \<Rightarrow> bool" where
  "connector_ok endpoints apiKeys c \<longleftrightarrow>
     list_all (\<lambda>i. str_of ''endpoint'' i = [] \<or>
       str_of ''endpoint'' i \<in> set (map (str_of ''oid'') (filter is_object (jitems endpoints))))
       (items_of ''items'' c) \<and>
     (str_of ''auth_profile'' c = [] \<or>
       str_of ''auth_profile'' c \<in> set (map (str_of ''oid'') (filter is_object (jitems apiKeys))))"

lemma check_connector_correct:
  assumes "is_object c" and "list_all (has_str ''oid'') (filter is_object (jitems endpoints))"
    and "list_all (has_str ''oid'') (filter is_object (jitems apiKeys))"
    and "has_str ''oid'' c" and "has_str ''name'' c" and "has_str ''auth_profile'' c"
    and "list_all (has_str ''endpoint'') (items_of ''items'' c)"
  shows "\<exists>r. check_connector endpoints apiKeys c = Inr r \<and> (r = None \<longleftrightarrow> connector_ok endpoints apiKeys c)"
proof -
  obtain items where items: "jvalue get_json ''items'' (JArr []) c = Inr items"
    "items_of ''items'' c = filter is_object (jitems items)"
    by (rule jvalue_array [OF assms(1)])
  have "\<not> is_array items \<Longrightarrow> jitems items = []" by (cases items) (simp_all add: jitems_def)
  then show ?thesis
    using assms items
    by (auto simp: check_connector_def connector_ok_def jvalue_str str_of_absent check_items_correct
        containsOid_correct)
qed

lemma check_connectors_correct:
  assumes "list_all (has_str ''oid'') (filter is_object (jitems endpoints))"
    and "list_all (has_str ''oid'') (filter is_object (jitems apiKeys))"
  shows "list_all (\<lambda>c. has_str ''oid'' c \<and> has_str ''name'' c \<and> has_str ''auth_profile'' c \<and>
       list_all (has_str ''endpoint'') (items_of ''items'' c)) (filter is_object cs) \<Longrightarrow>
    \<exists>r. check_connectors endpoints apiKeys cs = Inr r \<and>
      (r = None \<longleftrightarrow> list_all (connector_ok endpoints apiKeys) (filter is_object cs))"
proof (induction cs)
  case (Cons c cs)
  show ?case
  proof (cases "is_object c")
    case True
    obtain r where "check_connector endpoints apiKeys c = Inr r" "r = None \<longleftrightarrow> connector_ok endpoints apiKeys c"
      using check_connector_correct [OF True assms, of] Cons.prems True by auto
    then show ?thesis using Cons True by (cases r) auto
  qed (use Cons in simp)
qed simp

subsection \<open>Properties\<close>

text \<open>The check of API references accepts exactly the sections in which every reference resolves:
  on a section whose members have the expected types it raises nothing, and it returns true if and
  only if every endpoint a connector's items name, and every credential a connector names, is the oid
  of an entry of the section.\<close>

theorem api_references_checked:
  assumes "is_object api" and "well_typed api"
  shows "\<exists>r. checkApiReferences api = Inr r \<and> (r = None \<longleftrightarrow> refs_resolve api)"
proof -
  obtain endpoints where e: "jvalue get_json ''endpoints'' (JArr []) api = Inr endpoints"
    "items_of ''endpoints'' api = filter is_object (jitems endpoints)" by (rule jvalue_array [OF assms(1)])
  obtain keys where k: "jvalue get_json ''api_credentials'' (JArr []) api = Inr keys"
    "items_of ''api_credentials'' api = filter is_object (jitems keys)" by (rule jvalue_array [OF assms(1)])
  obtain conns where c: "jvalue get_json ''connectors'' (JArr []) api = Inr conns"
    "items_of ''connectors'' api = filter is_object (jitems conns)" by (rule jvalue_array [OF assms(1)])
  have spec: "refs_resolve api = list_all (connector_ok endpoints keys) (filter is_object (jitems conns))"
    by (simp add: refs_resolve_def connector_ok_def [abs_def] e k c)
  have "\<exists>r. check_connectors endpoints keys (jitems conns) = Inr r \<and>
      (r = None \<longleftrightarrow> list_all (connector_ok endpoints keys) (filter is_object (jitems conns)))"
    using assms(2) by (intro check_connectors_correct) (simp_all add: well_typed_def e k c)
  moreover have "\<not> is_array conns \<Longrightarrow> jitems conns = []" by (cases conns) (simp_all add: jitems_def)
  ultimately show ?thesis
    using assms(1) spec e(1) k(1) c(1) by (auto simp: checkApiReferences_def)
qed

theorem api_references_checked_witness:
  "let api = JObj [(''endpoints'', JArr [JObj [(''oid'', JStr ''e1'')]]),
      (''connectors'', JArr [JObj [(''name'', JStr ''c''),
        (''items'', JArr [JObj [(''endpoint'', JStr ''e2'')]])]])]
   in checkApiReferences api = Inr (Some (endpoint_error ''c'')) \<and> \<not> refs_resolve api"
proof -
  let ?api = "JObj [(''endpoints'', JArr [JObj [(''oid'', JStr ''e1'')]]),
      (''connectors'', JArr [JObj [(''name'', JStr ''c''),
        (''items'', JArr [JObj [(''endpoint'', JStr ''e2'')]])]])]"
  have r: "checkApiReferences ?api = Inr (Some (endpoint_error ''c''))"
    by (simp add: checkApiReferences_def jvalue_def get_json_def get_str_def jitems_def
        check_connector_def containsOid_def)
  have "well_typed ?api" by (simp add: well_typed_def items_of_def has_str_def jitems_def)
  from api_references_checked [OF _ this] r show ?thesis by simp
qed

end
