(* ===== verification/Config_Store.thy ===== *)
theory Config_Store
  imports Json_Model
begin

text \<open>
  \<^verbatim>\<open>shared/config/Config\<close> over \<^verbatim>\<open>shared/db/Database\<close>: the versioned running configuration.
  The database is a record of its tables with the working copy of an open transaction; the SQL
  statements of the source are the constructors of \<open>sql\<close> and \<open>sql_apply\<close> says what each does to the
  tables. Whether a statement succeeds is an argument (\<open>sql_outcome\<close>), so every error path is
  reached. The function-local statics of the source are the record \<open>config\<close>. Version numbers are
  \<open>nat\<close>: the column is a \<^verbatim>\<open>BIGINT\<close>, and an insert beyond its range is an outcome, not a wrap.
\<close>

subsection \<open>Tables and statements\<close>

datatype cfg_state = Pending | Active | Superseded

record cfg_row =
  r_version :: nat
  r_config :: json
  r_state :: cfg_state

record user_row =
  u_hash :: string
  u_salt :: string
  u_must_change :: bool

record tables =
  t_startup :: "json option"
  t_running :: "cfg_row list"
  t_users :: "(string \<times> user_row) list"

record db =
  d_tables :: tables
  d_open :: "tables option"

definition db_view :: "db \<Rightarrow> tables" where
  "db_view d = (case d_open d of None \<Rightarrow> d_tables d | Some t \<Rightarrow> t)"

text \<open>The operator \<^verbatim>\<open>||\<close> on \<^verbatim>\<open>jsonb\<close>: objects merge, anything else concatenates as arrays.\<close>

definition as_array :: "json \<Rightarrow> json list" where
  "as_array j = (case j of JArr xs \<Rightarrow> xs | _ \<Rightarrow> [j])"

definition jsonb_concat :: "json \<Rightarrow> json \<Rightarrow> json" where
  "jsonb_concat a b = (case (a, b) of
     (JObj xs, JObj ys) \<Rightarrow> JObj (AList.merge xs ys)
   | _ \<Rightarrow> JArr (as_array a @ as_array b))"

text \<open>The back-fill: each added scope is rebuilt from what is stored and what is added.\<close>

definition backfill_config :: "(string \<times> json) list \<Rightarrow> json \<Rightarrow> json" where
  "backfill_config adds cfg =
     jsonb_concat cfg (JObj (map (\<lambda>(k, v).
       (k, jsonb_concat (case jfind k cfg of None \<Rightarrow> JObj [] | Some w \<Rightarrow> w) v)) adds))"

datatype sql =
    SqlBegin | SqlCommit | SqlRollback
  | SqlSupersede | SqlInsertNext json | SqlUpsertStartup json | SqlSeedFirst json
  | SqlBackfill "(string \<times> json) list" | SqlSeedUser string string string

definition next_version :: "cfg_row list \<Rightarrow> nat" where
  "next_version rows = fold (\<lambda>r m. max (r_version r) m) rows 0 + 1"

fun sql_apply :: "sql \<Rightarrow> tables \<Rightarrow> tables" where
  "sql_apply SqlSupersede t = t\<lparr>t_running :=
     map (\<lambda>r. if r_state r = Active then r\<lparr>r_state := Superseded\<rparr> else r) (t_running t)\<rparr>"
| "sql_apply (SqlInsertNext j) t = t\<lparr>t_running := t_running t @
     [\<lparr>r_version = next_version (t_running t), r_config = j, r_state = Active\<rparr>]\<rparr>"
| "sql_apply (SqlUpsertStartup j) t = t\<lparr>t_startup := Some j\<rparr>"
| "sql_apply (SqlSeedFirst j) t =
     (if t_running t = [] then t\<lparr>t_running := [\<lparr>r_version = 1, r_config = j, r_state = Active\<rparr>]\<rparr> else t)"
| "sql_apply (SqlBackfill adds) t = t\<lparr>t_running :=
     map (\<lambda>r. if r_state r = Active then r\<lparr>r_config := backfill_config adds (r_config r)\<rparr> else r)
       (t_running t)\<rparr>"
| "sql_apply (SqlSeedUser name hash salt) t =
     (if map_of (t_users t) name = None
      then t\<lparr>t_users := t_users t @ [(name, \<lparr>u_hash = hash, u_salt = salt, u_must_change = True\<rparr>)]\<rparr> else t)"
| "sql_apply _ t = t"

text \<open>
  \<open>SqlLost b\<close>: the connection broke; \<open>b\<close> tells whether the server had carried the statement out
  before the reply was lost. An open transaction is gone either way.
\<close>

datatype sql_outcome = SqlOk | SqlRejected | SqlLost bool

definition db_effect :: "sql \<Rightarrow> db \<Rightarrow> db" where
  "db_effect q d = (case q of
     SqlBegin \<Rightarrow> d\<lparr>d_open := Some (db_view d)\<rparr>
   | SqlCommit \<Rightarrow> d\<lparr>d_tables := db_view d, d_open := None\<rparr>
   | SqlRollback \<Rightarrow> d\<lparr>d_open := None\<rparr>
   | _ \<Rightarrow> (case d_open d of
        None \<Rightarrow> d\<lparr>d_tables := sql_apply q (d_tables d)\<rparr>
      | Some t \<Rightarrow> d\<lparr>d_open := Some (sql_apply q t)\<rparr>))"

definition db_exec :: "sql_outcome \<Rightarrow> sql \<Rightarrow> db \<Rightarrow> bool \<times> db" where
  "db_exec oc q d = (case oc of
     SqlOk \<Rightarrow> (True, db_effect q d)
   | SqlRejected \<Rightarrow> (False, d)
   | SqlLost b \<Rightarrow> (False, (if b then db_effect q d else d)\<lparr>d_open := None\<rparr>))"

subsection \<open>Reading the running configuration\<close>

record config =
  cf_version :: nat
  cf_cache :: json
  cf_loaded :: bool
  cf_seeder :: bool
  cf_ready :: bool

definition config_init :: config where
  "config_init = \<lparr>cf_version = 0, cf_cache = JObj [], cf_loaded = False, cf_seeder = False, cf_ready = False\<rparr>"

text \<open>\<open>None\<close>: the file cannot be opened or parsed.\<close>

definition readStartupFile :: "json option \<Rightarrow> json" where
  "readStartupFile file = (case file of None \<Rightarrow> JObj [] | Some j \<Rightarrow> if is_object j then j else JObj [])"

record conn_params =
  cp_host :: string
  cp_port :: string
  cp_name :: string
  cp_user :: string
  cp_password :: string

definition default_params :: conn_params where
  "default_params = \<lparr>cp_host = ''127.0.0.1'', cp_port = ''5432'', cp_name = ''pretzel'',
     cp_user = ''pretzel'', cp_password = ''pretzel''\<rparr>"

fun digits :: "nat \<Rightarrow> string" where
  "digits n = (if n < 10 then [char_of (48 + n)] else digits (n div 10) @ [char_of (48 + n mod 10)])"

definition to_string :: "int \<Rightarrow> string" where
  "to_string i = (if i < 0 then CHR 0x2D # digits (nat (- i)) else digits (nat i))"

definition port_string :: "json \<Rightarrow> json_error + string" where
  "port_string p = (case p of JStr s \<Rightarrow> Inr s | _ \<Rightarrow> map_sum id to_string (get_int p))"

text \<open>
  The connection parameters from the startup file. The \<^verbatim>\<open>try\<close> block assigns one member after the
  other, so the members read before an exception stay assigned.
\<close>

definition assign :: "json_error + 'a \<Rightarrow> ('a \<Rightarrow> conn_params \<Rightarrow> conn_params) \<Rightarrow>
    conn_params \<times> bool \<Rightarrow> conn_params \<times> bool" where
  "assign r upd st = (case st of (p, go) \<Rightarrow>
     if \<not> go then (p, False)
     else case r of Inl e \<Rightarrow> (p, False) | Inr v \<Rightarrow> (upd v p, True))"

definition database_params :: "json \<Rightarrow> conn_params" where
  "database_params root =
     (case bind_err (jvalue get_json ''pretzel'' (JObj []) root) (jvalue get_json ''database'' (JObj [])) of
        Inl e \<Rightarrow> default_params
      | Inr db \<Rightarrow>
          if \<not> is_object db then default_params
          else
            fst (assign (case jfind ''port'' db of None \<Rightarrow> Inr (cp_port default_params)
                   | Some p \<Rightarrow> port_string p) (\<lambda>v. cp_port_update (\<lambda>_. v))
                (assign (jvalue get_str ''password'' (cp_password default_params) db) (\<lambda>v. cp_password_update (\<lambda>_. v))
                (assign (jvalue get_str ''user'' (cp_user default_params) db) (\<lambda>v. cp_user_update (\<lambda>_. v))
                (assign (jvalue get_str ''name'' (cp_name default_params) db) (\<lambda>v. cp_name_update (\<lambda>_. v))
                (assign (jvalue get_str ''host'' (cp_host default_params) db) (\<lambda>v. cp_host_update (\<lambda>_. v))
                  (default_params, True)))))))"

text \<open>\<open>connect\<close>: whether \<^verbatim>\<open>Database::connect\<close> succeeds with given parameters.\<close>

definition bootstrapDatabase :: "(conn_params \<Rightarrow> bool) \<Rightarrow> json option \<Rightarrow> config \<Rightarrow> bool \<times> config" where
  "bootstrapDatabase connect file c =
     (if cf_ready c then (True, c)
      else if \<not> connect (database_params (readStartupFile file)) then (False, c)
      else (True, c\<lparr>cf_ready := True\<rparr>))"

text \<open>\<^verbatim>\<open>WHERE state = 'active' ORDER BY version DESC LIMIT 1\<close>.\<close>

definition newest_active :: "cfg_row list \<Rightarrow> cfg_row option" where
  "newest_active rows =
     fold (\<lambda>r best. case best of None \<Rightarrow> Some r
         | Some b \<Rightarrow> if r_version b < r_version r then Some r else best)
       (filter (\<lambda>r. r_state r = Active) rows) None"

definition latestRunningConfig :: "cfg_row list \<Rightarrow> (nat \<times> json) option" where
  "latestRunningConfig rows =
     (case newest_active rows of None \<Rightarrow> None
      | Some r \<Rightarrow> if is_object (r_config r) then Some (r_version r, r_config r) else None)"

definition kSeedWaitMaxAttempts :: nat where
  "kSeedWaitMaxAttempts = 30"

text \<open>What each query sees, the first and then one per waiting attempt (empty when it fails).\<close>

fun first_config :: "cfg_row list list \<Rightarrow> (nat \<times> json) option" where
  "first_config [] = None"
| "first_config (rows # rest) =
     (case latestRunningConfig rows of Some vc \<Rightarrow> Some vc | None \<Rightarrow> first_config rest)"

definition loadRunningConfigRoot :: "(conn_params \<Rightarrow> bool) \<Rightarrow> json option \<Rightarrow> cfg_row list list \<Rightarrow> config \<Rightarrow>
    json \<times> config" where
  "loadRunningConfigRoot connect file queries c =
     (let (up, c) = bootstrapDatabase connect file (c\<lparr>cf_version := 0\<rparr>) in
      if \<not> up then (readStartupFile file, c)
      else
        case first_config (take (if cf_seeder c then 1 else 1 + kSeedWaitMaxAttempts) queries) of
          Some (v, root) \<Rightarrow> (root, c\<lparr>cf_version := v\<rparr>)
        | None \<Rightarrow> (readStartupFile file, c))"

definition cachedRunningConfig :: "(conn_params \<Rightarrow> bool) \<Rightarrow> json option \<Rightarrow> cfg_row list list \<Rightarrow> config \<Rightarrow> config" where
  "cachedRunningConfig connect file queries c =
     (if cf_loaded c then c
      else let (root, c) = loadRunningConfigRoot connect file queries c
           in c\<lparr>cf_cache := root, cf_loaded := True\<rparr>)"

definition object_member :: "string \<Rightarrow> json \<Rightarrow> json" where
  "object_member k j = (case jfind k j of Some v \<Rightarrow> if is_object v then v else JObj [] | None \<Rightarrow> JObj [])"

text \<open>\<^verbatim>\<open>Config::scopeConfig\<close>, \<^verbatim>\<open>Config::section\<close> and \<^verbatim>\<open>Config::runningConfigVersion\<close> on the cache.\<close>

definition scopeConfig :: "string \<Rightarrow> config \<Rightarrow> json" where
  "scopeConfig scope c = object_member scope (cf_cache c)"

definition cfg_section :: "string \<Rightarrow> string \<Rightarrow> config \<Rightarrow> json" where
  "cfg_section scope domain c = object_member domain (scopeConfig scope c)"

definition runningConfigVersion :: "(conn_params \<Rightarrow> bool) \<Rightarrow> json option \<Rightarrow> cfg_row list list \<Rightarrow> config \<Rightarrow> nat \<times> config" where
  "runningConfigVersion connect file queries c =
     (let c = cachedRunningConfig connect file queries c in (cf_version c, c))"

definition invalidateConfigCache :: "config \<Rightarrow> config" where
  "invalidateConfigCache c = c\<lparr>cf_loaded := False\<rparr>"

subsection \<open>Writing it\<close>

definition erase_member :: "string \<Rightarrow> string \<Rightarrow> json \<Rightarrow> json" where
  "erase_member domain key s = (case s of
     JObj kvs \<Rightarrow> (case map_of kvs domain of
        Some (JObj d) \<Rightarrow> JObj (AList.update domain (JObj (AList.delete key d)) kvs)
      | _ \<Rightarrow> s)
   | _ \<Rightarrow> s)"

definition redactSecretsForPersist :: "json \<Rightarrow> json" where
  "redactSecretsForPersist root = (case root of
     JObj kvs \<Rightarrow> (case map_of kvs ''pretzel'' of
        Some (JObj s) \<Rightarrow>
          JObj (AList.update ''pretzel''
            (erase_member ''console'' ''admin'' (erase_member ''database'' ''password'' (JObj s))) kvs)
      | _ \<Rightarrow> root)
   | _ \<Rightarrow> root)"

definition is_comment :: "string \<Rightarrow> bool" where
  "is_comment k \<longleftrightarrow> take 2 k = ''//''"

definition missing_domains :: "json \<Rightarrow> (string \<times> json) list \<Rightarrow> (string \<times> json) list" where
  "missing_domains activeScope domains =
     filter (\<lambda>(k, v). \<not> is_comment k \<and> \<not> jcontains k activeScope) domains"

definition scope_addition :: "json \<Rightarrow> string \<times> json \<Rightarrow> (string \<times> json) option" where
  "scope_addition activeRoot = (\<lambda>(k, v).
     if is_comment k then None
     else case jfind k activeRoot of
       None \<Rightarrow> Some (k, v)
     | Some activeScope \<Rightarrow>
         if \<not> is_object activeScope \<or> \<not> is_object v then None
         else let missing = missing_domains activeScope (jfields v)
              in if missing = [] then None else Some (k, JObj missing))"

definition backfill_additions :: "json \<Rightarrow> json \<Rightarrow> (string \<times> json) list" where
  "backfill_additions activeRoot startupRoot =
     (if is_object activeRoot \<and> is_object startupRoot
      then List.map_filter (scope_addition activeRoot) (jfields startupRoot) else [])"

record seed_env =
  se_connect :: "conn_params \<Rightarrow> bool"
  se_file :: "json option"
  se_upsert :: sql_outcome
  se_first :: sql_outcome
  se_query :: bool
  se_later :: "cfg_row list list"
  se_backfill :: sql_outcome
  se_salt :: string
  se_hash :: "string \<Rightarrow> string \<Rightarrow> string"
  se_user :: sql_outcome

definition seedStore :: "seed_env \<Rightarrow> db \<Rightarrow> config \<Rightarrow> bool \<times> db \<times> config" where
  "seedStore e d c =
     (let (up, c) = bootstrapDatabase (se_connect e) (se_file e) c in
      if \<not> up then (False, d, c)
      else
        let startup = readStartupFile (se_file e) in
        if jfields startup = [] then (False, d, c)
        else
          let persist = redactSecretsForPersist startup;
              (_, d) = db_exec (se_upsert e) (SqlUpsertStartup persist) d;
              (seeded, d) = db_exec (se_first e) (SqlSeedFirst persist) d in
          if \<not> seeded then (False, d, c)
          else
            let (activeRoot, c) = loadRunningConfigRoot (se_connect e) (se_file e)
                  ((if se_query e then t_running (db_view d) else []) # se_later e) c;
                additions = backfill_additions activeRoot (redactSecretsForPersist startup);
                d = (if additions \<noteq> [] then snd (db_exec (se_backfill e) (SqlBackfill additions) d) else d);
                hash = (if se_salt e = [] then [] else se_hash e ''admin'' (se_salt e));
                d = (if hash = [] then d
                     else snd (db_exec (se_user e) (SqlSeedUser ''admin'' hash (se_salt e)) d))
            in (True, d, c))"

text \<open>\<open>schema\<close> stands for \<^verbatim>\<open>Database::ensureSchema\<close>, whose DDL runs in the server.\<close>

definition preflight :: "(tables \<Rightarrow> bool \<times> tables) \<Rightarrow> seed_env \<Rightarrow> db \<Rightarrow> config \<Rightarrow> bool \<times> db \<times> config" where
  "preflight schema e d c =
     (let (up, c) = bootstrapDatabase (se_connect e) (se_file e) (c\<lparr>cf_seeder := True\<rparr>) in
      if \<not> up then (False, d, c)
      else
        let (ok, t) = schema (d_tables d); d = d\<lparr>d_tables := t\<rparr> in
        if \<not> ok then (False, d, c) else seedStore e d c)"

record commit_env =
  ce_connect :: "conn_params \<Rightarrow> bool"
  ce_file :: "json option"
  ce_begin :: sql_outcome
  ce_supersede :: sql_outcome
  ce_insert :: sql_outcome
  ce_commit :: sql_outcome
  ce_rollback :: sql_outcome

definition commitConfig :: "commit_env \<Rightarrow> json \<Rightarrow> db \<Rightarrow> config \<Rightarrow> bool \<times> db \<times> config" where
  "commitConfig e fullRoot d c =
     (if \<not> is_object fullRoot then (False, d, c)
      else
        let (up, c) = bootstrapDatabase (ce_connect e) (ce_file e) c in
        if \<not> up then (False, d, c)
        else
          let (begun, d) = db_exec (ce_begin e) SqlBegin d in
          if \<not> begun then (False, d, c)
          else
            let (ok, d) = db_exec (ce_supersede e) SqlSupersede d;
                (ok, d) = (if ok then db_exec (ce_insert e) (SqlInsertNext (redactSecretsForPersist fullRoot)) d
                           else (False, d));
                (ok, d) = (if ok then db_exec (ce_commit e) SqlCommit d else (False, d))
            in if \<not> ok then (False, snd (db_exec (ce_rollback e) SqlRollback d), c)
               else (True, d, invalidateConfigCache c))"

subsection \<open>Version history\<close>

definition active_rows :: "cfg_row list \<Rightarrow> cfg_row list" where
  "active_rows rows = filter (\<lambda>r. r_state r = Active) rows"

text \<open>
  A history: version numbers are distinct and positive, a non-empty history has exactly one active
  row, and that row has the highest version.
\<close>

definition history_ok :: "cfg_row list \<Rightarrow> bool" where
  "history_ok rows \<longleftrightarrow> distinct (map r_version rows) \<and> list_all (\<lambda>r. 0 < r_version r) rows \<and>
     (rows = [] \<or> (\<exists>r \<in> set rows. active_rows rows = [r] \<and> list_all (\<lambda>r'. r_version r' \<le> r_version r) rows))"

lemma fold_max_ge: "m \<le> fold (\<lambda>r m. max (r_version r) m) rows m"
proof (induction rows arbitrary: m)
  case (Cons r rows)
  have "m \<le> max (r_version r) m" by simp
  also have "\<dots> \<le> fold (\<lambda>r m. max (r_version r) m) rows (max (r_version r) m)" by (rule Cons.IH)
  finally show ?case by simp
qed simp

lemma fold_max_member: "r \<in> set rows \<Longrightarrow> r_version r \<le> fold (\<lambda>r m. max (r_version r) m) rows m"
proof (induction rows arbitrary: m)
  case (Cons a rows)
  show ?case
  proof (cases "r = a")
    case True
    have "r_version a \<le> max (r_version a) m" by simp
    also have "\<dots> \<le> fold (\<lambda>r m. max (r_version r) m) rows (max (r_version a) m)" by (rule fold_max_ge)
    finally show ?thesis using True by simp
  qed (use Cons in auto)
qed simp

lemma next_version_greater: "r \<in> set rows \<Longrightarrow> r_version r < next_version rows"
  using fold_max_member [of r rows 0] by (simp add: next_version_def)

text \<open>The number a commit takes: one above the highest in the table, or 1 when there is none.\<close>

lemma next_version_Max: "next_version rows = Max (insert 0 (r_version ` set rows)) + 1"
proof -
  have "fold (\<lambda>r m. max (r_version r) m) rows 0 = fold max (map r_version rows) 0"
    by (simp add: fold_map comp_def)
  also have "\<dots> = Max (set (0 # map r_version rows))" by (rule Max.set_eq_fold [symmetric])
  finally show ?thesis by (simp add: next_version_def)
qed

lemma newest_active_single:
  "active_rows rows = [r] \<Longrightarrow> newest_active rows = Some r"
  by (simp add: newest_active_def active_rows_def)

text \<open>What a commit that goes through leaves in the table.\<close>

definition committed :: "json \<Rightarrow> tables \<Rightarrow> tables" where
  "committed root t = sql_apply (SqlInsertNext (redactSecretsForPersist root)) (sql_apply SqlSupersede t)"

definition superseded :: "cfg_row \<Rightarrow> cfg_row" where
  "superseded r = (if r_state r = Active then r\<lparr>r_state := Superseded\<rparr> else r)"

lemma superseded_simps [simp]:
  "r_version (superseded r) = r_version r" "r_config (superseded r) = r_config r"
  "r_state (superseded r) = Active \<longleftrightarrow> False"
  by (simp_all add: superseded_def)

lemma committed_running:
  "t_running (committed root t) = map superseded (t_running t) @
     [\<lparr>r_version = next_version (map superseded (t_running t)),
       r_config = redactSecretsForPersist root, r_state = Active\<rparr>]"
  by (simp add: committed_def superseded_def [abs_def])

lemma history_committed:
  assumes "history_ok (t_running t)"
  shows "history_ok (t_running (committed root t))"
proof -
  let ?old = "map superseded (t_running t)"
  let ?new = "\<lparr>r_version = next_version ?old, r_config = redactSecretsForPersist root, r_state = Active\<rparr>"
  have v: "map r_version ?old = map r_version (t_running t)" by simp
  have lt: "r_version r < next_version ?old" if "r \<in> set ?old" for r
    using that by (rule next_version_greater)
  have "distinct (map r_version (?old @ [?new]))"
    using assms lt unfolding map_append v by (fastforce simp: history_ok_def)
  moreover have "active_rows (?old @ [?new]) = [?new]"
    by (simp add: active_rows_def filter_empty_conv)
  moreover have "list_all (\<lambda>r'. r_version r' \<le> r_version ?new) (?old @ [?new])"
    using lt by (fastforce simp: list_all_iff less_imp_le)
  moreover have "list_all (\<lambda>r. 0 < r_version r) (?old @ [?new])"
    using assms by (auto simp: history_ok_def list_all_iff next_version_def)
  ultimately show ?thesis unfolding committed_running history_ok_def by auto
qed

lemma latest_committed:
  assumes "is_object root"
  shows "latestRunningConfig (t_running (committed root t)) =
    Some (next_version (map superseded (t_running t)), redactSecretsForPersist root)"
proof -
  have "active_rows (t_running (committed root t)) =
      [\<lparr>r_version = next_version (map superseded (t_running t)),
        r_config = redactSecretsForPersist root, r_state = Active\<rparr>]"
    by (simp add: committed_running active_rows_def filter_empty_conv)
  moreover have "is_object (redactSecretsForPersist root)"
    using assms by (cases root) (auto simp: redactSecretsForPersist_def split: option.split json.split)
  ultimately show ?thesis by (simp add: latestRunningConfig_def newest_active_single)
qed

text \<open>The outcomes of the statements decide a commit completely.\<close>

lemma exec_begin:
  "d_open d = None \<Longrightarrow> db_exec oc SqlBegin d = (ok, d') \<Longrightarrow>
     d_tables d' = d_tables d \<and> (ok \<longrightarrow> d_open d' = Some (d_tables d))"
  by (cases oc) (auto simp: db_exec_def db_effect_def db_view_def)

lemma exec_in_transaction:
  "d_open d = Some t \<Longrightarrow> q = SqlSupersede \<or> q = SqlInsertNext j \<Longrightarrow> db_exec oc q d = (ok, d') \<Longrightarrow>
     d_tables d' = d_tables d \<and> (ok \<longrightarrow> d_open d' = Some (sql_apply q t))"
  by (cases oc) (auto simp: db_exec_def db_effect_def)

lemma exec_commit:
  "d_open d = Some t \<Longrightarrow> db_exec oc SqlCommit d = (ok, d') \<Longrightarrow>
     (ok \<longrightarrow> d_tables d' = t \<and> d_open d' = None) \<and>
     (\<not> ok \<longrightarrow> d_tables d' = d_tables d \<or> d_tables d' = t \<and> oc = SqlLost True)"
  by (cases oc) (auto simp: db_exec_def db_effect_def db_view_def split: if_splits)

lemma exec_rollback: "d_tables (snd (db_exec oc SqlRollback d)) = d_tables d"
  by (cases oc) (auto simp: db_exec_def db_effect_def)

lemma commit_cases:
  assumes "d_open d = None" and "commitConfig e root d c = (ok, d', c')"
  shows "(ok \<and> is_object root \<and> d_tables d' = committed root (d_tables d) \<and> d_open d' = None \<and> \<not> cf_loaded c') \<or>
    (\<not> ok \<and> (d_tables d' = d_tables d \<or>
      d_tables d' = committed root (d_tables d) \<and> is_object root \<and> ce_commit e = SqlLost True) \<and>
      cf_loaded c' = cf_loaded c \<and> cf_cache c' = cf_cache c \<and> cf_version c' = cf_version c)"
proof -
  obtain up c1 where up: "bootstrapDatabase (ce_connect e) (ce_file e) c = (up, c1)" by fastforce
  have c1: "cf_loaded c1 = cf_loaded c \<and> cf_cache c1 = cf_cache c \<and> cf_version c1 = cf_version c"
    using up by (auto simp: bootstrapDatabase_def split: if_splits)
  obtain b0 d0 where e0: "db_exec (ce_begin e) SqlBegin d = (b0, d0)" by fastforce
  note s0 = exec_begin [OF assms(1) e0]
  obtain b1 d1 where e1: "db_exec (ce_supersede e) SqlSupersede d0 = (b1, d1)" by fastforce
  have s1: "b0 \<Longrightarrow> d_tables d1 = d_tables d \<and> (b1 \<longrightarrow> d_open d1 = Some (sql_apply SqlSupersede (d_tables d)))"
    using s0 exec_in_transaction [OF _ disjI1 [OF refl] e1] by auto
  let ?ins = "SqlInsertNext (redactSecretsForPersist root)"
  obtain b2 d2 where e2: "db_exec (ce_insert e) ?ins d1 = (b2, d2)" by fastforce
  have s2: "b0 \<Longrightarrow> b1 \<Longrightarrow> d_tables d2 = d_tables d \<and> (b2 \<longrightarrow> d_open d2 = Some (committed root (d_tables d)))"
    using s1 exec_in_transaction [OF _ disjI2 [OF refl] e2] by (auto simp: committed_def)
  obtain b3 d3 where e3: "db_exec (ce_commit e) SqlCommit d2 = (b3, d3)" by fastforce
  have s3: "b0 \<Longrightarrow> b1 \<Longrightarrow> b2 \<Longrightarrow> (b3 \<longrightarrow> d_tables d3 = committed root (d_tables d) \<and> d_open d3 = None) \<and>
      (\<not> b3 \<longrightarrow> d_tables d3 = d_tables d \<or> d_tables d3 = committed root (d_tables d) \<and> ce_commit e = SqlLost True)"
    using s2 exec_commit [OF _ e3] by auto
  let ?rb = "\<lambda>d. snd (db_exec (ce_rollback e) SqlRollback d)"
  have "commitConfig e root d c =
      (if \<not> is_object root then (False, d, c) else if \<not> up then (False, d, c1)
       else if \<not> b0 then (False, d0, c1) else if \<not> b1 then (False, ?rb d1, c1)
       else if \<not> b2 then (False, ?rb d2, c1) else if \<not> b3 then (False, ?rb d3, c1)
       else (True, d3, invalidateConfigCache c1))"
    by (simp add: commitConfig_def up e0 e1 e2 e3)
  with assms(2) have "(ok, d', c') = \<dots>" by simp
  then show ?thesis
    using c1 s0 s1 s2 s3 exec_rollback [of "ce_rollback e"]
    by (auto simp: invalidateConfigCache_def split: if_splits)
qed

subsection \<open>Secrets\<close>

definition secret_free :: "json \<Rightarrow> bool" where
  "secret_free root \<longleftrightarrow>
     (case jfind ''pretzel'' root of None \<Rightarrow> True | Some s \<Rightarrow>
        (case jfind ''database'' s of None \<Rightarrow> True | Some d \<Rightarrow> \<not> jcontains ''password'' d) \<and>
        (case jfind ''console'' s of None \<Rightarrow> True | Some d \<Rightarrow> \<not> jcontains ''admin'' d))"

lemma erase_member_find:
  "jfind k (erase_member domain key s) =
     (if k = domain then
        (case jfind domain s of Some (JObj d) \<Rightarrow> Some (JObj (AList.delete key d)) | x \<Rightarrow> x)
      else jfind k s)"
  by (cases s) (auto simp: erase_member_def update_conv' split: option.split json.split)

lemma erase_member_gone:
  "jfind domain (erase_member domain key s) = Some d \<Longrightarrow> \<not> jcontains key d"
  by (auto simp: erase_member_find jcontains_def map_of_delete split: option.splits json.splits)

lemma redact_find:
  "jfind k (redactSecretsForPersist root) =
     (if k = ''pretzel'' then
        (case jfind k root of
           Some (JObj s) \<Rightarrow> Some (erase_member ''console'' ''admin'' (erase_member ''database'' ''password'' (JObj s)))
         | x \<Rightarrow> x)
      else jfind k root)"
  by (cases root) (auto simp: redactSecretsForPersist_def update_conv' split: option.split json.split)

lemma redact_secret_free: "secret_free (redactSecretsForPersist root)"
proof (cases "\<exists>s. jfind ''pretzel'' root = Some (JObj s)")
  case True
  then obtain s where s: "jfind ''pretzel'' root = Some (JObj s)" by blast
  let ?s = "erase_member ''console'' ''admin'' (erase_member ''database'' ''password'' (JObj s))"
  have "\<not> jcontains ''password'' d" if "jfind ''database'' ?s = Some d" for d
    using that erase_member_gone [of "''database''" "''password''" "JObj s" d]
    by (simp add: erase_member_find)
  moreover have "\<not> jcontains ''admin'' d" if "jfind ''console'' ?s = Some d" for d
    using that by (rule erase_member_gone)
  ultimately show ?thesis unfolding secret_free_def redact_find s by (simp split: option.split)
next
  case False
  then show ?thesis
    unfolding secret_free_def redact_find
    by (cases "jfind ''pretzel'' root") (auto split: json.split)
qed

subsection \<open>The back-fill\<close>

lemma jsonb_concat_object:
  "is_object a \<Longrightarrow> is_object b \<Longrightarrow>
     is_object (jsonb_concat a b) \<and>
     jfind k (jsonb_concat a b) = (case jfind k b of Some v \<Rightarrow> Some v | None \<Rightarrow> jfind k a)"
  by (cases a; cases b) (simp_all add: jsonb_concat_def merge_conv' map_add_def split: option.split)

lemma map_of_map_keys: "map_of (map (\<lambda>(k, v). (k, f k v)) xs) k = map_option (f k) (map_of xs k)"
  by (induction xs) auto

lemma backfill_find:
  assumes "is_object cfg"
  shows "is_object (backfill_config adds cfg)"
    and "jfind k (backfill_config adds cfg) =
      (case map_of adds k of None \<Rightarrow> jfind k cfg
       | Some v \<Rightarrow> Some (jsonb_concat (case jfind k cfg of None \<Rightarrow> JObj [] | Some w \<Rightarrow> w) v))"
  using jsonb_concat_object [OF assms] map_of_map_keys
    [of "\<lambda>k v. jsonb_concat (case jfind k cfg of None \<Rightarrow> JObj [] | Some w \<Rightarrow> w) v" adds k]
  by (simp_all add: backfill_config_def split: option.split)

lemma map_of_map_filter:
  "distinct (map fst xs) \<Longrightarrow> (\<And>k v k' v'. f (k, v) = Some (k', v') \<Longrightarrow> k' = k) \<Longrightarrow>
     map_of (List.map_filter f xs) k =
       (case map_of xs k of None \<Rightarrow> None | Some v \<Rightarrow> map_option snd (f (k, v)))"
proof (induction xs)
  case (Cons x xs)
  obtain a b where x: "x = (a, b)" by fastforce
  show ?case
  proof (cases "f (a, b)")
    case None
    with Cons x have "a \<notin> fst ` set xs" by simp
    then have "map_of xs a = None" by (simp add: map_of_eq_None_iff)
    then show ?thesis using Cons x None by (auto simp: List.map_filter_simps)
  next
    case (Some y)
    then obtain c where "f (a, b) = Some (a, c)" using Cons.prems(2) by (cases y) blast
    then show ?thesis using Cons x by (auto simp: List.map_filter_simps)
  qed
qed (simp add: List.map_filter_simps)

lemma scope_addition_key: "scope_addition active (k, v) = Some (k', v') \<Longrightarrow> k' = k"
  by (auto simp: scope_addition_def Let_def split: if_splits option.splits)

lemma additions_find:
  assumes "is_object active" and "is_object startup" and "distinct (map fst (jfields startup))"
  shows "map_of (backfill_additions active startup) k =
    (case jfind k startup of None \<Rightarrow> None | Some v \<Rightarrow> map_option snd (scope_addition active (k, v)))"
proof -
  have "jfind k startup = map_of (jfields startup) k"
    using assms(2) by (cases startup) (simp_all add: jfields_def)
  then show ?thesis
    using assms map_of_map_filter [OF assms(3), of "scope_addition active" k, OF scope_addition_key]
    by (simp add: backfill_additions_def)
qed

lemma additions_SomeD:
  assumes "is_object active" and "is_object startup" and "distinct (map fst (jfields startup))"
    and "map_of (backfill_additions active startup) k = Some v"
  shows "\<exists>w. jfind k startup = Some w \<and> scope_addition active (k, w) = Some (k, v)"
proof -
  obtain w k' where "jfind k startup = Some w" "scope_addition active (k, w) = Some (k', v)"
    using assms(4) by (auto simp: additions_find [OF assms(1-3)] split: option.splits)
  then show ?thesis using scope_addition_key by blast
qed

lemma missing_find:
  "map_of (missing_domains active fs) k =
     (if is_comment k \<or> jcontains k active then None else map_of fs k)"
  by (induction fs) (auto simp: missing_domains_def)

text \<open>What the back-fill makes of one scope and domain.\<close>

definition domain_of :: "string \<Rightarrow> string \<Rightarrow> json \<Rightarrow> json option" where
  "domain_of scope domain root = Option.bind (jfind scope root) (jfind domain)"

lemma backfill_keeps_domain:
  assumes "is_object active" and "is_object startup" and "distinct (map fst (jfields startup))"
    and "domain_of scope domain active = Some v"
  shows "domain_of scope domain (backfill_config (backfill_additions active startup) active) = Some v"
proof -
  obtain a where a: "jfind scope active = Some a" "jfind domain a = Some v"
    using assms(4) by (auto simp: domain_of_def bind_eq_Some_conv)
  have obj: "is_object a" using a(2) by (cases a) simp_all
  show ?thesis
  proof (cases "map_of (backfill_additions active startup) scope")
    case None
    then show ?thesis using a by (simp add: domain_of_def backfill_find [OF assms(1)])
  next
    case (Some add)
    then obtain w where "jfind scope startup = Some w" "scope_addition active (scope, w) = Some (scope, add)"
      using additions_SomeD [OF assms(1-3)] by blast
    then have add: "add = JObj (missing_domains a (jfields w))"
      using a(1) by (auto simp: scope_addition_def Let_def split: if_splits)
    have "map_of (missing_domains a (jfields w)) domain = None"
      using a(2) by (simp add: missing_find jcontains_def)
    then have "jfind domain (jsonb_concat a add) = Some v"
      using jsonb_concat_object [OF obj, of add domain] a(2) by (simp add: add)
    then show ?thesis using a(1) Some by (simp add: domain_of_def backfill_find [OF assms(1)])
  qed
qed

lemma backfill_adds_domain:
  assumes "is_object active" and "is_object startup" and "distinct (map fst (jfields startup))"
    and "domain_of scope domain startup = Some v" and "domain_of scope domain active = None"
    and "\<not> is_comment scope" and "\<not> is_comment domain"
    and "\<And>a. jfind scope active = Some a \<Longrightarrow> is_object a"
  shows "domain_of scope domain (backfill_config (backfill_additions active startup) active) = Some v"
proof -
  obtain w where w: "jfind scope startup = Some w" "jfind domain w = Some v"
    using assms(4) by (auto simp: domain_of_def bind_eq_Some_conv)
  have obj: "is_object w" using w(2) by (cases w) simp_all
  show ?thesis
  proof (cases "jfind scope active")
    case None
    then have "map_of (backfill_additions active startup) scope = Some w"
      using w assms(6) by (simp add: additions_find [OF assms(1-3)] scope_addition_def)
    moreover have "jfind domain (jsonb_concat (JObj []) w) = Some v"
      using jsonb_concat_object [of "JObj []" w domain] obj w(2) by simp
    ultimately show ?thesis using None by (simp add: domain_of_def backfill_find [OF assms(1)])
  next
    case (Some a)
    have a: "is_object a" "jfind domain a = None"
      using assms(5,8) Some by (simp_all add: domain_of_def)
    have "jfind domain w = map_of (jfields w) domain" using obj by (cases w) (simp_all add: jfields_def)
    then have m: "map_of (missing_domains a (jfields w)) domain = Some v"
      using w(2) a(2) assms(7) by (simp add: missing_find jcontains_def)
    then have "missing_domains a (jfields w) \<noteq> []" by auto
    then have "map_of (backfill_additions active startup) scope = Some (JObj (missing_domains a (jfields w)))"
      using w Some a(1) obj assms(6)
      by (simp add: additions_find [OF assms(1-3)] scope_addition_def)
    moreover have "jfind domain (jsonb_concat a (JObj (missing_domains a (jfields w)))) = Some v"
      using jsonb_concat_object [OF a(1), of "JObj (missing_domains a (jfields w))" domain] m by simp
    ultimately show ?thesis using Some by (simp add: domain_of_def backfill_find [OF assms(1)])
  qed
qed

lemma backfill_nothing_new:
  assumes "is_object active" and "is_object startup" and "distinct (map fst (jfields startup))"
    and "domain_of scope domain startup = None" and "domain_of scope domain active = None"
  shows "domain_of scope domain (backfill_config (backfill_additions active startup) active) = None"
proof (cases "map_of (backfill_additions active startup) scope")
  case None
  then show ?thesis using assms(5) by (simp add: domain_of_def backfill_find [OF assms(1)])
next
  case (Some add)
  then obtain w where w: "jfind scope startup = Some w" "scope_addition active (scope, w) = Some (scope, add)"
    using additions_SomeD [OF assms(1-3)] by blast
  have wd: "jfind domain w = None" using assms(4) w(1) by (simp add: domain_of_def)
  have "jfind domain (jsonb_concat (case jfind scope active of None \<Rightarrow> JObj [] | Some a \<Rightarrow> a) add) = None"
  proof (cases "jfind scope active")
    case None
    then have "add = w" using w(2) by (auto simp: scope_addition_def split: if_splits)
    then show ?thesis using None wd
      by (cases w) (simp_all add: jsonb_concat_def merge_conv' map_add_def)
  next
    case (Some a)
    then have add: "add = JObj (missing_domains a (jfields w))" and a: "is_object a" "is_object w"
      using w(2) by (auto simp: scope_addition_def Let_def split: if_splits)
    have "map_of (jfields w) domain = None" using wd a(2) by (cases w) (simp_all add: jfields_def)
    then have "map_of (missing_domains a (jfields w)) domain = None" by (simp add: missing_find)
    then show ?thesis
      using Some jsonb_concat_object [OF a(1), of add domain] assms(5) by (simp add: add domain_of_def)
  qed
  then show ?thesis using Some by (simp add: domain_of_def backfill_find [OF assms(1)])
qed

subsection \<open>Secrets through the back-fill\<close>

definition scope_secret_free :: "json \<Rightarrow> bool" where
  "scope_secret_free s \<longleftrightarrow>
     (case jfind ''database'' s of None \<Rightarrow> True | Some d \<Rightarrow> \<not> jcontains ''password'' d) \<and>
     (case jfind ''console'' s of None \<Rightarrow> True | Some d \<Rightarrow> \<not> jcontains ''admin'' d)"

lemma secret_free_iff:
  "secret_free root \<longleftrightarrow> (case jfind ''pretzel'' root of None \<Rightarrow> True | Some s \<Rightarrow> scope_secret_free s)"
  by (simp add: secret_free_def scope_secret_free_def split: option.split)

lemma jsonb_concat_find:
  "jfind k (jsonb_concat a b) = Some v \<Longrightarrow> jfind k b = Some v \<or> jfind k a = Some v"
  by (cases a; cases b) (auto simp: jsonb_concat_def merge_conv' map_add_Some_iff)

lemma scope_secret_free_concat:
  assumes "scope_secret_free a" and "scope_secret_free b"
  shows "scope_secret_free (jsonb_concat a b)"
  using assms jsonb_concat_find [of "''database''" a b] jsonb_concat_find [of "''console''" a b]
  by (auto simp: scope_secret_free_def split: option.splits)

lemma scope_secret_free_missing:
  "scope_secret_free w \<Longrightarrow> scope_secret_free (JObj (missing_domains a (jfields w)))"
  by (cases w) (simp_all add: scope_secret_free_def missing_find jfields_def split: option.splits)

lemma backfill_find_Some:
  "jfind k (backfill_config adds cfg) = Some s \<Longrightarrow>
     jfind k cfg = Some s \<or>
     (\<exists>v. map_of adds k = Some v \<and> s = jsonb_concat (case jfind k cfg of None \<Rightarrow> JObj [] | Some w \<Rightarrow> w) v)"
  unfolding backfill_config_def
  by (drule jsonb_concat_find)
    (auto simp: map_of_map_keys [of "\<lambda>k v. jsonb_concat (case jfind k cfg of None \<Rightarrow> JObj [] | Some w \<Rightarrow> w) v"])

lemma redact_keys: "map fst (jfields (redactSecretsForPersist root)) = map fst (jfields root)"
  by (cases root) (auto simp: redactSecretsForPersist_def jfields_def update_keys split: option.split json.split
      dest!: map_of_SomeD intro: rev_image_eqI)

lemma redact_object: "is_object (redactSecretsForPersist root) = is_object root"
  by (cases root) (auto simp: redactSecretsForPersist_def split: option.split json.split)

lemma secret_free_backfill:
  assumes "secret_free cfg" and "distinct (map fst (jfields startup))"
  shows "secret_free (backfill_config (backfill_additions active (redactSecretsForPersist startup)) cfg)"
proof -
  let ?adds = "backfill_additions active (redactSecretsForPersist startup)"
  have add: "scope_secret_free v" if found: "map_of ?adds ''pretzel'' = Some v" for v
  proof -
    have obj: "is_object active" "is_object (redactSecretsForPersist startup)"
      using found by (auto simp: backfill_additions_def split: if_splits)
    have "distinct (map fst (jfields (redactSecretsForPersist startup)))"
      using assms(2) by (simp only: redact_keys)
    then obtain w where w: "jfind ''pretzel'' (redactSecretsForPersist startup) = Some w"
      "scope_addition active (''pretzel'', w) = Some (''pretzel'', v)"
      using additions_SomeD [OF obj _ found] by blast
    have "scope_secret_free w" using redact_secret_free [of startup] w(1) by (simp add: secret_free_iff)
    then show ?thesis
      using w(2) scope_secret_free_missing
      by (auto simp: scope_addition_def Let_def split: if_splits option.splits)
  qed
  have "scope_secret_free (case jfind ''pretzel'' cfg of None \<Rightarrow> JObj [] | Some w \<Rightarrow> w)"
    using assms(1) by (auto simp: secret_free_iff scope_secret_free_def split: option.splits)
  then have "scope_secret_free s" if "jfind ''pretzel'' (backfill_config ?adds cfg) = Some s" for s
    using backfill_find_Some [OF that] assms(1) add scope_secret_free_concat
    by (auto simp: secret_free_iff)
  then show ?thesis by (simp add: secret_free_iff split: option.split)
qed

definition store_secret_free :: "tables \<Rightarrow> bool" where
  "store_secret_free t \<longleftrightarrow> list_all (\<lambda>r. secret_free (r_config r)) (t_running t) \<and>
     (case t_startup t of None \<Rightarrow> True | Some j \<Rightarrow> secret_free j)"

definition sql_secret_free :: "sql \<Rightarrow> bool" where
  "sql_secret_free q \<longleftrightarrow> (case q of
     SqlInsertNext j \<Rightarrow> secret_free j | SqlUpsertStartup j \<Rightarrow> secret_free j | SqlSeedFirst j \<Rightarrow> secret_free j
   | SqlBackfill adds \<Rightarrow> (\<exists>active startup. distinct (map fst (jfields startup)) \<and>
       adds = backfill_additions active (redactSecretsForPersist startup))
   | _ \<Rightarrow> True)"

lemma store_secret_free_apply:
  "store_secret_free t \<Longrightarrow> sql_secret_free q \<Longrightarrow> store_secret_free (sql_apply q t)"
  by (cases q) (auto simp: store_secret_free_def sql_secret_free_def list_all_iff secret_free_backfill
      split: option.splits)

lemma store_secret_free_exec:
  assumes "d_open d = None" and "store_secret_free (d_tables d)" and "sql_secret_free q"
    and "q \<notin> {SqlBegin, SqlCommit, SqlRollback}"
  shows "d_open (snd (db_exec oc q d)) = None \<and> store_secret_free (d_tables (snd (db_exec oc q d)))"
  using assms store_secret_free_apply [OF assms(2,3)]
  by (cases oc) (auto simp: db_exec_def db_effect_def split: sql.splits)

subsection \<open>Seeding and the history\<close>

definition same_history :: "cfg_row list \<Rightarrow> cfg_row list \<Rightarrow> bool" where
  "same_history rows rows' \<longleftrightarrow> rows = [] \<or>
     map r_version rows' = map r_version rows \<and> map r_state rows' = map r_state rows"

text \<open>The statements of \<open>seedStore\<close> after the connection is up, as one chain.\<close>

lemma seedStore_tables:
  assumes "seedStore e d c = (ok, d', c')"
  obtains "d' = d" | "d' = snd (db_exec (se_first e) (SqlSeedFirst (redactSecretsForPersist (readStartupFile (se_file e))))
      (snd (db_exec (se_upsert e) (SqlUpsertStartup (redactSecretsForPersist (readStartupFile (se_file e)))) d)))"
  | active d1 d2 where
    "d1 = snd (db_exec (se_first e) (SqlSeedFirst (redactSecretsForPersist (readStartupFile (se_file e))))
      (snd (db_exec (se_upsert e) (SqlUpsertStartup (redactSecretsForPersist (readStartupFile (se_file e)))) d)))"
    "d2 = d1 \<or> d2 = snd (db_exec (se_backfill e)
      (SqlBackfill (backfill_additions active (redactSecretsForPersist (readStartupFile (se_file e))))) d1)"
    "d' = d2 \<or> (\<exists>hash. d' = snd (db_exec (se_user e) (SqlSeedUser ''admin'' hash (se_salt e)) d2))"
  using assms
  by (auto simp: seedStore_def Let_def split: prod.splits if_splits)

definition seeding_sql :: "sql \<Rightarrow> bool" where
  "seeding_sql q \<longleftrightarrow> (case q of SqlUpsertStartup j \<Rightarrow> True | SqlSeedFirst j \<Rightarrow> True
     | SqlBackfill adds \<Rightarrow> True | SqlSeedUser n h s \<Rightarrow> True | _ \<Rightarrow> False)"

lemma backfilled_keys [simp]:
  "r_version (if b then r\<lparr>r_config := j\<rparr> else r) = r_version r"
  "r_state (if b then r\<lparr>r_config := j\<rparr> else r) = r_state r"
  by simp_all

text \<open>The next read of the cache after a commit.\<close>

lemma commit_reread:
  assumes "d_open d = None" and "commitConfig e root d c = (True, d', c')"
  shows "cachedRunningConfig connect file (t_running (db_view d') # later) c' =
    c'\<lparr>cf_version := next_version (map superseded (t_running (d_tables d))),
       cf_cache := redactSecretsForPersist root, cf_loaded := True\<rparr>"
proof -
  have c: "is_object root" "d_tables d' = committed root (d_tables d)" "d_open d' = None" "\<not> cf_loaded c'"
    using commit_cases [OF assms] by auto
  have "cf_ready c'"
    using assms(2) by (auto simp: commitConfig_def bootstrapDatabase_def Let_def invalidateConfigCache_def
        split: if_splits prod.splits)
  then show ?thesis
    using c latest_committed [OF c(1), of "d_tables d"]
    by (simp add: cachedRunningConfig_def loadRunningConfigRoot_def bootstrapDatabase_def db_view_def)
qed

subsection \<open>Properties\<close>

text \<open>C7. A commit is atomic and versioned. Started outside a transaction on a well-formed history
  (distinct versions, exactly one active row, and that one the highest), whatever each of the five
  statements does: the history stays well formed; success means that one row was added, its version
  is exactly one above the highest there was, it is the active row and holds the new configuration
  without its secrets, and the older rows keep their versions and contents; failure leaves every
  table as it was, except when the server committed and only the reply was lost, which is the same
  change as success. The row is inserted as \<^verbatim>\<open>active\<close> and the one before it is
  superseded in the same transaction: \<^verbatim>\<open>shared/db/schema.sql\<close> and the README describe a
  \<^verbatim>\<open>pending\<close> row that is promoted once the daemons have applied it, which the code does not do.\<close>

theorem commit_atomic:
  assumes "d_open d = None" and "history_ok (t_running (d_tables d))"
    and "commitConfig e root d c = (ok, d', c')"
  shows "history_ok (t_running (d_tables d')) \<and>
    (ok \<longrightarrow> d_open d' = None \<and>
      (\<exists>v. v = Max (insert 0 (r_version ` set (t_running (d_tables d)))) + 1 \<and>
         latestRunningConfig (t_running (d_tables d')) = Some (v, redactSecretsForPersist root) \<and>
         map r_version (t_running (d_tables d')) = map r_version (t_running (d_tables d)) @ [v] \<and>
         map r_config (t_running (d_tables d')) =
           map r_config (t_running (d_tables d)) @ [redactSecretsForPersist root])) \<and>
    (\<not> ok \<longrightarrow> d_tables d' = d_tables d \<or>
      ce_commit e = SqlLost True \<and> d_tables d' = committed root (d_tables d))"
proof -
  note c = commit_cases [OF assms(1,3)]
  then have "history_ok (t_running (d_tables d'))"
    using assms(2) history_committed by auto
  then show ?thesis
    using c latest_committed [of root "d_tables d"]
    by (auto simp: committed_running next_version_Max image_image)
qed

definition history_example :: db where
  "history_example = \<lparr>d_tables = \<lparr>t_startup = None,
     t_running = [\<lparr>r_version = 1, r_config = JObj [(''global'', JObj [])], r_state = Active\<rparr>], t_users = []\<rparr>,
     d_open = None\<rparr>"

definition commit_example :: "sql_outcome \<Rightarrow> commit_env" where
  "commit_example oc = \<lparr>ce_connect = (\<lambda>_. True), ce_file = None, ce_begin = SqlOk, ce_supersede = SqlOk,
     ce_insert = oc, ce_commit = SqlOk, ce_rollback = SqlOk\<rparr>"

lemma history_example_ok: "d_open history_example = None \<and> history_ok (t_running (d_tables history_example))"
  by (simp add: history_example_def history_ok_def active_rows_def)

theorem commit_atomic_witness:
  "\<exists>d' c'. commitConfig (commit_example SqlOk) (JObj []) history_example config_init = (True, d', c') \<and>
     latestRunningConfig (t_running (d_tables d')) = Some (2, JObj [])"
proof -
  obtain d' c' where r: "commitConfig (commit_example SqlOk) (JObj []) history_example config_init = (True, d', c')"
    by (simp add: commitConfig_def commit_example_def history_example_def bootstrapDatabase_def
        config_init_def db_exec_def db_effect_def db_view_def)
  from commit_atomic [OF _ _ r] history_example_ok r show ?thesis
    by (auto simp: redactSecretsForPersist_def history_example_def)
qed

text \<open>C8. A successful commit is what the process reads next: the cache is dropped, and the next read
  of the version finds the number one above the highest there was and, in the cache, the committed
  configuration with its secrets removed. This is what the code does; the comment in
  \<^verbatim>\<open>shared/db/schema.sql\<close> and the README promise a reader the last version every daemon has
  applied, never the one in flight.\<close>

theorem commit_is_read_back:
  assumes "d_open d = None" and "commitConfig e root d c = (True, d', c')"
  shows "\<exists>c''. runningConfigVersion connect file (t_running (db_view d') # later) c' =
      (Max (insert 0 (r_version ` set (t_running (d_tables d)))) + 1, c'') \<and>
    cf_cache c'' = redactSecretsForPersist root \<and> cf_loaded c''"
  using commit_reread [OF assms] by (simp add: runningConfigVersion_def next_version_Max image_image)

theorem commit_is_read_back_witness:
  "\<exists>d' c' c''. commitConfig (commit_example SqlOk) (JObj []) history_example config_init = (True, d', c') \<and>
     runningConfigVersion (\<lambda>_. True) None [t_running (db_view d')] c' = (2, c'') \<and> cf_cache c'' = JObj []"
proof -
  obtain d' c' where r: "commitConfig (commit_example SqlOk) (JObj []) history_example config_init = (True, d', c')"
    by (simp add: commitConfig_def commit_example_def history_example_def bootstrapDatabase_def
        config_init_def db_exec_def db_effect_def db_view_def)
  have "d_open history_example = None" by (simp add: history_example_def)
  from commit_is_read_back [OF this r, of "\<lambda>_. True" None "[]"] r show ?thesis
    by (auto simp: history_example_def redactSecretsForPersist_def)
qed

text \<open>C9. No secret reaches the store: whatever document is committed or seeded (with unique member
  names), and whatever the statements' outcomes, if no stored configuration holds the database password
  or the console's admin credential before \<open>commitConfig\<close> or \<open>seedStore\<close>, none does afterwards.\<close>

theorem secrets_not_persisted:
  assumes "d_open d = None" and "store_secret_free (d_tables d)"
    and "distinct (map fst (jfields (readStartupFile (se_file se))))"
  shows "store_secret_free (d_tables (fst (snd (commitConfig e root d c)))) \<and>
    store_secret_free (d_tables (fst (snd (seedStore se d c))))"
proof
  obtain ok d1 c1 where r: "commitConfig e root d c = (ok, d1, c1)" by (rule prod_cases3)
  have "store_secret_free (committed root (d_tables d))"
    unfolding committed_def using assms(2)
    by (intro store_secret_free_apply) (simp_all add: sql_secret_free_def redact_secret_free)
  then show "store_secret_free (d_tables (fst (snd (commitConfig e root d c))))"
    using commit_cases [OF assms(1) r] assms(2) r by auto
next
  let ?p = "redactSecretsForPersist (readStartupFile (se_file se))"
  let ?ok = "\<lambda>d. d_open d = None \<and> store_secret_free (d_tables d)"
  have step: "?ok (snd (db_exec oc q d))"
    if "?ok d" "sql_secret_free q" "q \<notin> {SqlBegin, SqlCommit, SqlRollback}" for oc q d
    using that store_secret_free_exec by blast
  obtain ok d1 c1 where r: "seedStore se d c = (ok, d1, c1)" by (rule prod_cases3)
  have first: "?ok (snd (db_exec (se_first se) (SqlSeedFirst ?p) (snd (db_exec (se_upsert se) (SqlUpsertStartup ?p) d))))"
    using assms by (intro step) (simp_all add: sql_secret_free_def redact_secret_free)
  have fill: "sql_secret_free (SqlBackfill (backfill_additions active ?p))" for active
    using assms(3) by (auto simp: sql_secret_free_def)
  have user: "sql_secret_free (SqlSeedUser n h s)" for n h s by (simp add: sql_secret_free_def)
  from r have "?ok d1"
  proof (rule seedStore_tables)
    assume "d1 = d" then show ?thesis using assms by simp
  next
    assume "d1 = snd (db_exec (se_first se) (SqlSeedFirst ?p) (snd (db_exec (se_upsert se) (SqlUpsertStartup ?p) d)))"
    then show ?thesis using first by simp
  next
    fix active a b
    assume a: "a = snd (db_exec (se_first se) (SqlSeedFirst ?p) (snd (db_exec (se_upsert se) (SqlUpsertStartup ?p) d)))"
      and b: "b = a \<or> b = snd (db_exec (se_backfill se) (SqlBackfill (backfill_additions active ?p)) a)"
      and d1: "d1 = b \<or> (\<exists>hash. d1 = snd (db_exec (se_user se) (SqlSeedUser ''admin'' hash (se_salt se)) b))"
    have "?ok b" using b step [of a, OF _ fill] first unfolding a by auto
    then show ?thesis using d1 step [of b, OF _ user] by auto
  qed
  then show "store_secret_free (d_tables (fst (snd (seedStore se d c))))" by (simp add: r)
qed

theorem secrets_not_persisted_witness:
  "let root = JObj [(''pretzel'', JObj [(''database'', JObj [(''password'', JStr ''x'')])])]
   in store_secret_free (d_tables (fst (snd (commitConfig (commit_example SqlOk) root history_example config_init))))"
proof -
  have "store_secret_free (d_tables history_example)"
    by (simp add: store_secret_free_def history_example_def secret_free_def)
  from secrets_not_persisted [OF _ this, of "\<lparr>se_connect = \<lambda>_. True, se_file = None, se_upsert = SqlOk,
      se_first = SqlOk, se_query = True, se_later = [], se_backfill = SqlOk, se_salt = [], se_hash = (\<lambda>_ _. []),
      se_user = SqlOk\<rparr>"]
  show ?thesis by (simp add: history_example_def readStartupFile_def jfields_def)
qed

text \<open>The back-fill can only add: for the active configuration and a startup document (both
  objects with unique member names), every domain the active configuration has keeps its value, a
  domain only the startup document has is added with its value (comments and scopes that are not
  objects excepted), and nothing else appears.\<close>

theorem backfill_only_adds:
  assumes "is_object active" and "is_object startup" and "distinct (map fst (jfields startup))"
  defines "new \<equiv> backfill_config (backfill_additions active startup) active"
  shows "(\<forall>v. domain_of scope domain active = Some v \<longrightarrow> domain_of scope domain new = Some v) \<and>
    (domain_of scope domain active = None \<and> domain_of scope domain startup = None \<longrightarrow>
       domain_of scope domain new = None) \<and>
    (\<forall>v. domain_of scope domain active = None \<and> domain_of scope domain startup = Some v \<and>
       \<not> is_comment scope \<and> \<not> is_comment domain \<and> (\<forall>a. jfind scope active = Some a \<longrightarrow> is_object a) \<longrightarrow>
       domain_of scope domain new = Some v)"
  unfolding new_def
  using backfill_keeps_domain [OF assms(1-3)] backfill_adds_domain [OF assms(1-3)]
    backfill_nothing_new [OF assms(1-3)] by blast

theorem backfill_only_adds_witness:
  "let active = JObj [(''pretzel'', JObj [(''ui'', JInt 1)])];
       startup = JObj [(''pretzel'', JObj [(''ui'', JInt 2), (''log'', JInt 3)])];
       new = backfill_config (backfill_additions active startup) active
   in domain_of ''pretzel'' ''ui'' new = Some (JInt 1) \<and> domain_of ''pretzel'' ''log'' new = Some (JInt 3)"
  using backfill_only_adds [of "JObj [(''pretzel'', JObj [(''ui'', JInt 1)])]"
      "JObj [(''pretzel'', JObj [(''ui'', JInt 2), (''log'', JInt 3)])]" "''pretzel''" "''ui''"]
    backfill_only_adds [of "JObj [(''pretzel'', JObj [(''ui'', JInt 1)])]"
      "JObj [(''pretzel'', JObj [(''ui'', JInt 2), (''log'', JInt 3)])]" "''pretzel''" "''log''"]
  by (simp add: jfields_def domain_of_def is_comment_def)

text \<open>Seeding never rewrites the operator's history: whatever the outcomes, a non-empty version
  history keeps its versions and states, existing local users are left alone, and a failed or
  successful seed leaves no transaction open.\<close>

theorem seed_keeps_history:
  assumes "d_open d = None"
  shows "let d' = fst (snd (seedStore e d c)) in d_open d' = None \<and>
    same_history (t_running (d_tables d)) (t_running (d_tables d')) \<and>
    (\<forall>u v. map_of (t_users (d_tables d)) u = Some v \<longrightarrow> map_of (t_users (d_tables d')) u = Some v)"
proof -
  let ?p = "redactSecretsForPersist (readStartupFile (se_file e))"
  let ?ok = "\<lambda>d'. d_open d' = None \<and> same_history (t_running (d_tables d)) (t_running (d_tables d')) \<and>
    (\<forall>u v. map_of (t_users (d_tables d)) u = Some v \<longrightarrow> map_of (t_users (d_tables d')) u = Some v)"
  have step: "?ok (snd (db_exec oc q d1))"
    if "?ok d1" "seeding_sql q" for oc q d1
    using that
    by (cases oc; cases q) (auto simp: db_exec_def db_effect_def same_history_def comp_def seeding_sql_def)
  obtain ok d1 c1 where r: "seedStore e d c = (ok, d1, c1)" by (rule prod_cases3)
  have id: "?ok d" using assms by (simp add: same_history_def)
  have first: "?ok (snd (db_exec (se_first e) (SqlSeedFirst ?p) (snd (db_exec (se_upsert e) (SqlUpsertStartup ?p) d))))"
    by (rule step [OF step [OF id]]) (simp_all add: seeding_sql_def)
  from r have "?ok d1"
  proof (rule seedStore_tables)
    fix active a b
    assume a: "a = snd (db_exec (se_first e) (SqlSeedFirst ?p) (snd (db_exec (se_upsert e) (SqlUpsertStartup ?p) d)))"
      and b: "b = a \<or> b = snd (db_exec (se_backfill e) (SqlBackfill (backfill_additions active ?p)) a)"
      and d1: "d1 = b \<or> (\<exists>hash. d1 = snd (db_exec (se_user e) (SqlSeedUser ''admin'' hash (se_salt e)) b))"
    have "?ok a" using first unfolding a .
    from b have "?ok b"
    proof
      assume "b = snd (db_exec (se_backfill e) (SqlBackfill (backfill_additions active ?p)) a)"
      then show ?thesis using step [OF \<open>?ok a\<close>] by (simp add: seeding_sql_def)
    qed (use \<open>?ok a\<close> in simp)
    from d1 show ?thesis
    proof
      assume "\<exists>hash. d1 = snd (db_exec (se_user e) (SqlSeedUser ''admin'' hash (se_salt e)) b)"
      then obtain hash where "d1 = snd (db_exec (se_user e) (SqlSeedUser ''admin'' hash (se_salt e)) b)" ..
      then show ?thesis using step [OF \<open>?ok b\<close>] by (simp add: seeding_sql_def)
    qed (use \<open>?ok b\<close> in simp)
  qed (use id first in simp_all)
  then show ?thesis by (simp add: r)
qed

theorem seed_keeps_history_witness:
  "let e = \<lparr>se_connect = \<lambda>_. True, se_file = Some (JObj [(''pretzel'', JObj [])]), se_upsert = SqlOk,
      se_first = SqlOk, se_query = True, se_later = [], se_backfill = SqlOk, se_salt = ''s'',
      se_hash = (\<lambda>_ _. ''h''), se_user = SqlOk\<rparr>;
       d' = fst (snd (seedStore e history_example config_init))
   in same_history (t_running (d_tables history_example)) (t_running (d_tables d'))"
  using seed_keeps_history [of history_example] by (simp add: history_example_def Let_def)

end
