(* ===== verification/Engined_State.thy ===== *)
theory Engined_State
  imports Ipc_Codec Config_Store
begin

text \<open>
  The state of \<^verbatim>\<open>engined\<close> that its bootstrap, commit and heartbeat services share through
  \<^verbatim>\<open>EnginedServiceManager\<close>: the members of the three services, the event and the action queue,
  the configuration store, and the messages handed to the transmit router so far. Time is in
  nanoseconds of the steady clock, with 0 for the epoch a \<^verbatim>\<open>time_point{}\<close> holds. Every handler reads
  the clock at most once, so the reading is an argument of the handler.
\<close>

type_synonym time = int

definition seconds :: "int \<Rightarrow> time" where
  "seconds n = n * 1000000000"

definition milliseconds :: "int \<Rightarrow> time" where
  "milliseconds n = n * 1000000"

text \<open>\<^verbatim>\<open>duration_cast<milliseconds>\<close> truncates towards zero.\<close>

definition to_ms :: "time \<Rightarrow> int" where
  "to_ms d = sgn d * (\<bar>d\<bar> div 1000000)"

subsection \<open>Events and actions\<close>

datatype eng_boot_event =
    EbUnknown | EbSendClientHello | EbReceiveServerHello | EbSendSyncRequest | EbReceiveSyncResponse
  | EbSendRuntimeStart | EbReceiveRuntimeStart | EbReloadFailed

datatype eng_boot_action =
    EbActUnknown | EbActSendClientHello | EbActSendSyncRequest | EbActSendRuntimeStart | EbActSendReloadFailed

datatype commit_event_type = CommitEvUnknown | ReceiveSettingsCommit | ReloadComplete | ReloadFailed

datatype commit_action_type = CommitActUnknown | ApplyCommit

datatype heartbeat_event_type =
  HbUnknown | SendHeartbeatRequests | ReceiveHeartbeatResponse | HbSendHeartbeatResult

text \<open>Events of the services that have a state of their own outside this record.\<close>

datatype other_event =
    ReceiveProbeResult | ReceiveSaseHealthResult | ReceivePasswordUpdate | ReceiveStateUpdate
  | ReceiveStateRequest | ReceiveSample | ReceiveTurn | ReceiveSaseApiKey | ReceiveAiCredential

datatype eng_event =
    EngBootstrap eng_boot_event "ipc_message option"
  | EngCommit commit_event_type "ipc_message option"
  | EngHeartbeat heartbeat_event_type "ipc_message option"
  | EngOther other_event ipc_message

datatype eng_action =
    ActBootstrap eng_boot_action
  | ActCommit commit_action_type
  | ActHeartbeatRequest ipc_daemon
  | ActHeartbeatResult bytes

subsection \<open>State\<close>

datatype boot_state = Init | WaitHandshake | Reconcile

record process_state =
  ps_connected :: bool
  ps_appliedVersion :: u64
  ps_generation :: u32
  ps_blessedGeneration :: u32

record bootstrap =
  b_state :: boot_state
  b_startedAt :: time
  b_lastClientHelloSentAt :: time
  b_lastSyncRequestSentAt :: time
  b_lastBootWarnAt :: time
  b_reloadStartedAt :: time
  b_targetVersion :: u64
  b_processMap :: "(ipc_daemon \<times> process_state) list"
  b_isReload :: bool
  b_bootstrapped :: bool

datatype task_status = TaskPending | TaskRunning | TaskDone | TaskFailed

record task =
  t_id :: int
  t_payload :: bytes
  t_status :: task_status

record daemon_entry =
  de_pending :: bool
  de_alive :: bool
  de_latencyMs :: int
  de_sentAt :: time

record heartbeat =
  h_daemonMap :: "(ipc_daemon \<times> daemon_entry) list"
  h_lastPollAt :: time
  h_roundStartedAt :: time
  h_roundActive :: bool
  h_pendingCount :: int

record engined =
  e_boot :: bootstrap
  e_queue :: "task list"
  e_nextId :: int
  e_hb :: heartbeat
  e_events :: "eng_event list"
  e_actions :: "eng_action list"
  e_tx :: "ipc_message list"
  e_db :: db
  e_cfg :: config
  e_steps :: nat

text \<open>
  What the outside answers while the daemon runs, by a count of the points at which it was asked
  (\<open>e_steps\<close>, raised by every scheduling round, dispatch and commit): the steady clock, the wall clock in milliseconds, whether a query of the store succeeds and what later
  ones would see, and the outcomes of a commit's statements.
\<close>

record eng_env =
  en_clock :: "nat \<Rightarrow> time"
  en_wall :: "nat \<Rightarrow> int"
  en_connect :: "conn_params \<Rightarrow> bool"
  en_file :: "json option"
  en_query :: "nat \<Rightarrow> bool"
  en_later :: "nat \<Rightarrow> cfg_row list list"
  en_commit :: "nat \<Rightarrow> commit_env"

definition eng_postEvent :: "eng_event option \<Rightarrow> engined \<Rightarrow> engined" where
  "eng_postEvent event s = (case event of None \<Rightarrow> s | Some e \<Rightarrow> s\<lparr>e_events := e_events s @ [e]\<rparr>)"

definition eng_postAction :: "eng_action option \<Rightarrow> engined \<Rightarrow> engined" where
  "eng_postAction action s = (case action of None \<Rightarrow> s | Some a \<Rightarrow> s\<lparr>e_actions := e_actions s @ [a]\<rparr>)"

definition tx_send :: "ipc_message \<Rightarrow> engined \<Rightarrow> engined" where
  "tx_send msg s = s\<lparr>e_tx := e_tx s @ [msg]\<rparr>"

text \<open>The configuration cache, filled on demand.\<close>

definition eng_queries :: "eng_env \<Rightarrow> engined \<Rightarrow> cfg_row list list" where
  "eng_queries env s =
     (if en_query env (e_steps s) then t_running (db_view (e_db s)) else []) # en_later env (e_steps s)"

definition eng_cached :: "eng_env \<Rightarrow> engined \<Rightarrow> engined" where
  "eng_cached env s =
     s\<lparr>e_cfg := cachedRunningConfig (en_connect env) (en_file env) (eng_queries env s) (e_cfg s)\<rparr>"

text \<open>An interval of the configuration, in whole seconds with a default.\<close>

definition eng_interval :: "string \<Rightarrow> string \<Rightarrow> int \<Rightarrow> engined \<Rightarrow> json_error + time" where
  "eng_interval domain key d s =
     map_sum id seconds (jvalue get_i32 key d (cfg_section ''pretzel'' domain (e_cfg s)))"

text \<open>\<^verbatim>\<open>EnginedEventFactory::create\<close>.\<close>

definition eng_event_create :: "ipc_message option \<Rightarrow> eng_event option" where
  "eng_event_create msg = (case msg of None \<Rightarrow> None
     | Some m \<Rightarrow> (case msg_cmd m of
          CmdServerHello \<Rightarrow> Some (EngBootstrap EbReceiveServerHello (Some m))
        | CmdSyncResponse \<Rightarrow> Some (EngBootstrap EbReceiveSyncResponse (Some m))
        | CmdRuntimeStart \<Rightarrow> Some (EngBootstrap EbReceiveRuntimeStart (Some m))
        | CmdHeartbeatResponse \<Rightarrow> Some (EngHeartbeat ReceiveHeartbeatResponse (Some m))
        | CmdSettingsCommitRequest \<Rightarrow> Some (EngCommit ReceiveSettingsCommit (Some m))
        | CmdProbeResult \<Rightarrow> Some (EngOther ReceiveProbeResult m)
        | CmdSaseHealthResult \<Rightarrow> Some (EngOther ReceiveSaseHealthResult m)
        | CmdLocalUserUpdate \<Rightarrow> Some (EngOther ReceivePasswordUpdate m)
        | CmdApiCredentialStateUpdate \<Rightarrow> Some (EngOther ReceiveStateUpdate m)
        | CmdApiCredentialStateRequest \<Rightarrow> Some (EngOther ReceiveStateRequest m)
        | CmdApiCollectionSample \<Rightarrow> Some (EngOther ReceiveSample m)
        | CmdChatTurnStore \<Rightarrow> Some (EngOther ReceiveTurn m)
        | CmdSaseApiKeyUpdate \<Rightarrow> Some (EngOther ReceiveSaseApiKey m)
        | CmdAiCredentialStateUpdate \<Rightarrow> Some (EngOther ReceiveAiCredential m)
        | _ \<Rightarrow> None))"

text \<open>\<^verbatim>\<open>EnginedRxRouter::handleIpcMessage\<close>.\<close>

definition eng_receive :: "ipc_message \<Rightarrow> engined \<Rightarrow> engined" where
  "eng_receive msg s = eng_postEvent (eng_event_create (Some msg)) s"

lemma post_simps [simp]:
  "eng_postEvent None s = s" "eng_postEvent (Some e) s = s\<lparr>e_events := e_events s @ [e]\<rparr>"
  "eng_postAction None s = s" "eng_postAction (Some a) s = s\<lparr>e_actions := e_actions s @ [a]\<rparr>"
  by (simp_all add: eng_postEvent_def eng_postAction_def)

lemma tx_send_simps [simp]:
  "e_boot (tx_send m s) = e_boot s" "e_queue (tx_send m s) = e_queue s" "e_nextId (tx_send m s) = e_nextId s"
  "e_hb (tx_send m s) = e_hb s" "e_events (tx_send m s) = e_events s" "e_actions (tx_send m s) = e_actions s"
  "e_tx (tx_send m s) = e_tx s @ [m]" "e_db (tx_send m s) = e_db s" "e_cfg (tx_send m s) = e_cfg s"
  "e_steps (tx_send m s) = e_steps s"
  by (simp_all add: tx_send_def)

lemma eng_cached_simps [simp]:
  "e_boot (eng_cached env s) = e_boot s" "e_queue (eng_cached env s) = e_queue s"
  "e_nextId (eng_cached env s) = e_nextId s" "e_hb (eng_cached env s) = e_hb s"
  "e_events (eng_cached env s) = e_events s" "e_actions (eng_cached env s) = e_actions s"
  "e_tx (eng_cached env s) = e_tx s" "e_db (eng_cached env s) = e_db s" "e_steps (eng_cached env s) = e_steps s"
  by (simp_all add: eng_cached_def)

end
