(* ===== verification/Engined_Bootstrap.thy ===== *)
theory Engined_Bootstrap
  imports Engined_State
begin

text \<open>
  \<^verbatim>\<open>engined/service/bootstrap/BootstrapService\<close>: the handshake with the broker, the reconciliation
  loop that compares every service daemon's applied version with the target, the \<open>RuntimeStart\<close>
  broadcast once all have converged, and the reload a commit starts.
\<close>

subsection \<open>Scheduling\<close>

definition clientHelloInterval :: "engined \<Rightarrow> json_error + time" where
  "clientHelloInterval = eng_interval ''bootstrap'' ''client_hello_interval_sec'' 1"

definition syncRequestInterval :: "engined \<Rightarrow> json_error + time" where
  "syncRequestInterval = eng_interval ''bootstrap'' ''sync_request_interval_sec'' 1"

definition bootWarnInterval :: "engined \<Rightarrow> json_error + time" where
  "bootWarnInterval = eng_interval ''bootstrap'' ''bootstrap_timeout_sec'' 10"

definition reloadTimeout :: "engined \<Rightarrow> json_error + time" where
  "reloadTimeout = eng_interval ''bootstrap'' ''reload_timeout_sec'' 20"

definition service_daemons :: "ipc_daemon list" where
  "service_daemons = [DAuthd, DProbed, DCollectord, DTopologyd, DApid]"

definition fresh_process :: process_state where
  "fresh_process = \<lparr>ps_connected = False, ps_appliedVersion = 0, ps_generation = 0, ps_blessedGeneration = 0\<rparr>"

text \<open>\<^verbatim>\<open>Config::runningConfigVersion\<close> after the cache is filled, as \<^verbatim>\<open>uint64_t\<close>.\<close>

definition eng_version :: "engined \<Rightarrow> u64" where
  "eng_version s = of_nat (cf_version (e_cfg s))"

definition initProcessMap :: "eng_env \<Rightarrow> engined \<Rightarrow> engined" where
  "initProcessMap env s =
     (let s = eng_cached env s in
      s\<lparr>e_boot := (e_boot s)\<lparr>b_processMap := map (\<lambda>d. (d, fresh_process)) service_daemons,
          b_targetVersion := eng_version s\<rparr>\<rparr>)"

definition boot_start :: "eng_env \<Rightarrow> time \<Rightarrow> engined \<Rightarrow> engined" where
  "boot_start env now s =
     initProcessMap env (s\<lparr>e_boot := (e_boot s)\<lparr>b_state := Init, b_startedAt := now,
       b_lastClientHelloSentAt := 0, b_lastSyncRequestSentAt := 0, b_lastBootWarnAt := 0,
       b_reloadStartedAt := 0, b_isReload := False, b_bootstrapped := False\<rparr>\<rparr>)"

text \<open>Both intervals are read from the configuration, so both can raise.\<close>

definition warnIfBootSlow :: "time \<Rightarrow> engined \<Rightarrow> json_error + engined" where
  "warnIfBootSlow now s =
     bind_err (bootWarnInterval s) (\<lambda>interval.
       let b = e_boot s in
       if now - b_startedAt b < interval then Inr s
       else if b_lastBootWarnAt b \<noteq> 0 \<and> now - b_lastBootWarnAt b < interval then Inr s
       else Inr (s\<lparr>e_boot := b\<lparr>b_lastBootWarnAt := now\<rparr>\<rparr>))"

definition boot_schedule :: "eng_env \<Rightarrow> time \<Rightarrow> engined \<Rightarrow> json_error + eng_event option \<times> engined" where
  "boot_schedule env now s =
     (let s = eng_cached env s in
      case b_state (e_boot s) of
        Init \<Rightarrow>
          bind_err (warnIfBootSlow now s) (\<lambda>s.
            Inr (Some (EngBootstrap EbSendClientHello None),
                 s\<lparr>e_boot := (e_boot s)\<lparr>b_state := WaitHandshake, b_lastClientHelloSentAt := now\<rparr>\<rparr>))
      | WaitHandshake \<Rightarrow>
          bind_err (warnIfBootSlow now s) (\<lambda>s.
            bind_err (clientHelloInterval s) (\<lambda>interval.
              if now - b_lastClientHelloSentAt (e_boot s) \<ge> interval
              then Inr (Some (EngBootstrap EbSendClientHello None),
                        s\<lparr>e_boot := (e_boot s)\<lparr>b_lastClientHelloSentAt := now\<rparr>\<rparr>)
              else Inr (None, s)))
      | Reconcile \<Rightarrow>
          bind_err (if b_isReload (e_boot s)
                    then map_sum id (\<lambda>t. now - b_reloadStartedAt (e_boot s) \<ge> t) (reloadTimeout s)
                    else Inr False) (\<lambda>expired.
            if expired
            then Inr (Some (EngBootstrap EbReloadFailed None),
                      s\<lparr>e_boot := (e_boot s)\<lparr>b_isReload := False\<rparr>\<rparr>)
            else
              bind_err (if \<not> b_bootstrapped (e_boot s) then warnIfBootSlow now s else Inr s) (\<lambda>s.
                bind_err (syncRequestInterval s) (\<lambda>interval.
                  if now - b_lastSyncRequestSentAt (e_boot s) \<ge> interval
                  then Inr (Some (EngBootstrap EbSendSyncRequest None),
                            s\<lparr>e_boot := (e_boot s)\<lparr>b_lastSyncRequestSentAt := now\<rparr>\<rparr>)
                  else Inr (None, s)))))"

definition boot_isReady :: "engined \<Rightarrow> bool" where
  "boot_isReady s \<longleftrightarrow> b_bootstrapped (e_boot s)"

subsection \<open>The process map\<close>

definition report_process :: "ipc_daemon \<Rightarrow> u64 \<Rightarrow> u32 \<Rightarrow> (ipc_daemon \<times> process_state) list \<Rightarrow>
    (ipc_daemon \<times> process_state) list" where
  "report_process daemon applied generation pm =
     (case map_of pm daemon of None \<Rightarrow> pm
      | Some ps \<Rightarrow> AList.update daemon
          (ps\<lparr>ps_connected := True, ps_appliedVersion := applied, ps_generation := generation\<rparr>) pm)"

text \<open>
  The loop over the reported daemons. An exception leaves the entries updated so far and the
  missing daemons untouched; the flag tells whether the loop ran to its end.
\<close>

fun update_items :: "json list \<Rightarrow> ipc_daemon list \<Rightarrow> (ipc_daemon \<times> process_state) list \<Rightarrow>
    bool \<times> ipc_daemon list \<times> (ipc_daemon \<times> process_state) list" where
  "update_items [] reported pm = (True, reported, pm)"
| "update_items (item # items) reported pm =
     (case jfind ''daemon'' item of
        Some (JStr name) \<Rightarrow>
          (case (jvalue get_u64 ''applied_version'' 0 item, jvalue get_u32 ''generation'' 0 item) of
             (Inr applied, Inr generation) \<Rightarrow>
               (let daemon = strToDaemon name in
                update_items items (daemon # reported) (report_process daemon applied generation pm))
           | _ \<Rightarrow> (False, reported, pm))
      | _ \<Rightarrow> update_items items reported pm)"

definition clear_missing :: "ipc_daemon list \<Rightarrow> (ipc_daemon \<times> process_state) list \<Rightarrow>
    (ipc_daemon \<times> process_state) list" where
  "clear_missing reported pm =
     AList.map_ran (\<lambda>daemon ps. if daemon \<notin> set reported
       then ps\<lparr>ps_connected := False, ps_appliedVersion := 0\<rparr> else ps) pm"

definition updateProcessMap :: "jlib \<Rightarrow> ipc_message \<Rightarrow> (ipc_daemon \<times> process_state) list \<Rightarrow>
    bool \<times> (ipc_daemon \<times> process_state) list" where
  "updateProcessMap L msg pm =
     (if msg_payload msg = [] then (False, pm)
      else case jl_parse L (msg_payload msg) of
        None \<Rightarrow> (False, pm)
      | Some root \<Rightarrow>
          (case jfind ''daemons'' root of
             Some (JArr items) \<Rightarrow>
               (let (finished, reported, pm') = update_items items [] pm in
                if \<not> finished then (False, pm') else (True, clear_missing reported pm'))
           | _ \<Rightarrow> (False, pm)))"

definition process_ready :: "u64 \<Rightarrow> process_state \<Rightarrow> bool" where
  "process_ready target ps \<longleftrightarrow> ps_connected ps \<and> \<not> ps_appliedVersion ps < target"

definition isProcessReady :: "ipc_daemon \<Rightarrow> bootstrap \<Rightarrow> bool" where
  "isProcessReady daemon b =
     (case map_of (b_processMap b) daemon of None \<Rightarrow> False
      | Some ps \<Rightarrow> ps_connected ps \<and> ps_appliedVersion ps \<ge> b_targetVersion b)"

definition isAllProcessReady :: "bootstrap \<Rightarrow> bool" where
  "isAllProcessReady b \<longleftrightarrow> b_processMap b \<noteq> [] \<and>
     list_all (\<lambda>(daemon, ps). process_ready (b_targetVersion b) ps) (b_processMap b)"

definition anyUnblessed :: "bootstrap \<Rightarrow> bool" where
  "anyUnblessed b \<longleftrightarrow> list_ex (\<lambda>(daemon, ps). ps_generation ps > ps_blessedGeneration ps) (b_processMap b)"

subsection \<open>Messages\<close>

definition buildClientHelloMessage :: ipc_message where
  "buildClientHelloMessage = mk_message DEngined DIpcd CmdClientHello 0 (toFlag FlagRequest)
     (bytes_of_string (daemonToStr DEngined))"

definition buildSyncRequestMessage :: ipc_message where
  "buildSyncRequestMessage = mk_message DEngined DIpcd CmdSyncRequest 0 (toFlag FlagRequest)
     (bytes_of_string (daemonToStr DEngined))"

definition buildRuntimeStartMessage :: "jlib \<Rightarrow> bootstrap \<Rightarrow> ipc_message" where
  "buildRuntimeStartMessage L b =
     mk_message DEngined DBroadcast CmdRuntimeStart 0 (orFlag FlagRequest FlagBroadcast)
       (jl_dump L (JObj [(''daemon'', JStr (daemonToStr DEngined)),
         (''target_version'', JInt (uint (b_targetVersion b)))]))"

definition buildSettingsCommitResponse :: "jlib \<Rightarrow> bool \<Rightarrow> bootstrap \<Rightarrow> ipc_message" where
  "buildSettingsCommitResponse L ok b =
     mk_message DEngined DMgmtd CmdSettingsCommitResponse 0
       (if \<not> ok then orFlag FlagResponse FlagError else toFlag FlagResponse)
       (jl_dump L (JObj [(''ok'', JBool ok), (''target_version'', JInt (uint (b_targetVersion b)))]))"

subsection \<open>Handlers\<close>

definition onServerHello :: "time \<Rightarrow> engined \<Rightarrow> engined" where
  "onServerHello now s =
     (if b_state (e_boot s) \<noteq> WaitHandshake then s
      else eng_postAction (Some (ActBootstrap EbActSendSyncRequest))
        (s\<lparr>e_boot := (e_boot s)\<lparr>b_state := Reconcile, b_lastSyncRequestSentAt := now\<rparr>\<rparr>))"

definition onSyncResponse :: "jlib \<Rightarrow> ipc_message \<Rightarrow> engined \<Rightarrow> engined" where
  "onSyncResponse L msg s =
     (if b_state (e_boot s) \<noteq> Reconcile then s
      else
        let (ok, pm) = updateProcessMap L msg (b_processMap (e_boot s));
            s = s\<lparr>e_boot := (e_boot s)\<lparr>b_processMap := pm\<rparr>\<rparr> in
        if \<not> ok then s
        else if \<not> isAllProcessReady (e_boot s) then s
        else if \<not> anyUnblessed (e_boot s) then s
        else eng_postAction (Some (ActBootstrap EbActSendRuntimeStart)) s)"

fun engboot_handleEvent :: "jlib \<Rightarrow> time \<Rightarrow> eng_boot_event \<Rightarrow> ipc_message option \<Rightarrow> engined \<Rightarrow> engined" where
  "engboot_handleEvent L now EbSendClientHello m s = eng_postAction (Some (ActBootstrap EbActSendClientHello)) s"
| "engboot_handleEvent L now EbReceiveServerHello None s = s"
| "engboot_handleEvent L now EbReceiveServerHello (Some msg) s = onServerHello now s"
| "engboot_handleEvent L now EbSendSyncRequest m s = eng_postAction (Some (ActBootstrap EbActSendSyncRequest)) s"
| "engboot_handleEvent L now EbReceiveSyncResponse None s = s"
| "engboot_handleEvent L now EbReceiveSyncResponse (Some msg) s = onSyncResponse L msg s"
| "engboot_handleEvent L now EbSendRuntimeStart m s = eng_postAction (Some (ActBootstrap EbActSendRuntimeStart)) s"
| "engboot_handleEvent L now EbReceiveRuntimeStart m s = s"
| "engboot_handleEvent L now EbReloadFailed m s = eng_postAction (Some (ActBootstrap EbActSendReloadFailed)) s"
| "engboot_handleEvent L now EbUnknown m s = s"

definition bless :: "u64 \<Rightarrow> (ipc_daemon \<times> process_state) list \<Rightarrow> (ipc_daemon \<times> process_state) list" where
  "bless target pm = AList.map_ran (\<lambda>daemon ps.
     if ps_connected ps \<and> ps_appliedVersion ps \<ge> target
     then ps\<lparr>ps_blessedGeneration := ps_generation ps\<rparr> else ps) pm"

fun engboot_handleAction :: "jlib \<Rightarrow> eng_boot_action \<Rightarrow> engined \<Rightarrow> engined" where
  "engboot_handleAction L EbActSendClientHello s =
     (if b_state (e_boot s) \<noteq> WaitHandshake then s else tx_send buildClientHelloMessage s)"
| "engboot_handleAction L EbActSendSyncRequest s =
     (if b_state (e_boot s) \<noteq> Reconcile then s else tx_send buildSyncRequestMessage s)"
| "engboot_handleAction L EbActSendRuntimeStart s =
     (let s = tx_send (buildRuntimeStartMessage L (e_boot s)) s;
          b = e_boot s;
          b = b\<lparr>b_processMap := bless (b_targetVersion b) (b_processMap b), b_bootstrapped := True\<rparr>;
          s = s\<lparr>e_boot := b\<rparr> in
      if b_isReload b then
        let s = s\<lparr>e_boot := b\<lparr>b_isReload := False\<rparr>\<rparr>;
            s = tx_send (buildSettingsCommitResponse L True (e_boot s)) s
        in eng_postEvent (Some (EngCommit ReloadComplete None)) s
      else s)"
| "engboot_handleAction L EbActSendReloadFailed s =
     eng_postEvent (Some (EngCommit ReloadFailed None))
       (tx_send (buildSettingsCommitResponse L False (e_boot s)) s)"
| "engboot_handleAction L EbActUnknown s = s"

definition scheduleServiceReload :: "eng_env \<Rightarrow> time \<Rightarrow> engined \<Rightarrow> engined" where
  "scheduleServiceReload env now s =
     (let s = eng_cached env s in
      s\<lparr>e_boot := (e_boot s)\<lparr>b_targetVersion := eng_version s, b_isReload := True, b_reloadStartedAt := now\<rparr>\<rparr>)"

end
