(* ===== verification/Engined_Commit.thy ===== *)
theory Engined_Commit
  imports Engined_Bootstrap
begin

text \<open>
  \<^verbatim>\<open>engined/service/commit/CommitService\<close>: the queue of settings commits. A commit waits, runs (its
  changes are merged into the running configuration, written as a new version and announced to the
  service daemons), and ends when the reload it started converges or times out.
\<close>

subsection \<open>The queue\<close>

fun statusStr :: "task_status \<Rightarrow> string" where
  "statusStr TaskPending = ''pending''"
| "statusStr TaskRunning = ''running''"
| "statusStr TaskDone = ''done''"
| "statusStr TaskFailed = ''failed''"

definition task_json :: "task \<Rightarrow> json" where
  "task_json t = JObj [(''id'', JInt (t_id t)), (''status'', JStr (statusStr (t_status t)))]"

definition queue_status :: "jlib \<Rightarrow> task list \<Rightarrow> ipc_message" where
  "queue_status L queue =
     mk_message DEngined DMgmtd CmdSettingsCommitStatus 0 (toFlag FlagResponse)
       (jl_dump L (JArr (map task_json queue)))"

definition sendQueueStatus :: "jlib \<Rightarrow> engined \<Rightarrow> engined" where
  "sendQueueStatus L s = tx_send (queue_status L (e_queue s)) s"

text \<open>The first task of a status is given another one; the flag tells whether there was one.\<close>

fun mark_first :: "task_status \<Rightarrow> task_status \<Rightarrow> task list \<Rightarrow> bool \<times> task list" where
  "mark_first old new [] = (False, [])"
| "mark_first old new (t # ts) =
     (if t_status t = old then (True, t\<lparr>t_status := new\<rparr> # ts)
      else let (found, ts') = mark_first old new ts in (found, t # ts'))"

definition startNext :: "jlib \<Rightarrow> engined \<Rightarrow> engined" where
  "startNext L s =
     (let (found, queue) = mark_first TaskPending TaskRunning (e_queue s) in
      if found
      then eng_postAction (Some (ActCommit ApplyCommit)) (sendQueueStatus L (s\<lparr>e_queue := queue\<rparr>))
      else s)"

definition any_running :: "task list \<Rightarrow> bool" where
  "any_running queue \<longleftrightarrow> list_ex (\<lambda>t. t_status t = TaskRunning) queue"

definition finished :: "task \<Rightarrow> bool" where
  "finished t \<longleftrightarrow> t_status t = TaskDone \<or> t_status t = TaskFailed"

text \<open>The loop that drops the front of the queue.\<close>

fun trim_queue :: "task list \<Rightarrow> task list" where
  "trim_queue [] = []"
| "trim_queue (t # ts) = (if length (t # ts) > 5 \<or> finished t then trim_queue ts else t # ts)"

definition end_running :: "jlib \<Rightarrow> task_status \<Rightarrow> engined \<Rightarrow> engined" where
  "end_running L status s =
     startNext L (sendQueueStatus L
       (s\<lparr>e_queue := trim_queue (snd (mark_first TaskRunning status (e_queue s)))\<rparr>))"

fun commit_handleEvent :: "jlib \<Rightarrow> commit_event_type \<Rightarrow> ipc_message option \<Rightarrow> engined \<Rightarrow> engined" where
  "commit_handleEvent L ReceiveSettingsCommit None s = s"
| "commit_handleEvent L ReceiveSettingsCommit (Some msg) s =
     (if msg_payload msg = [] then s
      else
        let t = \<lparr>t_id = e_nextId s, t_payload = msg_payload msg, t_status = TaskPending\<rparr>;
            s = s\<lparr>e_nextId := e_nextId s + 1, e_queue := e_queue s @ [t]\<rparr>;
            s = sendQueueStatus L s
        in if \<not> any_running (e_queue s) then startNext L s else s)"
| "commit_handleEvent L ReloadComplete m s = end_running L TaskDone s"
| "commit_handleEvent L ReloadFailed m s = end_running L TaskFailed s"
| "commit_handleEvent L CommitEvUnknown m s = s"

subsection \<open>Applying a commit\<close>

definition find_running :: "task list \<Rightarrow> task option" where
  "find_running queue = List.find (\<lambda>t. t_status t = TaskRunning) queue"

definition fail_running :: "jlib \<Rightarrow> engined \<Rightarrow> engined" where
  "fail_running L s =
     startNext L (sendQueueStatus L
       (s\<lparr>e_queue := snd (mark_first TaskRunning TaskFailed (e_queue s))\<rparr>))"

text \<open>\<^verbatim>\<open>root[scope][domain].merge_patch(values)\<close>.\<close>

definition stage_change :: "jlib \<Rightarrow> string \<Rightarrow> string \<Rightarrow> json \<Rightarrow> json \<Rightarrow> json_error + json" where
  "stage_change L scope domain values root =
     bind_err (jsub scope root) (\<lambda>section.
       bind_err (jsub domain section) (\<lambda>current.
         bind_err (jset domain (jl_merge L current values) section) (\<lambda>section'.
           jset scope section' root)))"

text \<open>The loop over the changes: the root, how many were applied and how many skipped.\<close>

fun stage_changes :: "jlib \<Rightarrow> json list \<Rightarrow> json \<times> nat \<times> nat \<Rightarrow> json_error + json \<times> nat \<times> nat" where
  "stage_changes L [] acc = Inr acc"
| "stage_changes L (change # changes) (root, applied, failed) =
     bind_err (jvalue get_str ''scope'' [] change) (\<lambda>scope.
       bind_err (jvalue get_str ''domain'' [] change) (\<lambda>domain.
         if scope = [] \<or> domain = [] then stage_changes L changes (root, applied, failed + 1)
         else case jfind ''values'' change of
           None \<Rightarrow> stage_changes L changes (root, applied, failed + 1)
         | Some values \<Rightarrow>
             if \<not> is_object values then stage_changes L changes (root, applied, failed + 1)
             else bind_err (stage_change L scope domain values root) (\<lambda>root'.
                    stage_changes L changes (root', applied + 1, failed))))"

definition config_apply_message :: "ipc_daemon \<Rightarrow> ipc_message" where
  "config_apply_message dst = mk_message DEngined dst CmdConfigApply 0 (toFlag FlagRequest) []"

definition announce :: "engined \<Rightarrow> engined" where
  "announce s = fold (\<lambda>dst. tx_send (config_apply_message dst)) service_daemons s"

text \<open>\<^verbatim>\<open>Config::commitConfig\<close> on the daemon's store; later queries are new ones.\<close>

definition eng_commit :: "eng_env \<Rightarrow> json \<Rightarrow> engined \<Rightarrow> bool \<times> engined" where
  "eng_commit env root s =
     (let (ok, d, c) = commitConfig (en_commit env (e_steps s)) root (e_db s) (e_cfg s)
      in (ok, s\<lparr>e_db := d, e_cfg := c, e_steps := e_steps s + 1\<rparr>))"

definition applyCommit :: "jlib \<Rightarrow> eng_env \<Rightarrow> time \<Rightarrow> engined \<Rightarrow> json_error + engined" where
  "applyCommit L env now s =
     (case find_running (e_queue s) of None \<Rightarrow> Inr s
      | Some running \<Rightarrow>
        (case jl_parse L (t_payload running) of None \<Rightarrow> Inr (fail_running L s)
         | Some changes \<Rightarrow>
           if \<not> is_array changes then Inr (fail_running L s)
           else
             let s = eng_cached env s in
             bind_err (stage_changes L (jitems changes) (cf_cache (e_cfg s), 0, 0)) (\<lambda>(root, applied, failed).
               if applied = 0 then Inr (fail_running L s)
               else
                 let (ok, s) = eng_commit env root s in
                 if \<not> ok then Inr (fail_running L s)
                 else
                   let s = announce s;
                       s = s\<lparr>e_cfg := invalidateConfigCache (e_cfg s)\<rparr>
                   in Inr (scheduleServiceReload env now s))))"

definition commit_handleAction :: "jlib \<Rightarrow> eng_env \<Rightarrow> time \<Rightarrow> commit_action_type \<Rightarrow> engined \<Rightarrow> json_error + engined" where
  "commit_handleAction L env now a s = (case a of ApplyCommit \<Rightarrow> applyCommit L env now s | CommitActUnknown \<Rightarrow> Inr s)"

end
