(* ===== verification/Engined_Heartbeat.thy ===== *)
theory Engined_Heartbeat
  imports Engined_State
begin

text \<open>
  \<^verbatim>\<open>engined/service/heartbeat/HeartbeatService\<close>: rounds of requests to the daemons behind the broker.
  A round ends when every daemon has answered or when the response timeout passes; either way its
  result goes to \<^verbatim>\<open>mgmtd\<close>. The code keeps the daemons in an unordered map; the association list here
  has one of its iteration orders.
\<close>

definition hb_targets :: "ipc_daemon list" where
  "hb_targets = [DAuthd, DProbed, DCollectord, DTopologyd, DMgmtd, DApid]"

definition selfReported :: "ipc_daemon list" where
  "selfReported = [DIpcd, DEngined]"

definition pollInterval :: "engined \<Rightarrow> json_error + time" where
  "pollInterval = eng_interval ''heartbeat'' ''poll_interval_sec'' 5"

definition responseTimeout :: "engined \<Rightarrow> json_error + time" where
  "responseTimeout = eng_interval ''heartbeat'' ''response_timeout_sec'' 2"

definition fresh_entry :: daemon_entry where
  "fresh_entry = \<lparr>de_pending = False, de_alive = False, de_latencyMs = - 1, de_sentAt = 0\<rparr>"

definition hb_start :: "heartbeat \<Rightarrow> heartbeat" where
  "hb_start h = h\<lparr>h_daemonMap := fold (\<lambda>d. AList.update d fresh_entry) hb_targets (h_daemonMap h)\<rparr>"

definition markTimeoutsAsDead :: "(ipc_daemon \<times> daemon_entry) list \<Rightarrow> (ipc_daemon \<times> daemon_entry) list" where
  "markTimeoutsAsDead dm = AList.map_ran (\<lambda>d e.
     if de_pending e then e\<lparr>de_pending := False, de_alive := False, de_latencyMs := - 1\<rparr> else e) dm"

definition hb_schedule :: "eng_env \<Rightarrow> time \<Rightarrow> engined \<Rightarrow> json_error + eng_event option \<times> engined" where
  "hb_schedule env now s =
     (let h = e_hb s in
      if h_roundActive h then
        let s = eng_cached env s in
        bind_err (responseTimeout s) (\<lambda>timeout.
          if now - h_roundStartedAt h \<ge> timeout
          then Inr (Some (EngHeartbeat HbSendHeartbeatResult None),
                    s\<lparr>e_hb := h\<lparr>h_daemonMap := markTimeoutsAsDead (h_daemonMap h),
                        h_roundActive := False, h_pendingCount := 0\<rparr>\<rparr>)
          else Inr (None, s))
      else if h_lastPollAt h = 0
      then Inr (Some (EngHeartbeat SendHeartbeatRequests None), s\<lparr>e_hb := h\<lparr>h_lastPollAt := now\<rparr>\<rparr>)
      else
        let s = eng_cached env s in
        bind_err (pollInterval s) (\<lambda>interval.
          if now - h_lastPollAt h \<ge> interval
          then Inr (Some (EngHeartbeat SendHeartbeatRequests None), s\<lparr>e_hb := h\<lparr>h_lastPollAt := now\<rparr>\<rparr>)
          else Inr (None, s)))"

text \<open>The start of a round.\<close>

definition open_entry :: "time \<Rightarrow> daemon_entry \<Rightarrow> daemon_entry" where
  "open_entry now e = e\<lparr>de_pending := True, de_alive := False, de_latencyMs := - 1, de_sentAt := now\<rparr>"

definition sendRequests :: "time \<Rightarrow> engined \<Rightarrow> engined" where
  "sendRequests now s =
     (let h = e_hb s in
      s\<lparr>e_hb := h\<lparr>h_daemonMap := AList.map_ran (\<lambda>d e. open_entry now e) (h_daemonMap h),
          h_roundActive := True, h_roundStartedAt := now, h_pendingCount := int (length (h_daemonMap h))\<rparr>,
        e_actions := e_actions s @ map (\<lambda>(d, e). ActHeartbeatRequest d) (h_daemonMap h)\<rparr>)"

definition onHeartbeatResponse :: "time \<Rightarrow> ipc_message \<Rightarrow> engined \<Rightarrow> engined" where
  "onHeartbeatResponse now msg s =
     (let h = e_hb s; src = msg_src msg in
      case map_of (h_daemonMap h) src of None \<Rightarrow> s
      | Some entry \<Rightarrow>
         if \<not> de_pending entry then s
         else
           let entry = entry\<lparr>de_pending := False, de_alive := True,
                 de_latencyMs := to_ms (now - de_sentAt entry)\<rparr>;
               h = h\<lparr>h_daemonMap := AList.update src entry (h_daemonMap h), h_pendingCount := h_pendingCount h - 1\<rparr> in
           if h_pendingCount h \<le> 0
           then eng_postEvent (Some (EngHeartbeat HbSendHeartbeatResult None))
                  (s\<lparr>e_hb := h\<lparr>h_roundActive := False, h_pendingCount := 0\<rparr>\<rparr>)
           else s\<lparr>e_hb := h\<rparr>)"

definition result_order :: "ipc_daemon list" where
  "result_order = [DIpcd, DEngined, DAuthd, DProbed, DCollectord, DTopologyd, DMgmtd, DApid]"

definition result_entry :: "(ipc_daemon \<times> daemon_entry) list \<Rightarrow> ipc_daemon \<Rightarrow> json" where
  "result_entry dm d =
     (let name = (''name'', JStr (daemonToStr d)) in
      if d \<in> set selfReported
      then JObj [name, (''status'', JStr ''alive''), (''latency_ms'', JInt 0)]
      else case map_of dm d of
        Some e \<Rightarrow> if de_alive e
          then JObj [name, (''status'', JStr ''alive''), (''latency_ms'', JInt (de_latencyMs e))]
          else JObj [name, (''status'', JStr ''dead''), (''latency_ms'', JNull)]
      | None \<Rightarrow> JObj [name, (''status'', JStr ''dead''), (''latency_ms'', JNull)])"

definition buildResultJson :: "jlib \<Rightarrow> int \<Rightarrow> (ipc_daemon \<times> daemon_entry) list \<Rightarrow> bytes" where
  "buildResultJson L nowMs dm =
     jl_dump L (JObj [(''timestamp_ms'', JInt nowMs), (''daemons'', JArr (map (result_entry dm) result_order))])"

fun hb_handleEvent :: "jlib \<Rightarrow> eng_env \<Rightarrow> time \<Rightarrow> heartbeat_event_type \<Rightarrow> ipc_message option \<Rightarrow> engined \<Rightarrow> engined" where
  "hb_handleEvent L env now SendHeartbeatRequests m s = sendRequests now s"
| "hb_handleEvent L env now ReceiveHeartbeatResponse None s = s"
| "hb_handleEvent L env now ReceiveHeartbeatResponse (Some msg) s = onHeartbeatResponse now msg s"
| "hb_handleEvent L env now HbSendHeartbeatResult m s =
     eng_postAction (Some (ActHeartbeatResult
       (buildResultJson L (en_wall env (e_steps s)) (h_daemonMap (e_hb s))))) s"
| "hb_handleEvent L env now HbUnknown m s = s"

text \<open>The two arms of \<^verbatim>\<open>HeartbeatService::handleAction\<close>.\<close>

definition sendHeartbeatRequest :: "ipc_daemon \<Rightarrow> engined \<Rightarrow> engined" where
  "sendHeartbeatRequest dst s =
     tx_send (mk_message DEngined dst CmdHeartbeatRequest 0 (toFlag FlagRequest) []) s"

definition sendHeartbeatResult :: "bytes \<Rightarrow> engined \<Rightarrow> engined" where
  "sendHeartbeatResult payload s =
     tx_send (mk_message DEngined DMgmtd CmdHeartbeatResult 0 (toFlag FlagRequest) payload) s"

end
