(* ===== verification/Engined_Manager.thy ===== *)
theory Engined_Manager
  imports Engined_Commit Engined_Heartbeat
begin

text \<open>
  \<^verbatim>\<open>EnginedServiceManager\<close> and \<^verbatim>\<open>EnginedProcess\<close>: the services share one event queue and one action
  queue; events go first. A tick polls the broker, asks the services what is due and runs both
  queues until they are empty. Events of the other services leave this state alone.
\<close>

subsection \<open>Dispatching\<close>

definition eng_init :: "db \<Rightarrow> config \<Rightarrow> engined" where
  "eng_init d c =
     \<lparr>e_boot = \<lparr>b_state = Init, b_startedAt = 0, b_lastClientHelloSentAt = 0, b_lastSyncRequestSentAt = 0,
        b_lastBootWarnAt = 0, b_reloadStartedAt = 0, b_targetVersion = 0, b_processMap = [],
        b_isReload = False, b_bootstrapped = False\<rparr>,
      e_queue = [], e_nextId = 1,
      e_hb = \<lparr>h_daemonMap = [], h_lastPollAt = 0, h_roundStartedAt = 0, h_roundActive = False, h_pendingCount = 0\<rparr>,
      e_events = [], e_actions = [], e_tx = [], e_db = d, e_cfg = c, e_steps = 0\<rparr>"

definition eng_start :: "eng_env \<Rightarrow> engined \<Rightarrow> engined" where
  "eng_start env s =
     (let s = boot_start env (en_clock env (e_steps s)) s in s\<lparr>e_hb := hb_start (e_hb s)\<rparr>)"

definition eng_schedule :: "eng_env \<Rightarrow> engined \<Rightarrow> json_error + engined" where
  "eng_schedule env s =
     (let s = s\<lparr>e_steps := e_steps s + 1\<rparr>; now = en_clock env (e_steps s) in
      bind_err (boot_schedule env now s) (\<lambda>(event, s).
        let s = eng_postEvent event s in
        if \<not> boot_isReady s then Inr s
        else map_sum id (\<lambda>(event, s). eng_postEvent event s) (hb_schedule env now s)))"

fun dispatch_event :: "jlib \<Rightarrow> eng_env \<Rightarrow> time \<Rightarrow> eng_event \<Rightarrow> engined \<Rightarrow> json_error + engined" where
  "dispatch_event L env now (EngBootstrap e m) s = Inr (engboot_handleEvent L now e m s)"
| "dispatch_event L env now (EngCommit e m) s = Inr (commit_handleEvent L e m s)"
| "dispatch_event L env now (EngHeartbeat e m) s = Inr (hb_handleEvent L env now e m s)"
| "dispatch_event L env now (EngOther e m) s = Inr s"

fun dispatch_action :: "jlib \<Rightarrow> eng_env \<Rightarrow> time \<Rightarrow> eng_action \<Rightarrow> engined \<Rightarrow> json_error + engined" where
  "dispatch_action L env now (ActBootstrap a) s = Inr (engboot_handleAction L a s)"
| "dispatch_action L env now (ActCommit a) s = commit_handleAction L env now a s"
| "dispatch_action L env now (ActHeartbeatRequest dst) s = Inr (sendHeartbeatRequest dst s)"
| "dispatch_action L env now (ActHeartbeatResult payload) s = Inr (sendHeartbeatResult payload s)"

text \<open>One turn of the loop of \<^verbatim>\<open>EnginedServiceManager::execute\<close>; \<open>None\<close> when both queues are empty.\<close>

definition eng_dispatch :: "jlib \<Rightarrow> eng_env \<Rightarrow> engined \<Rightarrow> (json_error + engined) option" where
  "eng_dispatch L env s =
     (let s = s\<lparr>e_steps := e_steps s + 1\<rparr>; now = en_clock env (e_steps s) in
      case e_events s of
        e # es \<Rightarrow> Some (dispatch_event L env now e (s\<lparr>e_events := es\<rparr>))
      | [] \<Rightarrow>
         (case e_actions s of
            a # as \<Rightarrow> Some (dispatch_action L env now a (s\<lparr>e_actions := as\<rparr>))
          | [] \<Rightarrow> None))"

subsection \<open>The loop ends\<close>

text \<open>
  What an item can still cause: a settings commit posts at most one application, which waits in the
  queue of tasks or in the queue of actions.
\<close>

fun event_weight :: "nat \<Rightarrow> eng_event \<Rightarrow> nat" where
  "event_weight n (EngBootstrap e m) = 3"
| "event_weight n (EngCommit e m) = (if e = ReceiveSettingsCommit then 2 else 1)"
| "event_weight n (EngHeartbeat e m) = (if e = SendHeartbeatRequests then n + 1 else if e = HbSendHeartbeatResult then 2 else 3)"
| "event_weight n (EngOther e m) = 1"

fun action_weight :: "eng_action \<Rightarrow> nat" where
  "action_weight (ActBootstrap a) = 2"
| "action_weight a = 1"

definition pending_tasks :: "task list \<Rightarrow> nat" where
  "pending_tasks q = length (filter (\<lambda>t. t_status t = TaskPending) q)"

definition eng_weight :: "engined \<Rightarrow> nat" where
  "eng_weight s =
     sum_list (map (event_weight (length (h_daemonMap (e_hb s)))) (e_events s))
     + sum_list (map action_weight (e_actions s)) + pending_tasks (e_queue s)"

lemma pending_tasks_simps [simp]:
  "pending_tasks [] = 0" "pending_tasks (t # q) = of_bool (t_status t = TaskPending) + pending_tasks q"
  "pending_tasks (q @ q') = pending_tasks q + pending_tasks q'"
  by (simp_all add: pending_tasks_def)

lemma mark_first_pending:
  "mark_first old new q = (found, q') \<Longrightarrow> new \<noteq> TaskPending \<Longrightarrow>
   pending_tasks q' + of_bool (found \<and> old = TaskPending) = pending_tasks q"
  by (induction q arbitrary: found q') (auto split: if_splits prod.splits)

lemma trim_pending: "pending_tasks (trim_queue q) \<le> pending_tasks q"
  by (induction q) auto

lemma weight_startNext: "eng_weight (startNext L s) \<le> eng_weight s"
proof -
  obtain found q where m: "mark_first TaskPending TaskRunning (e_queue s) = (found, q)" by fastforce
  from mark_first_pending [OF m] show ?thesis
    by (auto simp: startNext_def m eng_weight_def sendQueueStatus_def)
qed

lemma weight_end_running: "eng_weight (end_running L st s) \<le> eng_weight s" if "st \<noteq> TaskPending"
proof -
  obtain found q where m: "mark_first TaskRunning st (e_queue s) = (found, q)" by fastforce
  have "pending_tasks (trim_queue q) \<le> pending_tasks (e_queue s)"
    using mark_first_pending [OF m that] trim_pending [of q] by simp
  then show ?thesis
    unfolding end_running_def m
    by (intro order.trans [OF weight_startNext]) (simp add: eng_weight_def sendQueueStatus_def m)
qed

lemma weight_fail_running: "eng_weight (fail_running L s) \<le> eng_weight s"
proof -
  obtain found q where m: "mark_first TaskRunning TaskFailed (e_queue s) = (found, q)" by fastforce
  show ?thesis
    using mark_first_pending [OF m] unfolding fail_running_def
    by (intro order.trans [OF weight_startNext]) (simp add: eng_weight_def sendQueueStatus_def m)
qed

lemma announce_simps [simp]:
  "e_boot (announce s) = e_boot s" "e_queue (announce s) = e_queue s" "e_nextId (announce s) = e_nextId s"
  "e_hb (announce s) = e_hb s" "e_events (announce s) = e_events s" "e_actions (announce s) = e_actions s"
  "e_tx (announce s) = e_tx s @ map config_apply_message service_daemons"
  "e_db (announce s) = e_db s" "e_cfg (announce s) = e_cfg s" "e_steps (announce s) = e_steps s"
  by (simp_all add: announce_def service_daemons_def)

lemma eng_commit_simps [simp]:
  "eng_commit env root s = (ok, s') \<Longrightarrow> e_boot s' = e_boot s \<and> e_queue s' = e_queue s \<and> e_nextId s' = e_nextId s \<and>
     e_hb s' = e_hb s \<and> e_events s' = e_events s \<and> e_actions s' = e_actions s \<and> e_tx s' = e_tx s"
  by (auto simp: eng_commit_def split: prod.splits)

text \<open>
  The outcomes of an application: no task runs, the task fails with only caches, store and counter
  changed before, or the commit is written and a reload starts.
\<close>

definition same_but_store :: "engined \<Rightarrow> engined \<Rightarrow> bool" where
  "same_but_store s s' \<longleftrightarrow> e_boot s' = e_boot s \<and> e_queue s' = e_queue s \<and> e_nextId s' = e_nextId s \<and>
     e_hb s' = e_hb s \<and> e_events s' = e_events s \<and> e_actions s' = e_actions s \<and> e_tx s' = e_tx s"

lemma applyCommit_cases:
  assumes "applyCommit L env now s = Inr s'"
  obtains (idle) "find_running (e_queue s) = None" "s' = s"
  | (fail) r s1 where "find_running (e_queue s) = Some r" "same_but_store s s1" "s' = fail_running L s1"
  | (reload) r s1 c where "find_running (e_queue s) = Some r" "same_but_store s s1"
      "s' = scheduleServiceReload env now ((announce s1)\<lparr>e_cfg := c\<rparr>)"
proof (cases "find_running (e_queue s)")
  case None
  with assms have "s' = s" by (simp add: applyCommit_def)
  with None show ?thesis by (rule idle)
next
  case (Some r)
  have same: "same_but_store s s" "same_but_store s (eng_cached env s)" by (simp_all add: same_but_store_def)
  let ?s = "eng_cached env s"
  consider "jl_parse L (t_payload r) = None"
    | changes where "jl_parse L (t_payload r) = Some changes" "\<not> is_array changes"
    | changes where "jl_parse L (t_payload r) = Some changes" "is_array changes" by (cases "jl_parse L (t_payload r)") blast+
  then show ?thesis
  proof cases
    case 1
    with assms Some have "s' = fail_running L s" by (simp add: applyCommit_def)
    with Some same(1) show ?thesis by (rule fail)
  next
    case 2
    with assms Some have "s' = fail_running L s" by (simp add: applyCommit_def)
    with Some same(1) show ?thesis by (rule fail)
  next
    case 3
    from assms Some 3 obtain root applied failed where
      st: "stage_changes L (jitems changes) (cf_cache (e_cfg ?s), 0, 0) = Inr (root, applied, failed)"
      by (auto simp: applyCommit_def bind_err_Inr_iff Let_def)
    obtain ok s1 where c: "eng_commit env root ?s = (ok, s1)" by fastforce
    from eng_commit_simps [OF c] have s1: "same_but_store s s1" by (simp add: same_but_store_def)
    have eq: "s' = (if applied = 0 then fail_running L ?s else if \<not> ok then fail_running L s1
      else scheduleServiceReload env now ((announce s1)\<lparr>e_cfg := invalidateConfigCache (e_cfg (announce s1))\<rparr>))"
      using assms Some 3 st c by (simp add: applyCommit_def Let_def split: if_splits)
    show ?thesis
    proof (cases "applied = 0 \<or> \<not> ok")
      case True
      with eq have "s' = fail_running L (if applied = 0 then ?s else s1)" by auto
      with Some show ?thesis using same(2) s1 fail by (metis (full_types))
    next
      case False
      with eq show ?thesis using Some s1 by (intro reload) auto
    qed
  qed
qed

lemma weight_applyCommit: "applyCommit L env now s = Inr s' \<Longrightarrow> eng_weight s' \<le> eng_weight s"
proof (erule applyCommit_cases)
  fix r s1 assume "same_but_store s s1" "s' = fail_running L s1"
  then show ?thesis using weight_fail_running [of L s1] by (simp add: same_but_store_def eng_weight_def)
next
  fix r s1 c assume "same_but_store s s1" "s' = scheduleServiceReload env now (announce s1\<lparr>e_cfg := c\<rparr>)"
  then show ?thesis by (simp add: same_but_store_def eng_weight_def scheduleServiceReload_def Let_def)
qed simp

lemma weight_boot_event:
  "eng_weight (engboot_handleEvent L now e m s) \<le> eng_weight s + 2"
  by (cases "(L, now, e, m, s)" rule: engboot_handleEvent.cases)
     (auto simp: eng_weight_def onServerHello_def onSyncResponse_def Let_def split: prod.splits)

lemma weight_boot_action:
  "eng_weight (engboot_handleAction L a s) \<le> eng_weight s + 1"
  by (cases a) (auto simp: eng_weight_def Let_def)

lemma weight_commit_event:
  "eng_weight (commit_handleEvent L e m s) < eng_weight s + event_weight n (EngCommit e m)"
proof (cases "(L, e, m, s)" rule: commit_handleEvent.cases)
  case (2 L' msg s')
  let ?s = "sendQueueStatus L (s\<lparr>e_nextId := e_nextId s + 1, e_queue := e_queue s @
     [\<lparr>t_id = e_nextId s, t_payload = msg_payload msg, t_status = TaskPending\<rparr>]\<rparr>)"
  have "eng_weight ?s = eng_weight s + 1" by (simp add: eng_weight_def sendQueueStatus_def)
  moreover have "eng_weight (startNext L ?s) \<le> eng_weight ?s" by (rule weight_startNext)
  ultimately show ?thesis using 2 by (auto simp: Let_def)
qed (auto simp: weight_end_running le_imp_less_Suc)

lemma hb_map_length:
  "length (AList.update k v dm) = length dm" if "map_of dm k \<noteq> None"
  using that by (induction dm) auto

lemma weight_hb_event:
  "eng_weight (hb_handleEvent L env now e m s) <
   eng_weight s + event_weight (length (h_daemonMap (e_hb s))) (EngHeartbeat e m)"
  by (cases "(L, env, now, e, m, s)" rule: hb_handleEvent.cases)
     (auto simp: eng_weight_def sendRequests_def onHeartbeatResponse_def Let_def hb_map_length
        AList.map_ran_def comp_def case_prod_unfold sum_list_triv split: option.splits)

lemma dispatch_weight:
  assumes "eng_dispatch L env s = Some (Inr s')" shows "eng_weight s' < eng_weight s"
proof (cases "e_events s")
  case (Cons e es)
  let ?s = "s\<lparr>e_steps := e_steps s + 1, e_events := es\<rparr>"
  have w: "eng_weight s = eng_weight ?s + event_weight (length (h_daemonMap (e_hb s))) e"
    using Cons by (simp add: eng_weight_def)
  from assms Cons have d: "dispatch_event L env (en_clock env (e_steps s + 1)) e ?s = Inr s'"
    by (simp add: eng_dispatch_def)
  show ?thesis
  proof (cases e)
    case (EngBootstrap b m) then have "eng_weight s' \<le> eng_weight ?s + 2"
      using d weight_boot_event [of L "en_clock env (e_steps s + 1)" b m ?s] by simp
    then show ?thesis using w EngBootstrap by simp
  next
    case (EngCommit c m) then show ?thesis using d w weight_commit_event [of L c m ?s] by auto
  next
    case (EngHeartbeat h m) then show ?thesis using d w weight_hb_event [of L env _ h m ?s] by auto
  next
    case (EngOther x1 x2) then show ?thesis using d w by simp
  qed
next
  case Nil
  with assms obtain a as where a: "e_actions s = a # as"
    and d: "dispatch_action L env (en_clock env (e_steps s + 1)) a (s\<lparr>e_steps := e_steps s + 1, e_actions := as\<rparr>) = Inr s'"
    by (auto simp: eng_dispatch_def split: list.splits)
  let ?s = "s\<lparr>e_steps := e_steps s + 1, e_actions := as\<rparr>"
  have w: "eng_weight s = eng_weight ?s + action_weight a" using a by (simp add: eng_weight_def)
  show ?thesis
  proof (cases a)
    case (ActBootstrap b) then have "eng_weight s' \<le> eng_weight ?s + 1" using d weight_boot_action [of L b ?s] by simp
    then show ?thesis using w ActBootstrap by simp
  next
    case (ActCommit c)
    then have "eng_weight s' \<le> eng_weight ?s"
      using d weight_applyCommit by (cases c) (auto simp: commit_handleAction_def)
    then show ?thesis using w ActCommit by simp
  next
    case (ActHeartbeatRequest x3)
    then show ?thesis using d w by (auto simp: sendHeartbeatRequest_def eng_weight_def)
  next
    case (ActHeartbeatResult x4)
    then show ?thesis using d w by (auto simp: sendHeartbeatResult_def eng_weight_def)
  qed
qed

text \<open>\<^verbatim>\<open>EnginedServiceManager::execute\<close>; an exception ends the daemon.\<close>

function execute :: "jlib \<Rightarrow> eng_env \<Rightarrow> engined \<Rightarrow> json_error + engined" where
  "execute L env s =
     (case eng_dispatch L env s of
        None \<Rightarrow> Inr s
      | Some (Inl e) \<Rightarrow> Inl e
      | Some (Inr s') \<Rightarrow> execute L env s')"
  by pat_completeness auto

termination
  by (relation "measure (\<lambda>(L, env, s). eng_weight s)") (simp_all add: dispatch_weight)

declare execute.simps [simp del]

text \<open>\<^verbatim>\<open>EnginedProcess::tick\<close>, with the messages the poll delivers.\<close>

definition eng_tick :: "jlib \<Rightarrow> eng_env \<Rightarrow> ipc_message list \<Rightarrow> engined \<Rightarrow> json_error + engined" where
  "eng_tick L env msgs s = bind_err (eng_schedule env (fold eng_receive msgs s)) (execute L env)"

end
