(* ===== verification/Engined_Reach.thy ===== *)
theory Engined_Reach
  imports Engined_Manager
begin

text \<open>
  The states \<^verbatim>\<open>engined\<close> can reach, one dispatch at a time, and the invariant of its commits: the queue
  holds finished tasks, then at most one running task, then the waiting ones, and a running task is
  matched by exactly one item in flight that will end it.
\<close>

subsection \<open>Reachable states\<close>

inductive engined_reachable :: "jlib \<Rightarrow> eng_env \<Rightarrow> engined \<Rightarrow> bool" for L env where
  er_start: "engined_reachable L env (eng_start env (eng_init d c))"
| er_receive: "engined_reachable L env s \<Longrightarrow> engined_reachable L env (eng_receive msg s)"
| er_schedule: "engined_reachable L env s \<Longrightarrow> eng_schedule env s = Inr s' \<Longrightarrow> engined_reachable L env s'"
| er_dispatch: "engined_reachable L env s \<Longrightarrow> eng_dispatch L env s = Some (Inr s') \<Longrightarrow>
    engined_reachable L env s'"

lemma reachable_receives:
  "engined_reachable L env s \<Longrightarrow> engined_reachable L env (fold eng_receive msgs s)"
  by (induction msgs arbitrary: s) (auto intro: er_receive)

lemma reachable_execute:
  "engined_reachable L env s \<Longrightarrow> execute L env s = Inr s' \<Longrightarrow> engined_reachable L env s'"
proof (induction L env s rule: execute.induct)
  case (1 L env s)
  show ?case
  proof (cases "eng_dispatch L env s")
    case None with 1 show ?thesis by (simp add: execute.simps [of L env s])
  next
    case (Some r)
    with "1.prems"(2) obtain s1 where r: "r = Inr s1" and e: "execute L env s1 = Inr s'"
      by (cases r) (auto simp: execute.simps [of L env s])
    from Some r have "eng_dispatch L env s = Some (Inr s1)" by simp
    then have "engined_reachable L env s1" using "1.prems"(1) er_dispatch by blast
    with 1 Some r e show ?thesis by blast
  qed
qed

lemma reachable_tick:
  "engined_reachable L env s \<Longrightarrow> eng_tick L env msgs s = Inr s' \<Longrightarrow> engined_reachable L env s'"
  unfolding eng_tick_def bind_err_Inr_iff using reachable_execute er_schedule reachable_receives by blast

text \<open>When the loop ends, nothing is queued.\<close>

lemma dispatch_None_iff: "eng_dispatch L env s = None \<longleftrightarrow> e_events s = [] \<and> e_actions s = []"
  by (auto simp: eng_dispatch_def Let_def split: list.splits)

lemma execute_empties: "execute L env s = Inr s' \<Longrightarrow> e_events s' = [] \<and> e_actions s' = []"
proof (induction L env s rule: execute.induct)
  case (1 L env s)
  then show ?case
    by (cases "eng_dispatch L env s")
       (auto simp: execute.simps [of L env s] dispatch_None_iff split: sum.splits)
qed

subsection \<open>The queue of commits\<close>

definition task_rank :: "task \<Rightarrow> nat" where
  "task_rank t = (if finished t then 0 else if t_status t = TaskRunning then 1 else 2)"

definition running_tasks :: "task list \<Rightarrow> nat" where
  "running_tasks q = length (filter (\<lambda>t. t_status t = TaskRunning) q)"

definition queue_ok :: "int \<Rightarrow> task list \<Rightarrow> bool" where
  "queue_ok next q \<longleftrightarrow> sorted (map task_rank q) \<and> sorted_wrt (<) (map t_id q) \<and>
     (\<forall>t \<in> set q. t_id t < next) \<and> running_tasks q \<le> 1"

lemma running_tasks_simps [simp]:
  "running_tasks [] = 0" "running_tasks (t # q) = of_bool (t_status t = TaskRunning) + running_tasks q"
  "running_tasks (q @ q') = running_tasks q + running_tasks q'"
  by (simp_all add: running_tasks_def)

lemma task_rank_simps [simp]:
  "t_status t = TaskRunning \<Longrightarrow> task_rank t = 1" "t_status t = TaskPending \<Longrightarrow> task_rank t = 2"
  "t_status t = TaskDone \<Longrightarrow> task_rank t = 0" "t_status t = TaskFailed \<Longrightarrow> task_rank t = 0"
  by (simp_all add: task_rank_def finished_def)

lemma task_rank_less3: "task_rank t = 0 \<or> task_rank t = 1 \<or> task_rank t = 2"
  by (simp add: task_rank_def)

lemma rank_cases:
  obtains "t_status t = TaskPending" "task_rank t = 2" | "t_status t = TaskRunning" "task_rank t = 1"
  | "finished t" "task_rank t = 0" "t_status t \<noteq> TaskRunning" "t_status t \<noteq> TaskPending"
  by (cases "t_status t") (auto simp: finished_def)

lemma no_running_iff: "running_tasks q = 0 \<longleftrightarrow> (\<forall>t \<in> set q. t_status t \<noteq> TaskRunning)"
  by (induction q) auto

lemma no_pending_iff: "pending_tasks q = 0 \<longleftrightarrow> (\<forall>t \<in> set q. t_status t \<noteq> TaskPending)"
  by (induction q) auto

lemma any_running_iff: "any_running q \<longleftrightarrow> running_tasks q \<noteq> 0"
  by (induction q) (auto simp: any_running_def)

lemma mark_first_ids: "mark_first old new q = (found, q') \<Longrightarrow> map t_id q' = map t_id q"
  by (induction q arbitrary: found q') (auto split: if_splits prod.splits)

lemma ids_bound: "map t_id q' = map t_id q \<Longrightarrow> (\<forall>t \<in> set q. t_id t < n) \<Longrightarrow> (\<forall>t \<in> set q'. t_id t < n)"
  by (metis (no_types, opaque_lifting) imageI image_iff set_map)

lemma mark_running:
  assumes "mark_first TaskRunning st q = (found, q')" "st = TaskDone \<or> st = TaskFailed"
    "sorted (map task_rank q)" "running_tasks q \<le> 1"
  shows "sorted (map task_rank q') \<and> running_tasks q' = 0 \<and> pending_tasks q' = pending_tasks q \<and>
    (found \<longleftrightarrow> running_tasks q = 1)"
  using assms
proof (induction q arbitrary: found q')
  case (Cons t q)
  show ?case
  proof (cases "t_status t = TaskRunning")
    case True
    with Cons.prems have q: "q' = t\<lparr>t_status := st\<rparr> # q" "found" "running_tasks q = 0" by auto
    have "task_rank (t\<lparr>t_status := st\<rparr>) = 0" using Cons.prems(2) by auto
    with q True Cons.prems show ?thesis by auto
  next
    case False
    obtain f r where m: "mark_first TaskRunning st q = (f, r)" by fastforce
    with False Cons.prems have q: "q' = t # r" "found = f" by auto
    have "sorted (map task_rank q)" "running_tasks q \<le> 1" using Cons.prems by auto
    with Cons.IH [OF m Cons.prems(2)] have ih: "sorted (map task_rank r)" "running_tasks r = 0"
      "pending_tasks r = pending_tasks q" "f \<longleftrightarrow> running_tasks q = 1" by auto
    have "\<forall>u \<in> set r. task_rank t \<le> task_rank u"
    proof (cases "t_status t = TaskPending")
      case True
      with Cons.prems(3) have "\<forall>u \<in> set q. task_rank u \<ge> 2" by auto
      then have "\<forall>u \<in> set q. t_status u \<noteq> TaskRunning" by (metis not_numeral_le_zero one_less_numeral_iff linorder_not_le semiring_norm(76) task_rank_simps(1))
      then have "f = False" "r = q" using m
        by (induction q arbitrary: f r) (auto split: prod.splits)
      with \<open>\<forall>u \<in> set q. task_rank u \<ge> 2\<close> True show ?thesis by simp
    next
      case False
      with \<open>t_status t \<noteq> TaskRunning\<close> have "task_rank t = 0" by (cases t rule: rank_cases) auto
      then show ?thesis by simp
    qed
    with q ih False show ?thesis by simp
  qed
qed auto

lemma mark_pending:
  assumes "mark_first TaskPending TaskRunning q = (found, q')" "sorted (map task_rank q)" "running_tasks q = 0"
  shows "sorted (map task_rank q') \<and> running_tasks q' = of_bool found \<and>
    pending_tasks q = pending_tasks q' + of_bool found \<and> (found \<longleftrightarrow> pending_tasks q \<noteq> 0)"
  using assms
proof (induction q arbitrary: found q')
  case (Cons t q)
  show ?case
  proof (cases "t_status t = TaskPending")
    case True
    with Cons.prems have "q' = t\<lparr>t_status := TaskRunning\<rparr> # q" "found" by auto
    moreover from True Cons.prems have "\<forall>u \<in> set q. 1 \<le> task_rank u" by auto
    ultimately show ?thesis using True Cons.prems by auto
  next
    case False
    obtain f r where m: "mark_first TaskPending TaskRunning q = (f, r)" by fastforce
    with False Cons.prems have q: "q' = t # r" "found = f" by auto
    have "task_rank t = 0" using False Cons.prems(3) by (cases t rule: rank_cases) auto
    have "sorted (map task_rank q)" "running_tasks q = 0" using Cons.prems by auto
    from Cons.IH [OF m this] have ih: "sorted (map task_rank r)" "running_tasks r = of_bool f"
      "pending_tasks q = pending_tasks r + of_bool f" "f \<longleftrightarrow> pending_tasks q \<noteq> 0" by blast+
    have t: "pending_tasks (t # q) = pending_tasks q" "pending_tasks (t # r) = pending_tasks r"
      "running_tasks (t # r) = running_tasks r" "sorted (map task_rank (t # r)) = sorted (map task_rank r)"
      using False Cons.prems(3) \<open>task_rank t = 0\<close> by simp_all
    show ?thesis unfolding q t using ih by blast
  qed
qed auto

lemma trim_is_drop: "\<exists>k. trim_queue q = drop k q"
proof (induction q)
  case (Cons t q)
  then obtain k where k: "trim_queue q = drop k q" by blast
  have "trim_queue (t # q) = drop (if length (t # q) > 5 \<or> finished t then Suc k else 0) (t # q)" by (simp add: k)
  then show ?case by blast
qed simp

lemma trim_queue_ok: "queue_ok n q \<Longrightarrow> queue_ok n (trim_queue q)"
proof -
  assume ok: "queue_ok n q"
  obtain k where k: "trim_queue q = drop k q" using trim_is_drop by blast
  have "running_tasks q = running_tasks (take k q) + running_tasks (drop k q)"
    by (metis append_take_drop_id running_tasks_simps(3))
  with ok show ?thesis
    by (auto simp: queue_ok_def k drop_map [symmetric] sorted_wrt_drop dest: in_set_dropD)
qed

lemma trim_running: "running_tasks q = 0 \<Longrightarrow> running_tasks (trim_queue q) = 0"
  by (induction q) auto

lemma queue_ok_mark:
  assumes "queue_ok n q" "mark_first old new q = (found, q')" "sorted (map task_rank q')" "running_tasks q' \<le> 1"
  shows "queue_ok n q'"
  using assms ids_bound [OF mark_first_ids [OF assms(2)]] mark_first_ids [OF assms(2)]
  by (simp add: queue_ok_def)

subsection \<open>Items in flight\<close>

text \<open>
  The items that will end the running task: its application, the reload it started, and the events
  and actions that report the reload's end.
\<close>

fun event_token :: "eng_event \<Rightarrow> nat" where
  "event_token (EngBootstrap e m) = of_bool (e = EbReloadFailed)"
| "event_token (EngCommit e m) = of_bool (e = ReloadComplete \<or> e = ReloadFailed)"
| "event_token e = 0"

fun action_token :: "eng_action \<Rightarrow> nat" where
  "action_token (ActBootstrap a) = of_bool (a = EbActSendReloadFailed)"
| "action_token (ActCommit a) = of_bool (a = ApplyCommit)"
| "action_token a = 0"

definition in_progress :: "engined \<Rightarrow> nat" where
  "in_progress s = sum_list (map event_token (e_events s)) + sum_list (map action_token (e_actions s))
     + of_bool (b_isReload (e_boot s))"

definition commit_ok :: "engined \<Rightarrow> bool" where
  "commit_ok s \<longleftrightarrow> queue_ok (e_nextId s) (e_queue s) \<and> running_tasks (e_queue s) = in_progress s \<and>
     (pending_tasks (e_queue s) \<noteq> 0 \<longrightarrow> running_tasks (e_queue s) = 1)"

lemma startNext_ok:
  assumes "queue_ok (e_nextId s) (e_queue s)" "running_tasks (e_queue s) = 0" "in_progress s = 0"
  shows "commit_ok (startNext L s)"
proof -
  obtain found q where m: "mark_first TaskPending TaskRunning (e_queue s) = (found, q)" by fastforce
  have p: "sorted (map task_rank q)" "running_tasks q = of_bool found"
    "pending_tasks (e_queue s) = pending_tasks q + of_bool found" "found \<longleftrightarrow> pending_tasks (e_queue s) \<noteq> 0"
    using mark_pending [OF m _ assms(2)] assms(1) unfolding queue_ok_def by blast+
  show ?thesis
  proof (cases found)
    case True
    then have "queue_ok (e_nextId s) q" using queue_ok_mark [OF assms(1) m] p(1,2) by simp
    then show ?thesis using True p(2) assms(3) by (simp add: commit_ok_def startNext_def m sendQueueStatus_def in_progress_def)
  next
    case False
    with p(4) assms show ?thesis by (simp add: commit_ok_def startNext_def m)
  qed
qed

text \<open>The running task ends, whatever ends it.\<close>

lemma end_running_ok:
  assumes "queue_ok (e_nextId s) (e_queue s)" "st = TaskDone \<or> st = TaskFailed" "in_progress s = 0"
  shows "commit_ok (end_running L st s)"
proof -
  obtain found q where m: "mark_first TaskRunning st (e_queue s) = (found, q)" by fastforce
  have p: "sorted (map task_rank q)" "running_tasks q = 0"
    using mark_running [OF m assms(2)] assms(1) by (auto simp: queue_ok_def)
  then have "queue_ok (e_nextId s) (trim_queue q)" "running_tasks (trim_queue q) = 0"
    using trim_queue_ok queue_ok_mark [OF assms(1) m] trim_running by auto
  then show ?thesis
    unfolding end_running_def m snd_conv
    by (intro startNext_ok) (use assms(3) in \<open>simp_all add: sendQueueStatus_def in_progress_def\<close>)
qed

lemma fail_running_ok:
  assumes "queue_ok (e_nextId s) (e_queue s)" "in_progress s = 0"
  shows "commit_ok (fail_running L s)"
proof -
  obtain found q where m: "mark_first TaskRunning TaskFailed (e_queue s) = (found, q)" by fastforce
  have p: "sorted (map task_rank q)" "running_tasks q = 0"
    using mark_running [OF m] assms(1) by (auto simp: queue_ok_def)
  then have "queue_ok (e_nextId s) q" using queue_ok_mark [OF assms(1) m] by auto
  with p show ?thesis
    unfolding fail_running_def m snd_conv
    by (intro startNext_ok) (use assms(2) in \<open>simp_all add: sendQueueStatus_def in_progress_def\<close>)
qed

lemma queue_ok_append:
  assumes "queue_ok n q" "t_status t = TaskPending" "t_id t = n"
  shows "queue_ok (n + 1) (q @ [t])"
proof -
  have "\<forall>u \<in> set q. task_rank u \<le> 2" by (simp add: task_rank_def)
  with assms show ?thesis
    by (fastforce simp: queue_ok_def sorted_append sorted_wrt_append)
qed

lemma receive_commit_ok:
  assumes "commit_ok s"
  shows "commit_ok (commit_handleEvent L ReceiveSettingsCommit (Some msg) s)"
proof -
  let ?t = "\<lparr>t_id = e_nextId s, t_payload = msg_payload msg, t_status = TaskPending\<rparr>"
  let ?s = "sendQueueStatus L (s\<lparr>e_nextId := e_nextId s + 1, e_queue := e_queue s @ [?t]\<rparr>)"
  have q: "queue_ok (e_nextId ?s) (e_queue ?s)"
    using assms queue_ok_append [of "e_nextId s" "e_queue s" ?t]
    by (simp add: commit_ok_def sendQueueStatus_def)
  have r: "running_tasks (e_queue ?s) = running_tasks (e_queue s)" "in_progress ?s = in_progress s"
    by (simp_all add: sendQueueStatus_def in_progress_def)
  show ?thesis
  proof (cases "running_tasks (e_queue s) = 0")
    case True
    with q r assms have "commit_ok (startNext L ?s)" by (intro startNext_ok) (auto simp: commit_ok_def)
    with True r show ?thesis using assms by (simp add: any_running_iff Let_def)
  next
    case False
    with q r assms have "commit_ok ?s" by (auto simp: commit_ok_def queue_ok_def)
    with False r show ?thesis using assms by (simp add: any_running_iff Let_def)
  qed
qed

subsection \<open>Every step keeps the commits in order\<close>

lemma commit_ok_frame:
  "e_queue s' = e_queue s \<Longrightarrow> e_nextId s' = e_nextId s \<Longrightarrow> in_progress s' = in_progress s \<Longrightarrow>
   commit_ok s' = commit_ok s"
  by (simp add: commit_ok_def)

lemma boot_event_progress:
  "e_queue (engboot_handleEvent L now e m s) = e_queue s \<and> e_nextId (engboot_handleEvent L now e m s) = e_nextId s \<and>
   in_progress (engboot_handleEvent L now e m s) = in_progress s + event_token (EngBootstrap e m)"
  by (cases "(L, now, e, m, s)" rule: engboot_handleEvent.cases)
     (auto simp: in_progress_def onServerHello_def onSyncResponse_def Let_def split: prod.splits)

lemma boot_action_progress:
  "e_queue (engboot_handleAction L a s) = e_queue s \<and> e_nextId (engboot_handleAction L a s) = e_nextId s \<and>
   in_progress (engboot_handleAction L a s) = in_progress s + action_token (ActBootstrap a)"
  by (cases a) (auto simp: in_progress_def Let_def)

lemma hb_event_progress:
  "e_queue (hb_handleEvent L env now e m s) = e_queue s \<and> e_nextId (hb_handleEvent L env now e m s) = e_nextId s \<and>
   in_progress (hb_handleEvent L env now e m s) = in_progress s"
  by (cases "(L, env, now, e, m, s)" rule: hb_handleEvent.cases)
     (auto simp: in_progress_def sendRequests_def onHeartbeatResponse_def Let_def comp_def case_prod_unfold
       split: option.splits)

lemma eng_event_create_token: "eng_event_create m = Some e \<Longrightarrow> event_token e = 0"
  by (auto simp: eng_event_create_def split: option.splits ipc_cmd.splits)

lemma receive_keeps_commits:
  assumes "commit_ok s" shows "commit_ok (eng_receive msg s)"
proof -
  have "commit_ok (eng_receive msg s) = commit_ok s"
    by (intro commit_ok_frame; cases "eng_event_create (Some msg)")
       (auto simp: eng_receive_def in_progress_def eng_event_create_token)
  with assms show ?thesis by simp
qed

lemma warnIfBootSlow_frame:
  "warnIfBootSlow now s = Inr s' \<Longrightarrow> \<exists>t. s' = s\<lparr>e_boot := (e_boot s)\<lparr>b_lastBootWarnAt := t\<rparr>\<rparr>"
  by (auto simp: warnIfBootSlow_def bind_err_Inr_iff Let_def split: if_splits intro: exI [of _ "b_lastBootWarnAt (e_boot s)"])

lemma boot_schedule_progress:
  assumes "boot_schedule env now s = Inr (ev, s')"
  shows "e_queue s' = e_queue s \<and> e_nextId s' = e_nextId s \<and> e_events s' = e_events s \<and> e_actions s' = e_actions s \<and>
    e_hb s' = e_hb s \<and> e_tx s' = e_tx s \<and>
    of_bool (b_isReload (e_boot s)) = of_bool (b_isReload (e_boot s')) + (case ev of None \<Rightarrow> 0 | Some e \<Rightarrow> event_token e) \<and>
    (\<forall>e. ev = Some e \<longrightarrow> (\<exists>b. e = EngBootstrap b None))"
  using assms
  by (auto simp: boot_schedule_def bind_err_Inr_iff Let_def dest!: warnIfBootSlow_frame
      split: boot_state.splits if_splits)

lemma hb_schedule_progress:
  assumes "hb_schedule env now s = Inr (ev, s')"
  shows "e_queue s' = e_queue s \<and> e_nextId s' = e_nextId s \<and> e_events s' = e_events s \<and> e_actions s' = e_actions s \<and>
    e_boot s' = e_boot s \<and> e_tx s' = e_tx s \<and> (\<forall>e. ev = Some e \<longrightarrow> (\<exists>h. e = EngHeartbeat h None))"
  using assms by (auto simp: hb_schedule_def bind_err_Inr_iff Let_def split: if_splits)

text \<open>A scheduling round asks the bootstrap service and, once the fleet is up, the heartbeat service.\<close>

lemma schedule_cases:
  assumes "eng_schedule env s = Inr s'"
  obtains (boot) ev s1 where
      "boot_schedule env (en_clock env (e_steps s + 1)) (s\<lparr>e_steps := e_steps s + 1\<rparr>) = Inr (ev, s1)"
      "s' = eng_postEvent ev s1"
  | (both) ev s1 ev' s2 where
      "boot_schedule env (en_clock env (e_steps s + 1)) (s\<lparr>e_steps := e_steps s + 1\<rparr>) = Inr (ev, s1)"
      "boot_isReady (eng_postEvent ev s1)"
      "hb_schedule env (en_clock env (e_steps s + 1)) (eng_postEvent ev s1) = Inr (ev', s2)"
      "s' = eng_postEvent ev' s2"
proof -
  let ?s = "s\<lparr>e_steps := e_steps s + 1\<rparr>" and ?now = "en_clock env (e_steps (s\<lparr>e_steps := e_steps s + 1\<rparr>))"
  from assms obtain ev s1 where b: "boot_schedule env ?now ?s = Inr (ev, s1)"
    and r: "(if \<not> boot_isReady (eng_postEvent ev s1) then Inr (eng_postEvent ev s1)
      else map_sum id (\<lambda>(event, s). eng_postEvent event s) (hb_schedule env ?now (eng_postEvent ev s1))) = Inr s'"
    unfolding eng_schedule_def bind_err_Inr_iff Let_def by auto
  show ?thesis
  proof (cases "boot_isReady (eng_postEvent ev s1)")
    case True
    with r obtain ev' s2 where "hb_schedule env ?now (eng_postEvent ev s1) = Inr (ev', s2)" "s' = eng_postEvent ev' s2"
      by (cases "hb_schedule env ?now (eng_postEvent ev s1)") auto
    with b True show ?thesis by (intro both [of ev s1 ev' s2]) simp_all
  next
    case False
    with r b show ?thesis by (intro boot [of ev s1]) simp_all
  qed
qed

lemma post_boot_progress:
  assumes "boot_schedule env now s = Inr (ev, s')"
  shows "e_queue (eng_postEvent ev s') = e_queue s" "e_nextId (eng_postEvent ev s') = e_nextId s"
    "in_progress (eng_postEvent ev s') = in_progress s"
  using boot_schedule_progress [OF assms] by (cases ev; auto simp: in_progress_def)+

lemma post_hb_progress:
  assumes "hb_schedule env now s = Inr (ev, s')"
  shows "e_queue (eng_postEvent ev s') = e_queue s" "e_nextId (eng_postEvent ev s') = e_nextId s"
    "in_progress (eng_postEvent ev s') = in_progress s"
  using hb_schedule_progress [OF assms] by (cases ev; auto simp: in_progress_def)+

lemma schedule_keeps_commits:
  assumes "commit_ok s" "eng_schedule env s = Inr s'"
  shows "commit_ok s'"
proof -
  have "commit_ok (s\<lparr>e_steps := e_steps s + 1\<rparr>) = commit_ok s"
    by (intro commit_ok_frame) (simp_all add: in_progress_def)
  with assms(1) have s: "commit_ok (s\<lparr>e_steps := e_steps s + 1\<rparr>)" by simp
  from assms(2) show ?thesis
  proof (cases rule: schedule_cases)
    case (boot ev s1)
    with s commit_ok_frame [OF post_boot_progress [OF boot(1)]] show ?thesis by simp
  next
    case (both ev s1 ev' s2)
    with s commit_ok_frame [OF post_boot_progress [OF both(1)]] commit_ok_frame [OF post_hb_progress [OF both(3)]]
    show ?thesis by simp
  qed
qed

lemma find_running_iff: "find_running q = None \<longleftrightarrow> running_tasks q = 0"
  by (auto simp: find_running_def find_None_iff no_running_iff)

lemma applyCommit_keeps_commits:
  assumes "queue_ok (e_nextId s) (e_queue s)" "in_progress s = 0" "running_tasks (e_queue s) = 1"
    and "applyCommit L env now s = Inr s'"
  shows "commit_ok s'"
  using assms(4)
proof (cases rule: applyCommit_cases)
  case idle
  with assms(3) show ?thesis by (simp add: find_running_iff)
next
  case (fail r s1)
  then have "in_progress s1 = 0" using assms(2) by (simp add: same_but_store_def in_progress_def)
  then show ?thesis using fail assms(1) fail_running_ok [of s1 L] by (simp add: same_but_store_def)
next
  case (reload r s1 c)
  then have q: "e_queue s' = e_queue s" "e_nextId s' = e_nextId s" "in_progress s' = 1"
    using assms(2) by (simp_all add: same_but_store_def in_progress_def scheduleServiceReload_def Let_def)
  with assms(1,3) show ?thesis by (simp add: commit_ok_def)
qed

lemma event_keeps_commits:
  assumes "dispatch_event L env now e s = Inr s'" "queue_ok (e_nextId s) (e_queue s)"
    "running_tasks (e_queue s) = in_progress s + event_token e"
    "pending_tasks (e_queue s) \<noteq> 0 \<longrightarrow> running_tasks (e_queue s) = 1"
  shows "commit_ok s'"
proof (cases e)
  case (EngBootstrap b m)
  then show ?thesis using assms boot_event_progress [of L now b m s] by (auto simp: commit_ok_def)
next
  case (EngHeartbeat h m)
  then show ?thesis using assms hb_event_progress [of L env now h m s] by (auto simp: commit_ok_def)
next
  case (EngOther x y)
  then show ?thesis using assms by (simp add: commit_ok_def)
next
  case (EngCommit c m)
  have le: "running_tasks (e_queue s) \<le> 1" using assms(2) by (simp add: queue_ok_def)
  show ?thesis
  proof (cases c)
    case CommitEvUnknown
    then show ?thesis using assms EngCommit by (simp add: commit_ok_def)
  next
    case ReceiveSettingsCommit
    then have "commit_ok s" using assms EngCommit by (simp add: commit_ok_def)
    then show ?thesis
      using assms(1) EngCommit ReceiveSettingsCommit receive_commit_ok by (cases m) auto
  next
    case ReloadComplete
    then have "in_progress s = 0" using assms(3) EngCommit le by simp
    then show ?thesis using assms(1,2) EngCommit ReloadComplete end_running_ok by auto
  next
    case ReloadFailed
    then have "in_progress s = 0" using assms(3) EngCommit le by simp
    then show ?thesis using assms(1,2) EngCommit ReloadFailed end_running_ok by auto
  qed
qed

lemma action_keeps_commits:
  assumes "dispatch_action L env now a s = Inr s'" "queue_ok (e_nextId s) (e_queue s)"
    "running_tasks (e_queue s) = in_progress s + action_token a"
    "pending_tasks (e_queue s) \<noteq> 0 \<longrightarrow> running_tasks (e_queue s) = 1"
  shows "commit_ok s'"
proof (cases a)
  case (ActBootstrap b)
  then show ?thesis using assms boot_action_progress [of L b s] by (auto simp: commit_ok_def)
next
  case (ActCommit c)
  have le: "running_tasks (e_queue s) \<le> 1" using assms(2) by (simp add: queue_ok_def)
  show ?thesis
  proof (cases c)
    case CommitActUnknown
    then show ?thesis using assms ActCommit by (simp add: commit_ok_def commit_handleAction_def)
  next
    case ApplyCommit
    then have "in_progress s = 0" "running_tasks (e_queue s) = 1" using assms(3) ActCommit le by simp_all
    then show ?thesis
      using assms(1,2) ActCommit ApplyCommit applyCommit_keeps_commits by (simp add: commit_handleAction_def)
  qed
next
  case (ActHeartbeatRequest d)
  then show ?thesis using assms by (auto simp: commit_ok_def sendHeartbeatRequest_def in_progress_def)
next
  case (ActHeartbeatResult d)
  then show ?thesis using assms by (auto simp: commit_ok_def sendHeartbeatResult_def in_progress_def)
qed

text \<open>A dispatch takes one item off its queue and runs its handler on the rest.\<close>

lemma dispatch_cases:
  assumes "eng_dispatch L env s = Some r"
  obtains (event) e es where "e_events s = e # es"
      "dispatch_event L env (en_clock env (e_steps s + 1)) e (s\<lparr>e_steps := e_steps s + 1, e_events := es\<rparr>) = r"
  | (action) a as where "e_events s = []" "e_actions s = a # as"
      "dispatch_action L env (en_clock env (e_steps s + 1)) a (s\<lparr>e_steps := e_steps s + 1, e_actions := as\<rparr>) = r"
  using assms by (auto simp: eng_dispatch_def Let_def split: list.splits)

lemma dispatch_keeps_commits:
  assumes "commit_ok s" "eng_dispatch L env s = Some (Inr s')"
  shows "commit_ok s'"
  using assms(2)
proof (cases rule: dispatch_cases)
  case (event e es)
  have "in_progress s = in_progress (s\<lparr>e_steps := e_steps s + 1, e_events := es\<rparr>) + event_token e"
    using event(1) by (simp add: in_progress_def)
  with assms(1) show ?thesis
    by (intro event_keeps_commits [OF event(2)]) (auto simp: commit_ok_def)
next
  case (action a as)
  have "in_progress s = in_progress (s\<lparr>e_steps := e_steps s + 1, e_actions := as\<rparr>) + action_token a"
    using action(2) by (simp add: in_progress_def)
  with assms(1) show ?thesis
    by (intro action_keeps_commits [OF action(3)]) (auto simp: commit_ok_def)
qed

lemma start_simps:
  "e_queue (eng_start env (eng_init d c)) = []" "e_nextId (eng_start env (eng_init d c)) = 1"
  "e_events (eng_start env (eng_init d c)) = []" "e_actions (eng_start env (eng_init d c)) = []"
  "e_tx (eng_start env (eng_init d c)) = []" "b_isReload (e_boot (eng_start env (eng_init d c))) = False"
  "h_daemonMap (e_hb (eng_start env (eng_init d c))) = map (\<lambda>d. (d, fresh_entry)) hb_targets"
  "h_roundActive (e_hb (eng_start env (eng_init d c))) = False" "h_pendingCount (e_hb (eng_start env (eng_init d c))) = 0"
  by (simp_all add: eng_start_def boot_start_def initProcessMap_def eng_init_def hb_start_def hb_targets_def Let_def
      eng_cached_def)

lemma start_commit_ok: "commit_ok (eng_start env (eng_init d c))"
  by (simp add: commit_ok_def queue_ok_def in_progress_def start_simps)

lemma reachable_commit_ok: "engined_reachable L env s \<Longrightarrow> commit_ok s"
  by (induction rule: engined_reachable.induct)
     (blast intro: start_commit_ok receive_keeps_commits schedule_keeps_commits dispatch_keeps_commits)+

end
