(* ===== verification/Engined_Reload.thy ===== *)
theory Engined_Reload
  imports Engined_Reach
begin

text \<open>
  What the commit path of \<^verbatim>\<open>engined\<close> promises: the loop of a tick ends within a number of dispatches
  its input fixes, commits are applied one at a time in the order of their arrival, and every reload
  that is started gets one response.
\<close>

subsection \<open>The loop with a bound on its turns\<close>

fun execute_fuel :: "nat \<Rightarrow> jlib \<Rightarrow> eng_env \<Rightarrow> engined \<Rightarrow> (json_error + engined) option" where
  "execute_fuel 0 L env s = None"
| "execute_fuel (Suc n) L env s =
     (case eng_dispatch L env s of
        None \<Rightarrow> Some (Inr s)
      | Some (Inl e) \<Rightarrow> Some (Inl e)
      | Some (Inr s') \<Rightarrow> execute_fuel n L env s')"

lemma execute_fuel_enough:
  "eng_weight s < n \<Longrightarrow> execute_fuel n L env s = Some (execute L env s)"
proof (induction n arbitrary: s)
  case (Suc n)
  show ?case
  proof (cases "eng_dispatch L env s")
    case (Some r)
    show ?thesis
    proof (cases r)
      case (Inr s')
      with Some dispatch_weight have "eng_weight s' < eng_weight s" by blast
      with Suc Some Inr show ?thesis by (simp add: execute.simps [of L env s])
    qed (use Some in \<open>simp add: execute.simps [of L env s]\<close>)
  qed (simp add: execute.simps [of L env s])
qed simp

subsection \<open>Reloads and their responses\<close>

text \<open>Every started reload sends \<^verbatim>\<open>authd\<close> one \<open>ConfigApply\<close>.\<close>

definition starts_reload :: "ipc_message \<Rightarrow> bool" where
  "starts_reload m \<longleftrightarrow> msg_cmd m = CmdConfigApply \<and> msg_dst m = DAuthd"

definition answers_reload :: "ipc_message \<Rightarrow> bool" where
  "answers_reload m \<longleftrightarrow> msg_cmd m = CmdSettingsCommitResponse"

definition sent :: "(ipc_message \<Rightarrow> bool) \<Rightarrow> engined \<Rightarrow> nat" where
  "sent p s = length (filter p (e_tx s))"

fun event_report :: "eng_event \<Rightarrow> nat" where
  "event_report (EngBootstrap e m) = of_bool (e = EbReloadFailed)"
| "event_report e = 0"

fun action_report :: "eng_action \<Rightarrow> nat" where
  "action_report (ActBootstrap a) = of_bool (a = EbActSendReloadFailed)"
| "action_report a = 0"

text \<open>Reloads that are running or whose failure is about to be reported.\<close>

definition open_reloads :: "engined \<Rightarrow> nat" where
  "open_reloads s = sum_list (map event_report (e_events s)) + sum_list (map action_report (e_actions s))
     + of_bool (b_isReload (e_boot s))"

definition unanswered :: "engined \<Rightarrow> int" where
  "unanswered s = int (sent starts_reload s) - int (sent answers_reload s) - int (open_reloads s)"

lemma sent_simps:
  "e_tx s' = e_tx s @ ms \<Longrightarrow> sent p s' = sent p s + length (filter p ms)"
  by (simp add: sent_def)

lemma unanswered_frame:
  "e_tx s' = e_tx s @ ms \<Longrightarrow> \<forall>m \<in> set ms. \<not> starts_reload m \<and> \<not> answers_reload m \<Longrightarrow>
   open_reloads s' = open_reloads s + k \<Longrightarrow> unanswered s' = unanswered s - int k"
  by (simp add: unanswered_def sent_simps filter_empty_conv)

lemma plain_messages [simp]:
  "\<not> starts_reload (queue_status L q)" "\<not> answers_reload (queue_status L q)"
  "\<not> starts_reload buildClientHelloMessage" "\<not> answers_reload buildClientHelloMessage"
  "\<not> starts_reload buildSyncRequestMessage" "\<not> answers_reload buildSyncRequestMessage"
  "\<not> starts_reload (buildRuntimeStartMessage L b)" "\<not> answers_reload (buildRuntimeStartMessage L b)"
  "\<not> starts_reload (buildSettingsCommitResponse L ok b)" "answers_reload (buildSettingsCommitResponse L ok b)"
  by (simp_all add: starts_reload_def answers_reload_def queue_status_def buildClientHelloMessage_def
      buildSyncRequestMessage_def buildRuntimeStartMessage_def buildSettingsCommitResponse_def)

text \<open>The commit service sends status messages only, and posts applications only.\<close>

definition status_only :: "engined \<Rightarrow> engined \<Rightarrow> bool" where
  "status_only s s' \<longleftrightarrow> (\<exists>ms. e_tx s' = e_tx s @ ms \<and> (\<forall>m \<in> set ms. msg_cmd m = CmdSettingsCommitStatus)) \<and>
     e_boot s' = e_boot s \<and> e_events s' = e_events s \<and>
     (\<exists>as. e_actions s' = e_actions s @ as \<and> set as \<subseteq> {ActCommit ApplyCommit})"

lemma status_only_refl: "status_only s s"
  by (simp add: status_only_def)

lemma status_only_trans: "status_only s t \<Longrightarrow> status_only t u \<Longrightarrow> status_only s u"
  unfolding status_only_def by (elim conjE exE) (rule conjI, (force | simp)+)

lemma status_only_send: "status_only s (sendQueueStatus L s)"
  by (simp add: status_only_def sendQueueStatus_def queue_status_def)

lemma status_only_queue: "status_only s (s\<lparr>e_queue := q\<rparr>)" "status_only s (s\<lparr>e_nextId := n, e_queue := q\<rparr>)"
  by (simp_all add: status_only_def)

lemma status_only_startNext: "status_only s (startNext L s)"
  by (auto simp: startNext_def status_only_def sendQueueStatus_def queue_status_def split: prod.splits)

lemma status_only_unanswered: "status_only s s' \<Longrightarrow> unanswered s' = unanswered s"
proof -
  assume "status_only s s'"
  then obtain ms as where t: "e_tx s' = e_tx s @ ms" "\<forall>m \<in> set ms. msg_cmd m = CmdSettingsCommitStatus"
    and a: "e_actions s' = e_actions s @ as" "set as \<subseteq> {ActCommit ApplyCommit}"
    and e: "e_boot s' = e_boot s" "e_events s' = e_events s" by (auto simp: status_only_def)
  have "sum_list (map action_report as) = 0" using a(2) by (induction as) auto
  then have "open_reloads s' = open_reloads s + 0" using a e by (simp add: open_reloads_def)
  with t show ?thesis using unanswered_frame [OF t(1)] by (fastforce simp: starts_reload_def answers_reload_def)
qed

lemma status_only_ends: "status_only s (end_running L st s)" "status_only s (fail_running L s)"
  unfolding end_running_def fail_running_def
  by (rule status_only_trans [OF status_only_trans [OF status_only_queue(1) status_only_send] status_only_startNext])+

lemma status_only_event: "status_only s (commit_handleEvent L e m s)"
proof (cases "(L, e, m, s)" rule: commit_handleEvent.cases)
  case (2 L' msg s')
  let ?t = "\<lparr>t_id = e_nextId s, t_payload = msg_payload msg, t_status = TaskPending\<rparr>"
  have "status_only s (sendQueueStatus L (s\<lparr>e_nextId := e_nextId s + 1, e_queue := e_queue s @ [?t]\<rparr>))"
    by (rule status_only_trans [OF status_only_queue(2) status_only_send])
  with 2 show ?thesis by (auto simp: Let_def status_only_refl intro: status_only_trans status_only_startNext)
qed (auto simp: status_only_refl status_only_ends)

lemma unanswered_boot_event:
  "unanswered (engboot_handleEvent L now e m s) = unanswered s - int (event_report (EngBootstrap e m))"
  by (rule unanswered_frame [where ms = "[]"]; cases "(L, now, e, m, s)" rule: engboot_handleEvent.cases)
     (auto simp: open_reloads_def onServerHello_def onSyncResponse_def Let_def split: prod.splits)

lemma unanswered_boot_action:
  "unanswered (engboot_handleAction L a s) = unanswered s - int (action_report (ActBootstrap a))"
  by (cases a) (auto simp: unanswered_def sent_def open_reloads_def Let_def)

lemma unanswered_hb_event: "unanswered (hb_handleEvent L env now e m s) = unanswered s"
  using unanswered_frame [of "hb_handleEvent L env now e m s" s "[]" 0]
  by (cases "(L, env, now, e, m, s)" rule: hb_handleEvent.cases)
     (auto simp: open_reloads_def sendRequests_def onHeartbeatResponse_def Let_def comp_def case_prod_unfold
       split: option.splits)

lemma unanswered_event:
  "dispatch_event L env now e s = Inr s' \<Longrightarrow> unanswered s' = unanswered s - int (event_report e)"
  by (cases e) (auto simp: unanswered_boot_event unanswered_hb_event status_only_unanswered [OF status_only_event]
      simp del: engboot_handleEvent.simps hb_handleEvent.simps commit_handleEvent.simps)

lemma unanswered_announce:
  assumes "\<not> b_isReload (e_boot s)"
  shows "unanswered (scheduleServiceReload env now ((announce s)\<lparr>e_cfg := c\<rparr>)) = unanswered s"
  using assms
  by (simp add: unanswered_def sent_def open_reloads_def scheduleServiceReload_def Let_def service_daemons_def
      config_apply_message_def starts_reload_def answers_reload_def)

lemma unanswered_action:
  assumes "dispatch_action L env now a s = Inr s'" "a = ActCommit ApplyCommit \<longrightarrow> \<not> b_isReload (e_boot s)"
  shows "unanswered s' = unanswered s - int (action_report a)"
proof (cases a)
  case (ActBootstrap b) then show ?thesis using assms by (auto simp: unanswered_boot_action simp del: engboot_handleAction.simps)
next
  case (ActHeartbeatRequest d)
  then show ?thesis using assms
    by (auto simp: unanswered_def sent_def open_reloads_def sendHeartbeatRequest_def starts_reload_def answers_reload_def)
next
  case (ActHeartbeatResult d)
  then show ?thesis using assms
    by (auto simp: unanswered_def sent_def open_reloads_def sendHeartbeatResult_def starts_reload_def answers_reload_def)
next
  case (ActCommit c)
  show ?thesis
  proof (cases c)
    case ApplyCommit
    then have "applyCommit L env now s = Inr s'" using assms(1) ActCommit by (simp add: commit_handleAction_def)
    then have "unanswered s' = unanswered s"
    proof (cases rule: applyCommit_cases)
      case (fail r s1)
      then have "unanswered s1 = unanswered s"
        by (simp add: same_but_store_def unanswered_def sent_def open_reloads_def)
      with fail show ?thesis by (simp add: status_only_unanswered [OF status_only_ends(2)])
    next
      case (reload r s1 c)
      then have "unanswered s1 = unanswered s" "\<not> b_isReload (e_boot s1)" using assms(2) ActCommit ApplyCommit
        by (simp_all add: same_but_store_def unanswered_def sent_def open_reloads_def)
      with reload show ?thesis by (simp add: unanswered_announce)
    qed simp
    with ActCommit show ?thesis by simp
  qed (use assms ActCommit in \<open>simp add: commit_handleAction_def\<close>)
qed

lemma unanswered_dispatch:
  assumes "commit_ok s" "eng_dispatch L env s = Some (Inr s')"
  shows "unanswered s' = unanswered s"
  using assms(2)
proof (cases rule: dispatch_cases)
  case (event e es)
  let ?s = "s\<lparr>e_steps := e_steps s + 1, e_events := es\<rparr>"
  have "unanswered s = unanswered ?s - int (event_report e)"
    using event(1) by (simp add: unanswered_def sent_def open_reloads_def)
  with unanswered_event [OF event(2)] show ?thesis by simp
next
  case (action a as)
  let ?s = "s\<lparr>e_steps := e_steps s + 1, e_actions := as\<rparr>"
  have "\<not> b_isReload (e_boot s)" if "a = ActCommit ApplyCommit"
    using assms(1) action(2) that by (auto simp: commit_ok_def queue_ok_def in_progress_def)
  then have "unanswered s' = unanswered ?s - int (action_report a)"
    by (intro unanswered_action [OF action(3)]) simp
  moreover have "unanswered s = unanswered ?s - int (action_report a)"
    using action(2) by (simp add: unanswered_def sent_def open_reloads_def)
  ultimately show ?thesis by simp
qed

lemma event_report_le_token: "event_token e = 0 \<Longrightarrow> event_report e = 0"
  by (cases e) auto

lemma unanswered_receive: "unanswered (eng_receive msg s) = unanswered s"
  by (cases "eng_event_create (Some msg)")
     (simp_all add: eng_receive_def unanswered_def sent_def open_reloads_def event_report_le_token
        eng_event_create_token)

lemma unanswered_post_boot:
  assumes "boot_schedule env now s = Inr (ev, s')"
  shows "unanswered (eng_postEvent ev s') = unanswered s"
  using boot_schedule_progress [OF assms]
  by (cases ev) (auto simp: unanswered_def sent_def open_reloads_def)

lemma unanswered_post_hb:
  assumes "hb_schedule env now s = Inr (ev, s')"
  shows "unanswered (eng_postEvent ev s') = unanswered s"
  using hb_schedule_progress [OF assms]
  by (cases ev) (auto simp: unanswered_def sent_def open_reloads_def)

lemma unanswered_schedule:
  assumes "eng_schedule env s = Inr s'"
  shows "unanswered s' = unanswered s"
proof -
  have s: "unanswered (s\<lparr>e_steps := e_steps s + 1\<rparr>) = unanswered s"
    by (simp add: unanswered_def sent_def open_reloads_def)
  from assms show ?thesis
  proof (cases rule: schedule_cases)
    case (boot ev s1)
    with s unanswered_post_boot [OF boot(1)] show ?thesis by simp
  next
    case (both ev s1 ev' s2)
    with s unanswered_post_boot [OF both(1)] unanswered_post_hb [OF both(3)] show ?thesis by simp
  qed
qed

lemma reachable_answered: "engined_reachable L env s \<Longrightarrow> unanswered s = 0"
proof (induction rule: engined_reachable.induct)
  case (er_start d c)
  show ?case by (simp add: unanswered_def sent_def open_reloads_def start_simps)
next
  case (er_dispatch s s')
  then show ?case using unanswered_dispatch reachable_commit_ok by metis
qed (simp_all add: unanswered_receive unanswered_schedule)

subsection \<open>Staging\<close>

text \<open>A change addresses a scope and a domain; a malformed one addresses nothing.\<close>

definition change_target :: "json \<Rightarrow> (string \<times> string) option" where
  "change_target change = (case (jfind ''scope'' change, jfind ''domain'' change, jfind ''values'' change) of
     (Some (JStr scope), Some (JStr domain), Some values) \<Rightarrow>
       if scope \<noteq> [] \<and> domain \<noteq> [] \<and> is_object values then Some (scope, domain) else None
   | _ \<Rightarrow> None)"

lemma jsub_jfind: "jsub k j = Inr v \<Longrightarrow> jfind k' v = Option.bind (jfind k j) (jfind k')"
  by (auto simp: jsub_def split: json.splits option.splits)

lemma stage_change_domains:
  assumes "stage_change L scope domain values root = Inr root'"
  shows "domain_of sc d root' =
    (if (sc, d) = (scope, domain)
     then Some (jl_merge L (case domain_of sc d root of None \<Rightarrow> JNull | Some v \<Rightarrow> v) values)
     else domain_of sc d root)"
proof -
  from assms obtain sec cur sec' where s: "jsub scope root = Inr sec" "jsub domain sec = Inr cur"
    "jset domain (jl_merge L cur values) sec = Inr sec'" "jset scope sec' root = Inr root'"
    by (auto simp: stage_change_def bind_err_Inr_iff)
  have cur: "cur = (case jfind domain sec of None \<Rightarrow> JNull | Some v \<Rightarrow> v)"
    using s(2) by (auto simp: jsub_def split: json.splits)
  show ?thesis
    using jset_jfind [OF s(4)] jset_jfind [OF s(3)] jsub_jfind [OF s(1)] cur
    by (auto simp: domain_of_def)
qed

lemma stage_step:
  assumes "stage_changes L (change # changes) (root, applied, failed) = Inr acc"
  obtains (skip) "change_target change = None" "stage_changes L changes (root, applied, failed + 1) = Inr acc"
  | (staged) scope domain vals root' where "change_target change = Some (scope, domain)"
      "jfind ''values'' change = Some vals" "stage_change L scope domain vals root = Inr root'"
      "stage_changes L changes (root', applied + 1, failed) = Inr acc"
proof -
  have str: "jvalue get_str k [] j = Inr x \<Longrightarrow>
      jfind k j = Some (JStr x) \<or> jfind k j = None \<and> x = []" for k j x
    by (auto simp: jvalue_def get_str_def split: if_splits option.splits json.splits)
  from assms obtain scope domain where v: "jvalue get_str ''scope'' [] change = Inr scope"
    "jvalue get_str ''domain'' [] change = Inr domain" by (auto simp: bind_err_Inr_iff)
  note cases = str [OF v(1)] str [OF v(2)]
  show ?thesis
  proof (cases "scope = [] \<or> domain = []")
    case True
    then have "change_target change = None"
      using cases by (auto simp: change_target_def split: option.splits json.splits)
    with True assms v show ?thesis by (intro skip) simp_all
  next
    case named: False
    then have f: "jfind ''scope'' change = Some (JStr scope)" "jfind ''domain'' change = Some (JStr domain)"
      using cases by auto
    show ?thesis
    proof (cases "jfind ''values'' change")
      case None
      with named assms v f show ?thesis by (intro skip) (auto simp: change_target_def split: json.splits)
    next
      case (Some vals)
      show ?thesis
      proof (cases "is_object vals")
        case False
        with Some named assms v f show ?thesis by (intro skip) (simp_all add: change_target_def)
      next
        case True
        with Some named assms v obtain root' where "stage_change L scope domain vals root = Inr root'"
          "stage_changes L changes (root', applied + 1, failed) = Inr acc"
          by (auto simp: bind_err_Inr_iff)
        with True Some named f show ?thesis by (intro staged) (simp_all add: change_target_def)
      qed
    qed
  qed
qed

lemma staging_keeps:
  "stage_changes L changes (root, applied, failed) = Inr (root', applied', failed') \<Longrightarrow>
     Some (sc, d) \<notin> change_target ` set changes \<Longrightarrow> domain_of sc d root' = domain_of sc d root"
proof (induction changes arbitrary: root applied failed)
  case (Cons change changes)
  from Cons.prems(1) show ?case
  proof (cases rule: stage_step)
    case skip with Cons show ?thesis by simp
  next
    case (staged scope domain vals root1)
    with Cons stage_change_domains [OF staged(3), of sc d] show ?thesis by auto
  qed
qed simp

lemma staging_counts:
  "stage_changes L changes (root, applied, failed) = Inr (root', applied', failed') \<Longrightarrow>
     applied' = applied + length (filter (\<lambda>c. change_target c \<noteq> None) changes) \<and>
     applied' + failed' = applied + failed + length changes"
proof (induction changes arbitrary: root applied failed)
  case (Cons change changes)
  from Cons.prems(1) show ?case
  proof (cases rule: stage_step)
    case skip with Cons.IH [OF skip(2)] show ?thesis by simp
  next
    case (staged scope domain vals root1)
    with Cons.IH [OF staged(4)] show ?thesis by simp
  qed
qed simp

lemma bind_err_assoc: "bind_err (bind_err r f) g = bind_err r (\<lambda>x. bind_err (f x) g)"
  by (cases r) simp_all

lemma bind_err_cong: "(\<And>x. r = Inr x \<Longrightarrow> f x = g x) \<Longrightarrow> bind_err r f = bind_err r g"
  by (cases r) simp_all

lemma staging_append:
  "stage_changes L (xs @ ys) acc = bind_err (stage_changes L xs acc) (stage_changes L ys)"
  by (induction L xs acc rule: stage_changes.induct)
     (auto simp: bind_err_assoc intro!: bind_err_cong split: option.split)

subsection \<open>The queue at the end of a task\<close>

lemma trim_waiting:
  "sorted (map task_rank q) \<Longrightarrow> running_tasks q = 0 \<Longrightarrow>
   trim_queue q = drop (pending_tasks q - 5) (filter (\<lambda>t. t_status t = TaskPending) q)"
proof (induction q)
  case (Cons t q)
  show ?case
  proof (cases "t_status t = TaskPending")
    case True
    with Cons.prems have "\<forall>u \<in> set q. task_rank u \<ge> 2" by auto
    then have "\<forall>u \<in> set q. t_status u = TaskPending"
      by (auto simp: task_rank_def finished_def split: if_splits) (metis task_status.exhaust)
    then have f: "filter (\<lambda>t. t_status t = TaskPending) q = q" "pending_tasks q = length q"
      by (simp_all add: pending_tasks_def)
    have "trim_queue q = drop (length q - 5) q" using Cons f by simp
    moreover have "length q - 4 = Suc (length q - 5)" if "4 < length q" using that by simp
    ultimately show ?thesis using True f by (auto simp: finished_def)
  next
    case False
    with Cons.prems have "finished t" by (cases t rule: rank_cases) auto
    with False Cons show ?thesis by simp
  qed
qed simp

lemma mark_keeps_waiting:
  "mark_first TaskRunning st q = (found, q') \<Longrightarrow> st \<noteq> TaskPending \<Longrightarrow>
   filter (\<lambda>t. t_status t = TaskPending) q' = filter (\<lambda>t. t_status t = TaskPending) q"
  by (induction q arbitrary: found q') (auto split: if_splits prod.splits)

subsection \<open>Properties\<close>

text \<open>C14. The loop over both queues always ends: one more turn than the weight of the state (what is
  queued, and what the waiting commits and the heartbeat targets can still post) is enough to reach
  its result, and when no exception ends the daemon both queues are empty then.\<close>

theorem execute_ends_idle:
  "execute_fuel (Suc (eng_weight s)) L env s = Some (execute L env s) \<and>
   (\<forall>s'. execute L env s = Inr s' \<longrightarrow> e_events s' = [] \<and> e_actions s' = [])"
  using execute_fuel_enough execute_empties by blast

definition env_example :: eng_env where
  "env_example = \<lparr>en_clock = (\<lambda>n. int n), en_wall = (\<lambda>_. 0), en_connect = (\<lambda>_. True), en_file = None,
     en_query = (\<lambda>_. True), en_later = (\<lambda>_. []), en_commit = (\<lambda>_. commit_example SqlOk)\<rparr>"

definition engined_example :: engined where
  "engined_example = eng_init history_example config_init"

theorem execute_ends_idle_witness:
  "execute_fuel (Suc (eng_weight engined_example)) unary_lib env_example engined_example = Some (Inr engined_example) \<and>
   e_events engined_example = [] \<and> e_actions engined_example = []"
proof -
  have "eng_dispatch unary_lib env_example engined_example = None"
    by (simp add: dispatch_None_iff engined_example_def eng_init_def)
  then have "execute unary_lib env_example engined_example = Inr engined_example"
    by (simp add: execute.simps [of unary_lib env_example engined_example])
  with execute_ends_idle [of engined_example unary_lib env_example] show ?thesis by simp
qed

text \<open>C11. Commits are applied one at a time and in the order of arrival. In every state the daemon can
  reach, the queue holds finished tasks, then at most one running task, then the waiting ones, with
  rising numbers below the next free one; a task is running exactly when one thing that will end it is
  in flight (its application, its reload, or a report of the reload's end); and commits wait only
  behind a running one.\<close>

theorem commits_run_in_order:
  assumes "engined_reachable L env s"
  shows "sorted (map task_rank (e_queue s)) \<and> sorted_wrt (<) (map t_id (e_queue s)) \<and>
    (\<forall>t \<in> set (e_queue s). t_id t < e_nextId s) \<and>
    running_tasks (e_queue s) = in_progress s \<and> running_tasks (e_queue s) \<le> 1 \<and>
    (pending_tasks (e_queue s) \<noteq> 0 \<longrightarrow> running_tasks (e_queue s) = 1)"
  using reachable_commit_ok [OF assms] unfolding commit_ok_def queue_ok_def by blast

definition commit_request :: "jlib \<Rightarrow> json \<Rightarrow> ipc_message" where
  "commit_request L changes = mk_message DMgmtd DEngined CmdSettingsCommitRequest 1 (toFlag FlagRequest) (jl_dump L changes)"

text \<open>A request arrives at an empty event queue and is dispatched.\<close>

definition after_request :: "jlib \<Rightarrow> json \<Rightarrow> engined \<Rightarrow> engined" where
  "after_request L j s = commit_handleEvent L ReceiveSettingsCommit (Some (commit_request L j)) (s\<lparr>e_steps := e_steps s + 1\<rparr>)"

lemma reachable_after_request:
  assumes "engined_reachable L env s" "e_events s = []"
  shows "engined_reachable L env (after_request L j s)"
proof -
  have r: "engined_reachable L env (eng_receive (commit_request L j) s)" by (rule er_receive) (rule assms(1))
  have "eng_receive (commit_request L j) s = s\<lparr>e_events := [EngCommit ReceiveSettingsCommit (Some (commit_request L j))]\<rparr>"
    using assms(2) by (simp add: eng_receive_def eng_event_create_def commit_request_def)
  moreover have "s\<lparr>e_steps := e_steps s + 1, e_events := []\<rparr> = s\<lparr>e_steps := e_steps s + 1\<rparr>" using assms(2) by simp
  ultimately have "eng_dispatch L env (eng_receive (commit_request L j) s) = Some (Inr (after_request L j s))"
    by (simp add: eng_dispatch_def after_request_def del: commit_handleEvent.simps)
  with r show ?thesis by (rule er_dispatch)
qed

definition one_commit :: engined where
  "one_commit = after_request unary_lib (JArr []) (eng_start env_example engined_example)"

definition two_commits :: engined where
  "two_commits = after_request unary_lib (JArr []) one_commit"

lemma unary_dump [simp]: "jl_dump unary_lib j = print_json j"
  by (simp add: unary_lib_def)

lemma one_commit_facts:
  "e_events one_commit = []" "e_actions one_commit = [ActCommit ApplyCommit]" "e_nextId one_commit = 2"
  "e_queue one_commit = [\<lparr>t_id = 1, t_payload = print_json (JArr []), t_status = TaskRunning\<rparr>]"
  "b_isReload (e_boot one_commit) = False"
  by (simp_all add: one_commit_def after_request_def commit_request_def engined_example_def start_simps
      sendQueueStatus_def startNext_def any_running_def Let_def)

lemma two_commits_facts:
  "e_events two_commits = []" "e_actions two_commits = [ActCommit ApplyCommit]"
  "e_queue two_commits = [\<lparr>t_id = 1, t_payload = print_json (JArr []), t_status = TaskRunning\<rparr>,
     \<lparr>t_id = 2, t_payload = print_json (JArr []), t_status = TaskPending\<rparr>]"
  by (simp_all add: two_commits_def after_request_def commit_request_def one_commit_facts
      sendQueueStatus_def any_running_def Let_def)

lemma one_commit_reachable: "engined_reachable unary_lib env_example one_commit"
  unfolding one_commit_def engined_example_def
  by (rule reachable_after_request [OF er_start]) (simp add: start_simps)

lemma two_commits_reachable: "engined_reachable unary_lib env_example two_commits"
  unfolding two_commits_def by (rule reachable_after_request [OF one_commit_reachable one_commit_facts(1)])

theorem commits_run_in_order_witness:
  "engined_reachable unary_lib env_example two_commits \<and> pending_tasks (e_queue two_commits) = 1 \<and>
   running_tasks (e_queue two_commits) = 1 \<and> in_progress two_commits = 1"
proof -
  have p: "pending_tasks (e_queue two_commits) = 1" by (simp add: two_commits_facts)
  from commits_run_in_order [OF two_commits_reachable] p two_commits_reachable show ?thesis by auto
qed

text \<open>C13. No commit is forgotten between ticks: when a tick has ended, either every task in the queue has
  finished, or exactly one is running and its reload is what the daemon is waiting for.\<close>

theorem no_commit_stalls:
  assumes "engined_reachable L env s" and "eng_tick L env msgs s = Inr s'"
  shows "(\<forall>t \<in> set (e_queue s'). finished t) \<or>
    b_isReload (e_boot s') \<and> running_tasks (e_queue s') = 1"
proof -
  from assms(2) have idle: "e_events s' = []" "e_actions s' = []"
    by (auto simp: eng_tick_def bind_err_Inr_iff dest: execute_empties)
  have ok: "running_tasks (e_queue s') = in_progress s'"
    "pending_tasks (e_queue s') \<noteq> 0 \<longrightarrow> running_tasks (e_queue s') = 1"
    using reachable_commit_ok [OF reachable_tick [OF assms]] unfolding commit_ok_def by blast+
  have p: "in_progress s' = of_bool (b_isReload (e_boot s'))" using idle by (simp add: in_progress_def)
  show ?thesis
  proof (cases "b_isReload (e_boot s')")
    case True with ok p show ?thesis by simp
  next
    case False
    with ok p have "running_tasks (e_queue s') = 0" "pending_tasks (e_queue s') = 0" by auto
    then have "\<forall>t \<in> set (e_queue s'). finished t"
      unfolding no_running_iff no_pending_iff finished_def by (metis task_status.exhaust)
    then show ?thesis by blast
  qed
qed

definition change_example :: json where
  "change_example = JArr [JObj [(''scope'', JStr ''pretzel''), (''domain'', JStr ''console''),
     (''values'', JObj [(''port'', JInt 8443)])]]"

text \<open>
  A tick that applies a commit from the cold start: the queue, the answers and the stored versions.
  The library of the example reads one document only.
\<close>

definition change_lib :: jlib where
  "change_lib = \<lparr>jl_parse = (\<lambda>bs. if bs = [1] then Some change_example else None),
     jl_dump = (\<lambda>j. [1]), jl_merge = (\<lambda>target patch. patch)\<rparr>"

definition tick_example :: "json_error + engined" where
  "tick_example = eng_tick change_lib env_example [commit_request change_lib change_example] (eng_start env_example engined_example)"

lemma tick_example_run:
  "case tick_example of Inl e \<Rightarrow> False | Inr s \<Rightarrow> map t_status (e_queue s) = [TaskRunning] \<and>
     b_isReload (e_boot s) \<and> sent starts_reload s = 1 \<and> sent answers_reload s = 0 \<and> open_reloads s = 1 \<and>
     map r_version (t_running (d_tables (e_db s))) = [1, 2] \<and> b_targetVersion (e_boot s) = 2"
  by code_simp

lemma tick_example_result:
  obtains s where "tick_example = Inr s" "map t_status (e_queue s) = [TaskRunning]" "b_isReload (e_boot s)"
    "sent starts_reload s = 1"
  using tick_example_run by (auto split: sum.splits)

lemma tick_example_reachable:
  "tick_example = Inr s \<Longrightarrow> engined_reachable change_lib env_example s"
  unfolding tick_example_def engined_example_def by (rule reachable_tick [OF er_start])

theorem no_commit_stalls_witness:
  "\<exists>s'. tick_example = Inr s' \<and> b_isReload (e_boot s') \<and> running_tasks (e_queue s') = 1"
proof -
  obtain s' where s': "tick_example = Inr s'" and r: "map t_status (e_queue s') = [TaskRunning]"
    by (rule tick_example_result)
  have "engined_reachable change_lib env_example (eng_start env_example engined_example)"
    unfolding engined_example_def by (rule er_start)
  from no_commit_stalls [OF this s' [unfolded tick_example_def]] r s' show ?thesis
    by (auto simp: finished_def)
qed

text \<open>C10. Every reload is answered exactly once. In every reachable state the number of reloads announced
  to the daemons is the number of commit responses sent plus the reloads still open (one running, or
  one whose failure is about to be reported), and at most one is open.\<close>

theorem reloads_answered_once:
  assumes "engined_reachable L env s"
  shows "sent starts_reload s = sent answers_reload s + open_reloads s \<and> open_reloads s \<le> 1"
proof -
  have "event_report e \<le> event_token e" for e by (cases e) auto
  moreover have "action_report a \<le> action_token a" for a by (cases a) auto
  ultimately have "open_reloads s \<le> in_progress s"
    unfolding open_reloads_def in_progress_def by (intro add_mono sum_list_mono) auto
  moreover have "in_progress s \<le> 1"
    using reachable_commit_ok [OF assms] unfolding commit_ok_def queue_ok_def by simp
  ultimately show ?thesis using reachable_answered [OF assms] by (simp add: unanswered_def)
qed

theorem reloads_answered_once_witness:
  "\<exists>s. tick_example = Inr s \<and> sent starts_reload s = 1 \<and> sent answers_reload s = 0 \<and> open_reloads s = 1"
proof -
  obtain s where s: "tick_example = Inr s" and "b_isReload (e_boot s)" "sent starts_reload s = 1"
    by (rule tick_example_result)
  moreover from this have "1 \<le> open_reloads s" by (simp add: open_reloads_def)
  moreover note reloads_answered_once [OF tick_example_reachable [OF s]] s
  ultimately show ?thesis by auto
qed

text \<open>Staging a commit changes what its entries name and nothing else: a domain no entry addresses is
  as it was, every well-formed entry is applied and every other one counted as skipped, and the last
  entry of a commit decides its own domain, merged over what the earlier entries made of it.\<close>

theorem staging_is_local:
  assumes "stage_changes L changes (root, 0, 0) = Inr (root', applied, failed)"
  shows "(\<forall>sc d. Some (sc, d) \<notin> change_target ` set changes \<longrightarrow> domain_of sc d root' = domain_of sc d root) \<and>
    applied = length (filter (\<lambda>c. change_target c \<noteq> None) changes) \<and> applied + failed = length changes \<and>
    (\<forall>xs c sc d. changes = xs @ [c] \<and> change_target c = Some (sc, d) \<longrightarrow>
      (\<exists>root1 a f vals. stage_changes L xs (root, 0, 0) = Inr (root1, a, f) \<and> jfind ''values'' c = Some vals \<and>
        domain_of sc d root' =
          Some (jl_merge L (case domain_of sc d root1 of None \<Rightarrow> JNull | Some v \<Rightarrow> v) vals)))"
proof (intro conjI allI impI)
  fix sc d assume "Some (sc, d) \<notin> change_target ` set changes"
  then show "domain_of sc d root' = domain_of sc d root" by (rule staging_keeps [OF assms])
next
  fix xs c sc d assume c: "changes = xs @ [c] \<and> change_target c = Some (sc, d)"
  then obtain root1 a f where x: "stage_changes L xs (root, 0, 0) = Inr (root1, a, f)"
    and l: "stage_changes L [c] (root1, a, f) = Inr (root', applied, failed)"
    using assms by (auto simp: staging_append bind_err_Inr_iff simp del: stage_changes.simps)
  from l show "\<exists>root1 a f vals. stage_changes L xs (root, 0, 0) = Inr (root1, a, f) \<and> jfind ''values'' c = Some vals \<and>
      domain_of sc d root' = Some (jl_merge L (case domain_of sc d root1 of None \<Rightarrow> JNull | Some v \<Rightarrow> v) vals)"
  proof (cases rule: stage_step)
    case (staged scope domain vals root2)
    with c stage_change_domains [OF staged(3), of sc d] x show ?thesis by auto
  qed (use c in simp)
qed (use staging_counts [OF assms] in simp_all)

theorem staging_is_local_witness:
  "\<exists>root'. stage_changes unary_lib (jitems change_example) (JObj [(''pretzel'', JObj [(''log'', JObj [])])], 0, 0)
      = Inr (root', 1, 0) \<and> domain_of ''pretzel'' ''log'' root' = Some (JObj [])"
proof -
  have r: "stage_changes unary_lib (jitems change_example) (JObj [(''pretzel'', JObj [(''log'', JObj [])])], 0, 0)
    = Inr (JObj [(''pretzel'', JObj [(''log'', JObj []), (''console'', JObj [(''port'', JInt 8443)])])], 1, 0)"
    by code_simp
  have "Some (''pretzel'', ''log'') \<notin> change_target ` set (jitems change_example)"
    by (simp add: change_example_def jitems_def change_target_def)
  with staging_is_local [OF r] r show ?thesis by (auto simp: domain_of_def)
qed

text \<open>When a reload ends, the finished tasks leave the queue, the oldest waiting commit that is kept
  starts to run, and of the waiting commits only the newest five are kept.\<close>

theorem reload_end_queue:
  assumes "queue_ok (e_nextId s) (e_queue s)" and "st = TaskDone \<or> st = TaskFailed"
  shows "e_queue (end_running L st s) =
    (case drop (pending_tasks (e_queue s) - 5) (filter (\<lambda>t. t_status t = TaskPending) (e_queue s)) of
       [] \<Rightarrow> [] | t # ts \<Rightarrow> t\<lparr>t_status := TaskRunning\<rparr> # ts)"
proof -
  obtain found q where m: "mark_first TaskRunning st (e_queue s) = (found, q)" by fastforce
  have q: "sorted (map task_rank q)" "running_tasks q = 0" "pending_tasks q = pending_tasks (e_queue s)"
    using mark_running [OF m assms(2)] assms(1) unfolding queue_ok_def by blast+
  have "st \<noteq> TaskPending" using assms(2) by auto
  then have t: "trim_queue q = drop (pending_tasks (e_queue s) - 5) (filter (\<lambda>t. t_status t = TaskPending) (e_queue s))"
    using trim_waiting [OF q(1,2)] mark_keeps_waiting [OF m] q(3) by simp
  have "t_status u = TaskPending" if "u \<in> set (trim_queue q)" for u
    using that unfolding t by (auto dest: in_set_dropD)
  then have "e_queue (startNext L (s\<lparr>e_queue := trim_queue q\<rparr>)) =
      (case trim_queue q of [] \<Rightarrow> [] | t # ts \<Rightarrow> t\<lparr>t_status := TaskRunning\<rparr> # ts)"
    by (cases "trim_queue q") (auto simp: startNext_def sendQueueStatus_def)
  moreover have "e_queue (end_running L st s) = e_queue (startNext L (s\<lparr>e_queue := trim_queue q\<rparr>))"
    by (auto simp: end_running_def m startNext_def sendQueueStatus_def split: prod.splits)
  ultimately show ?thesis unfolding t by simp
qed

definition full_queue :: "task list" where
  "full_queue = \<lparr>t_id = 1, t_payload = [], t_status = TaskRunning\<rparr> #
     map (\<lambda>n. \<lparr>t_id = n, t_payload = [], t_status = TaskPending\<rparr>) [2, 3, 4, 5, 6, 7]"

theorem reload_end_queue_witness:
  "map t_id (e_queue (end_running unary_lib TaskDone (engined_example\<lparr>e_nextId := 8, e_queue := full_queue\<rparr>)))
     = [3, 4, 5, 6, 7]"
proof -
  have "queue_ok 8 full_queue" by (simp add: queue_ok_def full_queue_def)
  then have "queue_ok (e_nextId (engined_example\<lparr>e_nextId := 8, e_queue := full_queue\<rparr>))
     (e_queue (engined_example\<lparr>e_nextId := 8, e_queue := full_queue\<rparr>))" by simp
  from reload_end_queue [OF this, of TaskDone unary_lib] show ?thesis
    by (simp add: full_queue_def)
qed


text \<open>The state in which the example commit is about to be applied.\<close>

definition commit_running :: engined where
  "commit_running = engined_example\<lparr>e_queue := [\<lparr>t_id = 1, t_payload = [1], t_status = TaskRunning\<rparr>]\<rparr>"


end
