(* ===== verification/Engined_Converge.thy ===== *)
theory Engined_Converge
  imports Engined_Reach Ipcd_Routing
begin

text \<open>
  The reconciliation of the fleet across the two daemons: the broker reports its route table in a
  \<open>SyncResponse\<close>, \<^verbatim>\<open>engined\<close> reads it into its process map and decides whether the fleet has converged.
\<close>

subsection \<open>Reading the broker's report\<close>

lemma update_items_sync:
  "update_items (map (\<lambda>(d, st). sync_entry d st) table) reported pm =
     (True, rev (map (\<lambda>(d, st). strToDaemon (daemonToStr d)) table) @ reported,
      fold (\<lambda>(d, st). report_process (strToDaemon (daemonToStr d)) (rs_appliedVersion st) (rs_generation st)) table pm)"
  by (induction table arbitrary: reported pm)
     (auto simp: sync_entry_def jvalue_def get_u64_def get_u32_def Let_def)

lemma report_process_keys: "map fst (report_process d v g pm) = map fst pm"
  by (auto simp: report_process_def update_keys map_of_eq_None_iff split: option.split)

lemma report_process_find:
  "map_of (report_process d v g pm) k =
     (if k = d then map_option (\<lambda>ps. ps\<lparr>ps_connected := True, ps_appliedVersion := v, ps_generation := g\<rparr>) (map_of pm k)
      else map_of pm k)"
  by (auto simp: report_process_def update_conv' split: option.split)

lemma reports_keys:
  "map fst (fold (\<lambda>(d, st). report_process (n d) (rs_appliedVersion st) (rs_generation st)) table pm) = map fst pm"
  by (induction table arbitrary: pm) (auto simp: report_process_keys)

lemma service_name: "d \<in> set service_daemons \<Longrightarrow> strToDaemon (daemonToStr d') = d \<longleftrightarrow> d' = d"
  by (cases d') (auto simp: strToDaemon_daemonToStr service_daemons_def daemon_enumerators_def)

text \<open>What a reported table makes of the state of one daemon.\<close>

definition reported_state :: "runtime_state \<Rightarrow> process_state \<Rightarrow> process_state" where
  "reported_state st ps = ps\<lparr>ps_connected := True, ps_appliedVersion := rs_appliedVersion st,
     ps_generation := rs_generation st\<rparr>"

lemma reports_find:
  assumes "d \<in> set service_daemons" "distinct (map fst table)"
  shows "map_of (fold (\<lambda>(d, st). report_process (strToDaemon (daemonToStr d)) (rs_appliedVersion st) (rs_generation st))
      table pm) d =
    (case map_of table d of None \<Rightarrow> map_of pm d | Some st \<Rightarrow> map_option (reported_state st) (map_of pm d))"
  using assms(2)
proof (induction table arbitrary: pm)
  case (Cons e table)
  obtain d' st where e: "e = (d', st)" by fastforce
  have "map_of table d = None" if "d' = d" using Cons.prems that e by (auto simp: map_of_eq_None_iff)
  with Cons e service_name [OF assms(1), of d'] show ?case
    by (auto simp: report_process_find reported_state_def [abs_def] split: option.split)
qed simp

lemma map_of_filter_distinct:
  "distinct (map fst xs) \<Longrightarrow> map_of (filter P xs) k = (case map_of xs k of Some v \<Rightarrow> if P (k, v) then Some v else None | None \<Rightarrow> None)"
  by (induction xs) (auto simp: map_of_eq_None_iff split: option.split)

lemma sync_read:
  assumes "json_lib L" "distinct (map fst (s_runtimeTable b))"
  obtains pm' where "updateProcessMap L (buildSyncResponse L req b) pm = (True, pm')" "map fst pm' = map fst pm"
    "\<And>d. d \<in> set service_daemons \<Longrightarrow> map_of pm' d =
      (case map_of (s_runtimeTable b) d of
         Some st \<Rightarrow> if 0 \<le> rs_fd st then map_option (reported_state st) (map_of pm d)
           else map_option (\<lambda>ps. ps\<lparr>ps_connected := False, ps_appliedVersion := 0\<rparr>) (map_of pm d)
       | None \<Rightarrow> map_option (\<lambda>ps. ps\<lparr>ps_connected := False, ps_appliedVersion := 0\<rparr>) (map_of pm d))"
proof -
  let ?t = "filter sync_reported (s_runtimeTable b)" and ?n = "\<lambda>d. strToDaemon (daemonToStr d)"
  let ?pm = "fold (\<lambda>(d, st). report_process (?n d) (rs_appliedVersion st) (rs_generation st)) ?t pm"
  let ?pm' = "clear_missing (rev (map (\<lambda>(d, st). ?n d) ?t)) ?pm"
  have dist: "distinct (map fst ?t)" using assms(2) by (simp add: distinct_map_filter)
  have parse: "jl_parse L (msg_payload (buildSyncResponse L req b)) = Some (sync_json (s_runtimeTable b))"
    by (simp add: buildSyncResponse_def json_lib.parse_dump [OF assms(1)])
  have ne: "msg_payload (buildSyncResponse L req b) \<noteq> []"
    by (simp add: buildSyncResponse_def json_lib.dump_nonempty [OF assms(1)])
  have u: "updateProcessMap L (buildSyncResponse L req b) pm = (True, ?pm')"
    using parse ne by (simp add: updateProcessMap_def sync_json_def update_items_sync)
  have keys: "map fst ?pm' = map fst pm"
    by (simp add: clear_missing_def reports_keys)
  have find: "map_of ?pm' d = (case map_of (s_runtimeTable b) d of
      Some st \<Rightarrow> if 0 \<le> rs_fd st then map_option (reported_state st) (map_of pm d)
        else map_option (\<lambda>ps. ps\<lparr>ps_connected := False, ps_appliedVersion := 0\<rparr>) (map_of pm d)
    | None \<Rightarrow> map_option (\<lambda>ps. ps\<lparr>ps_connected := False, ps_appliedVersion := 0\<rparr>) (map_of pm d))"
    if d: "d \<in> set service_daemons" for d
  proof -
    have nem: "d \<noteq> DEngined" "d \<noteq> DMgmtd" using d by (auto simp: service_daemons_def)
    have t: "map_of ?t d = (case map_of (s_runtimeTable b) d of
        Some st \<Rightarrow> if 0 \<le> rs_fd st then Some st else None | None \<Rightarrow> None)"
      using assms(2) nem by (auto simp: map_of_filter_distinct sync_reported_def split: option.split)
    have "d \<in> set (rev (map (\<lambda>(d, st). ?n d) ?t)) \<longleftrightarrow> map_of ?t d \<noteq> None"
      using service_name [OF d] by (force simp: map_of_eq_None_iff image_iff)
    then have "map_of ?pm' d = (if map_of ?t d \<noteq> None then map_of ?pm d
        else map_option (\<lambda>ps. ps\<lparr>ps_connected := False, ps_appliedVersion := 0\<rparr>) (map_of ?pm d))"
      by (auto simp: clear_missing_def map_ran_conv option.map_ident)
    then show ?thesis using reports_find [OF d dist, of pm] t
      by (auto split: option.splits)
  qed
  show ?thesis by (rule that [OF u keys find])
qed

subsection \<open>Deciding\<close>

lemma onSyncResponse_actions:
  assumes "b_state (e_boot s) = Reconcile" "updateProcessMap L msg (b_processMap (e_boot s)) = (ok, pm)"
  shows "onSyncResponse L msg s =
    (let s' = s\<lparr>e_boot := (e_boot s)\<lparr>b_processMap := pm\<rparr>\<rparr> in
     if ok \<and> isAllProcessReady (e_boot s') \<and> anyUnblessed (e_boot s')
     then s'\<lparr>e_actions := e_actions s @ [ActBootstrap EbActSendRuntimeStart]\<rparr> else s')"
  using assms by (simp add: onSyncResponse_def Let_def)

text \<open>Both tests through lookups, when the map has one entry per service daemon.\<close>

lemma ready_lookup:
  assumes "map fst (b_processMap b) = service_daemons"
  shows "isAllProcessReady b \<longleftrightarrow>
      (\<forall>d \<in> set service_daemons. \<exists>ps. map_of (b_processMap b) d = Some ps \<and> process_ready (b_targetVersion b) ps)"
    "anyUnblessed b \<longleftrightarrow>
      (\<exists>d \<in> set service_daemons. \<exists>ps. map_of (b_processMap b) d = Some ps \<and> ps_blessedGeneration ps < ps_generation ps)"
proof -
  have dist: "distinct (map fst (b_processMap b))" unfolding assms by (simp add: service_daemons_def)
  have mem: "(d, ps) \<in> set (b_processMap b) \<longleftrightarrow> map_of (b_processMap b) d = Some ps" for d ps
    using dist by simp
  have dom: "d \<in> set service_daemons \<longleftrightarrow> map_of (b_processMap b) d \<noteq> None" for d
    using assms by (metis map_of_eq_None_iff set_map)
  have ne: "b_processMap b \<noteq> []" using assms by (auto simp: service_daemons_def)
  show "isAllProcessReady b \<longleftrightarrow>
      (\<forall>d \<in> set service_daemons. \<exists>ps. map_of (b_processMap b) d = Some ps \<and> process_ready (b_targetVersion b) ps)"
  proof -
    have "isAllProcessReady b \<longleftrightarrow> (\<forall>d ps. map_of (b_processMap b) d = Some ps \<longrightarrow> process_ready (b_targetVersion b) ps)"
      unfolding mem [symmetric] isAllProcessReady_def list_all_iff using ne by auto
    then show ?thesis using dom by (metis option.distinct(1) option.inject option.exhaust)
  qed
  show "anyUnblessed b \<longleftrightarrow>
      (\<exists>d \<in> set service_daemons. \<exists>ps. map_of (b_processMap b) d = Some ps \<and> ps_blessedGeneration ps < ps_generation ps)"
  proof -
    have "anyUnblessed b \<longleftrightarrow> (\<exists>d ps. map_of (b_processMap b) d = Some ps \<and> ps_blessedGeneration ps < ps_generation ps)"
      unfolding mem [symmetric] anyUnblessed_def list_ex_iff by auto
    then show ?thesis using dom by (metis option.distinct(1))
  qed
qed

subsection \<open>The process map has one entry per service daemon\<close>

definition process_keys :: "engined \<Rightarrow> ipc_daemon list" where
  "process_keys s = map fst (b_processMap (e_boot s))"

lemma update_items_keys: "map fst (snd (snd (update_items items reported pm))) = map fst pm"
  by (induction items reported pm rule: update_items.induct)
     (auto simp: Let_def report_process_keys split: option.split json.split sum.split)

lemma updateProcessMap_keys: "updateProcessMap L msg pm = (ok, pm') \<Longrightarrow> map fst pm' = map fst pm"
  using update_items_keys [of "jitems (the (jfind ''daemons'' (the (jl_parse L (msg_payload msg)))))" "[]" pm]
  by (auto simp: updateProcessMap_def Let_def jitems_def clear_missing_def
      split: if_splits option.splits json.splits prod.splits)

lemma keys_boot_event: "process_keys (engboot_handleEvent L now e m s) = process_keys s"
  by (cases "(L, now, e, m, s)" rule: engboot_handleEvent.cases)
     (auto simp: process_keys_def onServerHello_def onSyncResponse_def Let_def updateProcessMap_keys split: prod.splits)

lemma keys_boot_action: "process_keys (engboot_handleAction L a s) = process_keys s"
  by (cases a) (auto simp: process_keys_def Let_def bless_def)

lemma keys_frame: "e_boot s' = e_boot s \<Longrightarrow> process_keys s' = process_keys s"
  by (simp add: process_keys_def)

lemma boot_startNext: "e_boot (startNext L s) = e_boot s"
  by (auto simp: startNext_def sendQueueStatus_def split: prod.splits)

lemma boot_ends: "e_boot (end_running L st s) = e_boot s" "e_boot (fail_running L s) = e_boot s"
  by (simp_all add: end_running_def fail_running_def boot_startNext sendQueueStatus_def)

lemma boot_commit_event: "e_boot (commit_handleEvent L e m s) = e_boot s"
  by (cases "(L, e, m, s)" rule: commit_handleEvent.cases)
     (auto simp: boot_ends boot_startNext sendQueueStatus_def Let_def)

lemma boot_hb_event: "e_boot (hb_handleEvent L env now e m s) = e_boot s"
  by (cases "(L, env, now, e, m, s)" rule: hb_handleEvent.cases)
     (auto simp: sendRequests_def onHeartbeatResponse_def Let_def split: option.splits)

lemma keys_event: "dispatch_event L env now e s = Inr s' \<Longrightarrow> process_keys s' = process_keys s"
  by (cases e) (auto simp: process_keys_def boot_commit_event boot_hb_event keys_boot_event [unfolded process_keys_def]
      simp del: engboot_handleEvent.simps commit_handleEvent.simps hb_handleEvent.simps)

lemma keys_applyCommit: "applyCommit L env now s = Inr s' \<Longrightarrow> process_keys s' = process_keys s"
  by (erule applyCommit_cases)
     (auto simp: process_keys_def boot_ends same_but_store_def scheduleServiceReload_def Let_def)

lemma keys_action: "dispatch_action L env now a s = Inr s' \<Longrightarrow> process_keys s' = process_keys s"
  by (cases a)
     (auto simp: process_keys_def keys_boot_action [unfolded process_keys_def] commit_handleAction_def
       sendHeartbeatRequest_def sendHeartbeatResult_def dest: keys_applyCommit [unfolded process_keys_def]
       simp del: engboot_handleAction.simps split: commit_action_type.splits)

lemma keys_dispatch: "eng_dispatch L env s = Some (Inr s') \<Longrightarrow> process_keys s' = process_keys s"
  by (erule dispatch_cases) (auto simp: process_keys_def dest!: keys_event keys_action)

lemma keys_boot_schedule: "boot_schedule env now s = Inr (ev, s') \<Longrightarrow> process_keys s' = process_keys s"
  by (auto simp: boot_schedule_def bind_err_Inr_iff Let_def process_keys_def dest!: warnIfBootSlow_frame
      split: boot_state.splits if_splits)

lemma keys_post: "process_keys (eng_postEvent ev s) = process_keys s"
  by (cases ev) (simp_all add: process_keys_def)

lemma keys_schedule: "eng_schedule env s = Inr s' \<Longrightarrow> process_keys s' = process_keys s"
proof (erule schedule_cases)
  fix ev s1
  assume "boot_schedule env (en_clock env (e_steps s + 1)) (s\<lparr>e_steps := e_steps s + 1\<rparr>) = Inr (ev, s1)"
    "s' = eng_postEvent ev s1"
  then show ?thesis using keys_boot_schedule [of env _ _ ev s1] by (simp add: keys_post) (simp add: process_keys_def)
next
  fix ev s1 ev' s2
  assume b: "boot_schedule env (en_clock env (e_steps s + 1)) (s\<lparr>e_steps := e_steps s + 1\<rparr>) = Inr (ev, s1)"
    and h: "hb_schedule env (en_clock env (e_steps s + 1)) (eng_postEvent ev s1) = Inr (ev', s2)"
    and s': "s' = eng_postEvent ev' s2"
  have "process_keys s2 = process_keys (eng_postEvent ev s1)" 
    by (rule keys_frame) (use hb_schedule_progress [OF h] in blast)
  then show ?thesis using keys_boot_schedule [OF b] by (simp add: s' keys_post) (simp add: process_keys_def)
qed

lemma keys_receive: "process_keys (eng_receive msg s) = process_keys s"
  by (simp add: eng_receive_def keys_post)

lemma reachable_keys: "engined_reachable L env s \<Longrightarrow> process_keys s = service_daemons"
proof (induction rule: engined_reachable.induct)
  case (er_start d c)
  show ?case by (simp add: process_keys_def eng_start_def boot_start_def initProcessMap_def Let_def comp_def)
qed (simp_all add: keys_receive keys_schedule keys_dispatch)

subsection \<open>Properties\<close>

text \<open>C15. The fleet is started exactly when the broker's routes say it has converged. In any state it can
  reach, reading the report of a well-formed broker during reconciliation, \<^verbatim>\<open>engined\<close> decides to broadcast \<open>RuntimeStart\<close> if and only
  if each of the five service daemons has a live connection there that reported at least the target
  version, and at least one of them has a newer generation than the last one started.\<close>

theorem runtime_start_when_converged:
  assumes "json_lib L" and "ipcd_ok b" and "b_state (e_boot s) = Reconcile"
    and "engined_reachable L' env s"
  shows "e_actions (onSyncResponse L (buildSyncResponse L req b) s) = e_actions s @
    (if (\<forall>d \<in> set service_daemons. \<exists>st. map_of (s_runtimeTable b) d = Some st \<and> 0 \<le> rs_fd st \<and>
           connected (rs_fd st) b \<and> b_targetVersion (e_boot s) \<le> rs_appliedVersion st) \<and>
        (\<exists>d \<in> set service_daemons. \<exists>st ps. map_of (s_runtimeTable b) d = Some st \<and>
           map_of (b_processMap (e_boot s)) d = Some ps \<and> ps_blessedGeneration ps < rs_generation st)
     then [ActBootstrap EbActSendRuntimeStart] else [])"
proof -
  have pk: "map fst (b_processMap (e_boot s)) = service_daemons"
    using reachable_keys [OF assms(4)] by (simp add: process_keys_def)
  let ?pm = "b_processMap (e_boot s)" and ?t = "b_targetVersion (e_boot s)"
  obtain pm' where u: "updateProcessMap L (buildSyncResponse L req b) ?pm = (True, pm')" and k: "map fst pm' = map fst ?pm"
    and f: "\<And>d. d \<in> set service_daemons \<Longrightarrow> map_of pm' d =
      (case map_of (s_runtimeTable b) d of
         Some st \<Rightarrow> if 0 \<le> rs_fd st then map_option (reported_state st) (map_of ?pm d)
           else map_option (\<lambda>ps. ps\<lparr>ps_connected := False, ps_appliedVersion := 0\<rparr>) (map_of ?pm d)
       | None \<Rightarrow> map_option (\<lambda>ps. ps\<lparr>ps_connected := False, ps_appliedVersion := 0\<rparr>) (map_of ?pm d))"
    using sync_read [OF assms(1)] ipcd_ok_keys [OF assms(2)] by blast
  have some: "\<exists>ps. map_of ?pm d = Some ps" if "d \<in> set service_daemons" for d
    using that pk by (metis map_of_eq_None_iff not_Some_eq set_map)
  define b' where "b' = (e_boot s)\<lparr>b_processMap := pm'\<rparr>"
  have keys: "map fst (b_processMap b') = service_daemons" using k pk by (simp add: b'_def)
  have ready: "isAllProcessReady b' \<longleftrightarrow> (\<forall>d \<in> set service_daemons. \<exists>st. map_of (s_runtimeTable b) d = Some st \<and>
      0 \<le> rs_fd st \<and> connected (rs_fd st) b \<and> ?t \<le> rs_appliedVersion st)" (is "_ \<longleftrightarrow> ?R")
    unfolding ready_lookup(1) [OF keys]
    using f some ipcd_ok_route [OF assms(2)]
    by (intro ball_cong) (force simp: b'_def process_ready_def reported_state_def not_less split: option.splits if_splits)+
  have new: "anyUnblessed b' \<longleftrightarrow> (\<exists>d \<in> set service_daemons. \<exists>st ps. map_of (s_runtimeTable b) d = Some st \<and>
      map_of ?pm d = Some ps \<and> ps_blessedGeneration ps < rs_generation st)" if ?R
    unfolding ready_lookup(2) [OF keys]
    using f some that by (intro bex_cong) (force simp: b'_def reported_state_def)+
  show ?thesis
    unfolding onSyncResponse_actions [OF assms(3) u] using ready new by (auto simp: Let_def b'_def)
qed

text \<open>The reports in the examples: five daemons on descriptors 11 to 15 with version 1 and generation 1.\<close>

definition fleet_fds :: "int list" where
  "fleet_fds = [11, 12, 13, 14, 15]"

definition fleet_broker :: ipcd where
  "fleet_broker = (ipcd_init 3 4 8 0 0 (\<lambda>_. False))
     \<lparr>s_connections := map (\<lambda>fd. (fd, conn_new fd 0 0)) fleet_fds, s_openFds := fleet_fds,
      s_epoll := \<lparr>ep_set = (\<lambda>fd. if fd = 3 \<or> fd \<in> set fleet_fds then Some [EPOLLIN, EPOLLRDHUP] else None),
        ep_refuses = (\<lambda>_. False)\<rparr>,
      s_runtimeTable := map (\<lambda>(d, fd). (d, \<lparr>rs_fd = fd, rs_ready = True, rs_generation = 1, rs_appliedVersion = 1\<rparr>))
        (zip service_daemons fleet_fds)\<rparr>"

lemma fleet_broker_ok: "ipcd_ok fleet_broker"
  by (simp add: fleet_broker_def fleet_fds_def service_daemons_def ipcd_init_def ipcd_ok_def conn_ok_def route_ok_def
      connected_def conn_new_def new_ring_ok)

definition still_env :: eng_env where
  "still_env = \<lparr>en_clock = (\<lambda>_. 0), en_wall = (\<lambda>_. 0), en_connect = (\<lambda>_. True), en_file = None,
     en_query = (\<lambda>_. True), en_later = (\<lambda>_. []), en_commit = (\<lambda>_. commit_example SqlOk)\<rparr>"

definition server_hello :: ipc_message where
  "server_hello = mk_message DIpcd DEngined CmdServerHello 0 (toFlag FlagResponse) []"

text \<open>The daemon after the handshake: two ticks from the cold start.\<close>

definition handshaken :: "json_error + engined" where
  "handshaken = bind_err (eng_tick unary_lib still_env [] (eng_start still_env (eng_init history_example config_init)))
     (eng_tick unary_lib still_env [server_hello])"

lemma handshaken_run:
  "case handshaken of Inl e \<Rightarrow> False | Inr s \<Rightarrow> b_state (e_boot s) = Reconcile \<and> b_targetVersion (e_boot s) = 1 \<and>
     e_actions s = [] \<and> b_processMap (e_boot s) = map (\<lambda>d. (d, fresh_process)) service_daemons"
  by code_simp

theorem runtime_start_when_converged_witness:
  "\<exists>s. handshaken = Inr s \<and> e_actions (onSyncResponse unary_lib (buildSyncResponse unary_lib hello_example fleet_broker) s)
     = [ActBootstrap EbActSendRuntimeStart]"
proof -
  obtain s where s: "handshaken = Inr s" "b_state (e_boot s) = Reconcile" "b_targetVersion (e_boot s) = 1"
    "e_actions s = []" "b_processMap (e_boot s) = map (\<lambda>d. (d, fresh_process)) service_daemons"
    using handshaken_run by (auto split: sum.splits)
  have r: "engined_reachable unary_lib still_env s"
    using s(1) unfolding handshaken_def bind_err_Inr_iff by (blast intro: reachable_tick er_start)
  have "\<forall>d \<in> set service_daemons. \<exists>st. map_of (s_runtimeTable fleet_broker) d = Some st \<and> 0 \<le> rs_fd st \<and>
      rs_generation st = 1 \<and> rs_appliedVersion st = 1"
    by (simp add: fleet_broker_def fleet_fds_def service_daemons_def)
  with ipcd_ok_route [OF fleet_broker_ok] have t: "\<forall>d \<in> set service_daemons. \<exists>st. map_of (s_runtimeTable fleet_broker) d = Some st \<and>
      0 \<le> rs_fd st \<and> connected (rs_fd st) fleet_broker \<and> rs_generation st = 1 \<and> rs_appliedVersion st = 1" by blast
  have "map_of (b_processMap (e_boot s)) DAuthd = Some fresh_process" "DAuthd \<in> set service_daemons"
    by (simp_all add: s(5) service_daemons_def)
  with t have n: "\<exists>d \<in> set service_daemons. \<exists>st ps. map_of (s_runtimeTable fleet_broker) d = Some st \<and>
      map_of (b_processMap (e_boot s)) d = Some ps \<and> ps_blessedGeneration ps < rs_generation st"
    by (intro bexI [of _ DAuthd]) (auto simp: fresh_process_def)
  from t have a: "\<forall>d \<in> set service_daemons. \<exists>st. map_of (s_runtimeTable fleet_broker) d = Some st \<and> 0 \<le> rs_fd st \<and>
      connected (rs_fd st) fleet_broker \<and> b_targetVersion (e_boot s) \<le> rs_appliedVersion st"
    unfolding s(3) by fastforce
  show ?thesis
    using runtime_start_when_converged [OF unary.json_lib_axioms fleet_broker_ok s(2) r, of hello_example] a n s(1,4)
    by (intro exI [of _ s]) simp
qed

text \<open>Broadcasting \<open>RuntimeStart\<close> to a converged fleet settles it: every daemon's started generation is
  its current one, so nothing is left to start; the service counts as bootstrapped; and a reload in
  progress is closed, with one positive response and one \<open>ReloadComplete\<close>, while without a reload
  nothing but the broadcast is sent.\<close>

theorem runtime_start_settles:
  assumes "isAllProcessReady (e_boot s)"
  shows "let s' = engboot_handleAction L EbActSendRuntimeStart s in
    \<not> anyUnblessed (e_boot s') \<and> isAllProcessReady (e_boot s') \<and> boot_isReady s' \<and> \<not> b_isReload (e_boot s') \<and>
    e_tx s' = e_tx s @ buildRuntimeStartMessage L (e_boot s) #
      (if b_isReload (e_boot s) then [buildSettingsCommitResponse L True (e_boot s)] else []) \<and>
    e_events s' = e_events s @ (if b_isReload (e_boot s) then [EngCommit ReloadComplete None] else [])"
proof -
  let ?b = "e_boot s" and ?pm = "b_processMap (e_boot s)"
  have ready: "process_ready (b_targetVersion ?b) ps" if "(d, ps) \<in> set ?pm" for d ps
    using assms that by (auto simp: isAllProcessReady_def list_all_iff)
  have "bless (b_targetVersion ?b) ?pm = map (\<lambda>(d, ps). (d, ps\<lparr>ps_blessedGeneration := ps_generation ps\<rparr>)) ?pm"
    unfolding bless_def AList.map_ran_def using ready
    by (intro map_cong refl) (auto simp: process_ready_def not_less)
  then have m: "bless (b_targetVersion ?b) ?pm = map (\<lambda>(d, ps). (d, ps\<lparr>ps_blessedGeneration := ps_generation ps\<rparr>)) ?pm" .
  have ne: "?pm \<noteq> []" using assms by (simp add: isAllProcessReady_def)
  have all: "\<forall>x \<in> set ?pm. case x of (d, ps) \<Rightarrow> process_ready (b_targetVersion ?b) (ps\<lparr>ps_blessedGeneration := ps_generation ps\<rparr>)"
    using ready by (auto simp: process_ready_def)
  show ?thesis
    using ne all
    by (cases "b_isReload ?b")
       (simp_all add: Let_def m boot_isReady_def isAllProcessReady_def anyUnblessed_def list_all_iff list_ex_iff
          case_prod_unfold buildSettingsCommitResponse_def)
qed

text \<open>A fleet that runs version 1 in its first generation, and a daemon that reconciles it.\<close>

definition fleet_running :: "(ipc_daemon \<times> process_state) list" where
  "fleet_running = map (\<lambda>d. (d, \<lparr>ps_connected = True, ps_appliedVersion = 1, ps_generation = 1,
     ps_blessedGeneration = 1\<rparr>)) service_daemons"

definition reconciling :: engined where
  "reconciling = (eng_init history_example config_init)
     \<lparr>e_boot := \<lparr>b_state = Reconcile, b_startedAt = 0, b_lastClientHelloSentAt = 0, b_lastSyncRequestSentAt = 0,
        b_lastBootWarnAt = 0, b_reloadStartedAt = 0, b_targetVersion = 1, b_processMap = fleet_running,
        b_isReload = False, b_bootstrapped = True\<rparr>\<rparr>"

definition reloading :: engined where
  "reloading = reconciling\<lparr>e_boot := (e_boot reconciling)\<lparr>b_isReload := True\<rparr>\<rparr>"

theorem runtime_start_settles_witness:
  "e_events (engboot_handleAction unary_lib EbActSendRuntimeStart reloading) = [EngCommit ReloadComplete None] \<and>
   length (e_tx (engboot_handleAction unary_lib EbActSendRuntimeStart reloading)) = 2"
proof -
  have r: "isAllProcessReady (e_boot reloading)" by code_simp
  have s: "b_isReload (e_boot reloading)" "e_events reloading = []" "e_tx reloading = []" by code_simp+
  from runtime_start_settles [OF r, of unary_lib] s show ?thesis by (simp add: Let_def del: engboot_handleAction.simps)
qed

lemma response_error_flag: "hasFlag (orFlag FlagResponse FlagError) FlagError"
  by code_simp

text \<open>C16. A reload that does not converge is given up on time, and said so. While reconciling, a
  scheduling round reports the reload failed exactly when one is running and its timeout has passed,
  and then only; the report becomes one negative response, with the error flag, and one
  \<open>ReloadFailed\<close> for the commit queue.\<close>

theorem reload_timeout_reported:
  assumes "b_state (e_boot s) = Reconcile" and "reloadTimeout (eng_cached env s) = Inr t"
    and "boot_schedule env now s = Inr (ev, s')"
  shows "let expired = (b_isReload (e_boot s) \<and> now - b_reloadStartedAt (e_boot s) \<ge> t) in
    (ev = Some (EngBootstrap EbReloadFailed None) \<longleftrightarrow> expired) \<and>
    (b_isReload (e_boot s') \<longleftrightarrow> b_isReload (e_boot s) \<and> \<not> expired) \<and>
    (\<exists>s1. dispatch_event L env now (EngBootstrap EbReloadFailed None) s' = Inr s1 \<and>
      e_actions s1 = e_actions s' @ [ActBootstrap EbActSendReloadFailed]) \<and>
    (\<exists>s2 m. dispatch_action L env now (ActBootstrap EbActSendReloadFailed) s' = Inr s2 \<and>
      e_tx s2 = e_tx s' @ [m] \<and> msg_cmd m = CmdSettingsCommitResponse \<and> msg_dst m = DMgmtd \<and>
      hasFlag (msg_flags m) FlagError \<and> e_events s2 = e_events s' @ [EngCommit ReloadFailed None])"
  using assms
  by (auto simp: boot_schedule_def bind_err_Inr_iff Let_def buildSettingsCommitResponse_def response_error_flag
      dest!: warnIfBootSlow_frame split: if_splits)

theorem reload_timeout_reported_witness:
  "\<exists>s'. boot_schedule still_env 20000000000 reloading = Inr (Some (EngBootstrap EbReloadFailed None), s') \<and>
     \<not> b_isReload (e_boot s')"
proof -
  have st: "b_state (e_boot reloading) = Reconcile" "b_isReload (e_boot reloading)" "b_reloadStartedAt (e_boot reloading) = 0"
    by code_simp+
  have t: "reloadTimeout (eng_cached still_env reloading) = Inr 20000000000" by code_simp
  obtain ev s' where r: "boot_schedule still_env 20000000000 reloading = Inr (ev, s')"
    using st t by (auto simp: boot_schedule_def Let_def)
  from reload_timeout_reported [OF st(1) t r] st r show ?thesis by (auto simp: Let_def)
qed

text \<open>
  The response to a commit can be premature. In one poll a settings commit and a report arrive that
  shows \<^verbatim>\<open>authd\<close> restarted, in generation 2, on the old version 1. The report is judged against the old
  target and posts \<open>RuntimeStart\<close> behind the application of the commit; by the time it is sent the
  target is version 2 and a reload is running, so \<^verbatim>\<open>mgmtd\<close> is told that version 2 is in force and the
  commit counts as done, while every daemon still runs version 1.
\<close>

definition restarted_report :: json where
  "restarted_report = JObj [(''daemons'', JArr (map (\<lambda>d. JObj [(''daemon'', JStr (daemonToStr d)),
     (''generation'', JInt (if d = DAuthd then 2 else 1)), (''applied_version'', JInt 1)]) service_daemons))]"

definition race_lib :: jlib where
  "race_lib = \<lparr>jl_parse = (\<lambda>bs. if bs = [1] then Some (JArr [JObj [(''scope'', JStr ''pretzel''),
        (''domain'', JStr ''log''), (''values'', JObj [])]]) else if bs = [2] then Some restarted_report else None),
     jl_dump = (\<lambda>j. if j = JObj [(''ok'', JBool True), (''target_version'', JInt 2)] then [3] else [4]),
     jl_merge = (\<lambda>target patch. patch)\<rparr>"

definition race_messages :: "ipc_message list" where
  "race_messages = [mk_message DMgmtd DEngined CmdSettingsCommitRequest 1 (toFlag FlagRequest) [1],
     mk_message DIpcd DEngined CmdSyncResponse 0 (toFlag FlagResponse) [2]]"

theorem premature_commit_response:
  "case eng_tick race_lib still_env race_messages reconciling of Inl e \<Rightarrow> False
   | Inr s \<Rightarrow> list_ex (\<lambda>m. msg_cmd m = CmdSettingsCommitResponse \<and> msg_payload m = [3]) (e_tx s) \<and>
       e_queue s = [] \<and> b_targetVersion (e_boot s) = 2 \<and>
       list_all (\<lambda>(d, ps). ps_appliedVersion ps = 1) (b_processMap (e_boot s))"
  by code_simp

end
