(* ===== verification/Engined_Rounds.thy ===== *)
theory Engined_Rounds
  imports Engined_Reach
begin

text \<open>
  Rounds of the heartbeat service: what the counter of outstanding answers counts, and what the result
  of a round says about the daemons.
\<close>

subsection \<open>Outstanding answers\<close>

type_synonym daemon_map = "(ipc_daemon \<times> daemon_entry) list"

definition waiting :: "daemon_map \<Rightarrow> ipc_daemon set" where
  "waiting dm = {d. \<exists>e. map_of dm d = Some e \<and> de_pending e}"

definition answered :: "daemon_map \<Rightarrow> ipc_daemon set" where
  "answered dm = {d. \<exists>e. map_of dm d = Some e \<and> de_alive e}"

definition hb_ok :: "heartbeat \<Rightarrow> bool" where
  "hb_ok h \<longleftrightarrow> distinct (map fst (h_daemonMap h)) \<and> set (map fst (h_daemonMap h)) = set hb_targets \<and>
     h_pendingCount h = int (card (waiting (h_daemonMap h))) \<and>
     (h_roundActive h \<longleftrightarrow> waiting (h_daemonMap h) \<noteq> {}) \<and>
     waiting (h_daemonMap h) \<inter> answered (h_daemonMap h) = {}"

lemma finite_waiting [simp]: "finite (waiting dm)"
proof (rule finite_subset)
  show "waiting dm \<subseteq> set (map fst dm)" by (force simp: waiting_def dest: map_of_SomeD)
qed simp

lemma map_of_mapped: "map_of (AList.map_ran f dm) d = map_option (f d) (map_of dm d)"
  by (simp add: map_ran_conv)

lemma waiting_opened: "waiting (AList.map_ran (\<lambda>d e. open_entry now e) dm) = set (map fst dm)"
  "answered (AList.map_ran (\<lambda>d e. open_entry now e) dm) = {}"
proof -
  have "map_of dm d \<noteq> None \<longleftrightarrow> d \<in> set (map fst dm)" for d by (simp add: map_of_eq_None_iff)
  then show "waiting (AList.map_ran (\<lambda>d e. open_entry now e) dm) = set (map fst dm)"
    by (fastforce simp: waiting_def map_of_mapped open_entry_def)
  show "answered (AList.map_ran (\<lambda>d e. open_entry now e) dm) = {}"
    by (auto simp: answered_def map_of_mapped open_entry_def)
qed

lemma waiting_timeouts: "waiting (markTimeoutsAsDead dm) = {}"
  by (auto simp: waiting_def markTimeoutsAsDead_def map_of_mapped split: if_splits)

lemma answered_timeouts:
  "waiting dm \<inter> answered dm = {} \<Longrightarrow> answered (markTimeoutsAsDead dm) = answered dm"
  by (fastforce simp: waiting_def answered_def markTimeoutsAsDead_def map_of_mapped split: if_splits)

lemma keys_timeouts: "map fst (markTimeoutsAsDead dm) = map fst dm"
  by (simp add: markTimeoutsAsDead_def)

lemma waiting_answer:
  "\<not> de_pending e \<Longrightarrow> waiting (AList.update d e dm) = waiting dm - {d}"
  "de_alive e \<Longrightarrow> answered (AList.update d e dm) = insert d (answered dm)"
  by (auto simp: waiting_def answered_def update_conv' split: if_splits)

lemma keys_answer: "map_of dm d = Some e' \<Longrightarrow> map fst (AList.update d e dm) = map fst dm"
  by (auto simp: update_keys dest: map_of_SomeD intro: rev_image_eqI)

text \<open>The cases of a response.\<close>

lemma response_cases:
  assumes "hb_ok (e_hb s)"
  obtains (ignored) "msg_src m \<notin> waiting (h_daemonMap (e_hb s))" "onHeartbeatResponse now m s = s"
  | (counted) dm where "msg_src m \<in> waiting (h_daemonMap (e_hb s))" "map fst dm = map fst (h_daemonMap (e_hb s))"
      "waiting dm = waiting (h_daemonMap (e_hb s)) - {msg_src m}"
      "answered dm = insert (msg_src m) (answered (h_daemonMap (e_hb s)))"
      "onHeartbeatResponse now m s =
        (let h = (e_hb s)\<lparr>h_daemonMap := dm, h_pendingCount := int (card (waiting dm))\<rparr> in
         if waiting dm = {} then s\<lparr>e_hb := h\<lparr>h_roundActive := False\<rparr>,
             e_events := e_events s @ [EngHeartbeat HbSendHeartbeatResult None]\<rparr>
         else s\<lparr>e_hb := h\<rparr>)"
proof (cases "msg_src m \<in> waiting (h_daemonMap (e_hb s))")
  case False
  then have "onHeartbeatResponse now m s = s"
    by (auto simp: onHeartbeatResponse_def waiting_def Let_def split: option.split)
  with False show ?thesis by (rule ignored)
next
  case True
  let ?dm = "h_daemonMap (e_hb s)"
  obtain e where e: "map_of ?dm (msg_src m) = Some e" "de_pending e" using True by (auto simp: waiting_def)
  define e' where "e' = e\<lparr>de_pending := False, de_alive := True, de_latencyMs := to_ms (now - de_sentAt e)\<rparr>"
  define dm where "dm = AList.update (msg_src m) e' ?dm"
  have w: "waiting dm = waiting ?dm - {msg_src m}" "answered dm = insert (msg_src m) (answered ?dm)"
    by (simp_all add: dm_def waiting_answer e'_def)
  have k: "map fst dm = map fst ?dm" using keys_answer [OF e(1)] by (simp add: dm_def)
  have "h_pendingCount (e_hb s) = int (card (waiting ?dm))" using assms by (simp add: hb_ok_def)
  moreover have "card (waiting ?dm) = Suc (card (waiting dm))"
    unfolding w(1) using True by (simp only: card_Suc_Diff1 finite_waiting)
  ultimately have c: "h_pendingCount (e_hb s) - 1 = int (card (waiting dm))" by simp
  have "onHeartbeatResponse now m s =
        (let h = (e_hb s)\<lparr>h_daemonMap := dm, h_pendingCount := int (card (waiting dm))\<rparr> in
         if waiting dm = {} then s\<lparr>e_hb := h\<lparr>h_roundActive := False\<rparr>,
             e_events := e_events s @ [EngHeartbeat HbSendHeartbeatResult None]\<rparr>
         else s\<lparr>e_hb := h\<rparr>)"
    using e by (simp add: onHeartbeatResponse_def Let_def dm_def [symmetric] e'_def [symmetric] c card_eq_0_iff)
  with True k w show ?thesis by (rule counted)
qed

lemma response_hb_ok: "hb_ok (e_hb s) \<Longrightarrow> hb_ok (e_hb (onHeartbeatResponse now m s))"
proof -
  assume ok: "hb_ok (e_hb s)"
  from ok show ?thesis
  proof (cases rule: response_cases [where m = m and now = now])
    case (counted dm)
    have "waiting dm \<inter> answered dm = {}" using ok unfolding counted(3,4) hb_ok_def by blast
    moreover have "distinct (map fst dm) \<and> set (map fst dm) = set hb_targets" using ok unfolding counted(2) hb_ok_def by blast
    moreover have "waiting (h_daemonMap (e_hb s)) \<noteq> {}" using counted(1) by blast
    ultimately show ?thesis unfolding counted(5) using ok by (simp add: hb_ok_def Let_def)
  qed (use ok in simp)
qed

lemma requests_hb_ok: "hb_ok (e_hb s) \<Longrightarrow> hb_ok (e_hb (sendRequests now s))"
proof -
  assume ok: "hb_ok (e_hb s)"
  let ?dm = "h_daemonMap (e_hb s)"
  have "card (set (map fst ?dm)) = length ?dm" using ok by (metis distinct_card hb_ok_def length_map)
  moreover have "set (map fst ?dm) \<noteq> {}" using ok by (simp add: hb_ok_def) (simp add: hb_targets_def)
  ultimately show ?thesis using ok
    by (simp add: hb_ok_def sendRequests_def Let_def waiting_opened) (auto simp: hb_targets_def)
qed

lemma timeouts_hb_ok:
  "hb_ok h \<Longrightarrow> hb_ok (h\<lparr>h_daemonMap := markTimeoutsAsDead (h_daemonMap h), h_roundActive := False, h_pendingCount := 0\<rparr>)"
  using keys_timeouts [of "h_daemonMap h"] waiting_timeouts [of "h_daemonMap h"] by (simp add: hb_ok_def)

subsection \<open>Every reachable state counts right\<close>

lemma hb_boot_event: "e_hb (engboot_handleEvent L now e m s) = e_hb s"
  by (cases "(L, now, e, m, s)" rule: engboot_handleEvent.cases)
     (auto simp: onServerHello_def onSyncResponse_def Let_def split: prod.splits)

lemma hb_boot_action: "e_hb (engboot_handleAction L a s) = e_hb s"
  by (cases a) (auto simp: Let_def)

lemma hb_startNext: "e_hb (startNext L s) = e_hb s"
  by (auto simp: startNext_def sendQueueStatus_def split: prod.splits)

lemma hb_ends: "e_hb (end_running L st s) = e_hb s" "e_hb (fail_running L s) = e_hb s"
  by (simp_all add: end_running_def fail_running_def hb_startNext sendQueueStatus_def)

lemma hb_commit_event: "e_hb (commit_handleEvent L e m s) = e_hb s"
  by (cases "(L, e, m, s)" rule: commit_handleEvent.cases)
     (auto simp: hb_ends hb_startNext sendQueueStatus_def Let_def)

lemma hb_applyCommit: "applyCommit L env now s = Inr s' \<Longrightarrow> e_hb s' = e_hb s"
  by (erule applyCommit_cases)
     (auto simp: hb_ends same_but_store_def scheduleServiceReload_def Let_def)

lemma hb_event: "hb_ok (e_hb s) \<Longrightarrow> hb_ok (e_hb (hb_handleEvent L env now e m s))"
  by (cases "(L, env, now, e, m, s)" rule: hb_handleEvent.cases) (auto simp: requests_hb_ok response_hb_ok)

lemma event_hb_ok: "dispatch_event L env now e s = Inr s' \<Longrightarrow> hb_ok (e_hb s) \<Longrightarrow> hb_ok (e_hb s')"
  by (cases e) (auto simp: hb_boot_event hb_commit_event hb_event
      simp del: engboot_handleEvent.simps commit_handleEvent.simps hb_handleEvent.simps)

lemma action_hb_ok: "dispatch_action L env now a s = Inr s' \<Longrightarrow> e_hb s' = e_hb s"
  by (cases a) (auto simp: hb_boot_action commit_handleAction_def hb_applyCommit sendHeartbeatRequest_def
      sendHeartbeatResult_def simp del: engboot_handleAction.simps split: commit_action_type.splits)

lemma dispatch_hb_ok:
  "eng_dispatch L env s = Some (Inr s') \<Longrightarrow> hb_ok (e_hb s) \<Longrightarrow> hb_ok (e_hb s')"
  by (erule dispatch_cases) (auto dest: event_hb_ok action_hb_ok)

lemma schedule_round:
  assumes "hb_schedule env now s = Inr (ev, s')" "hb_ok (e_hb s)"
  shows "hb_ok (e_hb s')"
proof -
  have h: "hb_ok (h\<lparr>h_lastPollAt := t\<rparr>) = hb_ok h" for h t by (simp add: hb_ok_def)
  have "e_hb s' = e_hb s \<or> (\<exists>t. e_hb s' = (e_hb s)\<lparr>h_lastPollAt := t\<rparr>) \<or>
      e_hb s' = (e_hb s)\<lparr>h_daemonMap := markTimeoutsAsDead (h_daemonMap (e_hb s)), h_roundActive := False, h_pendingCount := 0\<rparr>"
    using assms(1) by (auto simp: hb_schedule_def bind_err_Inr_iff Let_def split: if_splits)
  then show ?thesis using h assms(2) timeouts_hb_ok by auto
qed

lemma hb_post [simp]: "e_hb (eng_postEvent ev s) = e_hb s"
  by (cases ev) simp_all

lemma schedule_hb_ok: "eng_schedule env s = Inr s' \<Longrightarrow> hb_ok (e_hb s) \<Longrightarrow> hb_ok (e_hb s')"
proof (erule schedule_cases)
  fix ev s1
  assume "hb_ok (e_hb s)" and b: "boot_schedule env (en_clock env (e_steps s + 1)) (s\<lparr>e_steps := e_steps s + 1\<rparr>) = Inr (ev, s1)"
    "s' = eng_postEvent ev s1"
  then show ?thesis using boot_schedule_progress [OF b(1)] by simp
next
  fix ev s1 ev' s2
  assume "hb_ok (e_hb s)" and b: "boot_schedule env (en_clock env (e_steps s + 1)) (s\<lparr>e_steps := e_steps s + 1\<rparr>) = Inr (ev, s1)"
    and h: "hb_schedule env (en_clock env (e_steps s + 1)) (eng_postEvent ev s1) = Inr (ev', s2)"
    and s': "s' = eng_postEvent ev' s2"
  then show ?thesis using boot_schedule_progress [OF b] schedule_round [OF h] by simp
qed

lemma reachable_hb_ok: "engined_reachable L env s \<Longrightarrow> hb_ok (e_hb s)"
proof (induction rule: engined_reachable.induct)
  case (er_start d c)
  have "waiting (map (\<lambda>d. (d, fresh_entry)) hb_targets) = {}" "answered (map (\<lambda>d. (d, fresh_entry)) hb_targets) = {}"
    by (auto simp: waiting_def answered_def fresh_entry_def dest!: map_of_SomeD)
  then show ?case by (simp add: hb_ok_def start_simps comp_def) (simp add: hb_targets_def)
qed (auto simp: eng_receive_def schedule_hb_ok dispatch_hb_ok)

subsection \<open>A round\<close>

text \<open>Responses of a round with the times they are handled at.\<close>

definition respond :: "(time \<times> ipc_message) list \<Rightarrow> engined \<Rightarrow> engined" where
  "respond rs s = fold (\<lambda>(now, m). onHeartbeatResponse now m) rs s"

lemma respond_round:
  assumes "hb_ok (e_hb s)" "waiting (h_daemonMap (e_hb s)) \<union> answered (h_daemonMap (e_hb s)) = set hb_targets"
    "waiting (h_daemonMap (e_hb s)) \<noteq> {}"
  shows "let s' = respond rs s; S = (\<lambda>(t, m). msg_src m) ` set rs in
    hb_ok (e_hb s') \<and> waiting (h_daemonMap (e_hb s')) = waiting (h_daemonMap (e_hb s)) - S \<and>
    answered (h_daemonMap (e_hb s')) = answered (h_daemonMap (e_hb s)) \<union> (S \<inter> waiting (h_daemonMap (e_hb s))) \<and>
    e_events s' = e_events s @
      (if waiting (h_daemonMap (e_hb s)) \<subseteq> S then [EngHeartbeat HbSendHeartbeatResult None] else [])"
  using assms
proof (induction rs arbitrary: s)
  case Nil
  then show ?case by (simp add: respond_def Let_def)
next
  case (Cons r rs)
  obtain now m where r: "r = (now, m)" by fastforce
  let ?w = "waiting (h_daemonMap (e_hb s))" and ?a = "answered (h_daemonMap (e_hb s))"
    and ?S = "(\<lambda>(t, m). msg_src m) ` set rs"
  from Cons.prems(1) show ?case
  proof (cases rule: response_cases [where m = m and now = now])
    case ignored
    then have "respond (r # rs) s = respond rs s" by (simp add: respond_def r)
    moreover have "?w - insert (msg_src m) ?S = ?w - ?S" "insert (msg_src m) ?S \<inter> ?w = ?S \<inter> ?w"
      "?w \<subseteq> insert (msg_src m) ?S \<longleftrightarrow> ?w \<subseteq> ?S" using ignored(1) by blast+
    ultimately show ?thesis using Cons.IH [OF Cons.prems] by (simp add: r Let_def)
  next
    case (counted dm)
    let ?s = "onHeartbeatResponse now m s"
    have e: "respond (r # rs) s = respond rs ?s" by (simp add: respond_def r)
    have ok: "hb_ok (e_hb ?s)" by (rule response_hb_ok [OF Cons.prems(1)])
    have dm: "h_daemonMap (e_hb ?s) = dm" unfolding counted(5) by (simp add: Let_def)
    show ?thesis
    proof (cases "waiting dm = {}")
      case True
      then have ev: "e_events ?s = e_events s @ [EngHeartbeat HbSendHeartbeatResult None]"
        unfolding counted(5) by (simp add: Let_def)
      have idle: "onHeartbeatResponse t m' ?s = ?s" for t m'
        by (rule response_cases [OF ok, of m' t]) (use True dm in simp_all)
      then have "respond rs ?s = ?s" by (induction rs) (auto simp: respond_def)
      moreover have "?w = {msg_src m}" using True counted(1,3) by blast
      ultimately show ?thesis unfolding e using ok ev dm True counted(4) by (auto simp: r Let_def)
    next
      case False
      then have ev: "e_events ?s = e_events s" unfolding counted(5) by (simp add: Let_def)
      have u: "waiting (h_daemonMap (e_hb ?s)) \<union> answered (h_daemonMap (e_hb ?s)) = set hb_targets"
        using Cons.prems(2) counted(1) unfolding dm counted(3,4) by blast
      have sets: "?w - {msg_src m} - ?S = ?w - insert (msg_src m) ?S"
        "insert (msg_src m) ?a \<union> ?S \<inter> (?w - {msg_src m}) = ?a \<union> insert (msg_src m) ?S \<inter> ?w"
        "?w - {msg_src m} \<subseteq> ?S \<longleftrightarrow> ?w \<subseteq> insert (msg_src m) ?S" using counted(1) by blast+
      show ?thesis
        using Cons.IH [OF ok u] False sets unfolding e dm counted(3,4) ev by (simp add: r Let_def)
    qed
  qed
qed

lemma result_status:
  "jfind ''status'' (result_entry dm d) =
     Some (JStr (if d \<in> set selfReported \<union> answered dm then ''alive'' else ''dead''))"
  by (auto simp: result_entry_def answered_def Let_def split: option.split)

subsection \<open>Properties\<close>

text \<open>The heartbeat's books balance. In every reachable state each target has exactly one entry, the
  counter of outstanding answers is the number of entries that wait for one, a round is open exactly
  while somebody is waited for, and nobody is both waited for and counted alive.\<close>

theorem heartbeat_counts:
  assumes "engined_reachable L env s"
  shows "let h = e_hb s; dm = h_daemonMap h in
    distinct (map fst dm) \<and> set (map fst dm) = set hb_targets \<and>
    h_pendingCount h = int (card {d. \<exists>e. map_of dm d = Some e \<and> de_pending e}) \<and>
    (h_roundActive h \<longleftrightarrow> (\<exists>d e. map_of dm d = Some e \<and> de_pending e)) \<and>
    (\<forall>d e. map_of dm d = Some e \<longrightarrow> \<not> (de_pending e \<and> de_alive e))"
  using reachable_hb_ok [OF assms] unfolding hb_ok_def waiting_def answered_def Let_def by blast

definition beating_env :: eng_env where
  "beating_env = \<lparr>en_clock = (\<lambda>_. 0), en_wall = (\<lambda>_. 0), en_connect = (\<lambda>_. False), en_file = None,
     en_query = (\<lambda>_. True), en_later = (\<lambda>_. []), en_commit = (\<lambda>_. commit_example SqlOk)\<rparr>"

definition beating :: engined where
  "beating = eng_start beating_env (eng_init history_example config_init)"

lemma beating_reachable: "engined_reachable unary_lib beating_env beating"
  unfolding beating_def by (rule er_start)

theorem heartbeat_counts_witness:
  "h_pendingCount (e_hb beating) = int (card {d. \<exists>e. map_of (h_daemonMap (e_hb beating)) d = Some e \<and> de_pending e}) \<and>
   h_pendingCount (e_hb beating) = 0"
proof -
  have "h_pendingCount (e_hb beating) = 0" by (simp add: beating_def start_simps)
  with heartbeat_counts [OF beating_reachable] show ?thesis unfolding Let_def by blast
qed

text \<open>The result of a round tells the truth about it. Whatever answers arrive after the requests were
  sent, in whatever order and number, the round closes, with exactly one result, as soon as every
  target has answered and not before; and the result, whether it is built then or after the timeout has
  marked the silent ones, calls alive the broker, \<^verbatim>\<open>engined\<close> itself and exactly the daemons that
  answered, and every other daemon dead.\<close>

theorem heartbeat_result_true:
  assumes "engined_reachable L env s"
  shows "let s' = respond rs (sendRequests t0 s); dm = h_daemonMap (e_hb s'); S = (\<lambda>(t, m). msg_src m) ` set rs in
    e_events s' = e_events s @ (if set hb_targets \<subseteq> S then [EngHeartbeat HbSendHeartbeatResult None] else []) \<and>
    (h_roundActive (e_hb s') \<longleftrightarrow> \<not> set hb_targets \<subseteq> S) \<and>
    (\<forall>d. \<forall>dm' \<in> {dm, markTimeoutsAsDead dm}. d \<in> set result_order \<longrightarrow>
      jfind ''status'' (result_entry dm' d) =
        Some (JStr (if d = DIpcd \<or> d = DEngined \<or> d \<in> S then ''alive'' else ''dead'')))"
proof -
  let ?s = "sendRequests t0 s" and ?S = "(\<lambda>(t, m). msg_src m) ` set rs"
  have ok: "hb_ok (e_hb s)" by (rule reachable_hb_ok [OF assms])
  have k: "set (map fst (h_daemonMap (e_hb s))) = set hb_targets" using ok by (simp add: hb_ok_def)
  have w: "waiting (h_daemonMap (e_hb ?s)) = set hb_targets" "answered (h_daemonMap (e_hb ?s)) = {}" "e_events ?s = e_events s"
    using k by (simp_all add: sendRequests_def Let_def waiting_opened)
  have ne: "set hb_targets \<noteq> {}" by (simp add: hb_targets_def)
  have "let s' = respond rs ?s in hb_ok (e_hb s') \<and> waiting (h_daemonMap (e_hb s')) = set hb_targets - ?S \<and>
      answered (h_daemonMap (e_hb s')) = ?S \<inter> set hb_targets \<and>
      e_events s' = e_events s @ (if set hb_targets \<subseteq> ?S then [EngHeartbeat HbSendHeartbeatResult None] else [])"
    using respond_round [OF requests_hb_ok [OF ok, of t0], of rs] w ne by (simp add: Let_def)
  then have r: "hb_ok (e_hb (respond rs ?s))" "waiting (h_daemonMap (e_hb (respond rs ?s))) = set hb_targets - ?S"
    "answered (h_daemonMap (e_hb (respond rs ?s))) = ?S \<inter> set hb_targets"
    "e_events (respond rs ?s) = e_events s @ (if set hb_targets \<subseteq> ?S then [EngHeartbeat HbSendHeartbeatResult None] else [])"
    by (simp_all add: Let_def)
  have "answered (markTimeoutsAsDead (h_daemonMap (e_hb (respond rs ?s)))) = ?S \<inter> set hb_targets"
    using r(1,3) answered_timeouts by (simp add: hb_ok_def)
  moreover have "d \<in> set result_order \<Longrightarrow> d \<in> set selfReported \<union> ?S \<inter> set hb_targets \<longleftrightarrow> d = DIpcd \<or> d = DEngined \<or> d \<in> ?S" for d
  proof -
    have "set result_order = set selfReported \<union> set hb_targets" "set selfReported = {DIpcd, DEngined}"
      by (auto simp: result_order_def selfReported_def hb_targets_def)
    then show "d \<in> set result_order \<Longrightarrow> d \<in> set selfReported \<union> ?S \<inter> set hb_targets \<longleftrightarrow> d = DIpcd \<or> d = DEngined \<or> d \<in> ?S"
      by blast
  qed
  moreover have "h_roundActive (e_hb (respond rs ?s)) \<longleftrightarrow> \<not> set hb_targets \<subseteq> ?S"
    using r(1,2) by (auto simp: hb_ok_def)
  ultimately show ?thesis using r(3,4) by (simp add: Let_def result_status)
qed

definition answer_from :: "ipc_daemon \<Rightarrow> time \<times> ipc_message" where
  "answer_from d = (7000000, mk_message d DEngined CmdHeartbeatResponse 0 (toFlag FlagResponse) [])"

theorem heartbeat_result_true_witness:
  "let s' = respond [answer_from DAuthd, answer_from DMgmtd, answer_from DAuthd] (sendRequests 0 beating);
     entry = result_entry (markTimeoutsAsDead (h_daemonMap (e_hb s'))) in
   h_roundActive (e_hb s') \<and> jfind ''status'' (entry DMgmtd) = Some (JStr ''alive'') \<and>
   jfind ''status'' (entry DProbed) = Some (JStr ''dead'')"
proof -
  have "\<not> set hb_targets \<subseteq> {DAuthd, DMgmtd}" "DMgmtd \<in> set result_order" "DProbed \<in> set result_order"
    by (simp_all add: hb_targets_def result_order_def)
  with heartbeat_result_true [OF beating_reachable, of "[answer_from DAuthd, answer_from DMgmtd, answer_from DAuthd]" 0]
  show ?thesis by (simp add: Let_def answer_from_def insert_commute)
qed

end
