(* ===== verification/Service_Daemon.thy ===== *)
theory Service_Daemon
  imports Engined_State "HOL-Library.Sublist"
begin

text \<open>
  What the service daemons behind the broker have in common. \<^verbatim>\<open>authd\<close>, \<^verbatim>\<open>probed\<close>,
  \<^verbatim>\<open>collectord\<close> and \<^verbatim>\<open>topologyd\<close> have the same bootstrap, heartbeat and reload services word for
  word, up to their own name (\<open>sv_self\<close>) and log lines; \<^verbatim>\<open>apid\<close> has a bootstrap of its own that does
  not wait for the release. A \<open>boot_code\<close> holds the operations that differ, whether the service has
  an event and an action to repeat its report, and the daemon's event factory. Events of the daemon's
  own service are only collected here (\<open>sv_work\<close>). The messages handed to the transmit router are in \<open>sv_tx\<close>.
\<close>

subsection \<open>State\<close>

datatype svc_state = SvInit | SvWaitServerHello | SvWaitRuntimeStart | SvReady | SvRunning | SvFailed

datatype svc_boot_event =
  SbUnknown | SbSendClientHello | SbReceiveServerHello | SbSendRuntimeReady | SbReceiveRuntimeStart

datatype svc_event =
    SvBootstrap svc_boot_event "ipc_message option"
  | SvHeartbeat "ipc_message option"
  | SvReload
  | SvWork ipc_message

datatype svc_boot_action = SaUnknown | SaSendClientHello | SaSendRuntimeReady

datatype svc_action = SvActBootstrap svc_boot_action | SvActHeartbeatResponse ipc_daemon

record svc =
  sv_self :: ipc_daemon
  sv_state :: svc_state
  sv_startedAt :: time
  sv_lastClientHelloSentAt :: time
  sv_lastRuntimeReadySentAt :: time
  sv_bootSlowWarned :: bool
  sv_events :: "svc_event list"
  sv_actions :: "svc_action list"
  sv_tx :: "ipc_message list"
  sv_work :: "ipc_message list"
  sv_reload :: bool
  sv_cfg :: config
  sv_steps :: nat

text \<open>The outside, by the number of points at which it was asked: clock, database, startup file.\<close>

record svc_env =
  sn_clock :: "nat \<Rightarrow> time"
  sn_connect :: "conn_params \<Rightarrow> bool"
  sn_file :: "json option"
  sn_rows :: "nat \<Rightarrow> cfg_row list list"

definition svc_init :: "ipc_daemon \<Rightarrow> config \<Rightarrow> svc" where
  "svc_init self c =
     \<lparr>sv_self = self, sv_state = SvInit, sv_startedAt = 0, sv_lastClientHelloSentAt = 0,
      sv_lastRuntimeReadySentAt = 0, sv_bootSlowWarned = False, sv_events = [], sv_actions = [],
      sv_tx = [], sv_work = [], sv_reload = False, sv_cfg = c, sv_steps = 0\<rparr>"

definition svc_postEvent :: "svc_event option \<Rightarrow> svc \<Rightarrow> svc" where
  "svc_postEvent event s = (case event of None \<Rightarrow> s | Some e \<Rightarrow> s\<lparr>sv_events := sv_events s @ [e]\<rparr>)"

definition svc_postAction :: "svc_action option \<Rightarrow> svc \<Rightarrow> svc" where
  "svc_postAction action s = (case action of None \<Rightarrow> s | Some a \<Rightarrow> s\<lparr>sv_actions := sv_actions s @ [a]\<rparr>)"

definition svc_send :: "ipc_message \<Rightarrow> svc \<Rightarrow> svc" where
  "svc_send msg s = s\<lparr>sv_tx := sv_tx s @ [msg]\<rparr>"

definition svc_cached :: "svc_env \<Rightarrow> svc \<Rightarrow> svc" where
  "svc_cached env s =
     s\<lparr>sv_cfg := cachedRunningConfig (sn_connect env) (sn_file env) (sn_rows env (sv_steps s)) (sv_cfg s)\<rparr>"

definition svc_interval :: "string \<Rightarrow> int \<Rightarrow> svc \<Rightarrow> json_error + time" where
  "svc_interval key d s =
     map_sum id seconds (jvalue get_i32 key d (cfg_section ''pretzel'' ''bootstrap'' (sv_cfg s)))"

definition svc_clientHelloInterval :: "svc \<Rightarrow> json_error + time" where
  "svc_clientHelloInterval = svc_interval ''client_hello_interval_sec'' 1"

definition svc_runtimeReadyInterval :: "svc \<Rightarrow> json_error + time" where
  "svc_runtimeReadyInterval = svc_interval ''runtime_ready_interval_sec'' 1"

definition svc_bootstrapTimeout :: "svc \<Rightarrow> json_error + time" where
  "svc_bootstrapTimeout = svc_interval ''bootstrap_timeout_sec'' 10"

subsection \<open>The bootstrap service\<close>

definition svc_boot_start :: "time \<Rightarrow> svc \<Rightarrow> svc" where
  "svc_boot_start now s =
     s\<lparr>sv_state := SvInit, sv_startedAt := now, sv_lastClientHelloSentAt := 0,
       sv_lastRuntimeReadySentAt := 0, sv_bootSlowWarned := False\<rparr>"

text \<open>The result is always false: the timeout is only logged, once.\<close>

definition svc_checkTimeout :: "svc_env \<Rightarrow> time \<Rightarrow> svc \<Rightarrow> json_error + bool \<times> svc" where
  "svc_checkTimeout env now s =
     (let s = svc_cached env s in
      bind_err (svc_bootstrapTimeout s) (\<lambda>timeout.
        if now - sv_startedAt s \<ge> timeout \<and> \<not> sv_bootSlowWarned s
        then Inr (False, s\<lparr>sv_bootSlowWarned := True\<rparr>) else Inr (False, s)))"

definition svc_boot_schedule :: "svc_env \<Rightarrow> time \<Rightarrow> svc \<Rightarrow> json_error + svc_event option \<times> svc" where
  "svc_boot_schedule env now s =
     (case sv_state s of
        SvInit \<Rightarrow>
          bind_err (svc_checkTimeout env now s) (\<lambda>(failed, s).
            if failed then Inr (None, s)
            else Inr (Some (SvBootstrap SbSendClientHello None),
                      s\<lparr>sv_state := SvWaitServerHello, sv_lastClientHelloSentAt := now\<rparr>))
      | SvWaitServerHello \<Rightarrow>
          bind_err (svc_checkTimeout env now s) (\<lambda>(failed, s).
            if failed then Inr (None, s)
            else bind_err (svc_clientHelloInterval s) (\<lambda>interval.
              if now - sv_lastClientHelloSentAt s \<ge> interval
              then Inr (Some (SvBootstrap SbSendClientHello None), s\<lparr>sv_lastClientHelloSentAt := now\<rparr>)
              else Inr (None, s)))
      | SvWaitRuntimeStart \<Rightarrow>
          bind_err (svc_checkTimeout env now s) (\<lambda>(failed, s).
            if failed then Inr (None, s)
            else bind_err (svc_runtimeReadyInterval s) (\<lambda>interval.
              if now - sv_lastRuntimeReadySentAt s \<ge> interval
              then Inr (Some (SvBootstrap SbSendRuntimeReady None), s\<lparr>sv_lastRuntimeReadySentAt := now\<rparr>)
              else Inr (None, s)))
      | SvReady \<Rightarrow> Inr (None, s\<lparr>sv_state := SvRunning\<rparr>)
      | SvRunning \<Rightarrow> Inr (None, s)
      | SvFailed \<Rightarrow> Inr (None, s))"

definition svc_isReady :: "svc \<Rightarrow> bool" where
  "svc_isReady s \<longleftrightarrow> sv_state s = SvRunning"

definition buildClientHello :: "ipc_daemon \<Rightarrow> ipc_message" where
  "buildClientHello self =
     mk_message self DIpcd CmdClientHello 0 (toFlag FlagRequest) (bytes_of_string (daemonToStr self))"

definition runtime_ready_json :: "ipc_daemon \<Rightarrow> u64 \<Rightarrow> json" where
  "runtime_ready_json self version =
     JObj [(''applied_version'', JInt (uint version)), (''daemon'', JStr (daemonToStr self))]"

definition buildRuntimeReady :: "jlib \<Rightarrow> ipc_daemon \<Rightarrow> u64 \<Rightarrow> ipc_message" where
  "buildRuntimeReady L self version =
     mk_message self DIpcd CmdRuntimeReady 0 (toFlag FlagRequest) (jl_dump L (runtime_ready_json self version))"

definition svc_version :: "svc \<Rightarrow> u64" where
  "svc_version s = of_nat (cf_version (sv_cfg s))"

definition svc_sendRuntimeReady :: "jlib \<Rightarrow> svc_env \<Rightarrow> svc \<Rightarrow> svc" where
  "svc_sendRuntimeReady L env s =
     (let s = svc_cached env s in svc_send (buildRuntimeReady L (sv_self s) (svc_version s)) s)"

definition svc_onServerHello :: "jlib \<Rightarrow> svc_env \<Rightarrow> time \<Rightarrow> svc \<Rightarrow> svc" where
  "svc_onServerHello L env now s =
     (if sv_state s \<noteq> SvWaitServerHello then s
      else svc_postAction (Some (SvActBootstrap SaSendRuntimeReady))
             (s\<lparr>sv_state := SvWaitRuntimeStart, sv_lastRuntimeReadySentAt := now\<rparr>))"

definition svc_onRuntimeStart :: "svc \<Rightarrow> svc" where
  "svc_onRuntimeStart s =
     (if sv_state s \<noteq> SvWaitRuntimeStart then s else s\<lparr>sv_state := SvReady\<rparr>)"

text \<open>\<^verbatim>\<open>apid\<close>: no release to wait for, so it is ready once it has told the broker.\<close>

definition apid_warnIfBootSlow :: "svc_env \<Rightarrow> time \<Rightarrow> svc \<Rightarrow> json_error + svc" where
  "apid_warnIfBootSlow env now s =
     (let s = svc_cached env s in
      bind_err (svc_bootstrapTimeout s) (\<lambda>interval.
        if now - sv_startedAt s \<ge> interval \<and> \<not> sv_bootSlowWarned s
        then Inr (s\<lparr>sv_bootSlowWarned := True\<rparr>) else Inr s))"

definition apid_boot_schedule :: "svc_env \<Rightarrow> time \<Rightarrow> svc \<Rightarrow> json_error + svc_event option \<times> svc" where
  "apid_boot_schedule env now s =
     (case sv_state s of
        SvInit \<Rightarrow>
          Inr (Some (SvBootstrap SbSendClientHello None),
               s\<lparr>sv_state := SvWaitServerHello, sv_lastClientHelloSentAt := now\<rparr>)
      | SvWaitServerHello \<Rightarrow>
          bind_err (apid_warnIfBootSlow env now s) (\<lambda>s.
            bind_err (svc_clientHelloInterval s) (\<lambda>interval.
              if now - sv_lastClientHelloSentAt s \<ge> interval
              then Inr (Some (SvBootstrap SbSendClientHello None), s\<lparr>sv_lastClientHelloSentAt := now\<rparr>)
              else Inr (None, s)))
      | SvReady \<Rightarrow> Inr (None, s\<lparr>sv_state := SvRunning\<rparr>)
      | _ \<Rightarrow> Inr (None, s))"

definition apid_onServerHello :: "jlib \<Rightarrow> svc_env \<Rightarrow> time \<Rightarrow> svc \<Rightarrow> svc" where
  "apid_onServerHello L env now s =
     (if sv_state s \<noteq> SvWaitServerHello then s
      else (svc_sendRuntimeReady L env s)\<lparr>sv_state := SvReady\<rparr>)"

definition apid_onRuntimeStart :: "svc \<Rightarrow> svc" where
  "apid_onRuntimeStart s = s"

subsection \<open>The daemons\<close>

record boot_code =
  bc_reports :: bool
  bc_schedule :: "svc_env \<Rightarrow> time \<Rightarrow> svc \<Rightarrow> json_error + svc_event option \<times> svc"
  bc_onServerHello :: "jlib \<Rightarrow> svc_env \<Rightarrow> time \<Rightarrow> svc \<Rightarrow> svc"
  bc_onRuntimeStart :: "svc \<Rightarrow> svc"
  bc_create :: "ipc_message \<Rightarrow> svc_event option"

definition common_create :: "ipc_cmd list \<Rightarrow> ipc_message \<Rightarrow> svc_event option" where
  "common_create work m =
     (case msg_cmd m of
        CmdServerHello \<Rightarrow> Some (SvBootstrap SbReceiveServerHello (Some m))
      | CmdRuntimeStart \<Rightarrow> Some (SvBootstrap SbReceiveRuntimeStart (Some m))
      | CmdHeartbeatRequest \<Rightarrow> Some (SvHeartbeat (Some m))
      | CmdConfigApply \<Rightarrow> Some SvReload
      | c \<Rightarrow> if c \<in> set work then Some (SvWork m) else None)"

definition probed_create :: "ipc_message \<Rightarrow> svc_event option" where
  "probed_create = common_create [CmdProbeRequest]"

definition authd_create :: "ipc_message \<Rightarrow> svc_event option" where
  "authd_create = common_create [CmdAuthLoginRequest, CmdAuthOidcStartRequest, CmdAuthOidcCallbackRequest,
     CmdAuthSamlStartRequest, CmdAuthSamlAcsRequest]"

definition collectord_create :: "ipc_message \<Rightarrow> svc_event option" where
  "collectord_create = common_create [CmdApiKeygenRequest, CmdApiEndpointTestRequest, CmdApiSaseTestRequest,
     CmdApiTlsProbeRequest, CmdApiSaseKeyStoreRequest, CmdApiCredentialStoreRequest,
     CmdApiCredentialStateResponse]"

definition topologyd_create :: "ipc_message \<Rightarrow> svc_event option" where
  "topologyd_create = common_create [CmdTopologyRequest]"

definition apid_create :: "ipc_message \<Rightarrow> svc_event option" where
  "apid_create = common_create []"

definition waiting_code :: "(ipc_message \<Rightarrow> svc_event option) \<Rightarrow> boot_code" where
  "waiting_code create = \<lparr>bc_reports = True, bc_schedule = svc_boot_schedule, bc_onServerHello = svc_onServerHello,
     bc_onRuntimeStart = svc_onRuntimeStart, bc_create = create\<rparr>"

definition apid_code :: boot_code where
  "apid_code = \<lparr>bc_reports = False, bc_schedule = apid_boot_schedule, bc_onServerHello = apid_onServerHello,
     bc_onRuntimeStart = apid_onRuntimeStart, bc_create = apid_create\<rparr>"

definition daemon_code :: "ipc_daemon \<Rightarrow> boot_code" where
  "daemon_code d =
     (case d of
        DApid \<Rightarrow> apid_code
      | DAuthd \<Rightarrow> waiting_code authd_create
      | DCollectord \<Rightarrow> waiting_code collectord_create
      | DTopologyd \<Rightarrow> waiting_code topologyd_create
      | _ \<Rightarrow> waiting_code probed_create)"

subsection \<open>Dispatching\<close>

fun svc_boot_handleEvent :: "jlib \<Rightarrow> boot_code \<Rightarrow> svc_env \<Rightarrow> time \<Rightarrow> svc_boot_event \<Rightarrow> ipc_message option \<Rightarrow> svc \<Rightarrow> svc" where
  "svc_boot_handleEvent L code env now SbSendClientHello m s = svc_postAction (Some (SvActBootstrap SaSendClientHello)) s"
| "svc_boot_handleEvent L code env now SbReceiveServerHello m s =
     (case m of None \<Rightarrow> s | Some msg \<Rightarrow> bc_onServerHello code L env now s)"
| "svc_boot_handleEvent L code env now SbSendRuntimeReady m s =
     (if bc_reports code then svc_postAction (Some (SvActBootstrap SaSendRuntimeReady)) s else s)"
| "svc_boot_handleEvent L code env now SbReceiveRuntimeStart m s =
     (case m of None \<Rightarrow> s | Some msg \<Rightarrow> bc_onRuntimeStart code s)"
| "svc_boot_handleEvent L code env now SbUnknown m s = s"

fun svc_boot_handleAction :: "jlib \<Rightarrow> boot_code \<Rightarrow> svc_env \<Rightarrow> svc_boot_action \<Rightarrow> svc \<Rightarrow> svc" where
  "svc_boot_handleAction L code env SaSendClientHello s =
     (if sv_state s \<noteq> SvWaitServerHello then s else svc_send (buildClientHello (sv_self s)) s)"
| "svc_boot_handleAction L code env SaSendRuntimeReady s =
     (if \<not> bc_reports code \<or> sv_state s \<noteq> SvWaitRuntimeStart then s else svc_sendRuntimeReady L env s)"
| "svc_boot_handleAction L code env SaUnknown s = s"

definition svc_hb_handleEvent :: "ipc_message option \<Rightarrow> svc \<Rightarrow> svc" where
  "svc_hb_handleEvent m s =
     (case m of None \<Rightarrow> s
      | Some msg \<Rightarrow> svc_postAction (Some (SvActHeartbeatResponse (msg_src msg))) s)"

definition buildHeartbeatResponse :: "ipc_daemon \<Rightarrow> ipc_daemon \<Rightarrow> ipc_message" where
  "buildHeartbeatResponse self dst =
     mk_message self dst CmdHeartbeatResponse 0 (toFlag FlagResponse) []"

definition svc_hb_handleAction :: "ipc_daemon \<Rightarrow> svc \<Rightarrow> svc" where
  "svc_hb_handleAction dst s = svc_send (buildHeartbeatResponse (sv_self s) dst) s"

text \<open>\<^verbatim>\<open>ReloadService\<close>: the daemon sends itself \<^verbatim>\<open>SIGHUP\<close>, whose handler sets \<^verbatim>\<open>Core::m_reload\<close>.\<close>

definition reload_handleEvent :: "svc \<Rightarrow> svc" where
  "reload_handleEvent s = s\<lparr>sv_reload := True\<rparr>"

fun svc_dispatch_event :: "jlib \<Rightarrow> boot_code \<Rightarrow> svc_env \<Rightarrow> time \<Rightarrow> svc_event \<Rightarrow> svc \<Rightarrow> svc" where
  "svc_dispatch_event L code env now (SvBootstrap e m) s = svc_boot_handleEvent L code env now e m s"
| "svc_dispatch_event L code env now (SvHeartbeat m) s = svc_hb_handleEvent m s"
| "svc_dispatch_event L code env now SvReload s = reload_handleEvent s"
| "svc_dispatch_event L code env now (SvWork m) s = s\<lparr>sv_work := sv_work s @ [m]\<rparr>"

fun svc_dispatch_action :: "jlib \<Rightarrow> boot_code \<Rightarrow> svc_env \<Rightarrow> svc_action \<Rightarrow> svc \<Rightarrow> svc" where
  "svc_dispatch_action L code env (SvActBootstrap a) s = svc_boot_handleAction L code env a s"
| "svc_dispatch_action L code env (SvActHeartbeatResponse dst) s = svc_hb_handleAction dst s"

definition svc_dispatch :: "jlib \<Rightarrow> svc_env \<Rightarrow> svc \<Rightarrow> svc option" where
  "svc_dispatch L env s =
     (let s = s\<lparr>sv_steps := sv_steps s + 1\<rparr>; now = sn_clock env (sv_steps s); code = daemon_code (sv_self s) in
      case sv_events s of
        e # es \<Rightarrow> Some (svc_dispatch_event L code env now e (s\<lparr>sv_events := es\<rparr>))
      | [] \<Rightarrow>
         (case sv_actions s of
            a # as \<Rightarrow> Some (svc_dispatch_action L code env a (s\<lparr>sv_actions := as\<rparr>))
          | [] \<Rightarrow> None))"

definition svc_schedule :: "svc_env \<Rightarrow> svc \<Rightarrow> json_error + svc" where
  "svc_schedule env s =
     (let s = s\<lparr>sv_steps := sv_steps s + 1\<rparr>; now = sn_clock env (sv_steps s); code = daemon_code (sv_self s) in
      if svc_isReady s then Inr s
      else map_sum id (\<lambda>(event, s). svc_postEvent event s) (bc_schedule code env now s))"

definition svc_receive :: "ipc_message \<Rightarrow> svc \<Rightarrow> svc" where
  "svc_receive msg s = svc_postEvent (bc_create (daemon_code (sv_self s)) msg) s"

subsection \<open>What a bootstrap has to promise\<close>

text \<open>
  The contract of the operations that differ with the queues the manager runs: a handler posts at
  most one action and no event, the handlers and the scheduler never send a heartbeat reply, and the
  state only moves on for the reason the handshake gives.
\<close>

definition is_hb_response :: "ipc_message \<Rightarrow> bool" where
  "is_hb_response m \<longleftrightarrow> msg_cmd m = CmdHeartbeatResponse"

definition boot_actions :: "svc_action list \<Rightarrow> bool" where
  "boot_actions as \<longleftrightarrow> length as \<le> 1 \<and> list_all (\<lambda>a. \<exists>b. a = SvActBootstrap b) as"

definition boot_handled :: "svc \<Rightarrow> svc \<Rightarrow> bool" where
  "boot_handled s s' \<longleftrightarrow> sv_self s' = sv_self s \<and> sv_events s' = sv_events s \<and>
     sv_work s' = sv_work s \<and> sv_reload s' = sv_reload s \<and>
     (\<exists>as. boot_actions as \<and> sv_actions s' = sv_actions s @ as) \<and>
     (\<exists>ms. list_all (\<lambda>m. \<not> is_hb_response m) ms \<and> sv_tx s' = sv_tx s @ ms)"

definition past_hello :: "svc_state \<Rightarrow> bool" where
  "past_hello st \<longleftrightarrow> st \<noteq> SvInit \<and> st \<noteq> SvWaitServerHello"

definition released :: "svc_state \<Rightarrow> bool" where
  "released st \<longleftrightarrow> st = SvReady \<or> st = SvRunning"

text \<open>The replies a daemon has sent and those its queues will still make it send, in order.\<close>

definition act_replies :: "ipc_daemon \<Rightarrow> svc_action list \<Rightarrow> ipc_message list" where
  "act_replies self as =
     concat (map (\<lambda>a. case a of SvActHeartbeatResponse d \<Rightarrow> [buildHeartbeatResponse self d] | _ \<Rightarrow> []) as)"

definition ev_replies :: "ipc_daemon \<Rightarrow> svc_event list \<Rightarrow> ipc_message list" where
  "ev_replies self es =
     concat (map (\<lambda>e. case e of SvHeartbeat (Some m) \<Rightarrow> [buildHeartbeatResponse self (msg_src m)] | _ \<Rightarrow> []) es)"

definition replies :: "svc \<Rightarrow> ipc_message list" where
  "replies s = filter is_hb_response (sv_tx s) @ act_replies (sv_self s) (sv_actions s)
     @ ev_replies (sv_self s) (sv_events s)"

text \<open>The handshake as the messages dispatched so far justify it.\<close>

definition event_cmds :: "svc_event \<Rightarrow> ipc_cmd list" where
  "event_cmds e = (case e of
     SvBootstrap SbReceiveServerHello (Some m) \<Rightarrow> [CmdServerHello]
   | SvBootstrap SbReceiveRuntimeStart (Some m) \<Rightarrow> [CmdRuntimeStart]
   | _ \<Rightarrow> [])"

definition handshake_ok :: "bool \<Rightarrow> svc_state \<Rightarrow> ipc_cmd list \<Rightarrow> bool" where
  "handshake_ok waits st ds \<longleftrightarrow> (past_hello st \<longrightarrow> CmdServerHello \<in> set ds) \<and>
     (waits \<and> released st \<longrightarrow> subseq [CmdServerHello, CmdRuntimeStart] ds)"

lemma handshake_more: "handshake_ok waits st ds \<Longrightarrow> st' = st \<Longrightarrow> handshake_ok waits st' (ds @ ds')"
  by (auto simp: handshake_ok_def intro: list_emb_append2 subseq_order.trans [OF _ subseq_rev_drop_many])

lemma subseq_two_snoc: "a \<in> set xs \<Longrightarrow> subseq [a, b] (xs @ [b])"
proof -
  assume "a \<in> set xs"
  then have "subseq ([a] @ [b]) (xs @ [b])"
    by (intro list_emb_append_mono) (simp_all add: subseq_singleton_left)
  then show ?thesis by simp
qed

lemma act_replies_simps [simp]:
  "act_replies self [] = []" "act_replies self (as @ bs) = act_replies self as @ act_replies self bs"
  "act_replies self (SvActHeartbeatResponse d # as) = buildHeartbeatResponse self d # act_replies self as"
  "act_replies self (SvActBootstrap b # as) = act_replies self as"
  by (simp_all add: act_replies_def)

lemma ev_replies_simps [simp]:
  "ev_replies self [] = []" "ev_replies self (es @ fs) = ev_replies self es @ ev_replies self fs"
  "ev_replies self (SvHeartbeat (Some m) # es) = buildHeartbeatResponse self (msg_src m) # ev_replies self es"
  "ev_replies self (SvHeartbeat None # es) = ev_replies self es"
  "ev_replies self (SvBootstrap b m' # es) = ev_replies self es"
  "ev_replies self (SvReload # es) = ev_replies self es"
  "ev_replies self (SvWork w # es) = ev_replies self es"
  by (simp_all add: ev_replies_def)

lemma boot_actions_replies: "boot_actions as \<Longrightarrow> act_replies self as = []"
  by (induction as) (auto simp: boot_actions_def act_replies_def)

lemma boot_handled_replies: "boot_handled s s' \<Longrightarrow> replies s' = replies s"
  by (auto simp: boot_handled_def replies_def boot_actions_replies list_all_iff)

lemma boot_handled_refl [simp]: "boot_handled s s"
  by (simp add: boot_handled_def boot_actions_def exI [of _ "[]"])

lemma boot_handled_post: "boot_handled s (svc_postAction (Some (SvActBootstrap a)) s)"
  by (auto simp: boot_handled_def boot_actions_def svc_postAction_def)

lemma svc_cached_simps [simp]:
  "sv_self (svc_cached env s) = sv_self s" "sv_state (svc_cached env s) = sv_state s"
  "sv_events (svc_cached env s) = sv_events s" "sv_actions (svc_cached env s) = sv_actions s"
  "sv_tx (svc_cached env s) = sv_tx s" "sv_work (svc_cached env s) = sv_work s"
  "sv_reload (svc_cached env s) = sv_reload s" "sv_steps (svc_cached env s) = sv_steps s"
  by (simp_all add: svc_cached_def)

lemma is_hb_response_build [simp]:
  "\<not> is_hb_response (buildClientHello d)" "\<not> is_hb_response (buildRuntimeReady L d v)"
  "is_hb_response (buildHeartbeatResponse d e)"
  by (simp_all add: is_hb_response_def buildClientHello_def buildRuntimeReady_def
      buildHeartbeatResponse_def mk_message_def header_build_def)

lemma svc_post_state: "sv_state (svc_postAction a s) = sv_state s" "sv_state (svc_hb_handleEvent m s) = sv_state s"
  by (auto simp: svc_hb_handleEvent_def svc_postAction_def split: option.splits)

lemma svc_event_cases [case_names unknown hello_send hello ready start hb reload work]:
  obtains m where "e = SvBootstrap SbUnknown m" | m where "e = SvBootstrap SbSendClientHello m"
  | m where "e = SvBootstrap SbReceiveServerHello m" | m where "e = SvBootstrap SbSendRuntimeReady m"
  | m where "e = SvBootstrap SbReceiveRuntimeStart m" | m where "e = SvHeartbeat m" | "e = SvReload"
  | m where "e = SvWork m"
  by (metis svc_boot_event.exhaust svc_event.exhaust)

locale boot_service =
  fixes code :: boot_code and waits :: bool
  assumes hello_handled: "boot_handled s (bc_onServerHello code L env now s)"
    and start_handled: "boot_handled s (bc_onRuntimeStart code s)"
    and hello_state: "waits \<Longrightarrow> released (sv_state (bc_onServerHello code L env now s)) \<Longrightarrow> released (sv_state s)"
    and start_state: "released (sv_state (bc_onRuntimeStart code s)) \<Longrightarrow> past_hello (sv_state s)"
    and start_past: "past_hello (sv_state (bc_onRuntimeStart code s)) \<Longrightarrow> past_hello (sv_state s)"
    and schedule_handled: "bc_schedule code env now s = Inr (opt, s') \<Longrightarrow> boot_handled s s'"
    and schedule_event: "bc_schedule code env now s = Inr (Some e, s') \<Longrightarrow>
      \<exists>b. e = SvBootstrap b None \<and> b \<in> {SbSendClientHello, SbSendRuntimeReady}"
    and schedule_state: "bc_schedule code env now s = Inr (opt, s') \<Longrightarrow>
      (past_hello (sv_state s') \<longrightarrow> past_hello (sv_state s)) \<and> (released (sv_state s') \<longrightarrow> released (sv_state s))"

begin

lemma boot_event_handled: "boot_handled s (svc_boot_handleEvent L code env now e m s)"
  using hello_handled start_handled boot_handled_post
  by (cases e) (auto split: option.splits)

lemma dispatch_event_frame:
  "sv_self (svc_dispatch_event L code env now e s) = sv_self s \<and>
   sv_events (svc_dispatch_event L code env now e s) = sv_events s \<and>
   length (sv_actions (svc_dispatch_event L code env now e s)) \<le> Suc (length (sv_actions s))"
proof (cases e)
  case (SvBootstrap b m)
  then show ?thesis using boot_event_handled [of s L env now b m]
    by (auto simp: boot_handled_def boot_actions_def)
qed (auto simp: svc_hb_handleEvent_def svc_postAction_def reload_handleEvent_def split: option.splits)

lemma dispatch_event_replies:
  "replies (svc_dispatch_event L code env now e s) = replies (s\<lparr>sv_events := e # sv_events s\<rparr>)"
proof (cases e)
  case (SvBootstrap b m)
  then show ?thesis
    using boot_handled_replies [OF boot_event_handled [of s L env now b m]] by (simp add: replies_def)
next
  case (SvHeartbeat m)
  then show ?thesis
    by (cases m) (simp_all add: replies_def svc_hb_handleEvent_def svc_postAction_def)
qed (simp_all add: replies_def reload_handleEvent_def)

lemma dispatch_action_frame:
  "sv_self (svc_dispatch_action L code env a s) = sv_self s \<and>
   sv_events (svc_dispatch_action L code env a s) = sv_events s \<and>
   sv_actions (svc_dispatch_action L code env a s) = sv_actions s \<and>
   sv_state (svc_dispatch_action L code env a s) = sv_state s"
  by (cases a; cases "case a of SvActBootstrap b \<Rightarrow> b")
    (simp_all add: svc_hb_handleAction_def svc_send_def svc_sendRuntimeReady_def Let_def)

lemma dispatch_action_replies:
  assumes "sv_events s = []"
  shows "replies (svc_dispatch_action L code env a s) = replies (s\<lparr>sv_actions := a # sv_actions s\<rparr>)"
  using assms
  by (cases a; cases "case a of SvActBootstrap b \<Rightarrow> b")
    (simp_all add: replies_def svc_hb_handleAction_def svc_send_def svc_sendRuntimeReady_def Let_def)

lemma dispatch_event_handshake:
  assumes "handshake_ok waits (sv_state s) ds"
  shows "handshake_ok waits (sv_state (svc_dispatch_event L code env now e s)) (ds @ event_cmds e)"
proof (cases "sv_state (svc_dispatch_event L code env now e s) = sv_state s")
  case True
  with assms show ?thesis by (rule handshake_more)
next
  case False
  then obtain b m where e: "e = SvBootstrap b (Some m)" and "b = SbReceiveServerHello \<or> b = SbReceiveRuntimeStart"
    using svc_post_state by (cases e rule: svc_event_cases) (auto simp: reload_handleEvent_def split: option.splits if_splits)
  then consider "b = SbReceiveServerHello" | "b = SbReceiveRuntimeStart" by blast
  then show ?thesis
  proof cases
    case 1
    then show ?thesis using assms e hello_state [of L env now s]
      by (auto simp: handshake_ok_def event_cmds_def)
  next
    case 2
    then show ?thesis using assms e start_state [of s] start_past [of s]
      by (auto simp: handshake_ok_def event_cmds_def subseq_two_snoc)
  qed
qed

end

lemma svc_schedule_cases:
  assumes "svc_boot_schedule env now s = Inr (opt, s')"
  shows "boot_handled s s' \<and> sv_actions s' = sv_actions s \<and>
    (\<forall>e. opt = Some e \<longrightarrow> (\<exists>b. e = SvBootstrap b None \<and> b \<in> {SbSendClientHello, SbSendRuntimeReady})) \<and>
    (past_hello (sv_state s') \<longrightarrow> past_hello (sv_state s)) \<and> (released (sv_state s') \<longrightarrow> released (sv_state s))"
  using assms
  by (auto simp: svc_boot_schedule_def svc_checkTimeout_def bind_err_Inr_iff boot_handled_def boot_actions_def
      past_hello_def released_def Let_def split: svc_state.splits if_splits)

lemma apid_schedule_cases:
  assumes "apid_boot_schedule env now s = Inr (opt, s')"
  shows "boot_handled s s' \<and> sv_actions s' = sv_actions s \<and>
    (\<forall>e. opt = Some e \<longrightarrow> (\<exists>b. e = SvBootstrap b None \<and> b \<in> {SbSendClientHello, SbSendRuntimeReady})) \<and>
    (past_hello (sv_state s') \<longrightarrow> past_hello (sv_state s)) \<and> (released (sv_state s') \<longrightarrow> released (sv_state s))"
  using assms
  by (auto simp: apid_boot_schedule_def apid_warnIfBootSlow_def bind_err_Inr_iff boot_handled_def boot_actions_def
      past_hello_def released_def Let_def split: svc_state.splits if_splits)

interpretation wb: boot_service "waiting_code create" True for create
proof
  show "boot_handled s (bc_onServerHello (waiting_code create) L env now s)" for L env now s
    by (auto simp: waiting_code_def svc_onServerHello_def svc_postAction_def boot_handled_def boot_actions_def)
qed (auto simp: waiting_code_def svc_onServerHello_def svc_onRuntimeStart_def svc_postAction_def
    released_def past_hello_def dest: svc_schedule_cases split: if_splits, auto simp: boot_handled_def boot_actions_def)

interpretation ab: boot_service apid_code False
proof
  show "boot_handled s (bc_onServerHello apid_code L env now s)" for L env now s
    by (auto simp: apid_code_def apid_onServerHello_def svc_sendRuntimeReady_def svc_send_def Let_def
        boot_handled_def boot_actions_def)
qed (auto simp: apid_code_def apid_onServerHello_def apid_onRuntimeStart_def
    released_def past_hello_def dest: apid_schedule_cases split: if_splits)

subsection \<open>The daemon's loop\<close>

definition waits_for_start :: "ipc_daemon \<Rightarrow> bool" where
  "waits_for_start d \<longleftrightarrow> d \<noteq> DApid"

lemma daemon_boot_service: "boot_service (daemon_code d) (waits_for_start d)"
  using wb.boot_service_axioms ab.boot_service_axioms
  by (cases d) (simp_all add: daemon_code_def waits_for_start_def)

lemmas daemon_event_frame = boot_service.dispatch_event_frame [OF daemon_boot_service]
lemmas daemon_event_replies = boot_service.dispatch_event_replies [OF daemon_boot_service]
lemmas daemon_event_handshake = boot_service.dispatch_event_handshake [OF daemon_boot_service]
lemmas daemon_action_frame = boot_service.dispatch_action_frame [OF daemon_boot_service]
lemmas daemon_action_replies = boot_service.dispatch_action_replies [OF daemon_boot_service]

lemma svc_dispatch_cases:
  assumes "svc_dispatch L env s = Some s'"
  obtains (event) e es where "sv_events s = e # es"
      "s' = svc_dispatch_event L (daemon_code (sv_self s)) env (sn_clock env (sv_steps s + 1)) e
         (s\<lparr>sv_steps := sv_steps s + 1, sv_events := es\<rparr>)"
  | (action) a as where "sv_events s = []" "sv_actions s = a # as"
      "s' = svc_dispatch_action L (daemon_code (sv_self s)) env a (s\<lparr>sv_steps := sv_steps s + 1, sv_actions := as\<rparr>)"
  using assms by (auto simp: svc_dispatch_def Let_def split: list.splits)

definition svc_weight :: "svc \<Rightarrow> nat" where
  "svc_weight s = 2 * length (sv_events s) + length (sv_actions s)"

lemma svc_dispatch_weight: "svc_dispatch L env s = Some s' \<Longrightarrow> svc_weight s' < svc_weight s"
proof (erule svc_dispatch_cases)
  fix e es
  assume e: "sv_events s = e # es" "s' = svc_dispatch_event L (daemon_code (sv_self s)) env (sn_clock env (sv_steps s + 1)) e
    (s\<lparr>sv_steps := sv_steps s + 1, sv_events := es\<rparr>)"
  from daemon_event_frame [of L "sv_self s" env "sn_clock env (sv_steps s + 1)" e
      "s\<lparr>sv_steps := sv_steps s + 1, sv_events := es\<rparr>"] e
  show ?thesis by (simp add: svc_weight_def)
next
  fix a as
  assume a: "sv_events s = []" "sv_actions s = a # as"
    "s' = svc_dispatch_action L (daemon_code (sv_self s)) env a (s\<lparr>sv_steps := sv_steps s + 1, sv_actions := as\<rparr>)"
  from daemon_action_frame [of L "sv_self s" env a "s\<lparr>sv_steps := sv_steps s + 1, sv_actions := as\<rparr>"] a
  show ?thesis by (simp add: svc_weight_def)
qed

function svc_execute :: "jlib \<Rightarrow> svc_env \<Rightarrow> svc \<Rightarrow> svc" where
  "svc_execute L env s =
     (case svc_dispatch L env s of None \<Rightarrow> s | Some s' \<Rightarrow> svc_execute L env s')"
  by pat_completeness auto

termination
  by (relation "measure (\<lambda>(L, env, s). svc_weight s)") (simp_all add: svc_dispatch_weight)

declare svc_execute.simps [simp del]

definition svc_tick :: "jlib \<Rightarrow> svc_env \<Rightarrow> ipc_message list \<Rightarrow> svc \<Rightarrow> json_error + svc" where
  "svc_tick L env msgs s =
     map_sum id (svc_execute L env) (svc_schedule env (fold svc_receive msgs s))"

lemma svc_execute_keeps:
  assumes "P s" and "\<And>s s'. P s \<Longrightarrow> svc_dispatch L env s = Some s' \<Longrightarrow> P s'"
  shows "P (svc_execute L env s)"
  using assms
proof (induction L env s rule: svc_execute.induct)
  case (1 L env s)
  then show ?case by (subst svc_execute.simps) (auto split: option.split)
qed

lemma svc_execute_idle:
  "sv_events (svc_execute L env s) = [] \<and> sv_actions (svc_execute L env s) = []"
proof (induction L env s rule: svc_execute.induct)
  case (1 L env s)
  then show ?case
    by (subst (1 2) svc_execute.simps) (auto simp: svc_dispatch_def Let_def split: option.split list.splits)
qed

text \<open>One turn of the loop keeps the owner, the replies due, and the handshake's justification.\<close>

lemma svc_dispatch_inv:
  assumes "svc_dispatch L env s = Some s'"
  shows "sv_self s' = sv_self s \<and> replies s' = replies s"
  using assms
proof (cases rule: svc_dispatch_cases)
  case (event e es)
  let ?t = "s\<lparr>sv_steps := sv_steps s + 1, sv_events := es\<rparr>"
  have "replies s' = replies (?t\<lparr>sv_events := e # es\<rparr>)"
    using daemon_event_replies [of L "sv_self s" env _ e ?t] event(2) by simp
  also have "\<dots> = replies s" using event(1) by (simp add: replies_def)
  finally show ?thesis
    using daemon_event_frame [of L "sv_self s" env _ e ?t] event(2) by simp
next
  case (action a as)
  let ?t = "s\<lparr>sv_steps := sv_steps s + 1, sv_actions := as\<rparr>"
  have "replies s' = replies (?t\<lparr>sv_actions := a # as\<rparr>)"
    using daemon_action_replies [of ?t L "sv_self s" env a] action(1,3) by simp
  also have "\<dots> = replies s" using action(1,2) by (simp add: replies_def)
  finally show ?thesis
    using daemon_action_frame [of L "sv_self s" env a ?t] action(3) by simp
qed

definition handshake_inv :: "ipc_daemon \<Rightarrow> ipc_cmd list \<Rightarrow> svc \<Rightarrow> bool" where
  "handshake_inv self log s \<longleftrightarrow> sv_self s = self \<and>
     (\<exists>ds. log = ds @ concat (map event_cmds (sv_events s)) \<and>
        handshake_ok (waits_for_start self) (sv_state s) ds)"

lemma svc_dispatch_handshake:
  assumes "handshake_inv self log s" and "svc_dispatch L env s = Some s'"
  shows "handshake_inv self log s'"
proof -
  from assms(1) obtain ds where ds: "sv_self s = self" "log = ds @ concat (map event_cmds (sv_events s))"
    "handshake_ok (waits_for_start self) (sv_state s) ds" by (auto simp: handshake_inv_def)
  from assms(2) show ?thesis
  proof (cases rule: svc_dispatch_cases)
    case (event e es)
    let ?t = "s\<lparr>sv_steps := sv_steps s + 1, sv_events := es\<rparr>"
    have "handshake_ok (waits_for_start self) (sv_state s') (ds @ event_cmds e)"
      using daemon_event_handshake [of "sv_self s" ?t ds L env _ e] ds event(2) by simp
    moreover have "sv_events s' = es" "sv_self s' = self"
      using daemon_event_frame [of L "sv_self s" env _ e ?t] ds event(2) by simp_all
    ultimately show ?thesis using ds event(1) by (auto simp: handshake_inv_def)
  next
    case (action a as)
    let ?t = "s\<lparr>sv_steps := sv_steps s + 1, sv_actions := as\<rparr>"
    have "sv_events s' = []" "sv_self s' = self" "sv_state s' = sv_state s"
      using daemon_action_frame [of L "sv_self s" env a ?t] ds action by simp_all
    then show ?thesis using ds action(1) by (auto simp: handshake_inv_def)
  qed
qed

text \<open>The states a daemon can be in between two ticks, with every message received so far.\<close>

inductive svc_reachable :: "jlib \<Rightarrow> svc_env \<Rightarrow> ipc_daemon \<Rightarrow> ipc_message list \<Rightarrow> svc \<Rightarrow> bool"
  for L env self where
  sr_start: "svc_reachable L env self [] (svc_boot_start now (svc_init self c))"
| sr_tick: "svc_reachable L env self log s \<Longrightarrow> svc_tick L env msgs s = Inr s' \<Longrightarrow>
    svc_reachable L env self (log @ msgs) s'"

definition is_hb_request :: "ipc_message \<Rightarrow> bool" where
  "is_hb_request m \<longleftrightarrow> msg_cmd m = CmdHeartbeatRequest"

definition handshake_cmds :: "ipc_message list \<Rightarrow> ipc_cmd list" where
  "handshake_cmds msgs = filter (\<lambda>c. c = CmdServerHello \<or> c = CmdRuntimeStart) (map msg_cmd msgs)"

definition replies_to :: "ipc_daemon \<Rightarrow> ipc_message list \<Rightarrow> ipc_message list" where
  "replies_to self msgs = map (\<lambda>m. buildHeartbeatResponse self (msg_src m)) (filter is_hb_request msgs)"

lemma daemon_create:
  "case bc_create (daemon_code d) m of
     None \<Rightarrow> handshake_cmds [m] = [] \<and> replies_to self [m] = []
   | Some e \<Rightarrow> handshake_cmds [m] = event_cmds e \<and> replies_to self [m] = ev_replies self [e]"
  by (cases d; cases "msg_cmd m")
    (simp_all add: daemon_code_def apid_code_def waiting_code_def apid_create_def authd_create_def
      collectord_create_def topologyd_create_def probed_create_def common_create_def handshake_cmds_def
      replies_to_def is_hb_request_def event_cmds_def)

lemma svc_receive_inv:
  assumes "handshake_inv self log s"
  shows "handshake_inv self (log @ handshake_cmds [m]) (svc_receive m s) \<and>
    (sv_actions s = [] \<longrightarrow> replies (svc_receive m s) = replies s @ replies_to self [m]) \<and>
    sv_actions (svc_receive m s) = sv_actions s"
proof -
  have self: "sv_self s = self" using assms by (simp add: handshake_inv_def)
  show ?thesis
    using daemon_create [where d = "sv_self s" and m = m and self = self] assms self
    by (auto simp: svc_receive_def svc_postEvent_def handshake_inv_def replies_def split: option.splits)
qed

lemma svc_receive_all:
  "handshake_inv self log s \<Longrightarrow> sv_actions s = [] \<Longrightarrow>
     handshake_inv self (log @ handshake_cmds msgs) (fold svc_receive msgs s) \<and>
     replies (fold svc_receive msgs s) = replies s @ replies_to self msgs"
proof (induction msgs arbitrary: log s)
  case Nil
  then show ?case by (simp add: handshake_cmds_def replies_to_def)
next
  case (Cons m msgs)
  have split: "handshake_cmds (m # msgs) = handshake_cmds [m] @ handshake_cmds msgs"
    "replies_to self (m # msgs) = replies_to self [m] @ replies_to self msgs"
    by (simp_all add: handshake_cmds_def replies_to_def)
  note r = svc_receive_inv [OF Cons.prems(1), of m]
  show ?case
    using Cons.IH [of "log @ handshake_cmds [m]" "svc_receive m s"] r Cons.prems(2) split by simp
qed

lemma svc_schedule_inv:
  assumes "handshake_inv self log s" and "svc_schedule env s = Inr s'"
  shows "handshake_inv self log s' \<and> replies s' = replies s"
proof -
  let ?t = "s\<lparr>sv_steps := sv_steps s + 1\<rparr>" and ?code = "daemon_code (sv_self s)"
  have t: "handshake_inv self log ?t" "replies ?t = replies s"
    using assms(1) by (simp_all add: handshake_inv_def replies_def)
  show ?thesis
  proof (cases "svc_isReady s")
    case True
    then show ?thesis using assms(2) t by (auto simp: svc_schedule_def svc_isReady_def Let_def)
  next
    case False
    then obtain opt u where u: "bc_schedule ?code env (sn_clock env (sv_steps s + 1)) ?t = Inr (opt, u)"
      and s': "s' = svc_postEvent opt u"
      using assms(2) by (cases "bc_schedule ?code env (sn_clock env (sv_steps s + 1)) ?t")
        (auto simp: svc_schedule_def svc_isReady_def Let_def)
    note h = boot_service.schedule_handled [OF daemon_boot_service u]
    have st: "(past_hello (sv_state u) \<longrightarrow> past_hello (sv_state s)) \<and> (released (sv_state u) \<longrightarrow> released (sv_state s))"
      using boot_service.schedule_state [OF daemon_boot_service u] by simp
    have "handshake_inv self log u" "replies u = replies s"
      using h t st boot_handled_replies [OF h]
      by (auto simp: handshake_inv_def boot_handled_def handshake_ok_def)
    moreover have "event_cmds e = [] \<and> ev_replies d [e] = []" if "opt = Some e" for e d
      using boot_service.schedule_event [OF daemon_boot_service u [unfolded that]]
      by (auto simp: event_cmds_def)
    ultimately show ?thesis
      unfolding s' by (cases opt) (auto simp: svc_postEvent_def handshake_inv_def replies_def)
  qed
qed

lemma svc_tick_inv:
  assumes "handshake_inv self log s" and "sv_actions s = []" and "svc_tick L env msgs s = Inr s'"
  shows "handshake_inv self (log @ handshake_cmds msgs) s' \<and> replies s' = replies s @ replies_to self msgs \<and>
    sv_events s' = [] \<and> sv_actions s' = []"
proof -
  note r = svc_receive_all [OF assms(1,2), of msgs]
  from assms(3) obtain t where t: "svc_schedule env (fold svc_receive msgs s) = Inr t" "s' = svc_execute L env t"
    by (cases "svc_schedule env (fold svc_receive msgs s)") (auto simp: svc_tick_def)
  note sch = svc_schedule_inv [OF conjunct1 [OF r] t(1)]
  have "handshake_inv self (log @ handshake_cmds msgs) s' \<and> replies s' = replies s @ replies_to self msgs"
    unfolding t(2) by (rule svc_execute_keeps) (use sch r svc_dispatch_handshake svc_dispatch_inv in auto)
  then show ?thesis using svc_execute_idle [of L env t] t(2) by simp
qed

lemma svc_reachable_inv:
  "svc_reachable L env self log s \<Longrightarrow>
     handshake_inv self (handshake_cmds log) s \<and> replies s = replies_to self log \<and>
     sv_events s = [] \<and> sv_actions s = []"
proof (induction rule: svc_reachable.induct)
  case (sr_start now c)
  show ?case
    by (simp add: svc_boot_start_def svc_init_def handshake_inv_def handshake_ok_def past_hello_def released_def
        handshake_cmds_def replies_def replies_to_def)
next
  case (sr_tick log s msgs s')
  have "handshake_cmds (log @ msgs) = handshake_cmds log @ handshake_cmds msgs"
    "replies_to self (log @ msgs) = replies_to self log @ replies_to self msgs"
    by (simp_all add: handshake_cmds_def replies_to_def)
  with svc_tick_inv [of self "handshake_cmds log" s L env msgs s'] sr_tick show ?case by simp
qed

subsection \<open>Properties\<close>

text \<open>C17. No service daemon but \<^verbatim>\<open>apid\<close> starts working before it is released: in every state it can be in
  between two ticks, being ready or running means that a \<open>ServerHello\<close> and, after it, a
  \<open>RuntimeStart\<close> have been received.\<close>

theorem released_only_after_handshake:
  assumes "svc_reachable L env self log s" and "self \<noteq> DApid" and "sv_state s = SvReady \<or> sv_state s = SvRunning"
  shows "subseq [CmdServerHello, CmdRuntimeStart] (map msg_cmd log)"
proof -
  obtain ds where "handshake_cmds log = ds" "handshake_ok (waits_for_start self) (sv_state s) ds"
    using svc_reachable_inv [OF assms(1)] by (auto simp: handshake_inv_def)
  then have "subseq [CmdServerHello, CmdRuntimeStart] (handshake_cmds log)"
    using assms(2,3) by (simp add: handshake_ok_def waits_for_start_def released_def)
  moreover have "subseq (handshake_cmds log) (map msg_cmd log)"
    unfolding handshake_cmds_def by (rule subseq_filter_left)
  ultimately show ?thesis by (rule subseq_order.trans)
qed

text \<open>The examples: no database, no startup file, a clock that ticks once per step.\<close>

definition svc_example_env :: svc_env where
  "svc_example_env = \<lparr>sn_clock = int, sn_connect = (\<lambda>_. False), sn_file = None, sn_rows = (\<lambda>_. [])\<rparr>"

definition svc_message :: "ipc_cmd \<Rightarrow> ipc_message" where
  "svc_message cmd = mk_message DEngined DProbed cmd 0 (toFlag FlagRequest) []"

definition probed_start :: svc where
  "probed_start = svc_boot_start 0 (svc_init DProbed config_init)"

fun svc_ticks :: "jlib \<Rightarrow> svc_env \<Rightarrow> ipc_message list list \<Rightarrow> svc \<Rightarrow> json_error + svc" where
  "svc_ticks L env [] s = Inr s"
| "svc_ticks L env (msgs # rest) s = bind_err (svc_tick L env msgs s) (svc_ticks L env rest)"

lemma svc_ticks_reachable:
  "svc_ticks L env mss s = Inr s' \<Longrightarrow> svc_reachable L env self log s \<Longrightarrow>
     svc_reachable L env self (log @ concat mss) s'"
proof (induction mss arbitrary: log s)
  case (Cons msgs mss)
  from Cons.prems(1) obtain t where t: "svc_tick L env msgs s = Inr t" "svc_ticks L env mss t = Inr s'"
    by (auto simp: bind_err_Inr_iff)
  from Cons.IH [OF t(2) sr_tick [OF Cons.prems(2) t(1)]] show ?case by simp
qed simp

lemma probed_run:
  "case svc_ticks unary_lib svc_example_env
      [[], map svc_message [CmdServerHello, CmdHeartbeatRequest], [svc_message CmdRuntimeStart], []] probed_start of
     Inl e \<Rightarrow> False
   | Inr s \<Rightarrow> sv_state s = SvRunning \<and>
       map (\<lambda>m. msg_cmd m) (sv_tx s) = [CmdClientHello, CmdRuntimeReady, CmdHeartbeatResponse]"
  by code_simp

theorem released_only_after_handshake_witness:
  "\<exists>s. svc_reachable unary_lib svc_example_env DProbed
      (map svc_message [CmdServerHello, CmdHeartbeatRequest, CmdRuntimeStart]) s \<and> sv_state s = SvRunning \<and>
    subseq [CmdServerHello, CmdRuntimeStart] [CmdServerHello, CmdHeartbeatRequest, CmdRuntimeStart]"
proof -
  from probed_run obtain s where s: "svc_ticks unary_lib svc_example_env
      [[], map svc_message [CmdServerHello, CmdHeartbeatRequest], [svc_message CmdRuntimeStart], []] probed_start = Inr s"
    "sv_state s = SvRunning" by (auto split: sum.splits)
  have "svc_reachable unary_lib svc_example_env DProbed [] probed_start"
    unfolding probed_start_def by (rule sr_start)
  from svc_ticks_reachable [OF s(1) this]
  have r: "svc_reachable unary_lib svc_example_env DProbed
      (map svc_message [CmdServerHello, CmdHeartbeatRequest, CmdRuntimeStart]) s" by simp
  from released_only_after_handshake [OF r] r s(2) show ?thesis by (auto simp: svc_message_def)
qed

text \<open>
  The order of the two queues has a price: when the release arrives in the same poll as the
  broker's hello, it is handled before the report's action, which is then dropped, and a running
  daemon never reports its version.
\<close>

theorem release_overtakes_report:
  "case svc_ticks unary_lib svc_example_env
      [[], map svc_message [CmdServerHello, CmdRuntimeStart], [], []] probed_start of
     Inl e \<Rightarrow> False
   | Inr s \<Rightarrow> sv_state s = SvRunning \<and> map (\<lambda>m. msg_cmd m) (sv_tx s) = [CmdClientHello]"
  by code_simp

text \<open>Every service daemon answers every heartbeat: whatever else it receives and whatever phase of
  its life it is in, the heartbeat responses it has sent are exactly one per request received, in
  order, each to the daemon that asked.\<close>

theorem heartbeats_answered:
  assumes "svc_reachable L env self log s"
  shows "filter is_hb_response (sv_tx s) =
    map (\<lambda>m. buildHeartbeatResponse self (msg_src m)) (filter (\<lambda>m. msg_cmd m = CmdHeartbeatRequest) log)"
  using svc_reachable_inv [OF assms] by (auto simp: replies_def replies_to_def is_hb_request_def [abs_def])

theorem heartbeats_answered_witness:
  "\<exists>s. svc_ticks unary_lib svc_example_env
      [[], map svc_message [CmdServerHello, CmdHeartbeatRequest], [svc_message CmdRuntimeStart], []] probed_start = Inr s \<and>
    filter is_hb_response (sv_tx s) = [buildHeartbeatResponse DProbed DEngined]"
proof -
  from probed_run obtain s where s: "svc_ticks unary_lib svc_example_env
      [[], map svc_message [CmdServerHello, CmdHeartbeatRequest], [svc_message CmdRuntimeStart], []] probed_start = Inr s"
    by (auto split: sum.splits)
  have "svc_reachable unary_lib svc_example_env DProbed [] probed_start"
    unfolding probed_start_def by (rule sr_start)
  from heartbeats_answered [OF svc_ticks_reachable [OF s this]] s show ?thesis
    by (simp add: svc_message_def)
qed

end
