(* ===== verification/Icmp_Codec.thy ===== *)
theory Icmp_Codec
  imports Prelude
begin

text \<open>
  \<^verbatim>\<open>probed/icmp\<close>: the packet (\<^verbatim>\<open>IcmpPacket\<close>, \<^verbatim>\<open>IcmpProtocol\<close>) and its codec (\<^verbatim>\<open>IcmpCodec\<close>)
  with the Internet checksum. \<^verbatim>\<open>IcmpType\<close> and \<^verbatim>\<open>IcmpCode\<close> are enumerations over \<^verbatim>\<open>uint8_t\<close> that
  \<open>decode\<close> casts any byte to, so they are bytes with named values.
\<close>

subsection \<open>Packets\<close>

type_synonym icmp_type = u8
type_synonym icmp_code = u8

definition EchoReply :: icmp_type where "EchoReply = 0"
definition DestinationUnreachable :: icmp_type where "DestinationUnreachable = 3"
definition Redirect :: icmp_type where "Redirect = 5"
definition EchoRequest :: icmp_type where "EchoRequest = 8"
definition TimeExceeded :: icmp_type where "TimeExceeded = 11"
definition CodeEcho :: icmp_code where "CodeEcho = 0"

lemmas icmp_types = EchoReply_def DestinationUnreachable_def Redirect_def EchoRequest_def TimeExceeded_def

record icmp_header =
  ih_type :: icmp_type
  ih_code :: icmp_code
  ih_checksum :: u16
  ih_identifier :: u16
  ih_sequence :: u16

record icmp_packet =
  ip_header :: icmp_header
  ip_payload :: bytes

definition icmp_header_build :: "icmp_type \<Rightarrow> icmp_code \<Rightarrow> u16 \<Rightarrow> u16 \<Rightarrow> icmp_header" where
  "icmp_header_build t c i n =
     \<lparr>ih_type = t, ih_code = c, ih_checksum = 0, ih_identifier = i, ih_sequence = n\<rparr>"

definition buildEchoRequest :: "u16 \<Rightarrow> u16 \<Rightarrow> icmp_header" where
  "buildEchoRequest i n = icmp_header_build EchoRequest CodeEcho i n"

definition typeToStr :: "icmp_type \<Rightarrow> string" where
  "typeToStr t =
     (if t = EchoReply then ''EchoReply''
      else if t = DestinationUnreachable then ''DestinationUnreachable''
      else if t = Redirect then ''Redirect''
      else if t = EchoRequest then ''EchoRequest''
      else if t = TimeExceeded then ''TimeExceeded''
      else ''Unknown'')"

definition codeToStr :: "icmp_type \<Rightarrow> icmp_code \<Rightarrow> string" where
  "codeToStr t c = (if (t = EchoRequest \<or> t = EchoReply) \<and> c = CodeEcho then ''Echo'' else ''Unknown'')"

subsection \<open>The codec\<close>

definition ICMP_ECHO_HEADER_LEN :: nat where
  "ICMP_ECHO_HEADER_LEN = 8"

definition kIpv4MinHeaderLen :: nat where
  "kIpv4MinHeaderLen = 20"

definition readU16Be :: "bytes \<Rightarrow> u16" where
  "readU16Be bs = ntohs (load16 bs)"

definition writeU16Be :: "bytes \<Rightarrow> nat \<Rightarrow> u16 \<Rightarrow> bytes" where
  "writeU16Be buf off v = blit buf off (mem16 (htons v))"

fun sum_words :: "bytes \<Rightarrow> u32 \<Rightarrow> u32" where
  "sum_words (a # b # rest) s = sum_words rest (s + ucast (ntohs (load16 [a, b])))"
| "sum_words [a] s = s + push_bit 8 (ucast a)"
| "sum_words [] s = s"

lemma unat_low16: "unat ((s :: u32) AND 0xffff) = unat s mod 65536"
proof -
  have "s AND 0xffff = take_bit 16 s" by (simp add: take_bit_eq_mask mask_eq_exp_minus_1)
  then show ?thesis by (simp add: unsigned_take_bit_eq take_bit_nat_def)
qed

lemma unat_high16: "unat (drop_bit 16 (s :: u32)) = unat s div 65536"
  by (simp add: unat_drop_bit_eq drop_bit_nat_def)

lemma unat_carry: "unat ((s AND 0xffff) + drop_bit 16 (s :: u32)) = unat s mod 65536 + unat s div 65536"
proof -
  have "unat s < 4294967296" using unsigned_less [of s] by simp
  then have "unat s mod 65536 + unat s div 65536 < 4294967296" by linarith
  then show ?thesis by (simp add: unat_word_ariths unat_low16 unat_high16)
qed

lemma carry_less: "drop_bit 16 (s :: u32) \<noteq> 0 \<Longrightarrow> unat ((s AND 0xffff) + drop_bit 16 s) < unat s"
proof -
  assume "drop_bit 16 s \<noteq> 0"
  then have "unat s div 65536 \<noteq> 0" unfolding unat_high16 [symmetric] unsigned_eq_0_iff .
  moreover have "unat s = 65536 * (unat s div 65536) + unat s mod 65536" by simp
  ultimately show ?thesis unfolding unat_carry by linarith
qed

function fold_carry :: "u32 \<Rightarrow> u32" where
  "fold_carry s = (if drop_bit 16 s \<noteq> 0 then fold_carry ((s AND 0xffff) + drop_bit 16 s) else s)"
  by pat_completeness auto
termination by (relation "measure unat") (simp_all add: carry_less)

declare fold_carry.simps [simp del]

definition calculateChecksum :: "bytes \<Rightarrow> u16" where
  "calculateChecksum bs = ucast (NOT (fold_carry (sum_words bs 0)) AND 0xffff)"

definition icmp_encode :: "icmp_packet \<Rightarrow> bytes" where
  "icmp_encode p =
     (let h = ip_header p;
          frame = replicate (ICMP_ECHO_HEADER_LEN + length (ip_payload p)) 0;
          frame = frame[0 := ih_type h];
          frame = frame[1 := ih_code h];
          frame = writeU16Be frame 2 0;
          frame = writeU16Be frame 4 (ih_identifier h);
          frame = writeU16Be frame 6 (ih_sequence h);
          frame = (if ip_payload p \<noteq> [] then blit frame ICMP_ECHO_HEADER_LEN (ip_payload p) else frame)
      in writeU16Be frame 2 (calculateChecksum frame))"

text \<open>\<open>None\<close> is \<^verbatim>\<open>kInvalidIcmpOffset\<close>.\<close>

definition icmpOffset :: "bytes \<Rightarrow> nat option" where
  "icmpOffset frame =
     (if frame = [] then None
      else if length frame < ICMP_ECHO_HEADER_LEN then None
      else
        let version = drop_bit 4 (frame ! 0) in
        if version = 4 then
          (if length frame < kIpv4MinHeaderLen then None
           else
             let ipHeaderLen = unat (frame ! 0 AND 0x0f) * 4 in
             if ipHeaderLen < kIpv4MinHeaderLen then None
             else if ipHeaderLen > length frame then None
             else if length frame - ipHeaderLen < ICMP_ECHO_HEADER_LEN then None
             else Some ipHeaderLen)
        else Some 0)"

datatype icmp_decode_result = IcmpOk | IcmpEmpty | IcmpInvalidFrame

definition icmp_decode :: "bytes \<Rightarrow> icmp_decode_result \<times> icmp_packet option" where
  "icmp_decode frame =
     (if frame = [] then (IcmpEmpty, None)
      else case icmpOffset frame of
        None \<Rightarrow> (IcmpInvalidFrame, None)
      | Some offset \<Rightarrow>
          if length frame - offset < ICMP_ECHO_HEADER_LEN then (IcmpInvalidFrame, None)
          else
            let icmp = drop offset frame;
                header = icmp_header_build (icmp ! 0) (icmp ! 1) (readU16Be (drop 4 icmp)) (readU16Be (drop 6 icmp));
                header = header\<lparr>ih_checksum := readU16Be (drop 2 icmp)\<rparr>;
                payload = drop ICMP_ECHO_HEADER_LEN icmp
            in (IcmpOk, Some \<lparr>ip_header = header, ip_payload = payload\<rparr>))"

subsection \<open>What a frame looks like\<close>

lemma mem16_htons: "mem16 (htons w) = [ucast (drop_bit 8 w), ucast w]"
proof -
  have "mem16 (htons w) = rev (mem16 w)" by (simp add: htons_def mem16_load16)
  then show ?thesis by (simp add: mem16_def)
qed

lemma mem16_0: "mem16 0 = [0, 0]"
  by (simp add: mem16_def)

lemma read_write_be: "readU16Be (mem16 (htons w) @ rest) = w"
  by (simp add: readU16Be_def load16_mem16 ntohs_htons)

definition zero_checksum_frame :: "icmp_packet \<Rightarrow> bytes" where
  "zero_checksum_frame p = [ih_type (ip_header p), ih_code (ip_header p), 0, 0]
     @ mem16 (htons (ih_identifier (ip_header p))) @ mem16 (htons (ih_sequence (ip_header p))) @ ip_payload p"

lemma icmp_encode_eq:
  "icmp_encode p = [ih_type (ip_header p), ih_code (ip_header p)]
     @ mem16 (htons (calculateChecksum (zero_checksum_frame p)))
     @ mem16 (htons (ih_identifier (ip_header p))) @ mem16 (htons (ih_sequence (ip_header p))) @ ip_payload p"
proof -
  have len: "replicate (ICMP_ECHO_HEADER_LEN + length (ip_payload p)) (0 :: u8)
      = [0, 0, 0, 0, 0, 0, 0, 0] @ replicate (length (ip_payload p)) 0"
    by (simp add: ICMP_ECHO_HEADER_LEN_def replicate_add numeral_eq_Suc)
  show ?thesis
    unfolding icmp_encode_def Let_def len zero_checksum_frame_def
    by (simp add: writeU16Be_def blit_def ICMP_ECHO_HEADER_LEN_def mem16_htons mem16_0 numeral_eq_Suc)
qed

subsection \<open>The checksum\<close>

text \<open>The sum of the big-endian 16-bit words, an odd last byte padded with zero, without any bound.\<close>

fun word_sum :: "bytes \<Rightarrow> nat" where
  "word_sum (a # b # rest) = 256 * unat a + unat b + word_sum rest"
| "word_sum [a] = 256 * unat a"
| "word_sum [] = 0"

lemma unat_u8: "unat (a :: u8) < 256"
  using unsigned_less [of a] by simp

lemma unat_ntohs: "unat (ntohs (load16 [a, b])) = 256 * unat a + unat b"
proof -
  have "ntohs (load16 [a, b]) = load16 [b, a]"
    by (simp add: ntohs_def mem16_load16_list)
  also have "\<dots> = push_bit 8 (ucast a) + ucast b"
    unfolding load16_def by (subst disjunctive_add [symmetric]) (auto simp: bit_simps add.commute dest: bit_imp_le_length)
  finally show ?thesis
    using unat_u8 [of a] unat_u8 [of b]
    by (simp add: unat_word_ariths push_bit_eq_mult unsigned_ucast_eq take_bit_nat_eq_self)
qed

lemma word_sum_le: "word_sum bs \<le> 65535 * ((length bs + 1) div 2)"
proof (induction bs rule: word_sum.induct)
  case (1 a b rest)
  then show ?case using unat_u8 [of a] unat_u8 [of b] by simp
next
  case (2 a)
  then show ?case using unat_u8 [of a] by simp
qed simp

lemma sum_words_unat:
  "unat s + word_sum bs < 4294967296 \<Longrightarrow> unat (sum_words bs s) = unat s + word_sum bs"
proof (induction bs s rule: sum_words.induct)
  case (1 a b rest s)
  have w: "unat (ucast (ntohs (load16 [a, b])) :: u32) = 256 * unat a + unat b"
    using unat_ntohs [of a b] unat_u8 [of a] unat_u8 [of b]
    by (simp add: unsigned_ucast_eq take_bit_nat_eq_self)
  have "unat (s + ucast (ntohs (load16 [a, b]))) = unat s + (256 * unat a + unat b)"
    using "1.prems" w by (simp add: unat_word_ariths)
  with 1 show ?case by simp
next
  case (2 a s)
  have "unat (push_bit 8 (ucast a) :: u32) = 256 * unat a"
    using unat_u8 [of a] by (simp add: push_bit_eq_mult unat_word_ariths unsigned_ucast_eq take_bit_nat_eq_self)
  then show ?case using 2 by (simp add: unat_word_ariths)
qed simp

lemma fold_carry_mod:
  "unat (fold_carry s) mod 65535 = unat s mod 65535 \<and> unat (fold_carry s) < 65536 \<and>
     (unat (fold_carry s) = 0 \<longleftrightarrow> unat s = 0)"
proof (induction s rule: fold_carry.induct)
  case (1 s)
  show ?case
  proof (cases "drop_bit 16 s = 0")
    case True
    then have "unat s div 65536 = 0" unfolding unat_high16 [symmetric] by simp
    then have "unat s < 65536" by (simp add: div_eq_0_iff)
    with True show ?thesis by (simp add: fold_carry.simps [of s])
  next
    case False
    let ?t = "(s AND 0xffff) + drop_bit 16 s"
    have s: "unat s = 65536 * (unat s div 65536) + unat s mod 65536" by simp
    have "unat s = unat ?t + 65535 * (unat s div 65536)" unfolding unat_carry using s by linarith
    then have "unat ?t mod 65535 = unat s mod 65535" by (metis mod_mult_self2)
    moreover have "unat ?t = 0 \<longleftrightarrow> unat s = 0" unfolding unat_carry using s by linarith
    ultimately show ?thesis using 1 [OF False] False by (simp add: fold_carry.simps [of s])
  qed
qed

lemma checksum_unat:
  assumes "word_sum bs < 4294967296"
  shows "unat (calculateChecksum bs) = 65535 - unat (fold_carry (sum_words bs 0))"
    and "unat (fold_carry (sum_words bs 0)) mod 65535 = word_sum bs mod 65535"
    and "unat (fold_carry (sum_words bs 0)) < 65536"
    and "unat (fold_carry (sum_words bs 0)) = 0 \<longleftrightarrow> word_sum bs = 0"
proof -
  let ?f = "fold_carry (sum_words bs 0)"
  have s: "unat (sum_words bs 0) = word_sum bs" using sum_words_unat [of 0 bs] assms by simp
  note f = fold_carry_mod [of "sum_words bs 0", unfolded s]
  show "unat ?f mod 65535 = word_sum bs mod 65535" "unat ?f < 65536" "unat ?f = 0 \<longleftrightarrow> word_sum bs = 0"
    using f by simp_all
  have le: "?f \<le> 0xffff" using f by (simp add: word_le_nat_alt)
  have low: "?f AND 0xffff = ?f"
    by (rule word_unat_eq_iff [THEN iffD2]) (use f in \<open>simp add: unat_low16\<close>)
  have "(NOT ?f AND 0xffff) + (?f AND 0xffff) = (NOT ?f AND 0xffff) OR (?f AND 0xffff)"
    by (rule disjunctive_add) (auto simp: bit_simps)
  also have "\<dots> = 0xffff" by (rule bit_word_eqI) (auto simp: bit_simps)
  finally have "NOT ?f AND 0xffff = 0xffff - ?f" unfolding low by (simp add: eq_diff_eq)
  then have "unat (NOT ?f AND 0xffff) = 65535 - unat ?f"
    using le by (simp add: unat_sub)
  then show "unat (calculateChecksum bs) = 65535 - unat ?f"
    by (simp add: calculateChecksum_def unsigned_ucast_eq take_bit_nat_eq_self)
qed

lemma sum_is_multiple: "(n :: nat) mod 65535 = 0 \<Longrightarrow> n < 65536 \<Longrightarrow> n \<noteq> 0 \<Longrightarrow> n = 65535"
proof -
  assume a: "n mod 65535 = 0" "n < 65536" "n \<noteq> 0"
  have "65535 * (n div 65535) + n mod 65535 = n" by (rule mult_div_mod_eq)
  then have q: "n = 65535 * (n div 65535)" unfolding a(1) by simp
  then have "n div 65535 = 1" using a(2,3) by (cases "n div 65535") auto
  then show ?thesis using q by simp
qed

subsection \<open>Properties\<close>

text \<open>The checksum of an encoded packet is the Internet checksum: summing the whole frame again, as a
  receiver does, gives zero, whatever the packet, as long as the 32-bit sum cannot overflow, which
  no frame of at most 131,072 bytes makes it do.\<close>

theorem encoded_checksum_verifies:
  assumes "length (ip_payload p) \<le> 131064"
  shows "calculateChecksum (icmp_encode p) = 0"
proof -
  let ?z = "zero_checksum_frame p" and ?c = "calculateChecksum (zero_checksum_frame p)"
  have "(length ?z + 1) div 2 \<le> 65536" using assms by (simp add: zero_checksum_frame_def)
  then have z: "word_sum ?z \<le> 4294901760" using word_sum_le [of ?z] by linarith
  note c = checksum_unat [of ?z]
  have "word_sum (icmp_encode p) = word_sum ?z + unat (ntohs (load16 (mem16 (htons ?c))))"
    by (simp add: icmp_encode_eq zero_checksum_frame_def mem16_htons unat_ntohs)
  then have total: "word_sum (icmp_encode p) = word_sum ?z + (65535 - unat (fold_carry (sum_words ?z 0)))"
    using z c(1) by (simp add: load16_mem16_Nil ntohs_htons)
  let ?F = "unat (fold_carry (sum_words ?z 0))"
  have F: "?F mod 65535 = word_sum ?z mod 65535" "?F < 65536" "?F = 0 \<longleftrightarrow> word_sum ?z = 0"
    using c z by simp_all
  have "word_sum (icmp_encode p) mod 65535 = 0 \<and> word_sum (icmp_encode p) \<noteq> 0"
  proof (cases "?F = 65535")
    case True
    then show ?thesis using F total by simp
  next
    case False
    then have r: "?F = word_sum ?z mod 65535" using F(1,2) by simp
    have "word_sum ?z + 65535 = 65535 * (word_sum ?z div 65535 + 1) + word_sum ?z mod 65535" by simp
    then have "word_sum (icmp_encode p) = 65535 * (word_sum ?z div 65535 + 1)"
      using total F(2) unfolding r by linarith
    then show ?thesis by simp
  qed
  moreover have "word_sum (icmp_encode p) < 4294967296" using total z by linarith
  note e = checksum_unat [OF this]
  ultimately have "unat (fold_carry (sum_words (icmp_encode p) 0)) = 65535"
    using e(2,3,4) sum_is_multiple [of "unat (fold_carry (sum_words (icmp_encode p) 0))"] by simp
  with e(1) show ?thesis by (simp add: unsigned_eq_0_iff)
qed

text \<open>The witness is the probe \<^verbatim>\<open>probed\<close> sends, with 15 bytes of payload.\<close>

definition probe_packet_example :: icmp_packet where
  "probe_packet_example = \<lparr>ip_header = buildEchoRequest 0x1234 7,
     ip_payload = [112, 122, 45, 112, 114, 111, 98, 101, 100, 45, 112, 114, 111, 98, 101]\<rparr>"

theorem encoded_checksum_verifies_witness:
  "calculateChecksum (icmp_encode probe_packet_example) = 0"
  by (rule encoded_checksum_verifies) (simp add: probe_packet_example_def)

text \<open>Round trip through the IP layer: what a raw socket delivers is the sent frame behind an IPv4
  header of any legal length, and \<open>decode\<close> gives back the packet whatever options the header
  carries, with the checksum field it was sent with; without an IP header it gives the same, for
  every type whose high four bits are not 4.\<close>

theorem icmp_roundtrip:
  assumes "drop_bit 4 (hdr ! 0) = 4" and "length hdr = 4 * unat (hdr ! 0 AND 0x0f)" and "20 \<le> length hdr"
    and "drop_bit 4 (ih_type (ip_header p)) \<noteq> 4"
  shows "let sent = p\<lparr>ip_header := (ip_header p)\<lparr>ih_checksum := calculateChecksum (zero_checksum_frame p)\<rparr>\<rparr> in
    icmp_decode (hdr @ icmp_encode p) = (IcmpOk, Some sent) \<and> icmp_decode (icmp_encode p) = (IcmpOk, Some sent)"
proof -
  let ?f = "icmp_encode p"
  have len: "length ?f = 8 + length (ip_payload p)" by (simp add: icmp_encode_eq)
  obtain h hs where hdr: "hdr = h # hs" using assms(3) by (cases hdr) auto
  have off: "icmpOffset (hdr @ ?f) = Some (length hdr)"
    using assms(1-3) len hdr
    by (simp add: icmpOffset_def ICMP_ECHO_HEADER_LEN_def kIpv4MinHeaderLen_def mult.commute Let_def)
  have off0: "icmpOffset ?f = Some 0"
    using assms(4) len by (simp add: icmpOffset_def ICMP_ECHO_HEADER_LEN_def icmp_encode_eq Let_def)
  have fields: "?f ! 0 = ih_type (ip_header p)" "?f ! Suc 0 = ih_code (ip_header p)"
    "readU16Be (drop 2 ?f) = calculateChecksum (zero_checksum_frame p)"
    "readU16Be (drop 4 ?f) = ih_identifier (ip_header p)"
    "readU16Be (drop 6 ?f) = ih_sequence (ip_header p)" "drop 8 ?f = ip_payload p"
    by (simp_all add: icmp_encode_eq read_write_be)
  obtain t c k i n pl where p: "p = \<lparr>ip_header = \<lparr>ih_type = t, ih_code = c, ih_checksum = k,
      ih_identifier = i, ih_sequence = n\<rparr>, ip_payload = pl\<rparr>"
    by (metis icmp_header.cases icmp_packet.cases)
  show ?thesis
    using len off off0 hdr fields
    by (simp add: icmp_decode_def Let_def ICMP_ECHO_HEADER_LEN_def icmp_header_build_def p
        flip: length_0_conv)
qed

text \<open>The witness: an IPv4 header with one option word in front of an echo request.\<close>

theorem icmp_roundtrip_witness:
  "case icmp_decode ((0x46 # replicate 23 0) @ icmp_encode probe_packet_example) of
     (r, out) \<Rightarrow> r = IcmpOk \<and> map_option ip_payload out = Some (ip_payload probe_packet_example) \<and>
       map_option (\<lambda>q. (ih_identifier (ip_header q), ih_sequence (ip_header q))) out = Some (0x1234, 7)"
proof -
  let ?h = "(0x46 :: u8) # replicate 23 0"
  have h: "drop_bit 4 (?h ! 0) = 4" "length ?h = 4 * unat (?h ! 0 AND 0x0f)" "20 \<le> length ?h"
    "drop_bit 4 (ih_type (ip_header probe_packet_example)) \<noteq> 4"
    by (simp_all add: probe_packet_example_def buildEchoRequest_def icmp_header_build_def EchoRequest_def)
  show ?thesis
    using icmp_roundtrip [OF h]
    by (simp add: Let_def probe_packet_example_def buildEchoRequest_def icmp_header_build_def)
qed

end
