(* ===== verification/Icmp_Engine.thy ===== *)
theory Icmp_Engine
  imports Icmp_Codec "HOL-Library.Sublist"
begin

text \<open>
  The raw socket of \<^verbatim>\<open>probed\<close>: \<^verbatim>\<open>probed/icmp/IcmpConnection\<close> (a queue of datagrams in each
  direction), \<^verbatim>\<open>IcmpEngineHandler\<close> (decoding, encoding, interest in writability) and
  \<^verbatim>\<open>IcmpEngine\<close> (event dispatch, closing and reopening with a back-off), with the
  \<^verbatim>\<open>IcmpSocket\<close> it opens. The kernel is the list of results its next calls give. Decoded packets are
  handed to the receive router, which posts an event: they are kept in \<open>ie_received\<close>.
\<close>

subsection \<open>The connection\<close>

datatype icmp_io_result = IcIoOk | IcIoWouldBlock | IcIoPeerClosed | IcIoBufferFull | IcIoError

record rx_frame =
  rf_bytes :: bytes
  rf_srcIp :: string

record tx_frame =
  tf_bytes :: bytes
  tf_dstIp :: string

record icmp_connection =
  ic_fd :: int
  ic_rxQueueLimit :: nat
  ic_txQueueLimit :: nat
  ic_rxQueue :: "rx_frame list"
  ic_txQueue :: "tx_frame list"

definition DEFAULT_QUEUE_LIMIT :: nat where
  "DEFAULT_QUEUE_LIMIT = 4096"

definition icmp_connection_new :: "int \<Rightarrow> icmp_connection" where
  "icmp_connection_new fd = \<lparr>ic_fd = fd, ic_rxQueueLimit = DEFAULT_QUEUE_LIMIT,
     ic_txQueueLimit = DEFAULT_QUEUE_LIMIT, ic_rxQueue = [], ic_txQueue = []\<rparr>"

text \<open>
  What \<^verbatim>\<open>recvfrom\<close> answers: a datagram with its source address as \<^verbatim>\<open>inet_ntop\<close> prints it, or an error.
\<close>

datatype rx_outcome = RxDatagram bytes string | RxErr errno

fun icmp_recv :: "rx_outcome list \<Rightarrow> icmp_connection \<Rightarrow> (icmp_io_result \<times> errno option \<times> icmp_connection) option" where
  "icmp_recv env c =
     (if ic_fd c < 0 then Some (IcIoError, Some EBADF, c)
      else if length (ic_rxQueue c) \<ge> ic_rxQueueLimit c then Some (IcIoBufferFull, None, c)
      else case env of
        [] \<Rightarrow> None
      | RxDatagram bs src # env' \<Rightarrow>
          if bs \<noteq> [] then icmp_recv env' (c\<lparr>ic_rxQueue := ic_rxQueue c @ [\<lparr>rf_bytes = bs, rf_srcIp = src\<rparr>]\<rparr>)
          else Some (IcIoPeerClosed, None, c)
      | RxErr e # env' \<Rightarrow>
          if e = EINTR then icmp_recv env' c
          else if e = EAGAIN then Some (IcIoWouldBlock, None, c)
          else Some (IcIoError, Some e, c))"

declare icmp_recv.simps [simp del]

text \<open>
  \<^verbatim>\<open>send\<close> on the queue. \<open>pton\<close> tells which texts \<^verbatim>\<open>inet_pton\<close> accepts as an address. The last
  component of the result is what the kernel took.
\<close>

datatype tx_outcome = TxCount nat | TxErr errno

definition tx_dropped :: "errno \<Rightarrow> bool" where
  "tx_dropped e \<longleftrightarrow> e \<in> {EHOSTUNREACH, ENETUNREACH, EINVAL, EADDRNOTAVAIL, EMSGSIZE}"

function icmp_send_queue :: "(string \<Rightarrow> bool) \<Rightarrow> tx_outcome list \<Rightarrow> tx_frame list \<Rightarrow>
    (icmp_io_result \<times> errno option \<times> tx_frame list \<times> tx_frame list) option" where
  "icmp_send_queue pton env [] = Some (IcIoOk, None, [], [])"
| "icmp_send_queue pton env (f # q) =
     (if tf_bytes f = [] then icmp_send_queue pton env q
      else if \<not> pton (tf_dstIp f) then icmp_send_queue pton env q
      else case env of
        [] \<Rightarrow> None
      | TxCount n # env' \<Rightarrow>
          if n > 0 then
            (if n \<noteq> length (tf_bytes f) then icmp_send_queue pton env' q
             else map_option (\<lambda>(r, e, q', sent). (r, e, q', f # sent)) (icmp_send_queue pton env' q))
          else icmp_send_queue pton env' q
      | TxErr e # env' \<Rightarrow>
          if e = EINTR then icmp_send_queue pton env' (f # q)
          else if e = EAGAIN \<or> e = ENOBUFS then Some (IcIoWouldBlock, None, f # q, [])
          else if tx_dropped e then icmp_send_queue pton env' q
          else Some (IcIoError, Some e, f # q, []))"
  by pat_completeness auto
termination
  by (relation "measure (\<lambda>(pton, env, q). length env + length q)") auto

definition icmp_send :: "(string \<Rightarrow> bool) \<Rightarrow> tx_outcome list \<Rightarrow> icmp_connection \<Rightarrow>
    (icmp_io_result \<times> errno option \<times> icmp_connection \<times> tx_frame list) option" where
  "icmp_send pton env c =
     (if ic_fd c < 0 then Some (IcIoError, Some EBADF, c, [])
      else map_option (\<lambda>(r, e, q, sent). (r, e, c\<lparr>ic_txQueue := q\<rparr>, sent))
             (icmp_send_queue pton env (ic_txQueue c)))"

definition icmp_write :: "bytes \<Rightarrow> string \<Rightarrow> icmp_connection \<Rightarrow> bool \<times> icmp_connection" where
  "icmp_write bs dstIp c =
     (if bs = [] then (True, c)
      else if dstIp = [] then (False, c)
      else if length (ic_txQueue c) \<ge> ic_txQueueLimit c then (False, c)
      else (True, c\<lparr>ic_txQueue := ic_txQueue c @ [\<lparr>tf_bytes = bs, tf_dstIp = dstIp\<rparr>]\<rparr>))"

definition hasPendingTx :: "icmp_connection \<Rightarrow> bool" where
  "hasPendingTx c \<longleftrightarrow> ic_txQueue c \<noteq> []"

subsection \<open>The engine\<close>

record icmp_engine =
  ie_initialized :: bool
  ie_nextReopenAt :: int
  ie_epoll :: epoll
  ie_eventFd :: int
  ie_socket :: "int option"
  ie_conn :: "icmp_connection option"
  ie_rxRouter :: bool
  ie_received :: "(string \<times> icmp_packet) list"
  ie_sent :: "tx_frame list"

definition engine_new :: "epoll \<Rightarrow> int \<Rightarrow> icmp_engine" where
  "engine_new ep eventFd = \<lparr>ie_initialized = False, ie_nextReopenAt = 0, ie_epoll = ep, ie_eventFd = eventFd,
     ie_socket = None, ie_conn = None, ie_rxRouter = True, ie_received = [], ie_sent = []\<rparr>"

definition REOPEN_BACKOFF :: int where
  "REOPEN_BACKOFF = 1000000000"

definition engine_fd :: "icmp_engine \<Rightarrow> int" where
  "engine_fd s = (case ie_socket s of Some fd \<Rightarrow> fd | None \<Rightarrow> -1)"

definition isOpened :: "icmp_engine \<Rightarrow> bool" where
  "isOpened s \<longleftrightarrow> 0 \<le> engine_fd s \<and> ie_conn s \<noteq> None"

definition engine_close :: "icmp_engine \<Rightarrow> icmp_engine" where
  "engine_close s =
     (let s = (case ie_socket s of
                 None \<Rightarrow> s
               | Some fd \<Rightarrow> if fd \<ge> 0 then s\<lparr>ie_epoll := epoll_del fd (ie_epoll s)\<rparr> else s)
      in s\<lparr>ie_conn := None, ie_socket := None, ie_initialized := False\<rparr>)"

text \<open>\<^verbatim>\<open>socket(AF_INET, SOCK_RAW, IPPROTO_ICMP)\<close> and making it non-blocking.\<close>

record raw_socket_env =
  re_socket :: "nat option"
  re_nonblock :: bool

definition raw_open :: "raw_socket_env \<Rightarrow> int option" where
  "raw_open env = (case re_socket env of
     None \<Rightarrow> None | Some fd \<Rightarrow> if re_nonblock env then Some (int fd) else None)"

definition engine_initSocket :: "raw_socket_env \<Rightarrow> icmp_engine \<Rightarrow> bool \<times> icmp_engine" where
  "engine_initSocket env s =
     (case ie_socket s of
        Some fd \<Rightarrow> (True, s)
      | None \<Rightarrow>
         (case raw_open env of
            None \<Rightarrow> (False, s)
          | Some fd \<Rightarrow> (True, s\<lparr>ie_socket := Some fd\<rparr>)))"

definition engine_initConnection :: "icmp_engine \<Rightarrow> bool \<times> icmp_engine" where
  "engine_initConnection s =
     (case ie_conn s of
        Some c \<Rightarrow> (True, s)
      | None \<Rightarrow>
          if engine_fd s < 0 then (False, s)
          else (True, s\<lparr>ie_conn := Some (icmp_connection_new (engine_fd s))\<rparr>))"

text \<open>What \<^verbatim>\<open>init\<close> and \<^verbatim>\<open>reopen\<close> share: socket, connection, registration.\<close>

definition engine_open :: "raw_socket_env \<Rightarrow> icmp_engine \<Rightarrow> bool \<times> icmp_engine" where
  "engine_open env s =
     (let (ok, s) = engine_initSocket env s in
      if \<not> ok then (False, s)
      else let (ok, s) = engine_initConnection s in
        if \<not> ok then (False, s)
        else let (ok, ep') = epoll_add (engine_fd s) [EPOLLIN, EPOLLRDHUP] (ie_epoll s) in
          if \<not> ok then (False, engine_close s)
          else (True, s\<lparr>ie_epoll := ep', ie_initialized := True\<rparr>))"

definition engine_init :: "bool \<Rightarrow> raw_socket_env \<Rightarrow> icmp_engine \<Rightarrow> bool \<times> icmp_engine" where
  "engine_init epollCreated env s =
     (if ie_initialized s then (True, s)
      else if \<not> epollCreated then (False, s)
      else engine_open env (s\<lparr>ie_epoll := snd (epoll_add (ie_eventFd s) [EPOLLIN] (ie_epoll s))\<rparr>))"

definition engine_reopen :: "raw_socket_env \<Rightarrow> icmp_engine \<Rightarrow> bool \<times> icmp_engine" where
  "engine_reopen env s = engine_open env (engine_close s)"

definition engine_enqueueFrame :: "bytes \<Rightarrow> string \<Rightarrow> icmp_engine \<Rightarrow> bool \<times> icmp_engine" where
  "engine_enqueueFrame frame dstIp s =
     (if frame = [] then (False, s)
      else case ie_conn s of
        None \<Rightarrow> (False, s)
      | Some c \<Rightarrow>
          if engine_fd s < 0 then (False, s)
          else
            let (written, c') = icmp_write frame dstIp c in
            if \<not> written then (False, s)
            else
              let s = s\<lparr>ie_conn := Some c'\<rparr>;
                  (ok, ep') = epoll_mod (engine_fd s) [EPOLLIN, EPOLLOUT, EPOLLRDHUP] (ie_epoll s) in
              if \<not> ok then (False, engine_close s) else (True, s\<lparr>ie_epoll := ep'\<rparr>))"

subsection \<open>The handler\<close>

definition icmp_ingress :: "string \<Rightarrow> bytes \<Rightarrow> icmp_engine \<Rightarrow> bool \<times> icmp_engine" where
  "icmp_ingress srcIp frame s =
     (if frame = [] then (False, s)
      else
        let (rc, packet) = icmp_decode frame in
        if rc \<noteq> IcmpOk then (True, s)
        else case packet of
          None \<Rightarrow> (True, s)
        | Some p \<Rightarrow>
            if \<not> ie_rxRouter s then (True, s)
            else (True, s\<lparr>ie_received := ie_received s @ [(srcIp, p)]\<rparr>))"

definition icmp_egress :: "icmp_packet option \<Rightarrow> string \<Rightarrow> icmp_engine \<Rightarrow> icmp_engine" where
  "icmp_egress packet dstIp s =
     (case packet of
        None \<Rightarrow> s
      | Some p \<Rightarrow>
          if dstIp = [] then s
          else
            let frame = icmp_encode p in
            if frame = [] then s else snd (engine_enqueueFrame frame dstIp s))"

fun icmp_drain :: "rx_frame list \<Rightarrow> icmp_engine \<Rightarrow> bool \<times> rx_frame list \<times> icmp_engine" where
  "icmp_drain [] s = (True, [], s)"
| "icmp_drain (f # q) s =
     (let (ok, s) = icmp_ingress (rf_srcIp f) (rf_bytes f) s in
      if \<not> ok then (False, q, s) else icmp_drain q s)"

definition icmp_handleRecv :: "rx_outcome list \<Rightarrow> icmp_connection \<Rightarrow> icmp_engine \<Rightarrow> (bool \<times> icmp_engine) option" where
  "icmp_handleRecv env c s =
     map_option (\<lambda>(rc, e, c').
       if rc = IcIoPeerClosed \<or> rc = IcIoError then (False, s\<lparr>ie_conn := Some c'\<rparr>)
       else
         let (ok, q, s) = icmp_drain (ic_rxQueue c') s in
         (ok, s\<lparr>ie_conn := Some (c'\<lparr>ic_rxQueue := q\<rparr>)\<rparr>)) (icmp_recv env c)"

definition icmp_handleSend :: "(string \<Rightarrow> bool) \<Rightarrow> int \<Rightarrow> tx_outcome list \<Rightarrow> icmp_connection \<Rightarrow> icmp_engine \<Rightarrow>
    (bool \<times> icmp_engine) option" where
  "icmp_handleSend pton fd env c s =
     map_option (\<lambda>(rc, e, c', sent).
       let s = s\<lparr>ie_conn := Some c', ie_sent := ie_sent s @ sent\<rparr> in
       case rc of
         IcIoWouldBlock \<Rightarrow> (True, s)
       | IcIoBufferFull \<Rightarrow> (True, s)
       | IcIoPeerClosed \<Rightarrow> (False, s)
       | IcIoError \<Rightarrow> (False, s)
       | IcIoOk \<Rightarrow>
           if \<not> hasPendingTx c' then
             (let (ok, ep') = epoll_mod fd [EPOLLIN, EPOLLRDHUP] (ie_epoll s) in
              if \<not> ok then (False, s) else (True, s\<lparr>ie_epoll := ep'\<rparr>))
           else (True, s)) (icmp_send pton env c)"

record icmp_io =
  ii_recv :: "rx_outcome list"
  ii_send :: "tx_outcome list"

definition engine_handleEvent :: "(string \<Rightarrow> bool) \<Rightarrow> icmp_io \<Rightarrow> int \<Rightarrow> epoll_event list \<Rightarrow> icmp_engine \<Rightarrow>
    icmp_engine option" where
  "engine_handleEvent pton env fd events s =
     (let isClose = (EPOLLERR \<in> set events \<or> EPOLLHUP \<in> set events \<or> EPOLLRDHUP \<in> set events);
          isRecv = (EPOLLIN \<in> set events);
          isSend = (EPOLLOUT \<in> set events) in
      if fd = ie_eventFd s then Some s
      else if ie_socket s = None \<or> fd \<noteq> engine_fd s then Some s
      else case ie_conn s of
        None \<Rightarrow> Some s
      | Some c \<Rightarrow>
          if isClose then Some (engine_close s)
          else
            case (if isRecv then icmp_handleRecv (ii_recv env) c s else Some (True, s)) of
              None \<Rightarrow> None
            | Some (ok, s) \<Rightarrow>
                if \<not> ok then Some (engine_close s)
                else if isSend then
                  (case ie_conn s of
                     None \<Rightarrow> Some s
                   | Some c \<Rightarrow>
                       map_option (\<lambda>(ok, s). if \<not> ok then engine_close s else s)
                         (icmp_handleSend pton fd (ii_send env) c s))
                else Some s)"

datatype icmp_wait = IcmpWaitErr errno | IcmpReady "(int \<times> epoll_event list \<times> icmp_io) list"

fun engine_dispatch :: "(string \<Rightarrow> bool) \<Rightarrow> (int \<times> epoll_event list \<times> icmp_io) list \<Rightarrow> icmp_engine \<Rightarrow>
    icmp_engine option" where
  "engine_dispatch pton [] s = Some s"
| "engine_dispatch pton ((fd, events, env) # rest) s =
     (case engine_handleEvent pton env fd events s of
        None \<Rightarrow> None
      | Some s \<Rightarrow> engine_dispatch pton rest s)"

text \<open>\<^verbatim>\<open>poll\<close>; \<open>None\<close> when the kernel's answers ran out inside a loop.\<close>

definition engine_wait :: "(string \<Rightarrow> bool) \<Rightarrow> icmp_wait \<Rightarrow> icmp_engine \<Rightarrow> (bool \<times> icmp_engine) option" where
  "engine_wait pton wait s =
     (case wait of
        IcmpWaitErr e \<Rightarrow> Some (e = EINTR, s)
      | IcmpReady ready \<Rightarrow> map_option (\<lambda>s. (True, s)) (engine_dispatch pton ready s))"

definition engine_poll :: "(string \<Rightarrow> bool) \<Rightarrow> int \<Rightarrow> raw_socket_env \<Rightarrow> icmp_wait \<Rightarrow> icmp_engine \<Rightarrow>
    (bool \<times> icmp_engine) option" where
  "engine_poll pton now env wait s =
     (if \<not> isOpened s then
        (if now < ie_nextReopenAt s then Some (True, s)
         else
           let s = s\<lparr>ie_nextReopenAt := now + REOPEN_BACKOFF\<rparr>; (ok, s) = engine_reopen env s in
           if \<not> ok then Some (True, s) else engine_wait pton wait s)
      else engine_wait pton wait s)"

subsection \<open>The queues\<close>

lemma icmp_recv_queue:
  "icmp_recv env c = Some (r, e, c') \<Longrightarrow>
     \<exists>new. c' = c\<lparr>ic_rxQueue := ic_rxQueue c @ new\<rparr> \<and> r \<noteq> IcIoOk \<and>
       (length (ic_rxQueue c) \<le> ic_rxQueueLimit c \<longrightarrow> length (ic_rxQueue c') \<le> ic_rxQueueLimit c)"
proof (induction env c rule: icmp_recv.induct)
  case (1 env c)
  consider (closed) "ic_fd c < 0" | (full) "\<not> ic_fd c < 0" "ic_rxQueueLimit c \<le> length (ic_rxQueue c)"
    | (room) "\<not> ic_fd c < 0" "\<not> ic_rxQueueLimit c \<le> length (ic_rxQueue c)" by blast
  then show ?case
  proof cases
    case room
    then obtain o1 env' where env: "env = o1 # env'"
      using "1.prems" by (subst (asm) icmp_recv.simps) (auto split: list.splits)
    show ?thesis
    proof (cases o1)
      case (RxDatagram bs src)
      show ?thesis
      proof (cases "bs = []")
        case True
        then show ?thesis using "1.prems" room env RxDatagram
          by (subst (asm) icmp_recv.simps) (auto intro: exI [of _ "[]"])
      next
        case False
        then have "icmp_recv env' (c\<lparr>ic_rxQueue := ic_rxQueue c @ [\<lparr>rf_bytes = bs, rf_srcIp = src\<rparr>]\<rparr>) = Some (r, e, c')"
          using "1.prems" room env RxDatagram by (subst (asm) icmp_recv.simps) simp
        from "1.IH"(1) [OF room env RxDatagram False this] room(2) show ?thesis by (auto simp: not_le)
      qed
    next
      case (RxErr err)
      show ?thesis
      proof (cases "err = EINTR")
        case True
        then have "icmp_recv env' c = Some (r, e, c')"
          using "1.prems" room env RxErr by (subst (asm) icmp_recv.simps) simp
        from "1.IH"(2) [OF room env RxErr True this] show ?thesis .
      next
        case False
        then show ?thesis using "1.prems" room env RxErr
          by (subst (asm) icmp_recv.simps) (auto intro: exI [of _ "[]"] split: if_splits)
      qed
    qed
  qed (use "1.prems" in \<open>subst (asm) icmp_recv.simps, auto intro: exI [of _ "[]"]\<close>)+
qed

text \<open>Sending removes a prefix of the queue and gives the kernel a subsequence of it.\<close>

definition sends_fifo :: "(string \<Rightarrow> bool) \<Rightarrow> tx_frame list \<Rightarrow> icmp_io_result \<Rightarrow> tx_frame list \<Rightarrow> tx_frame list \<Rightarrow> bool" where
  "sends_fifo pton q r q' sent \<longleftrightarrow> (\<exists>gone. q = gone @ q' \<and> subseq sent gone) \<and>
     list_all (\<lambda>f. tf_bytes f \<noteq> [] \<and> pton (tf_dstIp f)) sent \<and>
     (r = IcIoOk \<longleftrightarrow> q' = []) \<and> r \<in> {IcIoOk, IcIoWouldBlock, IcIoError}"

lemma fifo_skip:
  assumes "sends_fifo pton q r q' sent"
  shows "sends_fifo pton (f # q) r q' sent"
proof -
  from assms obtain gone where "q = gone @ q'" "subseq sent gone" by (auto simp: sends_fifo_def)
  then have "f # q = (f # gone) @ q'" "subseq sent (f # gone)" by (auto intro: list_emb_Cons)
  with assms show ?thesis unfolding sends_fifo_def by blast
qed

lemma fifo_sent:
  assumes "sends_fifo pton q r q' sent" and "tf_bytes f \<noteq> []" and "pton (tf_dstIp f)"
  shows "sends_fifo pton (f # q) r q' (f # sent)"
proof -
  from assms(1) obtain gone where "q = gone @ q'" "subseq sent gone" by (auto simp: sends_fifo_def)
  then have "f # q = (f # gone) @ q'" "subseq (f # sent) (f # gone)" by auto
  with assms show ?thesis unfolding sends_fifo_def by (intro conjI) auto
qed

lemma fifo_stop: "r = IcIoWouldBlock \<or> r = IcIoError \<Longrightarrow> sends_fifo pton (f # q) r (f # q) []"
  by (auto simp: sends_fifo_def)

lemma icmp_send_queue_fifo:
  "icmp_send_queue pton env q = Some (r, e, q', sent) \<Longrightarrow> sends_fifo pton q r q' sent"
proof (induction pton env q arbitrary: r e q' sent rule: icmp_send_queue.induct)
  case (2 pton env f q)
  then show ?case
    by (auto intro: fifo_skip fifo_sent fifo_stop split: if_splits list.splits tx_outcome.splits)
qed (simp add: sends_fifo_def)

subsection \<open>The invariant\<close>

text \<open>
  A connection exists exactly while the engine is initialized; its socket is open and watched, its
  queues are within their limits, and while a datagram waits the socket is watched for writability.
\<close>

definition engine_ok :: "icmp_engine \<Rightarrow> bool" where
  "engine_ok s \<longleftrightarrow> (ie_initialized s \<longleftrightarrow> ie_conn s \<noteq> None) \<and>
     (case ie_conn s of
        None \<Rightarrow> True
      | Some c \<Rightarrow> 0 \<le> engine_fd s \<and> ic_fd c = engine_fd s \<and> ic_rxQueue c = [] \<and>
          ic_txQueueLimit c = DEFAULT_QUEUE_LIMIT \<and> ic_rxQueueLimit c = DEFAULT_QUEUE_LIMIT \<and>
          length (ic_txQueue c) \<le> DEFAULT_QUEUE_LIMIT \<and>
          (\<exists>evs. ep_set (ie_epoll s) (engine_fd s) = Some evs \<and> EPOLLIN \<in> set evs \<and>
             (ic_txQueue c \<noteq> [] \<longrightarrow> EPOLLOUT \<in> set evs)))"

lemma engine_ok_new: "engine_ok (engine_new ep ev)"
  by (simp add: engine_ok_def engine_new_def)

lemma engine_close_simps [simp]:
  "ie_conn (engine_close s) = None" "\<not> ie_initialized (engine_close s)" "ie_socket (engine_close s) = None"
  "ie_nextReopenAt (engine_close s) = ie_nextReopenAt s" "ie_eventFd (engine_close s) = ie_eventFd s"
  by (simp_all add: engine_close_def Let_def split: option.split)

lemma engine_ok_close [simp]: "engine_ok (engine_close s)"
  by (simp add: engine_ok_def)

lemma engine_fd_simps [simp]:
  "engine_fd (s\<lparr>ie_conn := c\<rparr>) = engine_fd s" "engine_fd (s\<lparr>ie_epoll := ep\<rparr>) = engine_fd s"
  "engine_fd (s\<lparr>ie_initialized := b\<rparr>) = engine_fd s" "engine_fd (s\<lparr>ie_received := rs\<rparr>) = engine_fd s"
  "engine_fd (s\<lparr>ie_sent := ts\<rparr>) = engine_fd s" "engine_fd (s\<lparr>ie_nextReopenAt := t\<rparr>) = engine_fd s"
  "engine_fd (s\<lparr>ie_socket := so\<rparr>) = (case so of Some fd \<Rightarrow> fd | None \<Rightarrow> -1)"
  by (simp_all add: engine_fd_def)

lemma engine_okD:
  assumes "engine_ok s" and "ie_conn s = Some c"
  obtains evs where "ie_initialized s" "0 \<le> engine_fd s" "ic_fd c = engine_fd s" "ic_rxQueue c = []"
    "ic_txQueueLimit c = DEFAULT_QUEUE_LIMIT" "ic_rxQueueLimit c = DEFAULT_QUEUE_LIMIT"
    "length (ic_txQueue c) \<le> DEFAULT_QUEUE_LIMIT" "ep_set (ie_epoll s) (engine_fd s) = Some evs"
    "EPOLLIN \<in> set evs" "ic_txQueue c \<noteq> [] \<longrightarrow> EPOLLOUT \<in> set evs"
  using assms by (auto simp: engine_ok_def)

lemma engine_ok_open:
  assumes "ie_conn s = None" and "\<not> ie_initialized s" and "engine_open env s = (ok, s')"
  shows "engine_ok s' \<and> (ok \<longrightarrow> isOpened s')"
proof -
  obtain b t where t: "engine_initSocket env s = (b, t)" by fastforce
  then have tc: "ie_conn t = None" "\<not> ie_initialized t"
    using assms(1,2) by (auto simp: engine_initSocket_def split: option.splits)
  show ?thesis
  proof (cases "b \<and> 0 \<le> engine_fd t")
    case False
    then have "s' = t" "\<not> ok"
      using assms(3) t tc by (auto simp: engine_open_def engine_initConnection_def split: if_splits)
    then show ?thesis using tc by (simp add: engine_ok_def)
  next
    case True
    let ?t = "t\<lparr>ie_conn := Some (icmp_connection_new (engine_fd t))\<rparr>"
    have res: "(ok, s') = (let (ok, ep') = epoll_add (engine_fd t) [EPOLLIN, EPOLLRDHUP] (ie_epoll t) in
        if \<not> ok then (False, engine_close ?t) else (True, ?t\<lparr>ie_epoll := ep', ie_initialized := True\<rparr>))"
      using assms(3) t tc True by (simp add: engine_open_def engine_initConnection_def Let_def)
    show ?thesis
    proof (cases ok)
      case True
      then obtain ep' where "epoll_add (engine_fd t) [EPOLLIN, EPOLLRDHUP] (ie_epoll t) = (True, ep')"
        "s' = ?t\<lparr>ie_epoll := ep', ie_initialized := True\<rparr>"
        using res by (auto simp: Let_def split: prod.splits if_splits)
      then show ?thesis using \<open>b \<and> 0 \<le> engine_fd t\<close>
        by (auto simp: engine_ok_def epoll_add_def icmp_connection_new_def isOpened_def split: if_splits)
    next
      case False
      then have "s' = engine_close ?t" using res by (auto simp: Let_def split: prod.splits if_splits)
      with False show ?thesis by simp
    qed
  qed
qed

lemma engine_ok_enqueue:
  assumes "engine_ok s" and "engine_enqueueFrame frame dst s = (ok, s')"
  shows "engine_ok s'"
proof (cases "ie_conn s")
  case None
  with assms show ?thesis by (auto simp: engine_enqueueFrame_def split: if_splits)
next
  case (Some c)
  obtain evs where e: "ie_initialized s" "0 \<le> engine_fd s" "ic_fd c = engine_fd s" "ic_rxQueue c = []"
    "ic_txQueueLimit c = DEFAULT_QUEUE_LIMIT" "ic_rxQueueLimit c = DEFAULT_QUEUE_LIMIT"
    "length (ic_txQueue c) \<le> DEFAULT_QUEUE_LIMIT" "ep_set (ie_epoll s) (engine_fd s) = Some evs"
    by (rule engine_okD [OF assms(1) Some]) blast
  obtain w c' where w: "icmp_write frame dst c = (w, c')" by fastforce
  have c': "ic_fd c' = ic_fd c" "ic_rxQueue c' = ic_rxQueue c" "ic_txQueueLimit c' = ic_txQueueLimit c"
    "ic_rxQueueLimit c' = ic_rxQueueLimit c" "w \<longrightarrow> length (ic_txQueue c') \<le> DEFAULT_QUEUE_LIMIT"
    using w e(5,7) by (auto simp: icmp_write_def split: if_splits)
  obtain b ep' where ep: "epoll_mod (engine_fd s) [EPOLLIN, EPOLLOUT, EPOLLRDHUP] (ie_epoll s) = (b, ep')" by fastforce
  have "s' = s \<or> s' = engine_close (s\<lparr>ie_conn := Some c'\<rparr>) \<or> w \<and> b \<and> s' = s\<lparr>ie_conn := Some c', ie_epoll := ep'\<rparr>"
    using assms(2) e(2) w ep by (auto simp: engine_enqueueFrame_def Some Let_def split: if_splits)
  moreover have "engine_ok (s\<lparr>ie_conn := Some c', ie_epoll := ep'\<rparr>)" if "w" "b"
    using that e c' ep by (auto simp: engine_ok_def epoll_mod_def split: if_splits)
  ultimately show ?thesis using assms(1) by auto
qed

lemma engine_ok_egress: "engine_ok s \<Longrightarrow> engine_ok (icmp_egress p dst s)"
  using engine_ok_enqueue by (auto simp: icmp_egress_def Let_def split: option.split) (metis prod.collapse)

lemma icmp_drain_same: "icmp_drain q s = (ok, q', s') \<Longrightarrow> (\<exists>rs. s' = s\<lparr>ie_received := rs\<rparr>) \<and> (ok \<longrightarrow> q' = [])"
proof (induction q s arbitrary: ok q' s' rule: icmp_drain.induct)
  case (1 s)
  then show ?case by (auto intro: exI [of _ "ie_received s"])
next
  case (2 f q s)
  obtain b t where t: "icmp_ingress (rf_srcIp f) (rf_bytes f) s = (b, t)" by fastforce
  then have "t = s\<lparr>ie_received := ie_received s\<rparr> \<or> (\<exists>rs. t = s\<lparr>ie_received := rs\<rparr>)"
    by (auto simp: icmp_ingress_def Let_def split: if_splits prod.splits option.splits)
  then obtain rs where rs: "t = s\<lparr>ie_received := rs\<rparr>" by blast
  show ?case
    using "2.IH" [OF t [symmetric] refl] "2.prems" t rs by (cases b) auto
qed

lemma engine_ok_recv:
  assumes "engine_ok s" and "ie_conn s = Some c" and "icmp_handleRecv env c s = Some (ok, s')"
  shows "ok \<longrightarrow> engine_ok s' \<and> ie_conn s' \<noteq> None \<and> engine_fd s' = engine_fd s"
proof
  assume ok
  with assms(3) obtain rc e c' q t where r: "icmp_recv env c = Some (rc, e, c')"
    "icmp_drain (ic_rxQueue c') s = (True, q, t)" "s' = t\<lparr>ie_conn := Some (c'\<lparr>ic_rxQueue := q\<rparr>)\<rparr>"
    by (auto simp: icmp_handleRecv_def Let_def split: if_splits prod.splits)
  obtain new where c': "c' = c\<lparr>ic_rxQueue := ic_rxQueue c @ new\<rparr>" using icmp_recv_queue [OF r(1)] by blast
  obtain rs where t: "t = s\<lparr>ie_received := rs\<rparr>" "q = []" using icmp_drain_same [OF r(2)] by blast
  have "engine_ok s'"
    using assms(1,2) by (auto simp: r(3) c' t engine_ok_def)
  then show "engine_ok s' \<and> ie_conn s' \<noteq> None \<and> engine_fd s' = engine_fd s" by (simp add: r(3) t)
qed

lemma engine_ok_send:
  assumes "engine_ok s" and "ie_conn s = Some c" and "icmp_handleSend pton (engine_fd s) env c s = Some (ok, s')"
  shows "ok \<longrightarrow> engine_ok s'"
proof
  assume ok
  obtain evs where e: "ie_initialized s" "0 \<le> engine_fd s" "ic_fd c = engine_fd s" "ic_rxQueue c = []"
    "ic_txQueueLimit c = DEFAULT_QUEUE_LIMIT" "ic_rxQueueLimit c = DEFAULT_QUEUE_LIMIT"
    "length (ic_txQueue c) \<le> DEFAULT_QUEUE_LIMIT" "ep_set (ie_epoll s) (engine_fd s) = Some evs"
    "EPOLLIN \<in> set evs" "ic_txQueue c \<noteq> [] \<longrightarrow> EPOLLOUT \<in> set evs"
    by (rule engine_okD [OF assms(1,2)])
  from assms(3) e(2,3) obtain r er q sent where q: "icmp_send_queue pton env (ic_txQueue c) = Some (r, er, q, sent)"
    by (auto simp: icmp_handleSend_def icmp_send_def)
  let ?c = "c\<lparr>ic_txQueue := q\<rparr>" and ?s = "s\<lparr>ie_conn := Some (c\<lparr>ic_txQueue := q\<rparr>), ie_sent := ie_sent s @ sent\<rparr>"
  note fifo = icmp_send_queue_fifo [OF q, unfolded sends_fifo_def]
  then have len: "length q \<le> DEFAULT_QUEUE_LIMIT" and sub: "q \<noteq> [] \<longrightarrow> ic_txQueue c \<noteq> []"
    using e(7) by auto
  have "r = IcIoWouldBlock \<and> s' = ?s \<or> r = IcIoOk \<and> (\<exists>ep'. epoll_mod (engine_fd s) [EPOLLIN, EPOLLRDHUP] (ie_epoll s)
      = (True, ep') \<and> s' = ?s\<lparr>ie_epoll := ep'\<rparr>)"
    using assms(3) \<open>ok\<close> e(2,3) q fifo
    by (auto simp: icmp_handleSend_def icmp_send_def hasPendingTx_def Let_def split: prod.splits if_splits)
  then show "engine_ok s'"
    using e len sub fifo by (auto simp: engine_ok_def epoll_mod_def split: if_splits)
qed

lemma engine_ok_event:
  assumes "engine_ok s" and "engine_handleEvent pton env fd evs s = Some s'"
  shows "engine_ok s'"
proof (cases "fd = ie_eventFd s \<or> ie_socket s = None \<or> fd \<noteq> engine_fd s \<or> ie_conn s = None \<or>
    EPOLLERR \<in> set evs \<or> EPOLLHUP \<in> set evs \<or> EPOLLRDHUP \<in> set evs")
  case True
  then have "s' = s \<or> s' = engine_close s"
    using assms(2) by (auto simp: engine_handleEvent_def Let_def split: if_splits option.splits)
  then show ?thesis using assms(1) by auto
next
  case False
  then obtain c where c: "ie_conn s = Some c" by auto
  from False assms(2) c obtain b t where
    t: "(if EPOLLIN \<in> set evs then icmp_handleRecv (ii_recv env) c s else Some (True, s)) = Some (b, t)"
    and s': "(if \<not> b then Some (engine_close t)
       else if EPOLLOUT \<in> set evs then
         (case ie_conn t of None \<Rightarrow> Some t
          | Some c \<Rightarrow> map_option (\<lambda>(ok, s). if \<not> ok then engine_close s else s)
              (icmp_handleSend pton fd (ii_send env) c t))
       else Some t) = Some s'"
    by (auto simp: engine_handleEvent_def Let_def split: option.splits)
  show ?thesis
  proof (cases b)
    case False
    then show ?thesis using s' by auto
  next
    case True
    then have t_ok: "engine_ok t \<and> ie_conn t \<noteq> None \<and> engine_fd t = engine_fd s"
      using t engine_ok_recv [OF assms(1) c] assms(1) c by (auto split: if_splits)
    then obtain c' where c': "ie_conn t = Some c'" by auto
    have fd: "fd = engine_fd t" using False t_ok by simp
    show ?thesis
    proof (cases "EPOLLOUT \<in> set evs")
      case True
      then obtain ok u where "icmp_handleSend pton fd (ii_send env) c' t = Some (ok, u)"
        "ok \<and> s' = u \<or> s' = engine_close u"
        using s' \<open>b\<close> c' by (auto split: if_splits)
      then show ?thesis using engine_ok_send [of t c' pton "ii_send env" ok u] t_ok c' fd by auto
    next
      case False
      then show ?thesis using s' \<open>b\<close> t_ok by simp
    qed
  qed
qed

lemma engine_ok_dispatch: "engine_ok s \<Longrightarrow> engine_dispatch pton ready s = Some s' \<Longrightarrow> engine_ok s'"
proof (induction pton ready s rule: engine_dispatch.induct)
  case (2 pton fd events env rest s)
  then obtain t where "engine_handleEvent pton env fd events s = Some t" "engine_dispatch pton rest t = Some s'"
    by (auto split: option.splits)
  with "2.IH" "2.prems"(1) engine_ok_event show ?case by blast
qed simp

lemma engine_ok_wait: "engine_ok s \<Longrightarrow> engine_wait pton wait s = Some (b, s') \<Longrightarrow> engine_ok s'"
  using engine_ok_dispatch by (auto simp: engine_wait_def split: icmp_wait.splits)

lemma engine_ok_reopen: "engine_reopen env s = (ok, s') \<Longrightarrow> engine_ok s' \<and> (ok \<longrightarrow> isOpened s')"
  unfolding engine_reopen_def by (rule engine_ok_open) simp_all

lemma engine_ok_poll:
  assumes "engine_ok s" and "engine_poll pton now env wait s = Some (b, s')"
  shows "engine_ok s'"
proof (cases "isOpened s \<or> now < ie_nextReopenAt s")
  case True
  then show ?thesis using assms engine_ok_wait by (auto simp: engine_poll_def split: if_splits)
next
  case False
  let ?s = "s\<lparr>ie_nextReopenAt := now + REOPEN_BACKOFF\<rparr>"
  obtain ok t where t: "engine_reopen env ?s = (ok, t)" by fastforce
  with engine_ok_reopen [OF t] False assms(2) show ?thesis
    using engine_ok_wait [of t pton wait b s'] by (auto simp: engine_poll_def Let_def split: if_splits)
qed

inductive engine_run :: "icmp_engine \<Rightarrow> icmp_engine \<Rightarrow> bool" where
  ir_start: "engine_run s s"
| ir_init: "engine_run s t \<Longrightarrow> engine_init created env t = (ok, u) \<Longrightarrow> engine_run s u"
| ir_egress: "engine_run s t \<Longrightarrow> engine_run s (icmp_egress p dst t)"
| ir_poll: "engine_run s t \<Longrightarrow> engine_poll pton now env wait t = Some (b, u) \<Longrightarrow> engine_run s u"

lemma engine_run_ok: "engine_run s t \<Longrightarrow> engine_ok s \<Longrightarrow> engine_ok t"
proof (induction rule: engine_run.induct)
  case (ir_init s t created env ok u)
  then have t: "engine_ok t" by simp
  show ?case
  proof (cases "ie_initialized t \<or> \<not> created")
    case True
    then show ?thesis using ir_init.hyps(2) t by (auto simp: engine_init_def split: if_splits)
  next
    case False
    then have "ie_conn t = None" using t by (auto simp: engine_ok_def)
    then show ?thesis
      using ir_init.hyps(2) False engine_ok_open [of "t\<lparr>ie_epoll := ep\<rparr>" env ok u for ep]
      by (fastforce simp: engine_init_def)
  qed
qed (auto intro: engine_ok_egress engine_ok_poll)

subsection \<open>Properties\<close>

text \<open>The raw socket of \<^verbatim>\<open>probed\<close>: whatever is sent through it and whatever the kernel answers, its queue
  stays within 4096 datagrams, no received datagram stays undelivered between two polls, and as long
  as a datagram waits to be sent the socket is watched for writability.\<close>

theorem engine_queue_is_watched:
  assumes "engine_run (engine_new ep ev) s" and "ie_conn s = Some c"
  shows "length (ic_txQueue c) \<le> 4096 \<and> ic_rxQueue c = [] \<and> isOpened s \<and>
    (\<exists>evs. ep_set (ie_epoll s) (engine_fd s) = Some evs \<and> EPOLLIN \<in> set evs \<and>
       (ic_txQueue c \<noteq> [] \<longrightarrow> EPOLLOUT \<in> set evs))"
  using engine_run_ok [OF assms(1) engine_ok_new] assms(2)
  by (auto simp: engine_ok_def DEFAULT_QUEUE_LIMIT_def isOpened_def)

text \<open>The raw socket comes back: a poll after the back-off on a closed engine opens a new socket when
  the kernel gives one, and otherwise leaves the engine closed and waits for one more second.\<close>

theorem engine_recovers:
  assumes "\<not> isOpened s" and "ie_nextReopenAt s \<le> now"
    and "raw_open env = Some fd" and "ep_set (ie_epoll (engine_close s)) fd = None" and "\<not> ep_refuses (ie_epoll s) fd"
  shows "\<exists>s'. engine_poll pton now env (IcmpReady []) s = Some (True, s') \<and> isOpened s' \<and> engine_fd s' = fd \<and>
    ie_nextReopenAt s' = now + 1000000000"
proof -
  let ?s = "s\<lparr>ie_nextReopenAt := now + REOPEN_BACKOFF\<rparr>"
  have fd: "0 \<le> fd" using assms(3) by (auto simp: raw_open_def split: option.splits if_splits)
  have close: "ie_epoll (engine_close ?s) = ie_epoll (engine_close s)"
    by (simp add: engine_close_def Let_def split: option.split)
  have ref: "ep_refuses (ie_epoll (engine_close s)) = ep_refuses (ie_epoll s)"
    by (simp add: engine_close_def epoll_del_def Let_def split: option.split)
  obtain u where "engine_reopen env ?s = (True, u)" "isOpened u" "engine_fd u = fd"
    "ie_nextReopenAt u = now + REOPEN_BACKOFF"
    using assms(3-5) fd
    by (simp add: engine_reopen_def engine_open_def engine_initSocket_def engine_initConnection_def
        epoll_add_def close ref isOpened_def Let_def)
  then show ?thesis
    using assms(1,2) by (simp add: engine_poll_def engine_wait_def REOPEN_BACKOFF_def Let_def)
qed

text \<open>The witnesses: an engine that was opened on descriptor 7, one probe queued; then its socket fails.\<close>

definition raw_example :: raw_socket_env where
  "raw_example = \<lparr>re_socket = Some 7, re_nonblock = True\<rparr>"

definition idle_engine :: icmp_engine where
  "idle_engine = engine_new \<lparr>ep_set = Map.empty, ep_refuses = (\<lambda>_. False)\<rparr> 3"

definition probing_engine :: icmp_engine where
  "probing_engine = icmp_egress (Some probe_packet_example) ''10.0.0.1'' (snd (engine_init True raw_example idle_engine))"

lemmas engine_simps = engine_init_def engine_open_def engine_initSocket_def raw_open_def raw_example_def
  engine_initConnection_def idle_engine_def engine_new_def epoll_add_def engine_fd_def isOpened_def
  icmp_connection_new_def DEFAULT_QUEUE_LIMIT_def

lemma probe_frame_nonempty: "icmp_encode p \<noteq> []"
  by (simp add: icmp_encode_eq)

lemma probing_engine_conn:
  "\<exists>c. ie_conn probing_engine = Some c \<and>
     ic_txQueue c = [\<lparr>tf_bytes = icmp_encode probe_packet_example, tf_dstIp = ''10.0.0.1''\<rparr>]"
  by (simp add: probing_engine_def icmp_egress_def engine_enqueueFrame_def icmp_write_def epoll_mod_def
      probe_frame_nonempty engine_simps Let_def)

lemma probing_engine_run: "engine_run (engine_new \<lparr>ep_set = Map.empty, ep_refuses = (\<lambda>_. False)\<rparr> 3) probing_engine"
proof -
  obtain ok u where u: "engine_init True raw_example idle_engine = (ok, u)" by fastforce
  have p: "probing_engine = icmp_egress (Some probe_packet_example) ''10.0.0.1'' u" by (simp add: probing_engine_def u)
  show ?thesis unfolding p idle_engine_def [symmetric] by (rule ir_egress [OF ir_init [OF ir_start u]])
qed

theorem engine_queue_is_watched_witness:
  "\<exists>c evs. ie_conn probing_engine = Some c \<and> length (ic_txQueue c) = 1 \<and>
     ep_set (ie_epoll probing_engine) (engine_fd probing_engine) = Some evs \<and> EPOLLOUT \<in> set evs"
proof -
  obtain c where c: "ie_conn probing_engine = Some c"
    "ic_txQueue c = [\<lparr>tf_bytes = icmp_encode probe_packet_example, tf_dstIp = ''10.0.0.1''\<rparr>]"
    using probing_engine_conn by blast
  from engine_queue_is_watched [OF probing_engine_run c(1)] c show ?thesis by auto
qed

theorem engine_recovers_witness:
  "\<exists>s'. engine_poll (\<lambda>_. True) 5 raw_example (IcmpReady []) (engine_close probing_engine) = Some (True, s') \<and> isOpened s'"
proof -
  let ?s = "engine_close probing_engine"
  have s: "\<not> isOpened ?s" "ie_nextReopenAt ?s \<le> 5" "raw_open raw_example = Some 7"
    "ep_set (ie_epoll (engine_close ?s)) 7 = None" "\<not> ep_refuses (ie_epoll ?s) 7"
    by (simp_all add: probing_engine_def icmp_egress_def engine_enqueueFrame_def icmp_write_def epoll_mod_def
        engine_close_def epoll_del_def probe_frame_nonempty engine_simps Let_def)
  from engine_recovers [OF s] show ?thesis by blast
qed

end
