(* ===== verification/Icmp_Service.thy ===== *)
theory Icmp_Service
  imports Icmp_Codec Engined_State
begin

text \<open>
  The service of \<^verbatim>\<open>probed\<close> that finds out which devices answer a ping
  (\<^verbatim>\<open>probed/service/status/icmp/IcmpService.cpp\<close>) with its events, its actions and the part of
  \<^verbatim>\<open>ProbedServiceManager\<close>'s two queues that is its own. The handlers of the other services neither
  read nor change its state and no handler posts an event, so leaving their entries out of the
  queues keeps the order its own have. \<^verbatim>\<open>inet_pton\<close> is a parameter that gives the address in host order.
\<close>

subsection \<open>Configuration\<close>

text \<open>An exception that leaves a handler ends the daemon.\<close>

datatype probe_error = ProbeJson json_error | InvalidIpv4 string

definition config_value :: "json_error + 'a \<Rightarrow> probe_error + 'a" where
  "config_value = map_sum ProbeJson id"

definition probeConfig :: "config \<Rightarrow> json" where
  "probeConfig c = cfg_section ''pretzel'' ''probe'' c"

text \<open>The \<^verbatim>\<open>int\<close> becomes a \<^verbatim>\<open>size_t\<close>.\<close>

definition probeBatchSize :: "config \<Rightarrow> probe_error + nat" where
  "probeBatchSize c =
     config_value (map_sum id (\<lambda>i. nat (i mod 2 ^ 64)) (jvalue get_i32 ''batch_size'' 32 (probeConfig c)))"

definition probeBatchInterval :: "config \<Rightarrow> probe_error + time" where
  "probeBatchInterval c =
     config_value (map_sum id milliseconds (jvalue get_i32 ''batch_interval_ms'' 20 (probeConfig c)))"

definition replyIdleTimeout :: "config \<Rightarrow> probe_error + time" where
  "replyIdleTimeout c =
     config_value (map_sum id seconds (jvalue get_i32 ''reply_idle_timeout_sec'' 5 (probeConfig c)))"

definition replyMaxWaitTimeout :: "config \<Rightarrow> probe_error + time" where
  "replyMaxWaitTimeout c =
     config_value (map_sum id seconds (jvalue get_i32 ''reply_max_wait_timeout_sec'' 15 (probeConfig c)))"

fun split_commas :: "string \<Rightarrow> string \<Rightarrow> string list" where
  "split_commas token [] = (if token = [] then [] else [token])"
| "split_commas token (ch # rest) =
     (if ch = CHR '','' then token # split_commas [] rest else split_commas (token @ [ch]) rest)"

definition is_blank :: "char \<Rightarrow> bool" where
  "is_blank ch \<longleftrightarrow> ch = CHR '' '' \<or> ch = CHR 0x09"

definition trim :: "string \<Rightarrow> string" where
  "trim s = rev (dropWhile is_blank (rev (dropWhile is_blank s)))"

definition probeExcludedIps :: "config \<Rightarrow> probe_error + string list" where
  "probeExcludedIps c =
     config_value (map_sum id (\<lambda>raw. map trim (filter (\<lambda>t. \<exists>ch \<in> set t. \<not> is_blank ch) (split_commas [] raw)))
       (jvalue get_str ''excluded_ips'' [] (probeConfig c)))"

fun collect_explicit :: "json list \<Rightarrow> json_error + string list" where
  "collect_explicit [] = Inr []"
| "collect_explicit (t # rest) =
     (if \<not> is_object t then collect_explicit rest
      else bind_err (jvalue get_str ''target'' [] t) (\<lambda>target.
        map_sum id (\<lambda>ips. if target = [] then ips else target # ips) (collect_explicit rest)))"

definition probeExplicitTargets :: "config \<Rightarrow> probe_error + string list" where
  "probeExplicitTargets c =
     config_value (bind_err (jvalue get_json ''ngfw_devices'' (JArr []) (cfg_section ''pretzel'' ''site'' c))
       (\<lambda>devices. collect_explicit (jiterate devices)))"

subsection \<open>State\<close>

datatype probe_phase = PrInit | PrIdle | PrSending | PrWaitingReplies

datatype icmp_event =
    IcUnknown | IcStartProbe | IcSendProbeBatch | IcEchoReply string "icmp_packet option" | IcProbeCompleted

datatype icmp_action = IcActUnknown | IcActStartProbe | IcActSendProbeBatch | IcActSendProbeResult

record probe_target =
  pt_ip :: string
  pt_sequence :: u16
  pt_alive :: bool

record probe =
  pr_state :: probe_phase
  pr_targets :: "probe_target list"
  pr_targetIndexByIp :: "(string \<times> nat) list"
  pr_localIps :: "string list"
  pr_nextSendIndex :: nat
  pr_probeStartedAt :: time
  pr_lastBatchSentAt :: time
  pr_waitingStartedAt :: time
  pr_lastProbeCompletedAt :: time
  pr_lastReplyAt :: time
  pr_identifier :: u16
  pr_lastAliveCount :: u32
  pr_events :: "icmp_event list"
  pr_actions :: "icmp_action list"
  pr_tx :: "ipc_message list"
  pr_icmpTx :: "(icmp_packet \<times> string) list"

definition probe_new :: probe where
  "probe_new =
     \<lparr>pr_state = PrInit, pr_targets = [], pr_targetIndexByIp = [], pr_localIps = [], pr_nextSendIndex = 0,
      pr_probeStartedAt = 0, pr_lastBatchSentAt = 0, pr_waitingStartedAt = 0, pr_lastProbeCompletedAt = 0,
      pr_lastReplyAt = 0, pr_identifier = 0, pr_lastAliveCount = 0, pr_events = [], pr_actions = [],
      pr_tx = [], pr_icmpTx = []\<rparr>"

definition pr_postEvent :: "icmp_event option \<Rightarrow> probe \<Rightarrow> probe" where
  "pr_postEvent e s = (case e of None \<Rightarrow> s | Some e \<Rightarrow> s\<lparr>pr_events := pr_events s @ [e]\<rparr>)"

definition pr_postAction :: "icmp_action \<Rightarrow> probe \<Rightarrow> probe" where
  "pr_postAction a s = s\<lparr>pr_actions := pr_actions s @ [a]\<rparr>"

definition probe_start :: "config \<Rightarrow> probe \<Rightarrow> probe_error + probe" where
  "probe_start c s =
     map_sum id (\<lambda>ips. s\<lparr>pr_state := PrIdle, pr_localIps := remdups ips\<rparr>) (probeExcludedIps c)"

subsection \<open>Scheduling\<close>

definition allProbeSent :: "probe \<Rightarrow> bool" where
  "allProbeSent s \<longleftrightarrow> pr_nextSendIndex s \<ge> length (pr_targets s)"

definition canAcceptReply :: "probe \<Rightarrow> bool" where
  "canAcceptReply s \<longleftrightarrow> pr_state s = PrSending \<or> pr_state s = PrWaitingReplies"

definition replyWaitExpired :: "config \<Rightarrow> time \<Rightarrow> probe \<Rightarrow> probe_error + bool" where
  "replyWaitExpired c now s =
     (let idleElapsed = to_ms (now - pr_lastReplyAt s);
          maxElapsed = to_ms (now - pr_waitingStartedAt s) in
      bind_err (replyIdleTimeout c) (\<lambda>idle.
        bind_err (replyMaxWaitTimeout c) (\<lambda>most.
          Inr (milliseconds idleElapsed \<ge> idle \<or> milliseconds maxElapsed \<ge> most))))"

definition probe_schedule :: "config \<Rightarrow> time \<Rightarrow> probe \<Rightarrow> probe_error + icmp_event option \<times> probe" where
  "probe_schedule c now s =
     (case pr_state s of
        PrInit \<Rightarrow> Inr (None, s)
      | PrIdle \<Rightarrow> Inr (None, s)
      | PrSending \<Rightarrow>
          if \<not> allProbeSent s
          then bind_err (probeBatchInterval c) (\<lambda>interval.
            if now - pr_lastBatchSentAt s \<ge> interval then Inr (Some IcSendProbeBatch, s) else Inr (None, s))
          else Inr (None, s\<lparr>pr_waitingStartedAt := now, pr_lastReplyAt := now, pr_state := PrWaitingReplies\<rparr>)
      | PrWaitingReplies \<Rightarrow>
          bind_err (replyWaitExpired c now s) (\<lambda>expired.
            if expired then Inr (Some IcProbeCompleted, s) else Inr (None, s)))"

subsection \<open>A session\<close>

text \<open>The loop that keeps the first of equal addresses and none that is excluded.\<close>

fun collect_targets :: "string list \<Rightarrow> string list \<Rightarrow> string list \<Rightarrow> probe_target list" where
  "collect_targets local seen [] = []"
| "collect_targets local seen (ip # ips) =
     (if ip \<in> set local \<or> ip \<in> set seen then collect_targets local seen ips
      else \<lparr>pt_ip = ip, pt_sequence = 0, pt_alive = False\<rparr> # collect_targets local (ip # seen) ips)"

text \<open>The loop that numbers the targets from \<open>i\<close> on and enters them into the index (\<^verbatim>\<open>emplace\<close>).\<close>

fun number_targets :: "nat \<Rightarrow> probe_target list \<Rightarrow> (string \<times> nat) list \<Rightarrow> probe_target list \<times> (string \<times> nat) list" where
  "number_targets i [] index = ([], index)"
| "number_targets i (t # ts) index =
     (let index = (if map_of index (pt_ip t) = None then index @ [(pt_ip t, i)] else index);
          (ts', index') = number_targets (i + 1) ts index in
      (t\<lparr>pt_sequence := of_nat (i + 1), pt_alive := False\<rparr> # ts', index'))"

definition beginProbeSession :: "config \<Rightarrow> int \<Rightarrow> time \<Rightarrow> probe \<Rightarrow> probe_error + probe" where
  "beginProbeSession c pid now s =
     (let s = s\<lparr>pr_identifier := of_int pid\<rparr> in
      bind_err (probeExplicitTargets c) (\<lambda>explicitIps.
        let s = s\<lparr>pr_targets := [], pr_targetIndexByIp := [], pr_nextSendIndex := 0\<rparr> in
        if explicitIps = [] then Inr (s\<lparr>pr_lastAliveCount := 0, pr_state := PrIdle\<rparr>)
        else
          let (ts, index) = number_targets 0 (collect_targets (pr_localIps s) [] explicitIps) [];
              s = s\<lparr>pr_targets := ts, pr_targetIndexByIp := index, pr_nextSendIndex := 0\<rparr> in
          bind_err (probeBatchInterval c) (\<lambda>interval.
            Inr (s\<lparr>pr_probeStartedAt := now, pr_lastBatchSentAt := now - interval,
              pr_waitingStartedAt := 0, pr_lastReplyAt := 0, pr_state := PrSending\<rparr>))))"

definition probe_payload :: bytes where
  "probe_payload = bytes_of_string ''pz-probed-probe''"

definition buildEchoRequestPacket :: "u16 \<Rightarrow> probe \<Rightarrow> icmp_packet" where
  "buildEchoRequestPacket sequence s =
     \<lparr>ip_header = buildEchoRequest (pr_identifier s) sequence, ip_payload = probe_payload\<rparr>"

text \<open>The batch size is read before each request but the first that is not due.\<close>

function send_loop :: "config \<Rightarrow> nat \<Rightarrow> probe \<Rightarrow> probe_error + probe" where
  "send_loop c sentCount s =
     (if pr_nextSendIndex s < length (pr_targets s) then
        bind_err (probeBatchSize c) (\<lambda>size.
          if sentCount < size then
            (let target = pr_targets s ! pr_nextSendIndex s;
                 packet = buildEchoRequestPacket (pt_sequence target) s in
             send_loop c (sentCount + 1)
               (s\<lparr>pr_icmpTx := pr_icmpTx s @ [(packet, pt_ip target)],
                 pr_nextSendIndex := pr_nextSendIndex s + 1\<rparr>))
          else Inr s)
      else Inr s)"
  by auto
termination by (relation "measure (\<lambda>(c, n, s). length (pr_targets s) - pr_nextSendIndex s)") auto

declare send_loop.simps [simp del]

definition sendProbeBatch :: "config \<Rightarrow> time \<Rightarrow> probe \<Rightarrow> probe_error + probe" where
  "sendProbeBatch c now s = map_sum id (\<lambda>s. s\<lparr>pr_lastBatchSentAt := now\<rparr>) (send_loop c 0 s)"

definition onEchoReply :: "time \<Rightarrow> string \<Rightarrow> icmp_packet option \<Rightarrow> probe \<Rightarrow> probe" where
  "onEchoReply now srcIp packet s =
     (case map_of (pr_targetIndexByIp s) srcIp of
        None \<Rightarrow> s
      | Some i \<Rightarrow>
          if \<not> canAcceptReply s then s
          else case packet of
            None \<Rightarrow> s
          | Some p \<Rightarrow>
              let target = pr_targets s ! i in
              if ih_identifier (ip_header p) \<noteq> pr_identifier s then s
              else if ih_sequence (ip_header p) \<noteq> pt_sequence target then s
              else
                let s = s\<lparr>pr_lastReplyAt := now\<rparr> in
                if pt_alive target then s
                else s\<lparr>pr_targets := (pr_targets s)[i := target\<lparr>pt_alive := True\<rparr>]\<rparr>)"

text \<open>
  The sorted list of the addresses that answered is only counted and logged; the comparison throws
  for an address \<^verbatim>\<open>inet_pton\<close> refuses, and sorting two or more compares every one of them.
\<close>

definition aliveIps :: "probe \<Rightarrow> string list" where
  "aliveIps s = map pt_ip (filter pt_alive (pr_targets s))"

definition ipv4ToHostU32 :: "(string \<Rightarrow> u32 option) \<Rightarrow> string \<Rightarrow> probe_error + u32" where
  "ipv4ToHostU32 pton ip = (case pton ip of None \<Rightarrow> Inl (InvalidIpv4 ip) | Some a \<Rightarrow> Inr a)"

fun check_ips :: "(string \<Rightarrow> u32 option) \<Rightarrow> string list \<Rightarrow> probe_error + unit" where
  "check_ips pton [] = Inr ()"
| "check_ips pton (ip # ips) = bind_err (ipv4ToHostU32 pton ip) (\<lambda>_. check_ips pton ips)"

definition completeProbeSession :: "(string \<Rightarrow> u32 option) \<Rightarrow> time \<Rightarrow> probe \<Rightarrow> probe_error + probe" where
  "completeProbeSession pton now s =
     (if pr_state s \<noteq> PrWaitingReplies then Inr s
      else bind_err (if length (aliveIps s) < 2 then Inr () else check_ips pton (aliveIps s)) (\<lambda>_.
        Inr (s\<lparr>pr_lastAliveCount := of_nat (length (aliveIps s)), pr_lastProbeCompletedAt := now,
          pr_state := PrIdle\<rparr>)))"

definition probe_result_json :: "u32 \<Rightarrow> string list \<Rightarrow> json" where
  "probe_result_json alive ips =
     JObj [(''alive'', JInt (uint alive)), (''ips'', JArr (map JStr ips))]"

definition probe_result :: "jlib \<Rightarrow> u32 \<Rightarrow> string list \<Rightarrow> ipc_message" where
  "probe_result L alive ips =
     mk_message DProbed DEngined CmdProbeResult 0 (toFlag FlagResponse) (jl_dump L (probe_result_json alive ips))"

definition sendProbeResult :: "jlib \<Rightarrow> probe \<Rightarrow> probe" where
  "sendProbeResult L s = s\<lparr>pr_tx := pr_tx s @ [probe_result L (pr_lastAliveCount s) (aliveIps s)]\<rparr>"

subsection \<open>Events and actions\<close>

text \<open>What the outside answers a handler: the process id and \<^verbatim>\<open>inet_pton\<close>.\<close>

record probe_env =
  pe_pid :: int
  pe_pton :: "string \<Rightarrow> u32 option"

fun probe_handleEvent :: "probe_env \<Rightarrow> time \<Rightarrow> icmp_event \<Rightarrow> probe \<Rightarrow> probe_error + probe" where
  "probe_handleEvent env now IcStartProbe s = Inr (pr_postAction IcActStartProbe s)"
| "probe_handleEvent env now IcSendProbeBatch s = Inr (pr_postAction IcActSendProbeBatch s)"
| "probe_handleEvent env now (IcEchoReply srcIp packet) s = Inr (onEchoReply now srcIp packet s)"
| "probe_handleEvent env now IcProbeCompleted s =
     map_sum id (pr_postAction IcActSendProbeResult) (completeProbeSession (pe_pton env) now s)"
| "probe_handleEvent env now IcUnknown s = Inr s"

fun probe_handleAction :: "jlib \<Rightarrow> config \<Rightarrow> probe_env \<Rightarrow> time \<Rightarrow> icmp_action \<Rightarrow> probe \<Rightarrow> probe_error + probe" where
  "probe_handleAction L c env now IcActStartProbe s =
     (if pr_state s = PrSending \<or> pr_state s = PrWaitingReplies then Inr s
      else map_sum id (\<lambda>s. if pr_targets s = [] then pr_postAction IcActSendProbeResult s else s)
        (beginProbeSession c (pe_pid env) now s))"
| "probe_handleAction L c env now IcActSendProbeBatch s =
     (if pr_state s \<noteq> PrSending then Inr s else sendProbeBatch c now s)"
| "probe_handleAction L c env now IcActSendProbeResult s = Inr (sendProbeResult L s)"
| "probe_handleAction L c env now IcActUnknown s = Inr s"

text \<open>
  The queues are run empty, events first; the clock is read by its \<open>n\<close>-th reading in the tick.
  An event adds at most one action, and only starting a session adds one from an action.
\<close>

definition probe_dispatch :: "jlib \<Rightarrow> config \<Rightarrow> probe_env \<Rightarrow> time \<Rightarrow> probe \<Rightarrow> (probe_error + probe) option" where
  "probe_dispatch L c env now s =
     (case pr_events s of
        e # es \<Rightarrow> Some (probe_handleEvent env now e (s\<lparr>pr_events := es\<rparr>))
      | [] \<Rightarrow>
         (case pr_actions s of
            a # as \<Rightarrow> Some (probe_handleAction L c env now a (s\<lparr>pr_actions := as\<rparr>))
          | [] \<Rightarrow> None))"

definition action_weight :: "icmp_action \<Rightarrow> nat" where
  "action_weight a = (if a = IcActStartProbe then 2 else 1)"

definition probe_weight :: "probe \<Rightarrow> nat" where
  "probe_weight s = 3 * length (pr_events s) + sum_list (map action_weight (pr_actions s))"

lemma send_loop_frame:
  "send_loop c n s = Inr s' \<Longrightarrow>
     s' = s\<lparr>pr_icmpTx := pr_icmpTx s', pr_nextSendIndex := pr_nextSendIndex s'\<rparr>"
proof (induction c n s rule: send_loop.induct)
  case (1 c n s)
  show ?case
  proof (cases "pr_nextSendIndex s < length (pr_targets s)")
    case True
    with "1.prems" obtain size where size: "probeBatchSize c = Inr size"
      by (subst (asm) send_loop.simps) (auto simp: bind_err_Inr_iff)
    show ?thesis
    proof (cases "n < size")
      case t: True
      from "1.prems" True size t have "send_loop c (n + 1) (s\<lparr>pr_icmpTx := pr_icmpTx s @
          [(buildEchoRequestPacket (pt_sequence (pr_targets s ! pr_nextSendIndex s)) s, pt_ip (pr_targets s ! pr_nextSendIndex s))],
        pr_nextSendIndex := pr_nextSendIndex s + 1\<rparr>) = Inr s'"
        by (subst (asm) send_loop.simps) (simp add: Let_def)
      from "1.IH" [OF True t refl refl this] show ?thesis by simp
    qed (use "1.prems" True size in \<open>subst (asm) send_loop.simps, simp\<close>)
  qed (use "1.prems" in \<open>subst (asm) send_loop.simps, simp\<close>)
qed

lemma send_loop_keeps:
  assumes "send_loop c n s = Inr s'"
  shows "pr_events s' = pr_events s" "pr_actions s' = pr_actions s" "pr_state s' = pr_state s"
    "pr_targets s' = pr_targets s" "pr_targetIndexByIp s' = pr_targetIndexByIp s" "pr_localIps s' = pr_localIps s"
    "pr_tx s' = pr_tx s" "pr_identifier s' = pr_identifier s" "pr_lastAliveCount s' = pr_lastAliveCount s"
  by (subst send_loop_frame [OF assms], simp)+

lemma onEchoReply_frame: "onEchoReply now ip p s =
    s\<lparr>pr_targets := pr_targets (onEchoReply now ip p s), pr_lastReplyAt := pr_lastReplyAt (onEchoReply now ip p s)\<rparr>"
  by (simp add: onEchoReply_def Let_def split: option.split)

lemma onEchoReply_queues [simp]:
  "pr_events (onEchoReply now ip p s) = pr_events s" "pr_actions (onEchoReply now ip p s) = pr_actions s"
  by (subst onEchoReply_frame, simp)+

lemma handleEvent_queues:
  assumes "probe_handleEvent env now e s = Inr s'"
  shows "pr_events s' = pr_events s \<and> (\<exists>as. pr_actions s' = pr_actions s @ as \<and> sum_list (map action_weight as) \<le> 2)"
  using assms
  by (cases e) (auto simp: pr_postAction_def action_weight_def completeProbeSession_def bind_err_Inr_iff
      map_sum_Inr_iff split: if_splits)

lemma begin_cases:
  assumes "beginProbeSession c pid now s = Inr s'"
  obtains (none) "probeExplicitTargets c = Inr []"
      "s' = s\<lparr>pr_identifier := of_int pid, pr_targets := [], pr_targetIndexByIp := [], pr_nextSendIndex := 0,
        pr_lastAliveCount := 0, pr_state := PrIdle\<rparr>"
    | (session) ips interval where "probeExplicitTargets c = Inr ips" "ips \<noteq> []" "probeBatchInterval c = Inr interval"
      "s' = s\<lparr>pr_identifier := of_int pid,
        pr_targets := fst (number_targets 0 (collect_targets (pr_localIps s) [] ips) []),
        pr_targetIndexByIp := snd (number_targets 0 (collect_targets (pr_localIps s) [] ips) []),
        pr_nextSendIndex := 0, pr_probeStartedAt := now, pr_lastBatchSentAt := now - interval,
        pr_waitingStartedAt := 0, pr_lastReplyAt := 0, pr_state := PrSending\<rparr>"
proof -
  let ?s = "s\<lparr>pr_identifier := of_int pid, pr_targets := [], pr_targetIndexByIp := [], pr_nextSendIndex := 0\<rparr>"
  obtain ips where ips: "probeExplicitTargets c = Inr ips"
    using assms by (auto simp: beginProbeSession_def Let_def bind_err_Inr_iff)
  show thesis
  proof (cases "ips = []")
    case True
    with assms ips show thesis by (intro none) (simp_all add: beginProbeSession_def)
  next
    case False
    with assms ips obtain interval where "probeBatchInterval c = Inr interval"
      by (auto simp: beginProbeSession_def bind_err_Inr_iff split: prod.splits)
    with assms ips False show thesis
      by (intro session) (auto simp: beginProbeSession_def case_prod_beta Let_def)
  qed
qed

lemma handleAction_queues:
  assumes "probe_handleAction L c env now a s = Inr s'"
  shows "pr_events s' = pr_events s \<and>
    (\<exists>as. pr_actions s' = pr_actions s @ as \<and> sum_list (map action_weight as) < action_weight a)"
proof (cases a)
  case IcActStartProbe
  show ?thesis
  proof (cases "pr_state s = PrSending \<or> pr_state s = PrWaitingReplies")
    case False
    with assms IcActStartProbe obtain s1 where s1: "beginProbeSession c (pe_pid env) now s = Inr s1"
      "s' = (if pr_targets s1 = [] then pr_postAction IcActSendProbeResult s1 else s1)"
      by (auto simp: map_sum_Inr_iff)
    from s1(1) have "pr_events s1 = pr_events s \<and> pr_actions s1 = pr_actions s"
      by (rule begin_cases) simp_all
    with s1(2) IcActStartProbe show ?thesis by (simp add: pr_postAction_def action_weight_def)
  qed (use assms IcActStartProbe in \<open>auto simp: action_weight_def\<close>)
next
  case IcActSendProbeBatch
  with assms show ?thesis
    by (auto simp: sendProbeBatch_def action_weight_def map_sum_Inr_iff send_loop_keeps split: if_splits)
qed (use assms in \<open>auto simp: sendProbeResult_def action_weight_def\<close>)

lemma probe_dispatch_weight:
  assumes "probe_dispatch L c env now s = Some (Inr s')"
  shows "probe_weight s' < probe_weight s"
proof (cases "pr_events s")
  case Nil
  with assms obtain a as where a: "pr_actions s = a # as"
    "probe_handleAction L c env now a (s\<lparr>pr_actions := as\<rparr>) = Inr s'"
    by (auto simp: probe_dispatch_def split: list.splits)
  from handleAction_queues [OF a(2)] a(1) Nil show ?thesis by (auto simp: probe_weight_def)
next
  case (Cons e es)
  with assms have "probe_handleEvent env now e (s\<lparr>pr_events := es\<rparr>) = Inr s'" by (simp add: probe_dispatch_def)
  from handleEvent_queues [OF this] Cons show ?thesis by (auto simp: probe_weight_def)
qed

function probe_execute :: "jlib \<Rightarrow> config \<Rightarrow> probe_env \<Rightarrow> (nat \<Rightarrow> time) \<Rightarrow> nat \<Rightarrow> probe \<Rightarrow> probe_error + probe" where
  "probe_execute L c env clock n s =
     (case probe_dispatch L c env (clock n) s of
        None \<Rightarrow> Inr s
      | Some (Inl e) \<Rightarrow> Inl e
      | Some (Inr s') \<Rightarrow> probe_execute L c env clock (n + 1) s')"
  by auto
termination
  by (relation "measure (\<lambda>(L, c, env, clock, n, s). probe_weight s)") (auto intro: probe_dispatch_weight)

declare probe_execute.simps [simp del]

text \<open>
  One turn of the loop: what the two engines received becomes events (\<^verbatim>\<open>ProbedEventFactory\<close>), the
  scheduler runs once the bootstrap is over, and the queues are run empty.
\<close>

datatype probe_input = InProbeRequest | InPacket string icmp_packet

definition icmp_create :: "string \<Rightarrow> icmp_packet \<Rightarrow> icmp_event option" where
  "icmp_create srcIp packet =
     (if ih_type (ip_header packet) = EchoReply then Some (IcEchoReply srcIp (Some packet)) else None)"

fun probe_receive :: "probe_input \<Rightarrow> probe \<Rightarrow> probe" where
  "probe_receive InProbeRequest s = pr_postEvent (Some IcStartProbe) s"
| "probe_receive (InPacket srcIp packet) s = pr_postEvent (icmp_create srcIp packet) s"

record probe_turn =
  tn_ready :: bool
  tn_cfg :: config
  tn_clock :: "nat \<Rightarrow> time"
  tn_inputs :: "probe_input list"

definition probe_tick :: "jlib \<Rightarrow> probe_env \<Rightarrow> probe_turn \<Rightarrow> probe \<Rightarrow> probe_error + probe" where
  "probe_tick L env t s =
     (let s = fold probe_receive (tn_inputs t) s in
      bind_err (if tn_ready t
                then map_sum id (\<lambda>(event, s). pr_postEvent event s) (probe_schedule (tn_cfg t) (tn_clock t 0) s)
                else Inr s)
        (probe_execute L (tn_cfg t) env (tn_clock t) 1))"

end
