(* ===== verification/Icmp_Sessions.thy ===== *)
theory Icmp_Sessions
  imports Icmp_Service
begin

text \<open>
  The probe service of \<^verbatim>\<open>probed\<close> over time: the shape of its state, which replies count, that a
  session ends, and what is reported of it; last, three ways in which the report goes wrong.
\<close>

subsection \<open>Shape of the state\<close>

text \<open>
  The targets have different addresses, none of them excluded, and are numbered from one; the index
  gives the position of each, and no more requests were sent than there are targets.
\<close>

definition numbered :: "nat \<Rightarrow> probe_target list \<Rightarrow> bool" where
  "numbered k ts \<longleftrightarrow> map pt_sequence ts = map (\<lambda>i. of_nat (i + 1)) [k..<k + length ts]"

definition probe_ok :: "probe \<Rightarrow> bool" where
  "probe_ok s \<longleftrightarrow> distinct (map pt_ip (pr_targets s)) \<and>
     pr_targetIndexByIp s = zip (map pt_ip (pr_targets s)) [0..<length (pr_targets s)] \<and>
     numbered 0 (pr_targets s) \<and> pr_nextSendIndex s \<le> length (pr_targets s) \<and>
     set (map pt_ip (pr_targets s)) \<inter> set (pr_localIps s) = {}"

lemma collect_targets_ips:
  "distinct (map pt_ip (collect_targets local seen ips)) \<and>
   set (map pt_ip (collect_targets local seen ips)) = set ips - set local - set seen"
  by (induction local seen ips rule: collect_targets.induct) auto

lemma collect_targets_dead: "t \<in> set (collect_targets local seen ips) \<Longrightarrow> \<not> pt_alive t"
  by (induction local seen ips rule: collect_targets.induct) (auto split: if_splits)

lemma number_targets_eq:
  assumes "distinct (map pt_ip ts)" and "fst ` set index \<inter> pt_ip ` set ts = {}"
  shows "map pt_ip (fst (number_targets k ts index)) = map pt_ip ts \<and>
    numbered k (fst (number_targets k ts index)) \<and>
    snd (number_targets k ts index) = index @ zip (map pt_ip ts) [k..<k + length ts] \<and>
    (\<forall>t \<in> set (fst (number_targets k ts index)). \<not> pt_alive t)"
  using assms
proof (induction ts arbitrary: k index)
  case (Cons t ts)
  let ?index = "index @ [(pt_ip t, k)]"
  let ?r = "number_targets (k + 1) ts ?index"
  have new: "map_of index (pt_ip t) = None" using Cons.prems(2) by (auto simp: map_of_eq_None_iff)
  have "fst ` set ?index \<inter> pt_ip ` set ts = {}" using Cons.prems by auto
  note IH = Cons.IH [OF _ this, of "k + 1"]
  have r: "number_targets k (t # ts) index =
      (t\<lparr>pt_sequence := of_nat (k + 1), pt_alive := False\<rparr> # fst ?r, snd ?r)"
    using new by (simp add: case_prod_beta Let_def)
  have upt: "[k..<k + length (t # ts)] = k # [k + 1..<k + 1 + length ts]"
    by (subst upt_conv_Cons) simp_all
  have "length (fst ?r) = length ts" using IH Cons.prems(1) by (metis distinct.simps(2) length_map list.simps(9))
  then show ?case
    using IH Cons.prems(1) upt unfolding r by (simp add: numbered_def del: upt_Suc)
qed (simp add: numbered_def)

lemma index_lookup:
  assumes "probe_ok s" and "map_of (pr_targetIndexByIp s) ip = Some i"
  shows "i < length (pr_targets s)" and "pt_ip (pr_targets s ! i) = ip"
proof -
  from assms have "(ip, i) \<in> set (zip (map pt_ip (pr_targets s)) [0..<length (pr_targets s)])"
    by (metis map_of_SomeD probe_ok_def)
  then show "i < length (pr_targets s)" and "pt_ip (pr_targets s ! i) = ip"
    by (auto simp: in_set_zip)
qed

lemma probe_ok_begin:
  assumes "beginProbeSession c pid now s = Inr s'"
  shows "probe_ok s' \<and> (\<forall>t \<in> set (pr_targets s'). \<not> pt_alive t)"
  using assms
proof (cases rule: begin_cases)
  case (session ips interval)
  let ?ts = "collect_targets (pr_localIps s) [] ips"
  have d: "distinct (map pt_ip ?ts)" "set (map pt_ip ?ts) = set ips - set (pr_localIps s) - set []"
    using collect_targets_ips by blast+
  from number_targets_eq [OF d(1), of "[]" 0]
  have n: "map pt_ip (pr_targets s') = map pt_ip ?ts" "numbered 0 (pr_targets s')"
    "pr_targetIndexByIp s' = zip (map pt_ip ?ts) [0..<length ?ts]" "\<forall>t \<in> set (pr_targets s'). \<not> pt_alive t"
    by (simp_all add: session(4))
  moreover have "length (pr_targets s') = length ?ts" by (metis n(1) length_map)
  moreover have "set (map pt_ip (pr_targets s')) \<inter> set (pr_localIps s) = {}"
    unfolding n(1) d(2) by blast
  ultimately show ?thesis
    using d(1) by (simp add: probe_ok_def session(4) del: set_map)
qed (simp add: probe_ok_def numbered_def)

lemma probe_ok_same:
  assumes "probe_ok s" and "pr_targets s' = pr_targets s" and "pr_targetIndexByIp s' = pr_targetIndexByIp s"
    and "pr_nextSendIndex s' = pr_nextSendIndex s" and "pr_localIps s' = pr_localIps s"
  shows "probe_ok s'"
  using assms by (simp add: probe_ok_def)

lemma reply_targets:
  "pr_targets (onEchoReply now ip p s) = pr_targets s \<or>
   (\<exists>i q. map_of (pr_targetIndexByIp s) ip = Some i \<and> p = Some q \<and>
      ih_identifier (ip_header q) = pr_identifier s \<and> ih_sequence (ip_header q) = pt_sequence (pr_targets s ! i) \<and>
      pr_targets (onEchoReply now ip p s) = (pr_targets s)[i := (pr_targets s ! i)\<lparr>pt_alive := True\<rparr>])"
  by (auto simp: onEchoReply_def Let_def split: option.split)

lemma reply_keeps:
  "pr_targetIndexByIp (onEchoReply now ip p s) = pr_targetIndexByIp s"
  "pr_nextSendIndex (onEchoReply now ip p s) = pr_nextSendIndex s"
  "pr_localIps (onEchoReply now ip p s) = pr_localIps s" "pr_state (onEchoReply now ip p s) = pr_state s"
  "pr_identifier (onEchoReply now ip p s) = pr_identifier s" "pr_tx (onEchoReply now ip p s) = pr_tx s"
  "pr_icmpTx (onEchoReply now ip p s) = pr_icmpTx s" "pr_lastAliveCount (onEchoReply now ip p s) = pr_lastAliveCount s"
  "pr_waitingStartedAt (onEchoReply now ip p s) = pr_waitingStartedAt s"
  "pr_lastBatchSentAt (onEchoReply now ip p s) = pr_lastBatchSentAt s"
  by (subst onEchoReply_frame, simp)+

lemma mark_same:
  assumes "f (ts ! i) = f (t :: probe_target)"
  shows "map f (ts[i := t]) = map f ts"
  using assms by (metis list_update_beyond list_update_id map_update nth_map not_le)

lemma probe_ok_reply:
  assumes "probe_ok s"
  shows "probe_ok (onEchoReply now ip p s)"
proof -
  have "map pt_ip (pr_targets (onEchoReply now ip p s)) = map pt_ip (pr_targets s) \<and>
      numbered 0 (pr_targets (onEchoReply now ip p s))"
    using reply_targets [of now ip p s] assms
    by (auto simp: mark_same probe_ok_def numbered_def)
  moreover from this have "length (pr_targets (onEchoReply now ip p s)) = length (pr_targets s)"
    by (metis length_map)
  ultimately show ?thesis
    using assms by (simp add: probe_ok_def reply_keeps del: set_map)
qed

text \<open>The loop sends to the next targets in order, at most as many as the batch size allows.\<close>

lemma send_loop_sent:
  assumes "send_loop c n s = Inr s'" and "probeBatchSize c = Inr batch"
    and "k = min (batch - n) (length (pr_targets s) - pr_nextSendIndex s)"
  shows "pr_nextSendIndex s' = pr_nextSendIndex s + k \<and>
    pr_icmpTx s' = pr_icmpTx s @ map (\<lambda>t. (buildEchoRequestPacket (pt_sequence t) s, pt_ip t))
      (take k (drop (pr_nextSendIndex s) (pr_targets s)))"
  using assms
proof (induction c n s arbitrary: k rule: send_loop.induct)
  case (1 c n s)
  show ?case
  proof (cases "pr_nextSendIndex s < length (pr_targets s) \<and> n < batch")
    case True
    let ?t = "pr_targets s ! pr_nextSendIndex s"
    let ?s = "s\<lparr>pr_icmpTx := pr_icmpTx s @ [(buildEchoRequestPacket (pt_sequence ?t) s, pt_ip ?t)],
      pr_nextSendIndex := pr_nextSendIndex s + 1\<rparr>"
    have run: "send_loop c (n + 1) ?s = Inr s'"
      using "1.prems"(1,2) True by (subst (asm) send_loop.simps) (simp add: Let_def)
    have m: "k = Suc (k - 1)" using "1.prems"(3) True by simp
    have d: "drop (pr_nextSendIndex s) (pr_targets s) = ?t # drop (pr_nextSendIndex s + 1) (pr_targets s)"
      using True Cons_nth_drop_Suc by fastforce
    have "k - 1 = min (batch - (n + 1)) (length (pr_targets ?s) - pr_nextSendIndex ?s)"
      using "1.prems"(3) by (simp add: min_def)
    from "1.IH" [OF conjunct1 [OF True] conjunct2 [OF True] refl refl run "1.prems"(2) this] True show ?thesis
      by (subst (1 2) m) (simp add: d buildEchoRequestPacket_def)
  next
    case False
    then have "send_loop c n s = Inr s \<or> pr_nextSendIndex s < length (pr_targets s) \<and> send_loop c n s = Inr s"
      using "1.prems"(2) by (subst (1 2) send_loop.simps) auto
    then have "s' = s" using "1.prems"(1) by auto
    moreover have "k = 0" using False "1.prems"(3) by auto
    ultimately show ?thesis by simp
  qed
qed

lemma send_loop_ok: "probe_ok s \<Longrightarrow> send_loop c n s = Inr s' \<Longrightarrow> probe_ok s'"
proof (induction c n s rule: send_loop.induct)
  case (1 c n s)
  show ?case
  proof (cases "pr_nextSendIndex s < length (pr_targets s)")
    case True
    with "1.prems"(2) obtain batch where batch: "probeBatchSize c = Inr batch"
      by (subst (asm) send_loop.simps) (auto simp: bind_err_Inr_iff)
    from send_loop_sent [OF "1.prems"(2) batch refl] "1.prems" send_loop_keeps [OF "1.prems"(2)]
    show ?thesis by (auto simp: probe_ok_def send_loop_frame)
  qed (use "1.prems" in \<open>subst (asm) send_loop.simps, simp\<close>)
qed

subsection \<open>What the answers say\<close>

text \<open>
  A target counts as alive only for an echo reply that came from its address with the session's
  identifier and the target's number; the replies still waiting in the queue were received as well.
\<close>

definition answers :: "probe \<Rightarrow> probe_target \<Rightarrow> probe_input \<Rightarrow> bool" where
  "answers s t i \<longleftrightarrow> (case i of InProbeRequest \<Rightarrow> False
     | InPacket ip p \<Rightarrow> ip = pt_ip t \<and> ih_type (ip_header p) = EchoReply \<and>
         ih_identifier (ip_header p) = pr_identifier s \<and> ih_sequence (ip_header p) = pt_sequence t)"

definition event_of :: "probe_input list \<Rightarrow> icmp_event \<Rightarrow> bool" where
  "event_of tr e \<longleftrightarrow> (case e of
     IcEchoReply ip (Some p) \<Rightarrow> InPacket ip p \<in> set tr \<and> ih_type (ip_header p) = EchoReply
   | _ \<Rightarrow> True)"

definition probe_inv :: "probe_input list \<Rightarrow> probe \<Rightarrow> bool" where
  "probe_inv tr s \<longleftrightarrow> probe_ok s \<and> list_all (event_of tr) (pr_events s) \<and>
     (\<forall>t \<in> set (pr_targets s). pt_alive t \<longrightarrow> list_ex (answers s t) tr)"

lemma answers_cong: "pr_identifier s = pr_identifier s' \<Longrightarrow> answers s = answers s'"
  by (simp add: answers_def fun_eq_iff split: probe_input.split)

lemma probe_inv_frame:
  assumes "probe_inv tr s" and "pr_targets s' = pr_targets s" and "pr_targetIndexByIp s' = pr_targetIndexByIp s"
    and "pr_nextSendIndex s' = pr_nextSendIndex s" and "pr_localIps s' = pr_localIps s"
    and "pr_identifier s' = pr_identifier s" and "list_all (event_of tr) (pr_events s')"
  shows "probe_inv tr s'"
  using assms probe_ok_same [OF _ assms(2-5)] answers_cong [OF assms(6)] by (simp add: probe_inv_def)

lemma probe_ok_simps [simp]:
  "probe_ok (pr_postAction a s) \<longleftrightarrow> probe_ok s" "probe_ok (sendProbeResult L s) \<longleftrightarrow> probe_ok s"
  "probe_ok (s\<lparr>pr_actions := as\<rparr>) \<longleftrightarrow> probe_ok s" "probe_ok (s\<lparr>pr_events := es\<rparr>) \<longleftrightarrow> probe_ok s"
  "probe_ok (s\<lparr>pr_lastBatchSentAt := now\<rparr>) \<longleftrightarrow> probe_ok s"
  by (simp_all add: probe_ok_def pr_postAction_def sendProbeResult_def)

lemma probe_inv_simps [simp]:
  "probe_inv tr (pr_postAction a s) \<longleftrightarrow> probe_inv tr s" "probe_inv tr (sendProbeResult L s) \<longleftrightarrow> probe_inv tr s"
  "probe_inv tr (s\<lparr>pr_actions := as\<rparr>) \<longleftrightarrow> probe_inv tr s"
  "probe_inv tr (s\<lparr>pr_lastBatchSentAt := now\<rparr>) \<longleftrightarrow> probe_inv tr s"
  using answers_cong [of "pr_postAction a s" s] answers_cong [of "sendProbeResult L s" s]
    answers_cong [of "s\<lparr>pr_actions := as\<rparr>" s] answers_cong [of "s\<lparr>pr_lastBatchSentAt := now\<rparr>" s]
  by (simp_all add: probe_inv_def) (simp_all add: pr_postAction_def sendProbeResult_def)

lemma probe_inv_reply:
  assumes "probe_inv tr s" and "event_of tr (IcEchoReply ip p)"
  shows "probe_inv tr (onEchoReply now ip p s)"
proof -
  let ?s = "onEchoReply now ip p s"
  have same: "answers ?s = answers s" by (auto simp: fun_eq_iff answers_def reply_keeps split: probe_input.splits)
  have "\<forall>t \<in> set (pr_targets ?s). pt_alive t \<longrightarrow> list_ex (answers s t) tr"
    using reply_targets [of now ip p s]
  proof (elim disjE exE conjE)
    fix i q
    assume q: "map_of (pr_targetIndexByIp s) ip = Some i" "p = Some q"
      "ih_identifier (ip_header q) = pr_identifier s" "ih_sequence (ip_header q) = pt_sequence (pr_targets s ! i)"
      "pr_targets ?s = (pr_targets s)[i := (pr_targets s ! i)\<lparr>pt_alive := True\<rparr>]"
    have ok: "probe_ok s" using assms(1) by (simp add: probe_inv_def)
    have "answers s ((pr_targets s ! i)\<lparr>pt_alive := True\<rparr>) (InPacket ip q)"
      using q(2-4) index_lookup [OF ok q(1)] assms(2) by (simp add: answers_def event_of_def)
    moreover have "InPacket ip q \<in> set tr" using assms(2) q(2) by (simp add: event_of_def)
    ultimately show ?thesis
      using assms(1) q(5) by (auto simp: probe_inv_def list_ex_iff dest!: set_update_subset_insert [THEN subsetD])
  qed (use assms(1) in \<open>simp add: probe_inv_def\<close>)
  then show ?thesis
    using assms(1) probe_ok_reply by (simp add: probe_inv_def same)
qed

lemma complete_keeps:
  assumes "completeProbeSession pton now s = Inr s'"
  shows "pr_targets s' = pr_targets s" "pr_targetIndexByIp s' = pr_targetIndexByIp s"
    "pr_nextSendIndex s' = pr_nextSendIndex s" "pr_localIps s' = pr_localIps s" "pr_events s' = pr_events s"
    "pr_identifier s' = pr_identifier s" "pr_tx s' = pr_tx s" "pr_actions s' = pr_actions s"
  using assms by (auto simp: completeProbeSession_def bind_err_Inr_iff split: if_splits)

lemma probe_inv_event:
  assumes "probe_inv tr s" and "event_of tr e" and "probe_handleEvent env now e s = Inr s'"
  shows "probe_inv tr s'"
proof (cases e)
  case IcProbeCompleted
  with assms(3) obtain s1 where s1: "completeProbeSession (pe_pton env) now s = Inr s1"
    "s' = pr_postAction IcActSendProbeResult s1" by (auto simp: map_sum_Inr_iff)
  from complete_keeps [OF s1(1)] have "probe_inv tr s1"
    using assms(1) by (intro probe_inv_frame [OF assms(1)]) (simp_all add: probe_inv_def)
  then show ?thesis by (simp add: s1(2))
next
  case (IcEchoReply ip p)
  with assms(3) have "s' = onEchoReply now ip p s" by simp
  with probe_inv_reply [OF assms(1)] assms(2) IcEchoReply show ?thesis by simp
qed (use assms in auto)

lemma sendProbeBatch_cases:
  assumes "sendProbeBatch c now s = Inr s'"
  obtains s1 where "send_loop c 0 s = Inr s1" and "s' = s1\<lparr>pr_lastBatchSentAt := now\<rparr>"
  using assms by (auto simp: sendProbeBatch_def map_sum_Inr_iff)

lemma start_action_cases:
  assumes "probe_handleAction L c env now IcActStartProbe s = Inr s'"
  obtains (active) "canAcceptReply s" and "s' = s"
    | (fresh) s1 where "\<not> canAcceptReply s" and "beginProbeSession c (pe_pid env) now s = Inr s1"
        and "s' = (if pr_targets s1 = [] then pr_postAction IcActSendProbeResult s1 else s1)"
proof (cases "canAcceptReply s")
  case False
  with assms obtain s1 where "beginProbeSession c (pe_pid env) now s = Inr s1"
    "s' = (if pr_targets s1 = [] then pr_postAction IcActSendProbeResult s1 else s1)"
    by (auto simp: canAcceptReply_def map_sum_Inr_iff)
  with False show thesis by (intro fresh)
next
  case True
  then have "probe_handleAction L c env now IcActStartProbe s = Inr s" by (simp add: canAcceptReply_def)
  with assms have "s' = s" by simp
  with True show thesis by (rule active)
qed

lemma probe_inv_action:
  assumes "probe_inv tr s" and "probe_handleAction L c env now a s = Inr s'"
  shows "probe_inv tr s'"
proof (cases a)
  case IcActStartProbe
  with assms(2) have "probe_handleAction L c env now IcActStartProbe s = Inr s'" by simp
  then show ?thesis
  proof (cases rule: start_action_cases)
    case (fresh s1)
    have "pr_events s1 = pr_events s" by (rule begin_cases [OF fresh(2)]) simp_all
    with probe_ok_begin [OF fresh(2)] have "probe_inv tr s1" using assms(1) by (simp add: probe_inv_def)
    then show ?thesis using fresh(3) by simp
  qed (use assms(1) in simp)
next
  case IcActSendProbeBatch
  show ?thesis
  proof (cases "pr_state s = PrSending")
    case True
    with assms(2) IcActSendProbeBatch obtain s1 where s1: "send_loop c 0 s = Inr s1"
      "s' = s1\<lparr>pr_lastBatchSentAt := now\<rparr>" by (auto elim: sendProbeBatch_cases)
    have "probe_inv tr s1"
      using assms(1) send_loop_ok [OF _ s1(1)] send_loop_keeps [OF s1(1)] answers_cong [of s1 s]
      by (simp add: probe_inv_def)
    then show ?thesis by (simp add: s1(2))
  qed (use assms IcActSendProbeBatch in simp)
qed (use assms in auto)

lemma probe_inv_dispatch:
  assumes "probe_inv tr s" and "probe_dispatch L c env now s = Some (Inr s')"
  shows "probe_inv tr s'"
proof (cases "pr_events s")
  case Nil
  with assms(2) obtain a as where a: "pr_actions s = a # as"
    "probe_handleAction L c env now a (s\<lparr>pr_actions := as\<rparr>) = Inr s'"
    by (auto simp: probe_dispatch_def split: list.splits)
  from probe_inv_action [OF _ a(2)] assms(1) show ?thesis by simp
next
  case (Cons e es)
  with assms(2) have e: "probe_handleEvent env now e (s\<lparr>pr_events := es\<rparr>) = Inr s'" by (simp add: probe_dispatch_def)
  have "probe_inv tr (s\<lparr>pr_events := es\<rparr>)"
    by (rule probe_inv_frame [OF assms(1)]) (use assms(1) Cons in \<open>simp_all add: probe_inv_def\<close>)
  moreover have "event_of tr e" using assms(1) Cons by (simp add: probe_inv_def)
  ultimately show ?thesis using probe_inv_event [OF _ _ e] by blast
qed

lemma probe_execute_inv:
  assumes step: "\<And>now s s'. P s \<Longrightarrow> probe_dispatch L c env now s = Some (Inr s') \<Longrightarrow> P s'"
  shows "P s \<Longrightarrow> probe_execute L c env clock n s = Inr s' \<Longrightarrow> P s'"
proof (induction "probe_weight s" arbitrary: n s rule: less_induct)
  case less
  show ?case
  proof (cases "probe_dispatch L c env (clock n) s")
    case (Some r)
    with less.prems(2) obtain s1 where s1: "probe_dispatch L c env (clock n) s = Some (Inr s1)"
      "probe_execute L c env clock (n + 1) s1 = Inr s'"
      by (subst (asm) probe_execute.simps) (auto split: sum.splits)
    from less.hyps [OF probe_dispatch_weight [OF s1(1)] step [OF less.prems(1) s1(1)] s1(2)] show ?thesis .
  next
    case None
    then have "probe_execute L c env clock n s = Inr s" by (subst probe_execute.simps) simp
    with less.prems show ?thesis by simp
  qed
qed

lemma probe_execute_idle:
  "probe_execute L c env clock n s = Inr s' \<Longrightarrow> pr_events s' = [] \<and> pr_actions s' = []"
proof (induction "probe_weight s" arbitrary: n s rule: less_induct)
  case less
  show ?case
  proof (cases "probe_dispatch L c env (clock n) s")
    case (Some r)
    with less.prems obtain s1 where s1: "probe_dispatch L c env (clock n) s = Some (Inr s1)"
      "probe_execute L c env clock (n + 1) s1 = Inr s'"
      by (subst (asm) probe_execute.simps) (auto split: sum.splits)
    from less.hyps [OF probe_dispatch_weight [OF s1(1)] s1(2)] show ?thesis .
  next
    case None
    then have "probe_execute L c env clock n s = Inr s" by (subst probe_execute.simps) simp
    with less.prems None show ?thesis by (auto simp: probe_dispatch_def split: list.splits)
  qed
qed

lemma event_of_mono: "event_of tr e \<Longrightarrow> event_of (tr @ tr') e"
  by (auto simp: event_of_def split: icmp_event.splits option.splits)

lemma probe_inv_mono: "probe_inv tr s \<Longrightarrow> probe_inv (tr @ tr') s"
  by (auto simp: probe_inv_def intro: event_of_mono elim: list.pred_mono_strong)

lemma probe_inv_receive:
  assumes "probe_inv tr s"
  shows "probe_inv (tr @ [i]) (probe_receive i s)"
proof -
  have new: "probe_inv (tr @ [i]) (s\<lparr>pr_events := pr_events s @ [e]\<rparr>)" if "event_of (tr @ [i]) e" for e
    by (rule probe_inv_frame [OF probe_inv_mono [OF assms]])
      (use that probe_inv_mono [OF assms, of "[i]"] in \<open>simp_all add: probe_inv_def\<close>)
  show ?thesis
  proof (cases i)
    case InProbeRequest
    then show ?thesis using new by (simp add: pr_postEvent_def event_of_def)
  next
    case (InPacket ip p)
    show ?thesis
    proof (cases "ih_type (ip_header p) = EchoReply")
      case True
      then show ?thesis
        using new [of "IcEchoReply ip (Some p)"] by (simp add: InPacket pr_postEvent_def icmp_create_def event_of_def)
    qed (use probe_inv_mono [OF assms] in \<open>simp add: InPacket pr_postEvent_def icmp_create_def\<close>)
  qed
qed

lemma probe_inv_receives: "probe_inv tr s \<Longrightarrow> probe_inv (tr @ is) (fold probe_receive is s)"
proof (induction "is" arbitrary: tr s)
  case (Cons i "is")
  from Cons.IH [OF probe_inv_receive [OF Cons.prems]] show ?case by simp
qed simp

lemma probe_schedule_cases:
  assumes "probe_schedule c now s = Inr (e, s')"
  shows "(e = None \<or> (\<exists>e'. e = Some e' \<and> e' \<in> {IcSendProbeBatch, IcProbeCompleted})) \<and>
    (s' = s \<or> s' = s\<lparr>pr_waitingStartedAt := now, pr_lastReplyAt := now, pr_state := PrWaitingReplies\<rparr>)"
  using assms by (auto simp: probe_schedule_def bind_err_Inr_iff split: probe_phase.splits if_splits)

lemma probe_inv_schedule:
  assumes "probe_inv tr s" and "probe_schedule c now s = Inr (e, s')"
  shows "probe_inv tr (pr_postEvent e s')"
proof -
  from probe_schedule_cases [OF assms(2)] assms(1)
  have new: "list_all (event_of tr) (pr_events (pr_postEvent e s'))"
    by (auto simp: pr_postEvent_def probe_inv_def event_of_def)
  from probe_schedule_cases [OF assms(2)] show ?thesis
    by (intro probe_inv_frame [OF assms(1) _ _ _ _ _ new]) (auto simp: pr_postEvent_def)
qed

lemma probe_inv_tick:
  assumes "probe_inv tr s" and "probe_tick L env t s = Inr s'"
  shows "probe_inv (tr @ tn_inputs t) s' \<and> pr_events s' = [] \<and> pr_actions s' = []"
proof -
  from assms(2) obtain s1 where s1: "probe_execute L (tn_cfg t) env (tn_clock t) 1 s1 = Inr s'"
    "(if tn_ready t
      then map_sum id (\<lambda>(event, s). pr_postEvent event s)
        (probe_schedule (tn_cfg t) (tn_clock t 0) (fold probe_receive (tn_inputs t) s))
      else Inr (fold probe_receive (tn_inputs t) s)) = Inr s1"
    by (auto simp: probe_tick_def Let_def bind_err_Inr_iff)
  have "probe_inv (tr @ tn_inputs t) s1"
    using s1(2) probe_inv_receives [OF assms(1)]
    by (auto simp: map_sum_Inr_iff intro: probe_inv_schedule split: if_splits)
  from probe_execute_inv [of "probe_inv (tr @ tn_inputs t)", OF _ this s1(1)] probe_execute_idle [OF s1(1)]
  show ?thesis using probe_inv_dispatch by blast
qed

text \<open>The states the service comes to, with everything it has received so far.\<close>

inductive probe_reachable :: "jlib \<Rightarrow> probe_env \<Rightarrow> probe_input list \<Rightarrow> probe \<Rightarrow> bool" for L env where
  pr_start: "probe_start c probe_new = Inr s \<Longrightarrow> probe_reachable L env [] s"
| pr_tick: "probe_reachable L env tr s \<Longrightarrow> probe_tick L env t s = Inr s' \<Longrightarrow>
    probe_reachable L env (tr @ tn_inputs t) s'"

lemma probe_reachable_inv:
  "probe_reachable L env tr s \<Longrightarrow> probe_inv tr s \<and> pr_events s = [] \<and> pr_actions s = []"
proof (induction rule: probe_reachable.induct)
  case (pr_start c s)
  then show ?case
    by (auto simp: probe_start_def map_sum_Inr_iff probe_new_def probe_inv_def probe_ok_def numbered_def)
next
  case (pr_tick tr s t s')
  then show ?case using probe_inv_tick by blast
qed

subsection \<open>A tick without a request\<close>

text \<open>What a batch of packets does to the targets.\<close>

definition mark_answered :: "probe \<Rightarrow> probe_input list \<Rightarrow> probe_target list \<Rightarrow> probe_target list" where
  "mark_answered s inputs = map (\<lambda>t. t\<lparr>pt_alive := pt_alive t \<or> list_ex (answers s t) inputs\<rparr>)"

lemma answers_alive [simp]: "answers s (t\<lparr>pt_alive := b\<rparr>) = answers s t"
  by (simp add: answers_def fun_eq_iff split: probe_input.split)

lemma mark_answered_Cons: "mark_answered s (i # is) ts = mark_answered s is (mark_answered s [i] ts)"
  by (simp add: mark_answered_def disj_ac)

lemma lookup_position:
  assumes "probe_ok s" and "j < length (pr_targets s)"
  shows "map_of (pr_targetIndexByIp s) (pt_ip (pr_targets s ! j)) = Some j"
proof -
  have "(pt_ip (pr_targets s ! j), j) \<in> set (pr_targetIndexByIp s)" "distinct (map fst (pr_targetIndexByIp s))"
    using assms by (auto simp: probe_ok_def in_set_zip intro: exI [of _ j])
  then show ?thesis by simp
qed

lemma reply_marks:
  assumes "probe_ok s" and "canAcceptReply s" and "ih_type (ip_header p) = EchoReply"
  shows "pr_targets (onEchoReply now ip (Some p) s) = mark_answered s [InPacket ip p] (pr_targets s)"
proof (rule nth_equalityI)
  let ?s = "onEchoReply now ip (Some p) s"
  show len: "length (pr_targets ?s) = length (mark_answered s [InPacket ip p] (pr_targets s))"
    using reply_targets [of now ip "Some p" s] by (auto simp: mark_answered_def)
  fix j assume "j < length (pr_targets ?s)"
  with len have j: "j < length (pr_targets s)" by (simp add: mark_answered_def)
  show "pr_targets ?s ! j = mark_answered s [InPacket ip p] (pr_targets s) ! j"
  proof (cases "pt_ip (pr_targets s ! j) = ip")
    case True
    with lookup_position [OF assms(1) j] have i: "map_of (pr_targetIndexByIp s) ip = Some j" by simp
    show ?thesis
      using assms(2,3) i j True
      by (auto simp: onEchoReply_def mark_answered_def answers_def Let_def)
  next
    case False
    have "pr_targets ?s ! j = pr_targets s ! j"
      using reply_targets [of now ip "Some p" s] index_lookup(2) [OF assms(1), of ip] False
      by (metis nth_list_update_neq)
    then show ?thesis using j False by (simp add: mark_answered_def answers_def)
  qed
qed

definition same_session :: "probe \<Rightarrow> probe \<Rightarrow> bool" where
  "same_session s s' \<longleftrightarrow> pr_state s' = pr_state s \<and> pr_tx s' = pr_tx s \<and> pr_actions s' = pr_actions s \<and>
     pr_identifier s' = pr_identifier s \<and> pr_nextSendIndex s' = pr_nextSendIndex s \<and>
     pr_waitingStartedAt s' = pr_waitingStartedAt s \<and> pr_lastBatchSentAt s' = pr_lastBatchSentAt s"

definition reply_events :: "probe_input list \<Rightarrow> icmp_event list" where
  "reply_events inputs = List.map_filter
     (\<lambda>i. case i of InProbeRequest \<Rightarrow> None | InPacket ip p \<Rightarrow> icmp_create ip p) inputs"

lemma reply_events_simps [simp]:
  "reply_events [] = []"
  "reply_events (InPacket ip p # is) = (case icmp_create ip p of None \<Rightarrow> reply_events is | Some e \<Rightarrow> e # reply_events is)"
  by (simp_all add: reply_events_def List.map_filter_simps split: option.split)

lemma receives_replies:
  "InProbeRequest \<notin> set is \<Longrightarrow> fold probe_receive is s = s\<lparr>pr_events := pr_events s @ reply_events is\<rparr>"
proof (induction "is" arbitrary: s)
  case (Cons i "is")
  then obtain ip p where "i = InPacket ip p" by (cases i) auto
  with Cons show ?case by (cases "icmp_create ip p") (simp_all add: pr_postEvent_def)
qed simp

lemma execute_step:
  "probe_dispatch L c env (clock n) s = Some (Inr s') \<Longrightarrow>
   probe_execute L c env clock n s = probe_execute L c env clock (n + 1) s'"
  by (subst probe_execute.simps) simp

lemma execute_replies:
  assumes "InProbeRequest \<notin> set is" and "pr_events s = reply_events is @ rest" and "probe_ok s" and "canAcceptReply s"
  shows "\<exists>s' m. probe_execute L c env clock n s = probe_execute L c env clock m s' \<and> same_session s s' \<and>
    pr_events s' = rest \<and> probe_ok s' \<and> pr_targets s' = mark_answered s is (pr_targets s)"
  using assms
proof (induction "is" arbitrary: s n)
  case Nil
  then show ?case
    by (intro exI [of _ s] exI [of _ n]) (simp add: same_session_def mark_answered_def)
next
  case (Cons i "is")
  then obtain ip p where i: "i = InPacket ip p" by (cases i) auto
  show ?case
  proof (cases "ih_type (ip_header p) = EchoReply")
    case True
    let ?s1 = "onEchoReply (clock n) ip (Some p) (s\<lparr>pr_events := reply_events is @ rest\<rparr>)"
    have "pr_events s = IcEchoReply ip (Some p) # reply_events is @ rest"
      using Cons.prems(2) True by (simp add: i icmp_create_def)
    then have step: "probe_dispatch L c env (clock n) s = Some (Inr ?s1)"
      by (simp add: probe_dispatch_def)
    have ok: "probe_ok ?s1" "canAcceptReply ?s1" "pr_events ?s1 = reply_events is @ rest"
      using Cons.prems(3,4) by (simp_all add: probe_ok_reply canAcceptReply_def reply_keeps)
    obtain s' m where s': "probe_execute L c env clock (n + 1) ?s1 = probe_execute L c env clock m s'"
      "same_session ?s1 s'" "pr_events s' = rest" "probe_ok s'" "pr_targets s' = mark_answered ?s1 is (pr_targets ?s1)"
      using Cons.IH [OF _ ok(3,1,2), of "n + 1"] Cons.prems(1) by auto
    have "pr_targets ?s1 = mark_answered s [InPacket ip p] (pr_targets s)"
      using reply_marks [of "s\<lparr>pr_events := reply_events is @ rest\<rparr>" p] Cons.prems(3,4) True
        answers_cong [of "s\<lparr>pr_events := reply_events is @ rest\<rparr>" s]
      by (simp add: canAcceptReply_def mark_answered_def)
    moreover have "answers ?s1 = answers s" by (rule answers_cong) (simp add: reply_keeps)
    ultimately have "pr_targets s' = mark_answered s (i # is) (pr_targets s)"
      using s'(5) by (subst mark_answered_Cons) (simp add: mark_answered_def i)
    moreover have "same_session s s'" using s'(2) by (simp add: same_session_def reply_keeps)
    ultimately show ?thesis
      using s' execute_step [where clock = clock and n = n, OF step] by (intro exI [of _ s'] exI [of _ m]) simp
  next
    case False
    with Cons.prems have "pr_events s = reply_events is @ rest" by (simp add: i icmp_create_def)
    from Cons.IH [OF _ this Cons.prems(3,4), of n] Cons.prems(1) obtain s' m where
      "probe_execute L c env clock n s = probe_execute L c env clock m s'" "same_session s s'"
      "pr_events s' = rest" "probe_ok s'" "pr_targets s' = mark_answered s is (pr_targets s)" by auto
    moreover have "mark_answered s (i # is) = mark_answered s is"
      using False by (simp add: mark_answered_def i answers_def)
    ultimately show ?thesis by metis
  qed
qed

subsection \<open>Ending a session\<close>

text \<open>Every address a packet was received from is one \<^verbatim>\<open>inet_pton\<close> reads.\<close>

definition sources_valid :: "probe_env \<Rightarrow> probe_input list \<Rightarrow> bool" where
  "sources_valid env tr \<longleftrightarrow> (\<forall>ip p. InPacket ip p \<in> set tr \<longrightarrow> pe_pton env ip \<noteq> None)"

lemma check_ips_ok: "(\<forall>ip \<in> set ips. pton ip \<noteq> None) \<Longrightarrow> check_ips pton ips = Inr ()"
  by (induction ips) (auto simp: ipv4ToHostU32_def)

lemma complete_ok:
  assumes "pr_state s = PrWaitingReplies" and "\<forall>ip \<in> set (aliveIps s). pton ip \<noteq> None"
  shows "completeProbeSession pton now s = Inr (s\<lparr>pr_lastAliveCount := of_nat (length (aliveIps s)),
    pr_lastProbeCompletedAt := now, pr_state := PrIdle\<rparr>)"
  using assms check_ips_ok by (simp add: completeProbeSession_def)

lemma answers_source: "list_ex (answers s t) tr \<Longrightarrow> sources_valid env tr \<Longrightarrow> pe_pton env (pt_ip t) \<noteq> None"
proof -
  assume "list_ex (answers s t) tr" and v: "sources_valid env tr"
  then obtain i where "i \<in> set tr" "answers s t i" by (auto simp: list_ex_iff)
  with v show ?thesis by (cases i) (auto simp: answers_def sources_valid_def)
qed

definition answered_ips :: "probe \<Rightarrow> probe_input list \<Rightarrow> string list" where
  "answered_ips s inputs = map pt_ip (filter (\<lambda>t. pt_alive t \<or> list_ex (answers s t) inputs) (pr_targets s))"

lemma aliveIps_marked:
  "pr_targets s' = mark_answered s inputs (pr_targets s) \<Longrightarrow> aliveIps s' = answered_ips s inputs"
  by (simp add: aliveIps_def answered_ips_def mark_answered_def filter_map comp_def)

text \<open>What a tick without a request is, once the replies have been handled.\<close>

lemma schedule_events:
  "probe_schedule c now (s\<lparr>pr_events := es\<rparr>) =
     map_sum id (\<lambda>(e, s). (e, s\<lparr>pr_events := es\<rparr>)) (probe_schedule c now s)"
  by (cases "probeBatchInterval c"; cases "replyIdleTimeout c"; cases "replyMaxWaitTimeout c")
    (simp_all add: probe_schedule_def allProbeSent_def replyWaitExpired_def Let_def split: probe_phase.split)

lemma tick_replies:
  assumes "probe_ok s" and "pr_events s = []" and "canAcceptReply s"
    and "tn_ready t" and "InProbeRequest \<notin> set (tn_inputs t)"
    and "probe_schedule (tn_cfg t) (tn_clock t 0) s = Inr (e, s0)"
  shows "\<exists>s' m. probe_tick L env t s = probe_execute L (tn_cfg t) env (tn_clock t) m s' \<and>
    same_session s0 s' \<and> pr_events s' = (case e of None \<Rightarrow> [] | Some e \<Rightarrow> [e]) \<and> probe_ok s' \<and>
    pr_targets s' = mark_answered s (tn_inputs t) (pr_targets s)"
proof -
  let ?rest = "case e of None \<Rightarrow> [] | Some e \<Rightarrow> [e]"
  let ?s1 = "s0\<lparr>pr_events := reply_events (tn_inputs t) @ ?rest\<rparr>"
  note s0 = probe_schedule_cases [OF assms(6)]
  have s1: "probe_tick L env t s = probe_execute L (tn_cfg t) env (tn_clock t) 1 ?s1"
    using assms(2,4,6) receives_replies [OF assms(5), of s]
    by (cases e) (simp_all add: probe_tick_def schedule_events pr_postEvent_def)
  have "probe_ok s0" using s0 by (intro probe_ok_same [OF assms(1)]) auto
  then have ok: "probe_ok ?s1" "canAcceptReply ?s1"
    using s0 assms(3) by (auto simp: canAcceptReply_def)
  have "answers ?s1 = answers s" "pr_targets ?s1 = pr_targets s"
    using s0 by (auto intro: answers_cong)
  then have "mark_answered ?s1 (tn_inputs t) (pr_targets ?s1) = mark_answered s (tn_inputs t) (pr_targets s)"
    by (simp add: mark_answered_def)
  moreover have "same_session s0 s' \<longleftrightarrow> same_session ?s1 s'" for s' by (simp add: same_session_def)
  ultimately show ?thesis
    using execute_replies [OF assms(5) _ ok, of ?rest L "tn_cfg t" env "tn_clock t" 1] s1 by simp
qed

lemma marked_sources:
  assumes "probe_inv tr s" and "sources_valid env (tr @ inputs)"
    and "pr_targets s' = mark_answered s inputs (pr_targets s)"
  shows "\<forall>ip \<in> set (aliveIps s'). pe_pton env ip \<noteq> None"
proof
  fix ip assume "ip \<in> set (aliveIps s')"
  then obtain t where t: "t \<in> set (pr_targets s)" "ip = pt_ip t" "pt_alive t \<or> list_ex (answers s t) inputs"
    by (auto simp: aliveIps_marked [OF assms(3)] answered_ips_def)
  with assms(1) have "list_ex (answers s t) (tr @ inputs)" by (auto simp: probe_inv_def)
  with answers_source [OF this assms(2)] t(2) show "pe_pton env ip \<noteq> None" by simp
qed

lemma execute_completed:
  assumes "pr_events s = [IcProbeCompleted]" and "pr_actions s = []" and "pr_state s = PrWaitingReplies"
    and "\<forall>ip \<in> set (aliveIps s). pe_pton env ip \<noteq> None"
  shows "\<exists>s'. probe_execute L c env clock m s = Inr s' \<and> pr_state s' = PrIdle \<and> aliveIps s' = aliveIps s \<and>
    pr_targets s' = pr_targets s \<and>
    pr_tx s' = pr_tx s @ [probe_result L (of_nat (length (aliveIps s))) (aliveIps s)]"
proof -
  let ?s0 = "s\<lparr>pr_events := []\<rparr>"
  let ?s1 = "?s0\<lparr>pr_lastAliveCount := of_nat (length (aliveIps ?s0)), pr_lastProbeCompletedAt := clock m,
    pr_state := PrIdle, pr_actions := [IcActSendProbeResult]\<rparr>"
  let ?s2 = "sendProbeResult L (?s1\<lparr>pr_actions := []\<rparr>)"
  have alive: "aliveIps (s\<lparr>pr_events := es\<rparr>) = aliveIps s" for es by (simp add: aliveIps_def)
  have "completeProbeSession (pe_pton env) (clock m) ?s0 =
      Inr (?s0\<lparr>pr_lastAliveCount := of_nat (length (aliveIps ?s0)), pr_lastProbeCompletedAt := clock m, pr_state := PrIdle\<rparr>)"
    by (rule complete_ok) (use assms(3,4) alive in simp_all)
  then have d1: "probe_dispatch L c env (clock m) s = Some (Inr ?s1)"
    using assms(1,2) by (simp add: probe_dispatch_def pr_postAction_def)
  have d2: "probe_dispatch L c env (clock (m + 1)) ?s1 = Some (Inr ?s2)"
    by (simp add: probe_dispatch_def)
  have d3: "probe_dispatch L c env (clock (m + 1 + 1)) ?s2 = None"
    by (simp add: probe_dispatch_def sendProbeResult_def)
  have "probe_execute L c env clock m s = Inr ?s2"
    by (simp only: execute_step [where clock = clock and n = m, OF d1]
        execute_step [where clock = clock and n = "m + 1", OF d2])
      (subst probe_execute.simps, simp only: d3 option.case)
  then show ?thesis
    by (intro exI [of _ ?s2]) (simp add: sendProbeResult_def aliveIps_def)
qed

lemma tick_completes:
  assumes "probe_inv tr s" and "pr_events s = []" and "pr_actions s = []" and "pr_state s = PrWaitingReplies"
    and "tn_ready t" and "InProbeRequest \<notin> set (tn_inputs t)"
    and "replyWaitExpired (tn_cfg t) (tn_clock t 0) s = Inr True" and "sources_valid env (tr @ tn_inputs t)"
  shows "\<exists>s'. probe_tick L env t s = Inr s' \<and> pr_state s' = PrIdle \<and>
    aliveIps s' = answered_ips s (tn_inputs t) \<and>
    pr_tx s' = pr_tx s @
      [probe_result L (of_nat (length (answered_ips s (tn_inputs t)))) (answered_ips s (tn_inputs t))]"
proof -
  have sched: "probe_schedule (tn_cfg t) (tn_clock t 0) s = Inr (Some IcProbeCompleted, s)"
    using assms(4,7) by (simp add: probe_schedule_def)
  have "probe_ok s" "canAcceptReply s" using assms(1,4) by (simp_all add: probe_inv_def canAcceptReply_def)
  from tick_replies [OF this(1) assms(2) this(2) assms(5,6) sched] obtain s' m where s':
    "probe_tick L env t s = probe_execute L (tn_cfg t) env (tn_clock t) m s'" "same_session s s'"
    "pr_events s' = [IcProbeCompleted]" "pr_targets s' = mark_answered s (tn_inputs t) (pr_targets s)" by fastforce
  with assms(3,4) have "pr_actions s' = []" "pr_state s' = PrWaitingReplies" "pr_tx s' = pr_tx s"
    by (simp_all add: same_session_def)
  with execute_completed [OF s'(3) this(1,2) marked_sources [OF assms(1,8) s'(4)]] s'(1)
  show ?thesis unfolding aliveIps_marked [OF s'(4)] by metis
qed

lemma send_loop_total: "probeBatchSize c = Inr b \<Longrightarrow> \<exists>s'. send_loop c n s = Inr s'"
proof (induction c n s rule: send_loop.induct)
  case (1 c n s)
  show ?case
  proof (cases "pr_nextSendIndex s < length (pr_targets s) \<and> n < b")
    case True
    from "1.IH" [OF conjunct1 [OF True] conjunct2 [OF True] refl refl "1.prems"] True "1.prems"
    show ?thesis by (subst send_loop.simps) (simp add: Let_def)
  qed (use "1.prems" in \<open>subst send_loop.simps, auto\<close>)
qed

lemma execute_batch:
  assumes "pr_events s = [IcSendProbeBatch]" and "pr_actions s = []" and "pr_state s = PrSending"
    and "probeBatchSize c = Inr b"
  shows "\<exists>s' k. probe_execute L c env clock m s = Inr s' \<and> pr_state s' = PrSending \<and> pr_tx s' = pr_tx s \<and>
    pr_targets s' = pr_targets s \<and> pr_lastBatchSentAt s' = clock k \<and>
    pr_nextSendIndex s' = pr_nextSendIndex s + min b (length (pr_targets s) - pr_nextSendIndex s)"
proof -
  let ?s1 = "s\<lparr>pr_events := [], pr_actions := [IcActSendProbeBatch]\<rparr>"
  let ?s2 = "s\<lparr>pr_events := [], pr_actions := []\<rparr>"
  have d1: "probe_dispatch L c env (clock m) s = Some (Inr ?s1)"
    using assms(1,2) by (simp add: probe_dispatch_def pr_postAction_def)
  obtain s3 where s3: "send_loop c 0 ?s2 = Inr s3" using send_loop_total [OF assms(4)] by blast
  let ?s4 = "s3\<lparr>pr_lastBatchSentAt := clock (m + 1)\<rparr>"
  have d2: "probe_dispatch L c env (clock (m + 1)) ?s1 = Some (Inr ?s4)"
    using s3 assms(3) by (simp add: probe_dispatch_def sendProbeBatch_def)
  have d3: "probe_dispatch L c env (clock (m + 1 + 1)) ?s4 = None"
    using send_loop_keeps [OF s3] by (simp add: probe_dispatch_def)
  have "probe_execute L c env clock m s = Inr ?s4"
    by (simp only: execute_step [where clock = clock and n = m, OF d1]
        execute_step [where clock = clock and n = "m + 1", OF d2])
      (subst probe_execute.simps, simp only: d3 option.case)
  then show ?thesis
    using send_loop_keeps [OF s3] send_loop_sent [OF s3 assms(4) refl] assms(3)
    by (intro exI [of _ ?s4] exI [of _ "m + 1"]) simp
qed

text \<open>
  Readable settings under which nothing is due later than \<open>D\<close> after the last time, and ticks at
  least \<open>D\<close> apart, whatever the single readings of the clock in each of them are.
\<close>

definition prompt :: "time \<Rightarrow> config \<Rightarrow> bool" where
  "prompt D c \<longleftrightarrow> 0 \<le> D \<and> (\<exists>b interval idle most. probeBatchSize c = Inr b \<and> 0 < b \<and>
     probeBatchInterval c = Inr interval \<and> interval \<le> D \<and>
     replyIdleTimeout c = Inr idle \<and> replyMaxWaitTimeout c = Inr most \<and> most \<le> D)"

fun spaced :: "time \<Rightarrow> time \<Rightarrow> probe_turn list \<Rightarrow> bool" where
  "spaced D since [] \<longleftrightarrow> True"
| "spaced D since (t # ts) \<longleftrightarrow> (\<forall>j. since + D \<le> tn_clock t j) \<and>
     (\<exists>later. (\<forall>j. tn_clock t j \<le> later) \<and> spaced D later ts)"

definition times_before :: "time \<Rightarrow> probe \<Rightarrow> bool" where
  "times_before since s \<longleftrightarrow> (pr_state s = PrSending \<longrightarrow> pr_lastBatchSentAt s \<le> since) \<and>
     (pr_state s = PrWaitingReplies \<longrightarrow> pr_waitingStartedAt s \<le> since)"

definition turns_left :: "probe \<Rightarrow> nat" where
  "turns_left s = (if pr_state s = PrSending then length (pr_targets s) - pr_nextSendIndex s + 2 else 1)"

lemma to_ms_seconds:
  assumes "seconds k \<le> x" and "0 \<le> x"
  shows "seconds k \<le> milliseconds (to_ms x)"
proof -
  have "k * 1000 * 1000000 \<le> x" using assms(1) by (simp add: seconds_def)
  then have "k * 1000 \<le> x div 1000000" by (simp add: zdiv_mono1 [of "k * 1000 * 1000000", simplified])
  then show ?thesis using assms(2) by (cases "x = 0") (simp_all add: seconds_def milliseconds_def to_ms_def sgn_if)
qed

lemma max_wait_expires:
  assumes "replyIdleTimeout c = Inr idle" and "replyMaxWaitTimeout c = Inr most" and "most \<le> D" and "0 \<le> D"
    and "pr_waitingStartedAt s + D \<le> now"
  shows "replyWaitExpired c now s = Inr True"
proof -
  obtain k where k: "most = seconds k"
    using assms(2) by (auto simp: replyMaxWaitTimeout_def config_value_def map_sum_Inr_iff)
  have "seconds k \<le> milliseconds (to_ms (now - pr_waitingStartedAt s))"
    by (rule to_ms_seconds) (use assms(3-5) k in simp_all)
  then show ?thesis using assms(1,2) k by (simp add: replyWaitExpired_def)
qed


text \<open>A tick in a session either ends it with its result or brings it nearer to its end.\<close>

lemma active_tick:
  assumes "probe_inv tr s" and "pr_events s = []" and "pr_actions s = []" and "canAcceptReply s"
    and "times_before since s" and "tn_ready t" and "prompt D (tn_cfg t)" and "InProbeRequest \<notin> set (tn_inputs t)"
    and "sources_valid env (tr @ tn_inputs t)"
    and "\<forall>j. since + D \<le> tn_clock t j" and "\<forall>j. tn_clock t j \<le> later"
  shows "\<exists>s'. probe_tick L env t s = Inr s' \<and>
    (pr_state s' = PrIdle \<and>
       pr_tx s' = pr_tx s @ [probe_result L (of_nat (length (aliveIps s'))) (aliveIps s')] \<or>
     canAcceptReply s' \<and> pr_tx s' = pr_tx s \<and> turns_left s' < turns_left s \<and> times_before later s')"
proof -
  obtain b interval idle most where c: "probeBatchSize (tn_cfg t) = Inr b" "0 < b"
    "probeBatchInterval (tn_cfg t) = Inr interval" "interval \<le> D"
    "replyIdleTimeout (tn_cfg t) = Inr idle" "replyMaxWaitTimeout (tn_cfg t) = Inr most" "most \<le> D" "0 \<le> D"
    using assms(7) by (auto simp: prompt_def)
  have ok: "probe_ok s" using assms(1) by (simp add: probe_inv_def)
  note replies = tick_replies [OF ok assms(2,4,6,8), of _ _ L env]
  consider (batch) "pr_state s = PrSending" "\<not> allProbeSent s" | (sent) "pr_state s = PrSending" "allProbeSent s"
    | (waiting) "pr_state s = PrWaitingReplies" using assms(4) by (auto simp: canAcceptReply_def)
  then show ?thesis
  proof cases
    case batch
    have "pr_lastBatchSentAt s + interval \<le> tn_clock t 0"
      using assms(5,10) c(4) batch(1) by (simp add: times_before_def) (meson add_mono order_trans)
    then have "probe_schedule (tn_cfg t) (tn_clock t 0) s = Inr (Some IcSendProbeBatch, s)"
      using batch c(3) by (simp add: probe_schedule_def)
    from replies [OF this] obtain s1 m where s1:
      "probe_tick L env t s = probe_execute L (tn_cfg t) env (tn_clock t) m s1" "same_session s s1"
      "pr_events s1 = [IcSendProbeBatch]" "pr_targets s1 = mark_answered s (tn_inputs t) (pr_targets s)" by fastforce
    have len: "length (pr_targets s1) = length (pr_targets s)" by (simp add: s1(4) mark_answered_def)
    from s1(2) have same: "pr_actions s1 = []" "pr_state s1 = PrSending" "pr_tx s1 = pr_tx s"
      "pr_nextSendIndex s1 = pr_nextSendIndex s" using assms(3) batch(1) by (simp_all add: same_session_def)
    from execute_batch [OF s1(3) same(1,2) c(1), of L env "tn_clock t" m] obtain s' k where s':
      "probe_execute L (tn_cfg t) env (tn_clock t) m s1 = Inr s'" "pr_state s' = PrSending" "pr_tx s' = pr_tx s1"
      "pr_targets s' = pr_targets s1" "pr_lastBatchSentAt s' = tn_clock t k"
      "pr_nextSendIndex s' = pr_nextSendIndex s1 + min b (length (pr_targets s1) - pr_nextSendIndex s1)" by blast
    then have "turns_left s' < turns_left s"
      using batch c(2) same len by (simp add: turns_left_def allProbeSent_def)
    with s' s1(1) same assms(11) show ?thesis
      by (intro exI [of _ s']) (simp add: canAcceptReply_def times_before_def)
  next
    case sent
    let ?s0 = "s\<lparr>pr_waitingStartedAt := tn_clock t 0, pr_lastReplyAt := tn_clock t 0, pr_state := PrWaitingReplies\<rparr>"
    have "probe_schedule (tn_cfg t) (tn_clock t 0) s = Inr (None, ?s0)"
      using sent by (simp add: probe_schedule_def)
    from replies [OF this] obtain s1 m where s1:
      "probe_tick L env t s = probe_execute L (tn_cfg t) env (tn_clock t) m s1" "same_session ?s0 s1"
      "pr_events s1 = []" by fastforce
    then have "probe_tick L env t s = Inr s1"
      using assms(3) by (subst s1(1)) (subst probe_execute.simps, simp add: probe_dispatch_def same_session_def)
    moreover have "turns_left s1 < turns_left s" "canAcceptReply s1" "pr_tx s1 = pr_tx s" "times_before later s1"
      using s1(2) sent(1) assms(11) by (simp_all add: turns_left_def same_session_def canAcceptReply_def times_before_def)
    ultimately show ?thesis by blast
  next
    case waiting
    have "pr_waitingStartedAt s + D \<le> tn_clock t 0"
      using assms(5,10) waiting by (simp add: times_before_def) (meson add_right_mono order_trans)
    from max_wait_expires [OF c(5-8) this]
    have "replyWaitExpired (tn_cfg t) (tn_clock t 0) s = Inr True" .
    from tick_completes [OF assms(1-3) waiting assms(6,8) this assms(9), of L] show ?thesis by metis
  qed
qed

fun probe_ticks :: "jlib \<Rightarrow> probe_env \<Rightarrow> probe_turn list \<Rightarrow> probe \<Rightarrow> probe_error + probe" where
  "probe_ticks L env [] s = Inr s"
| "probe_ticks L env (t # ts) s = bind_err (probe_tick L env t s) (probe_ticks L env ts)"

lemma session_bounded:
  assumes "list_all (\<lambda>t. tn_ready t \<and> prompt D (tn_cfg t) \<and> InProbeRequest \<notin> set (tn_inputs t)) ts"
  shows "probe_inv tr s \<Longrightarrow> pr_events s = [] \<Longrightarrow> pr_actions s = [] \<Longrightarrow> canAcceptReply s \<Longrightarrow>
    times_before since s \<Longrightarrow> spaced D since ts \<Longrightarrow> sources_valid env (tr @ concat (map tn_inputs ts)) \<Longrightarrow>
    turns_left s \<le> length ts \<Longrightarrow>
    \<exists>n s'. n \<le> turns_left s \<and> probe_ticks L env (take n ts) s = Inr s' \<and> pr_state s' = PrIdle \<and>
      pr_tx s' = pr_tx s @ [probe_result L (of_nat (length (aliveIps s'))) (aliveIps s')]"
  using assms
proof (induction ts arbitrary: tr s since)
  case Nil
  then show ?case by (simp add: turns_left_def split: if_splits)
next
  case (Cons t ts)
  from Cons.prems(6) obtain later where sp: "\<forall>j. since + D \<le> tn_clock t j" "\<forall>j. tn_clock t j \<le> later"
    "spaced D later ts" by auto
  have src: "sources_valid env (tr @ tn_inputs t)" "sources_valid env ((tr @ tn_inputs t) @ concat (map tn_inputs ts))"
    using Cons.prems(7) by (auto simp: sources_valid_def)
  have t: "tn_ready t" "prompt D (tn_cfg t)" "InProbeRequest \<notin> set (tn_inputs t)" using Cons.prems(9) by simp_all
  from active_tick [OF Cons.prems(1-5) t src(1) sp(1,2), of L] obtain s1 where s1: "probe_tick L env t s = Inr s1"
    "pr_state s1 = PrIdle \<and>
       pr_tx s1 = pr_tx s @ [probe_result L (of_nat (length (aliveIps s1))) (aliveIps s1)] \<or>
     canAcceptReply s1 \<and> pr_tx s1 = pr_tx s \<and> turns_left s1 < turns_left s \<and> times_before later s1" by blast
  from s1(2) show ?case
  proof (elim disjE conjE)
    assume "pr_state s1 = PrIdle" "pr_tx s1 = pr_tx s @ [probe_result L (of_nat (length (aliveIps s1))) (aliveIps s1)]"
    with s1(1) show ?thesis
      by (intro exI [of _ 1] exI [of _ s1]) (simp add: turns_left_def)
  next
    assume a: "canAcceptReply s1" "pr_tx s1 = pr_tx s" "turns_left s1 < turns_left s" "times_before later s1"
    from probe_inv_tick [OF Cons.prems(1) s1(1)]
    have i: "probe_inv (tr @ tn_inputs t) s1" "pr_events s1 = []" "pr_actions s1 = []" by simp_all
    have "turns_left s1 \<le> length ts" using a(3) Cons.prems(8) by simp
    from Cons.IH [OF i a(1,4) sp(3) src(2) this] Cons.prems(9) obtain n s' where
      "n \<le> turns_left s1" "probe_ticks L env (take n ts) s1 = Inr s'" "pr_state s' = PrIdle"
      "pr_tx s' = pr_tx s1 @ [probe_result L (of_nat (length (aliveIps s'))) (aliveIps s')]" by auto
    with s1(1) a(2,3) show ?thesis by (intro exI [of _ "Suc n"] exI [of _ s']) simp
  qed
qed

subsection \<open>What one tick makes of a session\<close>

text \<open>
  While a tick runs, the targets are those of the session it found, and one that has become alive was answered by a
  packet of this tick while that session took replies; or a session has begun, and none of its targets is alive.
\<close>

definition unanswered :: "probe_target \<Rightarrow> probe_target" where
  "unanswered t = t\<lparr>pt_alive := False\<rparr>"

definition ongoing :: "probe \<Rightarrow> probe_input list \<Rightarrow> probe \<Rightarrow> bool" where
  "ongoing s0 ins s \<longleftrightarrow> probe_ok s \<and> list_all (event_of ins) (pr_events s) \<and> pr_identifier s = pr_identifier s0 \<and>
     map unanswered (pr_targets s) = map unanswered (pr_targets s0) \<and>
     (canAcceptReply s \<longrightarrow> canAcceptReply s0) \<and> (pr_state s = PrSending \<longrightarrow> pr_state s0 = PrSending) \<and>
     (\<forall>t \<in> set (pr_targets s). pt_alive t \<longrightarrow>
        t \<in> set (pr_targets s0) \<or> canAcceptReply s0 \<and> list_ex (answers s0 t) ins)"

definition begun :: "probe \<Rightarrow> bool" where
  "begun s \<longleftrightarrow> pr_events s = [] \<and> (\<forall>t \<in> set (pr_targets s). \<not> pt_alive t)"

lemma ongoing_frame:
  assumes "ongoing s0 ins s" and "probe_ok s'" and "pr_targets s' = pr_targets s" and "pr_identifier s' = pr_identifier s"
    and "list_all (event_of ins) (pr_events s')" and "pr_state s' = pr_state s \<or> pr_state s' = PrIdle"
  shows "ongoing s0 ins s'"
  using assms by (auto simp: ongoing_def canAcceptReply_def)

lemma onEchoReply_counts:
  "pr_targets (onEchoReply now ip p s) = pr_targets s \<or>
   canAcceptReply s \<and> (\<exists>i q. map_of (pr_targetIndexByIp s) ip = Some i \<and> p = Some q \<and>
      ih_identifier (ip_header q) = pr_identifier s \<and> ih_sequence (ip_header q) = pt_sequence (pr_targets s ! i) \<and>
      pr_targets (onEchoReply now ip p s) = (pr_targets s)[i := (pr_targets s ! i)\<lparr>pt_alive := True\<rparr>])"
  by (auto simp: onEchoReply_def Let_def split: option.split)

lemma ongoing_reply:
  assumes "ongoing s0 ins s" and "event_of ins (IcEchoReply ip p)"
  shows "ongoing s0 ins (onEchoReply now ip p s)"
proof (cases "pr_targets (onEchoReply now ip p s) = pr_targets s")
  case True
  with assms(1) show ?thesis
    by (intro ongoing_frame [OF assms(1)]) (simp_all add: ongoing_def probe_ok_reply reply_keeps)
next
  case False
  then obtain i q where q: "canAcceptReply s" "map_of (pr_targetIndexByIp s) ip = Some i" "p = Some q"
      "ih_identifier (ip_header q) = pr_identifier s" "ih_sequence (ip_header q) = pt_sequence (pr_targets s ! i)"
      "pr_targets (onEchoReply now ip p s) = (pr_targets s)[i := (pr_targets s ! i)\<lparr>pt_alive := True\<rparr>]"
    using onEchoReply_counts [of now ip p s] by blast
  have ok: "probe_ok s" and id: "pr_identifier s = pr_identifier s0" using assms(1) by (simp_all add: ongoing_def)
  let ?t = "(pr_targets s ! i)\<lparr>pt_alive := True\<rparr>"
  have "answers s0 ?t (InPacket ip q)" "InPacket ip q \<in> set ins"
    using q(3-5) index_lookup [OF ok q(2)] assms(2) id by (simp_all add: answers_def event_of_def)
  then have hit: "canAcceptReply s0 \<and> list_ex (answers s0 ?t) ins"
    using assms(1) q(1) by (auto simp: ongoing_def list_ex_iff simp del: answers_alive)
  have "map unanswered (pr_targets (onEchoReply now ip p s)) = map unanswered (pr_targets s)"
    unfolding q(6) by (rule mark_same) (simp add: unanswered_def)
  moreover have "t \<in> set (pr_targets s0) \<or> canAcceptReply s0 \<and> list_ex (answers s0 t) ins"
    if "t \<in> set (pr_targets (onEchoReply now ip p s))" "pt_alive t" for t
  proof (cases "t \<in> set (pr_targets s)")
    case True
    with assms(1) that(2) show ?thesis by (simp add: ongoing_def)
  next
    case False
    with that(1) have "t = ?t" unfolding q(6) by (auto dest: set_update_subset_insert [THEN subsetD])
    with hit show ?thesis by simp
  qed
  ultimately show ?thesis
    using assms(1) probe_ok_reply [OF ok, of now ip p]
    by (simp add: ongoing_def reply_keeps canAcceptReply_def)
qed

lemma post_keeps:
  "pr_targets (pr_postAction a s) = pr_targets s" "pr_identifier (pr_postAction a s) = pr_identifier s"
  "pr_events (pr_postAction a s) = pr_events s" "pr_state (pr_postAction a s) = pr_state s"
  "pr_targets (sendProbeResult L s) = pr_targets s" "pr_identifier (sendProbeResult L s) = pr_identifier s"
  "pr_events (sendProbeResult L s) = pr_events s" "pr_state (sendProbeResult L s) = pr_state s"
  by (simp_all add: pr_postAction_def sendProbeResult_def)

lemma ongoing_post: "ongoing s0 ins s \<Longrightarrow> ongoing s0 ins (pr_postAction a s)"
  by (simp add: ongoing_def post_keeps canAcceptReply_def)

lemma ongoing_event:
  assumes "ongoing s0 ins s" and "event_of ins e" and "probe_handleEvent env now e s = Inr s'"
  shows "ongoing s0 ins s'"
proof (cases e)
  case IcProbeCompleted
  with assms(3) obtain s1 where s1: "completeProbeSession (pe_pton env) now s = Inr s1"
    "s' = pr_postAction IcActSendProbeResult s1" by (auto simp: map_sum_Inr_iff)
  have "pr_state s1 = pr_state s \<or> pr_state s1 = PrIdle"
    using s1(1) by (auto simp: completeProbeSession_def bind_err_Inr_iff split: if_splits)
  moreover have "probe_ok s1"
    by (rule probe_ok_same [OF _ complete_keeps(1-4) [OF s1(1)]]) (use assms(1) in \<open>simp add: ongoing_def\<close>)
  moreover have "list_all (event_of ins) (pr_events s1)"
    unfolding complete_keeps(5) [OF s1(1)] using assms(1) by (simp add: ongoing_def)
  ultimately have "ongoing s0 ins s1"
    using complete_keeps(1,6) [OF s1(1)] by (intro ongoing_frame [OF assms(1)])
  then show ?thesis unfolding s1(2) by (rule ongoing_post)
next
  case (IcEchoReply ip p)
  with assms(3) have "s' = onEchoReply now ip p s" by simp
  with ongoing_reply [OF assms(1)] assms(2) IcEchoReply show ?thesis by simp
qed (use assms in \<open>auto intro: ongoing_post\<close>)

lemma phase_action:
  assumes "ongoing s0 ins s \<or> begun s" and "pr_events s = []" and "probe_handleAction L c env now a s = Inr s'"
  shows "ongoing s0 ins s' \<or> begun s'"
proof (cases "a = IcActStartProbe \<and> \<not> canAcceptReply s")
  case True
  with assms(3) obtain s1 where s1: "beginProbeSession c (pe_pid env) now s = Inr s1"
    "s' = (if pr_targets s1 = [] then pr_postAction IcActSendProbeResult s1 else s1)"
    by (auto simp: canAcceptReply_def map_sum_Inr_iff)
  have "pr_events s1 = pr_events s" by (rule begin_cases [OF s1(1)]) simp_all
  with probe_ok_begin [OF s1(1)] assms(2) s1(2) have "begun s'" by (simp add: begun_def pr_postAction_def)
  then show ?thesis ..
next
  case False
  have same: "(probe_ok s \<longrightarrow> probe_ok s') \<and> pr_targets s' = pr_targets s \<and> pr_identifier s' = pr_identifier s \<and>
      pr_events s' = pr_events s \<and> pr_state s' = pr_state s"
  proof (cases a)
    case IcActSendProbeBatch
    show ?thesis
    proof (cases "pr_state s = PrSending")
      case True
      with assms(3) IcActSendProbeBatch obtain s1 where "send_loop c 0 s = Inr s1"
        "s' = s1\<lparr>pr_lastBatchSentAt := now\<rparr>" by (auto elim: sendProbeBatch_cases)
      with send_loop_ok [OF _ this(1)] send_loop_keeps [OF this(1)] show ?thesis by simp
    qed (use assms IcActSendProbeBatch in simp)
  qed (use False assms(3) in \<open>auto simp: canAcceptReply_def post_keeps split: if_splits\<close>)
  from assms(1) show ?thesis
  proof
    assume "ongoing s0 ins s"
    with same have "ongoing s0 ins s'" by (simp add: ongoing_def canAcceptReply_def)
    then show ?thesis ..
  qed (simp add: begun_def same)
qed

lemma phase_dispatch:
  assumes "ongoing s0 ins s \<or> begun s" and "probe_dispatch L c env now s = Some (Inr s')"
  shows "ongoing s0 ins s' \<or> begun s'"
proof (cases "pr_events s")
  case Nil
  with assms(2) obtain a as where a: "pr_actions s = a # as"
    "probe_handleAction L c env now a (s\<lparr>pr_actions := as\<rparr>) = Inr s'"
    by (auto simp: probe_dispatch_def split: list.splits)
  have "ongoing s0 ins (s\<lparr>pr_actions := as\<rparr>) \<or> begun (s\<lparr>pr_actions := as\<rparr>)"
    using assms(1) by (auto simp: ongoing_def begun_def canAcceptReply_def)
  from phase_action [OF this _ a(2)] Nil show ?thesis by simp
next
  case (Cons e es)
  with assms(2) have e: "probe_handleEvent env now e (s\<lparr>pr_events := es\<rparr>) = Inr s'" by (simp add: probe_dispatch_def)
  have o: "ongoing s0 ins s" using assms(1) Cons by (simp add: begun_def)
  then have "ongoing s0 ins (s\<lparr>pr_events := es\<rparr>)" "event_of ins e"
    using Cons by (auto simp: ongoing_def canAcceptReply_def)
  from ongoing_event [OF this e] show ?thesis ..
qed

lemma receive_frame: "probe_receive i s = s\<lparr>pr_events := pr_events (probe_receive i s)\<rparr>"
  by (cases i) (auto simp: pr_postEvent_def split: option.split)

lemma receive_keeps:
  "pr_targets (probe_receive i s) = pr_targets s" "pr_identifier (probe_receive i s) = pr_identifier s"
  "pr_state (probe_receive i s) = pr_state s" "probe_ok (probe_receive i s) = probe_ok s"
  by (subst receive_frame, simp)+

lemma receive_events:
  "list_all (event_of ins) (pr_events s) \<Longrightarrow> i \<in> set ins \<Longrightarrow> list_all (event_of ins) (pr_events (probe_receive i s))"
  by (cases i) (auto simp: pr_postEvent_def icmp_create_def event_of_def)

lemma ongoing_receives:
  "set is \<subseteq> set ins \<Longrightarrow> ongoing s0 ins s \<Longrightarrow> ongoing s0 ins (fold probe_receive is s)"
proof (induction "is" arbitrary: s)
  case (Cons i "is")
  have "list_all (event_of ins) (pr_events (probe_receive i s))"
    using Cons.prems by (intro receive_events) (simp_all add: ongoing_def)
  then have "ongoing s0 ins (probe_receive i s)"
    using Cons.prems(2) by (simp add: ongoing_def receive_keeps canAcceptReply_def)
  with Cons show ?case by simp
qed simp

lemma ongoing_schedule:
  assumes "ongoing s0 ins s" and "probe_schedule c now s = Inr (e, s')"
  shows "ongoing s0 ins (pr_postEvent e s')"
proof -
  have e: "e = None \<or> e \<in> Some ` {IcSendProbeBatch, IcProbeCompleted}"
    using probe_schedule_cases [OF assms(2)] by auto
  have "s' = s \<or> pr_state s = PrSending \<and>
      s' = s\<lparr>pr_waitingStartedAt := now, pr_lastReplyAt := now, pr_state := PrWaitingReplies\<rparr>"
    using assms(2) by (auto simp: probe_schedule_def bind_err_Inr_iff split: probe_phase.splits if_splits)
  then have "ongoing s0 ins s'"
  proof
    assume "pr_state s = PrSending \<and> s' = s\<lparr>pr_waitingStartedAt := now, pr_lastReplyAt := now, pr_state := PrWaitingReplies\<rparr>"
    moreover from this assms(1) have "probe_ok s'" by (intro probe_ok_same [of s s']) (simp_all add: ongoing_def)
    ultimately show ?thesis using assms(1) by (auto simp: ongoing_def canAcceptReply_def)
  qed (use assms(1) in simp)
  with e show ?thesis
    by (cases e) (auto simp: ongoing_def pr_postEvent_def canAcceptReply_def event_of_def)
qed

lemma tick_phase:
  assumes "probe_ok s" and "pr_events s = []" and "probe_tick L env t s = Inr s'"
  shows "ongoing s (tn_inputs t) s' \<or> begun s'"
proof -
  let ?ins = "tn_inputs t"
  from assms(3) obtain s1 where s1: "probe_execute L (tn_cfg t) env (tn_clock t) 1 s1 = Inr s'"
    "(if tn_ready t
      then map_sum id (\<lambda>(event, s). pr_postEvent event s)
        (probe_schedule (tn_cfg t) (tn_clock t 0) (fold probe_receive ?ins s))
      else Inr (fold probe_receive ?ins s)) = Inr s1"
    by (auto simp: probe_tick_def Let_def bind_err_Inr_iff)
  have "ongoing s ?ins s" using assms(1,2) by (auto simp: ongoing_def)
  then have "ongoing s ?ins (fold probe_receive ?ins s)" by (intro ongoing_receives) simp_all
  then have "ongoing s ?ins s1"
    using s1(2) by (auto simp: map_sum_Inr_iff intro: ongoing_schedule split: if_splits)
  then show ?thesis
    using probe_execute_inv [of "\<lambda>u. ongoing s ?ins u \<or> begun u", OF _ _ s1(1)] phase_dispatch by blast
qed

lemma unanswered_eq: "unanswered u = unanswered t \<Longrightarrow> pt_alive t \<Longrightarrow> u = t \<or> u = unanswered t"
  by (cases u; cases t) (auto simp: unanswered_def)

lemma unanswered_member:
  assumes "map unanswered ts = map unanswered us" and "t \<in> set ts" and "pt_alive t"
  shows "t \<in> set us \<or> unanswered t \<in> set us"
proof -
  have "unanswered t \<in> unanswered ` set us" using assms(1,2) by (metis image_eqI set_map)
  then obtain u where u: "u \<in> set us" "unanswered u = unanswered t" by auto
  with assms(3) have "u = t \<or> u = unanswered t" by (intro unanswered_eq)
  with u(1) show ?thesis by auto
qed

lemma answers_packet:
  "list_ex (answers s t) ins \<Longrightarrow> \<exists>p. InPacket (pt_ip t) p \<in> set ins \<and> ih_type (ip_header p) = EchoReply \<and>
     ih_identifier (ip_header p) = pr_identifier s \<and> ih_sequence (ip_header p) = pt_sequence t"
proof -
  assume "list_ex (answers s t) ins"
  then obtain i where i: "i \<in> set ins" "answers s t i" by (auto simp: list_ex_iff)
  from i(2) obtain ip p where "i = InPacket ip p" by (cases i) (auto simp: answers_def)
  with i show ?thesis by (auto simp: answers_def)
qed

subsection \<open>The properties\<close>

text \<open>C19. The shape of a probe: in every state the service comes to its targets have different
  addresses, none of them excluded, their numbers on the wire are their positions counted from one,
  the index finds each target at its position and nothing else, and no more requests were sent than
  there are targets.\<close>

theorem probe_targets_wf:
  assumes "probe_reachable L env tr s"
  shows "distinct (map pt_ip (pr_targets s)) \<and> set (map pt_ip (pr_targets s)) \<inter> set (pr_localIps s) = {} \<and>
    (\<forall>i < length (pr_targets s). pt_sequence (pr_targets s ! i) = of_nat (i + 1)) \<and>
    (\<forall>ip i. map_of (pr_targetIndexByIp s) ip = Some i \<longleftrightarrow>
       i < length (pr_targets s) \<and> pt_ip (pr_targets s ! i) = ip) \<and>
    pr_nextSendIndex s \<le> length (pr_targets s)"
proof -
  have ok: "probe_ok s" using probe_reachable_inv [OF assms] by (simp add: probe_inv_def)
  have "\<forall>i < length (pr_targets s). map pt_sequence (pr_targets s) ! i = of_nat (i + 1)"
    using ok by (simp add: probe_ok_def numbered_def)
  moreover have "map_of (pr_targetIndexByIp s) ip = Some i \<longleftrightarrow>
      i < length (pr_targets s) \<and> pt_ip (pr_targets s ! i) = ip" for ip i
    using index_lookup [OF ok] lookup_position [OF ok] by blast
  ultimately show ?thesis using ok by (simp add: probe_ok_def)
qed

text \<open>The witness: a session over two devices, of which one is configured twice and one excluded.\<close>

definition device_json :: "string \<Rightarrow> json" where
  "device_json ip = JObj [(''target'', JStr ip)]"

definition probe_config_example :: "string \<Rightarrow> config" where
  "probe_config_example excluded = config_init\<lparr>cf_cache := JObj [(''pretzel'', JObj
     [(''probe'', JObj [(''excluded_ips'', JStr excluded)]),
      (''site'', JObj [(''ngfw_devices'', JArr (map device_json [''a'', ''b'', ''a'', ''x'']))])])]\<rparr>"

definition probe_env_example :: probe_env where
  "probe_env_example = \<lparr>pe_pid = 65543, pe_pton = (\<lambda>ip. Some (of_nat (length ip)))\<rparr>"

definition probe_turn_example :: "int \<Rightarrow> probe_input list \<Rightarrow> probe_turn" where
  "probe_turn_example k inputs = \<lparr>tn_ready = True, tn_cfg = probe_config_example '' x '',
     tn_clock = (\<lambda>_. seconds (100 * k)), tn_inputs = inputs\<rparr>"

definition reply_example :: "string \<Rightarrow> nat \<Rightarrow> probe_input" where
  "reply_example ip n = InPacket ip \<lparr>ip_header = icmp_header_build EchoReply CodeEcho 7 (of_nat n), ip_payload = []\<rparr>"

definition probe_started :: probe where
  "probe_started = probe_new\<lparr>pr_state := PrIdle, pr_localIps := [''x'']\<rparr>"

definition probe_sending :: "probe_error + probe" where
  "probe_sending = probe_ticks unary_lib probe_env_example [probe_turn_example 1 [InProbeRequest]] probe_started"

lemma probe_started_run: "probe_start (probe_config_example '' x '') probe_new = Inr probe_started"
  by code_simp

lemma probe_sending_run:
  "case probe_sending of Inl e \<Rightarrow> False
   | Inr s \<Rightarrow> pr_state s = PrSending \<and> map pt_ip (pr_targets s) = [''a'', ''b''] \<and>
     pr_identifier s = 7 \<and> map pt_sequence (pr_targets s) = [1, 2] \<and> pr_tx s = [] \<and>
     pr_lastBatchSentAt s \<le> seconds 100 \<and> pr_nextSendIndex s = 0"
  by code_simp

lemma probe_ticks_reachable:
  "probe_reachable L env tr s \<Longrightarrow> probe_ticks L env ts s = Inr s' \<Longrightarrow>
     probe_reachable L env (tr @ concat (map tn_inputs ts)) s'"
proof (induction ts arbitrary: tr s)
  case (Cons t ts)
  then obtain s1 where "probe_tick L env t s = Inr s1" "probe_ticks L env ts s1 = Inr s'"
    by (auto simp: bind_err_Inr_iff)
  with Cons.IH [OF pr_tick [OF Cons.prems(1) this(1)] this(2)] show ?case by simp
qed simp

lemma probe_example_reachable:
  assumes "probe_ticks unary_lib probe_env_example ts probe_started = Inr s"
  shows "probe_reachable unary_lib probe_env_example (concat (map tn_inputs ts)) s"
  using probe_ticks_reachable [OF pr_start [OF probe_started_run] assms] by simp

theorem probe_targets_wf_witness:
  "case probe_sending of Inl e \<Rightarrow> False
   | Inr s \<Rightarrow> map_of (pr_targetIndexByIp s) ''b'' = Some 1 \<and> map_of (pr_targetIndexByIp s) ''x'' = None"
proof -
  obtain s where s: "probe_sending = Inr s" "map pt_ip (pr_targets s) = [''a'', ''b'']"
    using probe_sending_run by (auto split: sum.splits)
  have "length (pr_targets s) = 2" "pt_ip (pr_targets s ! 0) = ''a''" "pt_ip (pr_targets s ! 1) = ''b''"
    using arg_cong [OF s(2), of length] arg_cong [OF s(2), of hd] arg_cong [OF s(2), of last] by (cases "pr_targets s"; cases "tl (pr_targets s)"; simp)+
  moreover from this have "\<forall>i < 2. pt_ip (pr_targets s ! i) \<noteq> ''x''" by (auto simp: less_2_cases_iff)
  moreover have "\<forall>ip i. map_of (pr_targetIndexByIp s) ip = Some i \<longleftrightarrow>
      i < length (pr_targets s) \<and> pt_ip (pr_targets s ! i) = ip"
    using probe_targets_wf [OF probe_example_reachable [OF s(1) [unfolded probe_sending_def]]] by blast
  ultimately have "map_of (pr_targetIndexByIp s) ''b'' = Some 1" "\<forall>i. map_of (pr_targetIndexByIp s) ''x'' \<noteq> Some i"
    by (simp, metis (no_types))
  then show ?thesis unfolding s(1) by simp
qed

text \<open>C20. What a device's being alive means: a tick can only make a target alive while a session takes replies, and
  only for an echo reply received in that tick from that very address with the session's identifier and the target's
  number; every other target that is alive was so before. A tick that opens a session leaves all its targets not alive,
  so no packet received up to then counts in it. (The identifier is the process id and the numbers repeat from session
  to session, so a late reply to an earlier session's request to the same address does count in a later one, and a
  reply may come before its request is sent.)\<close>

theorem alive_only_if_answered:
  assumes "probe_reachable L env tr s" and "probe_tick L env tn s = Inr s'"
  shows "(pr_state s \<noteq> PrSending \<and> pr_state s' = PrSending \<longrightarrow> (\<forall>t \<in> set (pr_targets s'). \<not> pt_alive t)) \<and>
    (\<forall>t \<in> set (pr_targets s'). pt_alive t \<longrightarrow> t \<in> set (pr_targets s) \<or>
       (canAcceptReply s \<and> t\<lparr>pt_alive := False\<rparr> \<in> set (pr_targets s) \<and>
        (\<exists>p. InPacket (pt_ip t) p \<in> set (tn_inputs tn) \<and> ih_type (ip_header p) = EchoReply \<and>
           ih_identifier (ip_header p) = pr_identifier s \<and> ih_sequence (ip_header p) = pt_sequence t)))"
proof -
  from probe_reachable_inv [OF assms(1)] have "probe_ok s" "pr_events s = []" by (simp_all add: probe_inv_def)
  from tick_phase [OF this assms(2)] show ?thesis
  proof
    assume o: "ongoing s (tn_inputs tn) s'"
    have "t \<in> set (pr_targets s) \<or> canAcceptReply s \<and> t\<lparr>pt_alive := False\<rparr> \<in> set (pr_targets s) \<and>
        (\<exists>p. InPacket (pt_ip t) p \<in> set (tn_inputs tn) \<and> ih_type (ip_header p) = EchoReply \<and>
           ih_identifier (ip_header p) = pr_identifier s \<and> ih_sequence (ip_header p) = pt_sequence t)"
      if t: "t \<in> set (pr_targets s')" "pt_alive t" for t
    proof (cases "t \<in> set (pr_targets s)")
      case False
      with o t unanswered_member [of "pr_targets s'" "pr_targets s" t]
      have "canAcceptReply s" "unanswered t \<in> set (pr_targets s)" "list_ex (answers s t) (tn_inputs tn)"
        by (auto simp: ongoing_def)
      then show ?thesis using answers_packet by (simp add: unanswered_def)
    qed simp
    with o show ?thesis by (auto simp: ongoing_def)
  qed (simp add: begun_def)
qed

theorem alive_only_if_answered_witness:
  "case probe_ticks unary_lib probe_env_example
     [probe_turn_example 1 [InProbeRequest], probe_turn_example 2 []] probe_started of
     Inl e \<Rightarrow> False
   | Inr s \<Rightarrow> (case probe_tick unary_lib probe_env_example
        (probe_turn_example 3 [reply_example ''b'' 2, reply_example ''a'' 2]) s of
       Inl e \<Rightarrow> False
     | Inr s' \<Rightarrow> map (\<lambda>t. (pt_ip t, pt_alive t)) (pr_targets s') = [(''a'', False), (''b'', True)] \<and>
         canAcceptReply s \<and> (\<exists>p. InPacket ''b'' p \<in> {reply_example ''b'' 2, reply_example ''a'' 2} \<and>
           ih_identifier (ip_header p) = pr_identifier s \<and> ih_sequence (ip_header p) = 2))"
  (is "case ?run of Inl e \<Rightarrow> False | Inr s \<Rightarrow> (case ?tick s of Inl e \<Rightarrow> False | Inr s' \<Rightarrow> ?P s s')")
proof -
  have "case ?run of Inl e \<Rightarrow> False | Inr s \<Rightarrow> (case ?tick s of Inl e \<Rightarrow> False | Inr s' \<Rightarrow>
      map (\<lambda>t. (pt_ip t, pt_sequence t, pt_alive t)) (pr_targets s') = [(''a'', 1, False), (''b'', 2, True)] \<and>
      map pt_alive (pr_targets s) = [False, False])" by code_simp
  then obtain s s' where s: "?run = Inr s" "?tick s = Inr s'" "map pt_alive (pr_targets s) = [False, False]"
    "map (\<lambda>t. (pt_ip t, pt_sequence t, pt_alive t)) (pr_targets s') = [(''a'', 1, False), (''b'', 2, True)]"
    by (auto split: sum.splits)
  have "(''b'', 2, True) \<in> (\<lambda>t. (pt_ip t, pt_sequence t, pt_alive t)) ` set (pr_targets s')"
    by (simp add: s(4) flip: set_map)
  then obtain t where t: "t \<in> set (pr_targets s')" "pt_ip t = ''b''" "pt_sequence t = 2" "pt_alive t" by auto
  have "True \<notin> pt_alive ` set (pr_targets s)" by (simp add: s(3) flip: set_map)
  with t(4) have "t \<notin> set (pr_targets s)" by (metis image_eqI)
  with alive_only_if_answered [OF probe_example_reachable [OF s(1)] s(2)] t
  have "canAcceptReply s \<and> (\<exists>p. InPacket ''b'' p \<in> set (tn_inputs (probe_turn_example 3 [reply_example ''b'' 2, reply_example ''a'' 2])) \<and>
      ih_identifier (ip_header p) = pr_identifier s \<and> ih_sequence (ip_header p) = 2)"
    by metis
  then have "canAcceptReply s" "\<exists>p. InPacket ''b'' p \<in> {reply_example ''b'' 2, reply_example ''a'' 2} \<and>
      ih_identifier (ip_header p) = pr_identifier s \<and> ih_sequence (ip_header p) = 2"
    by (auto simp: probe_turn_example_def)
  moreover have "map (\<lambda>t. (pt_ip t, pt_alive t)) (pr_targets s') = [(''a'', False), (''b'', True)]"
    using arg_cong [OF s(4), of "map (\<lambda>(ip, n, b). (ip, b))"] by (simp add: comp_def)
  ultimately show ?thesis unfolding s(1) by (simp add: s(2))
qed

text \<open>The report of a session: when the wait for replies is over, the next tick in which no new
  request has come ends the session and sends exactly one message, the result with the number and
  the addresses, in the order of the configuration, of the targets that had answered by then, the
  replies received in that tick included. It never fails, as long as \<^verbatim>\<open>inet_pton\<close> reads the source
  addresses \<^verbatim>\<open>inet_ntop\<close> wrote.\<close>

theorem session_reported:
  assumes "probe_reachable L env tr s" and "pr_state s = PrWaitingReplies"
    and "tn_ready t" and "InProbeRequest \<notin> set (tn_inputs t)"
    and "replyWaitExpired (tn_cfg t) (tn_clock t 0) s = Inr True" and "sources_valid env (tr @ tn_inputs t)"
  shows "\<exists>s'. probe_tick L env t s = Inr s' \<and> pr_state s' = PrIdle \<and>
    (let ips = answered_ips s (tn_inputs t) in
       pr_tx s' = pr_tx s @ [probe_result L (of_nat (length ips)) ips] \<and> aliveIps s' = ips)"
  using tick_completes [OF _ _ _ assms(2-6)] probe_reachable_inv [OF assms(1)] by (fastforce simp: Let_def)

theorem session_reported_witness:
  "case probe_ticks unary_lib probe_env_example
     [probe_turn_example 1 [InProbeRequest], probe_turn_example 2 [], probe_turn_example 3 []] probe_started of
     Inl e \<Rightarrow> False
   | Inr s \<Rightarrow> \<exists>s'. probe_tick unary_lib probe_env_example (probe_turn_example 4 [reply_example ''b'' 2]) s = Inr s' \<and>
       pr_state s' = PrIdle \<and> pr_tx s' = [probe_result unary_lib 1 [''b'']]"
  (is "case ?run of Inl e \<Rightarrow> False | Inr s \<Rightarrow> ?P s")
proof -
  let ?t = "probe_turn_example 4 [reply_example ''b'' 2]"
  have "case ?run of Inl e \<Rightarrow> False | Inr s \<Rightarrow> pr_state s = PrWaitingReplies \<and> pr_tx s = [] \<and>
      answered_ips s [reply_example ''b'' 2] = [''b''] \<and>
      replyWaitExpired (tn_cfg ?t) (tn_clock ?t 0) s = Inr True" by code_simp
  then obtain s where s: "?run = Inr s" "pr_state s = PrWaitingReplies" "pr_tx s = []"
    "answered_ips s [reply_example ''b'' 2] = [''b'']"
    "replyWaitExpired (tn_cfg ?t) (tn_clock ?t 0) s = Inr True" by (auto split: sum.splits)
  have t: "tn_ready ?t" "tn_inputs ?t = [reply_example ''b'' 2]" by (simp_all add: probe_turn_example_def)
  have "InProbeRequest \<notin> set (tn_inputs ?t)" "sources_valid probe_env_example (tr @ tn_inputs ?t)" for tr
    unfolding t(2) by (simp_all add: reply_example_def sources_valid_def probe_env_example_def)
  from session_reported [OF probe_example_reachable [OF s(1)] s(2) t(1) this(1) s(5) this(2)] s(1,3,4)
  show ?thesis by (auto simp: Let_def t(2))
qed

text \<open>C21. A session ends: while no new request comes, the settings can be read, the batch size is
  not zero and the ticks are at least \<open>D\<close> apart, where \<open>D\<close> is no less than the batch interval and the
  maximal wait, a session is over and its one result sent after at most as many ticks as targets
  are still to be asked, and two more, whatever replies keep coming from addresses
  \<^verbatim>\<open>inet_pton\<close> reads. \<open>since\<close> is a time the session's last batch and its wait do not lie after.\<close>

theorem session_ends:
  assumes "probe_reachable L env tr s" and "canAcceptReply s" and "times_before since s"
    and "list_all (\<lambda>t. tn_ready t \<and> prompt D (tn_cfg t) \<and> InProbeRequest \<notin> set (tn_inputs t)) ts"
    and "spaced D since ts" and "sources_valid env (tr @ concat (map tn_inputs ts))"
    and "length (pr_targets s) - pr_nextSendIndex s + 2 \<le> length ts"
  shows "\<exists>n s'. n \<le> length (pr_targets s) - pr_nextSendIndex s + 2 \<and>
    probe_ticks L env (take n ts) s = Inr s' \<and> pr_state s' = PrIdle \<and>
    pr_tx s' = pr_tx s @ [probe_result L (of_nat (length (aliveIps s'))) (aliveIps s')]"
proof -
  have "turns_left s \<le> length (pr_targets s) - pr_nextSendIndex s + 2" by (simp add: turns_left_def)
  with session_bounded [OF assms(4) _ _ _ assms(2,3,5,6), of L] probe_reachable_inv [OF assms(1)] assms(7)
  show ?thesis by (meson le_trans)
qed


lemma spaced_turn:
  "since + D \<le> seconds (100 * k) \<Longrightarrow> spaced D (seconds (100 * k)) ts \<Longrightarrow>
     spaced D since (probe_turn_example k inputs # ts)"
  by (auto simp: probe_turn_example_def)

theorem session_ends_witness:
  "case probe_sending of Inl e \<Rightarrow> False
   | Inr s \<Rightarrow> \<exists>n s'. n \<le> 4 \<and> probe_ticks unary_lib probe_env_example
       (take n (map (\<lambda>k. probe_turn_example k [reply_example ''a'' 1]) [2, 3, 4, 5])) s = Inr s' \<and> pr_state s' = PrIdle"
proof -
  obtain s where s: "probe_sending = Inr s" "pr_state s = PrSending" "map pt_ip (pr_targets s) = [''a'', ''b'']"
    "pr_lastBatchSentAt s \<le> seconds 100" "pr_nextSendIndex s = 0"
    using probe_sending_run by (auto split: sum.splits)
  let ?ts = "map (\<lambda>k. probe_turn_example k [reply_example ''a'' 1]) [2, 3, 4, 5]"
  have "prompt (seconds 100) (probe_config_example '' x '')"
  proof -
    have "probeBatchSize (probe_config_example '' x '') = Inr 32"
      "probeBatchInterval (probe_config_example '' x '') = Inr (milliseconds 20)"
      "replyIdleTimeout (probe_config_example '' x '') = Inr (seconds 5)"
      "replyMaxWaitTimeout (probe_config_example '' x '') = Inr (seconds 15)" by code_simp+
    then show ?thesis by (simp add: prompt_def milliseconds_def seconds_def)
  qed
  then have ts: "list_all (\<lambda>t. tn_ready t \<and> prompt (seconds 100) (tn_cfg t) \<and> InProbeRequest \<notin> set (tn_inputs t)) ?ts"
    by (simp add: probe_turn_example_def reply_example_def)
  have sp: "spaced (seconds 100) (seconds 100) ?ts"
    by (simp only: list.map) (intro spaced_turn, simp_all add: seconds_def)
  have "length (map pt_ip (pr_targets s)) = 2" unfolding s(3) by simp
  then have active: "canAcceptReply s" "times_before (seconds 100) s" "length (pr_targets s) = 2"
    using s(2,4) by (simp_all add: canAcceptReply_def times_before_def)
  have src: "sources_valid probe_env_example (tr @ concat (map tn_inputs ?ts))" for tr
    by (simp add: sources_valid_def probe_env_example_def)
  from session_ends [OF probe_example_reachable [OF s(1) [unfolded probe_sending_def]] active(1,2) ts sp src] active(3) s(5)
  show ?thesis unfolding s(1) sum.case by auto
qed

subsection \<open>What goes wrong\<close>

text \<open>
  A request that arrives in the tick in which a session ends overtakes the result: its event is
  handled before the result's action, and its own action, posted first, empties the targets. What is
  sent is the number of the old session with no addresses, on which \<^verbatim>\<open>engined\<close> marks every device down.
\<close>

theorem result_overtaken:
  "case probe_ticks unary_lib probe_env_example
     [probe_turn_example 1 [InProbeRequest], probe_turn_example 2 [], probe_turn_example 3 [],
      probe_turn_example 4 [reply_example ''b'' 2, InProbeRequest]] probe_started of
     Inl e \<Rightarrow> False
   | Inr s \<Rightarrow> pr_tx s = [probe_result unary_lib 1 []] \<and> pr_state s = PrSending"
  by code_simp

text \<open>
  When every configured device is excluded the result is sent at once, with the number of the
  session before; the empty session then runs and reports again.
\<close>

theorem stale_alive_count:
  "case probe_ticks unary_lib probe_env_example
     [probe_turn_example 1 [InProbeRequest]] (probe_started\<lparr>pr_localIps := [''a'', ''b'', ''x''], pr_lastAliveCount := 9\<rparr>) of
     Inl e \<Rightarrow> False
   | Inr s \<Rightarrow> pr_tx s = [probe_result unary_lib 9 []] \<and> pr_state s = PrSending"
  by code_simp

text \<open>With a batch size of zero no request is ever sent, so no tick ends the session.\<close>

lemma batch_size_zero: "probeBatchSize c = Inr 0 \<Longrightarrow> sendProbeBatch c now s = Inr (s\<lparr>pr_lastBatchSentAt := now\<rparr>)"
  unfolding sendProbeBatch_def by (subst send_loop.simps) simp

end
