(* ===== verification/Text_Codec.thy ===== *)
theory Text_Codec
  imports Json_Model "HOL-Library.Sublist"
begin

text \<open>
  The text encodings of the web front and the credential store: percent encoding
  (\<^verbatim>\<open>shared/http/UrlEncode.cpp\<close>) with the two decoders of the management daemon
  (\<^verbatim>\<open>mgmtd/service/web/WebUtil.h\<close> and \<^verbatim>\<open>SsoController.cpp\<close>), and Base64 in its plain
  (\<^verbatim>\<open>shared/util/Secret.cpp\<close>, \<^verbatim>\<open>SsoController.cpp\<close>) and its URL form
  (\<^verbatim>\<open>authd/service/auth/OktaClient.cpp\<close>). The decoders shift a 32-bit \<^verbatim>\<open>int\<close> left without ever
  masking it; the bits that fall off are undefined in C++17 and dropped by the compiler the project
  builds with, as they are here. No bit above the fourteenth is ever read.
\<close>

subsection \<open>Hexadecimal digits\<close>

definition byte_of :: "char \<Rightarrow> u8" where
  "byte_of c = of_nat (of_char c)"

definition char_of_byte :: "u8 \<Rightarrow> char" where
  "char_of_byte b = char_of (unat b)"

lemma char_of_byte_of [simp]: "char_of_byte (byte_of c) = c"
proof -
  have "(of_char c :: nat) < 256" by (rule nat_of_char_less_256)
  then show ?thesis
    by (simp add: char_of_byte_def byte_of_def unsigned_of_nat take_bit_nat_eq_self)
qed

lemma byte_of_char_of [simp]: "byte_of (char_of_byte b) = b"
proof -
  have "unat b < 256" using unsigned_less [of b] by simp
  then show ?thesis by (simp add: char_of_byte_def byte_of_def)
qed

text \<open>The two digits of a byte, by one of the tables.\<close>

definition hex_upper :: string where
  "hex_upper = ''0123456789ABCDEF''"

definition hex_lower :: string where
  "hex_lower = ''0123456789abcdef''"

definition hex_digits :: "string \<Rightarrow> u8 \<Rightarrow> string" where
  "hex_digits table b = [table ! unat (drop_bit 4 b AND 0xF), table ! unat (b AND 0xF)]"

definition toHex :: "bytes \<Rightarrow> string" where
  "toHex bs = concat (map (hex_digits hex_lower) bs)"

subsection \<open>Percent encoding\<close>

definition is_between :: "char \<Rightarrow> char \<Rightarrow> char \<Rightarrow> bool" where
  "is_between lo hi c \<longleftrightarrow> (of_char lo :: nat) \<le> of_char c \<and> (of_char c :: nat) \<le> of_char hi"

definition isdigit :: "char \<Rightarrow> bool" where
  "isdigit = is_between CHR ''0'' CHR ''9''"

definition isalnum :: "char \<Rightarrow> bool" where
  "isalnum c \<longleftrightarrow> isdigit c \<or> is_between CHR ''A'' CHR ''Z'' c \<or> is_between CHR ''a'' CHR ''z'' c"

definition isxdigit :: "char \<Rightarrow> bool" where
  "isxdigit c \<longleftrightarrow> isdigit c \<or> is_between CHR ''A'' CHR ''F'' c \<or> is_between CHR ''a'' CHR ''f'' c"

definition unreserved :: "char \<Rightarrow> bool" where
  "unreserved c \<longleftrightarrow> isalnum c \<or> c \<in> set ''-_.~''"

definition urlEncode :: "string \<Rightarrow> string" where
  "urlEncode raw =
     concat (map (\<lambda>c. if unreserved c then [c] else CHR ''%'' # hex_digits hex_upper (byte_of c)) raw)"

text \<open>\<^verbatim>\<open>std::stoi\<close> of two hexadecimal digits, and the digit function of the other decoder.\<close>

definition hexv :: "char \<Rightarrow> int" where
  "hexv h =
     (if is_between CHR ''0'' CHR ''9'' h then int (of_char h) - of_char CHR ''0''
      else if is_between CHR ''a'' CHR ''f'' h then int (of_char h) - of_char CHR ''a'' + 10
      else if is_between CHR ''A'' CHR ''F'' h then int (of_char h) - of_char CHR ''A'' + 10
      else - 1)"

definition stoi_hex2 :: "char \<Rightarrow> char \<Rightarrow> int" where
  "stoi_hex2 a b = 16 * hexv a + hexv b"

fun urlDecode :: "string \<Rightarrow> string" where
  "urlDecode [] = []"
| "urlDecode (c # rest) =
     (if c = CHR ''+'' then CHR '' '' # urlDecode rest
      else case rest of
        a # b # rest' \<Rightarrow>
          if c = CHR ''%'' \<and> isxdigit a \<and> isxdigit b
          then char_of (nat (stoi_hex2 a b)) # urlDecode rest'
          else c # urlDecode rest
      | _ \<Rightarrow> c # urlDecode rest)"

fun ssoUrlDecode :: "string \<Rightarrow> string" where
  "ssoUrlDecode [] = []"
| "ssoUrlDecode (c # rest) =
     (if c = CHR ''+'' then CHR '' '' # ssoUrlDecode rest
      else case rest of
        a # b # rest' \<Rightarrow>
          if c = CHR ''%'' then
            (let hi = hexv a; lo = hexv b in
             if hi \<ge> 0 \<and> lo \<ge> 0
             then char_of_byte (of_int (push_bit 4 hi OR lo)) # ssoUrlDecode rest'
             else c # ssoUrlDecode rest)
          else c # ssoUrlDecode rest
      | _ \<Rightarrow> c # ssoUrlDecode rest)"

lemma hexv_digit: "isxdigit c \<longleftrightarrow> 0 \<le> hexv c" and hexv_bound: "hexv c < 16"
  by (auto simp: isxdigit_def hexv_def is_between_def isdigit_def)

lemma hex_table:
  assumes "k < 16"
  shows "hexv (hex_upper ! k) = int k"
proof -
  have "\<forall>k < 16. hexv (hex_upper ! k) = int k" by code_simp
  with assms show ?thesis by blast
qed

lemma low_nibble: "unat (b AND 0xF) = unat (b :: u8) mod 16"
proof -
  have "b AND 0xF = take_bit 4 b" by (simp add: take_bit_eq_mask mask_eq_exp_minus_1)
  then show ?thesis by (simp add: unsigned_take_bit_eq take_bit_nat_def)
qed

lemma hex_digits_eq: "hex_digits table b = [table ! (unat b div 16), table ! (unat b mod 16)]"
proof -
  have "unat b < 256" using unsigned_less [of b] by simp
  then show ?thesis by (simp add: hex_digits_def low_nibble unat_drop_bit_eq drop_bit_nat_def)
qed

lemma hex_digits_decode:
  assumes "hex_digits hex_upper (byte_of c) = [a, b]"
  shows "isxdigit a \<and> isxdigit b \<and> 0 \<le> hexv a \<and> 0 \<le> hexv b \<and> stoi_hex2 a b = int (of_char c)"
proof -
  let ?n = "unat (byte_of c)"
  have n: "?n < 256" "?n = of_char c"
    using unsigned_less [of "byte_of c"] nat_of_char_less_256 [of c]
    by (simp_all add: byte_of_def unsigned_of_nat take_bit_nat_eq_self)
  have "a = hex_upper ! (?n div 16)" "b = hex_upper ! (?n mod 16)"
    using assms by (simp_all add: hex_digits_eq)
  with hex_table n(1) have v: "hexv a = int (?n div 16)" "hexv b = int (?n mod 16)" by simp_all
  then have "stoi_hex2 a b = int (16 * (?n div 16) + ?n mod 16)" by (simp only: stoi_hex2_def of_nat_add of_nat_mult of_nat_numeral)
  also have "16 * (?n div 16) + ?n mod 16 = ?n" by (rule mult_div_mod_eq)
  finally show ?thesis using v n(2) by (simp add: hexv_digit)
qed

lemma unreserved_plain: "unreserved c \<Longrightarrow> c \<noteq> CHR ''+'' \<and> c \<noteq> CHR ''%''"
  by (auto simp: unreserved_def isalnum_def isdigit_def is_between_def)

lemma urlDecode_plain:
  assumes "c \<noteq> CHR ''+''" and "c \<noteq> CHR ''%''"
  shows "urlDecode (c # rest) = c # urlDecode rest"
  using assms by (simp split: list.split)

lemma urlEncode_Cons:
  "urlEncode (c # rest) = (if unreserved c then [c] else CHR ''%'' # hex_digits hex_upper (byte_of c)) @ urlEncode rest"
  by (simp add: urlEncode_def)

lemma urlDecode_urlEncode: "urlDecode (urlEncode s @ rest) = s @ urlDecode rest"
proof (induction s)
  case (Cons c s)
  show ?case
  proof (cases "unreserved c")
    case True
    with unreserved_plain [OF True] Cons show ?thesis
      by (simp add: urlEncode_Cons urlDecode_plain del: urlDecode.simps)
  next
    case False
    obtain a b where ab: "hex_digits hex_upper (byte_of c) = [a, b]" by (simp add: hex_digits_def)
    from hex_digits_decode [OF ab] False Cons show ?thesis by (simp add: urlEncode_Cons ab)
  qed
qed (simp add: urlEncode_def)

text \<open>The two decoders are one function.\<close>

lemma hexv_combine:
  assumes "0 \<le> hexv a" and "0 \<le> hexv b"
  shows "char_of_byte (of_int (push_bit 4 (hexv a) OR hexv b)) = char_of (nat (stoi_hex2 a b))"
proof -
  have ab: "hexv a < 16" "hexv b < 16" by (rule hexv_bound)+
  have "take_bit 4 (hexv b) = hexv b" using assms(2) ab(2) by (simp add: take_bit_int_eq_self)
  then have low: "bit (hexv b) n \<Longrightarrow> n < 4" for n by (metis bit_take_bit_iff)
  have "push_bit 4 (hexv a) OR hexv b = push_bit 4 (hexv a) + hexv b"
    by (rule disjunctive_add [symmetric]) (auto simp: bit_push_bit_iff dest: low)
  also have "\<dots> = stoi_hex2 a b" by (simp add: stoi_hex2_def push_bit_eq_mult)
  finally have "push_bit 4 (hexv a) OR hexv b = stoi_hex2 a b" .
  moreover have "unat (of_int x :: u8) = nat x" if "0 \<le> x" "x < 256" for x
    using that by (simp add: unsigned_of_int take_bit_int_eq_self)
  moreover have "0 \<le> stoi_hex2 a b" "stoi_hex2 a b < 256" using assms ab by (simp_all add: stoi_hex2_def)
  ultimately show ?thesis by (simp add: char_of_byte_def)
qed

lemma decoders_agree: "ssoUrlDecode s = urlDecode s"
proof (induction s rule: urlDecode.induct)
  case (2 c rest)
  show ?case
  proof (cases "c = CHR ''+''")
    case False
    show ?thesis
    proof (cases "\<exists>a b rest'. rest = a # b # rest'")
      case True
      then obtain a b rest' where rest: "rest = a # b # rest'" by blast
      show ?thesis
        using 2 False hexv_combine [of a b] by (auto simp: rest hexv_digit Let_def)
    qed (use 2 False in \<open>auto split: list.split\<close>)
  qed (use 2 in simp)
qed simp

subsection \<open>Base64\<close>

definition b64_std :: string where
  "b64_std = ''ABCDEFGHIJKLMNOPQRSTUVWXYZabcdefghijklmnopqrstuvwxyz0123456789+/''"

definition b64_url :: string where
  "b64_url = ''ABCDEFGHIJKLMNOPQRSTUVWXYZabcdefghijklmnopqrstuvwxyz0123456789-_''"

definition sextet :: "string \<Rightarrow> u32 \<Rightarrow> nat \<Rightarrow> char" where
  "sextet tbl n k = tbl ! unat (drop_bit k n AND 63)"

fun base64_groups :: "string \<Rightarrow> string \<Rightarrow> bytes \<Rightarrow> string" where
  "base64_groups tbl pad (a # b # c # rest) =
     (let n = push_bit 16 (ucast a) OR push_bit 8 (ucast b) OR ucast c in
      [sextet tbl n 18, sextet tbl n 12, sextet tbl n 6, sextet tbl n 0] @ base64_groups tbl pad rest)"
| "base64_groups tbl pad [a, b] =
     (let n = push_bit 16 (ucast a) OR push_bit 8 (ucast b) in
      [sextet tbl n 18, sextet tbl n 12, sextet tbl n 6] @ pad)"
| "base64_groups tbl pad [a] =
     (let n = push_bit 16 (ucast a) in [sextet tbl n 18, sextet tbl n 12] @ pad @ pad)"
| "base64_groups tbl pad [] = []"

definition base64Encode :: "bytes \<Rightarrow> string" where
  "base64Encode = base64_groups b64_std ''=''"

definition ssoBase64 :: "string \<Rightarrow> string" where
  "ssoBase64 s = base64_groups b64_std ''='' (map byte_of s)"

definition base64UrlEncode :: "bytes \<Rightarrow> string" where
  "base64UrlEncode = base64_groups b64_url []"

text \<open>The value of a digit, by the two characters that differ.\<close>

definition b64_val :: "char \<Rightarrow> char \<Rightarrow> char \<Rightarrow> int" where
  "b64_val c62 c63 c =
     (if is_between CHR ''A'' CHR ''Z'' c then int (of_char c) - of_char CHR ''A''
      else if is_between CHR ''a'' CHR ''z'' c then int (of_char c) - of_char CHR ''a'' + 26
      else if is_between CHR ''0'' CHR ''9'' c then int (of_char c) - of_char CHR ''0'' + 52
      else if c = c62 then 62 else if c = c63 then 63 else - 1)"

definition std_val :: "char \<Rightarrow> int" where
  "std_val = b64_val CHR ''+'' CHR ''/''"

definition url_val :: "char \<Rightarrow> int" where
  "url_val = b64_val CHR ''-'' CHR ''_''"

text \<open>The plain decoder skips what is no digit, the URL decoder refuses it.\<close>

fun base64Decode_loop :: "u32 \<Rightarrow> nat \<Rightarrow> string \<Rightarrow> bytes" where
  "base64Decode_loop buf bits [] = []"
| "base64Decode_loop buf bits (c # rest) =
     (if c = CHR ''='' then []
      else let v = std_val c in
        if v < 0 then base64Decode_loop buf bits rest
        else
          let buf = push_bit 6 buf OR of_int v; bits = bits + 6 in
          if bits \<ge> 8
          then ucast (drop_bit (bits - 8) buf AND 0xFF) # base64Decode_loop buf (bits - 8) rest
          else base64Decode_loop buf bits rest)"

definition base64Decode :: "string \<Rightarrow> bytes" where
  "base64Decode = base64Decode_loop 0 0"

fun base64UrlDecode_loop :: "u32 \<Rightarrow> nat \<Rightarrow> string \<Rightarrow> bytes option" where
  "base64UrlDecode_loop buf bits [] = Some []"
| "base64UrlDecode_loop buf bits (c # rest) =
     (if c = CHR ''='' then Some []
      else let v = url_val c in
        if v < 0 then None
        else
          let buf = push_bit 6 buf OR of_int v; bits = bits + 6 in
          if bits \<ge> 8
          then map_option (\<lambda>out. ucast (drop_bit (bits - 8) buf AND 0xFF) # out)
                 (base64UrlDecode_loop buf (bits - 8) rest)
          else base64UrlDecode_loop buf bits rest)"

definition base64UrlDecode :: "string \<Rightarrow> bytes option" where
  "base64UrlDecode = base64UrlDecode_loop 0 0"

text \<open>
  What an alphabet and its digit function have to promise each other, and a decoder that reads digits:
  then the digits of a group give its bytes back, whatever the buffer held before.
\<close>

lemma byte_bits:
  assumes "\<And>n. n < 8 \<Longrightarrow> bit x n = bit y n"
  shows "x = (y :: u8)"
  using assms by (intro bit_word_eqI) simp

lemma less_8_cases: "(n :: nat) < 8 \<Longrightarrow> n = 0 \<or> n = 1 \<or> n = 2 \<or> n = 3 \<or> n = 4 \<or> n = 5 \<or> n = 6 \<or> n = 7"
  by arith

lemma no_high_bit: "8 \<le> n \<Longrightarrow> \<not> bit (b :: u8) n"
  using bit_imp_le_length [of b n] by auto

locale base64_alphabet =
  fixes tbl :: string and val :: "char \<Rightarrow> int" and loop :: "u32 \<Rightarrow> nat \<Rightarrow> string \<Rightarrow> bytes option"
  assumes val_tbl: "k < 64 \<Longrightarrow> val (tbl ! k) = int k"
    and no_pad: "k < 64 \<Longrightarrow> tbl ! k \<noteq> CHR ''=''"
    and loop_Nil: "loop buf bits [] = Some []"
    and loop_pad: "loop buf bits (CHR ''='' # rest) = Some []"
    and loop_digit: "c \<noteq> CHR ''='' \<Longrightarrow> 0 \<le> val c \<Longrightarrow> loop buf bits (c # rest) =
      (let buf = push_bit 6 buf OR of_int (val c); bits = bits + 6 in
       if bits \<ge> 8
       then map_option (\<lambda>out. ucast (drop_bit (bits - 8) buf AND 0xFF) # out) (loop buf (bits - 8) rest)
       else loop buf bits rest)"
begin

lemma loop_sextet:
  "loop buf bits (sextet tbl n k # rest) =
     (let buf = push_bit 6 buf OR (drop_bit k n AND 63); bits = bits + 6 in
      if bits \<ge> 8
      then map_option (\<lambda>out. ucast (drop_bit (bits - 8) buf AND 0xFF) # out) (loop buf (bits - 8) rest)
      else loop buf bits rest)"
proof -
  have "unat (drop_bit k n AND 63) < 64"
  proof -
    have "drop_bit k n AND 63 = take_bit 6 (drop_bit k n)" by (simp add: take_bit_eq_mask mask_eq_exp_minus_1)
    then show ?thesis by (simp add: unsigned_take_bit_eq take_bit_nat_def)
  qed
  with val_tbl no_pad have v: "val (sextet tbl n k) = int (unat (drop_bit k n AND 63))"
    "sextet tbl n k \<noteq> CHR ''=''" unfolding sextet_def by blast+
  then show ?thesis by (subst loop_digit) simp_all
qed

lemma loop_four:
  fixes buf n :: u32
  defines "b1 \<equiv> push_bit 6 buf OR (drop_bit 18 n AND 63)"
  defines "b2 \<equiv> push_bit 6 b1 OR (drop_bit 12 n AND 63)"
  defines "b3 \<equiv> push_bit 6 b2 OR (drop_bit 6 n AND 63)"
  defines "b4 \<equiv> push_bit 6 b3 OR (drop_bit 0 n AND 63)"
  shows "loop buf 0 (sextet tbl n 18 # rest) = loop b1 6 rest"
    "loop b1 6 (sextet tbl n 12 # rest) = map_option (\<lambda>out. ucast (drop_bit 16 n) # out) (loop b2 4 rest)"
    "loop b2 4 (sextet tbl n 6 # rest) = map_option (\<lambda>out. ucast (drop_bit 8 n) # out) (loop b3 2 rest)"
    "loop b3 2 (sextet tbl n 0 # rest) = map_option (\<lambda>out. ucast n # out) (loop b4 0 rest)"
proof -
  have bits: "ucast (drop_bit 4 b2 AND 0xFF) = (ucast (drop_bit 16 n) :: u8)"
    "ucast (drop_bit 2 b3 AND 0xFF) = (ucast (drop_bit 8 n) :: u8)"
    "ucast (drop_bit 0 b4 AND 0xFF) = (ucast n :: u8)"
    unfolding b4_def b3_def b2_def b1_def
    by (rule byte_bits, drule less_8_cases, elim disjE; simp add: bit_simps)+
  show "loop buf 0 (sextet tbl n 18 # rest) = loop b1 6 rest"
    by (simp only: loop_sextet b1_def Let_def) simp
  show "loop b1 6 (sextet tbl n 12 # rest) = map_option (\<lambda>out. ucast (drop_bit 16 n) # out) (loop b2 4 rest)"
    unfolding bits [symmetric] by (simp only: loop_sextet b2_def Let_def) simp
  show "loop b2 4 (sextet tbl n 6 # rest) = map_option (\<lambda>out. ucast (drop_bit 8 n) # out) (loop b3 2 rest)"
    unfolding bits [symmetric] by (simp only: loop_sextet b3_def Let_def) simp
  show "loop b3 2 (sextet tbl n 0 # rest) = map_option (\<lambda>out. ucast n # out) (loop b4 0 rest)"
    unfolding bits [symmetric] by (simp only: loop_sextet b4_def Let_def) simp
qed

lemma group_bytes:
  "ucast (drop_bit 16 (push_bit 16 (ucast a) OR push_bit 8 (ucast b) OR ucast c :: u32)) = (a :: u8)"
  "ucast (drop_bit 8 (push_bit 16 (ucast a) OR push_bit 8 (ucast b) OR ucast c :: u32)) = (b :: u8)"
  "ucast (push_bit 16 (ucast (a :: u8)) OR push_bit 8 (ucast (b :: u8)) OR ucast c :: u32) = (c :: u8)"
  by (rule byte_bits, simp add: bit_simps no_high_bit)+

lemma loop_groups:
  assumes "pad = [] \<or> pad = ''=''"
  shows "loop buf 0 (base64_groups tbl pad bs) = Some bs"
proof (induction "length bs" arbitrary: bs buf rule: less_induct)
  case less
  have pad: "loop x k pad = Some []" "loop x k (pad @ pad) = Some []" for x k
    using assms loop_Nil loop_pad by auto
  consider "bs = []" | a where "bs = [a]" | a b where "bs = [a, b]" | a b c rest where "bs = a # b # c # rest"
    by (metis list.exhaust)
  then show ?case
  proof cases
    case 1
    then show ?thesis by (simp add: loop_Nil)
  next
    case (2 a)
    have "ucast (drop_bit 16 (push_bit 16 (ucast a) :: u32)) = a" using group_bytes(1) [of a 0 0] by simp
    then show ?thesis by (simp only: 2 base64_groups.simps Let_def append.simps loop_four pad option.map)
  next
    case (3 a b)
    let ?n = "push_bit 16 (ucast a) OR push_bit 8 (ucast b) :: u32"
    have "ucast (drop_bit 16 ?n) = a" "ucast (drop_bit 8 ?n) = b"
      using group_bytes(1,2) [of a b 0] by simp_all
    then show ?thesis by (simp only: 3 base64_groups.simps Let_def append.simps loop_four pad option.map)
  next
    case (4 a b c rest)
    then have IH: "loop x 0 (base64_groups tbl pad rest) = Some rest" for x using less by simp
    show ?thesis
      by (simp only: 4 base64_groups.simps Let_def append.simps loop_four group_bytes IH option.map)
  qed
qed

end

text \<open>Both pairs of a table and a decoder keep the promise.\<close>

lemma b64_tables:
  "k < 64 \<Longrightarrow> std_val (b64_std ! k) = int k \<and> b64_std ! k \<noteq> CHR ''=''"
  "k < 64 \<Longrightarrow> url_val (b64_url ! k) = int k \<and> b64_url ! k \<noteq> CHR ''=''"
proof -
  have "map std_val b64_std = map int [0..<64]" "map url_val b64_url = map int [0..<64]"
    by (simp_all add: std_val_def url_val_def b64_val_def b64_std_def b64_url_def is_between_def upt_conv_Cons)
  moreover have "length b64_std = 64" "length b64_url = 64" by (simp_all add: b64_std_def b64_url_def)
  ultimately have "k < 64 \<Longrightarrow> std_val (b64_std ! k) = int k" "k < 64 \<Longrightarrow> url_val (b64_url ! k) = int k" for k
    by (metis add_0 diff_zero length_upt nth_map nth_upt)+
  moreover have "std_val CHR ''='' = - 1" "url_val CHR ''='' = - 1"
    by (simp_all add: std_val_def url_val_def b64_val_def is_between_def)
  ultimately show "k < 64 \<Longrightarrow> std_val (b64_std ! k) = int k \<and> b64_std ! k \<noteq> CHR ''=''"
    "k < 64 \<Longrightarrow> url_val (b64_url ! k) = int k \<and> b64_url ! k \<noteq> CHR ''=''" by fastforce+
qed

interpretation std: base64_alphabet b64_std std_val "\<lambda>buf bits s. Some (base64Decode_loop buf bits s)"
proof unfold_locales
  fix c buf bits rest
  assume "c \<noteq> CHR ''=''" "0 \<le> std_val c"
  then show "Some (base64Decode_loop buf bits (c # rest)) =
      (let buf = push_bit 6 buf OR word_of_int (std_val c); bits = bits + 6 in
       if bits \<ge> 8
       then map_option (\<lambda>out. ucast (drop_bit (bits - 8) buf AND 0xFF) # out) (Some (base64Decode_loop buf (bits - 8) rest))
       else Some (base64Decode_loop buf bits rest))"
    by (simp add: Let_def)
qed (simp_all add: b64_tables(1))

interpretation url: base64_alphabet b64_url url_val base64UrlDecode_loop
proof unfold_locales
  fix c buf bits rest
  assume "c \<noteq> CHR ''=''" "0 \<le> url_val c"
  then show "base64UrlDecode_loop buf bits (c # rest) =
      (let buf = push_bit 6 buf OR word_of_int (url_val c); bits = bits + 6 in
       if bits \<ge> 8
       then map_option (\<lambda>out. ucast (drop_bit (bits - 8) buf AND 0xFF) # out) (base64UrlDecode_loop buf (bits - 8) rest)
       else base64UrlDecode_loop buf bits rest)"
    by (simp add: Let_def)
qed (simp_all add: b64_tables(2))

subsection \<open>The properties\<close>

text \<open>Percent encoding loses nothing: whatever bytes a value holds, reserved ones, spaces, plus and
  percent signs included, both decoders of the management daemon read its encoding back, also with
  other text behind it, and the encoding itself consists of unreserved characters and percent signs only.\<close>

theorem url_roundtrip:
  "urlDecode (urlEncode s @ rest) = s @ urlDecode rest \<and> ssoUrlDecode (urlEncode s @ rest) = s @ ssoUrlDecode rest \<and>
   list_all (\<lambda>c. unreserved c \<or> c = CHR ''%'') (urlEncode s)"
proof -
  have "unreserved c" if "isxdigit c" for c
    using that by (auto simp: unreserved_def isalnum_def isxdigit_def isdigit_def is_between_def)
  then have "list_all unreserved (hex_digits hex_upper b)" for b
    using hex_digits_decode [of "char_of_byte b"] by (simp add: hex_digits_eq)
  then have "list_all (\<lambda>c. unreserved c \<or> c = CHR ''%'') (urlEncode s)"
    by (induction s) (auto simp: urlEncode_def list_all_iff)
  then show ?thesis by (simp add: urlDecode_urlEncode decoders_agree)
qed

text \<open>Base64 loses nothing: the decoder of the credential store reads back every byte sequence its
  encoder wrote, of whatever length, and so does the URL form's, which leaves the padding out; the
  encoder of the sign-in page is the credential store's.\<close>

theorem base64_roundtrip:
  "base64Decode (base64Encode bs) = bs \<and> base64UrlDecode (base64UrlEncode bs) = Some bs \<and>
   base64Decode (ssoBase64 s) = map byte_of s"
  using std.loop_groups [of "''=''" 0] url.loop_groups [of "[]" 0 bs]
  by (simp add: base64Decode_def base64Encode_def base64UrlDecode_def base64UrlEncode_def ssoBase64_def)

subsection \<open>Searching\<close>

text \<open>\<^verbatim>\<open>std::tolower\<close> of the C locale.\<close>

definition to_lower :: "char \<Rightarrow> char" where
  "to_lower c = (if is_between (CHR ''A'') (CHR ''Z'') c then char_of (of_char c + (32 :: nat)) else c)"

text \<open>The text of a payload.\<close>

definition string_of_bytes :: "bytes \<Rightarrow> string" where
  "string_of_bytes bs = map char_of_byte bs"

text \<open>\<^verbatim>\<open>std::string::find\<close>: where the key first occurs at or after a position.\<close>

fun str_find :: "string \<Rightarrow> string \<Rightarrow> nat option" where
  "str_find key [] = (if key = [] then Some 0 else None)"
| "str_find key (c # s) = (if prefix key (c # s) then Some 0 else map_option Suc (str_find key s))"

definition find_from :: "string \<Rightarrow> string \<Rightarrow> nat \<Rightarrow> nat option" where
  "find_from key s pos = (if pos > length s then None else map_option (\<lambda>i. pos + i) (str_find key (drop pos s)))"

lemma str_find_bound: "str_find key s = Some i \<Longrightarrow> i + length key \<le> length s \<and> take (length key) (drop i s) = key"
proof (induction s arbitrary: i)
  case (Cons c s)
  show ?case
  proof (cases "prefix key (c # s)")
    case True
    with Cons.prems have "i = 0" by simp
    with True show ?thesis using prefix_length_le [OF True] by (auto simp: prefix_def)
  next
    case False
    with Cons.prems Cons.IH show ?thesis by auto
  qed
qed (auto split: if_splits)

lemma find_from_bound: "find_from key s pos = Some p \<Longrightarrow> pos \<le> p \<and> p + length key \<le> length s \<and> take (length key) (drop p s) = key"
  by (auto simp: find_from_def add.commute dest!: str_find_bound split: if_splits)

end
