(* ===== verification/Password_Hash.thy ===== *)
theory Password_Hash
  imports Text_Codec Config_Store
begin

text \<open>
  Stored passwords (\<^verbatim>\<open>shared/util/PasswordHash.cpp\<close>): the format
  \<^verbatim>\<open>pbkdf2$<iterations>$<hex>\<close>, the check against it and against the older bare digest, and when a
  value is to be written again. The key derivation, the digest and the random source are OpenSSL's
  and stay parameters, as does what \<^verbatim>\<open>atoi\<close> gives for a number no \<^verbatim>\<open>int\<close> holds. Comparing in
  constant time is comparing.
\<close>

record crypto =
  cr_pbkdf2 :: "string \<Rightarrow> string \<Rightarrow> int \<Rightarrow> bytes option"
  cr_sha256 :: "string \<Rightarrow> bytes option"
  cr_atoi_over :: "string \<Rightarrow> int"

definition kPrefix :: string where
  "kPrefix = ''pbkdf2$''"

definition kPbkdf2Iterations :: int where
  "kPbkdf2Iterations = 210000"

definition constantTimeEquals :: "string \<Rightarrow> string \<Rightarrow> bool" where
  "constantTimeEquals a b \<longleftrightarrow> length a = length b \<and> a = b"

definition pbkdf2Hex :: "crypto \<Rightarrow> string \<Rightarrow> string \<Rightarrow> int \<Rightarrow> string" where
  "pbkdf2Hex cr password salt iterations =
     (if iterations \<le> 0 then []
      else case cr_pbkdf2 cr password salt iterations of None \<Rightarrow> [] | Some out \<Rightarrow> toHex out)"

definition legacySha256Hex :: "crypto \<Rightarrow> string \<Rightarrow> string \<Rightarrow> string" where
  "legacySha256Hex cr password salt =
     (case cr_sha256 cr (password @ salt) of None \<Rightarrow> [] | Some digest \<Rightarrow> toHex digest)"

definition digits_value :: "string \<Rightarrow> nat" where
  "digits_value s = foldl (\<lambda>n c. 10 * n + (of_char c - 48)) 0 s"

definition atoi :: "crypto \<Rightarrow> string \<Rightarrow> int" where
  "atoi cr s = (if digits_value s < 2 ^ 31 then int (digits_value s) else cr_atoi_over cr s)"

text \<open>The parts of a stored value; \<open>None\<close> for anything in another format.\<close>

definition parseStored :: "crypto \<Rightarrow> string \<Rightarrow> (int \<times> string) option" where
  "parseStored cr stored =
     (if take (length kPrefix) stored \<noteq> kPrefix then None
      else
        let rest = drop (length kPrefix) stored in
        if CHR ''$'' \<notin> set rest then None
        else
          let costStr = takeWhile (\<lambda>c. c \<noteq> CHR ''$'') rest in
          if costStr = [] \<or> (\<exists>c \<in> set costStr. \<not> isdigit c) then None
          else
            let iterations = atoi cr costStr; hex = drop (length costStr + 1) rest in
            if iterations > 0 \<and> hex \<noteq> [] then Some (iterations, hex) else None)"

definition stored_form :: "int \<Rightarrow> string \<Rightarrow> string" where
  "stored_form iterations hex = kPrefix @ to_string iterations @ ''$'' @ hex"

definition hashPassword :: "crypto \<Rightarrow> string \<Rightarrow> string \<Rightarrow> string" where
  "hashPassword cr password salt =
     (let hex = pbkdf2Hex cr password salt kPbkdf2Iterations in
      if hex = [] then [] else stored_form kPbkdf2Iterations hex)"

definition verifyPassword :: "crypto \<Rightarrow> string \<Rightarrow> string \<Rightarrow> string \<Rightarrow> bool" where
  "verifyPassword cr password salt stored =
     (if stored = [] then False
      else case parseStored cr stored of
        Some (iterations, expected) \<Rightarrow>
          (let actual = pbkdf2Hex cr password salt iterations in actual \<noteq> [] \<and> constantTimeEquals actual expected)
      | None \<Rightarrow>
          (let legacy = legacySha256Hex cr password salt in legacy \<noteq> [] \<and> constantTimeEquals legacy stored))"

definition needsRehash :: "crypto \<Rightarrow> string \<Rightarrow> bool" where
  "needsRehash cr stored =
     (case parseStored cr stored of None \<Rightarrow> True | Some (iterations, hex) \<Rightarrow> iterations < kPbkdf2Iterations)"

text \<open>\<^verbatim>\<open>RAND_bytes\<close> may fail; then there is no salt.\<close>

definition generateSalt :: "bytes option \<Rightarrow> string" where
  "generateSalt rand = (case rand of None \<Rightarrow> [] | Some buf \<Rightarrow> toHex buf)"

subsection \<open>Numbers in decimal\<close>

lemma last_digit:
  "isdigit (char_of (48 + n mod 10 :: nat))" "of_char (char_of (48 + n mod 10 :: nat) :: char) = 48 + n mod 10"
proof -
  have "48 + n mod 10 < (256 :: nat)" using mod_less_divisor [of 10 n] by simp
  then show "of_char (char_of (48 + n mod 10 :: nat) :: char) = 48 + n mod 10" by simp
  then show "isdigit (char_of (48 + n mod 10 :: nat))"
    using mod_less_divisor [of 10 n] by (simp add: isdigit_def is_between_def)
qed

lemma digits_snoc: "digits n = (if n < 10 then [] else digits (n div 10)) @ [char_of (48 + n mod 10)]"
  by (subst digits.simps) simp

lemma digits_properties: "list_all isdigit (digits n) \<and> digits_value (digits n) = n"
proof (induction n rule: less_induct)
  case (less n)
  show ?case
  proof (cases "n < 10")
    case True
    then show ?thesis
      using last_digit [of n] by (subst (1 2) digits_snoc) (simp add: digits_value_def)
  next
    case False
    then have "list_all isdigit (digits (n div 10)) \<and> digits_value (digits (n div 10)) = n div 10"
      by (intro less.IH) simp
    then show ?thesis
      using False last_digit [of n] by (subst (1 2) digits_snoc) (simp add: digits_value_def del: digits.simps)
  qed
qed

lemma digits_nonempty: "digits n \<noteq> []"
  by (subst digits_snoc) (simp del: digits.simps)

subsection \<open>The properties\<close>

lemma parse_stored_form:
  assumes "0 < iterations" and "iterations < 2 ^ 31" and "hex \<noteq> []"
  shows "parseStored cr (stored_form iterations hex) = Some (iterations, hex)"
proof -
  let ?cost = "digits (nat iterations)"
  have cost: "to_string iterations = ?cost" using assms(1) by (simp add: to_string_def del: digits.simps)
  have d: "\<forall>c \<in> set ?cost. isdigit c" "digits_value ?cost = nat iterations"
    using digits_properties [of "nat iterations"] by (simp_all add: list_all_iff del: digits.simps)
  have "\<forall>c \<in> set ?cost. c \<noteq> CHR ''$''" using d(1) by (auto simp: isdigit_def is_between_def simp del: digits.simps)
  then have t: "takeWhile (\<lambda>c. c \<noteq> CHR ''$'') (?cost @ CHR ''$'' # hex) = ?cost"
    by (simp add: takeWhile_append2 del: digits.simps)
  have "nat iterations < 2 ^ 31" using assms(1,2) by simp
  then have "atoi cr ?cost = iterations" using d(2) assms(1) by (simp add: atoi_def del: digits.simps)
  then show ?thesis
    using assms(1,3) t d(1) digits_nonempty [of "nat iterations"]
    by (simp add: parseStored_def stored_form_def cost kPrefix_def Let_def del: digits.simps)
qed

text \<open>Stored passwords of every cost verify: a value written with any iteration count an \<^verbatim>\<open>int\<close>
  holds accepts exactly the passwords whose key, derived at that very count, is the stored one, and
  is due for rewriting exactly when the count is below the current one. So a password that was just
  stored is accepted and not due, raising the count locks nobody out, and no password is accepted
  when the derivation fails.\<close>

theorem stored_password_verifies:
  assumes "0 < iterations" and "iterations < 2 ^ 31" and "hex \<noteq> []"
  shows "(verifyPassword cr password salt (stored_form iterations hex) \<longleftrightarrow> pbkdf2Hex cr password salt iterations = hex) \<and>
    (needsRehash cr (stored_form iterations hex) \<longleftrightarrow> iterations < kPbkdf2Iterations) \<and>
    (hashPassword cr password salt \<noteq> [] \<longrightarrow>
      verifyPassword cr password salt (hashPassword cr password salt) \<and> \<not> needsRehash cr (hashPassword cr password salt))"
proof -
  have v: "verifyPassword cr password salt (stored_form i h) \<longleftrightarrow> pbkdf2Hex cr password salt i = h"
    "needsRehash cr (stored_form i h) \<longleftrightarrow> i < kPbkdf2Iterations" if "0 < i" "i < 2 ^ 31" "h \<noteq> []" for i h
    using parse_stored_form [OF that] that(3)
    by (auto simp: verifyPassword_def needsRehash_def constantTimeEquals_def stored_form_def kPrefix_def Let_def)
  have "verifyPassword cr password salt (hashPassword cr password salt) \<and> \<not> needsRehash cr (hashPassword cr password salt)"
    if "hashPassword cr password salt \<noteq> []"
  proof -
    have h: "pbkdf2Hex cr password salt kPbkdf2Iterations \<noteq> []"
      "hashPassword cr password salt = stored_form kPbkdf2Iterations (pbkdf2Hex cr password salt kPbkdf2Iterations)"
      using that by (auto simp: hashPassword_def Let_def split: if_splits)
    show ?thesis unfolding h(2) using v [OF _ _ h(1), of kPbkdf2Iterations] by (simp add: kPbkdf2Iterations_def)
  qed
  with v [OF assms] show ?thesis by blast
qed

text \<open>The witness: a derivation that gives back the password's bytes, at an old count.\<close>

definition crypto_example :: crypto where
  "crypto_example = \<lparr>cr_pbkdf2 = (\<lambda>password salt i. Some (map byte_of password)), cr_sha256 = (\<lambda>s. None),
     cr_atoi_over = (\<lambda>s. 0)\<rparr>"

theorem stored_password_verifies_witness:
  "verifyPassword crypto_example ''a'' ''s'' (stored_form 1000 ''61'') \<and> needsRehash crypto_example (stored_form 1000 ''61'') \<and>
   \<not> verifyPassword crypto_example ''b'' ''s'' (stored_form 1000 ''61'')"
proof -
  have hex: "pbkdf2Hex crypto_example ''a'' ''s'' 1000 = ''61''" "pbkdf2Hex crypto_example ''b'' ''s'' 1000 = ''62''"
    by (simp_all add: pbkdf2Hex_def crypto_example_def toHex_def hex_digits_eq hex_lower_def byte_of_def)
  show ?thesis
    using stored_password_verifies [of 1000 "''61''" crypto_example "''a''" "''s''"]
      stored_password_verifies [of 1000 "''61''" crypto_example "''b''" "''s''"]
    by (simp add: hex kPbkdf2Iterations_def)
qed

end
