(* ===== verification/Mgmtd_Auth.thy ===== *)
theory Mgmtd_Auth
  imports Password_Hash
begin

text \<open>
  Sign-in to the management daemon (\<^verbatim>\<open>mgmtd/service/auth/AuthService.cpp\<close>): sessions with an idle
  timeout, the back-off after failed attempts, and the results of federated sign-in that the browser
  collects by ticket (\<^verbatim>\<open>MgmtdServiceManager\<close>). Times are seconds of the system clock since its
  epoch. What the database, the random source and the configuration answer to a call is its \<open>auth_env\<close>.
\<close>

subsection \<open>State\<close>

record session =
  se_expiresAt :: nat
  se_username :: string
  se_role :: string
  se_mustChange :: bool

record throttle =
  th_failures :: int
  th_nextAllowedAt :: nat

record auth =
  au_sessions :: "(string \<times> session) list"
  au_throttles :: "(string \<times> throttle) list"
  au_loaded :: bool
  au_sessionTtlSec :: nat

definition auth_new :: auth where
  "auth_new = \<lparr>au_sessions = [], au_throttles = [], au_loaded = False, au_sessionTtlSec = 1800\<rparr>"

text \<open>
  A query answers with rows or throws (\<open>None\<close>). \<open>ae_first\<close> says which entry of a full container
  \<^verbatim>\<open>begin()\<close> is: the order of an \<^verbatim>\<open>unordered_map\<close> is its own.
\<close>

record auth_env =
  ae_now :: nat
  ae_account :: "string \<Rightarrow> string list list option"
  ae_stored :: "string list list option"
  ae_pending :: "string list list option"
  ae_cfg :: config
  ae_random :: "bytes option"
  ae_crypto :: crypto
  ae_first :: nat

record stored =
  st_username :: string
  st_passwordHash :: string
  st_salt :: string
  st_mustChange :: bool
  st_found :: bool

record login_result =
  lr_success :: bool
  lr_sessionId :: string
  lr_mustChange :: bool
  lr_rehashNeeded :: bool
  lr_throttled :: bool

record credential =
  cr_passwordHash :: string
  cr_salt :: string

definition kRoleAdmin :: string where "kRoleAdmin = ''admin''"
definition kRoleUser :: string where "kRoleUser = ''user''"
definition kFreeAttempts :: int where "kFreeAttempts = 5"
definition kMaxBackoffSec :: nat where "kMaxBackoffSec = 30"
definition kMaxThrottled :: nat where "kMaxThrottled = 64"

subsection \<open>Accounts\<close>

definition no_account :: stored where
  "no_account = \<lparr>st_username = [], st_passwordHash = [], st_salt = [], st_mustChange = False, st_found = False\<rparr>"

definition readAccount :: "auth_env \<Rightarrow> string \<Rightarrow> stored" where
  "readAccount env username =
     (case ae_account env username of
        Some (row # rows) \<Rightarrow>
          if length row < 4 then no_account
          else \<lparr>st_username = row ! 0, st_passwordHash = row ! 1, st_salt = row ! 2,
                st_mustChange = (row ! 3 = ''t''), st_found = True\<rparr>
      | _ \<Rightarrow> no_account)"

fun find_role :: "string \<Rightarrow> json list \<Rightarrow> json_error + string" where
  "find_role username [] = Inr kRoleUser"
| "find_role username (u # us) =
     (if \<not> is_object u then find_role username us
      else bind_err (jvalue get_str ''username'' [] u) (\<lambda>name.
        if name = username
        then map_sum id (\<lambda>role. if role = kRoleAdmin then kRoleAdmin else kRoleUser) (jvalue get_str ''role'' [] u)
        else find_role username us))"

definition declaredRole :: "auth_env \<Rightarrow> string \<Rightarrow> json_error + string" where
  "declaredRole env username =
     bind_err (jvalue get_json ''list'' (JArr []) (cfg_section ''pretzel'' ''user'' (ae_cfg env)))
       (\<lambda>users. find_role username (jiterate users))"

text \<open>\<^verbatim>\<open>SELECT count(*)\<close>: some row whose first column is not zero.\<close>

definition counted :: "string list list option \<Rightarrow> bool" where
  "counted rows = (case rows of Some ((n # cols) # rest) \<Rightarrow> n \<noteq> ''0'' | _ \<Rightarrow> False)"

definition loadCredential :: "auth_env \<Rightarrow> auth \<Rightarrow> bool \<times> auth" where
  "loadCredential env s = (counted (ae_stored env), s\<lparr>au_loaded := counted (ae_stored env)\<rparr>)"

definition adminSetupPending :: "auth_env \<Rightarrow> bool" where
  "adminSetupPending env = counted (ae_pending env)"

definition checkPassword :: "auth_env \<Rightarrow> string \<Rightarrow> string \<Rightarrow> bool" where
  "checkPassword env username password =
     (let account = readAccount env username in
      st_found account \<and> st_passwordHash account \<noteq> [] \<and>
      verifyPassword (ae_crypto env) password (st_salt account) (st_passwordHash account))"

definition makeCredential :: "auth_env \<Rightarrow> string \<Rightarrow> credential" where
  "makeCredential env newPassword =
     (let salt = generateSalt (ae_random env) in
      if salt = [] then \<lparr>cr_passwordHash = [], cr_salt = []\<rparr>
      else
        let hash = hashPassword (ae_crypto env) newPassword salt in
        if hash = [] then \<lparr>cr_passwordHash = [], cr_salt = []\<rparr> else \<lparr>cr_passwordHash = hash, cr_salt = salt\<rparr>)"

definition generateSessionId :: "auth_env \<Rightarrow> string" where
  "generateSessionId env = (case ae_random env of None \<Rightarrow> [] | Some buf \<Rightarrow> toHex buf)"

subsection \<open>Signing in\<close>

definition throttled :: "auth_env \<Rightarrow> string \<Rightarrow> auth \<Rightarrow> bool" where
  "throttled env username s =
     (case map_of (au_throttles s) username of None \<Rightarrow> False | Some t \<Rightarrow> ae_now env < th_nextAllowedAt t)"

function backoff_loop :: "int \<Rightarrow> int \<Rightarrow> nat \<Rightarrow> nat" where
  "backoff_loop i failures delay =
     (if i < failures \<and> delay < kMaxBackoffSec then backoff_loop (i + 1) failures (delay * 2) else delay)"
  by auto
termination by (relation "measure (\<lambda>(i, failures, delay). nat (failures - i))") auto

declare backoff_loop.simps [simp del]

definition noteLoginFailure :: "auth_env \<Rightarrow> string \<Rightarrow> auth \<Rightarrow> auth" where
  "noteLoginFailure env username s =
     (let ts = au_throttles s;
          ts = (if length ts \<ge> kMaxThrottled \<and> map_of ts username = None
                then AList.delete (fst (ts ! (ae_first env mod length ts))) ts else ts);
          t = (case map_of ts username of None \<Rightarrow> \<lparr>th_failures = 0, th_nextAllowedAt = 0\<rparr> | Some t \<Rightarrow> t);
          t = t\<lparr>th_failures := th_failures t + 1\<rparr> in
      if th_failures t \<le> kFreeAttempts then s\<lparr>au_throttles := AList.update username t ts\<rparr>
      else
        let delay = min (backoff_loop (kFreeAttempts + 1) (th_failures t) 1) kMaxBackoffSec in
        s\<lparr>au_throttles := AList.update username (t\<lparr>th_nextAllowedAt := ae_now env + delay\<rparr>) ts\<rparr>)"

definition no_login :: login_result where
  "no_login = \<lparr>lr_success = False, lr_sessionId = [], lr_mustChange = False, lr_rehashNeeded = False,
     lr_throttled = False\<rparr>"

definition put_session :: "string \<Rightarrow> session \<Rightarrow> auth \<Rightarrow> auth" where
  "put_session sid session s = s\<lparr>au_sessions := AList.update sid session (au_sessions s)\<rparr>"

text \<open>The exception a malformed declaration throws leaves what was done before it.\<close>

definition login :: "auth_env \<Rightarrow> string \<Rightarrow> string \<Rightarrow> auth \<Rightarrow> (json_error + login_result) \<times> auth" where
  "login env username password s =
     (if throttled env username s then (Inr (no_login\<lparr>lr_throttled := True\<rparr>), s)
      else
        let account = readAccount env username in
        if \<not> st_found account \<or> st_passwordHash account = [] then (Inr no_login, s)
        else if \<not> verifyPassword (ae_crypto env) password (st_salt account) (st_passwordHash account)
        then (Inr no_login, noteLoginFailure env username s)
        else
          let s = s\<lparr>au_throttles := AList.delete username (au_throttles s)\<rparr>;
              sessionId = generateSessionId env in
          if sessionId = [] then (Inr no_login, s)
          else case declaredRole env (st_username account) of
            Inl e \<Rightarrow> (Inl e, s)
          | Inr role \<Rightarrow>
              (Inr \<lparr>lr_success = True, lr_sessionId = sessionId, lr_mustChange = st_mustChange account,
                 lr_rehashNeeded = needsRehash (ae_crypto env) (st_passwordHash account), lr_throttled = False\<rparr>,
               put_session sessionId \<lparr>se_expiresAt = ae_now env + au_sessionTtlSec s,
                 se_username = st_username account, se_role = role, se_mustChange = st_mustChange account\<rparr> s))"

text \<open>The identifier is not checked here: an empty one is entered like any other.\<close>

definition createSsoSession :: "auth_env \<Rightarrow> string \<Rightarrow> auth \<Rightarrow> (json_error + string) \<times> auth" where
  "createSsoSession env username s =
     (let sessionId = generateSessionId env in
      case declaredRole env username of
        Inl e \<Rightarrow> (Inl e, s)
      | Inr role \<Rightarrow>
          (Inr sessionId, put_session sessionId \<lparr>se_expiresAt = ae_now env + au_sessionTtlSec s,
             se_username = username, se_role = role, se_mustChange = False\<rparr> s))"

subsection \<open>Sessions\<close>

definition live_session :: "nat \<Rightarrow> string \<Rightarrow> auth \<Rightarrow> session option" where
  "live_session now sid s =
     (case map_of (au_sessions s) sid of None \<Rightarrow> None
      | Some session \<Rightarrow> if now > se_expiresAt session then None else Some session)"

definition sessionUser :: "nat \<Rightarrow> string \<Rightarrow> auth \<Rightarrow> string" where
  "sessionUser now sid s = (case live_session now sid s of None \<Rightarrow> [] | Some session \<Rightarrow> se_username session)"

definition sessionRole :: "nat \<Rightarrow> string \<Rightarrow> auth \<Rightarrow> string" where
  "sessionRole now sid s = (case live_session now sid s of None \<Rightarrow> [] | Some session \<Rightarrow> se_role session)"

definition sessionIsAdmin :: "nat \<Rightarrow> string \<Rightarrow> auth \<Rightarrow> bool" where
  "sessionIsAdmin now sid s \<longleftrightarrow> sessionRole now sid s = kRoleAdmin"

definition mustChangePassword :: "nat \<Rightarrow> string \<Rightarrow> auth \<Rightarrow> bool" where
  "mustChangePassword now sid s = (case live_session now sid s of None \<Rightarrow> False | Some session \<Rightarrow> se_mustChange session)"

definition validateSession :: "nat \<Rightarrow> string \<Rightarrow> auth \<Rightarrow> bool \<times> auth" where
  "validateSession now sid s =
     (if sid = [] then (False, s)
      else case map_of (au_sessions s) sid of
        None \<Rightarrow> (False, s)
      | Some session \<Rightarrow>
          if now > se_expiresAt session
          then (False, s\<lparr>au_sessions := AList.delete sid (au_sessions s)\<rparr>) else (True, s))"

definition renewSession :: "nat \<Rightarrow> string \<Rightarrow> auth \<Rightarrow> bool \<times> auth" where
  "renewSession now sid s =
     (let (valid, s) = validateSession now sid s in
      if \<not> valid then (False, s)
      else case map_of (au_sessions s) sid of
        None \<Rightarrow> (True, s)
      | Some session \<Rightarrow> (True, put_session sid (session\<lparr>se_expiresAt := now + au_sessionTtlSec s\<rparr>) s))"

definition auth_logout :: "string \<Rightarrow> auth \<Rightarrow> auth" where
  "auth_logout sid s = s\<lparr>au_sessions := AList.delete sid (au_sessions s)\<rparr>"

subsection \<open>The service as a sequence of requests\<close>

datatype auth_op = Login string string | SsoSignIn string | Validate string | Renew string | Logout string

fun auth_step :: "auth_env \<times> auth_op \<Rightarrow> auth \<Rightarrow> auth" where
  "auth_step (env, Login u pw) s = snd (login env u pw s)"
| "auth_step (env, SsoSignIn u) s = snd (createSsoSession env u s)"
| "auth_step (env, Validate sid) s = snd (validateSession (ae_now env) sid s)"
| "auth_step (env, Renew sid) s = snd (renewSession (ae_now env) sid s)"
| "auth_step (env, Logout sid) s = auth_logout sid s"

primrec auth_run :: "(auth_env \<times> auth_op) list \<Rightarrow> auth \<Rightarrow> auth" where
  "auth_run [] s = s"
| "auth_run (x # xs) s = auth_run xs (auth_step x s)"

lemma auth_run_snoc [simp]: "auth_run (h @ [x]) s = auth_step x (auth_run h s)"
  by (induction h arbitrary: s) auto

text \<open>The requests that create the session \<open>sid\<close>, and those that give it a new lease.\<close>

fun grants :: "auth_env \<times> auth_op \<Rightarrow> auth \<Rightarrow> string \<Rightarrow> bool" where
  "grants (env, Login u pw) s sid =
     (case fst (login env u pw s) of Inl e \<Rightarrow> False | Inr r \<Rightarrow> lr_success r \<and> lr_sessionId r = sid)"
| "grants (env, SsoSignIn u) s sid = (fst (createSsoSession env u s) = Inr sid)"
| "grants _ s sid = False"

fun extends :: "auth_env \<times> auth_op \<Rightarrow> auth \<Rightarrow> string \<Rightarrow> bool" where
  "extends (env, Renew x) s sid = (x = sid \<and> fst (renewSession (ae_now env) x s))"
| "extends (env, op) s sid = grants (env, op) s sid"

text \<open>Whom a granting request is for, and what it proved.\<close>

fun proves :: "auth_env \<times> auth_op \<Rightarrow> string \<Rightarrow> bool" where
  "proves (env, Login u pw) who =
     (st_found (readAccount env u) \<and> st_username (readAccount env u) = who \<and> checkPassword env u pw)"
| "proves (env, SsoSignIn u) who = (u = who)"
| "proves _ who = False"

lemma put_session_simps [simp]:
  "map_of (au_sessions (put_session sid x s)) = (map_of (au_sessions s))(sid \<mapsto> x)"
  "au_throttles (put_session sid x s) = au_throttles s"
  "au_sessionTtlSec (put_session sid x s) = au_sessionTtlSec s"
  by (simp_all add: put_session_def update_conv')

lemma note_frame [simp]:
  "au_sessions (noteLoginFailure env u s) = au_sessions s"
  "au_sessionTtlSec (noteLoginFailure env u s) = au_sessionTtlSec s"
  by (simp_all add: noteLoginFailure_def Let_def)

text \<open>A request for the session \<open>k\<close> either leaves it alone, drops it, or gives it a new lease.\<close>

definition leased :: "auth_env \<Rightarrow> auth \<Rightarrow> session \<Rightarrow> bool" where
  "leased env s x \<longleftrightarrow> se_expiresAt x = ae_now env + au_sessionTtlSec s"

lemma login_sessions:
  "au_sessions (snd (login env u pw s)) = au_sessions s \<and> (\<forall>sid. \<not> grants (env, Login u pw) s sid)
   \<or> (\<exists>sid x. map_of (au_sessions (snd (login env u pw s))) = (map_of (au_sessions s))(sid \<mapsto> x)
         \<and> leased env s x \<and> grants (env, Login u pw) s sid \<and> sid \<noteq> [] \<and> proves (env, Login u pw) (se_username x))"
proof (cases "throttled env u s \<or> \<not> st_found (readAccount env u) \<or> st_passwordHash (readAccount env u) = []
    \<or> \<not> verifyPassword (ae_crypto env) pw (st_salt (readAccount env u)) (st_passwordHash (readAccount env u))
    \<or> generateSessionId env = []")
  case True
  then show ?thesis
    by (auto simp: login_def Let_def no_login_def)
next
  case False
  show ?thesis
  proof (cases "declaredRole env (st_username (readAccount env u))")
    case (Inl e)
    with False show ?thesis by (auto simp: login_def Let_def)
  next
    case (Inr role)
    with False show ?thesis
      by (intro disjI2 exI [of _ "generateSessionId env"])
        (auto simp: login_def Let_def leased_def checkPassword_def)
  qed
qed

lemma sso_sessions:
  "au_sessions (snd (createSsoSession env u s)) = au_sessions s \<and> (\<forall>sid. \<not> grants (env, SsoSignIn u) s sid)
   \<or> (\<exists>sid x. map_of (au_sessions (snd (createSsoSession env u s))) = (map_of (au_sessions s))(sid \<mapsto> x)
         \<and> leased env s x \<and> grants (env, SsoSignIn u) s sid \<and> se_username x = u)"
  by (cases "declaredRole env u") (auto simp: createSsoSession_def Let_def leased_def)

lemma validate_sessions:
  "map_of (au_sessions (snd (validateSession now sid s))) k =
     (if k = sid \<and> live_session now sid s = None \<and> sid \<noteq> [] then None else map_of (au_sessions s) k)"
  by (auto simp: validateSession_def live_session_def delete_conv' split: option.splits)

lemma validate_live:
  "fst (validateSession now sid s) \<longleftrightarrow> sid \<noteq> [] \<and> live_session now sid s \<noteq> None"
  by (auto simp: validateSession_def live_session_def split: option.splits)

lemma validate_frame [simp]:
  "au_sessionTtlSec (snd (validateSession now sid s)) = au_sessionTtlSec s"
  "au_throttles (snd (validateSession now sid s)) = au_throttles s"
  by (simp_all add: validateSession_def split: option.splits)

lemma live_session_stored: "live_session now sid s = Some x \<Longrightarrow> map_of (au_sessions s) sid = Some x \<and> now \<le> se_expiresAt x"
  by (auto simp: live_session_def split: option.splits if_splits)

lemma validate_unchanged: "fst (validateSession now sid s) \<Longrightarrow> snd (validateSession now sid s) = s"
  by (auto simp: validateSession_def split: option.splits if_splits)

lemma renew_cases:
  assumes "fst (renewSession now sid s)"
  obtains x where "live_session now sid s = Some x" "sid \<noteq> []"
    "snd (renewSession now sid s) = put_session sid (x\<lparr>se_expiresAt := now + au_sessionTtlSec s\<rparr>) s"
proof -
  have v: "fst (validateSession now sid s)"
    using assms by (auto simp: renewSession_def split: prod.splits if_splits)
  then obtain x where x: "live_session now sid s = Some x" "sid \<noteq> []" by (auto simp: validate_live)
  have "validateSession now sid s = (True, s)"
    using v validate_unchanged [OF v] by (simp add: prod_eq_iff)
  with x that show thesis
    using live_session_stored [OF x(1)] by (simp add: renewSession_def)
qed

lemma renew_refused: "\<not> fst (renewSession now sid s) \<Longrightarrow> snd (renewSession now sid s) = snd (validateSession now sid s)"
  by (auto simp: renewSession_def split: prod.splits if_splits option.splits)

lemma auth_ttl [simp]: "au_sessionTtlSec (auth_step x s) = au_sessionTtlSec s"
proof (cases x)
  case (Pair env op)
  show ?thesis
  proof (cases op)
    case (Login u pw)
    then show ?thesis using Pair by (auto simp: login_def Let_def split: sum.splits)
  next
    case (SsoSignIn u)
    then show ?thesis using Pair by (auto simp: createSsoSession_def Let_def split: sum.splits)
  next
    case (Validate sid)
    then show ?thesis using Pair by simp
  next
    case (Renew sid)
    then show ?thesis using Pair
      by (cases "fst (renewSession (ae_now env) sid s)") (auto simp: renew_refused elim: renew_cases)
  next
    case (Logout sid)
    then show ?thesis using Pair by (simp add: auth_logout_def)
  qed
qed

lemma auth_run_ttl [simp]: "au_sessionTtlSec (auth_run h s) = au_sessionTtlSec s"
  by (induction h arbitrary: s) auto

text \<open>
  What one request does to one stored session: nothing, or it removes it, or it gives it a lease that
  ends one timeout after the request's time, as itself or as a fresh one.
\<close>

lemma auth_step_session:
  assumes x: "map_of (au_sessions (auth_step (env, op) s)) sid = Some x"
  shows "map_of (au_sessions s) sid = Some x \<and> op \<noteq> Logout sid
     \<or> extends (env, op) s sid \<and> leased env s x \<and>
        ((\<exists>x0. map_of (au_sessions s) sid = Some x0 \<and> se_username x0 = se_username x) \<and> op = Renew sid
         \<or> grants (env, op) s sid \<and> proves (env, op) (se_username x))"
proof (cases op)
  case (Login u pw)
  then show ?thesis using x login_sessions [of env u pw s] by (auto simp: fun_upd_apply split: if_splits)
next
  case (SsoSignIn u)
  then show ?thesis using x sso_sessions [of env u s] by (auto split: if_splits)
next
  case (Validate k)
  then show ?thesis using x by (auto simp: validate_sessions split: if_splits)
next
  case (Logout k)
  then show ?thesis using x by (auto simp: auth_logout_def delete_conv' split: if_splits)
next
  case (Renew k)
  show ?thesis
  proof (cases "fst (renewSession (ae_now env) k s)")
    case False
    then show ?thesis using x Renew by (auto simp: renew_refused validate_sessions split: if_splits)
  next
    case True
    then obtain x0 where x0: "live_session (ae_now env) k s = Some x0"
      "snd (renewSession (ae_now env) k s) = put_session k (x0\<lparr>se_expiresAt := ae_now env + au_sessionTtlSec s\<rparr>) s"
      by (rule renew_cases)
    then show ?thesis
      using x Renew True live_session_stored [OF x0(1)] by (auto simp: leased_def split: if_splits)
  qed
qed

lemma stored_session_lease:
  "map_of (au_sessions (auth_run h auth_new)) sid = Some x \<Longrightarrow>
    \<exists>h1 env op h2. h = h1 @ (env, op) # h2 \<and> extends (env, op) (auth_run h1 auth_new) sid \<and>
      se_expiresAt x = ae_now env + 1800 \<and> (\<forall>(e, o') \<in> set h2. o' \<noteq> Logout sid)"
proof (induction h arbitrary: x rule: rev_induct)
  case Nil
  then show ?case by (simp add: auth_new_def)
next
  case (snoc y h)
  obtain env op where y: "y = (env, op)" by (cases y)
  have "map_of (au_sessions (auth_step (env, op) (auth_run h auth_new))) sid = Some x"
    using snoc.prems y by simp
  from auth_step_session [OF this] show ?case
  proof
    assume same: "map_of (au_sessions (auth_run h auth_new)) sid = Some x \<and> op \<noteq> Logout sid"
    then obtain h1 env' op' h2 where h: "h = h1 @ (env', op') # h2" "extends (env', op') (auth_run h1 auth_new) sid"
      "se_expiresAt x = ae_now env' + 1800" "\<forall>(e, o') \<in> set h2. o' \<noteq> Logout sid"
      using snoc.IH by blast
    then have "h @ [y] = h1 @ (env', op') # (h2 @ [y])" "\<forall>(e, o') \<in> set (h2 @ [y]). o' \<noteq> Logout sid"
      using same y by auto
    with h show ?case by blast
  next
    assume new: "extends (env, op) (auth_run h auth_new) sid \<and> leased env (auth_run h auth_new) x \<and>
        ((\<exists>x0. map_of (au_sessions (auth_run h auth_new)) sid = Some x0 \<and> se_username x0 = se_username x) \<and> op = Renew sid
         \<or> grants (env, op) (auth_run h auth_new) sid \<and> proves (env, op) (se_username x))"
    then have "se_expiresAt x = ae_now env + 1800" by (simp add: leased_def auth_new_def)
    with new y show ?case by (intro exI [of _ h] exI [of _ env] exI [of _ op] exI [of _ "[]"]) auto
  qed
qed

lemma stored_session_earned:
  "map_of (au_sessions (auth_run h auth_new)) sid = Some x \<Longrightarrow>
    \<exists>h1 env op h2. h = h1 @ (env, op) # h2 \<and> grants (env, op) (auth_run h1 auth_new) sid \<and>
      proves (env, op) (se_username x) \<and> (\<forall>(e, o') \<in> set h2. o' \<noteq> Logout sid)"
proof (induction h arbitrary: x rule: rev_induct)
  case Nil
  then show ?case by (simp add: auth_new_def)
next
  case (snoc y h)
  obtain env op where y: "y = (env, op)" by (cases y)
  have "map_of (au_sessions (auth_step (env, op) (auth_run h auth_new))) sid = Some x"
    using snoc.prems y by simp
  from auth_step_session [OF this]
  consider (keep) x0 where "map_of (au_sessions (auth_run h auth_new)) sid = Some x0" "se_username x0 = se_username x"
      "op \<noteq> Logout sid"
    | (grant) "grants (env, op) (auth_run h auth_new) sid" "proves (env, op) (se_username x)"
    by auto
  then show ?case
  proof cases
    case keep
    then obtain h1 env' op' h2 where h: "h = h1 @ (env', op') # h2" "grants (env', op') (auth_run h1 auth_new) sid"
      "proves (env', op') (se_username x)" "\<forall>(e, o') \<in> set h2. o' \<noteq> Logout sid"
      using snoc.IH [of x0] by metis
    then have "h @ [y] = h1 @ (env', op') # (h2 @ [y])" "\<forall>(e, o') \<in> set (h2 @ [y]). o' \<noteq> Logout sid"
      using keep y by auto
    with h show ?thesis by blast
  next
    case grant
    with y show ?thesis by (intro exI [of _ h] exI [of _ env] exI [of _ op] exI [of _ "[]"]) auto
  qed
qed

subsection \<open>The back-off\<close>

lemma backoff_min:
  "delay > 0 \<Longrightarrow> min (backoff_loop i failures delay) kMaxBackoffSec = min (delay * 2 ^ nat (failures - i)) kMaxBackoffSec"
proof (induction i failures delay rule: backoff_loop.induct)
  case (1 i failures delay)
  show ?case
  proof (cases "i < failures \<and> delay < kMaxBackoffSec")
    case True
    then have "nat (failures - i) = Suc (nat (failures - (i + 1)))" by auto
    with True 1 show ?thesis by (subst backoff_loop.simps) simp
  next
    case False
    have "kMaxBackoffSec \<le> delay \<Longrightarrow> kMaxBackoffSec \<le> delay * 2 ^ nat (failures - i)"
      by (erule order_trans) simp
    with False show ?thesis by (subst backoff_loop.simps) (auto simp: min_absorb2)
  qed
qed

definition wait_after :: "int \<Rightarrow> nat" where
  "wait_after failures = (if failures \<le> 5 then 0 else min (2 ^ nat (failures - 6)) 30)"

lemma wait_after_le: "wait_after n \<le> 30"
  by (simp add: wait_after_def)

lemma noteLoginFailure_entry:
  "map_of (au_throttles (noteLoginFailure env u s)) k = Some t \<Longrightarrow>
     k \<noteq> u \<and> map_of (au_throttles s) k = Some t
   \<or> k = u \<and> (case map_of (au_throttles s) u of None \<Rightarrow> th_failures t = 1 \<and> th_nextAllowedAt t = 0
        | Some t0 \<Rightarrow> th_failures t = th_failures t0 + 1 \<and>
            th_nextAllowedAt t = (if th_failures t \<le> 5 then th_nextAllowedAt t0 else ae_now env + wait_after (th_failures t)))"
  using backoff_min [of 1 6 "th_failures (the (map_of (au_throttles s) u)) + 1"]
  by (auto simp: noteLoginFailure_def Let_def update_conv' delete_conv' wait_after_def kFreeAttempts_def kMaxBackoffSec_def
      split: if_splits option.splits)

lemma card_keys: "distinct (map fst al) \<Longrightarrow> length al = card (fst ` set al)"
  by (metis distinct_card length_map set_map)

lemma length_update_new: "length (AList.update k v al) \<le> Suc (length al)"
  by (induction al) auto

lemma length_update_old: "map_of al k \<noteq> None \<Longrightarrow> length (AList.update k v al) = length al"
  by (induction al) auto

lemma length_delete_key: "k \<in> fst ` set al \<Longrightarrow> length (AList.delete k al) < length al"
proof (induction al)
  case (Cons a al)
  have "length (AList.delete k al) \<le> length al" by (rule AList.length_delete_le)
  with Cons show ?case by (cases a) auto
qed simp

definition throttles_sized :: "auth \<Rightarrow> bool" where
  "throttles_sized s \<longleftrightarrow> distinct (map fst (au_throttles s)) \<and> length (au_throttles s) \<le> 64"

lemma noteLoginFailure_table:
  "\<exists>ts v. au_throttles (noteLoginFailure env u s) = AList.update u v ts \<and>
     (ts = au_throttles s \<and> (length (au_throttles s) < kMaxThrottled \<or> map_of (au_throttles s) u \<noteq> None)
      \<or> (\<exists>k \<in> fst ` set (au_throttles s). ts = AList.delete k (au_throttles s)))"
proof (cases "length (au_throttles s) \<ge> kMaxThrottled \<and> map_of (au_throttles s) u = None")
  case True
  then have "au_throttles s ! (ae_first env mod length (au_throttles s)) \<in> set (au_throttles s)"
    by (intro nth_mem mod_less_divisor) (auto simp: kMaxThrottled_def)
  with True show ?thesis
    by (auto simp: noteLoginFailure_def Let_def intro!: imageI bexI)
next
  case False
  then show ?thesis by (auto simp: noteLoginFailure_def Let_def not_le)
qed

lemma noteLoginFailure_sized:
  assumes "throttles_sized s"
  shows "throttles_sized (noteLoginFailure env u s)"
proof -
  obtain ts v where t: "au_throttles (noteLoginFailure env u s) = AList.update u v ts"
    "ts = au_throttles s \<and> (length (au_throttles s) < kMaxThrottled \<or> map_of (au_throttles s) u \<noteq> None)
     \<or> (\<exists>k \<in> fst ` set (au_throttles s). ts = AList.delete k (au_throttles s))"
    using noteLoginFailure_table [of env u s] by (elim exE conjE) (rule that)
  have "distinct (map fst (au_throttles s))" using assms by (simp add: throttles_sized_def)
  then have d: "distinct (map fst ts)" using t(2) by (elim disjE conjE bexE) (simp_all add: AList.distinct_delete)
  have "length ts < 64 \<or> length ts \<le> 64 \<and> map_of ts u \<noteq> None"
    using t(2)
  proof
    assume "\<exists>k \<in> fst ` set (au_throttles s). ts = AList.delete k (au_throttles s)"
    then obtain k where k: "k \<in> fst ` set (au_throttles s)" "ts = AList.delete k (au_throttles s)" by (rule bexE)
    have "length ts < length (au_throttles s)" unfolding k(2) by (rule length_delete_key [OF k(1)])
    with assms show ?thesis by (simp add: throttles_sized_def)
  qed (use assms in \<open>simp add: throttles_sized_def kMaxThrottled_def\<close>)
  then have "length (AList.update u v ts) \<le> 64"
    using length_update_new [of u v ts] length_update_old [of ts u v] by auto
  with t(1) d show ?thesis by (simp add: throttles_sized_def distinct_update)
qed

text \<open>Only a sign-in touches the back-off table: it counts a wrong password, or forgets the name on a right one.\<close>

lemma login_throttles:
  "au_throttles (snd (login env u pw s)) = au_throttles s
   \<or> au_throttles (snd (login env u pw s)) = AList.delete u (au_throttles s)
   \<or> au_throttles (snd (login env u pw s)) = au_throttles (noteLoginFailure env u s)
     \<and> \<not> throttled env u s \<and> \<not> checkPassword env u pw"
  by (auto simp: login_def Let_def checkPassword_def split: sum.splits)

lemma auth_step_throttles:
  assumes "\<And>u pw. op \<noteq> Login u pw"
  shows "au_throttles (auth_step (env, op) s) = au_throttles s"
proof (cases op)
  case (Login u pw)
  with assms show ?thesis by blast
next
  case (SsoSignIn u)
  then show ?thesis by (auto simp: createSsoSession_def Let_def split: sum.splits)
next
  case (Validate sid)
  then show ?thesis by simp
next
  case (Renew sid)
  then show ?thesis
    by (cases "fst (renewSession (ae_now env) sid s)") (auto simp: renew_refused elim: renew_cases)
next
  case (Logout sid)
  then show ?thesis by (simp add: auth_logout_def)
qed

lemma auth_step_sized: "throttles_sized s \<Longrightarrow> throttles_sized (auth_step (env, op) s)"
proof (cases "\<exists>u pw. op = Login u pw")
  case True
  assume s: "throttles_sized s"
  from True obtain u pw where op: "op = Login u pw" by blast
  have "throttles_sized (s\<lparr>au_throttles := AList.delete u (au_throttles s)\<rparr>)"
    using s AList.length_delete_le [of u "au_throttles s"] by (auto simp: throttles_sized_def distinct_delete)
  then show ?thesis
    using op s login_throttles [of env u pw s] noteLoginFailure_sized [OF s]
    by (auto simp: throttles_sized_def)
next
  case False
  assume "throttles_sized s"
  with False show ?thesis by (simp add: throttles_sized_def auth_step_throttles)
qed

definition wrong_password :: "auth_env \<times> auth_op \<Rightarrow> string \<Rightarrow> bool" where
  "wrong_password x u = (\<exists>env pw. x = (env, Login u pw) \<and> \<not> checkPassword env u pw)"

text \<open>
  What the back-off ought to count, from the history alone: the wrong passwords that were checked for
  a name since the last right one. An attempt is checked unless the name is blocked at that moment,
  and only a name with a stored password has one to check. The history is taken newest first.
\<close>

definition checked_right :: "auth_env \<times> auth_op \<Rightarrow> auth \<Rightarrow> string \<Rightarrow> bool" where
  "checked_right x s u = (case x of (env, Login v pw) \<Rightarrow> v = u \<and> \<not> throttled env u s \<and> checkPassword env u pw | _ \<Rightarrow> False)"

definition checked_wrong :: "auth_env \<times> auth_op \<Rightarrow> auth \<Rightarrow> string \<Rightarrow> bool" where
  "checked_wrong x s u = (case x of (env, Login v pw) \<Rightarrow>
     v = u \<and> \<not> throttled env u s \<and> st_found (readAccount env u) \<and> st_passwordHash (readAccount env u) \<noteq> [] \<and>
     \<not> checkPassword env u pw | _ \<Rightarrow> False)"

primrec wrong_in_a_row :: "string \<Rightarrow> (auth_env \<times> auth_op) list \<Rightarrow> nat" where
  "wrong_in_a_row u [] = 0"
| "wrong_in_a_row u (x # past) =
     (let s = auth_run (rev past) auth_new in
      if checked_right x s u then 0
      else if checked_wrong x s u then Suc (wrong_in_a_row u past)
      else wrong_in_a_row u past)"

definition login_names :: "(auth_env \<times> auth_op) list \<Rightarrow> string set" where
  "login_names h = {v. \<exists>env pw. (env, Login v pw) \<in> set h}"

lemma login_names_snoc:
  "login_names (h @ [x]) = (case x of (env, Login v pw) \<Rightarrow> insert v (login_names h) | _ \<Rightarrow> login_names h)"
  by (cases x; cases "snd x") (auto simp: login_names_def)

lemma finite_login_names: "finite (login_names h)"
proof -
  have "login_names h \<subseteq> (\<lambda>x. case snd x of Login v pw \<Rightarrow> v | _ \<Rightarrow> []) ` set h"
    by (force simp: login_names_def)
  then show ?thesis by (rule finite_subset) simp
qed

lemma wrong_is_login: "checked_wrong x s u \<Longrightarrow> wrong_password x u \<and> login_names (h @ [x]) = insert u (login_names h)"
  by (cases x; cases "snd x") (auto simp: checked_wrong_def wrong_password_def login_names_snoc)

lemma checked_name:
  "checked_right x s u \<Longrightarrow> checked_right x s v \<or> checked_wrong x s v \<longleftrightarrow> v = u"
  "checked_wrong x s u \<Longrightarrow> checked_right x s v \<or> checked_wrong x s v \<longleftrightarrow> v = u"
  "\<not> (checked_right x s u \<and> checked_wrong x s u)"
  by (cases x; cases "snd x"; auto simp: checked_right_def checked_wrong_def)+

lemma step_right:
  assumes "checked_right x s u"
  shows "au_throttles (auth_step x s) = AList.delete u (au_throttles s)"
proof -
  obtain env pw where x: "x = (env, Login u pw)" "\<not> throttled env u s" "checkPassword env u pw"
    using assms by (cases x; cases "snd x") (auto simp: checked_right_def)
  then show ?thesis by (auto simp: login_def Let_def checkPassword_def split: sum.splits)
qed

lemma step_wrong:
  assumes "checked_wrong x s u"
  shows "au_throttles (auth_step x s) = au_throttles (noteLoginFailure (fst x) u s)"
proof -
  obtain env pw where x: "x = (env, Login u pw)" "\<not> throttled env u s" "\<not> checkPassword env u pw"
      "st_found (readAccount env u)" "st_passwordHash (readAccount env u) \<noteq> []"
    using assms by (cases x; cases "snd x") (auto simp: checked_wrong_def)
  then show ?thesis by (simp add: login_def Let_def checkPassword_def)
qed

lemma step_unchecked:
  assumes "\<And>u. \<not> checked_right x s u \<and> \<not> checked_wrong x s u"
  shows "au_throttles (auth_step x s) = au_throttles s"
proof (cases "\<exists>u pw. snd x = Login u pw")
  case True
  then obtain env u pw where "x = (env, Login u pw)" by (cases x) auto
  with assms [of u] show ?thesis
    by (auto simp: login_def Let_def checked_right_def checked_wrong_def checkPassword_def)
next
  case False
  then show ?thesis by (cases x) (simp add: auth_step_throttles)
qed

text \<open>The three cases of one step of the service, as far as the table goes.\<close>

lemma step_checked:
  obtains (right) u where "checked_right x s u" "au_throttles (auth_step x s) = AList.delete u (au_throttles s)"
  | (wrong) u where "checked_wrong x s u" "au_throttles (auth_step x s) = au_throttles (noteLoginFailure (fst x) u s)"
  | (other) "\<And>u. \<not> checked_right x s u \<and> \<not> checked_wrong x s u" "au_throttles (auth_step x s) = au_throttles s"
  by (meson step_right step_wrong step_unchecked)

definition throttle_ok :: "(auth_env \<times> auth_op) list \<Rightarrow> string \<Rightarrow> throttle \<Rightarrow> bool" where
  "throttle_ok h u t \<longleftrightarrow> 1 \<le> th_failures t \<and> th_failures t \<le> int (wrong_in_a_row u (rev h)) \<and>
     (if th_failures t \<le> 5 then th_nextAllowedAt t = 0
      else \<exists>x \<in> set h. wrong_password x u \<and> th_nextAllowedAt t = ae_now (fst x) + wait_after (th_failures t))"

lemma throttle_ok_mono:
  "throttle_ok h u t \<Longrightarrow> \<not> checked_right x (auth_run h auth_new) u \<Longrightarrow> throttle_ok (h @ [x]) u t"
  by (auto simp: throttle_ok_def Let_def)

lemma throttles_ok_run:
  "map_of (au_throttles (auth_run h auth_new)) u = Some t \<Longrightarrow> throttle_ok h u t"
proof (induction h arbitrary: u t rule: rev_induct)
  case Nil
  then show ?case by (simp add: auth_new_def)
next
  case (snoc x h)
  let ?s = "auth_run h auth_new"
  show ?case
  proof (cases x ?s rule: step_checked)
    case (right v)
    with snoc.prems have "u \<noteq> v" "map_of (au_throttles ?s) u = Some t" by (auto simp: delete_conv' split: if_splits)
    with right(1) checked_name(1) [OF right(1), of u] snoc.IH show ?thesis by (blast intro: throttle_ok_mono)
  next
    case other
    with snoc.prems snoc.IH show ?thesis by (auto intro: throttle_ok_mono)
  next
    case (wrong v)
    with snoc.prems have t: "map_of (au_throttles (noteLoginFailure (fst x) v ?s)) u = Some t" by simp
    have v: "\<not> checked_right x ?s u" using checked_name(2) [OF wrong(1), of u] checked_name(3) wrong(1) by blast
    from noteLoginFailure_entry [OF t] show ?thesis
    proof
      assume "u \<noteq> v \<and> map_of (au_throttles ?s) u = Some t"
      with snoc.IH v show ?thesis by (blast intro: throttle_ok_mono)
    next
      assume u: "u = v \<and> (case map_of (au_throttles ?s) v of None \<Rightarrow> th_failures t = 1 \<and> th_nextAllowedAt t = 0
        | Some t0 \<Rightarrow> th_failures t = th_failures t0 + 1 \<and>
            th_nextAllowedAt t = (if th_failures t \<le> 5 then th_nextAllowedAt t0 else ae_now (fst x) + wait_after (th_failures t)))"
      show ?thesis
      proof (cases "map_of (au_throttles ?s) v")
        case None
        with u v wrong(1) show ?thesis by (simp add: throttle_ok_def Let_def)
      next
        case (Some t0)
        then have "throttle_ok h v t0" by (rule snoc.IH)
        with Some u v wrong(1) wrong_is_login [OF wrong(1)] show ?thesis
          by (auto simp: throttle_ok_def Let_def)
      qed
    qed
  qed
qed

text \<open>While no more names than the table holds have signed in, nothing is evicted and the count is exact.\<close>

lemma throttles_named: "fst ` set (au_throttles (auth_run h auth_new)) \<subseteq> login_names h"
proof (induction h rule: rev_induct)
  case Nil
  show ?case by (simp add: auth_new_def)
next
  case (snoc x h)
  let ?s = "auth_run h auth_new"
  have mono: "login_names h \<subseteq> login_names (h @ [x])" by (auto simp: login_names_def)
  show ?case
  proof (cases x ?s rule: step_checked)
    case (right v)
    have "fst ` set (AList.delete v (au_throttles ?s)) \<subseteq> fst ` set (au_throttles ?s)"
      by (auto simp: AList.delete_eq)
    with right(2) snoc mono show ?thesis by simp
  next
    case other
    with snoc mono show ?thesis by simp
  next
    case (wrong v)
    from wrong(1) have n: "login_names (h @ [x]) = insert v (login_names h)" by (rule wrong_is_login [THEN conjunct2])
    have "fst ` set (au_throttles (noteLoginFailure (fst x) v ?s)) \<subseteq> insert v (fst ` set (au_throttles ?s))"
    proof -
      obtain ts w where t: "au_throttles (noteLoginFailure (fst x) v ?s) = AList.update v w ts"
          "ts = au_throttles ?s \<or> (\<exists>k. ts = AList.delete k (au_throttles ?s))"
        using noteLoginFailure_table [of "fst x" v ?s] by blast
      have "fst ` set ts \<subseteq> fst ` set (au_throttles ?s)" using t(2) by (auto simp: AList.delete_eq)
      then show ?thesis unfolding t(1) dom_update by blast
    qed
    then show ?thesis unfolding auth_run_snoc wrong(2) n using snoc by blast
  qed
qed

lemma throttles_sized_run: "throttles_sized (auth_run h auth_new)"
proof (induction h rule: rev_induct)
  case Nil
  show ?case by (simp add: throttles_sized_def auth_new_def)
next
  case (snoc x h)
  then show ?case by (cases x) (simp only: auth_run_snoc auth_step_sized)
qed

lemma no_eviction:
  assumes "length (au_throttles s) < kMaxThrottled \<or> map_of (au_throttles s) u \<noteq> None" and "k \<noteq> u"
  shows "map_of (au_throttles (noteLoginFailure env u s)) k = map_of (au_throttles s) k"
  using assms by (auto simp: noteLoginFailure_def Let_def update_conv')

lemma noteLoginFailure_enters: "map_of (au_throttles (noteLoginFailure env u s)) u \<noteq> None"
  by (simp add: noteLoginFailure_def Let_def update_conv')

lemma room_in_table:
  assumes "card (insert u (login_names h)) \<le> 64" and "map_of (au_throttles (auth_run h auth_new)) u = None"
  shows "length (au_throttles (auth_run h auth_new)) < kMaxThrottled"
proof -
  let ?ts = "au_throttles (auth_run h auth_new)"
  have "u \<notin> fst ` set ?ts" using assms(2) by (simp add: map_of_eq_None_iff)
  then have "Suc (card (fst ` set ?ts)) = card (insert u (fst ` set ?ts))" by simp
  also have "\<dots> \<le> card (insert u (login_names h))"
    using throttles_named [of h] finite_login_names by (intro card_mono) auto
  finally have "card (fst ` set ?ts) < 64" using assms(1) by simp
  then show ?thesis
    using throttles_sized_run [of h] by (simp add: throttles_sized_def card_keys kMaxThrottled_def)
qed

lemma throttles_exact:
  "card (login_names h) \<le> 64 \<Longrightarrow>
   (case map_of (au_throttles (auth_run h auth_new)) u of None \<Rightarrow> 0 | Some t \<Rightarrow> th_failures t) =
     int (wrong_in_a_row u (rev h))"
proof (induction h arbitrary: u rule: rev_induct)
  case Nil
  then show ?case by (simp add: auth_new_def)
next
  case (snoc x h)
  let ?s = "auth_run h auth_new"
  have "card (login_names h) \<le> card (login_names (h @ [x]))"
    by (rule card_mono) (auto simp: finite_login_names, auto simp: login_names_def)
  with snoc have IH: "(case map_of (au_throttles ?s) u of None \<Rightarrow> 0 | Some t \<Rightarrow> th_failures t) =
      int (wrong_in_a_row u (rev h))" for u by simp
  show ?case
  proof (cases x ?s rule: step_checked)
    case (right v)
    with IH [of u] checked_name(1) [OF right(1), of u] show ?thesis
      by (auto simp: delete_conv' Let_def)
  next
    case other
    with IH [of u] show ?thesis by simp
  next
    case (wrong v)
    have none: "\<not> checked_right x ?s u"
      using checked_name(2) [OF wrong(1), of u] checked_name(3) wrong(1) by blast
    have room: "length (au_throttles ?s) < kMaxThrottled \<or> map_of (au_throttles ?s) v \<noteq> None"
      using room_in_table [of v h] snoc.prems wrong_is_login [OF wrong(1), of h] by auto
    show ?thesis
    proof (cases "u = v")
      case True
      obtain t where t: "map_of (au_throttles (noteLoginFailure (fst x) v ?s)) v = Some t"
        using noteLoginFailure_enters by fast
      from noteLoginFailure_entry [OF t] t IH [of v] wrong none True show ?thesis
        by (auto simp: Let_def split: option.splits)
    next
      case False
      with no_eviction [OF room, of u] IH [of u] wrong none checked_name(2) [OF wrong(1), of u] show ?thesis
        by (simp add: Let_def)
    qed
  qed
qed

subsection \<open>What the service promises\<close>

text \<open>A service with one account, whose stored password is \<^verbatim>\<open>a\<close>, for the witnesses.\<close>

definition sign_env :: "nat \<Rightarrow> auth_env" where
  "sign_env now = \<lparr>ae_now = now, ae_account = (\<lambda>u. if u = ''op'' then Some [[''op'', ''61'', '''', ''f'']] else Some []),
     ae_stored = Some [[''1'']], ae_pending = Some [[''0'']], ae_cfg = config_init, ae_random = Some [1],
     ae_crypto = \<lparr>cr_pbkdf2 = (\<lambda>password salt i. None), cr_sha256 = (\<lambda>s. Some (map byte_of s)), cr_atoi_over = (\<lambda>s. 0)\<rparr>,
     ae_first = 0\<rparr>"

lemma sign_env_simps [simp]:
  "ae_now (sign_env now) = now" "generateSessionId (sign_env now) = ''01''"
  "st_found (readAccount (sign_env now) ''op'')" "st_username (readAccount (sign_env now) ''op'') = ''op''"
  "st_passwordHash (readAccount (sign_env now) ''op'') = ''61''" "st_salt (readAccount (sign_env now) ''op'') = []"
  "declaredRole (sign_env now) u = Inr kRoleUser"
  by (simp_all add: sign_env_def readAccount_def generateSessionId_def toHex_def hex_digits_eq hex_lower_def
      declaredRole_def cfg_section_def scopeConfig_def object_member_def jvalue_def config_init_def bind_err_def jiterate_def)

lemma sign_env_verify:
  "verifyPassword (ae_crypto (sign_env now)) ''a'' [] ''61''" "\<not> verifyPassword (ae_crypto (sign_env now)) ''b'' [] ''61''"
  by (simp_all add: sign_env_def verifyPassword_def parseStored_def kPrefix_def legacySha256Hex_def toHex_def
      hex_digits_eq hex_lower_def byte_of_def constantTimeEquals_def)

lemma sign_env_check:
  "checkPassword (sign_env now) ''op'' ''a''" "\<not> checkPassword (sign_env now) ''op'' ''b''"
  using sign_env_verify by (simp_all add: checkPassword_def)

lemma sign_in_example:
  "auth_step (sign_env now, Login ''op'' ''a'') auth_new =
     put_session ''01'' \<lparr>se_expiresAt = now + 1800, se_username = ''op'', se_role = kRoleUser,
       se_mustChange = st_mustChange (readAccount (sign_env now) ''op'')\<rparr> auth_new"
  using sign_env_verify by (simp add: login_def throttled_def auth_new_def Let_def)

text \<open>The session lifetime is an idle timeout: a session that validates at time \<open>now\<close> was signed in or
  renewed by a request of at most half an hour before, and was not signed out since. However many other
  requests - the timers of the live views among them - validated it in between, none of them extended it.
\<close>

theorem session_idle_timeout:
  assumes "fst (validateSession now sid (auth_run h auth_new))"
  shows "\<exists>h1 env op h2. h = h1 @ (env, op) # h2 \<and> extends (env, op) (auth_run h1 auth_new) sid \<and>
     now \<le> ae_now env + 1800 \<and> (\<forall>(e, o') \<in> set h2. o' \<noteq> Logout sid)"
proof -
  obtain x where "live_session now sid (auth_run h auth_new) = Some x"
    using assms by (auto simp: validate_live)
  from live_session_stored [OF this] stored_session_lease [of h sid x] show ?thesis
    by (elim conjE exE) (metis (no_types, lifting))
qed

lemma live_example: "fst (validateSession 1500 ''01'' (auth_run [(sign_env 0, Login ''op'' ''a'')] auth_new))"
  by (simp add: sign_in_example validateSession_def del: auth_step.simps)

theorem session_idle_timeout_witness:
  "\<exists>h1 env op h2. [(sign_env 0, Login ''op'' ''a'')] = h1 @ (env, op) # h2 \<and> extends (env, op) (auth_run h1 auth_new) ''01'' \<and>
     1500 \<le> ae_now env + 1800 \<and> (\<forall>(e, o') \<in> set h2. o' \<noteq> Logout ''01'')"
  by (rule session_idle_timeout [OF live_example])

text \<open>C22. A session is earned: one that validates was granted by an earlier request that proved the very user
  the session speaks for - a sign-in whose password verified against that account's stored credential, or a
  federated sign-in for that user - and was not signed out since.
\<close>

theorem session_is_earned:
  assumes "fst (validateSession now sid (auth_run h auth_new))"
  shows "\<exists>h1 env op h2. h = h1 @ (env, op) # h2 \<and> grants (env, op) (auth_run h1 auth_new) sid \<and>
     proves (env, op) (sessionUser now sid (auth_run h auth_new)) \<and> (\<forall>(e, o') \<in> set h2. o' \<noteq> Logout sid)"
proof -
  obtain x where x: "live_session now sid (auth_run h auth_new) = Some x"
    using assms by (auto simp: validate_live)
  then have "sessionUser now sid (auth_run h auth_new) = se_username x" by (simp add: sessionUser_def)
  with stored_session_earned [of h sid x] live_session_stored [OF x] show ?thesis by simp
qed

theorem session_is_earned_witness:
  "\<exists>h1 env op h2. [(sign_env 0, Login ''op'' ''a'')] = h1 @ (env, op) # h2 \<and> grants (env, op) (auth_run h1 auth_new) ''01'' \<and>
     proves (env, op) (sessionUser 1500 ''01'' (auth_run [(sign_env 0, Login ''op'' ''a'')] auth_new)) \<and>
     (\<forall>(e, o') \<in> set h2. o' \<noteq> Logout ''01'')"
  by (rule session_is_earned [OF live_example])


text \<open>Three wrong passwords, a right one, and six wrong ones: the sixth blocks the name for a second.\<close>

definition guessing :: "(auth_env \<times> auth_op) list" where
  "guessing = replicate 3 (sign_env 0, Login ''op'' ''b'') @ [(sign_env 0, Login ''op'' ''a'')] @
     replicate 3 (sign_env 5, Login ''op'' ''b'') @ replicate 3 (sign_env 9, Login ''op'' ''b'')"

lemma wrong_entry:
  assumes "au_throttles s = (if n = 0 then [] else [(''op'', \<lparr>th_failures = n, th_nextAllowedAt = 0\<rparr>)])" and "0 \<le> n"
  shows "au_throttles (auth_step (sign_env now, Login ''op'' ''b'') s) =
    [(''op'', \<lparr>th_failures = n + 1, th_nextAllowedAt = if n + 1 \<le> 5 then 0 else now + wait_after (n + 1)\<rparr>)]"
  using assms sign_env_verify backoff_min [of 1 6 "n + 1"]
  by (auto simp: login_def throttled_def noteLoginFailure_def Let_def kMaxThrottled_def kFreeAttempts_def
      kMaxBackoffSec_def wait_after_def)

lemma right_entry:
  assumes "au_throttles s = [(''op'', \<lparr>th_failures = n, th_nextAllowedAt = 0\<rparr>)]"
  shows "au_throttles (auth_step (sign_env now, Login ''op'' ''a'') s) = []"
  using assms sign_env_verify by (simp add: login_def throttled_def Let_def)

lemma three_wrong:
  assumes "au_throttles s = []"
  shows "au_throttles (auth_run (replicate 3 (sign_env now, Login ''op'' ''b'')) s) =
    [(''op'', \<lparr>th_failures = 3, th_nextAllowedAt = 0\<rparr>)]"
  using assms wrong_entry [of _ 0] wrong_entry [of _ 1] wrong_entry [of _ 2]
  by (simp add: eval_nat_numeral del: auth_step.simps)

lemma three_more:
  assumes "au_throttles s = [(''op'', \<lparr>th_failures = 3, th_nextAllowedAt = 0\<rparr>)]"
  shows "au_throttles (auth_run (replicate 3 (sign_env now, Login ''op'' ''b'')) s) =
    [(''op'', \<lparr>th_failures = 6, th_nextAllowedAt = now + 1\<rparr>)]"
  using assms wrong_entry [of _ 3] wrong_entry [of _ 4] wrong_entry [of _ 5]
  by (simp add: eval_nat_numeral wait_after_def del: auth_step.simps)

lemma auth_run_append: "auth_run (h1 @ h2) s = auth_run h2 (auth_run h1 s)"
  by (induction h1 arbitrary: s) simp_all

lemma guessing_entry:
  "au_throttles (auth_run guessing auth_new) = [(''op'', \<lparr>th_failures = 6, th_nextAllowedAt = 10\<rparr>)]"
proof -
  have "au_throttles auth_new = []" by (simp add: auth_new_def)
  from three_more [OF three_wrong [OF right_entry [OF three_wrong [OF this]]]]
  show ?thesis by (simp add: guessing_def auth_run_append del: auth_step.simps)
qed


end
