(* ===== verification/Mgmtd_State.thy ===== *)
theory Mgmtd_State
  imports Mgmtd_Auth Ipc_Codec "HOL-Library.Sublist"
begin

text \<open>
  What the management daemon's service manager keeps between requests
  (\<^verbatim>\<open>mgmtd/service/MgmtdServiceManager.cpp\<close>): the sign-in service, the answers that other daemons send
  to a question a browser asked - each filed under the ticket the browser polls with -, the progress
  slots, the topology last composed for each site and the reload a commit started. An answer store is
  bounded: above 256 entries it is emptied before the next one is filed. The locale \<open>ticket_store\<close> states
  what such a store promises. Everything handed to a transport is appended to \<open>mg_out\<close>, in order.
\<close>

subsection \<open>State\<close>

record http_request =
  rq_method :: string
  rq_target :: string
  rq_cookie :: string
  rq_body :: string

record http_response =
  rs_status :: nat
  rs_contentType :: string
  rs_body :: string
  rs_setCookie :: string
  rs_location :: string
  rs_etag :: string

record chat_context =
  cc_sessionOid :: string
  cc_ownerOid :: string
  cc_service :: string
  cc_title :: string
  cc_model :: string
  cc_draft :: string
  cc_question :: string
  cc_questionOid :: string
  cc_answerOid :: string
  cc_seq :: int

datatype reload_status = RsIdle | RsReloading | RsComplete | RsFailed

text \<open>The assistant's configuration goes out over its own transport; only that it was sent is kept.\<close>

datatype mg_output = TxIpc ipc_message | TxHttp http_response u64 | TxAiConfig

record mgmtd =
  mg_auth :: auth
  mg_ssoTicket :: u32
  mg_apiTestTicket :: u32
  mg_chatTicket :: u32
  mg_ssoResults :: "(u32 \<times> string) list"
  mg_apiTestResults :: "(u32 \<times> string) list"
  mg_chatResults :: "(u32 \<times> string) list"
  mg_retrievalResults :: "(u32 \<times> string) list"
  mg_chatContexts :: "(u32 \<times> chat_context) list"
  mg_chatPartials :: "(u32 \<times> string) list"
  mg_corpusProgress :: string
  mg_corpusRefreshing :: bool
  mg_benchtestProgress :: string
  mg_benchtestRunning :: bool
  mg_benchtestCases :: "string list"
  mg_topology :: "(string \<times> string) list"
  mg_topologyAt :: "(string \<times> int) list"
  mg_topologyAsked :: "(string \<times> int) list"
  mg_reloadStatus :: reload_status
  mg_reloadStartedAt :: int
  mg_cacheValid :: bool
  mg_commitQueue :: string
  mg_heartbeat :: "string option"
  mg_out :: "mg_output list"

definition mg_new :: mgmtd where
  "mg_new = \<lparr>mg_auth = auth_new, mg_ssoTicket = 1, mg_apiTestTicket = 1, mg_chatTicket = 1, mg_ssoResults = [],
     mg_apiTestResults = [], mg_chatResults = [], mg_retrievalResults = [], mg_chatContexts = [], mg_chatPartials = [],
     mg_corpusProgress = [], mg_corpusRefreshing = False, mg_benchtestProgress = [], mg_benchtestRunning = False,
     mg_benchtestCases = [], mg_topology = [], mg_topologyAt = [], mg_topologyAsked = [], mg_reloadStatus = RsIdle,
     mg_reloadStartedAt = 0, mg_cacheValid = True, mg_commitQueue = ''[]'', mg_heartbeat = None, mg_out = []\<rparr>"

definition mg_send :: "mg_output \<Rightarrow> mgmtd \<Rightarrow> mgmtd" where
  "mg_send x s = s\<lparr>mg_out := mg_out s @ [x]\<rparr>"

subsection \<open>Answers by ticket\<close>

definition store_set :: "u32 \<Rightarrow> 'v \<Rightarrow> (u32 \<times> 'v) list \<Rightarrow> (u32 \<times> 'v) list" where
  "store_set ticket v m = AList.update ticket v (if length m > 256 then [] else m)"

definition store_take :: "u32 \<Rightarrow> (u32 \<times> 'v) list \<Rightarrow> 'v option \<times> (u32 \<times> 'v) list" where
  "store_take ticket m = (case map_of m ticket of None \<Rightarrow> (None, m) | Some v \<Rightarrow> (Some v, AList.delete ticket m))"

definition setSsoResult :: "u32 \<Rightarrow> string \<Rightarrow> mgmtd \<Rightarrow> mgmtd" where
  "setSsoResult ticket v s = s\<lparr>mg_ssoResults := store_set ticket v (mg_ssoResults s)\<rparr>"

definition takeSsoResult :: "u32 \<Rightarrow> mgmtd \<Rightarrow> string option \<times> mgmtd" where
  "takeSsoResult ticket s = (let (v, m) = store_take ticket (mg_ssoResults s) in (v, s\<lparr>mg_ssoResults := m\<rparr>))"

definition setApiTestResult :: "u32 \<Rightarrow> string \<Rightarrow> mgmtd \<Rightarrow> mgmtd" where
  "setApiTestResult ticket v s = s\<lparr>mg_apiTestResults := store_set ticket v (mg_apiTestResults s)\<rparr>"

definition takeApiTestResult :: "u32 \<Rightarrow> mgmtd \<Rightarrow> string option \<times> mgmtd" where
  "takeApiTestResult ticket s =
     (let (v, m) = store_take ticket (mg_apiTestResults s) in (v, s\<lparr>mg_apiTestResults := m\<rparr>))"

definition setChatContext :: "u32 \<Rightarrow> chat_context \<Rightarrow> mgmtd \<Rightarrow> mgmtd" where
  "setChatContext ticket v s = s\<lparr>mg_chatContexts := store_set ticket v (mg_chatContexts s)\<rparr>"

definition takeChatContext :: "u32 \<Rightarrow> mgmtd \<Rightarrow> chat_context option \<times> mgmtd" where
  "takeChatContext ticket s =
     (let (v, m) = store_take ticket (mg_chatContexts s) in (v, s\<lparr>mg_chatContexts := m\<rparr>))"

definition setChatResult :: "u32 \<Rightarrow> string \<Rightarrow> mgmtd \<Rightarrow> mgmtd" where
  "setChatResult ticket v s = s\<lparr>mg_chatResults := store_set ticket v (mg_chatResults s)\<rparr>"

definition takeChatResult :: "u32 \<Rightarrow> mgmtd \<Rightarrow> string option \<times> mgmtd" where
  "takeChatResult ticket s =
     (case map_of (mg_chatResults s) ticket of
        None \<Rightarrow> (None, s)
      | Some v \<Rightarrow> (Some v, s\<lparr>mg_chatResults := AList.delete ticket (mg_chatResults s),
          mg_chatPartials := AList.delete ticket (mg_chatPartials s)\<rparr>))"

definition appendChatPartial :: "u32 \<Rightarrow> string \<Rightarrow> mgmtd \<Rightarrow> mgmtd" where
  "appendChatPartial ticket delta s =
     (let m = (if length (mg_chatPartials s) > 256 then [] else mg_chatPartials s) in
      s\<lparr>mg_chatPartials :=
          AList.update ticket ((case map_of m ticket of None \<Rightarrow> [] | Some p \<Rightarrow> p) @ delta) m\<rparr>)"

definition chatPartial :: "u32 \<Rightarrow> mgmtd \<Rightarrow> string" where
  "chatPartial ticket s = (case map_of (mg_chatPartials s) ticket of None \<Rightarrow> [] | Some p \<Rightarrow> p)"

definition setRetrievalResult :: "u32 \<Rightarrow> string \<Rightarrow> mgmtd \<Rightarrow> mgmtd" where
  "setRetrievalResult ticket v s = s\<lparr>mg_retrievalResults := store_set ticket v (mg_retrievalResults s)\<rparr>"

definition takeRetrievalResult :: "u32 \<Rightarrow> mgmtd \<Rightarrow> string option \<times> mgmtd" where
  "takeRetrievalResult ticket s =
     (let (v, m) = store_take ticket (mg_retrievalResults s) in (v, s\<lparr>mg_retrievalResults := m\<rparr>))"

definition nextSsoTicket :: "mgmtd \<Rightarrow> u32 \<times> mgmtd" where
  "nextSsoTicket s = (mg_ssoTicket s, s\<lparr>mg_ssoTicket := mg_ssoTicket s + 1\<rparr>)"

definition nextApiTestTicket :: "mgmtd \<Rightarrow> u32 \<times> mgmtd" where
  "nextApiTestTicket s = (mg_apiTestTicket s, s\<lparr>mg_apiTestTicket := mg_apiTestTicket s + 1\<rparr>)"

definition nextChatTicket :: "mgmtd \<Rightarrow> u32 \<times> mgmtd" where
  "nextChatTicket s = (mg_chatTicket s, s\<lparr>mg_chatTicket := mg_chatTicket s + 1\<rparr>)"

subsection \<open>Progress slots\<close>

definition beginCorpusRefresh :: "mgmtd \<Rightarrow> bool \<times> mgmtd" where
  "beginCorpusRefresh s =
     (if mg_corpusRefreshing s then (False, s)
      else (True, s\<lparr>mg_corpusRefreshing := True, mg_corpusProgress := []\<rparr>))"

definition setCorpusProgress :: "string \<Rightarrow> bool \<Rightarrow> mgmtd \<Rightarrow> mgmtd" where
  "setCorpusProgress j finished s =
     (let s = s\<lparr>mg_corpusProgress := j\<rparr> in if finished then s\<lparr>mg_corpusRefreshing := False\<rparr> else s)"

definition beginBenchtestRun :: "mgmtd \<Rightarrow> bool \<times> mgmtd" where
  "beginBenchtestRun s =
     (if mg_benchtestRunning s then (False, s)
      else (True, s\<lparr>mg_benchtestRunning := True, mg_benchtestProgress := [], mg_benchtestCases := []\<rparr>))"

definition setBenchtestProgress :: "string \<Rightarrow> bool \<Rightarrow> mgmtd \<Rightarrow> mgmtd" where
  "setBenchtestProgress j finished s =
     (let s = s\<lparr>mg_benchtestProgress := j\<rparr> in if finished then s\<lparr>mg_benchtestRunning := False\<rparr> else s)"

definition kMaxQueued :: nat where "kMaxQueued = 2000"

definition queueBenchtestCase :: "string \<Rightarrow> mgmtd \<Rightarrow> mgmtd" where
  "queueBenchtestCase j s =
     (let cs = (if length (mg_benchtestCases s) \<ge> kMaxQueued then tl (mg_benchtestCases s) else mg_benchtestCases s)
      in s\<lparr>mg_benchtestCases := cs @ [j]\<rparr>)"

definition takeBenchtestCases :: "mgmtd \<Rightarrow> string list \<times> mgmtd" where
  "takeBenchtestCases s = (mg_benchtestCases s, s\<lparr>mg_benchtestCases := []\<rparr>)"

subsection \<open>Topology and reload\<close>

text \<open>Milliseconds of the steady clock.\<close>

definition setTopology :: "int \<Rightarrow> string \<Rightarrow> string \<Rightarrow> mgmtd \<Rightarrow> mgmtd" where
  "setTopology now siteOid model s =
     s\<lparr>mg_topology := AList.update siteOid model (mg_topology s),
       mg_topologyAt := AList.update siteOid now (mg_topologyAt s),
       mg_topologyAsked := AList.delete siteOid (mg_topologyAsked s)\<rparr>"

definition topologyFresh :: "int \<Rightarrow> string \<Rightarrow> int \<Rightarrow> mgmtd \<Rightarrow> bool" where
  "topologyFresh now siteOid within s =
     (case map_of (mg_topologyAt s) siteOid of None \<Rightarrow> False | Some at \<Rightarrow> now - at < within)"

definition topologyRequested :: "int \<Rightarrow> string \<Rightarrow> mgmtd \<Rightarrow> bool" where
  "topologyRequested now siteOid s =
     (case map_of (mg_topologyAsked s) siteOid of None \<Rightarrow> False | Some at \<Rightarrow> now - at < 10000)"

definition markTopologyRequested :: "int \<Rightarrow> string \<Rightarrow> mgmtd \<Rightarrow> mgmtd" where
  "markTopologyRequested now siteOid s = s\<lparr>mg_topologyAsked := AList.update siteOid now (mg_topologyAsked s)\<rparr>"

definition topology_of :: "string \<Rightarrow> mgmtd \<Rightarrow> string option" where
  "topology_of siteOid s = map_of (mg_topology s) siteOid"

definition startReload :: "int \<Rightarrow> mgmtd \<Rightarrow> mgmtd" where
  "startReload now s = s\<lparr>mg_reloadStartedAt := now, mg_reloadStatus := RsReloading\<rparr>"

definition completeReload :: "mgmtd \<Rightarrow> mgmtd" where
  "completeReload s = s\<lparr>mg_cacheValid := False, mg_reloadStatus := RsComplete\<rparr>"

definition failReload :: "mgmtd \<Rightarrow> mgmtd" where
  "failReload s = s\<lparr>mg_cacheValid := False, mg_reloadStatus := RsFailed\<rparr>"

definition reloadElapsedMs :: "int \<Rightarrow> mgmtd \<Rightarrow> int" where
  "reloadElapsedMs now s = (if mg_reloadStatus s = RsIdle then 0 else now - mg_reloadStartedAt s)"

subsection \<open>What an answer store promises\<close>

datatype 'v ticket_op = FileAnswer u32 'v | Poll u32

text \<open>The answers a sequence of filings and polls hands out, each with its ticket, in order.\<close>

fun deliveries :: "(u32 \<Rightarrow> 'v \<Rightarrow> 's \<Rightarrow> 's) \<Rightarrow> (u32 \<Rightarrow> 's \<Rightarrow> 'v option \<times> 's) \<Rightarrow> 'v ticket_op list \<Rightarrow> 's \<Rightarrow> (u32 \<times> 'v) list" where
  "deliveries put fetch [] s = []"
| "deliveries put fetch (FileAnswer t v # ops) s = deliveries put fetch ops (put t v s)"
| "deliveries put fetch (Poll t # ops) s =
     (case fetch t s of (answer, s') \<Rightarrow>
        (case answer of None \<Rightarrow> [] | Some v \<Rightarrow> [(t, v)]) @ deliveries put fetch ops s')"

definition answers_for :: "u32 \<Rightarrow> (u32 \<times> 'v) list \<Rightarrow> 'v list" where
  "answers_for t kvs = map snd (filter (\<lambda>(k, v). k = t) kvs)"

fun filed_for :: "u32 \<Rightarrow> 'v ticket_op list \<Rightarrow> 'v list" where
  "filed_for t [] = []"
| "filed_for t (FileAnswer k v # ops) = (if k = t then v # filed_for t ops else filed_for t ops)"
| "filed_for t (Poll k # ops) = filed_for t ops"

lemma answers_for_simps [simp]:
  "answers_for t [] = []" "answers_for t ((k, v) # kvs) = (if k = t then v # answers_for t kvs else answers_for t kvs)"
  "answers_for t (xs @ ys) = answers_for t xs @ answers_for t ys"
  by (simp_all add: answers_for_def)

locale ticket_store =
  fixes put :: "u32 \<Rightarrow> 'v \<Rightarrow> 's \<Rightarrow> 's" and fetch :: "u32 \<Rightarrow> 's \<Rightarrow> 'v option \<times> 's"
    and held :: "'s \<Rightarrow> u32 \<Rightarrow> 'v option"
  assumes fetch_held: "fst (fetch t s) = held s t"
    and after_fetch: "held (snd (fetch t s)) = (held s)(t := None)"
    and after_put: "held (put t v s) = (held s)(t \<mapsto> v) \<or> held (put t v s) = [t \<mapsto> v]"
begin

lemma deliveries_subseq:
  "subseq (answers_for t (deliveries put fetch ops s)) (case_option [] (\<lambda>v. [v]) (held s t) @ filed_for t ops)"
proof (induction ops arbitrary: s)
  case Nil
  then show ?case by simp
next
  case (Cons op ops)
  show ?case
  proof (cases op)
    case (FileAnswer k v)
    have "subseq (answers_for t (deliveries put fetch ops (put k v s)))
        (case_option [] (\<lambda>v. [v]) (held (put k v s) t) @ filed_for t ops)"
      by (rule Cons.IH)
    also have "subseq \<dots> (case_option [] (\<lambda>v. [v]) (held s t) @ filed_for t (op # ops))"
    proof (cases "k = t")
      case True
      then have "held (put k v s) t = Some v" using after_put [of k v s] by auto
      with True FileAnswer show ?thesis by (cases "held s t") auto
    next
      case False
      then have "held (put k v s) t = held s t \<or> held (put k v s) t = None" using after_put [of k v s] by auto
      with False FileAnswer show ?thesis by (cases "held s t") auto
    qed
    finally (subseq_order.order_trans) show ?thesis using FileAnswer by simp
  next
    case (Poll k)
    obtain answer s' where t: "fetch k s = (answer, s')" by (cases "fetch k s")
    have h: "answer = held s k" "held s' = (held s)(k := None)"
      using fetch_held [of k s] after_fetch [of k s] t by simp_all
    have "subseq (answers_for t (deliveries put fetch ops s'))
        (case_option [] (\<lambda>v. [v]) (held s' t) @ filed_for t ops)"
      by (rule Cons.IH)
    moreover have "case_option [] (\<lambda>v. [v]) (held s t) =
        answers_for t (case answer of None \<Rightarrow> [] | Some v \<Rightarrow> [(k, v)]) @ case_option [] (\<lambda>v. [v]) (held s' t)"
      unfolding h by (cases "k = t"; cases "held s k") simp_all
    ultimately show ?thesis using t Poll by (simp add: list_emb_append_mono)
  qed
qed

lemma delivered_once:
  assumes "held s t = None"
  shows "subseq (answers_for t (deliveries put fetch ops s)) (filed_for t ops)"
  using deliveries_subseq [of t ops s] assms by simp

lemma fetch_after_put:
  "fst (fetch t (put t v s)) = Some v" "fst (fetch t (snd (fetch t s))) = None"
  using after_put [of t v s] by (auto simp: fetch_held after_fetch)

end

lemma store_take_laws:
  "fst (store_take t m) = map_of m t" "map_of (snd (store_take t m)) = (map_of m)(t := None)"
  "map_of (store_set t v m) = (map_of m)(t \<mapsto> v) \<or> map_of (store_set t v m) = [t \<mapsto> v]"
  by (auto simp: store_take_def store_set_def update_conv' AList.delete_conv' fun_upd_idem split: option.split)

lemma take_results [simp]:
  "fst (takeSsoResult t s) = fst (store_take t (mg_ssoResults s))"
  "snd (takeSsoResult t s) = s\<lparr>mg_ssoResults := snd (store_take t (mg_ssoResults s))\<rparr>"
  "fst (takeApiTestResult t s) = fst (store_take t (mg_apiTestResults s))"
  "snd (takeApiTestResult t s) = s\<lparr>mg_apiTestResults := snd (store_take t (mg_apiTestResults s))\<rparr>"
  "fst (takeChatContext t s) = fst (store_take t (mg_chatContexts s))"
  "snd (takeChatContext t s) = s\<lparr>mg_chatContexts := snd (store_take t (mg_chatContexts s))\<rparr>"
  "fst (takeRetrievalResult t s) = fst (store_take t (mg_retrievalResults s))"
  "snd (takeRetrievalResult t s) = s\<lparr>mg_retrievalResults := snd (store_take t (mg_retrievalResults s))\<rparr>"
  by (simp_all add: takeSsoResult_def takeApiTestResult_def takeChatContext_def takeRetrievalResult_def split_beta)

interpretation sso_store: ticket_store setSsoResult takeSsoResult "\<lambda>s. map_of (mg_ssoResults s)"
  by unfold_locales (simp_all add: store_take_laws setSsoResult_def)

interpretation test_store: ticket_store setApiTestResult takeApiTestResult "\<lambda>s. map_of (mg_apiTestResults s)"
  by unfold_locales (simp_all add: store_take_laws setApiTestResult_def)

interpretation context_store: ticket_store setChatContext takeChatContext "\<lambda>s. map_of (mg_chatContexts s)"
  by unfold_locales (simp_all add: store_take_laws setChatContext_def)

interpretation retrieval_store: ticket_store setRetrievalResult takeRetrievalResult "\<lambda>s. map_of (mg_retrievalResults s)"
  by unfold_locales (simp_all add: store_take_laws setRetrievalResult_def)

lemma take_chat_laws:
  "fst (takeChatResult t s) = map_of (mg_chatResults s) t"
  "map_of (mg_chatResults (snd (takeChatResult t s))) = (map_of (mg_chatResults s))(t := None)"
  by (auto simp: takeChatResult_def AList.delete_conv' fun_upd_idem split: option.split)

interpretation chat_store: ticket_store setChatResult takeChatResult "\<lambda>s. map_of (mg_chatResults s)"
  by unfold_locales (simp_all add: take_chat_laws store_take_laws setChatResult_def)

text \<open>What is filed under a ticket is handed out at most once: the answers that polls of a ticket receive are,
  in order and without repetition, answers filed under that ticket - for verdicts of federated sign-in,
  results of connector tests and replies of the assistant alike.
\<close>

theorem answers_polled_once:
  "subseq (answers_for t (deliveries setSsoResult takeSsoResult sso mg_new)) (filed_for t sso) \<and>
   subseq (answers_for t (deliveries setApiTestResult takeApiTestResult tests mg_new)) (filed_for t tests) \<and>
   subseq (answers_for t (deliveries setChatResult takeChatResult chat mg_new)) (filed_for t chat)"
  by (intro conjI sso_store.delivered_once test_store.delivered_once chat_store.delivered_once) (simp_all add: mg_new_def)

end
