(* ===== verification/Mgmtd_Http.thy ===== *)
theory Mgmtd_Http
  imports Mgmtd_State Api_Refs
begin

text \<open>
  What the request handlers of the management daemon share (\<^verbatim>\<open>mgmtd/service/web/WebUtil.h\<close>, the
  helpers at the head of \<^verbatim>\<open>web/controller/SsoController.cpp\<close>): filling a response, reading the session
  cookie and the query, and the outside world of one request, \<open>web_env\<close>. Parsing and printing of JSON
  belong to a library and are fields of it; so are the answers of the database, the static files and
  the rendered metrics, and the controllers that are not modelled, as functions of the request and the state.
\<close>

subsection \<open>The world of a request\<close>

datatype webroute =
    RNone | RMetric | RHealth | RLogin | RLogout | RChangePassword | RWhoami | RSessionKeepalive
  | RSsoInfo | RSsoLogin | RSamlAcs | RSamlResult
  | RSettings | RRunningConfig | RSettingsCommit | RReloadStatus | RCommitQueue | RSaveConfig | RSavedConfigs
  | RSavedConfigContent | RDeviceStatus | RSiteTopology
  | RKeygenTest | REndpointTest | RSaseTest | RSaseKeyStore | RCredentialStore | RTlsProbe | RApiTestResult | RKeysState
  | RCollectionOverview | RCollectionSamples | RCollectionSample
  | RAiCredentials | RAiCredentialStore | RChatSessions | RChatSession | RChatSessionDelete | RChatSessionPatch
  | RUserCredentials | RUserCredentialStore | RChatSend | RChatResult | RChatModels
  | RTechDocStatus | RTechDocResult | RTechDocRefresh | RTechDocProgress | RTechDocCancel | RTechDocDocuments
  | RBenchtestDatasets | RBenchtestUpload | RBenchtestDelete | RBenchtestSummary | RBenchtestRows | RBenchtestExport
  | RBenchtestResult | RBenchtestRunStart | RBenchtestRunProgress | RBenchtestRunCancel | RBenchtestRuns
  | RBenchtestRunInfo | RBenchtestCases | RBenchtestCase | RLogs

record static_file =
  sf_body :: string
  sf_contentType :: string
  sf_etag :: string

record web_env =
  we_auth :: auth_env
  we_steady :: int
  we_parse :: "string \<Rightarrow> json option"
  we_dump :: "json \<Rightarrow> json_error + string"
  we_hexDigits :: "nat list"
  we_utcNow :: string
  we_metrics :: string
  we_staticCache :: "(string \<Rightarrow> static_file option) option"
  we_userRows :: "string list list option"
  we_userCount :: "string list list option"
  we_configDir :: string
  we_savedFile :: "string \<Rightarrow> string option"
  we_controller :: "webroute \<Rightarrow> http_request \<Rightarrow> http_response \<Rightarrow> mgmtd \<Rightarrow> (json_error + http_response) \<times> mgmtd"

abbreviation we_now :: "web_env \<Rightarrow> nat" where "we_now env \<equiv> ae_now (we_auth env)"
abbreviation we_cfg :: "web_env \<Rightarrow> config" where "we_cfg env \<equiv> ae_cfg (we_auth env)"

text \<open>A handler's outcome: its response, or the exception it let escape, and the state it leaves.\<close>

type_synonym 'a handled = "(json_error + 'a) \<times> mgmtd"

definition parse_body :: "web_env \<Rightarrow> string \<Rightarrow> json_error + json" where
  "parse_body env s = (case we_parse env s of None \<Rightarrow> Inl (TypeError 101) | Some j \<Rightarrow> Inr j)"

subsection \<open>Responses\<close>

definition json_type :: string where "json_type = ''application/json; charset=utf-8''"
definition text_type :: string where "text_type = ''text/plain; charset=utf-8''"

definition response_new :: http_response where
  "response_new = \<lparr>rs_status = 404, rs_contentType = json_type, rs_body = ''{\"error\":\"not found\"}'',
     rs_setCookie = [], rs_location = [], rs_etag = []\<rparr>"

definition fill_as :: "string \<Rightarrow> http_response \<Rightarrow> nat \<Rightarrow> string \<Rightarrow> http_response" where
  "fill_as contentType r status body = r\<lparr>rs_status := status, rs_contentType := contentType, rs_body := body\<rparr>"

definition fill :: "http_response \<Rightarrow> nat \<Rightarrow> string \<Rightarrow> http_response" where
  "fill = fill_as json_type"

definition fill_json :: "web_env \<Rightarrow> http_response \<Rightarrow> nat \<Rightarrow> json \<Rightarrow> mgmtd \<Rightarrow> http_response handled" where
  "fill_json env r status j s = (map_sum id (fill r status) (we_dump env j), s)"

text \<open>A message for another daemon, its payload a JSON document.\<close>

definition send_json :: "web_env \<Rightarrow> ipc_daemon \<Rightarrow> ipc_cmd \<Rightarrow> u32 \<Rightarrow> json \<Rightarrow> mgmtd \<Rightarrow> unit handled" where
  "send_json env dst cmd seqNo j s =
     (case we_dump env j of
        Inl e \<Rightarrow> (Inl e, s)
      | Inr body \<Rightarrow> (Inr (), mg_send (TxIpc (mk_message DMgmtd dst cmd seqNo (toFlag FlagRequest) (bytes_of_string body))) s))"

subsection \<open>Cookies and queries\<close>

text \<open>The loop of \<^verbatim>\<open>sessionCookie\<close>: an occurrence inside another cookie's name is passed over.\<close>

definition session_key :: string where "session_key = ''session=''"

function cookie_loop :: "string \<Rightarrow> nat \<Rightarrow> nat option" where
  "cookie_loop cookies pos =
     (case find_from session_key cookies pos of
        None \<Rightarrow> None
      | Some p \<Rightarrow>
          if p = 0 \<or> cookies ! (p - 1) = CHR '' '' \<or> cookies ! (p - 1) = CHR '';'' then Some p
          else cookie_loop cookies (p + 1))"
  by pat_completeness auto
termination
proof (relation "measure (\<lambda>(cookies, pos). Suc (length cookies) - pos)")
  fix cookies pos p
  assume "find_from session_key cookies pos = Some p"
  from find_from_bound [OF this] show "((cookies, p + 1), cookies, pos) \<in> measure (\<lambda>(cookies, pos). Suc (length cookies) - pos)"
    by auto
qed simp

declare cookie_loop.simps [simp del]

definition cookie_value :: "string \<Rightarrow> string" where
  "cookie_value cookies =
     (if cookies = [] then []
      else case cookie_loop cookies 0 of
        None \<Rightarrow> []
      | Some pos \<Rightarrow> takeWhile (\<lambda>c. c \<noteq> CHR '';'') (drop (pos + length session_key) cookies))"

definition sessionCookie :: "http_request \<Rightarrow> string" where
  "sessionCookie req = cookie_value (rq_cookie req)"

text \<open>\<^verbatim>\<open>std::getline\<close> with a delimiter: the pieces, without an empty last one.\<close>

function getline_tokens :: "char \<Rightarrow> string \<Rightarrow> string list" where
  "getline_tokens d [] = []"
| "getline_tokens d (c # s) =
     takeWhile (\<lambda>x. x \<noteq> d) (c # s) # getline_tokens d (drop 1 (dropWhile (\<lambda>x. x \<noteq> d) (c # s)))"
  by pat_completeness auto
termination
  by (relation "measure (\<lambda>(d, s). length s)")
    (auto simp: less_Suc_eq_le length_dropWhile_le intro: le_trans [OF diff_le_self])

fun param_scan :: "string \<Rightarrow> string list \<Rightarrow> string" where
  "param_scan key [] = []"
| "param_scan key (t # ts) =
     (if CHR ''='' \<in> set t \<and> takeWhile (\<lambda>c. c \<noteq> CHR ''='') t = key
      then urlDecode (drop (length key + 1) t) else param_scan key ts)"

definition queryParam :: "string \<Rightarrow> string \<Rightarrow> string" where
  "queryParam target key =
     (if CHR ''?'' \<notin> set target then []
      else param_scan key (getline_tokens (CHR ''&'') (drop 1 (dropWhile (\<lambda>c. c \<noteq> CHR ''?'') target))))"

text \<open>A field of a form body: the pairs between ampersands, the first whose name matches.\<close>

function ssoFormField :: "string \<Rightarrow> string \<Rightarrow> string" where
  "ssoFormField body key =
     (if body = [] then []
      else
        let pair = takeWhile (\<lambda>c. c \<noteq> CHR ''&'') body in
        if prefix (key @ ''='') pair then ssoUrlDecode (drop (length key + 1) pair)
        else if CHR ''&'' \<notin> set body then []
        else ssoFormField (drop (length pair + 1) body) key)"
  by auto
termination
  by (relation "measure (\<lambda>(body, key). length body)") (auto simp: Let_def)

declare ssoFormField.simps [simp del]

fun ssoHtmlAttr :: "string \<Rightarrow> string" where
  "ssoHtmlAttr [] = []"
| "ssoHtmlAttr (c # s) =
     (if c = CHR ''&'' then ''&amp;'' else if c = CHR 0x22 then ''&quot;'' else if c = CHR ''<'' then ''&lt;''
      else if c = CHR ''>'' then ''&gt;'' else [c]) @ ssoHtmlAttr s"

definition ssoRandomHex :: "nat list \<Rightarrow> string" where
  "ssoRandomHex ds = map (\<lambda>d. hex_lower ! (d mod 16)) ds"

end
