(* ===== verification/Mgmtd_Commit.thy ===== *)
theory Mgmtd_Commit
  imports Api_Refs Config_Store Text_Codec
begin

text \<open>
  The schema a published configuration change must meet
  (\<^verbatim>\<open>mgmtd/service/web/controller/SettingsController.cpp\<close>, the validators at its head). A check answers
  \<open>Inr True\<close> or \<open>Inr False\<close>, or, where the code leaves a text in \<^verbatim>\<open>error\<close>, \<open>Inr None\<close> (valid) or \<open>Inr (Some error)\<close>;
  \<open>Inl\<close> is a \<^verbatim>\<open>type_error\<close> the JSON library throws at a member of an unexpected type.
\<close>

subsection \<open>Checks and their sequences\<close>

type_synonym verdict = "json_error + string option"

definition err_and :: "json_error + bool \<Rightarrow> json_error + bool \<Rightarrow> json_error + bool" where
  "err_and a b = bind_err a (\<lambda>x. if x then b else Inr False)"

definition then_check :: "verdict \<Rightarrow> verdict \<Rightarrow> verdict" where
  "then_check a b = bind_err a (\<lambda>r. case r of None \<Rightarrow> b | Some e \<Rightarrow> Inr (Some e))"

definition require :: "bool \<Rightarrow> string \<Rightarrow> verdict" where
  "require ok error = Inr (if ok then None else Some error)"

fun err_all :: "('a \<Rightarrow> json_error + bool) \<Rightarrow> 'a list \<Rightarrow> json_error + bool" where
  "err_all f [] = Inr True"
| "err_all f (x # xs) = err_and (f x) (err_all f xs)"

fun err_any :: "('a \<Rightarrow> json_error + bool) \<Rightarrow> 'a list \<Rightarrow> json_error + bool" where
  "err_any f [] = Inr False"
| "err_any f (x # xs) = bind_err (f x) (\<lambda>b. if b then Inr True else err_any f xs)"

definition nonempty_str :: "string \<Rightarrow> json \<Rightarrow> json_error + bool" where
  "nonempty_str k j = map_sum id (\<lambda>s. s \<noteq> []) (jvalue get_str k [] j)"

definition jmember :: "string \<Rightarrow> json \<Rightarrow> json" where
  "jmember k j = (case jfind k j of None \<Rightarrow> JNull | Some v \<Rightarrow> v)"

definition is_bool :: "json \<Rightarrow> bool" where
  "is_bool j = (case j of JBool b \<Rightarrow> True | _ \<Rightarrow> False)"

definition is_str :: "json \<Rightarrow> bool" where
  "is_str j = (case j of JStr s \<Rightarrow> True | _ \<Rightarrow> False)"

definition quoted :: "string \<Rightarrow> string" where
  "quoted s = [CHR 0x27] @ s @ [CHR 0x27]"

definition nat_string :: "nat \<Rightarrow> string" where
  "nat_string n = to_string (int n)"

definition kPretzel :: string where "kPretzel = ''pretzel''"
definition kPretzelAi :: string where "kPretzelAi = ''pretzel-ai''"
definition kSettingsScopes :: "string list" where "kSettingsScopes = [kPretzel, kPretzelAi]"

subsection \<open>Devices, sites and API objects\<close>

definition validDevice :: "json \<Rightarrow> json_error + bool" where
  "validDevice d = (if \<not> is_object d then Inr False else err_and (nonempty_str ''oid'' d) (nonempty_str ''target'' d))"

definition validSite :: "json \<Rightarrow> json_error + bool" where
  "validSite s = (if \<not> is_object s then Inr False else err_and (nonempty_str ''oid'' s) (nonempty_str ''name'' s))"

definition validApiKey :: "json \<Rightarrow> json_error + bool" where
  "validApiKey k =
     (if \<not> is_object k then Inr False
      else err_and (nonempty_str ''oid'' k) (err_and (nonempty_str ''name'' k) (err_and (nonempty_str ''device'' k)
        (Inr (\<not> (\<exists>secret \<in> set [''password'', ''secret'', ''api_key'', ''key'']. jcontains secret k))))))"

definition validPairs :: "json \<Rightarrow> string \<Rightarrow> json_error + bool" where
  "validPairs e key =
     (if \<not> jcontains key e then Inr True
      else if \<not> is_array (jmember key e) then Inr False
      else err_all (\<lambda>p. if \<not> is_object p then Inr False else nonempty_str ''name'' p) (jitems (jmember key e)))"

definition carries_authorization :: "json \<Rightarrow> json_error + bool" where
  "carries_authorization h = map_sum id (\<lambda>name. map to_lower name = ''authorization'') (jvalue get_str ''name'' [] h)"

definition validSaseEndpoint :: "json \<Rightarrow> string \<Rightarrow> json_error + bool" where
  "validSaseEndpoint e subtype =
     (if subtype \<noteq> ''ztna'' then Inr False
      else bind_err (jvalue get_str ''host'' [] e) (\<lambda>host.
        if host = [] \<or> CHR ''/'' \<in> set host then Inr False
        else err_and (validPairs e ''headers'')
          (bind_err (jvalue get_json ''headers'' (JArr []) e) (\<lambda>headers.
            map_sum id Not (err_any carries_authorization (jiterate headers))))))"

definition validApiEndpoint :: "json \<Rightarrow> json_error + bool" where
  "validApiEndpoint e =
     (if \<not> is_object e then Inr False
      else err_and (nonempty_str ''oid'' e) (err_and (nonempty_str ''name'' e)
        (bind_err (jvalue get_str ''path'' [] e) (\<lambda>path.
          if path = [] \<or> hd path \<noteq> CHR ''/'' then Inr False
          else err_and (validPairs e ''params'')
            (bind_err (jvalue get_str ''device_type'' ''ngfw'' e) (\<lambda>deviceType.
              if deviceType \<noteq> ''ngfw'' \<and> deviceType \<noteq> ''sase'' then Inr False
              else bind_err (if deviceType = ''sase'' then jvalue get_str ''product'' ''ztna'' e
                             else jvalue get_str ''api_type'' [] e) (\<lambda>fallback.
                bind_err (jvalue get_str ''subtype'' fallback e) (\<lambda>subtype.
                  if deviceType = ''sase'' then validSaseEndpoint e subtype
                  else Inr (subtype = [] \<or> subtype = ''xml'' \<or> subtype = ''rest'')))))))))"

text \<open>An interval is read as an \<^verbatim>\<open>int64_t\<close>.\<close>

definition valid_interval :: "json \<Rightarrow> bool" where
  "valid_interval j = (case j of JInt i \<Rightarrow> 1 \<le> sint (of_int i :: u64) | _ \<Rightarrow> False)"

definition validItem :: "json \<Rightarrow> json_error + bool" where
  "validItem item =
     (if \<not> is_object item then Inr False
      else err_and (nonempty_str ''endpoint'' item)
        (Inr ((jcontains ''poll_interval_sec'' item \<longrightarrow> valid_interval (jmember ''poll_interval_sec'' item)) \<and>
              (jcontains ''enabled'' item \<longrightarrow> is_bool (jmember ''enabled'' item)))))"

definition validApiConnector :: "json \<Rightarrow> json_error + bool" where
  "validApiConnector c =
     (if \<not> is_object c then Inr False
      else err_and (nonempty_str ''oid'' c) (err_and (nonempty_str ''object'' c) (err_and (nonempty_str ''auth_profile'' c)
        (if jcontains ''endpoint'' c \<or> jcontains ''params'' c \<or> jcontains ''poll_interval_sec'' c then Inr False
         else if \<not> jcontains ''items'' c \<or> \<not> is_array (jmember ''items'' c) then Inr False
         else err_all validItem (jitems (jmember ''items'' c))))))"

subsection \<open>References\<close>

definition set_members :: "json \<Rightarrow> json \<Rightarrow> json" where
  "set_members values target = JObj (foldl (\<lambda>kvs (k, v). AList.update k v kvs) (jfields target) (jfields values))"

definition validateApiReferences :: "config \<Rightarrow> json \<Rightarrow> verdict" where
  "validateApiReferences cfg values =
     (let effective = cfg_section kPretzel ''connector'' cfg;
          effective = (if is_object effective then effective else JObj []) in
      checkApiReferences (set_members values effective))"

subsection \<open>Secrets\<close>

definition secret_names :: "string list" where
  "secret_names = [''api_key'', ''key'', ''token'', ''password'', ''secret'']"

definition rejectSecrets :: "json \<Rightarrow> string \<Rightarrow> verdict" where
  "rejectSecrets values domain =
     Inr (case filter (\<lambda>secret. jcontains secret values) secret_names of
            [] \<Rightarrow> None
          | secret # rest \<Rightarrow> Some (domain @ ''.'' @ secret @
              '' is a credential and cannot be committed to the running configuration''))"

subsection \<open>The assistant's providers\<close>

definition kAiProviders :: "string list" where "kAiProviders = [''openai'', ''google'', ''anthropic'']"

definition indexed :: "string \<Rightarrow> nat \<Rightarrow> string" where
  "indexed what idx = what @ ''['' @ nat_string idx @ '']''"

text \<open>A loop over entries that also collects the names it has seen.\<close>

fun check_models :: "string \<Rightarrow> nat \<Rightarrow> string list \<Rightarrow> json list \<Rightarrow> verdict" where
  "check_models at idx seen [] = Inr None"
| "check_models at idx seen (m # ms) =
     (let mat = indexed (at @ ''.models'') idx in
      if \<not> is_object m then Inr (Some (mat @ '' has no model id''))
      else bind_err (jvalue get_str ''id'' [] m) (\<lambda>mid.
        if mid = [] then Inr (Some (mat @ '' has no model id''))
        else if CHR ''/'' \<in> set mid
        then Inr (Some (mat @ '' (\"'' @ mid @ ''\") must be the bare model name '' @ em_dash @
               '' the provider is the entry it sits under''))
        else if mid \<in> set seen then Inr (Some (mat @ '' repeats model '' @ quoted mid))
        else check_models at (Suc idx) (mid # seen) ms))"

definition check_provider_models :: "string \<Rightarrow> string \<Rightarrow> json \<Rightarrow> verdict" where
  "check_provider_models at pid p =
     (if \<not> is_array (jmember ''models'' p) then Inr (Some (at @ '' (\"'' @ pid @ ''\") models must be an array''))
      else then_check (check_models at 0 [] (jitems (jmember ''models'' p))) (rejectSecrets p at))"

fun check_providers :: "nat \<Rightarrow> string list \<Rightarrow> json list \<Rightarrow> verdict" where
  "check_providers idx seen [] = Inr None"
| "check_providers idx seen (p # ps) =
     (let at = indexed ''providers.list'' idx in
      if \<not> is_object p then Inr (Some (at @ '' is not an object''))
      else bind_err (jvalue get_str ''id'' [] p) (\<lambda>pid.
        if pid \<notin> set kAiProviders
        then Inr (Some (at @ '' has an unknown provider id '' @ quoted pid @ '' '' @ em_dash @ '' one of openai, google, anthropic''))
        else if pid \<in> set seen then Inr (Some (at @ '' repeats provider '' @ quoted pid))
        else then_check (if jcontains ''models'' p then check_provider_models at pid p else Inr None)
               (check_providers (Suc idx) (pid # seen) ps)))"

definition validateAiProviders :: "json \<Rightarrow> verdict" where
  "validateAiProviders values =
     then_check (rejectSecrets values ''providers'')
       (if \<not> jcontains ''list'' values then Inr None
        else if \<not> is_array (jmember ''list'' values) then Inr (Some ''providers.list must be an array'')
        else check_providers 0 [] (jitems (jmember ''list'' values)))"

subsection \<open>The assistant's guardrail\<close>

definition kAiServices :: "string list" where "kAiServices = [''chat'', ''agent'']"
definition kGuardrailKinds :: "string list" where "kGuardrailKinds = [''none'', ''api_application'', ''ai_gateway'']"

definition check_checkpoints :: "string \<Rightarrow> json \<Rightarrow> string option" where
  "check_checkpoints at e =
     (if \<not> jcontains ''checkpoints'' e then None
      else
        let cp = jmember ''checkpoints'' e in
        if \<not> is_object cp then Some (at @ ''.checkpoints must be an object'')
        else case filter (\<lambda>f. jcontains f cp \<and> \<not> is_bool (jmember f cp)) [''prompt'', ''response'', ''tool_call'', ''tool_result''] of
          [] \<Rightarrow> None
        | f # rest \<Rightarrow> Some (at @ ''.checkpoints.'' @ f @ '' must be a boolean''))"

definition positive_number :: "json \<Rightarrow> bool" where
  "positive_number j = (case j of JInt i \<Rightarrow> 0 < i | _ \<Rightarrow> False)"

definition non_negative_number :: "json \<Rightarrow> bool" where
  "non_negative_number j = (case j of JInt i \<Rightarrow> 0 \<le> i | _ \<Rightarrow> False)"

definition check_block :: "string \<Rightarrow> json \<Rightarrow> string \<Rightarrow> verdict" where
  "check_block at e key =
     (if \<not> jcontains key e then Inr None
      else
        let blk = jmember key e in
        if \<not> is_object blk then Inr (Some (at @ ''.'' @ key @ '' must be an object''))
        else then_check (rejectSecrets blk (at @ ''.'' @ key))
          (require (jcontains ''timeout_sec'' blk \<longrightarrow> positive_number (jmember ''timeout_sec'' blk))
            (at @ ''.'' @ key @ ''.timeout_sec must be a positive number'')))"

definition check_shape :: "string \<Rightarrow> json \<Rightarrow> verdict" where
  "check_shape at e =
     (if \<not> jcontains ''shape'' e then Inr None
      else
        let sh = jmember ''shape'' e in
        if \<not> is_object sh then Inr (Some (at @ ''.shape must be an object''))
        else then_check
          (require (jcontains ''system_prompt'' sh \<longrightarrow> is_str (jmember ''system_prompt'' sh))
            (at @ ''.shape.system_prompt must be a string''))
          (require (jcontains ''max_tokens'' sh \<longrightarrow> non_negative_number (jmember ''max_tokens'' sh))
            (at @ ''.shape.max_tokens must be a non-negative number'')))"

definition validateServiceEntry :: "json \<Rightarrow> string \<Rightarrow> verdict" where
  "validateServiceEntry e at =
     (if \<not> is_object e then Inr (Some (at @ '' must be an object''))
      else then_check (rejectSecrets e at)
        (bind_err (jvalue get_str ''service'' [] e) (\<lambda>service.
          if service \<notin> set kAiServices
          then Inr (Some (at @ ''.service must be one of chat, agent '' @ em_dash @ '' got '' @ quoted service))
          else bind_err (jvalue get_str ''guardrail'' [] e) (\<lambda>guardrail.
            if guardrail \<notin> set kGuardrailKinds
            then Inr (Some (at @ ''.guardrail must be one of none, api_application, ai_gateway '' @ em_dash @
                   '' got '' @ quoted guardrail))
            else then_check (Inr (check_checkpoints at e))
              (then_check (check_block at e ''airs'') (then_check (check_block at e ''gateway'') (check_shape at e)))))))"

fun check_services :: "nat \<Rightarrow> string list \<Rightarrow> json list \<Rightarrow> verdict" where
  "check_services idx seen [] = Inr None"
| "check_services idx seen (e # es) =
     (let at = indexed ''guardrail.list'' idx in
      then_check (validateServiceEntry e at)
        (bind_err (jvalue get_str ''service'' [] e) (\<lambda>service.
          if service \<in> set seen then Inr (Some (at @ '' repeats service '' @ quoted service))
          else check_services (Suc idx) (service # seen) es)))"

definition validateAiServices :: "json \<Rightarrow> verdict" where
  "validateAiServices values =
     then_check (rejectSecrets values ''guardrail'')
       (if \<not> jcontains ''list'' values then Inr None
        else if \<not> is_array (jmember ''list'' values) then Inr (Some ''guardrail.list must be an array'')
        else check_services 0 [] (jitems (jmember ''list'' values)))"

subsection \<open>Local accounts\<close>

definition username_char :: "char \<Rightarrow> bool" where
  "username_char c \<longleftrightarrow> is_between (CHR ''a'') (CHR ''z'') c \<or> is_between (CHR ''A'') (CHR ''Z'') c \<or>
     is_between (CHR ''0'') (CHR ''9'') c \<or> c = CHR ''.'' \<or> c = CHR ''-'' \<or> c = CHR ''_''"

definition validUserEntry :: "json \<Rightarrow> string \<Rightarrow> verdict" where
  "validUserEntry u at =
     (if \<not> is_object u then Inr (Some (at @ '' must be an object''))
      else then_check (rejectSecrets u at)
        (bind_err (jvalue get_str ''oid'' [] u) (\<lambda>oid.
          if oid = [] then Inr (Some (at @ '' has no oid''))
          else bind_err (jvalue get_str ''role'' [] u) (\<lambda>role.
            if role \<noteq> ''admin'' \<and> role \<noteq> ''user''
            then Inr (Some (at @ ''.role must be admin or user '' @ em_dash @ '' got '' @ quoted role))
            else bind_err (jvalue get_str ''username'' [] u) (\<lambda>name.
              if name = [] then Inr (Some (at @ '' has no username''))
              else if length name > 64 then Inr (Some (at @ ''.username is longer than 64 characters''))
              else require (list_all username_char name)
                (at @ ''.username may use letters, digits, dot, dash and underscore only''))))))"

definition entry_is_admin :: "json \<Rightarrow> json_error + bool" where
  "entry_is_admin u = (if \<not> is_object u then Inr False else map_sum id (\<lambda>role. role = ''admin'') (jvalue get_str ''role'' [] u))"

fun check_users :: "nat \<Rightarrow> string list \<Rightarrow> string list \<Rightarrow> json list \<Rightarrow> verdict" where
  "check_users idx oids names [] = Inr None"
| "check_users idx oids names (u # us) =
     (let at = indexed ''user.list'' idx in
      then_check (validUserEntry u at)
        (bind_err (jvalue get_str ''oid'' [] u) (\<lambda>oid.
          if oid \<in> set oids then Inr (Some (at @ '' repeats an oid''))
          else bind_err (jvalue get_str ''username'' [] u) (\<lambda>name.
            if map to_lower name \<in> set names then Inr (Some (at @ '' repeats the username '' @ quoted name))
            else check_users (Suc idx) (oid # oids) (map to_lower name # names) us))))"

definition validateUsers :: "json \<Rightarrow> verdict" where
  "validateUsers values =
     then_check (rejectSecrets values ''user'')
       (if \<not> jcontains ''list'' values then Inr None
        else if \<not> is_array (jmember ''list'' values) then Inr (Some ''user.list must be an array'')
        else
          let users = jitems (jmember ''list'' values) in
          if users = []
          then Inr (Some (''at least one local account must remain '' @ em_dash @ '' the appliance would have no way in''))
          else bind_err (err_any entry_is_admin users) (\<lambda>anyAdmin.
            if \<not> anyAdmin
            then Inr (Some (''at least one account must be an admin '' @ em_dash @ '' nobody could manage accounts otherwise''))
            else check_users 0 [] [] users))"

subsection \<open>One change\<close>

fun check_entries :: "(json \<Rightarrow> json_error + bool) \<Rightarrow> string \<Rightarrow> nat \<Rightarrow> json list \<Rightarrow> verdict" where
  "check_entries validEntry key idx [] = Inr None"
| "check_entries validEntry key idx (entry # rest) =
     bind_err (validEntry entry) (\<lambda>ok.
       if ok then check_entries validEntry key (Suc idx) rest
       else bind_err (if is_object entry then jvalue get_str ''name'' [] entry else Inr []) (\<lambda>name.
         Inr (Some (''invalid '' @ key @ '' entry #'' @ nat_string idx @
           (if name = [] then [] else '' (\"'' @ name @ ''\")'')))))"

definition validateArray :: "json \<Rightarrow> string \<Rightarrow> (json \<Rightarrow> json_error + bool) \<Rightarrow> verdict" where
  "validateArray values key validEntry =
     (if \<not> jcontains key values then Inr None
      else if \<not> is_array (jmember key values) then Inr (Some (key @ '' must be an array''))
      else check_entries validEntry key 0 (jitems (jmember key values)))"

definition validateCommitShape :: "string \<Rightarrow> string \<Rightarrow> json \<Rightarrow> verdict" where
  "validateCommitShape scopeName domain values =
     (if scopeName = kPretzel \<and> domain = ''site'' then
        then_check (validateArray values ''sites'' validSite)
          (then_check (validateArray values ''ngfw_devices'' validDevice) (validateArray values ''sase_devices'' validDevice))
      else if scopeName = kPretzel \<and> domain = ''connector'' then
        then_check (validateArray values ''api_credentials'' validApiKey)
          (then_check (validateArray values ''endpoints'' validApiEndpoint) (validateArray values ''connectors'' validApiConnector))
      else if scopeName = kPretzelAi \<and> domain = ''providers'' then validateAiProviders values
      else if scopeName = kPretzelAi \<and> domain = ''guardrail'' then validateAiServices values
      else if scopeName = kPretzel \<and> domain = ''user'' then validateUsers values
      else Inr None)"

definition validateCommitRefs :: "config \<Rightarrow> string \<Rightarrow> string \<Rightarrow> json \<Rightarrow> verdict" where
  "validateCommitRefs cfg scopeName domain values =
     (if scopeName = kPretzel \<and> domain = ''connector'' then validateApiReferences cfg values else Inr None)"

subsection \<open>What the checks accept\<close>

lemma then_check_ok [simp]: "then_check a b = Inr None \<longleftrightarrow> a = Inr None \<and> b = Inr None"
  by (auto simp: then_check_def bind_err_def split: sum.splits option.splits)

lemma require_ok [simp]: "require ok e = Inr None \<longleftrightarrow> ok"
  by (simp add: require_def)

lemma err_and_true [simp]: "err_and a b = Inr True \<longleftrightarrow> a = Inr True \<and> b = Inr True"
  by (auto simp: err_and_def bind_err_def split: sum.splits if_splits)

lemma err_all_true [simp]: "err_all f xs = Inr True \<longleftrightarrow> (\<forall>x \<in> set xs. f x = Inr True)"
  by (induction xs) auto

lemma err_any_true: "err_any f xs = Inr True \<Longrightarrow> \<exists>x \<in> set xs. f x = Inr True"
  by (induction xs) (auto simp: bind_err_def split: sum.splits if_splits)

lemma err_any_total: "(\<And>x. x \<in> set xs \<Longrightarrow> f x = Inr (p x)) \<Longrightarrow> err_any f xs = Inr (\<exists>x \<in> set xs. p x)"
  by (induction xs) auto

lemma jvalue_str_cases:
  "jvalue get_str k d j = Inr s \<longleftrightarrow>
     is_object j \<and> (jfind k j = None \<and> s = d \<or> jfind k j = Some (JStr s))"
  by (auto simp: jvalue_def get_str_def split: option.splits json.splits)

lemma bind_jvalue_str:
  "bind_err (jvalue get_str k [] j) f = Inr None \<longleftrightarrow>
     is_object j \<and> ((jfind k j = None \<and> f [] = Inr None) \<or> (\<exists>s. jfind k j = Some (JStr s) \<and> f s = Inr None))"
  unfolding bind_err_Inr_iff by (auto simp: jvalue_str_cases)

lemma jfind_object: "jfind k j = Some v \<Longrightarrow> is_object j"
  by (cases j) simp_all

lemma nonempty_str_true:
  "nonempty_str k j = Inr True \<longleftrightarrow> (\<exists>s. jfind k j = Some (JStr s) \<and> s \<noteq> [])"
  by (auto simp: nonempty_str_def jvalue_def get_str_def is_object_def split: option.splits json.splits)

definition no_secrets :: "json \<Rightarrow> bool" where
  "no_secrets j \<longleftrightarrow> (\<forall>secret \<in> set secret_names. \<not> jcontains secret j)"

lemma rejectSecrets_ok [simp]: "rejectSecrets values domain = Inr None \<longleftrightarrow> no_secrets values"
proof (cases "filter (\<lambda>secret. jcontains secret values) secret_names")
  case Nil
  then show ?thesis by (simp add: rejectSecrets_def no_secrets_def filter_empty_conv)
next
  case (Cons secret rest)
  have "secret \<in> set (filter (\<lambda>secret. jcontains secret values) secret_names)" unfolding Cons by simp
  then have "\<not> no_secrets values" unfolding no_secrets_def set_filter by blast
  with Cons show ?thesis by (simp add: rejectSecrets_def)
qed

text \<open>An account's declaration, and a whole list of them.\<close>

definition account_ok :: "json \<Rightarrow> bool" where
  "account_ok u \<longleftrightarrow> no_secrets u \<and>
     (\<exists>oid role name. jfind ''oid'' u = Some (JStr oid) \<and> oid \<noteq> [] \<and>
        jfind ''role'' u = Some (JStr role) \<and> (role = ''admin'' \<or> role = ''user'') \<and>
        jfind ''username'' u = Some (JStr name) \<and> name \<noteq> [] \<and> length name \<le> 64 \<and> list_all username_char name)"

definition accounts_ok :: "json list \<Rightarrow> bool" where
  "accounts_ok us \<longleftrightarrow> list_all account_ok us \<and> distinct (map (str_of ''oid'') us) \<and>
     distinct (map (\<lambda>u. map to_lower (str_of ''username'' u)) us)"

definition users_section_ok :: "json \<Rightarrow> bool" where
  "users_section_ok values \<longleftrightarrow> no_secrets values \<and>
     (case jfind ''list'' values of
        None \<Rightarrow> True
      | Some l \<Rightarrow> is_array l \<and> accounts_ok (jitems l) \<and> (\<exists>u \<in> set (jitems l). str_of ''role'' u = ''admin''))"

lemma validUserEntry_ok: "validUserEntry u at = Inr None \<longleftrightarrow> account_ok u"
proof (cases "is_object u")
  case True
  then show ?thesis
    unfolding validUserEntry_def account_ok_def
    by (auto simp: bind_jvalue_str not_less)
next
  case False
  then show ?thesis by (auto simp: validUserEntry_def account_ok_def dest: jfind_object)
qed

lemma account_fields:
  assumes "account_ok u"
  shows "jvalue get_str ''oid'' [] u = Inr (str_of ''oid'' u)" "jvalue get_str ''username'' [] u = Inr (str_of ''username'' u)"
    "entry_is_admin u = Inr (str_of ''role'' u = ''admin'')"
  using assms by (auto simp: account_ok_def jvalue_def get_str_def str_of_def entry_is_admin_def dest: jfind_object)

lemma check_users_ok:
  "check_users idx oids names us = Inr None \<longleftrightarrow> accounts_ok us \<and>
     set oids \<inter> set (map (str_of ''oid'') us) = {} \<and>
     set names \<inter> set (map (\<lambda>u. map to_lower (str_of ''username'' u)) us) = {}"
proof (induction us arbitrary: idx oids names)
  case Nil
  then show ?case by (simp add: accounts_ok_def)
next
  case (Cons u us)
  show ?case
  proof (cases "account_ok u")
    case True
    with Cons.IH account_fields [OF True] show ?thesis
      by (auto simp: Let_def validUserEntry_ok accounts_ok_def)
  next
    case False
    then show ?thesis by (simp add: Let_def validUserEntry_ok accounts_ok_def)
  qed
qed

text \<open>The check of the declared accounts accepts exactly the sound declarations: no credential anywhere in
  them, every account with an oid, a role that is one of the two and a plain user name of at most 64
  characters, no oid twice, no two names that differ only in case, and at least one administrator among them.
\<close>

theorem users_validated: "validateUsers values = Inr None \<longleftrightarrow> users_section_ok values"
proof (cases "jfind ''list'' values")
  case None
  then show ?thesis by (simp add: validateUsers_def users_section_ok_def jcontains_def)
next
  case (Some l)
  then have l: "jcontains ''list'' values" "jmember ''list'' values = l" by (simp_all add: jcontains_def jmember_def)
  have "(bind_err (err_any entry_is_admin (jitems l)) (\<lambda>anyAdmin. if \<not> anyAdmin then Inr (Some msg)
            else check_users 0 [] [] (jitems l)) = Inr None) \<longleftrightarrow>
        accounts_ok (jitems l) \<and> (\<exists>u \<in> set (jitems l). str_of ''role'' u = ''admin'')" for msg
  proof (cases "accounts_ok (jitems l)")
    case True
    then have "err_any entry_is_admin (jitems l) = Inr (\<exists>u \<in> set (jitems l). str_of ''role'' u = ''admin'')"
      by (intro err_any_total account_fields) (simp add: accounts_ok_def list_all_iff)
    with True show ?thesis by (simp add: check_users_ok)
  next
    case False
    then show ?thesis by (auto simp: bind_err_Inr_iff check_users_ok split: if_splits)
  qed
  with l Some show ?thesis
    by (auto simp: validateUsers_def users_section_ok_def Let_def)
qed

text \<open>A provider without a list of models is not checked for credentials.\<close>

theorem provider_secret_slips:
  "validateAiProviders (JObj [(''list'', JArr [JObj [(''id'', JStr ''openai''), (''api_key'', JStr secret)]])]) = Inr None"
  by (simp add: validateAiProviders_def jcontains_def jmember_def jitems_def jvalue_def get_str_def
      kAiProviders_def no_secrets_def secret_names_def)

end
