(* ===== verification/Mgmtd_Settings.thy ===== *)
theory Mgmtd_Settings
  imports Mgmtd_Http Mgmtd_Commit
begin

text \<open>
  Publishing configuration changes (\<^verbatim>\<open>mgmtd/service/web/controller/SettingsController.cpp\<close>): a batch of
  changes is checked entry by entry, then as a whole against the references between the API objects, and
  handed to the engine whole or not at all; also the poll routes of a publication and the names under
  which a configuration may be saved. Every change gets one result, so the list of results runs parallel
  to the changes.
\<close>

subsection \<open>Checking a batch\<close>

record change_result =
  ch_scope :: string
  ch_domain :: string
  ch_error :: "string option"

definition check_change :: "json \<Rightarrow> json_error + change_result" where
  "check_change change =
     bind_err (jvalue get_str ''scope'' [] change) (\<lambda>scopeName.
     bind_err (jvalue get_str ''domain'' [] change) (\<lambda>domain.
       let result = (\<lambda>error. \<lparr>ch_scope = scopeName, ch_domain = domain, ch_error = error\<rparr>);
           vals = jmember ''values'' change in
       if \<not> jcontains ''scope'' change \<or> \<not> jcontains ''domain'' change \<or> \<not> jcontains ''values'' change
       then Inr (result (Some ''entry is missing scope/domain/values''))
       else if \<not> is_object vals then Inr (result (Some ''values is not an object''))
       else if scopeName \<notin> set kSettingsScopes then Inr (result (Some ''unknown scope''))
       else map_sum id (\<lambda>v. result (map_option (\<lambda>e. if e = [] then ''schema validation failed'' else e) v))
              (validateCommitShape scopeName domain vals)))"

fun check_changes :: "json list \<Rightarrow> json_error + change_result list" where
  "check_changes [] = Inr []"
| "check_changes (c # cs) = bind_err (check_change c) (\<lambda>r. map_sum id (Cons r) (check_changes cs))"

definition failed_count :: "change_result list \<Rightarrow> nat" where
  "failed_count rs = length (filter (\<lambda>r. ch_error r \<noteq> None) rs)"

text \<open>
  The values of a domain, merged over the changes that address it, a whole member at a time. The second
  pass runs only on a batch without a rejected change, so the valid changes are all of them.
\<close>

definition target_of :: "change_result \<Rightarrow> string \<times> string" where
  "target_of r = (ch_scope r, ch_domain r)"

fun merge_domains :: "(json \<times> change_result) list \<Rightarrow> ((string \<times> string) \<times> json) list \<Rightarrow> ((string \<times> string) \<times> json) list" where
  "merge_domains [] acc = acc"
| "merge_domains ((c, r) # cs) acc =
     (let dst = (case map_of acc (target_of r) of None \<Rightarrow> JObj [] | Some j \<Rightarrow> j) in
      merge_domains cs (AList.update (target_of r) (set_members (jmember ''values'' c) dst) acc))"

fun check_refs :: "config \<Rightarrow> ((string \<times> string) \<times> json) list \<Rightarrow> change_result list \<Rightarrow> json_error + change_result list" where
  "check_refs cfg [] rs = Inr rs"
| "check_refs cfg ((t, vals) # ts) rs =
     bind_err (validateCommitRefs cfg (fst t) (snd t) vals) (\<lambda>v.
       case v of
         None \<Rightarrow> check_refs cfg ts rs
       | Some e \<Rightarrow> check_refs cfg ts (map (\<lambda>r. if target_of r = t
            then r\<lparr>ch_error := Some (if e = [] then ''reference check failed'' else e)\<rparr> else r) rs))"

definition check_batch :: "config \<Rightarrow> json list \<Rightarrow> json_error + change_result list" where
  "check_batch cfg changes =
     bind_err (check_changes changes) (\<lambda>rs.
       if failed_count rs = 0 then check_refs cfg (merge_domains (zip changes rs) []) rs else Inr rs)"

text \<open>A change of the accounts, which only an administrator may publish.\<close>

definition addresses_accounts :: "json \<Rightarrow> json_error + bool" where
  "addresses_accounts c =
     (if \<not> is_object c then Inr False
      else bind_err (jvalue get_str ''scope'' [] c) (\<lambda>sc.
        if sc \<noteq> kPretzel then Inr False
        else map_sum id (\<lambda>d. d = ''user'') (jvalue get_str ''domain'' [] c)))"

definition result_json :: "change_result \<Rightarrow> json" where
  "result_json r = JObj ([(''domain'', JStr (ch_domain r))] @
     (case ch_error r of None \<Rightarrow> [] | Some e \<Rightarrow> [(''error'', JStr e)]) @
     [(''ok'', JBool (ch_error r = None)), (''scope'', JStr (ch_scope r))])"

definition commit_body :: "bool \<Rightarrow> change_result list \<Rightarrow> json" where
  "commit_body accepted rs =
     JObj ([(''applied'', JInt (if accepted then int (length rs) else 0))] @
       (if accepted then []
        else [(''error'', JStr (if failed_count rs > 0
               then ''no change was published '' @ em_dash @ '' the batch is applied whole or not at all''
               else ''nothing to commit''))]) @
       [(''failed'', JInt (int (failed_count rs))), (''reloading'', JBool accepted), (''results'', JArr (map result_json rs))])"

definition error_json :: "string \<Rightarrow> json" where
  "error_json e = JObj [(''error'', JStr e)]"

subsection \<open>The handlers\<close>

definition publish :: "web_env \<Rightarrow> http_response \<Rightarrow> json list \<Rightarrow> change_result list \<Rightarrow> mgmtd \<Rightarrow> http_response handled" where
  "publish env resp changes rs s =
     (let accepted = (failed_count rs = 0 \<and> rs \<noteq> []) in
      then_do (if accepted
               then then_do (send_json env DEngined CmdSettingsCommitRequest 0 (JArr changes) s)
                      (\<lambda>_ s. (Inr (), startReload (we_steady env) s))
               else (Inr (), s))
        (\<lambda>_ s. fill_json env resp (if accepted then 200 else 409) (commit_body accepted rs) s))"

definition commit :: "web_env \<Rightarrow> http_request \<Rightarrow> http_response \<Rightarrow> mgmtd \<Rightarrow> http_response handled" where
  "commit env req resp s =
     (case we_parse env (rq_body req) of
        None \<Rightarrow> fill_json env resp 400 (error_json ''invalid JSON body'') s
      | Some input \<Rightarrow>
          let ok = (jcontains ''changes'' input \<and> is_array (jmember ''changes'' input));
              changes = jitems (jmember ''changes'' input) in
          case (if ok \<and> \<not> sessionIsAdmin (we_now env) (sessionCookie req) (mg_auth s)
                then err_any addresses_accounts changes else Inr False) of
            Inl e \<Rightarrow> (Inl e, s)
          | Inr True \<Rightarrow> (Inr (fill resp 403 ''{\"error\":\"only an admin may change accounts\",\"code\":\"FORBIDDEN\"}''), s)
          | Inr False \<Rightarrow>
              if \<not> ok then fill_json env resp 400 (error_json ''expected {changes: [{scope, domain, values}]}'') s
              else case check_batch (we_cfg env) changes of
                Inl e \<Rightarrow> (Inl e, s)
              | Inr rs \<Rightarrow> publish env resp changes rs s)"

definition reload_name :: "reload_status \<Rightarrow> string" where
  "reload_name st = (case st of RsReloading \<Rightarrow> ''reloading'' | RsComplete \<Rightarrow> ''complete'' | RsFailed \<Rightarrow> ''failed'' | RsIdle \<Rightarrow> ''idle'')"

definition reloadStatus :: "web_env \<Rightarrow> http_request \<Rightarrow> http_response \<Rightarrow> mgmtd \<Rightarrow> http_response handled" where
  "reloadStatus env req resp s =
     fill_json env resp 200 (JObj [(''elapsed_ms'', JInt (reloadElapsedMs (we_steady env) s)),
       (''status'', JStr (reload_name (mg_reloadStatus s)))]) s"

definition commitQueue :: "web_env \<Rightarrow> http_request \<Rightarrow> http_response \<Rightarrow> mgmtd \<Rightarrow> http_response handled" where
  "commitQueue env req resp s = (Inr (fill resp 200 (mg_commitQueue s)), s)"

text \<open>The engine's answers: the queue's snapshot, and how a reload ended.\<close>

definition onCommitStatus :: "ipc_message \<Rightarrow> mgmtd \<Rightarrow> mgmtd" where
  "onCommitStatus msg s = (if msg_payload msg = [] then s else s\<lparr>mg_commitQueue := string_of_bytes (msg_payload msg)\<rparr>)"

definition commit_response_ok :: "web_env \<Rightarrow> ipc_message \<Rightarrow> bool" where
  "commit_response_ok env msg =
     (let ok = (\<not> hasFlag (msg_flags msg) FlagError) in
      if msg_payload msg = [] then ok
      else case we_parse env (string_of_bytes (msg_payload msg)) of
        None \<Rightarrow> ok
      | Some body \<Rightarrow> (case jfind ''ok'' body of Some (JBool b) \<Rightarrow> b | _ \<Rightarrow> ok))"

definition onSettingsCommitResponse :: "web_env \<Rightarrow> ipc_message \<Rightarrow> mgmtd \<Rightarrow> mgmtd" where
  "onSettingsCommitResponse env msg s =
     mg_send TxAiConfig (if commit_response_ok env msg then completeReload s else failReload s)"

subsection \<open>Saved configurations\<close>

definition savedConfigDir :: "string \<Rightarrow> string" where
  "savedConfigDir base = base @ ''/saved-configs''"

definition saved_name_char :: "char \<Rightarrow> bool" where
  "saved_name_char c \<longleftrightarrow> isalnum c \<or> c = CHR ''.'' \<or> c = CHR ''_'' \<or> c = CHR ''-''"

definition strip_json :: "string \<Rightarrow> string" where
  "strip_json name = (if length name \<ge> 5 \<and> drop (length name - 5) name = ''.json'' then take (length name - 5) name else name)"

definition savedConfigFile :: "string \<Rightarrow> string \<Rightarrow> string" where
  "savedConfigFile base name0 =
     (let name = strip_json name0 in
      if name = [] \<or> length name > 100 \<or> hd name = CHR ''.'' then []
      else if \<not> list_all saved_name_char name then []
      else savedConfigDir base @ ''/'' @ name @ ''.json'')"

definition saved_name_param :: "string \<Rightarrow> string" where
  "saved_name_param target =
     (case str_find ''name='' target of
        None \<Rightarrow> []
      | Some pos \<Rightarrow> takeWhile (\<lambda>c. c \<noteq> CHR ''&'') (drop (pos + 5) target))"

definition savedConfigContent :: "web_env \<Rightarrow> http_request \<Rightarrow> http_response \<Rightarrow> mgmtd \<Rightarrow> http_response handled" where
  "savedConfigContent env req resp s =
     (let path = savedConfigFile (we_configDir env) (saved_name_param (rq_target req)) in
      if path = [] then (Inr (fill resp 400 ''{\"error\":\"invalid name\"}''), s)
      else case we_savedFile env path of
        None \<Rightarrow> (Inr (fill resp 404 ''{\"error\":\"not found\"}''), s)
      | Some content \<Rightarrow> (Inr (fill resp 200 content), s))"

subsection \<open>What is published\<close>

definition target_change :: "json \<Rightarrow> string \<times> string" where
  "target_change c = (str_of ''scope'' c, str_of ''domain'' c)"

definition change_ok :: "json \<Rightarrow> bool" where
  "change_ok c \<longleftrightarrow> (\<exists>scope domain vals. jfind ''scope'' c = Some (JStr scope) \<and> jfind ''domain'' c = Some (JStr domain) \<and>
     jfind ''values'' c = Some vals \<and> is_object vals \<and> scope \<in> set kSettingsScopes \<and>
     validateCommitShape scope domain vals = Inr None)"

definition merged_values :: "string \<times> string \<Rightarrow> json list \<Rightarrow> json" where
  "merged_values t cs =
     foldl (\<lambda>dst c. set_members (jmember ''values'' c) dst) (JObj []) (filter (\<lambda>c. target_change c = t) cs)"

definition batch_refs_ok :: "config \<Rightarrow> json list \<Rightarrow> bool" where
  "batch_refs_ok cfg cs \<longleftrightarrow> ((kPretzel, ''connector'') \<in> target_change ` set cs \<longrightarrow>
     validateApiReferences cfg (merged_values (kPretzel, ''connector'') cs) = Inr None)"

definition accounts_change :: "json \<Rightarrow> bool" where
  "accounts_change c \<longleftrightarrow> jfind ''scope'' c = Some (JStr kPretzel) \<and> jfind ''domain'' c = Some (JStr ''user'')"

text \<open>The whole batch \<open>cs\<close> was handed to the engine, and that is all that happened.\<close>

definition published :: "web_env \<Rightarrow> http_request \<Rightarrow> json list \<Rightarrow> mgmtd \<Rightarrow> mgmtd \<Rightarrow> bool" where
  "published env req cs s s' \<longleftrightarrow> cs \<noteq> [] \<and> list_all change_ok cs \<and> batch_refs_ok (we_cfg env) cs \<and>
     (sessionIsAdmin (we_now env) (sessionCookie req) (mg_auth s) \<or> list_all (\<lambda>c. \<not> accounts_change c) cs) \<and>
     (\<exists>body. we_dump env (JArr cs) = Inr body \<and>
        s' = startReload (we_steady env) (mg_send (TxIpc (mk_message DMgmtd DEngined CmdSettingsCommitRequest 0
               (toFlag FlagRequest) (bytes_of_string body))) s))"

lemma check_change_ok:
  assumes "check_change c = Inr r" "ch_error r = None"
  shows "change_ok c \<and> target_of r = target_change c"
proof -
  from assms(1) obtain sc d where v: "jvalue get_str ''scope'' [] c = Inr sc" "jvalue get_str ''domain'' [] c = Inr d"
    and r: "(let result = (\<lambda>error. \<lparr>ch_scope = sc, ch_domain = d, ch_error = error\<rparr>); vals = jmember ''values'' c in
       if \<not> jcontains ''scope'' c \<or> \<not> jcontains ''domain'' c \<or> \<not> jcontains ''values'' c
       then Inr (result (Some ''entry is missing scope/domain/values''))
       else if \<not> is_object vals then Inr (result (Some ''values is not an object''))
       else if sc \<notin> set kSettingsScopes then Inr (result (Some ''unknown scope''))
       else map_sum id (\<lambda>v. result (map_option (\<lambda>e. if e = [] then ''schema validation failed'' else e) v))
              (validateCommitShape sc d vals)) = Inr r"
    by (auto simp: check_change_def bind_err_Inr_iff)
  from r assms(2) have c: "jcontains ''scope'' c" "jcontains ''domain'' c" "jcontains ''values'' c"
    "is_object (jmember ''values'' c)" "sc \<in> set kSettingsScopes" "validateCommitShape sc d (jmember ''values'' c) = Inr None"
    "ch_scope r = sc" "ch_domain r = d"
    by (cases "validateCommitShape sc d (jmember ''values'' c)"; auto simp: Let_def split: if_splits)+
  have "jfind ''scope'' c = Some (JStr sc)" "jfind ''domain'' c = Some (JStr d)"
    using v c(1,2) by (auto simp: jvalue_str_cases jcontains_def)
  moreover obtain vals where "jfind ''values'' c = Some vals" using c(3) by (auto simp: jcontains_def)
  ultimately show ?thesis
    using c(4-) by (auto simp: change_ok_def target_of_def target_change_def str_of_def jmember_def)
qed

lemma check_changes_all2: "check_changes cs = Inr rs \<Longrightarrow> list_all2 (\<lambda>c r. check_change c = Inr r) cs rs"
proof (induction cs arbitrary: rs)
  case (Cons c cs)
  then obtain r rs' where "check_change c = Inr r" "check_changes cs = Inr rs'" "rs = r # rs'"
    by (auto simp: bind_err_Inr_iff) (metis id_apply map_sum.simps sum.exhaust sum.simps(4) Inl_Inr_False Inr_inject)
  with Cons.IH show ?case by simp
qed simp

lemma failed_count_0: "failed_count rs = 0 \<longleftrightarrow> (\<forall>r \<in> set rs. ch_error r = None)"
  by (auto simp: failed_count_def filter_empty_conv)

lemma merge_domains_of:
  "map_of (merge_domains crs acc) t =
     (if t \<in> (\<lambda>cr. target_of (snd cr)) ` set crs
      then Some (foldl (\<lambda>dst (c, r). set_members (jmember ''values'' c) dst)
             (case map_of acc t of None \<Rightarrow> JObj [] | Some j \<Rightarrow> j) (filter (\<lambda>(c, r). target_of r = t) crs))
      else map_of acc t)"
proof (induction crs arbitrary: acc)
  case (Cons cr crs)
  obtain c r where cr: "cr = (c, r)" by (cases cr)
  have empty: "filter (\<lambda>(c, r). target_of r = t) crs = []" if "t \<notin> (\<lambda>cr. target_of (snd cr)) ` set crs"
    using that by (auto simp: filter_empty_conv image_iff)
  show ?case
    using empty by (auto simp: cr Let_def Cons.IH update_conv')
qed simp

lemma check_refs_marks:
  "check_refs cfg ts rs = Inr rs' \<Longrightarrow> (\<exists>r \<in> set rs. ch_error r \<noteq> None) \<Longrightarrow> (\<exists>r \<in> set rs'. ch_error r \<noteq> None)"
proof (induction ts arbitrary: rs)
  case (Cons tv ts)
  obtain t vals where tv: "tv = (t, vals)" by (cases tv)
  from Cons.prems(1) obtain v where v: "validateCommitRefs cfg (fst t) (snd t) vals = Inr v"
    by (auto simp: tv bind_err_Inr_iff)
  show ?case
  proof (cases v)
    case None
    with Cons v tv show ?thesis by simp
  next
    case (Some e)
    obtain r where r: "r \<in> set rs" "ch_error r \<noteq> None" using Cons.prems(2) by blast
    let ?f = "\<lambda>r. if target_of r = t then r\<lparr>ch_error := Some (if e = [] then ''reference check failed'' else e)\<rparr> else r"
    have "?f r \<in> set (map ?f rs)" "ch_error (?f r) \<noteq> None" using r by auto
    then have "\<exists>r \<in> set (map ?f rs). ch_error r \<noteq> None" by blast
    with Cons.IH [of "map ?f rs"] Cons.prems(1) v Some tv show ?thesis by simp
  qed
qed simp

lemma check_refs_ok:
  assumes "check_refs cfg ts rs = Inr rs'" "failed_count rs' = 0"
    and "\<forall>t \<in> fst ` set ts. \<exists>r \<in> set rs. target_of r = t"
  shows "rs' = rs \<and> (\<forall>(t, vals) \<in> set ts. validateCommitRefs cfg (fst t) (snd t) vals = Inr None)"
  using assms
proof (induction ts)
  case (Cons tv ts)
  obtain t vals where tv: "tv = (t, vals)" by (cases tv)
  from Cons.prems(1) obtain v where v: "validateCommitRefs cfg (fst t) (snd t) vals = Inr v"
    by (auto simp: tv bind_err_Inr_iff)
  show ?case
  proof (cases v)
    case None
    with Cons v tv show ?thesis by simp
  next
    case (Some e)
    let ?f = "\<lambda>r. if target_of r = t then r\<lparr>ch_error := Some (if e = [] then ''reference check failed'' else e)\<rparr> else r"
    obtain r where r: "r \<in> set rs" "target_of r = t" using Cons.prems(3) tv by auto
    then have "?f r \<in> set (map ?f rs)" "ch_error (?f r) \<noteq> None" by auto
    then have "\<exists>r \<in> set (map ?f rs). ch_error r \<noteq> None" by blast
    with check_refs_marks [of cfg ts "map ?f rs" rs'] Cons.prems(1,2) v Some tv show ?thesis
      by (simp add: failed_count_0)
  qed
qed simp

lemma merged_zip:
  assumes "list_all2 (\<lambda>c r. target_of r = target_change c) cs rs"
  shows "foldl (\<lambda>dst (c, r). set_members (jmember ''values'' c) dst) a (filter (\<lambda>(c, r). target_of r = t) (zip cs rs)) =
    foldl (\<lambda>dst c. set_members (jmember ''values'' c) dst) a (filter (\<lambda>c. target_change c = t) cs)"
  using assms by (induction arbitrary: a rule: list_all2_induct) auto

lemma targets_zip:
  "list_all2 (\<lambda>c r. target_of r = target_change c) cs rs \<Longrightarrow>
     (\<lambda>cr. target_of (snd cr)) ` set (zip cs rs) = target_change ` set cs"
  by (induction rule: list_all2_induct) auto

lemma check_batch_ok:
  assumes "check_batch cfg cs = Inr rs" "failed_count rs = 0"
  shows "list_all change_ok cs \<and> batch_refs_ok cfg cs \<and> length rs = length cs"
proof -
  from assms(1) obtain rs0 where rs0: "check_changes cs = Inr rs0"
    and refs: "(if failed_count rs0 = 0 then check_refs cfg (merge_domains (zip cs rs0) []) rs0 else Inr rs0) = Inr rs"
    by (auto simp: check_batch_def bind_err_Inr_iff)
  have f0: "failed_count rs0 = 0" using refs assms(2) by (auto split: if_splits)
  have all2: "list_all2 (\<lambda>c r. check_change c = Inr r) cs rs0" by (rule check_changes_all2 [OF rs0])
  have each: "list_all2 (\<lambda>c r. change_ok c \<and> target_of r = target_change c) cs rs0"
    using all2 f0 by (auto simp: list_all2_conv_all_nth failed_count_0 check_change_ok)
  then have tgt: "list_all2 (\<lambda>c r. target_of r = target_change c) cs rs0" by (rule list_all2_mono) simp
  have ok: "list_all change_ok cs" using each by (auto simp: list_all2_conv_all_nth list_all_length)
  let ?m = "merge_domains (zip cs rs0) []"
  have dom: "map_of ?m t = (if t \<in> target_change ` set cs then Some (merged_values t cs) else None)" for t
    unfolding merge_domains_of merged_values_def using merged_zip [OF tgt] targets_zip [OF tgt] by simp
  have keys: "\<forall>t \<in> fst ` set ?m. \<exists>r \<in> set rs0. target_of r = t"
  proof
    fix t assume "t \<in> fst ` set ?m"
    then have "map_of ?m t \<noteq> None" by (simp add: map_of_eq_None_iff)
    then have "t \<in> (\<lambda>cr. target_of (snd cr)) ` set (zip cs rs0)" using dom [of t] targets_zip [OF tgt] by (auto split: if_splits)
    then show "\<exists>r \<in> set rs0. target_of r = t" by (auto dest: set_zip_rightD)
  qed
  from check_refs_ok [OF _ assms(2) keys] refs f0
  have r: "rs = rs0" "\<forall>(t, vals) \<in> set ?m. validateCommitRefs cfg (fst t) (snd t) vals = Inr None" by auto
  have "batch_refs_ok cfg cs"
    unfolding batch_refs_ok_def
  proof
    assume "(kPretzel, ''connector'') \<in> target_change ` set cs"
    then have "((kPretzel, ''connector''), merged_values (kPretzel, ''connector'') cs) \<in> set ?m"
      using dom [of "(kPretzel, ''connector'')"] by (intro map_of_SomeD) simp
    with r(2) show "validateApiReferences cfg (merged_values (kPretzel, ''connector'') cs) = Inr None"
      by (force simp: validateCommitRefs_def)
  qed
  with ok r(1) list_all2_lengthD [OF each] show ?thesis by simp
qed

lemma accounts_found:
  "err_any addresses_accounts cs = Inr False \<Longrightarrow> list_all (\<lambda>c. \<not> accounts_change c) cs"
proof (induction cs)
  case (Cons c cs)
  then have c: "addresses_accounts c = Inr False" "err_any addresses_accounts cs = Inr False"
    by (auto simp: bind_err_Inr_iff split: if_splits)
  have "\<not> accounts_change c"
  proof
    assume a: "accounts_change c"
    then have "is_object c" by (auto simp: accounts_change_def dest: jfind_object)
    with a c(1) show False by (simp add: addresses_accounts_def accounts_change_def jvalue_def get_str_def)
  qed
  with Cons.IH c(2) show ?case by simp
qed simp

lemma status_fill [simp]: "rs_status (fill r st b) = st"
  by (simp add: fill_def fill_as_def)

lemma fill_json_out: "fill_json env r st j s = (x, s') \<Longrightarrow> s' = s \<and> (\<forall>resp. x = Inr resp \<longrightarrow> rs_status resp = st)"
  by (cases "we_dump env j") (auto simp: fill_json_def)

lemma publish_out:
  assumes "publish env resp cs rs s = (r, s')"
  shows "s' = s \<and> (\<forall>resp'. r = Inr resp' \<longrightarrow> rs_status resp' \<noteq> 200)
    \<or> failed_count rs = 0 \<and> rs \<noteq> [] \<and> (\<exists>body. we_dump env (JArr cs) = Inr body \<and>
        s' = startReload (we_steady env) (mg_send (TxIpc (mk_message DMgmtd DEngined CmdSettingsCommitRequest 0
               (toFlag FlagRequest) (bytes_of_string body))) s)) \<and> (\<forall>resp'. r = Inr resp' \<longrightarrow> rs_status resp' = 200)"
proof (cases "failed_count rs = 0 \<and> rs \<noteq> []")
  case True
  with assms show ?thesis
    by (cases "we_dump env (JArr cs)") (auto simp: publish_def send_json_def Let_def dest!: fill_json_out)
next
  case False
  with assms have "fill_json env resp 409 (commit_body False rs) s = (r, s')"
    by (auto simp: publish_def Let_def)
  from fill_json_out [OF this] show ?thesis by auto
qed

lemma commit_outcome:
  assumes "commit env req resp s = (r, s')"
  shows "s' = s \<and> (\<forall>resp'. r = Inr resp' \<longrightarrow> rs_status resp' \<noteq> 200)
    \<or> (\<exists>input cs. we_parse env (rq_body req) = Some input \<and> jfind ''changes'' input = Some (JArr cs) \<and>
         published env req cs s s' \<and> (\<forall>resp'. r = Inr resp' \<longrightarrow> rs_status resp' = 200))"
proof (cases "we_parse env (rq_body req)")
  case None
  with assms show ?thesis by (auto simp: commit_def dest!: fill_json_out)
next
  case (Some input)
  let ?ok = "jcontains ''changes'' input \<and> is_array (jmember ''changes'' input)"
  let ?cs = "jitems (jmember ''changes'' input)"
  let ?admin = "sessionIsAdmin (we_now env) (sessionCookie req) (mg_auth s)"
  let ?forbidden = "if ?ok \<and> \<not> ?admin then err_any addresses_accounts ?cs else Inr False"
  have e: "commit env req resp s = (case ?forbidden of
            Inl e \<Rightarrow> (Inl e, s)
          | Inr True \<Rightarrow> (Inr (fill resp 403 ''{\"error\":\"only an admin may change accounts\",\"code\":\"FORBIDDEN\"}''), s)
          | Inr False \<Rightarrow>
              if \<not> ?ok then fill_json env resp 400 (error_json ''expected {changes: [{scope, domain, values}]}'') s
              else case check_batch (we_cfg env) ?cs of
                Inl e \<Rightarrow> (Inl e, s)
              | Inr rs \<Rightarrow> publish env resp ?cs rs s)"
    using Some by (simp add: commit_def Let_def)
  consider (throws) e where "?forbidden = Inl e" | (refused) "?forbidden = Inr True"
    | (bad) "?forbidden = Inr False" "\<not> ?ok" | (checked) "?forbidden = Inr False" "?ok" by (metis (full_types) obj_sumE)
  then show ?thesis
  proof cases
    case throws
    with assms show ?thesis unfolding e by auto
  next
    case refused
    with assms show ?thesis unfolding e by auto
  next
    case bad
    with assms have "fill_json env resp 400 (error_json ''expected {changes: [{scope, domain, values}]}'') s = (r, s')"
      unfolding e by auto
    from fill_json_out [OF this] show ?thesis by auto
  next
    case checked
    then obtain xs where xs: "jfind ''changes'' input = Some (JArr xs)" "?cs = xs"
      by (auto simp: jcontains_def jmember_def jitems_def is_array_def split: json.splits)
    show ?thesis
    proof (cases "check_batch (we_cfg env) xs")
      case (Inl err)
      with assms checked xs show ?thesis unfolding e by auto
    next
      case (Inr rs)
      with assms checked xs have p: "publish env resp xs rs s = (r, s')" unfolding e by auto
      have adm: "?admin \<or> list_all (\<lambda>c. \<not> accounts_change c) xs"
        using checked xs accounts_found [of xs] by (auto split: if_splits)
      from publish_out [OF p] show ?thesis
      proof
        assume pub: "failed_count rs = 0 \<and> rs \<noteq> [] \<and> (\<exists>body. we_dump env (JArr xs) = Inr body \<and>
          s' = startReload (we_steady env) (mg_send (TxIpc (mk_message DMgmtd DEngined CmdSettingsCommitRequest 0
               (toFlag FlagRequest) (bytes_of_string body))) s)) \<and> (\<forall>resp'. r = Inr resp' \<longrightarrow> rs_status resp' = 200)"
        then have "list_all change_ok xs \<and> batch_refs_ok (we_cfg env) xs \<and> length rs = length xs"
          using check_batch_ok [OF Inr] by blast
        with pub adm xs Some show ?thesis by (auto simp: published_def)
      qed blast
    qed
  qed
qed

text \<open>The example: one change of a domain without a schema, published without a session.\<close>

definition change_json :: "string \<Rightarrow> string \<Rightarrow> json \<Rightarrow> json" where
  "change_json scope domain vals = JObj [(''scope'', JStr scope), (''domain'', JStr domain), (''values'', vals)]"

definition env_with :: "json \<Rightarrow> web_env" where
  "env_with body = \<lparr>we_auth = sign_env 0, we_steady = 0, we_parse = (\<lambda>s. Some body), we_dump = (\<lambda>j. Inr ''x''),
     we_hexDigits = [], we_utcNow = [], we_metrics = [], we_staticCache = None, we_userRows = None, we_userCount = None, we_configDir = ''/etc/pretzel'',
     we_savedFile = (\<lambda>p. None), we_controller = (\<lambda>route req resp s. (Inr resp, s))\<rparr>"

definition post_request :: "string \<Rightarrow> http_request" where
  "post_request target = \<lparr>rq_method = ''POST'', rq_target = target, rq_cookie = [], rq_body = []\<rparr>"

lemma no_session_new: "\<not> sessionIsAdmin now sid (mg_auth mg_new)"
  by (simp add: sessionIsAdmin_def sessionRole_def live_session_def mg_new_def auth_new_def kRoleAdmin_def)

text \<open>C24. A batch of changes is published whole or not at all. Either nothing happens and the answer is not a
  success, or every change of the request met its schema, the references between the API objects hold on
  the merged batch, the changes of accounts come from an administrator, and exactly one message with all
  the changes was handed to the engine, a reload begins and the answer, if it can be printed, is a success.
\<close>

theorem commit_whole_or_nothing:
  assumes "commit env req resp s = (r, s')"
  shows "s' = s \<and> (\<forall>resp'. r = Inr resp' \<longrightarrow> rs_status resp' \<noteq> 200)
    \<or> (\<exists>input cs. we_parse env (rq_body req) = Some input \<and> jfind ''changes'' input = Some (JArr cs) \<and>
         published env req cs s s' \<and> (\<forall>resp'. r = Inr resp' \<longrightarrow> rs_status resp' = 200))"
  by (rule commit_outcome [OF assms])

lemma publishing_changes: "startReload now (mg_send x s) \<noteq> s"
proof
  assume "startReload now (mg_send x s) = s"
  then have "mg_out (startReload now (mg_send x s)) = mg_out s" by simp
  then show False by (simp add: startReload_def mg_send_def)
qed

lemma commit_example:
  "\<exists>s' resp'. commit (env_with (JObj [(''changes'', JArr [change_json ''pretzel'' ''probe'' (JObj [])])])) (post_request [])
     response_new mg_new = (Inr resp', s') \<and> s' \<noteq> mg_new"
proof -
  have c: "check_batch cfg [change_json ''pretzel'' ''probe'' (JObj [])] =
      Inr [\<lparr>ch_scope = ''pretzel'', ch_domain = ''probe'', ch_error = None\<rparr>]" for cfg
    by (simp add: check_batch_def check_change_def change_json_def jvalue_def get_str_def jcontains_def jmember_def
        kSettingsScopes_def kPretzel_def kPretzelAi_def validateCommitShape_def failed_count_def
        target_of_def validateCommitRefs_def)
  have a: "addresses_accounts (change_json ''pretzel'' ''probe'' (JObj [])) = Inr False"
    by (simp add: addresses_accounts_def change_json_def jvalue_def get_str_def kPretzel_def)
  show ?thesis
    by (simp add: commit_def env_with_def no_session_new c a jcontains_def jmember_def jitems_def publish_def
        send_json_def fill_json_def failed_count_def publishing_changes)
qed

theorem commit_whole_or_nothing_witness:
  "\<exists>s'. published (env_with (JObj [(''changes'', JArr [change_json ''pretzel'' ''probe'' (JObj [])])])) (post_request [])
     [change_json ''pretzel'' ''probe'' (JObj [])] mg_new s'"
proof -
  obtain s' resp' where c: "commit (env_with (JObj [(''changes'', JArr [change_json ''pretzel'' ''probe'' (JObj [])])]))
     (post_request []) response_new mg_new = (Inr resp', s')" and d: "s' \<noteq> mg_new" using commit_example by blast
  from commit_whole_or_nothing [OF c] d show ?thesis by (auto simp: env_with_def)
qed

text \<open>C25. Only an administrator publishes accounts: a batch with a change addressed to them, from a session
  that is not an administrator's, changes nothing, sends nothing and is not answered with a success,
  whatever else is in it.
\<close>

theorem accounts_need_admin:
  assumes "commit env req resp s = (r, s')" and "\<not> sessionIsAdmin (we_now env) (sessionCookie req) (mg_auth s)"
    and "we_parse env (rq_body req) = Some input" and "jfind ''changes'' input = Some (JArr cs)"
    and "c \<in> set cs" and "accounts_change c"
  shows "s' = s \<and> (\<forall>resp'. r = Inr resp' \<longrightarrow> rs_status resp' \<noteq> 200)"
  using commit_outcome [OF assms(1)] assms(2-) by (auto simp: published_def list_all_iff)

theorem accounts_need_admin_witness:
  "snd (commit (env_with (JObj [(''changes'', JArr [change_json ''pretzel'' ''user'' (JObj [])])])) (post_request [])
     response_new mg_new) = mg_new"
proof -
  let ?c = "change_json ''pretzel'' ''user'' (JObj [])"
  let ?env = "env_with (JObj [(''changes'', JArr [?c])])"
  obtain r s' where c: "commit ?env (post_request []) response_new mg_new = (r, s')" by fastforce
  have "accounts_change ?c" by (simp add: accounts_change_def change_json_def kPretzel_def)
  with accounts_need_admin [OF c no_session_new, of "JObj [(''changes'', JArr [?c])]" "[?c]" ?c] c
  show ?thesis by (simp add: env_with_def)
qed

text \<open>A configuration is saved and read only in its own directory: the path made from an operator's name is
  the directory, one separator and a file name of letters, digits, dots, dashes and underscores that
  does not start with a dot, or there is no path at all.
\<close>

theorem saved_path_contained:
  "savedConfigFile base name = [] \<or>
     (\<exists>stem. savedConfigFile base name = savedConfigDir base @ ''/'' @ stem @ ''.json'' \<and> stem \<noteq> [] \<and>
        length stem \<le> 100 \<and> hd stem \<noteq> CHR ''.'' \<and> CHR ''/'' \<notin> set stem \<and> list_all saved_name_char stem)"
proof -
  have "\<not> saved_name_char (CHR ''/'')"
    by (simp add: saved_name_char_def isalnum_def isdigit_def is_between_def)
  then have "CHR ''/'' \<notin> set stem" if "list_all saved_name_char stem" for stem
    using that by (auto simp: list_all_iff)
  then show ?thesis by (auto simp: savedConfigFile_def Let_def not_less)
qed

end
