(* ===== verification/Mgmtd_Pipeline.thy ===== *)
theory Mgmtd_Pipeline
  imports Mgmtd_Settings Engined_Reload
begin

text \<open>
  A publication from the browser to the stored configuration: the management daemon checks a batch of
  changes against the configuration it has cached and hands it over, the engine merges the changes into
  the configuration in force. The two sides combine values differently - whole members here, a JSON merge
  patch there -, so that what was checked is what results is a property of both.
\<close>

subsection \<open>The two ways to combine values\<close>

text \<open>What RFC 7396, which \<^verbatim>\<open>merge_patch\<close> implements, says of an object patch.\<close>

definition merges :: "jlib \<Rightarrow> bool" where
  "merges L \<longleftrightarrow> (\<forall>target vals k. is_object vals \<and> distinct (map fst (jfields vals)) \<longrightarrow>
     jfind k (jl_merge L target vals) =
       (case jfind k vals of
          None \<Rightarrow> jfind k target
        | Some v \<Rightarrow>
            if v = JNull then None
            else if is_object v then Some (jl_merge L (case jfind k target of None \<Rightarrow> JNull | Some t \<Rightarrow> t) v)
            else Some v))"

lemma foldl_update:
  "map_of (foldl (\<lambda>kvs (k, v). AList.update k v kvs) acc kvs) k =
     (case map_of (rev kvs) k of None \<Rightarrow> map_of acc k | Some v \<Rightarrow> Some v)"
  by (induction kvs arbitrary: acc) (auto simp: update_conv' map_add_def split: option.splits)

lemma map_of_rev_distinct: "distinct (map fst kvs) \<Longrightarrow> map_of (rev kvs) = map_of kvs"
  by (subst map_of_inject_set) (simp_all add: rev_map [symmetric])

lemma jfields_object [simp]: "jfields (JObj kvs) = kvs"
  by (simp add: jfields_def)

lemma jfind_fields: "jfind k j = map_of (jfields j) k"
  by (cases j) (simp_all add: jfields_def)

lemma jfind_set_members:
  "distinct (map fst (jfields vals)) \<Longrightarrow>
     jfind k (set_members vals target) = (case jfind k vals of None \<Rightarrow> jfind k target | Some v \<Rightarrow> Some v)"
  by (simp add: set_members_def foldl_update map_of_rev_distinct jfind_fields cong: option.case_cong)

lemma distinct_set_members:
  "distinct (map fst (jfields target)) \<Longrightarrow> distinct (map fst (jfields (set_members vals target)))"
proof -
  have "distinct (map fst acc) \<Longrightarrow> distinct (map fst (foldl (\<lambda>kvs (k, v). AList.update k v kvs) acc kvs))" for kvs acc
    by (induction kvs arbitrary: acc) (auto intro: distinct_update)
  then show "distinct (map fst (jfields target)) \<Longrightarrow> ?thesis" by (simp add: set_members_def jfields_def)
qed

text \<open>The last value the changes of a domain give one member.\<close>

fun last_value :: "string \<Rightarrow> json list \<Rightarrow> json option \<Rightarrow> json option" where
  "last_value k [] v = v"
| "last_value k (c # cs) v =
     last_value k cs (case jfind k (jmember ''values'' c) of None \<Rightarrow> v | Some x \<Rightarrow> Some x)"

lemma last_value_default: "(case last_value k cs None of None \<Rightarrow> v | Some x \<Rightarrow> Some x) = last_value k cs v"
proof (induction cs arbitrary: v)
  case (Cons c cs)
  have "last_value k cs (Some x) = Some y \<or> last_value k cs (Some x) \<noteq> None" for x y
    by (induction cs arbitrary: x) (auto split: option.splits)
  then have some: "last_value k cs (Some x) \<noteq> None" for x by blast
  show ?case
  proof (cases "jfind k (jmember ''values'' c)")
    case None
    with Cons show ?thesis by simp
  next
    case (Some x)
    with some [of x] show ?thesis by auto
  qed
qed simp

definition keys_distinct :: "json \<Rightarrow> bool" where
  "keys_distinct c \<longleftrightarrow> distinct (map fst (jfields (jmember ''values'' c)))"

lemma merged_fold:
  assumes "list_all keys_distinct cs" "distinct (map fst (jfields a))"
  shows "jfind k (foldl (\<lambda>dst c. set_members (jmember ''values'' c) dst) a cs) = last_value k cs (jfind k a)
    \<and> distinct (map fst (jfields (foldl (\<lambda>dst c. set_members (jmember ''values'' c) dst) a cs)))"
  using assms by (induction cs arbitrary: a) (simp_all add: keys_distinct_def jfind_set_members distinct_set_members)

subsection \<open>What the engine makes of the changes\<close>

definition connector_target :: "string \<times> string" where
  "connector_target = (kPretzel, ''connector'')"

definition reference_members :: "string list" where
  "reference_members = [''endpoints'', ''api_credentials'', ''connectors'']"

definition section_of :: "string \<times> string \<Rightarrow> json \<Rightarrow> json" where
  "section_of t root = (case domain_of (fst t) (snd t) root of None \<Rightarrow> JNull | Some v \<Rightarrow> v)"

lemma validateArray_ok: "validateArray vals k f = Inr None \<Longrightarrow> jfind k vals = Some v \<Longrightarrow> is_array v"
  by (auto simp: validateArray_def jcontains_def jmember_def split: if_splits)

lemma connector_arrays:
  assumes "change_ok c" "target_change c = connector_target" "k \<in> set reference_members"
    and "jfind k (jmember ''values'' c) = Some v"
  shows "is_array v"
proof -
  from assms(1,2) have "validateCommitShape kPretzel ''connector'' (jmember ''values'' c) = Inr None"
    by (auto simp: change_ok_def target_change_def connector_target_def str_of_def jmember_def)
  then have "validateArray (jmember ''values'' c) ''api_credentials'' validApiKey = Inr None"
    "validateArray (jmember ''values'' c) ''endpoints'' validApiEndpoint = Inr None"
    "validateArray (jmember ''values'' c) ''connectors'' validApiConnector = Inr None"
    by (simp_all add: validateCommitShape_def)
  with assms(3,4) show ?thesis by (auto simp: reference_members_def dest: validateArray_ok)
qed

lemma target_change_eq:
  "change_ok c \<Longrightarrow> change_target c = (if snd (target_change c) = [] then None else Some (target_change c))"
  by (auto simp: change_ok_def change_target_def target_change_def str_of_def kSettingsScopes_def kPretzel_def kPretzelAi_def)

lemma staged_values:
  assumes L: "merges L" and k: "k \<in> set reference_members"
  shows "stage_changes L cs (root, applied, failed) = Inr (root', applied', failed') \<Longrightarrow>
    list_all change_ok cs \<Longrightarrow> list_all keys_distinct cs \<Longrightarrow>
    jfind k (section_of connector_target root') =
      last_value k (filter (\<lambda>c. target_change c = connector_target) cs) (jfind k (section_of connector_target root))"
proof (induction cs arbitrary: root applied failed)
  case (Cons c cs)
  from Cons.prems(1) show ?case
  proof (cases rule: stage_step)
    case skip
    with Cons target_change_eq [of c] show ?thesis by (auto simp: connector_target_def split: if_splits)
  next
    case (staged scope domain vals root1)
    have t: "target_change c = (scope, domain)" and v: "jmember ''values'' c = vals"
      using staged(1,2) target_change_eq [of c] Cons.prems(2) by (auto simp: jmember_def split: if_splits)
    have sec: "section_of connector_target root1 =
        (if target_change c = connector_target then jl_merge L (section_of connector_target root) vals
         else section_of connector_target root)"
      using stage_change_domains [OF staged(3), of "fst connector_target" "snd connector_target"] t
      by (auto simp: section_of_def)
    have ih: "jfind k (section_of connector_target root') =
        last_value k (filter (\<lambda>c. target_change c = connector_target) cs) (jfind k (section_of connector_target root1))"
      using Cons.IH [OF staged(4)] Cons.prems by simp
    show ?thesis
    proof (cases "target_change c = connector_target")
      case True
      have obj: "is_object vals" "distinct (map fst (jfields vals))"
        using Cons.prems(2,3) v by (auto simp: change_ok_def keys_distinct_def jmember_def)
      have arr: "jfind k vals = Some x \<Longrightarrow> is_array x" for x
        using connector_arrays [OF _ True k, of x] Cons.prems(2) v by simp
      have "jfind k (jl_merge L (section_of connector_target root) vals) =
          (case jfind k vals of None \<Rightarrow> jfind k (section_of connector_target root) | Some x \<Rightarrow> Some x)"
      proof (cases "jfind k vals")
        case None
        with L obj show ?thesis by (simp add: merges_def)
      next
        case (Some x)
        with arr obtain xs where "x = JArr xs" by (auto simp: is_array_def split: json.splits)
        with L obj Some show ?thesis by (simp add: merges_def)
      qed
      with True ih sec v show ?thesis by simp
    next
      case False
      with ih sec show ?thesis by simp
    qed
  qed
qed simp

subsection \<open>References\<close>

lemma containsOid_found: "containsOid arr oid = Inr True \<Longrightarrow> oid \<in> set (map (str_of ''oid'') (filter is_object (jitems arr)))"
proof -
  have "containsOid_loop es oid = Inr True \<Longrightarrow> oid \<in> set (map (str_of ''oid'') (filter is_object es))" for es
  proof (induction es)
    case (Cons e es)
    show ?case
    proof (cases "is_object e")
      case True
      with Cons.prems obtain x where x: "jvalue get_str ''oid'' [] e = Inr x" by (auto simp: bind_err_Inr_iff)
      then have "str_of ''oid'' e = x" by (auto simp: jvalue_str_cases str_of_def)
      with x True Cons show ?thesis by (auto split: if_splits)
    next
      case False
      with Cons show ?thesis by simp
    qed
  qed simp
  then show "containsOid arr oid = Inr True \<Longrightarrow> ?thesis"
    by (auto simp: containsOid_def jitems_def is_array_def split: if_splits json.splits)
qed

lemma check_items_sound:
  "check_items endpoints label items = Inr None \<Longrightarrow> \<forall>i \<in> set (filter is_object items).
     str_of ''endpoint'' i = [] \<or> str_of ''endpoint'' i \<in> set (map (str_of ''oid'') (filter is_object (jitems endpoints)))"
proof (induction items)
  case (Cons i items)
  show ?case
  proof (cases "is_object i")
    case True
    with Cons.prems obtain x where x: "jvalue get_str ''endpoint'' [] i = Inr x" by (auto simp: bind_err_Inr_iff)
    then have "str_of ''endpoint'' i = x" by (auto simp: jvalue_str_cases str_of_def)
    with x True Cons show ?thesis
      by (auto simp: bind_err_Inr_iff dest!: containsOid_found split: if_splits)
  next
    case False
    with Cons show ?thesis by simp
  qed
qed simp

lemma check_connector_sound:
  assumes "check_connector endpoints keys c = Inr None" "is_object c"
  shows "connector_ok endpoints keys c"
proof -
  from assms obtain items label ap where
    i: "jvalue get_json ''items'' (JArr []) c = Inr items"
    and r: "(if is_array items then check_items endpoints label (jitems items) else Inr None) = Inr None"
    and a: "jvalue get_str ''auth_profile'' [] c = Inr ap"
    and k: "ap = [] \<or> containsOid keys ap = Inr True"
    by (auto simp: check_connector_def bind_err_Inr_iff split: option.splits if_splits)
  have items: "items_of ''items'' c = filter is_object (jitems items)"
    using i by (auto simp: jvalue_def get_json_def items_of_def jitems_def split: option.splits if_splits)
  have "str_of ''auth_profile'' c = ap" using a by (auto simp: jvalue_str_cases str_of_def)
  moreover have "\<not> is_array items \<Longrightarrow> jitems items = []" by (cases items) (simp_all add: jitems_def)
  ultimately show ?thesis
    using r k check_items_sound [of endpoints label "jitems items"] containsOid_found [of keys ap] items
    by (auto simp: connector_ok_def list_all_iff split: if_splits)
qed

lemma check_connectors_sound:
  "check_connectors endpoints keys cs = Inr None \<Longrightarrow> list_all (connector_ok endpoints keys) (filter is_object cs)"
  by (induction cs) (auto simp: bind_err_Inr_iff dest: check_connector_sound split: if_splits option.splits)

lemma checkApiReferences_sound:
  assumes "checkApiReferences api = Inr None" "is_object api"
  shows "refs_resolve api"
proof -
  obtain endpoints where e: "jvalue get_json ''endpoints'' (JArr []) api = Inr endpoints"
    "items_of ''endpoints'' api = filter is_object (jitems endpoints)" by (rule jvalue_array [OF assms(2)])
  obtain keys where k: "jvalue get_json ''api_credentials'' (JArr []) api = Inr keys"
    "items_of ''api_credentials'' api = filter is_object (jitems keys)" by (rule jvalue_array [OF assms(2)])
  obtain conns where c: "jvalue get_json ''connectors'' (JArr []) api = Inr conns"
    "items_of ''connectors'' api = filter is_object (jitems conns)" by (rule jvalue_array [OF assms(2)])
  have "\<not> is_array conns \<Longrightarrow> jitems conns = []" by (cases conns) (simp_all add: jitems_def)
  with assms have "list_all (connector_ok endpoints keys) (filter is_object (jitems conns))"
    by (auto simp: checkApiReferences_def e k c dest: check_connectors_sound split: if_splits)
  then show ?thesis by (simp add: refs_resolve_def connector_ok_def [abs_def] e k c)
qed

lemma refs_resolve_members:
  assumes "\<And>k. k \<in> set reference_members \<Longrightarrow> jfind k a = jfind k b"
  shows "refs_resolve a = refs_resolve b"
proof -
  have "items_of k a = items_of k b" if "k \<in> set reference_members" for k
    using assms [OF that] by (simp add: items_of_def)
  then show ?thesis by (simp add: refs_resolve_def reference_members_def)
qed

subsection \<open>The pipeline\<close>

text \<open>C26. What was checked is what results: when the engine merges a published batch that touches the API
  objects, every endpoint and every credential that a connector of the resulting configuration names exists in
  it. This needs that the configuration the engine merges into holds the same endpoints, credentials and connectors as
  the one the management daemon had cached when it checked the batch: nothing in the code sees to that, and two batches
  published before the first is applied can leave a reference dangling. It needs further that the library merges
  patches as RFC 7396 says and that no change names a member twice.
\<close>

theorem published_references_resolve:
  assumes "merges L" and "published env req cs s s'" and "list_all keys_distinct cs"
    and "\<forall>k \<in> set reference_members. jfind k (section_of connector_target root) =
      jfind k (cfg_section kPretzel ''connector'' (we_cfg env))"
    and "stage_changes L cs (root, 0, 0) = Inr (root', applied, failed)"
    and "connector_target \<in> target_change ` set cs"
  shows "refs_resolve (section_of connector_target root')"
proof -
  let ?sec = "cfg_section kPretzel ''connector'' (we_cfg env)"
  let ?old = "if is_object ?sec then ?sec else JObj []"
  let ?cs = "filter (\<lambda>c. target_change c = connector_target) cs"
  let ?new = "set_members (merged_values connector_target cs) ?old"
  have ok: "list_all change_ok cs" and "checkApiReferences ?new = Inr None"
    using assms(2,6) by (auto simp: published_def batch_refs_ok_def validateApiReferences_def connector_target_def Let_def)
  then have "refs_resolve ?new" by (intro checkApiReferences_sound) (simp_all add: set_members_def)
  moreover have "refs_resolve (section_of connector_target root') = refs_resolve ?new"
  proof (rule refs_resolve_members)
    fix k assume k: "k \<in> set reference_members"
    have old: "jfind k ?old = jfind k ?sec" by (cases ?sec) simp_all
    have "list_all keys_distinct ?cs" using assms(3) by (auto simp: list_all_iff)
    then have m: "jfind k (merged_values connector_target cs) = last_value k ?cs None"
      "distinct (map fst (jfields (merged_values connector_target cs)))"
      unfolding merged_values_def using merged_fold [of ?cs "JObj []" k] by simp_all
    have "jfind k (section_of connector_target root') = last_value k ?cs (jfind k (section_of connector_target root))"
      by (rule staged_values [OF assms(1) k assms(5) ok assms(3)])
    also have "\<dots> = last_value k ?cs (jfind k ?old)" using assms(4) k old by simp
    also have "\<dots> = jfind k ?new"
      using jfind_set_members [OF m(2), of k ?old] m(1) last_value_default [where k = k and cs = ?cs and v = "jfind k ?old"] by simp
    finally show "jfind k (section_of connector_target root') = jfind k ?new" .
  qed
  ultimately show ?thesis by simp
qed

text \<open>A merge patch as the RFC writes it, for the witness.\<close>

fun rfc_merge :: "json \<Rightarrow> json \<Rightarrow> json"
  and rfc_fields :: "(string \<times> json) list \<Rightarrow> (string \<times> json) list \<Rightarrow> (string \<times> json) list" where
  "rfc_merge target (JObj fs) = JObj (rfc_fields (jfields target) fs)"
| "rfc_merge target JNull = JNull"
| "rfc_merge target (JBool b) = JBool b"
| "rfc_merge target (JInt i) = JInt i"
| "rfc_merge target (JStr x) = JStr x"
| "rfc_merge target (JArr xs) = JArr xs"
| "rfc_fields t [] = t"
| "rfc_fields t ((k, v) # fs) =
     rfc_fields (if v = JNull then AList.delete k t
       else AList.update k (rfc_merge (case map_of t k of None \<Rightarrow> JNull | Some x \<Rightarrow> x) v) t) fs"

lemma rfc_merge_value: "\<not> is_object v \<Longrightarrow> rfc_merge target v = v"
  by (cases v) simp_all

lemma rfc_fields_member:
  "distinct (map fst fs) \<Longrightarrow> map_of (rfc_fields t fs) k =
     (case map_of fs k of
        None \<Rightarrow> map_of t k
      | Some v \<Rightarrow> if v = JNull then None else Some (rfc_merge (case map_of t k of None \<Rightarrow> JNull | Some x \<Rightarrow> x) v))"
proof (induction fs arbitrary: t)
  case (Cons f fs)
  obtain k' v where f: "f = (k', v)" by (cases f)
  with Cons.prems have "map_of fs k' = None" "distinct (map fst fs)" by (simp_all add: map_of_eq_None_iff)
  with f Cons.IH show ?case by (cases "k = k'"; cases "map_of fs k") (simp_all add: update_conv' AList.delete_conv')
qed simp

definition patch_lib :: jlib where
  "patch_lib = unary_lib\<lparr>jl_merge := rfc_merge\<rparr>"

lemma merges_patch_lib: "merges patch_lib"
  unfolding merges_def
proof (intro allI impI)
  fix target vals k
  assume v: "is_object vals \<and> distinct (map fst (jfields vals))"
  then obtain fs where fs: "vals = JObj fs" by (cases vals) simp_all
  show "jfind k (jl_merge patch_lib target vals) = (case jfind k vals of None \<Rightarrow> jfind k target
      | Some v \<Rightarrow> if v = JNull then None
          else if is_object v then Some (jl_merge patch_lib (case jfind k target of None \<Rightarrow> JNull | Some t \<Rightarrow> t) v)
          else Some v)"
    using v rfc_fields_member [of fs "jfields target" k]
    by (auto simp: fs patch_lib_def jfind_fields rfc_merge_value split: option.splits)
qed

text \<open>
  A published batch of two changes: a credential and a connector that names it and an endpoint. The endpoint
  is in the configuration already.
\<close>

definition api_root :: json where
  "api_root = JObj [(''pretzel'', JObj [(''connector'', JObj
     [(''endpoints'', JArr [JObj [(''oid'', JStr ''e1''), (''name'', JStr ''ike'')]])])])]"

definition api_credential :: json where
  "api_credential = JObj [(''oid'', JStr ''k1''), (''name'', JStr ''key''), (''device'', JStr ''f1'')]"

definition api_connector :: json where
  "api_connector = JObj [(''oid'', JStr ''c1''), (''object'', JStr ''f1''), (''auth_profile'', JStr ''k1''),
     (''items'', JArr [JObj [(''endpoint'', JStr ''e1''), (''poll_interval_sec'', JInt 60)]])]"

definition api_batch :: "json list" where
  "api_batch = [change_json ''pretzel'' ''connector'' (JObj [(''api_credentials'', JArr [api_credential])]),
     change_json ''pretzel'' ''connector'' (JObj [(''connectors'', JArr [api_connector])])]"

definition api_config :: config where
  "api_config = config_init\<lparr>cf_cache := api_root\<rparr>"

definition api_env :: web_env where
  "api_env = (env_with JNull)\<lparr>we_auth := (sign_env 0)\<lparr>ae_cfg := api_config\<rparr>\<rparr>"

definition api_result :: json where
  "api_result = JObj [(''pretzel'', JObj [(''connector'', JObj
     [(''endpoints'', JArr [JObj [(''oid'', JStr ''e1''), (''name'', JStr ''ike'')]]),
      (''api_credentials'', JArr [api_credential]), (''connectors'', JArr [api_connector])])])]"

lemma api_batch_shapes:
  "validateCommitShape ''pretzel'' ''connector'' (JObj [(''api_credentials'', JArr [api_credential])]) = Inr None"
  "validateCommitShape ''pretzel'' ''connector'' (JObj [(''connectors'', JArr [api_connector])]) = Inr None"
  by code_simp+

lemma api_batch_ok: "list_all change_ok api_batch"
  using api_batch_shapes
  by (simp add: api_batch_def change_ok_def change_json_def kSettingsScopes_def kPretzel_def)

lemma api_batch_checked:
  "batch_refs_ok api_config api_batch" "list_all (\<lambda>c. \<not> accounts_change c) api_batch"
  "list_all keys_distinct api_batch" "connector_target \<in> target_change ` set api_batch"
  "stage_changes patch_lib api_batch (api_root, 0, 0) = Inr (api_result, 2, 0)"
  "map (str_of ''auth_profile'') (items_of ''connectors'' (section_of connector_target api_result)) = [''k1'']"
  "map (map (str_of ''endpoint'') \<circ> items_of ''items'') (items_of ''connectors'' (section_of connector_target api_result)) = [[''e1'']]"
  by code_simp+

theorem published_references_resolve_witness:
  "\<exists>s'. published api_env (post_request []) api_batch mg_new s' \<and>
     stage_changes patch_lib api_batch (api_root, 0, 0) = Inr (api_result, 2, 0) \<and>
     map (str_of ''auth_profile'') (items_of ''connectors'' (section_of connector_target api_result)) = [''k1''] \<and>
     map (map (str_of ''endpoint'') \<circ> items_of ''items'') (items_of ''connectors'' (section_of connector_target api_result)) = [[''e1'']] \<and>
     refs_resolve (section_of connector_target api_result)"
proof -
  have cfg: "we_cfg api_env = api_config" by (simp add: api_env_def)
  have dump: "we_dump api_env (JArr api_batch) = Inr ''x''" by (simp add: api_env_def env_with_def)
  let ?s = "startReload (we_steady api_env) (mg_send (TxIpc (mk_message DMgmtd DEngined CmdSettingsCommitRequest 0
    (toFlag FlagRequest) (bytes_of_string ''x''))) mg_new)"
  have pub: "published api_env (post_request []) api_batch mg_new ?s"
    unfolding published_def cfg dump
    by (intro conjI disjI2 exI [of _ "''x''"] refl api_batch_ok api_batch_checked(1,2)) (simp add: api_batch_def)
  have "\<forall>k \<in> set reference_members. jfind k (section_of connector_target api_root) =
      jfind k (cfg_section kPretzel ''connector'' (we_cfg api_env))"
    unfolding cfg by code_simp
  from published_references_resolve [OF merges_patch_lib pub api_batch_checked(3) this api_batch_checked(5,4)]
  show ?thesis by (intro exI [of _ ?s] conjI pub api_batch_checked(5-))
qed

end
