(* ===== verification/Ngfw_Model.thy ===== *)
theory Ngfw_Model
  imports Text_Codec
begin

text \<open>
  How the topology daemon reads a firewall's configuration (\<^verbatim>\<open>topologyd/service/topology/NgfwModel.cpp\<close>):
  addresses and their scope, the classification of tunnel peers, and the readers of the vendor's JSON
  documents. A member that is not a string is printed by the JSON library, a parameter \<open>D\<close> (what the
  readers see comes from the parser, so printing does not fail).
\<close>

subsection \<open>Addresses\<close>

definition lower :: "string \<Rightarrow> string" where
  "lower = map to_lower"

fun split_loop :: "char \<Rightarrow> string \<Rightarrow> string \<Rightarrow> string list" where
  "split_loop sep cur [] = [cur]"
| "split_loop sep cur (c # s) = (if c = sep then cur # split_loop sep [] s else split_loop sep (cur @ [c]) s)"

definition split_at :: "string \<Rightarrow> char \<Rightarrow> string list" where
  "split_at s sep = split_loop sep [] s"

definition bareHost :: "string \<Rightarrow> string" where
  "bareHost s =
     (let out = takeWhile (\<lambda>c. c \<noteq> CHR ''/'') s;
          colons = length (filter (\<lambda>c. c = CHR '':'') out) in
      if colons = 1 \<and> CHR ''.'' \<in> set out then takeWhile (\<lambda>c. c \<noteq> CHR '':'') out else out)"

definition octet :: "string \<Rightarrow> nat option" where
  "octet part =
     (if part = [] \<or> length part > 3 \<or> \<not> list_all isdigit part then None
      else let v = foldl (\<lambda>v c. v * 10 + (of_char c - of_char CHR ''0'')) 0 part in
        if v > 255 then None else Some v)"

definition parseV4 :: "string \<Rightarrow> (nat \<times> nat \<times> nat \<times> nat) option" where
  "parseV4 s =
     (case map octet (split_at (bareHost s) CHR ''.'') of
        [Some a, Some b, Some c, Some d] \<Rightarrow> Some (a, b, c, d)
      | _ \<Rightarrow> None)"

definition isPrivateV4 :: "string \<Rightarrow> bool" where
  "isPrivateV4 cidrOrIp =
     (case parseV4 cidrOrIp of None \<Rightarrow> False
      | Some (a, b, c, d) \<Rightarrow>
          if a = 10 then True
          else if a = 172 \<and> b \<ge> 16 \<and> b \<le> 31 then True
          else if a = 192 \<and> b = 168 then True
          else if a = 100 \<and> b \<ge> 64 \<and> b \<le> 127 then True
          else if a = 169 \<and> b = 254 then True
          else if a = 127 then True
          else False)"

subsection \<open>Roles and peers\<close>

datatype if_role = IfWan | IfEdge | IfLan | IfLoopback | IfTunnel | IfUnknown

fun ifRoleName :: "if_role \<Rightarrow> string" where
  "ifRoleName IfWan = ''wan''"
| "ifRoleName IfEdge = ''edge''"
| "ifRoleName IfLan = ''lan''"
| "ifRoleName IfLoopback = ''loopback''"
| "ifRoleName IfTunnel = ''tunnel''"
| "ifRoleName IfUnknown = ''unknown''"

datatype peer_kind = ServiceConnection | RemoteNetwork | External | PeerUnknown

fun peerKindName :: "peer_kind \<Rightarrow> string" where
  "peerKindName ServiceConnection = ''service_connection''"
| "peerKindName RemoteNetwork = ''remote_network''"
| "peerKindName External = ''external''"
| "peerKindName PeerUnknown = ''unknown''"

record peer =
  pe_kind :: peer_kind
  pe_addr :: string
  pe_label :: string
  pe_region :: string
  pe_tenant :: string

definition peer_new :: peer where
  "peer_new = \<lparr>pe_kind = PeerUnknown, pe_addr = [], pe_label = [], pe_region = [], pe_tenant = []\<rparr>"

text \<open>The labels left of the marker, joined by dots; a dot is only put after something.\<close>

definition join_labels :: "string list \<Rightarrow> string" where
  "join_labels ls = foldl (\<lambda>acc l. acc @ (if acc = [] then [] else ''.'') @ l) [] ls"

text \<open>The loop over the labels: \<open>seen\<close> are those left of the current one, which has a successor.\<close>

fun find_marker :: "peer \<Rightarrow> string \<Rightarrow> string list \<Rightarrow> string list \<Rightarrow> peer option" where
  "find_marker p host seen (l # next # rest) =
     (if l \<noteq> ''sc'' \<and> l \<noteq> ''rn'' then find_marker p host (seen @ [l]) (next # rest)
      else
        let p = p\<lparr>pe_kind := (if l = ''sc'' then ServiceConnection else RemoteNetwork), pe_tenant := next\<rparr>;
            p = (if length seen \<ge> 2 then p\<lparr>pe_region := last seen, pe_label := join_labels (butlast seen)\<rparr>
                 else if length seen = 1 then p\<lparr>pe_label := hd seen\<rparr> else p) in
        Some (if pe_label p = [] then p\<lparr>pe_label := host\<rparr> else p))"
| "find_marker p host seen _ = None"

definition classifyPeer :: "string \<Rightarrow> peer" where
  "classifyPeer addr =
     (let p = peer_new\<lparr>pe_addr := addr\<rparr> in
      if addr = [] then p
      else
        let host = lower (bareHost addr) in
        if parseV4 host \<noteq> None then p\<lparr>pe_kind := External, pe_label := bareHost addr\<rparr>
        else if str_find ''gpcloudservice.com'' host = None then p\<lparr>pe_kind := External, pe_label := host\<rparr>
        else case find_marker p host [] (split_at host CHR ''.'') of
          Some p \<Rightarrow> p
        | None \<Rightarrow> p\<lparr>pe_kind := External, pe_label := host\<rparr>)"

subsection \<open>Document readers\<close>

definition entriesOf :: "json \<Rightarrow> json list" where
  "entriesOf doc =
     (if \<not> is_object doc then []
      else
        let node = (case jfind ''result'' doc of Some r \<Rightarrow> if is_object r then r else doc | None \<Rightarrow> doc) in
        case jfind ''entry'' node of
          Some (JArr es) \<Rightarrow> es
        | Some (JObj kvs) \<Rightarrow> [JObj kvs]
        | _ \<Rightarrow> [])"

definition jstr :: "(json \<Rightarrow> string) \<Rightarrow> json \<Rightarrow> string \<Rightarrow> string" where
  "jstr D j key =
     (case jfind key j of None \<Rightarrow> [] | Some JNull \<Rightarrow> [] | Some (JStr s) \<Rightarrow> s | Some v \<Rightarrow> D v)"

lemma member_smaller: "map_of kvs k = Some v \<Longrightarrow> size v < size (JObj kvs)"
  by (induction kvs) (auto split: if_splits)

text \<open>The address out of a node that may be the address, or have it as its member; the recursion goes inwards.\<close>

function ipOf :: "(json \<Rightarrow> string) \<Rightarrow> json \<Rightarrow> string" where
  "ipOf D j =
     (case j of
        JStr s \<Rightarrow> s
      | JObj kvs \<Rightarrow>
          if jcontains ''ipv4'' j then jstr D j ''ipv4''
          else (case map_of kvs ''ip'' of None \<Rightarrow> [] | Some v \<Rightarrow> ipOf D v)
      | _ \<Rightarrow> [])"
  by pat_completeness auto

termination ipOf
  by (relation "measure (size \<circ> snd)") (auto dest: member_smaller)

declare ipOf.simps [simp del]

definition readLocalAddress :: "(json \<Rightarrow> string) \<Rightarrow> json \<Rightarrow> string \<times> string" where
  "readLocalAddress D node =
     (if \<not> is_object node then ([], [])
      else (jstr D node ''interface'', case jfind ''ip'' node of None \<Rightarrow> [] | Some v \<Rightarrow> ipOf D v))"

definition entry_names :: "(json \<Rightarrow> string) \<Rightarrow> json \<Rightarrow> string list" where
  "entry_names D doc = filter (\<lambda>n. n \<noteq> []) (map (\<lambda>a. jstr D a ''@name'') (entriesOf doc))"

definition address_modes :: "string list" where
  "address_modes = [''layer3'', ''layer2'', ''tap'', ''ha'', ''virtual-wire'']"

fun mode_addresses :: "(json \<Rightarrow> string) \<Rightarrow> json \<Rightarrow> string list \<Rightarrow> string list" where
  "mode_addresses D entry [] = []"
| "mode_addresses D entry (mode # modes) =
     (case jfind mode entry of
        Some (JObj m) \<Rightarrow>
          (case map_of m ''ip'' of
             None \<Rightarrow> mode_addresses D entry modes
           | Some ip \<Rightarrow>
               let out = entry_names D (JObj m);
                   out = (if out \<noteq> [] then out else if is_object ip then entry_names D ip else []) in
               if out \<noteq> [] then out else mode_addresses D entry modes)
      | _ \<Rightarrow> mode_addresses D entry modes)"

definition interfaceAddresses :: "(json \<Rightarrow> string) \<Rightarrow> json \<Rightarrow> string list" where
  "interfaceAddresses D entry = mode_addresses D entry address_modes"

definition interfaceMode :: "json \<Rightarrow> string" where
  "interfaceMode entry =
     (case find (\<lambda>mode. jcontains mode entry) (address_modes @ [''aggregate-group'']) of None \<Rightarrow> [] | Some m \<Rightarrow> m)"

definition adminState :: "(json \<Rightarrow> string) \<Rightarrow> json \<Rightarrow> string" where
  "adminState D entry =
     (let ls = lower (jstr D entry ''link-state'');
          disabled = jstr D entry ''disabled'' in
      if jcontains ''link-state'' entry \<and> str_find ''down'' ls \<noteq> None then ''down''
      else if jcontains ''link-state'' entry \<and> str_find ''up'' ls \<noteq> None then ''up''
      else if disabled = ''yes'' \<or> disabled = ''true'' then ''down'' else ''up'')"

record ike_gateway =
  ig_name :: string
  ig_interfaceName :: string
  ig_localIp :: string
  ig_peer :: peer
  ig_version :: string

definition local_address_of :: "(json \<Rightarrow> string) \<Rightarrow> json \<Rightarrow> string \<times> string" where
  "local_address_of D e = (case jfind ''local-address'' e of None \<Rightarrow> ([], []) | Some n \<Rightarrow> readLocalAddress D n)"

definition peer_address :: "(json \<Rightarrow> string) \<Rightarrow> json \<Rightarrow> string" where
  "peer_address D pa =
     (let addr = jstr D pa ''ip''; addr = (if addr = [] then jstr D pa ''fqdn'' else addr) in
      if addr = [] then ipOf D pa else addr)"

definition read_ike :: "(json \<Rightarrow> string) \<Rightarrow> json \<Rightarrow> ike_gateway" where
  "read_ike D e =
     \<lparr>ig_name = jstr D e ''@name'', ig_interfaceName = fst (local_address_of D e), ig_localIp = snd (local_address_of D e),
      ig_peer = (case jfind ''peer-address'' e of Some (JObj kvs) \<Rightarrow> classifyPeer (peer_address D (JObj kvs)) | _ \<Rightarrow> peer_new),
      ig_version = (case jfind ''protocol'' e of Some (JObj kvs) \<Rightarrow> jstr D (JObj kvs) ''version'' | _ \<Rightarrow> [])\<rparr>"

definition readIkeGateways :: "(json \<Rightarrow> string) \<Rightarrow> json \<Rightarrow> ike_gateway list" where
  "readIkeGateways D doc = map (read_ike D) (filter is_object (entriesOf doc))"

record gp_portal =
  gp_name :: string
  gp_interfaceName :: string
  gp_localIp :: string
  gp_gateways :: "string list"

text \<open>The gateways of one list of one client configuration; a label is entered once.\<close>

definition gateway_label :: "(json \<Rightarrow> string) \<Rightarrow> json \<Rightarrow> string" where
  "gateway_label D g =
     (let addr = (case jfind ''ip'' g of None \<Rightarrow> [] | Some v \<Rightarrow> ipOf D v);
          addr = (if addr = [] then jstr D g ''fqdn'' else addr) in
      jstr D g ''@name'' @ (if addr \<noteq> [] then '' @ '' @ addr else []))"

definition add_label :: "string \<Rightarrow> string list \<Rightarrow> string list" where
  "add_label l ls = (if l = [] \<or> l \<in> set ls then ls else ls @ [l])"

definition config_gateways :: "(json \<Rightarrow> string) \<Rightarrow> json \<Rightarrow> json list" where
  "config_gateways D cfg =
     (case jfind ''gateways'' cfg of None \<Rightarrow> []
      | Some gws \<Rightarrow> concat (map (\<lambda>kind.
          case jfind kind gws of
            Some (JObj l) \<Rightarrow> (case map_of l ''list'' of None \<Rightarrow> [] | Some doc \<Rightarrow> filter is_object (entriesOf doc))
          | _ \<Rightarrow> []) [''external'', ''internal'']))"

definition portal_gateways :: "(json \<Rightarrow> string) \<Rightarrow> json \<Rightarrow> string list" where
  "portal_gateways D e =
     (case jfind ''client-config'' e of
        Some (JObj kvs) \<Rightarrow>
          (case map_of kvs ''configs'' of None \<Rightarrow> []
           | Some configs \<Rightarrow>
               fold (\<lambda>g. add_label (gateway_label D g))
                 (concat (map (config_gateways D) (filter is_object (entriesOf configs)))) [])
      | _ \<Rightarrow> [])"

text \<open>
  \<^verbatim>\<open>e["portal-config"]["local-address"]\<close> on a constant value demands that the member is there: without
  it the library's assertion fails (\<open>None\<close>).
\<close>

definition read_portal :: "(json \<Rightarrow> string) \<Rightarrow> json \<Rightarrow> gp_portal option" where
  "read_portal D e =
     map_option (\<lambda>(iface, ip). \<lparr>gp_name = jstr D e ''@name'', gp_interfaceName = iface, gp_localIp = ip,
         gp_gateways = portal_gateways D e\<rparr>)
       (case jfind ''portal-config'' e of
          Some (JObj kvs) \<Rightarrow> map_option (readLocalAddress D) (map_of kvs ''local-address'')
        | _ \<Rightarrow> Some ([], []))"

fun all_some :: "'a option list \<Rightarrow> 'a list option" where
  "all_some [] = Some []"
| "all_some (None # xs) = None"
| "all_some (Some x # xs) = map_option ((#) x) (all_some xs)"

definition readGpPortals :: "(json \<Rightarrow> string) \<Rightarrow> json \<Rightarrow> gp_portal list option" where
  "readGpPortals D doc = all_some (map (read_portal D) (filter is_object (entriesOf doc)))"

record gp_gateway =
  gw_name :: string
  gw_interfaceName :: string
  gw_localIp :: string
  gw_tunnelMode :: bool
  gw_pools :: "string list"

definition pool_members :: "json \<Rightarrow> string list" where
  "pool_members c =
     (case jfind ''ip-pool'' c of
        Some (JObj pool) \<Rightarrow>
          (case map_of pool ''member'' of
             Some (JArr vs) \<Rightarrow> concat (map (\<lambda>v. case v of JStr s \<Rightarrow> [s] | _ \<Rightarrow> []) vs)
           | Some (JStr s) \<Rightarrow> [s]
           | _ \<Rightarrow> [])
      | _ \<Rightarrow> [])"

definition read_gateway :: "(json \<Rightarrow> string) \<Rightarrow> json \<Rightarrow> gp_gateway" where
  "read_gateway D e =
     (let tm = jstr D e ''tunnel-mode'' in
      \<lparr>gw_name = jstr D e ''@name'', gw_interfaceName = fst (local_address_of D e), gw_localIp = snd (local_address_of D e),
       gw_tunnelMode = (tm = ''yes'' \<or> tm = ''true''),
       gw_pools = (case jfind ''remote-user-tunnel-configs'' e of None \<Rightarrow> []
         | Some cs \<Rightarrow> concat (map pool_members (filter is_object (entriesOf cs))))\<rparr>)"

definition readGpGateways :: "(json \<Rightarrow> string) \<Rightarrow> json \<Rightarrow> gp_gateway list" where
  "readGpGateways D doc = map (read_gateway D) (filter is_object (entriesOf doc))"

subsection \<open>Private addresses\<close>

text \<open>
  The blocks that are not routable on the internet, as network and prefix length, and what it means for an
  address to lie in one.
\<close>

definition v4_word :: "nat \<times> nat \<times> nat \<times> nat \<Rightarrow> u32" where
  "v4_word q = (case q of (a, b, c, d) \<Rightarrow>
     push_bit 24 (of_nat a) OR push_bit 16 (of_nat b) OR push_bit 8 (of_nat c) OR of_nat d)"

definition in_block :: "u32 \<times> nat \<Rightarrow> u32 \<Rightarrow> bool" where
  "in_block blk w \<longleftrightarrow> drop_bit (32 - snd blk) w = drop_bit (32 - snd blk) (fst blk)"

definition private_blocks :: "(u32 \<times> nat) list" where
  "private_blocks = [(0x0A000000, 8), (0xAC100000, 12), (0xC0A80000, 16), (0x64400000, 10), (0xA9FE0000, 16), (0x7F000000, 8)]"

lemma octet_bound: "octet p = Some v \<Longrightarrow> v < 256"
  by (auto simp: octet_def Let_def split: if_splits)

lemma parseV4_bound: "parseV4 s = Some (a, b, c, d) \<Longrightarrow> a < 256 \<and> b < 256 \<and> c < 256 \<and> d < 256"
  by (auto simp: parseV4_def split: list.splits option.splits dest!: octet_bound)

lemma or_disjoint:
  assumes "x < 2 ^ k" and "n = y * 2 ^ k"
  shows "or n x = n + (x :: nat)"
proof -
  have "and n x = 0"
  proof (rule bit_eqI)
    fix m
    show "bit (and n x) m \<longleftrightarrow> bit (0 :: nat) m"
    proof (cases "m < k")
      case True
      have "n = push_bit k y" using assms(2) by (simp add: push_bit_eq_mult)
      with True show ?thesis by (simp add: bit_and_iff bit_push_bit_iff)
    next
      case False
      have "take_bit k x = x" using assms(1) by (simp add: take_bit_nat_eq_self)
      with False have "\<not> bit x m" by (metis bit_take_bit_iff)
      then show ?thesis by (simp add: bit_and_iff)
    qed
  qed
  then show ?thesis by (simp add: disjunctive_add_eq_or)
qed

lemma unat_v4_word:
  assumes "a < 256" and "b < 256" and "c < 256" and "d < 256"
  shows "unat (v4_word (a, b, c, d)) = a * 2 ^ 24 + b * 2 ^ 16 + c * 2 ^ 8 + d"
proof -
  have o: "or (or (or (a * 2 ^ 24) (b * 2 ^ 16)) (c * 2 ^ 8)) d = a * 2 ^ 24 + b * 2 ^ 16 + c * 2 ^ 8 + d"
    using assms
    by (simp add: or_disjoint [where k = 24 and y = a] or_disjoint [where k = 16 and y = "a * 256 + b"]
        or_disjoint [where k = 8 and y = "a * 65536 + b * 256 + c"])
  have "v4_word (a, b, c, d) = of_nat (or (or (or (a * 2 ^ 24) (b * 2 ^ 16)) (c * 2 ^ 8)) d)"
    by (simp add: v4_word_def of_nat_or_eq push_bit_eq_mult mult.commute or.assoc)
  then have w: "v4_word (a, b, c, d) = of_nat (a * 2 ^ 24 + b * 2 ^ 16 + c * 2 ^ 8 + d)" by (simp only: o)
  have "a * 2 ^ 24 + b * 2 ^ 16 + c * 2 ^ 8 + d < 2 ^ 32" using assms by simp
  then show ?thesis unfolding w by (subst unsigned_of_nat) (simp add: take_bit_nat_eq_self)
qed

lemma in_block_iff:
  assumes "unat w = n" and "unat net = m"
  shows "in_block (net, len) w \<longleftrightarrow> n div 2 ^ (32 - len) = m div 2 ^ (32 - len)"
proof -
  have "unat (drop_bit k x) = unat x div 2 ^ k" for k and x :: u32 by (simp add: unat_drop_bit_eq drop_bit_nat_def)
  then show ?thesis using assms unfolding in_block_def by (metis fst_conv snd_conv word_unat_eq_iff)
qed

lemma digits_eq_iff:
  assumes "y < n" and "y' < n"
  shows "a * n + y = a' * n + y' \<longleftrightarrow> a = a' \<and> y = (y' :: nat)"
proof
  assume e: "a * n + y = a' * n + y'"
  from arg_cong [OF e, of "\<lambda>z. z div n"] arg_cong [OF e, of "\<lambda>z. z mod n"] assms show "a = a' \<and> y = y'" by simp
qed simp

lemma div_is_one: "0 < k \<Longrightarrow> b div k = 1 \<longleftrightarrow> k \<le> b \<and> b < 2 * (k :: nat)"
  using less_eq_div_iff_mult_less_eq [of k 1 b] div_less_iff_less_mult [of k b 2] by auto

lemma private_blocks_iff:
  assumes "a < 256" and "b < 256" and "c < 256" and "d < 256"
  shows "list_ex (\<lambda>blk. in_block blk (v4_word (a, b, c, d))) private_blocks \<longleftrightarrow>
    a = 10 \<or> a = 172 \<and> 16 \<le> b \<and> b \<le> 31 \<or> a = 192 \<and> b = 168 \<or> a = 100 \<and> 64 \<le> b \<and> b \<le> 127 \<or>
    a = 169 \<and> b = 254 \<or> a = 127"
proof -
  note u = unat_v4_word [OF assms]
  let ?n = "a * 2 ^ 24 + b * 2 ^ 16 + c * 2 ^ 8 + d"
  have q: "?n div 2 ^ 24 = a" "?n div 2 ^ 20 = a * 16 + b div 16" "?n div 2 ^ 16 = a * 256 + b" "?n div 2 ^ 22 = a * 4 + b div 64"
    using assms by simp_all
  have blk: "in_block (net, len) (v4_word (a, b, c, d)) \<longleftrightarrow> ?n div 2 ^ (32 - len) = unat net div 2 ^ (32 - len)" for net len
    by (rule in_block_iff [OF u refl])
  from q have b1: "in_block (0x0A000000, 8) (v4_word (a, b, c, d)) \<longleftrightarrow> a = 10" by (simp add: blk)
  have "a * 16 + b div 16 = 2753 \<longleftrightarrow> a = 172 \<and> b div 16 = 1" using digits_eq_iff [of "b div 16" 16 1 a 172] assms(2) by simp
  moreover have "b div 16 = 1 \<longleftrightarrow> 16 \<le> b \<and> b \<le> 31" using div_is_one [of 16 b] by auto
  ultimately have "a * 16 + b div 16 = 2753 \<longleftrightarrow> a = 172 \<and> 16 \<le> b \<and> b \<le> 31" by simp
  with q have b2: "in_block (0xAC100000, 12) (v4_word (a, b, c, d)) \<longleftrightarrow> a = 172 \<and> 16 \<le> b \<and> b \<le> 31" by (simp add: blk)
  have "a * 256 + b = 49320 \<longleftrightarrow> a = 192 \<and> b = 168" using digits_eq_iff [of b 256 168 a 192] assms(2) by simp
  with q have b3: "in_block (0xC0A80000, 16) (v4_word (a, b, c, d)) \<longleftrightarrow> a = 192 \<and> b = 168" by (simp add: blk)
  have "a * 4 + b div 64 = 401 \<longleftrightarrow> a = 100 \<and> b div 64 = 1" using digits_eq_iff [of "b div 64" 4 1 a 100] assms(2) by simp
  moreover have "b div 64 = 1 \<longleftrightarrow> 64 \<le> b \<and> b \<le> 127" using div_is_one [of 64 b] by auto
  ultimately have "a * 4 + b div 64 = 401 \<longleftrightarrow> a = 100 \<and> 64 \<le> b \<and> b \<le> 127" by simp
  with q have b4: "in_block (0x64400000, 10) (v4_word (a, b, c, d)) \<longleftrightarrow> a = 100 \<and> 64 \<le> b \<and> b \<le> 127" by (simp add: blk)
  have "a * 256 + b = 43518 \<longleftrightarrow> a = 169 \<and> b = 254" using digits_eq_iff [of b 256 254 a 169] assms(2) by simp
  with q have b5: "in_block (0xA9FE0000, 16) (v4_word (a, b, c, d)) \<longleftrightarrow> a = 169 \<and> b = 254" by (simp add: blk)
  from q have b6: "in_block (0x7F000000, 8) (v4_word (a, b, c, d)) \<longleftrightarrow> a = 127" by (simp add: blk)
  show ?thesis by (simp only: private_blocks_def list.pred_inject list_ex_iff list.set b1 b2 b3 b4 b5 b6 simp_thms disj_assoc bex_empty Set.bex_simps(5,7))
qed

text \<open>An address counts as private exactly when it is a dotted quad (with a prefix length or a port after it, or not)
  in one of the blocks 10/8, 172.16/12, 192.168/16, 100.64/10, 169.254/16 and 127/8.\<close>

theorem private_ranges:
  "isPrivateV4 s \<longleftrightarrow>
    (\<exists>q. parseV4 s = Some q \<and> list_ex (\<lambda>blk. in_block blk (v4_word q)) private_blocks)"
proof (cases "parseV4 s")
  case (Some q)
  obtain a b c d where q: "q = (a, b, c, d)" by (cases q)
  from parseV4_bound [OF Some [unfolded q]] have b: "a < 256" "b < 256" "c < 256" "d < 256" by simp_all
  from private_blocks_iff [OF b] show ?thesis by (simp add: isPrivateV4_def Some q)
qed (simp add: isPrivateV4_def)

end
