(* ===== verification/Topology_Sase.thy ===== *)
theory Topology_Sase
  imports Ngfw_Model Ipc_Codec
begin

text \<open>
  The first half of the topology daemon's composition (\<^verbatim>\<open>topologyd/service/topology/TopologyService.cpp\<close>):
  what the two halves share (the role of a collected endpoint, the streams of a device, the newest sample of
  each stream, site names) and the picture of the SASE tenants. The rows of the database, the two
  configuration sections and the JSON library are fields of \<open>topo_env\<close>; an exception that leaves a function
  is a \<open>Thrown\<close>, the library's failed assertion an \<open>Aborted\<close>.
\<close>

datatype topo_error = Thrown json_error | Aborted

record topo_env =
  tn_now_rows :: "string list list option"
  tn_sample_rows :: "string list list option"
  tn_sase_rows :: "string list list option"
  tn_ngfw_rows :: "string list list option"
  tn_site :: json
  tn_connector :: json
  tn_parse :: "string \<Rightarrow> json option"
  tn_print :: "json \<Rightarrow> string"
  tn_dump :: "json \<Rightarrow> json_error + string"

text \<open>A loop whose body may throw.\<close>

fun for_each :: "('a \<Rightarrow> 's \<Rightarrow> 'e + 's) \<Rightarrow> 'a list \<Rightarrow> 's \<Rightarrow> 'e + 's" where
  "for_each f [] s = Inr s"
| "for_each f (x # xs) s = bind_err (f x s) (for_each f xs)"

lemma for_each_preserves:
  assumes "for_each f xs s = Inr t" and "P s"
    and "\<And>x s s'. x \<in> set xs \<Longrightarrow> P s \<Longrightarrow> f x s = Inr s' \<Longrightarrow> P s'"
  shows "P t"
  using assms
proof (induction xs arbitrary: s)
  case (Cons x xs)
  from Cons.prems(1) obtain s' where s': "f x s = Inr s'" "for_each f xs s' = Inr t" by (auto simp: bind_err_Inr_iff)
  have "P s'" by (rule Cons.prems(3) [OF _ Cons.prems(2) s'(1)]) simp
  then show ?case by (rule Cons.IH [OF s'(2)]) (rule Cons.prems(3), simp_all)
qed simp

text \<open>What a loop collects is what its steps collect, in order.\<close>

lemma for_each_collects:
  assumes "for_each f xs s = Inr t"
    and "\<And>x s s'. x \<in> set xs \<Longrightarrow> f x s = Inr s' \<Longrightarrow> got s' = got s @ g x"
  shows "got t = got s @ concat (map g xs)"
  using assms
proof (induction xs arbitrary: s)
  case (Cons x xs)
  from Cons.prems(1) obtain s' where s': "f x s = Inr s'" "for_each f xs s' = Inr t" by (auto simp: bind_err_Inr_iff)
  with Cons.prems(2) have "got s' = got s @ g x" by simp
  with Cons.IH [OF s'(2)] Cons.prems(2) show ?case by simp
qed simp

subsection \<open>What a sample is for\<close>

datatype role =
    RoleNone | ZtnaGroups | ZtnaConnectors | NgfwInterfaces | NgfwTunnels | NgfwIke | NgfwTunnelIfs
  | NgfwGpPortals | NgfwGpGateways

definition contains :: "string \<Rightarrow> string \<Rightarrow> bool" where
  "contains hay needle \<longleftrightarrow> str_find (lower needle) (lower hay) \<noteq> None"

definition role_of_path :: "string \<Rightarrow> string \<Rightarrow> role" where
  "role_of_path deviceType path =
     (if deviceType = ''sase'' then
        (if contains path ''connector-groups'' then ZtnaGroups
         else if contains path ''/connectors'' then ZtnaConnectors else RoleNone)
      else if contains path ''GlobalProtectPortals'' then NgfwGpPortals
      else if contains path ''GlobalProtectGateways'' then NgfwGpGateways
      else if contains path ''IKEGateway'' \<or> contains path ''ike-gateway'' then NgfwIke
      else if contains path ''TunnelInterfaces'' then NgfwTunnelIfs
      else if contains path ''IPSecTunnels'' \<or> contains path ''ipsec'' then NgfwTunnels
      else if contains path ''EthernetInterfaces'' \<or> contains path ''ethernet'' then NgfwInterfaces
      else RoleNone)"

definition roleOf :: "json \<Rightarrow> json_error + role" where
  "roleOf ep =
     bind_err (jvalue get_str ''device_type'' ''ngfw'' ep) (\<lambda>deviceType.
     bind_err (jvalue get_str ''path'' [] ep) (\<lambda>path. Inr (role_of_path deviceType path)))"

definition dataOf :: "json \<Rightarrow> json list" where
  "dataOf doc = (case jfind ''data'' doc of Some (JArr xs) \<Rightarrow> xs | _ \<Rightarrow> [])"

subsection \<open>Sites, samples and streams\<close>

definition site_entry :: "json \<Rightarrow> (string \<times> string) list \<Rightarrow> json_error + (string \<times> string) list" where
  "site_entry s out =
     (if \<not> is_object s then Inr out
      else bind_err (jvalue get_str ''oid'' [] s) (\<lambda>oid.
        if oid = [] then Inr out
        else bind_err (jvalue get_str ''name'' [] s) (\<lambda>name. Inr (out @ [(oid, name)]))))"

definition site_entries :: "topo_env \<Rightarrow> json_error + (string \<times> string) list" where
  "site_entries env =
     bind_err (jvalue get_json ''sites'' (JArr []) (tn_site env)) (\<lambda>sites. for_each site_entry (jiterate sites) [])"

text \<open>A later entry with the same identifier wins.\<close>

definition siteNames :: "topo_env \<Rightarrow> json_error + (string \<rightharpoonup> string)" where
  "siteNames env = bind_err (site_entries env) (\<lambda>es. Inr (map_of (rev es)))"

definition name_or_empty :: "(string \<rightharpoonup> string) \<Rightarrow> string \<Rightarrow> string" where
  "name_or_empty m k = (case m k of None \<Rightarrow> [] | Some v \<Rightarrow> v)"

record collected_sample =
  cs_body :: string
  cs_at :: string
  cs_ok :: bool

type_synonym sample_map = "string \<rightharpoonup> collected_sample"

definition stream_key :: "string \<Rightarrow> string \<Rightarrow> string" where
  "stream_key connectorOid endpointOid = connectorOid @ [CHR 0x1F] @ endpointOid"

definition put_sample :: "string list \<Rightarrow> sample_map \<Rightarrow> sample_map" where
  "put_sample r out =
     (if length r < 5 then out
      else out(stream_key (r ! 0) (r ! 1) \<mapsto> \<lparr>cs_body = r ! 4, cs_at = r ! 2, cs_ok = (r ! 3 = ''1'')\<rparr>))"

text \<open>Without an answer of the database there are no samples.\<close>

definition latestSamples :: "topo_env \<Rightarrow> sample_map" where
  "latestSamples env = (case tn_sample_rows env of None \<Rightarrow> Map.empty | Some rows \<Rightarrow> fold put_sample rows Map.empty)"

record stream =
  st_connectorOid :: string
  st_endpointOid :: string
  st_endpoint :: json

definition put_endpoint :: "json \<Rightarrow> (string \<rightharpoonup> json) \<Rightarrow> json_error + (string \<rightharpoonup> json)" where
  "put_endpoint e m =
     (if \<not> is_object e then Inr m
      else bind_err (jvalue get_str ''oid'' [] e) (\<lambda>oid. Inr (if oid = [] then m else m(oid \<mapsto> e))))"

definition item_stream :: "(string \<rightharpoonup> json) \<Rightarrow> string \<Rightarrow> json \<Rightarrow> stream list \<Rightarrow> json_error + stream list" where
  "item_stream endpoints connectorOid i out =
     (if \<not> is_object i then Inr out
      else bind_err (jvalue get_bool ''enabled'' True i) (\<lambda>enabled.
        if \<not> enabled then Inr out
        else bind_err (jvalue get_str ''endpoint'' [] i) (\<lambda>endpointOid.
          Inr (case endpoints endpointOid of
                 Some ep \<Rightarrow> if endpointOid = [] then out
                   else out @ [\<lparr>st_connectorOid = connectorOid, st_endpointOid = endpointOid, st_endpoint = ep\<rparr>]
               | None \<Rightarrow> out))))"

text \<open>The connector's own identifier, or its \<^verbatim>\<open>uuid\<close>, which is read in any case.\<close>

definition connector_streams :: "(string \<rightharpoonup> json) \<Rightarrow> string \<Rightarrow> json \<Rightarrow> stream list \<Rightarrow> json_error + stream list" where
  "connector_streams endpoints deviceOid c out =
     (if \<not> is_object c then Inr out
      else bind_err (jvalue get_str ''object'' [] c) (\<lambda>device.
        if device \<noteq> deviceOid then Inr out
        else bind_err (jvalue get_str ''uuid'' [] c) (\<lambda>uuid.
          bind_err (jvalue get_str ''oid'' uuid c) (\<lambda>connectorOid.
          bind_err (jvalue get_json ''items'' (JArr []) c) (\<lambda>items.
            for_each (item_stream endpoints connectorOid) (jiterate items) out)))))"

definition streamsForDevice :: "topo_env \<Rightarrow> string \<Rightarrow> json_error + stream list" where
  "streamsForDevice env deviceOid =
     bind_err (jvalue get_json ''endpoints'' (JArr []) (tn_connector env)) (\<lambda>es.
     bind_err (for_each put_endpoint (jiterate es) Map.empty) (\<lambda>endpoints.
     bind_err (jvalue get_json ''connectors'' (JArr []) (tn_connector env)) (\<lambda>cs.
       for_each (connector_streams endpoints deviceOid) (jiterate cs) [])))"

definition parseBody :: "topo_env \<Rightarrow> collected_sample \<Rightarrow> json" where
  "parseBody env s =
     (if \<not> cs_ok s \<or> cs_body s = [] then JObj []
      else case tn_parse env (cs_body s) of None \<Rightarrow> JObj [] | Some doc \<Rightarrow> doc)"

subsection \<open>Devices\<close>

text \<open>The rows of a device table by identifier; a short row or one without an identifier is left out.\<close>

definition put_row :: "nat \<Rightarrow> string list \<Rightarrow> (string \<rightharpoonup> string list) \<Rightarrow> string \<rightharpoonup> string list" where
  "put_row n r m = (if length r < n \<or> r ! 0 = [] then m else m(r ! 0 \<mapsto> r))"

definition device_rows :: "nat \<Rightarrow> string list list option \<Rightarrow> string \<rightharpoonup> string list" where
  "device_rows n rows = (case rows of None \<Rightarrow> Map.empty | Some rs \<Rightarrow> fold (put_row n) rs Map.empty)"

definition column :: "nat \<Rightarrow> string list option \<Rightarrow> string" where
  "column i row = (case row of None \<Rightarrow> [] | Some r \<Rightarrow> r ! i)"

text \<open>
  A declared device of the asked site (every site when none is asked for): its identifier and its site. An
  entry that is no object, that has no identifier or that is in another site is passed over.
\<close>

definition device_in_site :: "string \<Rightarrow> json \<Rightarrow> json_error + (string \<times> string) option" where
  "device_in_site siteOid d =
     (if \<not> is_object d then Inr None
      else bind_err (jvalue get_str ''oid'' [] d) (\<lambda>oid.
        bind_err (jvalue get_str ''site'' [] d) (\<lambda>devSite.
          Inr (if oid = [] \<or> (siteOid \<noteq> [] \<and> devSite \<noteq> siteOid) then None else Some (oid, devSite)))))"

definition common_members :: "(string \<rightharpoonup> string) \<Rightarrow> json \<Rightarrow> string \<Rightarrow> string \<Rightarrow> json_error + (string \<times> json) list" where
  "common_members names d oid devSite =
     bind_err (jvalue get_str ''name'' [] d) (\<lambda>name.
     bind_err (jvalue get_str ''target'' [] d) (\<lambda>target.
       Inr [(''oid'', JStr oid), (''name'', JStr name), (''site'', JStr devSite),
            (''site_name'', JStr (name_or_empty names devSite)), (''target'', JStr target)]))"

subsection \<open>The SASE half\<close>

record ztna =
  zt_groups :: "json list"
  zt_connectors :: "json list"
  zt_collected_at :: string
  zt_streams :: nat

definition ztna_new :: ztna where
  "ztna_new = \<lparr>zt_groups = [], zt_connectors = [], zt_collected_at = [], zt_streams = 0\<rparr>"

text \<open>\<^verbatim>\<open>at < cur\<close> of two strings: by bytes, a proper prefix first.\<close>

fun string_less :: "string \<Rightarrow> string \<Rightarrow> bool" where
  "string_less _ [] = False"
| "string_less [] (d # ds) = True"
| "string_less (c # cs) (d # ds) = (of_char c < (of_char d :: nat) \<or> c = d \<and> string_less cs ds)"

definition ztna_stream :: "topo_env \<Rightarrow> sample_map \<Rightarrow> stream \<Rightarrow> ztna \<Rightarrow> json_error + ztna" where
  "ztna_stream env samples s z =
     bind_err (roleOf (st_endpoint s)) (\<lambda>role.
       if role \<noteq> ZtnaGroups \<and> role \<noteq> ZtnaConnectors then Inr z
       else case samples (stream_key (st_connectorOid s) (st_endpointOid s)) of None \<Rightarrow> Inr z
         | Some smp \<Rightarrow>
             let rows = dataOf (parseBody env smp);
                 z = (if role = ZtnaGroups then z\<lparr>zt_groups := rows\<rparr> else z\<lparr>zt_connectors := rows\<rparr>);
                 at = cs_at smp; cur = zt_collected_at z in
             Inr (z\<lparr>zt_streams := zt_streams z + 1,
                    zt_collected_at := (if cur = [] \<or> (at \<noteq> [] \<and> string_less at cur) then at else cur)\<rparr>))"

definition group_names :: "(json \<Rightarrow> string) \<Rightarrow> json list \<Rightarrow> (string \<times> json) list" where
  "group_names D groups =
     fold (\<lambda>g m. if is_object g \<and> jstr D g ''oid'' \<noteq> []
                 then AList.update (jstr D g ''oid'') (JStr (jstr D g ''name'')) m else m) groups []"

text \<open>The fabric's own document of a tenant: null without a row, without a result, or when it does not parse.\<close>

definition egress_of :: "topo_env \<Rightarrow> string list option \<Rightarrow> json" where
  "egress_of env row =
     (let raw = column 6 row in
      if raw = [] then JNull else case tn_parse env raw of None \<Rightarrow> JNull | Some j \<Rightarrow> j)"

record sase_half =
  sh_tenants :: "json list"
  sh_ztnaStreams :: nat

definition sase_tenant ::
  "topo_env \<Rightarrow> string \<Rightarrow> sample_map \<Rightarrow> (string \<rightharpoonup> string) \<Rightarrow> json \<Rightarrow> sase_half \<Rightarrow> json_error + sase_half" where
  "sase_tenant env siteOid samples names d h =
     bind_err (device_in_site siteOid d) (\<lambda>here.
       case here of None \<Rightarrow> Inr h
       | Some (oid, devSite) \<Rightarrow>
           bind_err (common_members names d oid devSite) (\<lambda>common.
           bind_err (streamsForDevice env oid) (\<lambda>streams.
           bind_err (for_each (ztna_stream env samples) streams ztna_new) (\<lambda>z.
             let row = device_rows 7 (tn_sase_rows env) oid in
             Inr \<lparr>sh_tenants = sh_tenants h @ [JObj (common @
                    [(''status'', JStr (column 4 row)), (''last_seen'', JStr (column 5 row)),
                     (''egress'', egress_of env row),
                     (''ztna'', JObj [(''groups'', JArr (zt_groups z)), (''connectors'', JArr (zt_connectors z)),
                        (''collected_at'', JStr (zt_collected_at z)),
                        (''group_names'', JObj (group_names (tn_print env) (zt_groups z)))])])],
                  sh_ztnaStreams = sh_ztnaStreams h + zt_streams z\<rparr>))))"

definition composeSase :: "topo_env \<Rightarrow> string \<Rightarrow> sample_map \<Rightarrow> json_error + json \<times> (string \<times> json) list" where
  "composeSase env siteOid samples =
     bind_err (siteNames env) (\<lambda>names.
     bind_err (jvalue get_json ''sase_devices'' (JArr []) (tn_site env)) (\<lambda>devices.
     bind_err (for_each (sase_tenant env siteOid samples names) (jiterate devices) \<lparr>sh_tenants = [], sh_ztnaStreams = 0\<rparr>) (\<lambda>h.
       Inr (JObj [(''tenants'', JArr (sh_tenants h))],
            [(''sase_tenants'', JInt (int (length (sh_tenants h)))), (''ztna_streams'', JInt (int (sh_ztnaStreams h)))]))))"

subsection \<open>A site's devices\<close>

text \<open>The declared devices a composition for a site has to show, in order.\<close>

definition shown_device :: "string \<Rightarrow> json \<Rightarrow> (string \<times> string) list" where
  "shown_device siteOid d = (case device_in_site siteOid d of Inr (Some x) \<Rightarrow> [x] | _ \<Rightarrow> [])"

definition device_of :: "json \<Rightarrow> (string \<times> string) option" where
  "device_of t = (case (jfind ''oid'' t, jfind ''site'' t) of (Some (JStr oid), Some (JStr s)) \<Rightarrow> Some (oid, s) | _ \<Rightarrow> None)"

lemma device_in_site_Some:
  "device_in_site siteOid d = Inr (Some (oid, s)) \<longleftrightarrow>
     is_object d \<and> jvalue get_str ''oid'' [] d = Inr oid \<and> jvalue get_str ''site'' [] d = Inr s \<and>
     oid \<noteq> [] \<and> (siteOid \<noteq> [] \<longrightarrow> s = siteOid)"
  by (auto simp: device_in_site_def bind_err_Inr_iff)

lemma shown_device_iff: "(oid, s) \<in> set (shown_device siteOid d) \<longleftrightarrow> device_in_site siteOid d = Inr (Some (oid, s))"
  by (auto simp: shown_device_def split: sum.splits option.splits)

lemma common_members_device: "common_members names d oid s = Inr ms \<Longrightarrow> device_of (JObj (ms @ more')) = Some (oid, s)"
  by (auto simp: common_members_def bind_err_Inr_iff device_of_def)

lemma sase_tenant_shows:
  assumes "sase_tenant env siteOid samples names d h = Inr h'"
  shows "map device_of (sh_tenants h') = map device_of (sh_tenants h) @ map Some (shown_device siteOid d)"
proof -
  from assms obtain here where here: "device_in_site siteOid d = Inr here" by (auto simp: sase_tenant_def bind_err_Inr_iff)
  show ?thesis
  proof (cases here)
    case None
    with here assms show ?thesis by (simp add: sase_tenant_def shown_device_def)
  next
    case (Some x)
    with here assms show ?thesis
      by (cases x) (auto simp: sase_tenant_def bind_err_Inr_iff shown_device_def common_members_device Let_def)
  qed
qed

end
