(* ===== verification/Topology_Ngfw.thy ===== *)
theory Topology_Ngfw
  imports Topology_Sase
begin

text \<open>
  The second half of the topology daemon's composition (\<^verbatim>\<open>TopologyService::composeNgfw\<close>): the firewalls with
  their interfaces and the interfaces' roles, the tunnels joined to their gateways' peers, the links, and the
  shape of the whole, which end is the hub.
\<close>

subsection \<open>Documents\<close>

text \<open>The newest document of each kind and when it was collected; a document that did not come is null.\<close>

record fw_docs =
  fd_ifDoc :: json
  fd_tunDoc :: json
  fd_ikeDoc :: json
  fd_tunIfDoc :: json
  fd_portalDoc :: json
  fd_gwDoc :: json
  fd_ifAt :: "string option"
  fd_tunAt :: "string option"
  fd_ikeAt :: "string option"
  fd_gpAt :: "string option"

definition fw_docs_new :: fw_docs where
  "fw_docs_new = \<lparr>fd_ifDoc = JNull, fd_tunDoc = JNull, fd_ikeDoc = JNull, fd_tunIfDoc = JNull, fd_portalDoc = JNull,
     fd_gwDoc = JNull, fd_ifAt = None, fd_tunAt = None, fd_ikeAt = None, fd_gpAt = None\<rparr>"

record counts =
  ct_ifStreams :: nat
  ct_tunStreams :: nat
  ct_ikeStreams :: nat
  ct_gpStreams :: nat

definition counts_new :: counts where
  "counts_new = \<lparr>ct_ifStreams = 0, ct_tunStreams = 0, ct_ikeStreams = 0, ct_gpStreams = 0\<rparr>"

text \<open>A gateway document only dates the part when nothing has dated it yet.\<close>

definition file_doc :: "role \<Rightarrow> json \<Rightarrow> string \<Rightarrow> fw_docs \<times> counts \<Rightarrow> fw_docs \<times> counts" where
  "file_doc role doc at dc =
     (case dc of (ds, c) \<Rightarrow>
        (case role of
           NgfwInterfaces \<Rightarrow> (ds\<lparr>fd_ifDoc := doc, fd_ifAt := Some at\<rparr>, c\<lparr>ct_ifStreams := ct_ifStreams c + 1\<rparr>)
         | NgfwTunnels \<Rightarrow> (ds\<lparr>fd_tunDoc := doc, fd_tunAt := Some at\<rparr>, c\<lparr>ct_tunStreams := ct_tunStreams c + 1\<rparr>)
         | NgfwIke \<Rightarrow> (ds\<lparr>fd_ikeDoc := doc, fd_ikeAt := Some at\<rparr>, c\<lparr>ct_ikeStreams := ct_ikeStreams c + 1\<rparr>)
         | NgfwTunnelIfs \<Rightarrow> (ds\<lparr>fd_tunIfDoc := doc\<rparr>, c)
         | NgfwGpPortals \<Rightarrow> (ds\<lparr>fd_portalDoc := doc, fd_gpAt := Some at\<rparr>, c\<lparr>ct_gpStreams := ct_gpStreams c + 1\<rparr>)
         | NgfwGpGateways \<Rightarrow>
             (ds\<lparr>fd_gwDoc := doc,
                 fd_gpAt := (case fd_gpAt ds of None \<Rightarrow> Some at | Some t \<Rightarrow> if t = [] then Some at else Some t)\<rparr>,
              c\<lparr>ct_gpStreams := ct_gpStreams c + 1\<rparr>)
         | _ \<Rightarrow> (ds, c)))"

definition fw_stream :: "topo_env \<Rightarrow> sample_map \<Rightarrow> stream \<Rightarrow> fw_docs \<times> counts \<Rightarrow> json_error + fw_docs \<times> counts" where
  "fw_stream env samples s dc =
     bind_err (roleOf (st_endpoint s)) (\<lambda>role.
       if role = RoleNone \<or> role = ZtnaGroups \<or> role = ZtnaConnectors then Inr dc
       else case samples (stream_key (st_connectorOid s) (st_endpointOid s)) of None \<Rightarrow> Inr dc
         | Some smp \<Rightarrow> Inr (file_doc role (parseBody env smp) (cs_at smp) dc))"

definition or_blank :: "string option \<Rightarrow> string" where
  "or_blank t = (case t of None \<Rightarrow> [] | Some s \<Rightarrow> s)"

subsection \<open>Interfaces\<close>

definition join_comma :: "string list \<Rightarrow> string" where
  "join_comma ss = foldl (\<lambda>acc a. acc @ (if acc = [] then [] else '', '') @ a) [] ss"

text \<open>How many of the named things sit on an interface; a thing without an interface is not counted.\<close>

definition count_on :: "string list \<Rightarrow> string \<Rightarrow> nat" where
  "count_on names name = count_list (filter (\<lambda>n. n \<noteq> []) names) name"

definition starts_with :: "string \<Rightarrow> string \<Rightarrow> bool" where
  "starts_with p s \<longleftrightarrow> take (length p) s = p"

definition if_role_of :: "string \<Rightarrow> string list \<Rightarrow> bool \<Rightarrow> if_role" where
  "if_role_of name addrs terminates =
     (if starts_with ''loopback'' name then IfLoopback
      else if starts_with ''tunnel'' name then IfTunnel
      else if addrs \<noteq> [] then
        (if list_ex (\<lambda>a. \<not> isPrivateV4 a) addrs then IfWan else if terminates then IfEdge else IfLan)
      else if terminates then IfEdge else IfUnknown)"

record if_part =
  ip_list :: "json list"
  ip_up :: nat
  ip_down :: nat
  ip_withIp :: nat
  ip_wan :: nat
  ip_edge :: nat
  ip_lan :: nat

definition if_part_new :: if_part where
  "if_part_new = \<lparr>ip_list = [], ip_up = 0, ip_down = 0, ip_withIp = 0, ip_wan = 0, ip_edge = 0, ip_lan = 0\<rparr>"

definition interface_row ::
  "string \<Rightarrow> string list \<Rightarrow> string \<Rightarrow> string \<Rightarrow> string \<Rightarrow> nat \<Rightarrow> nat \<Rightarrow> string \<Rightarrow> json" where
  "interface_row name addrs mode comment role vpn gp state =
     JObj [(''name'', JStr name), (''ip'', JStr (join_comma addrs)), (''addresses'', JArr (map JStr addrs)),
       (''mode'', JStr mode), (''comment'', JStr comment), (''role'', JStr role), (''vpn_count'', JInt (int vpn)),
       (''gp_count'', JInt (int gp)), (''admin_state'', JStr state)]"

definition add_interface :: "(json \<Rightarrow> string) \<Rightarrow> string list \<Rightarrow> string list \<Rightarrow> json \<Rightarrow> if_part \<Rightarrow> if_part" where
  "add_interface D vpnOn gpOn e p =
     (if \<not> is_object e then p
      else
        let name = jstr D e ''@name''; addrs = interfaceAddresses D e; state = adminState D e;
            role = if_role_of name addrs (count_on vpnOn name > 0 \<or> count_on gpOn name > 0) in
        p\<lparr>ip_down := ip_down p + of_bool (state = ''down''), ip_up := ip_up p + of_bool (state \<noteq> ''down''),
          ip_withIp := ip_withIp p + of_bool (addrs \<noteq> []), ip_wan := ip_wan p + of_bool (role = IfWan),
          ip_edge := ip_edge p + of_bool (role = IfEdge), ip_lan := ip_lan p + of_bool (role = IfLan),
          ip_list := ip_list p @ [interface_row name addrs (interfaceMode e) (jstr D e ''comment'') (ifRoleName role)
            (count_on vpnOn name) (count_on gpOn name) state]\<rparr>)"

definition add_tunnel_interface :: "(json \<Rightarrow> string) \<Rightarrow> json \<Rightarrow> if_part \<Rightarrow> if_part" where
  "add_tunnel_interface D e p =
     (if \<not> is_object e then p
      else p\<lparr>ip_list := ip_list p @ [interface_row (jstr D e ''@name'') (interfaceAddresses D e) ''tunnel''
               (jstr D e ''comment'') ''tunnel'' 0 0 (adminState D e)]\<rparr>)"

definition interfaces_json :: "if_part \<Rightarrow> string option \<Rightarrow> json" where
  "interfaces_json p at =
     JObj [(''list'', JArr (ip_list p)), (''total'', JInt (int (length (ip_list p)))), (''up'', JInt (int (ip_up p))),
       (''down'', JInt (int (ip_down p))), (''with_ip'', JInt (int (ip_withIp p))), (''wan'', JInt (int (ip_wan p))),
       (''edge'', JInt (int (ip_edge p))), (''lan'', JInt (int (ip_lan p))),
       (''collected_at'', JStr (or_blank at)), (''collected'', JBool (at \<noteq> None))]"

subsection \<open>Tunnels\<close>

definition peer_json :: "peer \<Rightarrow> json" where
  "peer_json p =
     JObj [(''kind'', JStr (peerKindName (pe_kind p))), (''addr'', JStr (pe_addr p)), (''label'', JStr (pe_label p)),
       (''region'', JStr (pe_region p)), (''tenant'', JStr (pe_tenant p))]"

text \<open>The names a tunnel gives of its gateways, joined, and its crypto profile.\<close>

definition auto_key_of :: "(json \<Rightarrow> string) \<Rightarrow> json \<Rightarrow> string \<times> string" where
  "auto_key_of D e =
     (case jfind ''auto-key'' e of
        Some (JObj ak) \<Rightarrow>
          ((case map_of ak ''ike-gateway'' of None \<Rightarrow> []
            | Some gws \<Rightarrow> join_comma (filter (\<lambda>n. n \<noteq> []) (map (\<lambda>g. jstr D g ''@name'') (entriesOf gws)))),
           jstr D (JObj ak) ''ipsec-crypto-profile'')
      | _ \<Rightarrow> ([], []))"

record tun_part =
  tp_list :: "json list"
  tp_enabled :: nat
  tp_disabled :: nat
  tp_tunnelOfGateway :: "string \<rightharpoonup> string"

definition tun_part_new :: tun_part where
  "tun_part_new = \<lparr>tp_list = [], tp_enabled = 0, tp_disabled = 0, tp_tunnelOfGateway = Map.empty\<rparr>"

definition add_tunnel :: "(json \<Rightarrow> string) \<Rightarrow> (string \<rightharpoonup> peer) \<Rightarrow> json \<Rightarrow> tun_part \<Rightarrow> tun_part" where
  "add_tunnel D peerOf e p =
     (if \<not> is_object e then p
      else
        let gateway = fst (auto_key_of D e); crypto = snd (auto_key_of D e);
            dis = jstr D e ''disabled''; off = (dis = ''yes'' \<or> dis = ''true'');
            monitor = (case jfind ''tunnel-monitor'' e of Some (JObj m) \<Rightarrow> jstr D (JObj m) ''enable'' | _ \<Rightarrow> []);
            tunName = jstr D e ''@name'' in
        p\<lparr>tp_disabled := tp_disabled p + of_bool off, tp_enabled := tp_enabled p + of_bool (\<not> off),
          tp_tunnelOfGateway :=
            (if gateway \<noteq> [] then (tp_tunnelOfGateway p)(gateway \<mapsto> tunName) else tp_tunnelOfGateway p),
          tp_list := tp_list p @ [JObj [(''name'', JStr tunName), (''interface'', JStr (jstr D e ''tunnel-interface'')),
            (''gateway'', JStr gateway), (''crypto'', JStr crypto), (''monitor'', JStr monitor),
            (''peer'', case peerOf gateway of None \<Rightarrow> JNull | Some pe \<Rightarrow> peer_json pe), (''enabled'', JBool (\<not> off))]]\<rparr>)"

definition tunnels_json :: "tun_part \<Rightarrow> string option \<Rightarrow> json" where
  "tunnels_json p at =
     JObj [(''list'', JArr (tp_list p)), (''total'', JInt (int (length (tp_list p)))),
       (''enabled'', JInt (int (tp_enabled p))), (''disabled'', JInt (int (tp_disabled p))),
       (''collected_at'', JStr (or_blank at)), (''collected'', JBool (at \<noteq> None))]"

subsection \<open>Links\<close>

record link =
  ln_device :: string
  ln_device_name :: string
  ln_site :: string
  ln_interface :: string
  ln_local_ip :: string
  ln_gateway :: string
  ln_tunnel :: string
  ln_kind :: peer_kind
  ln_peer :: string
  ln_label :: string
  ln_region :: string
  ln_tenant :: string

definition link_json :: "link \<Rightarrow> json" where
  "link_json l =
     JObj [(''device'', JStr (ln_device l)), (''device_name'', JStr (ln_device_name l)), (''site'', JStr (ln_site l)),
       (''interface'', JStr (ln_interface l)), (''local_ip'', JStr (ln_local_ip l)), (''gateway'', JStr (ln_gateway l)),
       (''tunnel'', JStr (ln_tunnel l)), (''kind'', JStr (peerKindName (ln_kind l))), (''peer'', JStr (ln_peer l)),
       (''label'', JStr (ln_label l)), (''region'', JStr (ln_region l)), (''tenant'', JStr (ln_tenant l))]"

text \<open>The edge a gateway stands for: none when its peer is unknown or has no address.\<close>

definition link_of :: "string \<Rightarrow> string \<Rightarrow> string \<Rightarrow> (string \<rightharpoonup> string) \<Rightarrow> ike_gateway \<Rightarrow> link list" where
  "link_of oid name devSite tunnelOf g =
     (let pe = ig_peer g in
      if pe_kind pe = PeerUnknown \<or> pe_addr pe = [] then []
      else [\<lparr>ln_device = oid, ln_device_name = name, ln_site = devSite, ln_interface = ig_interfaceName g,
              ln_local_ip = ig_localIp g, ln_gateway = ig_name g, ln_tunnel = name_or_empty tunnelOf (ig_name g),
              ln_kind = pe_kind pe, ln_peer = pe_addr pe, ln_label = pe_label pe, ln_region = pe_region pe,
              ln_tenant = pe_tenant pe\<rparr>])"

definition ike_row :: "ike_gateway \<Rightarrow> json" where
  "ike_row g =
     JObj [(''name'', JStr (ig_name g)), (''interface'', JStr (ig_interfaceName g)), (''local_ip'', JStr (ig_localIp g)),
       (''version'', JStr (ig_version g)), (''peer'', peer_json (ig_peer g))]"

definition ike_json :: "ike_gateway list \<Rightarrow> string option \<Rightarrow> json" where
  "ike_json gs at =
     JObj [(''list'', JArr (map ike_row gs)), (''total'', JInt (int (length gs))),
       (''collected_at'', JStr (or_blank at)), (''collected'', JBool (at \<noteq> None))]"

definition portal_row :: "gp_portal \<Rightarrow> json" where
  "portal_row p =
     JObj [(''name'', JStr (gp_name p)), (''interface'', JStr (gp_interfaceName p)), (''local_ip'', JStr (gp_localIp p)),
       (''gateways'', JArr (map JStr (gp_gateways p)))]"

definition gateway_row :: "gp_gateway \<Rightarrow> json" where
  "gateway_row g =
     JObj [(''name'', JStr (gw_name g)), (''interface'', JStr (gw_interfaceName g)), (''local_ip'', JStr (gw_localIp g)),
       (''tunnel_mode'', JBool (gw_tunnelMode g)), (''pools'', JArr (map JStr (gw_pools g)))]"

definition gp_json :: "gp_portal list \<Rightarrow> gp_gateway list \<Rightarrow> string option \<Rightarrow> json" where
  "gp_json ps gs at =
     JObj [(''portals'', JArr (map portal_row ps)), (''gateways'', JArr (map gateway_row gs)),
       (''collected_at'', JStr (or_blank at)), (''collected'', JBool (at \<noteq> None))]"

subsection \<open>A firewall\<close>

text \<open>What a firewall's documents say: the members of the picture and the links. \<open>None\<close> is the failed assertion of the portal reader.\<close>

definition fw_picture ::
  "(json \<Rightarrow> string) \<Rightarrow> string \<Rightarrow> string \<Rightarrow> string \<Rightarrow> fw_docs \<Rightarrow> ((string \<times> json) list \<times> link list) option" where
  "fw_picture D oid name devSite ds =
     (let ikeGws = readIkeGateways D (fd_ikeDoc ds); gateways = readGpGateways D (fd_gwDoc ds) in
      map_option (\<lambda>portals.
        let vpnOn = map ig_interfaceName ikeGws;
            gpOn = map gp_interfaceName portals @ map gw_interfaceName gateways;
            ifs = fold (add_interface D vpnOn gpOn) (entriesOf (fd_ifDoc ds)) if_part_new;
            ifs = fold (add_tunnel_interface D) (entriesOf (fd_tunIfDoc ds)) ifs;
            peerOf = map_of (rev (map (\<lambda>g. (ig_name g, ig_peer g)) ikeGws));
            tuns = fold (add_tunnel D peerOf) (entriesOf (fd_tunDoc ds)) tun_part_new in
        ([(''interfaces'', interfaces_json ifs (fd_ifAt ds)), (''tunnels'', tunnels_json tuns (fd_tunAt ds)),
          (''ike'', ike_json ikeGws (fd_ikeAt ds)), (''gp'', gp_json portals gateways (fd_gpAt ds))],
         concat (map (link_of oid name devSite (tp_tunnelOfGateway tuns)) ikeGws)))
      (readGpPortals D (fd_portalDoc ds)))"

record ngfw_half =
  nh_devices :: "json list"
  nh_links :: "link list"
  nh_counts :: counts

definition lift_thrown :: "json_error + 'a \<Rightarrow> topo_error + 'a" where
  "lift_thrown r = map_sum Thrown id r"

definition ngfw_device ::
  "topo_env \<Rightarrow> string \<Rightarrow> sample_map \<Rightarrow> (string \<rightharpoonup> string) \<Rightarrow> json \<Rightarrow> ngfw_half \<Rightarrow> topo_error + ngfw_half" where
  "ngfw_device env siteOid samples names d h =
     bind_err (lift_thrown (device_in_site siteOid d)) (\<lambda>here.
       case here of None \<Rightarrow> Inr h
       | Some (oid, devSite) \<Rightarrow>
           bind_err (lift_thrown (common_members names d oid devSite)) (\<lambda>common.
           bind_err (lift_thrown (streamsForDevice env oid)) (\<lambda>streams.
           bind_err (lift_thrown (for_each (fw_stream env samples) streams (fw_docs_new, nh_counts h))) (\<lambda>(ds, c).
           bind_err (lift_thrown (jvalue get_str ''name'' [] d)) (\<lambda>name.
             case fw_picture (tn_print env) oid name devSite ds of None \<Rightarrow> Inl Aborted
             | Some (picture, links) \<Rightarrow>
                 let row = device_rows 3 (tn_ngfw_rows env) oid in
                 Inr \<lparr>nh_devices = nh_devices h @ [JObj (common @
                        [(''status'', JStr (column 1 row)), (''last_seen'', JStr (column 2 row))] @ picture)],
                      nh_links = nh_links h @ links, nh_counts = c\<rparr>)))))"

subsection \<open>The shape\<close>

definition fabric_link :: "link \<Rightarrow> bool" where
  "fabric_link l \<longleftrightarrow> ln_kind l = ServiceConnection \<or> ln_kind l = RemoteNetwork"

record fan =
  fn_devicesPerTenant :: "(string \<times> string list) list"
  fn_linksPerDevice :: "(string \<times> nat) list"

definition add_link :: "link \<Rightarrow> fan \<Rightarrow> fan" where
  "add_link l f =
     (if \<not> fabric_link l then f
      else
        let n = (case map_of (fn_linksPerDevice f) (ln_device l) of None \<Rightarrow> 0 | Some n \<Rightarrow> n);
            v = (case map_of (fn_devicesPerTenant f) (ln_tenant l) of None \<Rightarrow> [] | Some v \<Rightarrow> v) in
        f\<lparr>fn_linksPerDevice := AList.update (ln_device l) (n + 1) (fn_linksPerDevice f),
          fn_devicesPerTenant := AList.update (ln_tenant l) (if ln_device l \<in> set v then v else v @ [ln_device l])
            (fn_devicesPerTenant f)\<rparr>)"

definition fan_of :: "link list \<Rightarrow> fan" where
  "fan_of links = fold add_link links \<lparr>fn_devicesPerTenant = [], fn_linksPerDevice = []\<rparr>"

definition widest_tenant :: "fan \<Rightarrow> nat" where
  "widest_tenant f = fold (\<lambda>(tenant, devs) m. max m (length devs)) (fn_devicesPerTenant f) 0"

definition busiest_device :: "fan \<Rightarrow> nat" where
  "busiest_device f = fold (\<lambda>(dev, n) m. max m n) (fn_linksPerDevice f) 0"

definition shape_kind :: "fan \<Rightarrow> nat \<Rightarrow> string" where
  "shape_kind f ndevices =
     (let devicesWithFabric = length (fn_linksPerDevice f) in
      if widest_tenant f \<ge> 2 then ''sase_hub''
      else if devicesWithFabric = 1 \<and> busiest_device f \<ge> 2 \<and> ndevices > 1 then ''ngfw_hub''
      else if devicesWithFabric \<ge> 1 then ''edge'' else ''flat'')"

definition shape_json :: "fan \<Rightarrow> nat \<Rightarrow> json" where
  "shape_json f ndevices =
     JObj [(''kind'', JStr (shape_kind f ndevices)),
       (''tenants'', JObj (fold (\<lambda>(tenant, devs). AList.update (if tenant = [] then ''unknown'' else tenant) (JArr (map JStr devs)))
          (fn_devicesPerTenant f) [])),
       (''fabric_devices'', JInt (int (length (fn_linksPerDevice f)))),
       (''max_links_per_device'', JInt (int (busiest_device f)))]"

definition composeNgfw :: "topo_env \<Rightarrow> string \<Rightarrow> sample_map \<Rightarrow> topo_error + json \<times> (string \<times> json) list" where
  "composeNgfw env siteOid samples =
     bind_err (lift_thrown (siteNames env)) (\<lambda>names.
     bind_err (lift_thrown (jvalue get_json ''ngfw_devices'' (JArr []) (tn_site env))) (\<lambda>devices.
     bind_err (for_each (ngfw_device env siteOid samples names) (jiterate devices)
         \<lparr>nh_devices = [], nh_links = [], nh_counts = counts_new\<rparr>) (\<lambda>h.
       let c = nh_counts h in
       Inr (JObj [(''devices'', JArr (nh_devices h)), (''links'', JArr (map link_json (nh_links h))),
              (''shape'', shape_json (fan_of (nh_links h)) (length (nh_devices h)))],
            [(''ngfw_devices'', JInt (int (length (nh_devices h)))), (''interface_streams'', JInt (int (ct_ifStreams c))),
             (''tunnel_streams'', JInt (int (ct_tunStreams c))), (''ike_streams'', JInt (int (ct_ikeStreams c))),
             (''gp_streams'', JInt (int (ct_gpStreams c))), (''ngfw_links'', JInt (int (length (nh_links h))))]))))"

subsection \<open>What a firewall's picture keeps\<close>

lemma ngfw_device_shows:
  assumes "ngfw_device env siteOid samples names d h = Inr h'"
  shows "map device_of (nh_devices h') = map device_of (nh_devices h) @ map Some (shown_device siteOid d)"
proof -
  from assms obtain here where here: "device_in_site siteOid d = Inr here"
    by (cases "device_in_site siteOid d") (auto simp: ngfw_device_def lift_thrown_def)
  show ?thesis
  proof (cases here)
    case None
    with here assms show ?thesis by (simp add: ngfw_device_def shown_device_def lift_thrown_def)
  next
    case (Some x)
    obtain oid devSite where x: "x = (oid, devSite)" by (cases x)
    with Some here assms obtain common where c: "common_members names d oid devSite = Inr common"
      by (cases "common_members names d oid devSite") (auto simp: ngfw_device_def lift_thrown_def)
    with Some here assms x show ?thesis
      by (auto simp: ngfw_device_def lift_thrown_def bind_err_Inr_iff shown_device_def common_members_device [OF c] Let_def
          split: option.splits prod.splits)
  qed
qed

subsection \<open>What the shape means\<close>

lemma fan_of_snoc: "fan_of (ls @ [l]) = add_link l (fan_of ls)"
  by (simp add: fan_of_def)

definition devices_at :: "fan \<Rightarrow> string \<Rightarrow> string list" where
  "devices_at f t = (case map_of (fn_devicesPerTenant f) t of None \<Rightarrow> [] | Some v \<Rightarrow> v)"

lemma devices_at_add_link:
  "devices_at (add_link l f) t =
     (if fabric_link l \<and> t = ln_tenant l then
        (if ln_device l \<in> set (devices_at f t) then devices_at f t else devices_at f t @ [ln_device l])
      else devices_at f t)"
  by (cases "map_of (fn_devicesPerTenant f) (ln_tenant l)") (simp_all add: devices_at_def add_link_def Let_def update_conv')

lemma fan_tenants:
  "distinct (map fst (fn_devicesPerTenant (fan_of ls)))"
  "distinct (devices_at (fan_of ls) t)"
  "set (devices_at (fan_of ls) t) = ln_device ` set (filter (\<lambda>l. fabric_link l \<and> ln_tenant l = t) ls)"
proof (induction ls rule: rev_induct)
  case Nil { case 1 show ?case by (simp add: fan_of_def) next case 2 show ?case by (simp add: fan_of_def devices_at_def)
    next case 3 show ?case by (simp add: fan_of_def devices_at_def) }
next
  case (snoc l ls)
  { case 1 from snoc(1) show ?case by (simp add: fan_of_snoc add_link_def Let_def distinct_update)
  next case 2 from snoc(2) show ?case by (auto simp add: fan_of_snoc devices_at_add_link)
  next case 3 from snoc(3) show ?case by (auto simp add: fan_of_snoc devices_at_add_link) }
qed

lemma fan_links:
  "distinct (map fst (fn_linksPerDevice (fan_of ls)))"
  "map_of (fn_linksPerDevice (fan_of ls)) d =
     (let n = length (filter (\<lambda>l. fabric_link l \<and> ln_device l = d) ls) in if n = 0 then None else Some n)"
proof (induction ls rule: rev_induct)
  case Nil { case 1 show ?case by (simp add: fan_of_def) next case 2 show ?case by (simp add: fan_of_def) }
next
  case (snoc l ls)
  { case 1 from snoc(1) show ?case by (simp add: fan_of_snoc add_link_def Let_def distinct_update)
  next case 2 from snoc(2) show ?case by (auto simp: fan_of_snoc add_link_def Let_def update_conv') }
qed

lemma fold_max_ge_iff: "(n :: nat) \<le> fold (\<lambda>(k, v) m. max m (g v)) xs m \<longleftrightarrow> n \<le> m \<or> (\<exists>(k, v) \<in> set xs. n \<le> g v)"
  by (induction xs arbitrary: m) (auto simp: le_max_iff_disj)

lemma devices_at_iff:
  assumes "distinct (map fst (fn_devicesPerTenant f))" and "0 < n"
  shows "(\<exists>(t, v) \<in> set (fn_devicesPerTenant f). n \<le> length v) \<longleftrightarrow> (\<exists>t. n \<le> length (devices_at f t))"
proof
  assume "\<exists>(t, v) \<in> set (fn_devicesPerTenant f). n \<le> length v"
  then obtain t v where "map_of (fn_devicesPerTenant f) t = Some v" "n \<le> length v" using assms(1) by auto
  then have "n \<le> length (devices_at f t)" by (simp add: devices_at_def)
  then show "\<exists>t. n \<le> length (devices_at f t)" ..
next
  assume "\<exists>t. n \<le> length (devices_at f t)"
  then show "\<exists>(t, v) \<in> set (fn_devicesPerTenant f). n \<le> length v"
    using assms(2) by (auto simp: devices_at_def dest: map_of_SomeD split: option.splits)
qed

lemma two_in_distinct: "distinct v \<Longrightarrow> 2 \<le> length v \<longleftrightarrow> (\<exists>x \<in> set v. \<exists>y \<in> set v. x \<noteq> y)"
proof (cases v)
  case (Cons x xs)
  assume "distinct v"
  with Cons show ?thesis by (cases xs) auto
qed simp

lemma widest_iff:
  "2 \<le> widest_tenant (fan_of ls) \<longleftrightarrow>
     (\<exists>l \<in> set ls. \<exists>l' \<in> set ls. fabric_link l \<and> fabric_link l' \<and> ln_tenant l = ln_tenant l' \<and> ln_device l \<noteq> ln_device l')"
proof -
  have "2 \<le> widest_tenant (fan_of ls) \<longleftrightarrow> (\<exists>t. 2 \<le> length (devices_at (fan_of ls) t))"
    using devices_at_iff [of "fan_of ls" 2] fan_tenants(1) by (simp add: widest_tenant_def fold_max_ge_iff)
  also have "\<dots> \<longleftrightarrow> (\<exists>t. \<exists>x \<in> set (devices_at (fan_of ls) t). \<exists>y \<in> set (devices_at (fan_of ls) t). x \<noteq> y)"
    by (simp add: two_in_distinct fan_tenants(2))
  also have "\<dots> \<longleftrightarrow> (\<exists>l \<in> set ls. \<exists>l' \<in> set ls. fabric_link l \<and> fabric_link l' \<and> ln_tenant l = ln_tenant l' \<and> ln_device l \<noteq> ln_device l')"
    (is "?A \<longleftrightarrow> ?B")
  proof
    assume ?A
    then obtain t x y where xy: "x \<in> set (devices_at (fan_of ls) t)" "y \<in> set (devices_at (fan_of ls) t)" "x \<noteq> y" by blast
    from xy(1) obtain l where l: "l \<in> set ls" "fabric_link l" "ln_tenant l = t" "x = ln_device l" unfolding fan_tenants(3) by auto
    from xy(2) obtain l' where l': "l' \<in> set ls" "fabric_link l'" "ln_tenant l' = t" "y = ln_device l'" unfolding fan_tenants(3) by auto
    from l l' xy(3) have "fabric_link l \<and> fabric_link l' \<and> ln_tenant l = ln_tenant l' \<and> ln_device l \<noteq> ln_device l'" by simp
    with l(1) l'(1) show ?B by blast
  next
    assume ?B
    then obtain l l' where l: "l \<in> set ls" "l' \<in> set ls" "fabric_link l" "fabric_link l'" "ln_tenant l' = ln_tenant l"
      "ln_device l \<noteq> ln_device l'" by auto
    then have "ln_device l \<in> set (devices_at (fan_of ls) (ln_tenant l))" "ln_device l' \<in> set (devices_at (fan_of ls) (ln_tenant l))"
      unfolding fan_tenants(3) by auto
    with l(6) show ?A by blast
  qed
  finally show ?thesis .
qed

lemma fabric_devices: "set (map fst (fn_linksPerDevice (fan_of ls))) = ln_device ` set (filter fabric_link ls)"
proof -
  have "set (map fst (fn_linksPerDevice (fan_of ls))) = dom (map_of (fn_linksPerDevice (fan_of ls)))"
    by (simp add: dom_map_of_conv_image_fst)
  also have "\<dots> = ln_device ` set (filter fabric_link ls)"
    unfolding dom_def fan_links(2) by (auto simp: Let_def filter_empty_conv)
  finally show ?thesis .
qed

text \<open>The shape in terms of the links alone.\<close>

definition shape_spec :: "link list \<Rightarrow> nat \<Rightarrow> string" where
  "shape_spec links ndevices =
     (let fs = filter fabric_link links in
      if list_ex (\<lambda>l. list_ex (\<lambda>l'. ln_tenant l = ln_tenant l' \<and> ln_device l \<noteq> ln_device l') fs) fs then ''sase_hub''
      else if fs \<noteq> [] \<and> list_all (\<lambda>l. ln_device l = ln_device (hd fs)) fs \<and> length fs \<ge> 2 \<and> ndevices > 1 then ''ngfw_hub''
      else if fs \<noteq> [] then ''edge'' else ''flat'')"

lemma one_fabric_device:
  fixes links defines "fs \<equiv> filter fabric_link links"
  shows "length (fn_linksPerDevice (fan_of links)) = 1 \<and> 2 \<le> busiest_device (fan_of links) \<longleftrightarrow>
    fs \<noteq> [] \<and> list_all (\<lambda>l. ln_device l = ln_device (hd fs)) fs \<and> 2 \<le> length fs" (is "?L \<longleftrightarrow> ?R")
proof -
  let ?lp = "fn_linksPerDevice (fan_of links)"
  note l = fan_links [where ls = links] and k = fabric_devices [of links, folded fs_def]
  have count: "filter (\<lambda>l. fabric_link l \<and> ln_device l = d) links = filter (\<lambda>l. ln_device l = d) fs" for d
    by (simp add: fs_def conj_commute)
  show ?thesis
  proof
    assume L: ?L
    then obtain d n where lp: "?lp = [(d, n)]" by (cases ?lp rule: list.exhaust) (auto simp: length_Suc_conv)
    with k have dev: "ln_device ` set fs = {d}" by simp
    then have "fs \<noteq> []" and all: "list_all (\<lambda>l. ln_device l = d) fs" by (auto simp: list_all_iff)
    from all have "filter (\<lambda>l. ln_device l = d) fs = fs" by (simp add: list_all_iff)
    with l(2) [of d, unfolded count] have "map_of ?lp d = Some (length fs)" using \<open>fs \<noteq> []\<close> by (simp only: Let_def length_0_conv if_False)
    with lp have "n = length fs" by simp
    moreover from all \<open>fs \<noteq> []\<close> have "ln_device (hd fs) = d" by (simp add: list_all_iff)
    moreover from L lp have "2 \<le> n" by (simp add: busiest_device_def)
    ultimately show ?R using \<open>fs \<noteq> []\<close> all by simp
  next
    assume R: ?R
    let ?d = "ln_device (hd fs)"
    from R have ne: "fs \<noteq> []" and every: "list_all (\<lambda>l. ln_device l = ?d) fs" by simp_all
    from every hd_in_set [OF ne] have all: "ln_device ` set fs = {?d}" unfolding list_all_iff by blast
    from every have "filter (\<lambda>l. ln_device l = ?d) fs = fs" by (simp only: filter_id_conv list_all_iff)
    with l(2) [of ?d, unfolded count] ne have m: "map_of ?lp ?d = Some (length fs)" by (simp only: Let_def length_0_conv if_False)
    from l(1) k all have "length ?lp = card {?d}" by (metis distinct_card length_map)
    then obtain x where "?lp = [x]" by (auto simp: length_Suc_conv)
    with m have "?lp = [(?d, length fs)]" by (cases x) (auto split: if_splits)
    with R show ?L by (simp add: busiest_device_def)
  qed
qed

text \<open>C32. The composition's shape is what the links say: the fabric is the hub exactly when two firewalls have a service
  connection or a remote network with the same tenant; a firewall is the hub when all such links, two at least, are
  its own and it is not alone; otherwise any such link makes an edge, and none a flat picture. This is what the code
  decides, and it is not what its comment says (\<^verbatim>\<open>TopologyService.cpp:826-829\<close>): there a hub firewall holds several
  tenants' connections and everything else is flat, while two links to one tenant are enough for the code and it has the
  fourth kind, \<^verbatim>\<open>edge\<close>.\<close>

theorem shape_is_fan_out: "shape_kind (fan_of links) n = shape_spec links n"
proof -
  let ?fs = "filter fabric_link links" and ?lp = "fn_linksPerDevice (fan_of links)"
  have hub: "2 \<le> widest_tenant (fan_of links) \<longleftrightarrow>
      list_ex (\<lambda>l. list_ex (\<lambda>l'. ln_tenant l = ln_tenant l' \<and> ln_device l \<noteq> ln_device l') ?fs) ?fs"
    unfolding widest_iff by (auto simp: list_ex_iff)
  have some: "1 \<le> length ?lp \<longleftrightarrow> ?fs \<noteq> []"
    using fabric_devices [of links] by (cases ?lp; cases ?fs) auto
  show ?thesis
    unfolding shape_kind_def shape_spec_def Let_def hub some
    by (simp only: conj_assoc [symmetric] one_fabric_device [of links, unfolded conj_assoc [symmetric]])
qed

end
