(* ===== verification/Saml_Client.thy ===== *)
theory Saml_Client
  imports Text_Codec
begin

text \<open>
  The SAML client of the authentication daemon (\<^verbatim>\<open>authd/service/auth/SamlClient.cpp\<close>): the redirect
  to the identity provider, and the verification of the response it posts back. An XML document is a
  tree of elements with their local names (the code never looks at namespaces); a node the code points
  at is a path into it. Reading XML, the signature arithmetic of xmlsec and deflating belong to
  libraries and are fields of \<open>saml_env\<close>, with the clock and the random digits of one call. What the
  development relies on about signatures is the locale \<open>by_reference\<close>: a signature speaks for the
  element its reference names, wherever in the document that is.
\<close>

subsection \<open>Documents\<close>

datatype xml = XElem string "(string \<times> string) list" "xml list" | XText string | XOther

type_synonym xml_path = "nat list"

fun xchildren :: "xml \<Rightarrow> xml list" where
  "xchildren (XElem n as cs) = cs"
| "xchildren n = []"

fun at_path :: "xml_path \<Rightarrow> xml \<Rightarrow> xml option" where
  "at_path [] n = Some n"
| "at_path (i # p) n = (if i < length (xchildren n) then at_path p (xchildren n ! i) else None)"

definition localIs :: "string \<Rightarrow> xml \<Rightarrow> bool" where
  "localIs name n = (case n of XElem n' as cs \<Rightarrow> n' = name | _ \<Rightarrow> False)"

text \<open>The first child of that name, and where it is; a null parent has none.\<close>

fun child_index :: "string \<Rightarrow> nat \<Rightarrow> xml list \<Rightarrow> nat option" where
  "child_index name i [] = None"
| "child_index name i (c # cs) = (if localIs name c then Some i else child_index name (Suc i) cs)"

definition childByLocal :: "string \<Rightarrow> xml option \<Rightarrow> xml option" where
  "childByLocal name parent =
     (case parent of None \<Rightarrow> None | Some p \<Rightarrow> find (localIs name) (xchildren p))"

text \<open>All text below an element; comments and processing instructions are passed over.\<close>

fun xml_content :: "xml \<Rightarrow> string" and xml_contents :: "xml list \<Rightarrow> string" where
  "xml_content (XElem n as cs) = xml_contents cs"
| "xml_content (XText t) = t"
| "xml_content XOther = []"
| "xml_contents [] = []"
| "xml_contents (c # cs) = xml_content c @ xml_contents cs"

definition xml_blank :: "char \<Rightarrow> bool" where
  "xml_blank c \<longleftrightarrow> c = CHR '' '' \<or> c = CHR 0x09 \<or> c = CHR 0x0D \<or> c = CHR 0x0A"

definition nodeText :: "xml option \<Rightarrow> string" where
  "nodeText n =
     (case n of None \<Rightarrow> []
      | Some n \<Rightarrow> rev (dropWhile xml_blank (rev (dropWhile xml_blank (xml_content n)))))"

definition attr :: "string \<Rightarrow> xml option \<Rightarrow> string" where
  "attr name n =
     (case n of Some (XElem n' as cs) \<Rightarrow> (case map_of as name of None \<Rightarrow> [] | Some v \<Rightarrow> v) | _ \<Rightarrow> [])"

text \<open>
  \<^verbatim>\<open>registerIds\<close>: every \<^verbatim>\<open>ID\<close> attribute of the document, in document order, with the element that
  carries it. The table refuses an empty value and keeps the first of two elements with the same one.
\<close>

type_synonym id_table = "(string \<times> xml_path) list"

definition add_id :: "xml_path \<Rightarrow> string option \<Rightarrow> id_table \<Rightarrow> id_table" where
  "add_id p v ids =
     (case v of None \<Rightarrow> ids
      | Some v \<Rightarrow> if v = [] \<or> map_of ids v \<noteq> None then ids else ids @ [(v, p)])"

fun registerIds :: "xml_path \<Rightarrow> xml \<Rightarrow> id_table \<Rightarrow> id_table"
  and register_list :: "xml_path \<Rightarrow> nat \<Rightarrow> xml list \<Rightarrow> id_table \<Rightarrow> id_table" where
  "registerIds p (XElem n as cs) ids = register_list p 0 cs (add_id p (map_of as ''ID'') ids)"
| "registerIds p (XText t) ids = ids"
| "registerIds p XOther ids = ids"
| "register_list p i [] ids = ids"
| "register_list p i (c # cs) ids = register_list p (Suc i) cs (registerIds (p @ [i]) c ids)"

text \<open>The first assertion below the root that has a signature, and that signature.\<close>

fun find_signed :: "nat \<Rightarrow> xml list \<Rightarrow> (nat \<times> nat) option" where
  "find_signed i [] = None"
| "find_signed i (c # cs) =
     (if localIs ''Assertion'' c then
        (case child_index ''Signature'' 0 (xchildren c) of
           Some k \<Rightarrow> Some (i, k) | None \<Rightarrow> find_signed (Suc i) cs)
      else find_signed (Suc i) cs)"

definition findSignedAssertion :: "xml \<Rightarrow> (nat \<times> nat) option" where
  "findSignedAssertion root = find_signed 0 (xchildren root)"

subsection \<open>Points in time\<close>

text \<open>
  \<^verbatim>\<open>strptime\<close> with the format the code uses: a field skips blanks and reads at most so many digits,
  stopping before a digit would exceed the upper bound; what follows the seconds (fractions, a time
  zone) is not looked at. \<^verbatim>\<open>timegm\<close> counts seconds from 1970 in the proleptic Gregorian calendar, and a
  day past the end of its month runs on into the next.
\<close>

fun read_digits :: "nat \<Rightarrow> nat \<Rightarrow> nat \<Rightarrow> string \<Rightarrow> nat \<times> string" where
  "read_digits 0 hi v s = (v, s)"
| "read_digits (Suc n) hi v [] = (v, [])"
| "read_digits (Suc n) hi v (c # s) =
     (if isdigit c \<and> v * 10 \<le> hi then read_digits n hi (v * 10 + (of_char c - of_char CHR ''0'')) s
      else (v, c # s))"

definition get_number :: "nat \<Rightarrow> nat \<Rightarrow> nat \<Rightarrow> string \<Rightarrow> (nat \<times> string) option" where
  "get_number lo hi n s =
     (let s = dropWhile (\<lambda>c. c = CHR '' '') s in
      if s = [] \<or> \<not> isdigit (hd s) then None
      else case read_digits n hi 0 s of (v, rest) \<Rightarrow> if v < lo \<or> hi < v then None else Some (v, rest))"

definition match_char :: "char \<Rightarrow> string \<Rightarrow> string option" where
  "match_char c s = (case s of [] \<Rightarrow> None | c' # rest \<Rightarrow> if c = c' then Some rest else None)"

definition field_then :: "nat \<Rightarrow> nat \<Rightarrow> nat \<Rightarrow> char \<Rightarrow> string \<Rightarrow> (nat \<times> string) option" where
  "field_then lo hi n c s =
     Option.bind (get_number lo hi n s) (\<lambda>(v, s). map_option (Pair v) (match_char c s))"

definition leap :: "int \<Rightarrow> bool" where
  "leap y \<longleftrightarrow> y mod 4 = 0 \<and> (y mod 100 \<noteq> 0 \<or> y mod 400 = 0)"

definition days_before_year :: "int \<Rightarrow> int" where
  "days_before_year y = 365 * (y - 1970) + (y - 1) div 4 - (y - 1) div 100 + (y - 1) div 400 - 477"

definition month_start :: "int list" where
  "month_start = [0, 31, 59, 90, 120, 151, 181, 212, 243, 273, 304, 334]"

definition timegm :: "nat \<Rightarrow> nat \<Rightarrow> nat \<Rightarrow> nat \<Rightarrow> nat \<Rightarrow> nat \<Rightarrow> int" where
  "timegm y m d H M S =
     86400 * (days_before_year (int y) + month_start ! (m - 1) + (if m > 2 \<and> leap (int y) then 1 else 0) + int d - 1)
     + 3600 * int H + 60 * int M + int S"

definition strptime_iso :: "string \<Rightarrow> int option" where
  "strptime_iso s =
     Option.bind (field_then 0 9999 4 CHR ''-'' s) (\<lambda>(y, s).
     Option.bind (field_then 1 12 2 CHR ''-'' s) (\<lambda>(m, s).
     Option.bind (field_then 1 31 2 CHR ''T'' s) (\<lambda>(d, s).
     Option.bind (field_then 0 23 2 CHR '':'' s) (\<lambda>(H, s).
     Option.bind (field_then 0 59 2 CHR '':'' s) (\<lambda>(M, s).
     map_option (\<lambda>(S, rest). timegm y m d H M S) (get_number 0 61 2 s))))))"

definition parseIso8601 :: "string \<Rightarrow> int" where
  "parseIso8601 s = (case strptime_iso s of None \<Rightarrow> 0 | Some t \<Rightarrow> t)"

lemma div_pred:
  assumes "0 < n"
  shows "(y :: int) div n = (y - 1) div n + (if y mod n = 0 then 1 else 0)"
proof -
  let ?q = "(y - 1) div n" and ?r = "(y - 1) mod n"
  have r: "0 \<le> ?r" "?r < n" using assms by simp_all
  have y: "y = n * ?q + (?r + 1)" using mult_div_mod_eq [of n "y - 1"] by linarith
  show ?thesis
  proof (cases "?r + 1 = n")
    case True
    then have "y = n * (?q + 1)" using y by (simp only: distrib_left)
    then have "y div n = ?q + 1 \<and> y mod n = 0" using assms
      by (metis less_irrefl mod_mult_self1_is_0 nonzero_mult_div_cancel_left)
    then show ?thesis by simp
  next
    case False
    with r have "y div n = ?q" "y mod n = ?r + 1"
      by (intro int_div_pos_eq [OF y] int_mod_pos_eq [OF y]; simp)+
    with r show ?thesis by simp
  qed
qed

lemma year_length: "days_before_year (y + 1) = days_before_year y + (if leap y then 366 else 365)"
proof -
  have mods: "y mod 100 = 0 \<Longrightarrow> y mod 4 = 0" "y mod 400 = 0 \<Longrightarrow> y mod 100 = 0" by presburger+
  have "days_before_year (y + 1) = 365 * (y - 1970) + 365 + y div 4 - y div 100 + y div 400 - 477"
    by (simp add: days_before_year_def)
  also have "\<dots> = days_before_year y + 365 + (if y mod 4 = 0 then 1 else 0) - (if y mod 100 = 0 then 1 else 0)
      + (if y mod 400 = 0 then 1 else 0)"
    unfolding days_before_year_def div_pred [of 4 y, simplified] div_pred [of 100 y, simplified]
      div_pred [of 400 y, simplified] by simp
  also have "\<dots> = days_before_year y + (if leap y then 366 else 365)"
    unfolding leap_def using mods by (cases "y mod 4 = 0"; cases "y mod 100 = 0"; cases "y mod 400 = 0"; simp only: simp_thms if_True if_False)
  finally show ?thesis .
qed

lemma epoch: "parseIso8601 ''1970-01-01T00:00:00Z'' = 0"
  "parseIso8601 ''2024-02-29T12:30:05.123Z'' = 1709209805"
  by code_simp+

subsection \<open>The client\<close>

record saml_config =
  sa_enabled :: bool
  sa_idpSsoUrl :: string
  sa_idpEntityId :: string
  sa_idpCertPem :: string
  sa_spEntityId :: string
  sa_acsUrl :: string
  sa_adminGroup :: string
  sa_groupsAttr :: string
  sa_emailAttr :: string
  sa_clockSkewSec :: u64

definition saml_config_new :: saml_config where
  "saml_config_new = \<lparr>sa_enabled = False, sa_idpSsoUrl = [], sa_idpEntityId = [], sa_idpCertPem = [],
     sa_spEntityId = [], sa_acsUrl = [], sa_adminGroup = [], sa_groupsAttr = ''groups'', sa_emailAttr = ''email'',
     sa_clockSkewSec = 120\<rparr>"

record saml_start =
  ss_success :: bool
  ss_redirectUrl :: string
  ss_requestId :: string
  ss_error :: string

record saml_result =
  sr_success :: bool
  sr_username :: string
  sr_groups :: "string list"
  sr_error :: string

text \<open>
  The libraries and the world of one call. \<open>se_verify\<close> is \<^verbatim>\<open>xmlSecDSigCtxVerify\<close> with a key manager
  that trusts one certificate: it is given the table of identifiers, the document and the signature's
  place in it, and fails (\<^verbatim>\<open>< 0\<close>) or says whether the status is \<^verbatim>\<open>Succeeded\<close>.
\<close>

record saml_env =
  se_now :: u64
  se_utcNow :: string
  se_random :: "nat list"
  se_deflate :: "string \<Rightarrow> bytes option"
  se_xmlsec :: bool
  se_parse :: "bytes \<Rightarrow> xml option option"
  se_keysMngr :: bool
  se_loadCert :: "string \<Rightarrow> bool"
  se_dsigCtx :: bool
  se_verify :: "string \<Rightarrow> id_table \<Rightarrow> xml \<Rightarrow> xml_path \<Rightarrow> bool option"

definition saml_randomId :: "saml_env \<Rightarrow> string" where
  "saml_randomId env = CHR ''_'' # map (\<lambda>k. hex_lower ! (k mod 16)) (take 32 (se_random env))"

definition kNsProtocol :: string where "kNsProtocol = ''urn:oasis:names:tc:SAML:2.0:protocol''"
definition kNsAssertion :: string where "kNsAssertion = ''urn:oasis:names:tc:SAML:2.0:assertion''"
definition kStatusOk :: string where "kStatusOk = ''urn:oasis:names:tc:SAML:2.0:status:Success''"

definition saml_authn_request :: "saml_env \<Rightarrow> saml_config \<Rightarrow> string \<Rightarrow> string" where
  "saml_authn_request env cfg rid =
     ''<samlp:AuthnRequest xmlns:samlp=\"'' @ kNsProtocol @ ''\" xmlns:saml=\"'' @ kNsAssertion @
     ''\" ID=\"'' @ rid @ ''\" Version=\"2.0\" IssueInstant=\"'' @ se_utcNow env @
     ''\" Destination=\"'' @ sa_idpSsoUrl cfg @
     ''\" ProtocolBinding=\"urn:oasis:names:tc:SAML:2.0:bindings:HTTP-POST\" AssertionConsumerServiceURL=\"'' @
     sa_acsUrl cfg @ ''\"><saml:Issuer>'' @ sa_spEntityId cfg @ ''</saml:Issuer></samlp:AuthnRequest>''"

definition buildAuthnRedirectUrl :: "saml_env \<Rightarrow> saml_config \<Rightarrow> string \<Rightarrow> saml_start" where
  "buildAuthnRedirectUrl env cfg relayState =
     (let r = \<lparr>ss_success = False, ss_redirectUrl = [], ss_requestId = [], ss_error = []\<rparr> in
      if \<not> sa_enabled cfg then r\<lparr>ss_error := ''saml disabled''\<rparr>
      else
        let r = r\<lparr>ss_requestId := saml_randomId env\<rparr> in
        case se_deflate env (saml_authn_request env cfg (ss_requestId r)) of
          None \<Rightarrow> r\<lparr>ss_error := ''deflate failed''\<rparr>
        | Some deflated \<Rightarrow>
            let enc = urlEncode (base64Encode deflated);
                url = sa_idpSsoUrl cfg;
                url = url @ (if CHR ''?'' \<in> set url then ''&'' else ''?'') @ ''SAMLRequest='' @ enc;
                url = (if relayState \<noteq> [] then url @ ''&RelayState='' @ urlEncode relayState else url) in
            r\<lparr>ss_success := True, ss_redirectUrl := url\<rparr>)"

text \<open>The decoder of this file skips white space and refuses anything else that is no digit.\<close>

fun saml_b64_loop :: "u32 \<Rightarrow> nat \<Rightarrow> string \<Rightarrow> bytes option" where
  "saml_b64_loop buf bits [] = Some []"
| "saml_b64_loop buf bits (c # rest) =
     (if c = CHR ''='' then Some []
      else if xml_blank c then saml_b64_loop buf bits rest
      else let v = std_val c in
        if v < 0 then None
        else
          let buf = push_bit 6 buf OR of_int v; bits = bits + 6 in
          if bits \<ge> 8
          then map_option (\<lambda>out. ucast (drop_bit (bits - 8) buf AND 0xFF) # out)
                 (saml_b64_loop buf (bits - 8) rest)
          else saml_b64_loop buf bits rest)"

definition saml_b64_decode :: "string \<Rightarrow> bytes option" where
  "saml_b64_decode = saml_b64_loop 0 0"

text \<open>The place of the assertion whose signature verified, or the error.\<close>

definition verifySignature :: "saml_env \<Rightarrow> saml_config \<Rightarrow> xml option \<Rightarrow> string + nat" where
  "verifySignature env cfg doc =
     (case doc of None \<Rightarrow> Inl ''no root''
      | Some root \<Rightarrow>
          let ids = registerIds [] root [] in
          case findSignedAssertion root of None \<Rightarrow> Inl ''no signed assertion''
          | Some (i, k) \<Rightarrow>
              if \<not> se_keysMngr env then Inl ''keys mngr init failed''
              else if \<not> se_loadCert env (sa_idpCertPem cfg) then Inl ''load idp cert failed''
              else if \<not> se_dsigCtx env then Inl ''dsig ctx create failed''
              else case se_verify env (sa_idpCertPem cfg) ids root [i, k] of
                None \<Rightarrow> Inl ''signature verify error''
              | Some False \<Rightarrow> Inl ''signature invalid''
              | Some True \<Rightarrow> Inr i)"

text \<open>The checks of the conditions, in the order of the code; no conditions, no check.\<close>

definition audience_ok :: "saml_config \<Rightarrow> xml \<Rightarrow> bool" where
  "audience_ok cfg cond \<longleftrightarrow> sa_spEntityId cfg = [] \<or>
     (case childByLocal ''AudienceRestriction'' (Some cond) of None \<Rightarrow> False
      | Some ar \<Rightarrow> list_ex (\<lambda>a. localIs ''Audience'' a \<and> nodeText (Some a) = sa_spEntityId cfg) (xchildren ar))"

definition check_conditions :: "u64 \<Rightarrow> saml_config \<Rightarrow> xml option \<Rightarrow> string option" where
  "check_conditions now cfg cond =
     (case cond of None \<Rightarrow> None
      | Some c \<Rightarrow>
          let nb = attr ''NotBefore'' cond; na = attr ''NotOnOrAfter'' cond; skew = sa_clockSkewSec cfg in
          if nb \<noteq> [] \<and> of_int (parseIso8601 nb) > now + skew then Some ''assertion not yet valid''
          else if na \<noteq> [] \<and> now > of_int (parseIso8601 na) + skew then Some ''assertion expired''
          else if \<not> audience_ok cfg c then Some ''audience mismatch''
          else None)"

text \<open>The loop over the attributes: the last mail address wins, all groups are collected.\<close>

definition attribute_values :: "xml \<Rightarrow> string list" where
  "attribute_values at =
     filter (\<lambda>g. g \<noteq> []) (map (\<lambda>v. nodeText (Some v)) (filter (localIs ''AttributeValue'') (xchildren at)))"

definition read_attribute :: "saml_config \<Rightarrow> xml \<Rightarrow> string \<times> string list \<Rightarrow> string \<times> string list" where
  "read_attribute cfg at r =
     (case r of (email, groups) \<Rightarrow>
        if \<not> localIs ''Attribute'' at then (email, groups)
        else
          let name = attr ''Name'' (Some at) in
          if sa_emailAttr cfg \<noteq> [] \<and> name = sa_emailAttr cfg then
            (case childByLocal ''AttributeValue'' (Some at) of None \<Rightarrow> (email, groups)
             | Some v \<Rightarrow> (nodeText (Some v), groups))
          else if name = sa_groupsAttr cfg then (email, groups @ attribute_values at)
          else (email, groups))"

definition read_attributes :: "saml_config \<Rightarrow> xml \<Rightarrow> string \<times> string list" where
  "read_attributes cfg assertion =
     (case childByLocal ''AttributeStatement'' (Some assertion) of None \<Rightarrow> ([], [])
      | Some st \<Rightarrow> fold (read_attribute cfg) (xchildren st) ([], []))"

definition nameId :: "xml \<Rightarrow> string" where
  "nameId assertion = nodeText (childByLocal ''NameID'' (childByLocal ''Subject'' (Some assertion)))"

definition no_result :: saml_result where
  "no_result = \<lparr>sr_success = False, sr_username = [], sr_groups = [], sr_error = []\<rparr>"

definition saml_fail :: "string \<Rightarrow> saml_result" where
  "saml_fail e = no_result\<lparr>sr_error := e\<rparr>"

definition status_refused :: "xml \<Rightarrow> bool" where
  "status_refused root \<longleftrightarrow>
     (case childByLocal ''Status'' (Some root) of None \<Rightarrow> False
      | Some st \<Rightarrow> attr ''Value'' (childByLocal ''StatusCode'' (Some st)) \<noteq> kStatusOk)"

definition read_assertion :: "saml_config \<Rightarrow> xml \<Rightarrow> saml_result" where
  "read_assertion cfg assertion =
     (case read_attributes cfg assertion of (email, groups) \<Rightarrow>
        let r = no_result\<lparr>sr_groups := groups\<rparr> in
        if sa_adminGroup cfg \<noteq> [] \<and> sa_adminGroup cfg \<notin> set groups then r\<lparr>sr_error := ''not in admin group''\<rparr>
        else
          let r = r\<lparr>sr_username := (if email \<noteq> [] then email else nameId assertion)\<rparr> in
          if sr_username r = [] then r\<lparr>sr_error := ''no email/NameID''\<rparr> else r\<lparr>sr_success := True\<rparr>)"

definition verifyResponse :: "saml_env \<Rightarrow> saml_config \<Rightarrow> string \<Rightarrow> saml_result" where
  "verifyResponse env cfg response =
     (if \<not> sa_enabled cfg then saml_fail ''saml disabled''
      else if \<not> se_xmlsec env then saml_fail ''xmlsec unavailable''
      else case saml_b64_decode response of
        None \<Rightarrow> saml_fail ''bad base64 SAMLResponse''
      | Some text \<Rightarrow>
          if text = [] then saml_fail ''bad base64 SAMLResponse''
          else case se_parse env text of
            None \<Rightarrow> saml_fail ''xml parse failed''
          | Some doc \<Rightarrow>
              (case verifySignature env cfg doc of
                 Inl err \<Rightarrow> saml_fail err
               | Inr i \<Rightarrow>
                   let root = the doc; assertion = xchildren root ! i in
                   if status_refused root then saml_fail ''status not success''
                   else if nodeText (childByLocal ''Issuer'' (Some assertion)) \<noteq> sa_idpEntityId cfg
                   then saml_fail ''issuer mismatch''
                   else (case check_conditions (se_now env) cfg (childByLocal ''Conditions'' (Some assertion)) of
                           Some err \<Rightarrow> saml_fail err
                         | None \<Rightarrow> read_assertion cfg assertion)))"

subsection \<open>Reading the verdict\<close>

lemma child_index_Some:
  "child_index name i cs = Some k \<Longrightarrow> \<exists>m < length cs. k = i + m \<and> localIs name (cs ! m)"
proof (induction name i cs rule: child_index.induct)
  case (2 name i c cs)
  show ?case
  proof (cases "localIs name c")
    case True
    with 2 show ?thesis by (intro exI [of _ 0]) simp
  next
    case False
    with 2 obtain m where "m < length cs" "k = Suc i + m" "localIs name (cs ! m)" by auto
    then show ?thesis by (intro exI [of _ "Suc m"]) simp
  qed
qed simp

lemma find_signed_Some:
  "find_signed j cs = Some (i, k) \<Longrightarrow>
    \<exists>m < length cs. i = j + m \<and> localIs ''Assertion'' (cs ! m) \<and>
      k < length (xchildren (cs ! m)) \<and> localIs ''Signature'' (xchildren (cs ! m) ! k)"
proof (induction j cs rule: find_signed.induct)
  case (2 j c cs)
  show ?case
  proof (cases "localIs ''Assertion'' c \<and> child_index ''Signature'' 0 (xchildren c) \<noteq> None")
    case True
    then obtain k' where k': "child_index ''Signature'' 0 (xchildren c) = Some k'" by blast
    with True 2 have "i = j" "k = k'" by auto
    moreover obtain m where "m < length (xchildren c)" "k' = m" "localIs ''Signature'' (xchildren c ! m)"
      using child_index_Some [OF k'] by auto
    ultimately show ?thesis using True by (intro exI [of _ 0]) simp
  next
    case False
    then have "find_signed (Suc j) cs = Some (i, k)" using 2 by (auto split: if_splits option.splits)
    with 2 False obtain m where "m < length cs" "i = Suc j + m" "localIs ''Assertion'' (cs ! m)"
      "k < length (xchildren (cs ! m))" "localIs ''Signature'' (xchildren (cs ! m) ! k)"
      by (cases "localIs ''Assertion'' c") auto
    then show ?thesis by (intro exI [of _ "Suc m"]) simp
  qed
qed simp

lemma findSignedAssertion_Some:
  assumes "findSignedAssertion root = Some (i, k)"
  shows "at_path [i] root = Some (xchildren root ! i)" "localIs ''Assertion'' (xchildren root ! i)"
    "at_path [i, k] root = Some (xchildren (xchildren root ! i) ! k)"
    "localIs ''Signature'' (xchildren (xchildren root ! i) ! k)"
  using find_signed_Some [of 0 "xchildren root" i k] assms by (auto simp: findSignedAssertion_def)

lemma verifySignature_Inr:
  "verifySignature env cfg doc = Inr i \<longleftrightarrow>
    (\<exists>root k. doc = Some root \<and> findSignedAssertion root = Some (i, k) \<and> se_keysMngr env \<and>
       se_loadCert env (sa_idpCertPem cfg) \<and> se_dsigCtx env \<and>
       se_verify env (sa_idpCertPem cfg) (registerIds [] root []) root [i, k] = Some True)"
  by (auto simp: verifySignature_def Let_def split: option.splits prod.splits bool.splits)

text \<open>What a response that is accepted has been through.\<close>

definition accepted :: "saml_env \<Rightarrow> saml_config \<Rightarrow> xml \<Rightarrow> nat \<Rightarrow> nat \<Rightarrow> bool" where
  "accepted env cfg root i k \<longleftrightarrow>
     findSignedAssertion root = Some (i, k) \<and> se_keysMngr env \<and> se_loadCert env (sa_idpCertPem cfg) \<and>
     se_dsigCtx env \<and> se_verify env (sa_idpCertPem cfg) (registerIds [] root []) root [i, k] = Some True \<and>
     \<not> status_refused root \<and>
     nodeText (childByLocal ''Issuer'' (Some (xchildren root ! i))) = sa_idpEntityId cfg \<and>
     check_conditions (se_now env) cfg (childByLocal ''Conditions'' (Some (xchildren root ! i))) = None \<and>
     sr_success (read_assertion cfg (xchildren root ! i))"

lemma saml_fail_simps [simp]: "\<not> sr_success (saml_fail e)" "sr_username (saml_fail e) = []"
  by (simp_all add: saml_fail_def no_result_def)

lemma verifyResponse_success:
  "sr_success (verifyResponse env cfg response) \<longleftrightarrow>
    (\<exists>xs root i k. sa_enabled cfg \<and> se_xmlsec env \<and> saml_b64_decode response = Some xs \<and> xs \<noteq> [] \<and>
       se_parse env xs = Some (Some root) \<and> accepted env cfg root i k \<and>
       verifyResponse env cfg response = read_assertion cfg (xchildren root ! i))"
  (is "?l \<longleftrightarrow> ?r")
proof
  assume l: ?l
  obtain xs where xs: "saml_b64_decode response = Some xs" "xs \<noteq> []" "sa_enabled cfg" "se_xmlsec env"
    using l by (auto simp: verifyResponse_def split: if_splits option.splits)
  obtain doc where doc: "se_parse env xs = Some doc"
    using l xs by (auto simp: verifyResponse_def split: option.splits)
  obtain i where i: "verifySignature env cfg doc = Inr i"
    using l xs doc by (auto simp: verifyResponse_def split: sum.splits)
  then obtain root k where root: "doc = Some root" "findSignedAssertion root = Some (i, k)" "se_keysMngr env"
    "se_loadCert env (sa_idpCertPem cfg)" "se_dsigCtx env"
    "se_verify env (sa_idpCertPem cfg) (registerIds [] root []) root [i, k] = Some True"
    by (auto simp: verifySignature_Inr)
  have "\<not> status_refused root" "nodeText (childByLocal ''Issuer'' (Some (xchildren root ! i))) = sa_idpEntityId cfg"
    "check_conditions (se_now env) cfg (childByLocal ''Conditions'' (Some (xchildren root ! i))) = None"
    "verifyResponse env cfg response = read_assertion cfg (xchildren root ! i)"
    using l xs doc i root(1) by (auto simp: verifyResponse_def Let_def split: if_splits option.splits)
  with l xs doc root show ?r by (auto simp: accepted_def)
qed (auto simp: accepted_def)

lemma verifyResponse_accepted:
  assumes "sa_enabled cfg" and "se_xmlsec env" and "saml_b64_decode response = Some xs" and "xs \<noteq> []"
    and "se_parse env xs = Some (Some root)" and "accepted env cfg root i k"
  shows "verifyResponse env cfg response = read_assertion cfg (xchildren root ! i)"
proof -
  have "verifySignature env cfg (Some root) = Inr i" using assms(6) by (auto simp: verifySignature_Inr accepted_def)
  with assms show ?thesis by (simp add: verifyResponse_def accepted_def)
qed

lemma read_assertion_success:
  "sr_success (read_assertion cfg a) \<longleftrightarrow>
     (sa_adminGroup cfg = [] \<or> sa_adminGroup cfg \<in> set (snd (read_attributes cfg a))) \<and>
     (fst (read_attributes cfg a) \<noteq> [] \<or> nameId a \<noteq> [])"
  "sr_success (read_assertion cfg a) \<Longrightarrow> sr_username (read_assertion cfg a) =
     (if fst (read_attributes cfg a) \<noteq> [] then fst (read_attributes cfg a) else nameId a)"
  "sr_success (read_assertion cfg a) \<Longrightarrow> sr_username (read_assertion cfg a) \<noteq> []"
  by (auto simp: read_assertion_def no_result_def Let_def split: prod.splits if_splits)

text \<open>A point in time the code can read is before the year 10000, so adding a skew cannot wrap.\<close>

lemma get_number_range: "get_number lo hi n s = Some (v, rest) \<Longrightarrow> lo \<le> v \<and> v \<le> hi"
  by (auto simp: get_number_def Let_def split: if_splits prod.splits)

lemma field_then_range: "field_then lo hi n c s = Some (v, rest) \<Longrightarrow> lo \<le> v \<and> v \<le> hi"
  by (auto simp: field_then_def bind_eq_Some_conv dest: get_number_range)

lemma timegm_bound:
  assumes "y \<le> 9999" and "1 \<le> m" and "m \<le> 12" and "d \<le> 31" and "H \<le> 23" and "M \<le> 59" and "S \<le> 61"
  shows "timegm y m d H M S < 2 ^ 38"
proof -
  have "month_start ! (m - 1) \<le> 334"
    using nth_mem [of "m - 1" month_start] assms(2,3) by (fastforce simp: month_start_def)
  moreover have "days_before_year (int y) \<le> 365 * (int y - 1970) + 2500 + 25"
  proof -
    have "(int y - 1) div 4 \<le> 9998 div 4" "(int y - 1) div 400 \<le> 9998 div 400"
      using assms(1) by (intro zdiv_mono1; simp)+
    moreover have "- 1 \<le> (int y - 1) div 100" using zdiv_mono1 [of "- 1" "int y - 1" 100] by simp
    ultimately show ?thesis by (simp add: days_before_year_def)
  qed
  ultimately show ?thesis using assms by (simp add: timegm_def)
qed

lemma parse_bound: "parseIso8601 s < 2 ^ 38"
proof (cases "strptime_iso s")
  case (Some t)
  then obtain y m d H M S where "t = timegm y m d H M S" "y \<le> 9999" "1 \<le> m" "m \<le> 12" "d \<le> 31"
    "H \<le> 23" "M \<le> 59" "S \<le> 61"
    unfolding strptime_iso_def by (fastforce simp: bind_eq_Some_conv dest!: field_then_range get_number_range)
  with timegm_bound Some show ?thesis by (simp add: parseIso8601_def)
qed (simp add: parseIso8601_def)

text \<open>The unsigned comparisons of the code are those of the numbers while the clock is sane.\<close>

lemma check_conditions_None:
  assumes "check_conditions now cfg (Some c) = None" and "now < 2 ^ 62" and "sa_clockSkewSec cfg < 2 ^ 62"
  shows "attr ''NotBefore'' (Some c) \<noteq> [] \<Longrightarrow> parseIso8601 (attr ''NotBefore'' (Some c)) \<le> uint now + uint (sa_clockSkewSec cfg)"
    "attr ''NotOnOrAfter'' (Some c) \<noteq> [] \<Longrightarrow> 0 \<le> parseIso8601 (attr ''NotOnOrAfter'' (Some c)) \<Longrightarrow>
      uint now \<le> parseIso8601 (attr ''NotOnOrAfter'' (Some c)) + uint (sa_clockSkewSec cfg)"
    "audience_ok cfg c"
proof -
  let ?t = "\<lambda>n. parseIso8601 (attr n (Some c))" and ?skew = "sa_clockSkewSec cfg"
  have u: "uint now < 2 ^ 62" "uint ?skew < 2 ^ 62"
    using assms(2,3) by (simp_all add: word_less_def)
  have c: "attr ''NotBefore'' (Some c) \<noteq> [] \<Longrightarrow> (of_int (?t ''NotBefore'') :: u64) \<le> now + ?skew"
    "attr ''NotOnOrAfter'' (Some c) \<noteq> [] \<Longrightarrow> now \<le> of_int (?t ''NotOnOrAfter'') + ?skew"
    using assms(1) by (auto simp: check_conditions_def Let_def not_less split: if_splits)
  show "audience_ok cfg c" using assms(1) by (auto simp: check_conditions_def Let_def split: if_splits)
  have small: "uint (of_int (?t n) :: u64) = ?t n" if "0 \<le> ?t n" for n
    using that parse_bound [of "attr n (Some c)"] by (simp add: unsigned_of_int take_bit_int_eq_self)
  have add: "uint (a + b) = uint a + uint b" if "uint a < 2 ^ 62" "uint b < 2 ^ 62" for a b :: u64
    using that by (intro uint_add_lem [THEN iffD1]) simp
  show "attr ''NotBefore'' (Some c) \<noteq> [] \<Longrightarrow> ?t ''NotBefore'' \<le> uint now + uint ?skew"
  proof (cases "0 \<le> ?t ''NotBefore''")
    case True
    assume "attr ''NotBefore'' (Some c) \<noteq> []"
    from c(1) [OF this] show ?thesis by (simp only: word_le_def add [OF u] small [OF True])
  next
    case False
    then show ?thesis by (smt (verit) uint_nonnegative)
  qed
  show "uint now \<le> ?t ''NotOnOrAfter'' + uint ?skew"
    if "attr ''NotOnOrAfter'' (Some c) \<noteq> []" "0 \<le> ?t ''NotOnOrAfter''"
  proof -
    have "uint (of_int (?t ''NotOnOrAfter'') :: u64) < 2 ^ 62"
      unfolding small [OF that(2)] using parse_bound [of "attr ''NotOnOrAfter'' (Some c)"] by simp
    from c(2) [OF that(1)] add [OF this u(2)] show ?thesis by (simp only: word_le_def small [OF that(2)])
  qed
qed

text \<open>C28. A SAML response is accepted only from an identity provider's signature: its document, when it
  states a status, states success (one without a status passes, as the code lets it); it has,
  below the root, an assertion with a signature child that verifies under the configured certificate;
  that assertion names the configured issuer; when it has conditions, the time of the call lies in their
  window up to the clock skew (as numbers, for a clock and a skew below \<open>2\<^sup>6\<^sup>2\<close>) and the daemon is in the
  audience; the administrators' group is among its groups when one is configured; and the user signed in is
  the one the assertion names.\<close>

theorem saml_success_sound:
  assumes "sr_success (verifyResponse env cfg response)"
    and "se_now env < 2 ^ 62" and "sa_clockSkewSec cfg < 2 ^ 62"
  shows "\<exists>xs root i k a. saml_b64_decode response = Some xs \<and> se_parse env xs = Some (Some root) \<and>
    (case childByLocal ''Status'' (Some root) of None \<Rightarrow> True
     | Some st \<Rightarrow> attr ''Value'' (childByLocal ''StatusCode'' (Some st)) = ''urn:oasis:names:tc:SAML:2.0:status:Success'') \<and>
    at_path [i] root = Some a \<and> localIs ''Assertion'' a \<and> (\<exists>sig. at_path [i, k] root = Some sig \<and> localIs ''Signature'' sig) \<and>
    se_verify env (sa_idpCertPem cfg) (registerIds [] root []) root [i, k] = Some True \<and>
    nodeText (childByLocal ''Issuer'' (Some a)) = sa_idpEntityId cfg \<and>
    (case childByLocal ''Conditions'' (Some a) of None \<Rightarrow> True
     | Some c \<Rightarrow> (attr ''NotBefore'' (Some c) = [] \<or>
           parseIso8601 (attr ''NotBefore'' (Some c)) \<le> uint (se_now env) + uint (sa_clockSkewSec cfg)) \<and>
         (attr ''NotOnOrAfter'' (Some c) = [] \<or> parseIso8601 (attr ''NotOnOrAfter'' (Some c)) < 0 \<or>
           uint (se_now env) \<le> parseIso8601 (attr ''NotOnOrAfter'' (Some c)) + uint (sa_clockSkewSec cfg)) \<and>
         audience_ok cfg c) \<and>
    (sa_adminGroup cfg = [] \<or> sa_adminGroup cfg \<in> set (snd (read_attributes cfg a))) \<and>
    sr_username (verifyResponse env cfg response) \<noteq> [] \<and>
    sr_username (verifyResponse env cfg response) \<in> {fst (read_attributes cfg a), nameId a}"
proof -
  from assms(1) obtain xs root i k where d: "saml_b64_decode response = Some xs" "se_parse env xs = Some (Some root)"
    and acc: "accepted env cfg root i k"
    and r: "verifyResponse env cfg response = read_assertion cfg (xchildren root ! i)"
    unfolding verifyResponse_success by blast
  let ?a = "xchildren root ! i"
  from acc have signed: "findSignedAssertion root = Some (i, k)"
    "se_verify env (sa_idpCertPem cfg) (registerIds [] root []) root [i, k] = Some True"
    and checks: "nodeText (childByLocal ''Issuer'' (Some ?a)) = sa_idpEntityId cfg"
    "check_conditions (se_now env) cfg (childByLocal ''Conditions'' (Some ?a)) = None"
    and ok: "sr_success (read_assertion cfg ?a)" by (simp_all add: accepted_def)
  have cond: "case childByLocal ''Conditions'' (Some ?a) of None \<Rightarrow> True
     | Some c \<Rightarrow> (attr ''NotBefore'' (Some c) = [] \<or>
           parseIso8601 (attr ''NotBefore'' (Some c)) \<le> uint (se_now env) + uint (sa_clockSkewSec cfg)) \<and>
         (attr ''NotOnOrAfter'' (Some c) = [] \<or> parseIso8601 (attr ''NotOnOrAfter'' (Some c)) < 0 \<or>
           uint (se_now env) \<le> parseIso8601 (attr ''NotOnOrAfter'' (Some c)) + uint (sa_clockSkewSec cfg)) \<and>
         audience_ok cfg c"
  proof (cases "childByLocal ''Conditions'' (Some ?a)")
    case (Some c)
    have "check_conditions (se_now env) cfg (Some c) = None" using checks(2) Some by simp
    note c = check_conditions_None [OF this assms(2,3)]
    have "attr ''NotOnOrAfter'' (Some c) = [] \<or> parseIso8601 (attr ''NotOnOrAfter'' (Some c)) < 0 \<or>
        uint (se_now env) \<le> parseIso8601 (attr ''NotOnOrAfter'' (Some c)) + uint (sa_clockSkewSec cfg)"
      using c(2) by (meson linorder_not_le)
    with c(1,3) Some show ?thesis by auto
  qed simp
  have user: "sr_username (read_assertion cfg ?a) \<noteq> []"
    "sr_username (read_assertion cfg ?a) \<in> {fst (read_attributes cfg ?a), nameId ?a}"
    using read_assertion_success(2,3) [OF ok] by simp_all
  have group: "sa_adminGroup cfg = [] \<or> sa_adminGroup cfg \<in> set (snd (read_attributes cfg ?a))"
    using ok unfolding read_assertion_success(1) by (rule conjunct1)
  have sig: "\<exists>sig. at_path [i, k] root = Some sig \<and> localIs ''Signature'' sig"
    using findSignedAssertion_Some [OF signed(1)] by blast
  have status: "case childByLocal ''Status'' (Some root) of None \<Rightarrow> True
     | Some st \<Rightarrow> attr ''Value'' (childByLocal ''StatusCode'' (Some st)) = ''urn:oasis:names:tc:SAML:2.0:status:Success''"
    using acc by (auto simp: accepted_def status_refused_def kStatusOk_def split: option.splits)
  show ?thesis
    unfolding r
    by (rule exI [of _ xs], rule exI [of _ root], rule exI [of _ i], rule exI [of _ k], rule exI [of _ ?a],
        intro conjI d status signed(2) findSignedAssertion_Some(1,2) [OF signed(1)] sig checks(1) cond group user)
qed

subsection \<open>What a signature speaks for\<close>

text \<open>
  XML signatures (exclusive canonicalisation, enveloped transform, the form SAML prescribes) are over
  what their references name: the element that carries the identifier, without the signature itself
  where that is inside; anything else is read as the whole document. The verification depends on
  nothing but the certificate, the signature and what it is over.
\<close>

fun remove_at :: "xml_path \<Rightarrow> xml \<Rightarrow> xml" where
  "remove_at [k] (XElem n as cs) = XElem n as (take k cs @ drop (Suc k) cs)"
| "remove_at (k # p) (XElem n as cs) =
     (if k < length cs then XElem n as (cs[k := remove_at p (cs ! k)]) else XElem n as cs)"
| "remove_at p n = n"

definition reference_uris :: "xml \<Rightarrow> string list" where
  "reference_uris sig =
     (case childByLocal ''SignedInfo'' (Some sig) of None \<Rightarrow> []
      | Some si \<Rightarrow> map (\<lambda>r. attr ''URI'' (Some r)) (filter (localIs ''Reference'') (xchildren si)))"

definition dereference :: "id_table \<Rightarrow> xml \<Rightarrow> xml_path \<Rightarrow> string \<Rightarrow> xml option" where
  "dereference ids root p uri =
     (case (if prefix ''#'' uri then map_of ids (tl uri) else None) of
        None \<Rightarrow> Some (remove_at p root)
      | Some q \<Rightarrow> map_option (if strict_prefix q p then remove_at (drop (length q) p) else id) (at_path q root))"

definition signed_parts :: "id_table \<Rightarrow> xml \<Rightarrow> xml_path \<Rightarrow> xml option list" where
  "signed_parts ids root p =
     (case at_path p root of None \<Rightarrow> [] | Some sig \<Rightarrow> map (dereference ids root p) (reference_uris sig))"

locale by_reference =
  fixes verify :: "string \<Rightarrow> id_table \<Rightarrow> xml \<Rightarrow> xml_path \<Rightarrow> bool option"
  assumes same_parts: "at_path p root = Some sig \<Longrightarrow> at_path p' root' = Some sig \<Longrightarrow>
    signed_parts ids root p = signed_parts ids' root' p' \<Longrightarrow> verify cert ids root p = verify cert ids' root' p'"

text \<open>
  Such a verification exists: the signature value is a code of what is signed under the certificate's key.
\<close>

definition ideal_verify :: "(string \<Rightarrow> xml option list \<Rightarrow> string) \<Rightarrow> string \<Rightarrow> id_table \<Rightarrow> xml \<Rightarrow> xml_path \<Rightarrow> bool option" where
  "ideal_verify code cert ids root p =
     (case at_path p root of None \<Rightarrow> None
      | Some sig \<Rightarrow> Some (nodeText (childByLocal ''SignatureValue'' (Some sig)) = code cert (signed_parts ids root p)))"

interpretation ideal: by_reference "ideal_verify code"
  by unfold_locales (simp add: ideal_verify_def)

subsection \<open>Moving a signature\<close>

text \<open>
  The forged response: an assertion of the attacker's making that contains, under \<^verbatim>\<open>Advice\<close>, the
  genuine one without its signature, and the genuine signature as its own.
\<close>

definition xtext :: "string \<Rightarrow> string \<Rightarrow> xml" where
  "xtext name t = XElem name [] [XText t]"

definition forged_response :: "saml_config \<Rightarrow> string \<Rightarrow> xml \<Rightarrow> nat \<Rightarrow> xml" where
  "forged_response cfg user genuine k =
     XElem ''Response'' []
       [XElem ''Assertion'' []
          [XElem ''Advice'' [] [remove_at [k] genuine],
           xchildren genuine ! k,
           xtext ''Issuer'' (sa_idpEntityId cfg),
           XElem ''Subject'' [] [xtext ''NameID'' user],
           XElem ''AttributeStatement'' []
             [XElem ''Attribute'' [(''Name'', sa_groupsAttr cfg)] [xtext ''AttributeValue'' (sa_adminGroup cfg)]]]]"

lemma trimmed_nodeText: "nodeText (Some (XText (nodeText n))) = nodeText n"
proof -
  have r: "dropWhile xml_blank (rev (dropWhile xml_blank (rev (dropWhile xml_blank s)))) = rev (dropWhile xml_blank (rev (dropWhile xml_blank s)))"
    for s
  proof -
    let ?d = "dropWhile xml_blank s"
    have "rev (dropWhile xml_blank (rev ?d)) = [] \<or> \<not> xml_blank (hd (rev (dropWhile xml_blank (rev ?d))))"
    proof (cases "dropWhile xml_blank (rev ?d) = []")
      case False
      then obtain c cs where c: "?d = c # cs" by (cases ?d) auto
      have "\<not> xml_blank c" using c by (metis dropWhile_eq_Cons_conv)
      then have "dropWhile xml_blank (rev ?d) = dropWhile xml_blank (rev cs) @ [c]"
        by (auto simp: c dropWhile_append dropWhile_eq_Nil_conv)
      then show ?thesis using \<open>\<not> xml_blank c\<close> by simp
    qed simp
    then show ?thesis by (metis dropWhile.simps(1) dropWhile.simps(2) list.exhaust_sel)
  qed
  show ?thesis by (cases n) (simp_all add: nodeText_def r dropWhile_idem)
qed

lemma nodeText_xtext: "nodeText (Some (XText t)) = t \<Longrightarrow> nodeText (Some (xtext name t)) = t"
  by (simp add: nodeText_def xtext_def)

lemma add_id_keeps: "map_of ids v = Some q \<Longrightarrow> map_of (add_id p w ids) v = Some q"
  by (auto simp: add_id_def map_add_def split: option.split)

lemma registerIds_keeps:
  "map_of ids v = Some q \<Longrightarrow> map_of (registerIds p n ids) v = Some q"
  "map_of ids v = Some q \<Longrightarrow> map_of (register_list p i ns ids) v = Some q"
  by (induction p n ids and p i ns ids rule: registerIds_register_list.induct) (simp_all add: add_id_keeps)

lemma groups_trimmed:
  assumes "g \<in> set (snd (read_attributes cfg a))"
  shows "nodeText (Some (XText g)) = g"
proof -
  have step: "set (snd (read_attribute cfg at r)) \<subseteq> range nodeText" if "set (snd r) \<subseteq> range nodeText" for at r
    using that by (cases r) (auto simp: read_attribute_def attribute_values_def Let_def split: option.split)
  have "set (snd (fold (read_attribute cfg) ats r)) \<subseteq> range nodeText" if "set (snd r) \<subseteq> range nodeText" for ats r
    using that
  proof (induction ats arbitrary: r)
    case (Cons at ats)
    from Cons.IH [OF step [OF Cons.prems]] show ?case by simp
  qed simp
  from this [of "([], [])"] have "set (snd (read_attributes cfg a)) \<subseteq> range nodeText"
    by (simp add: read_attributes_def split: option.split)
  with assms obtain n where "g = nodeText n" by blast
  then show ?thesis using trimmed_nodeText by metis
qed

interpretation saml: base64_alphabet b64_std std_val saml_b64_loop
proof unfold_locales
  fix c buf bits rest
  assume c: "c \<noteq> CHR ''=''" "0 \<le> std_val c"
  then have "\<not> xml_blank c" by (auto simp: xml_blank_def std_val_def b64_val_def is_between_def)
  with c show "saml_b64_loop buf bits (c # rest) =
    (let buf = push_bit 6 buf OR of_int (std_val c); bits = bits + 6 in
     if bits \<ge> 8
     then map_option (\<lambda>out. ucast (drop_bit (bits - 8) buf AND 0xFF) # out) (saml_b64_loop buf (bits - 8) rest)
     else saml_b64_loop buf bits rest)"
    by simp
qed (simp_all add: b64_tables)

lemma saml_b64_roundtrip: "saml_b64_decode (base64Encode bs) = Some bs"
  by (simp add: saml_b64_decode_def base64Encode_def saml.loop_groups)

text \<open>The parts of the forged document.\<close>

lemma forged_parts:
  fixes cfg user
  assumes "localIs ''Signature'' (xchildren g ! k)" and "g = XElem n as cs" and "map_of as ''ID'' = Some aid" and "aid \<noteq> []"
  defines "F \<equiv> forged_response cfg user g k"
  shows "findSignedAssertion F = Some (0, 1)" "map_of (registerIds [] F []) aid = Some [0, 0, 0]"
    "at_path [0, 0, 0] F = Some (remove_at [k] g)" "at_path [0, 1] F = Some (xchildren g ! k)"
    "\<not> status_refused F" "childByLocal ''Conditions'' (Some (xchildren F ! 0)) = None"
    "childByLocal ''Issuer'' (Some (xchildren F ! 0)) = Some (xtext ''Issuer'' (sa_idpEntityId cfg))"
    "nameId (xchildren F ! 0) = nodeText (Some (xtext ''NameID'' user))"
    "read_attributes cfg (xchildren F ! 0) = read_attribute cfg (XElem ''Attribute'' [(''Name'', sa_groupsAttr cfg)]
       [xtext ''AttributeValue'' (sa_adminGroup cfg)]) ([], [])"
proof -
  obtain as' cs' where sig: "xchildren g ! k = XElem ''Signature'' as' cs'"
    using assms(1) by (auto simp: localIs_def split: xml.splits)
  note defs = F_def forged_response_def sig xtext_def localIs_def
  show "findSignedAssertion F = Some (0, 1)" by (simp add: defs findSignedAssertion_def)
  show "at_path [0, 0, 0] F = Some (remove_at [k] g)" "at_path [0, 1] F = Some (xchildren g ! k)" by (simp_all add: defs)
  show "\<not> status_refused F" "childByLocal ''Conditions'' (Some (xchildren F ! 0)) = None"
    "childByLocal ''Issuer'' (Some (xchildren F ! 0)) = Some (xtext ''Issuer'' (sa_idpEntityId cfg))"
    "nameId (xchildren F ! 0) = nodeText (Some (xtext ''NameID'' user))"
    by (simp_all add: defs status_refused_def childByLocal_def nameId_def)
  show "read_attributes cfg (xchildren F ! 0) = read_attribute cfg (XElem ''Attribute'' [(''Name'', sa_groupsAttr cfg)]
       [xtext ''AttributeValue'' (sa_adminGroup cfg)]) ([], [])"
    by (simp add: defs read_attributes_def childByLocal_def)
  have "map_of (register_list [0, 0, 0] 0 (take k cs @ drop (Suc k) cs) [(aid, [0, 0, 0])]) aid = Some [0, 0, 0]"
    by (rule registerIds_keeps(2)) simp
  then show "map_of (registerIds [] F []) aid = Some [0, 0, 0]"
    using assms(2-4) by (auto simp: F_def forged_response_def add_id_def intro!: registerIds_keeps)
qed

text \<open>C29. The converse does not hold: an accepted response does not say that the identity provider vouched
  for its user. Given any accepted response whose signature is over its assertion, and any user name,
  the response that moves the genuine assertion below a forged one and its signature with it is
  accepted for that name (for as long as signatures speak for what they reference): the code
  never compares the signature's reference with the assertion it reads. The forged assertion needs no
  conditions, so the window of the genuine one does not matter either.\<close>

theorem signature_wrapping:
  assumes "by_reference (se_verify env)"
    and "sr_success (verifyResponse env cfg response)"
    and "saml_b64_decode response = Some xs" and "se_parse env xs = Some (Some root)"
    and "findSignedAssertion root = Some (i, k)"
    and "reference_uris (xchildren (xchildren root ! i) ! k) = [''#'' @ aid]"
    and "attr ''ID'' (Some (xchildren root ! i)) = aid" and "map_of (registerIds [] root []) aid = Some [i]" and "aid \<noteq> []"
    and "sa_emailAttr cfg \<noteq> sa_groupsAttr cfg"
    and "user \<noteq> []" and "nodeText (Some (XText user)) = user"
    and "se_parse env ys = Some (Some (forged_response cfg user (xchildren root ! i) k))" and "ys \<noteq> []"
  shows "sr_success (verifyResponse env cfg (base64Encode ys)) \<and> sr_username (verifyResponse env cfg (base64Encode ys)) = user"
proof -
  let ?g = "xchildren root ! i" and ?F = "forged_response cfg user (xchildren root ! i) k"
  obtain n as cs where g: "?g = XElem n as cs" "map_of as ''ID'' = Some aid"
    using assms(7,9) by (auto simp: attr_def split: xml.splits option.splits)
  note find = findSignedAssertion_Some [OF assms(5)]
  note parts = forged_parts [OF find(4) g assms(9), where cfg = cfg and user = user]
  from assms(2-5) have on: "sa_enabled cfg" "se_xmlsec env" and acc: "accepted env cfg root i k"
    unfolding verifyResponse_success by (auto simp: accepted_def)
  have "signed_parts (registerIds [] root []) root [i, k] = [Some (remove_at [k] ?g)]"
    by (simp add: signed_parts_def find(1,3) assms(6,8) dereference_def del: at_path.simps)
  moreover have "signed_parts (registerIds [] ?F []) ?F [0, 1] = [Some (remove_at [k] ?g)]"
    by (simp add: signed_parts_def parts(2-3) parts(4) assms(6) dereference_def del: at_path.simps One_nat_def)
  ultimately have "signed_parts (registerIds [] root []) root [i, k] = signed_parts (registerIds [] ?F []) ?F [0, 1]"
    by (rule trans [OF _ sym])
  from by_reference.same_parts [OF assms(1) find(3) parts(4) this, of "sa_idpCertPem cfg"] acc
  have verified: "se_verify env (sa_idpCertPem cfg) (registerIds [] ?F []) ?F [0, 1] = Some True"
    by (metis accepted_def)
  have issuer: "nodeText (Some (xtext ''Issuer'' (sa_idpEntityId cfg))) = sa_idpEntityId cfg"
  proof (rule nodeText_xtext)
    from acc have "nodeText (childByLocal ''Issuer'' (Some ?g)) = sa_idpEntityId cfg" by (simp add: accepted_def)
    from trimmed_nodeText [of "childByLocal ''Issuer'' (Some ?g)", unfolded this]
    show "nodeText (Some (XText (sa_idpEntityId cfg))) = sa_idpEntityId cfg" .
  qed
  have "sr_success (read_assertion cfg ?g)" using acc by (simp add: accepted_def)
  then have group: "sa_adminGroup cfg = [] \<or> nodeText (Some (XText (sa_adminGroup cfg))) = sa_adminGroup cfg"
    using groups_trimmed by (auto simp: read_assertion_success(1))
  have attrs: "fst (read_attributes cfg (xchildren ?F ! 0)) = []"
    "sa_adminGroup cfg = [] \<or> sa_adminGroup cfg \<in> set (snd (read_attributes cfg (xchildren ?F ! 0)))"
    using assms(10) group
    by (auto simp: parts(9) read_attribute_def attr_def localIs_def attribute_values_def Let_def nodeText_xtext)
      (auto simp: xtext_def)
  have name: "nameId (xchildren ?F ! 0) = user" using nodeText_xtext [OF assms(12)] by (simp add: parts(8))
  then have ok: "sr_success (read_assertion cfg (xchildren ?F ! 0))"
    using attrs assms(11) by (simp add: read_assertion_success(1))
  then have "accepted env cfg ?F 0 1"
    using acc issuer verified parts(1,5-7) by (simp add: accepted_def check_conditions_def del: One_nat_def)
  from verifyResponse_accepted [OF on saml_b64_roundtrip assms(14,13) this] ok name attrs(1)
  show ?thesis by (simp add: read_assertion_success(2))
qed

subsection \<open>An example\<close>

definition saml_example_sig :: xml where
  "saml_example_sig = XElem ''Signature'' []
     [XElem ''SignedInfo'' [] [XElem ''Reference'' [(''URI'', ''#a1'')] []], xtext ''SignatureValue'' ''code'']"

definition saml_example_assertion :: "xml list \<Rightarrow> xml" where
  "saml_example_assertion sig = XElem ''Assertion'' [(''ID'', ''a1'')]
     ([xtext ''Issuer'' ''idp''] @ sig @
      [XElem ''Subject'' [] [xtext ''NameID'' ''ann''],
       XElem ''Conditions'' [(''NotBefore'', ''2024-01-01T00:00:00Z''), (''NotOnOrAfter'', ''2024-01-01T01:00:00Z'')]
         [XElem ''AudienceRestriction'' [] [xtext ''Audience'' ''sp'']]])"

definition saml_example_response :: xml where
  "saml_example_response = XElem ''Response'' []
     [XElem ''Status'' [] [XElem ''StatusCode'' [(''Value'', kStatusOk)] []], saml_example_assertion [saml_example_sig]]"

definition saml_example_cfg :: saml_config where
  "saml_example_cfg = saml_config_new\<lparr>sa_enabled := True, sa_idpEntityId := ''idp'', sa_spEntityId := ''sp''\<rparr>"

definition saml_example_env :: saml_env where
  "saml_example_env = \<lparr>se_now = 1704069000, se_utcNow = ''2024-01-01T00:30:00Z'', se_random = [], se_deflate = Some \<circ> bytes_of_string,
     se_xmlsec = True,
     se_parse = (\<lambda>bs. if bs = [0] then Some (Some saml_example_response)
       else if bs = [1] then Some (Some (forged_response saml_example_cfg ''eve'' (saml_example_assertion [saml_example_sig]) 1))
       else None),
     se_keysMngr = True, se_loadCert = (\<lambda>_. True), se_dsigCtx = True,
     se_verify = ideal_verify (\<lambda>_ parts. if parts = [Some (saml_example_assertion [])] then ''code'' else ''none'')\<rparr>"

lemma saml_example_outcome:
  "(let r = verifyResponse saml_example_env saml_example_cfg ''AA=='' in (sr_success r, sr_username r, sr_error r)) = (True, ''ann'', [])"
  by code_simp

lemma saml_example_accepted:
  "sr_success (verifyResponse saml_example_env saml_example_cfg ''AA=='')"
  "sr_username (verifyResponse saml_example_env saml_example_cfg ''AA=='') = ''ann''"
  "sr_error (verifyResponse saml_example_env saml_example_cfg ''AA=='') = []"
  using saml_example_outcome by (simp_all add: Let_def)

theorem saml_success_sound_witness:
  "\<exists>root st i a. se_parse saml_example_env [0] = Some (Some root) \<and> at_path [i] root = Some a \<and> localIs ''Assertion'' a \<and>
     childByLocal ''Status'' (Some root) = Some st \<and>
     attr ''Value'' (childByLocal ''StatusCode'' (Some st)) = ''urn:oasis:names:tc:SAML:2.0:status:Success'' \<and>
     nodeText (childByLocal ''Issuer'' (Some a)) = ''idp''"
proof -
  have x: "se_now saml_example_env < 2 ^ 62" "sa_clockSkewSec saml_example_cfg < 2 ^ 62"
    "saml_b64_decode ''AA=='' = Some [0]" "sa_idpEntityId saml_example_cfg = ''idp''"
    "se_parse saml_example_env [0] = Some (Some saml_example_response)"
    "childByLocal ''Status'' (Some saml_example_response) =
       Some (XElem ''Status'' [] [XElem ''StatusCode'' [(''Value'', kStatusOk)] []])" by code_simp+
  from saml_success_sound [OF saml_example_accepted(1) x(1,2)] x(3-) show ?thesis by fastforce
qed

theorem signature_wrapping_witness:
  "sr_username (verifyResponse saml_example_env saml_example_cfg (base64Encode [1])) = ''eve''"
proof -
  have "by_reference (se_verify saml_example_env)" by (simp add: saml_example_env_def ideal.by_reference_axioms)
  moreover have "saml_b64_decode ''AA=='' = Some [0]" "se_parse saml_example_env [0] = Some (Some saml_example_response)"
    "findSignedAssertion saml_example_response = Some (1, 1)"
    "reference_uris (xchildren (xchildren saml_example_response ! 1) ! 1) = [''#'' @ ''a1'']"
    "attr ''ID'' (Some (xchildren saml_example_response ! 1)) = ''a1''"
    "map_of (registerIds [] saml_example_response []) ''a1'' = Some [1]"
    "sa_emailAttr saml_example_cfg \<noteq> sa_groupsAttr saml_example_cfg"
    "nodeText (Some (XText ''eve'')) = ''eve''"
    "se_parse saml_example_env [1] = Some (Some (forged_response saml_example_cfg ''eve'' (xchildren saml_example_response ! 1) 1))"
    by code_simp+
  ultimately show ?thesis
    using signature_wrapping [OF _ saml_example_accepted(1), of "[0]" saml_example_response 1 1 "''a1''" "''eve''" "[1]"] by simp
qed

end
