(* ===== verification/Oidc_Client.thy ===== *)
theory Oidc_Client
  imports Text_Codec Config_Store
begin

text \<open>
  The OpenID Connect client of the authentication daemon (\<^verbatim>\<open>authd/service/auth/OktaClient.cpp\<close>): the
  authorization request with its state, nonce and code verifier, the exchange of the code the browser
  brings back, and the verification of the identity token. The clock, the random digits, SHA-256, the
  HTTPS exchange, JSON parsing and the RSA arithmetic are fields of \<open>oidc_env\<close>; the clock is read once
  when a call starts and again when the claims are checked. An exception that leaves a call is a value of
  \<open>stoi_error\<close>.
\<close>

subsection \<open>Numbers in text\<close>

text \<open>\<^verbatim>\<open>std::stoi\<close>: blanks, a sign, digits; what follows them is not looked at.\<close>

datatype stoi_error = InvalidArgument | OutOfRange

definition isspace :: "char \<Rightarrow> bool" where
  "isspace c \<longleftrightarrow> c = CHR '' '' \<or> 9 \<le> (of_char c :: nat) \<and> (of_char c :: nat) \<le> 13"

definition stoi :: "string \<Rightarrow> stoi_error + int" where
  "stoi s =
     (let s = dropWhile isspace s;
          neg = (s \<noteq> [] \<and> hd s = CHR ''-'');
          s = (if s \<noteq> [] \<and> (hd s = CHR ''-'' \<or> hd s = CHR ''+'') then tl s else s);
          ds = takeWhile isdigit s;
          v = foldl (\<lambda>v c. v * 10 + (int (of_char c) - of_char CHR ''0'')) 0 ds;
          v = (if neg then - v else v) in
      if ds = [] then Inl InvalidArgument
      else if v < - (2 ^ 31) \<or> 2 ^ 31 \<le> v then Inl OutOfRange
      else Inr v)"

text \<open>For its own \<^verbatim>\<open>uint64_t\<close> the JSON library takes a number and nothing else.\<close>

definition get_uint64 :: "json \<Rightarrow> json_error + u64" where
  "get_uint64 j = (case j of JInt i \<Rightarrow> Inr (of_int i) | _ \<Rightarrow> Inl (TypeError 302))"

subsection \<open>The state and the world of a call\<close>

record oidc_config =
  oc_enabled :: bool
  oc_issuer :: string
  oc_clientId :: string
  oc_clientSecret :: string
  oc_redirectUri :: string
  oc_scopes :: string
  oc_verifyTls :: bool
  oc_timeoutMs :: int
  oc_txnTtlSec :: u64

definition oidc_config_new :: oidc_config where
  "oidc_config_new = \<lparr>oc_enabled = False, oc_issuer = [], oc_clientId = [], oc_clientSecret = [], oc_redirectUri = [],
     oc_scopes = ''openid email profile'', oc_verifyTls = True, oc_timeoutMs = 5000, oc_txnTtlSec = 300\<rparr>"

record txn =
  tx_nonce :: string
  tx_codeVerifier :: string
  tx_expiresAt :: u64

record oidc =
  oi_cfg :: oidc_config
  oi_txns :: "(string \<times> txn) list"

record https_request =
  hq_method :: string
  hq_host :: string
  hq_port :: u16
  hq_target :: string
  hq_body :: string
  hq_contentType :: string
  hq_timeoutMs :: int
  hq_verifyTls :: bool

record https_response =
  hp_ok :: bool
  hp_status :: int
  hp_body :: string
  hp_error :: string

record oidc_env =
  oe_now :: u64
  oe_checkedAt :: u64
  oe_digits :: "nat list"
  oe_sha256 :: "string \<Rightarrow> bytes"
  oe_send :: "https_request \<Rightarrow> https_response"
  oe_parse :: "string \<Rightarrow> json option"
  oe_what :: "json_error \<Rightarrow> string"
  oe_rs256 :: "bytes \<Rightarrow> bytes \<Rightarrow> bytes \<Rightarrow> string \<Rightarrow> bool"

record oidc_start =
  os_success :: bool
  os_authorizeUrl :: string
  os_state :: string
  os_error :: string

record oidc_result =
  or_success :: bool
  or_username :: string
  or_error :: string

definition oidc_configure :: "oidc_config \<Rightarrow> oidc \<Rightarrow> oidc" where
  "oidc_configure cfg s = s\<lparr>oi_cfg := cfg, oi_txns := []\<rparr>"

definition oidc_parse :: "oidc_env \<Rightarrow> string \<Rightarrow> json_error + json" where
  "oidc_parse env s = (case oe_parse env s of None \<Rightarrow> Inl (TypeError 101) | Some j \<Rightarrow> Inr j)"

subsection \<open>Starting a sign-in\<close>

text \<open>A token of so many bytes, from the digits at hand.\<close>

definition randomToken :: "nat \<Rightarrow> nat list \<Rightarrow> string" where
  "randomToken n ds = map (\<lambda>k. hex_lower ! (k mod 16)) (take (2 * n) ds)"

record endpoint =
  ep_host :: string
  ep_port :: u16
  ep_basePath :: string

definition parseIssuer :: "string \<Rightarrow> stoi_error + endpoint option" where
  "parseIssuer issuer =
     (if \<not> prefix ''https://'' issuer then Inr None
      else
        let rest = drop 8 issuer;
            hostport = takeWhile (\<lambda>c. c \<noteq> CHR ''/'') rest;
            basePath = dropWhile (\<lambda>c. c \<noteq> CHR ''/'') rest;
            host = takeWhile (\<lambda>c. c \<noteq> CHR '':'') hostport in
        bind_err (if CHR '':'' \<in> set hostport
                  then map_sum id of_int (stoi (drop (Suc (length host)) hostport)) else Inr 443) (\<lambda>port.
          if host = [] then Inr None
          else
            let basePath = (if basePath \<noteq> [] \<and> last basePath = CHR ''/'' then butlast basePath else basePath) in
            Inr (Some \<lparr>ep_host = host, ep_port = port, ep_basePath = basePath\<rparr>)))"

definition pruneExpired :: "u64 \<Rightarrow> oidc \<Rightarrow> oidc" where
  "pruneExpired now s = s\<lparr>oi_txns := filter (\<lambda>(st, t). \<not> tx_expiresAt t < now) (oi_txns s)\<rparr>"

definition authorize_url :: "oidc_config \<Rightarrow> endpoint \<Rightarrow> string \<Rightarrow> string \<Rightarrow> string \<Rightarrow> string" where
  "authorize_url cfg ep state nonce challenge =
     ''https://'' @ ep_host ep @ (if ep_port ep \<noteq> 443 then '':'' @ to_string (uint (ep_port ep)) else []) @
     ep_basePath ep @ ''/v1/authorize?client_id='' @ urlEncode (oc_clientId cfg) @ ''&response_type=code&scope='' @
     urlEncode (oc_scopes cfg) @ ''&redirect_uri='' @ urlEncode (oc_redirectUri cfg) @ ''&state='' @ state @
     ''&nonce='' @ nonce @ ''&code_challenge='' @ challenge @ ''&code_challenge_method=S256''"

definition buildAuthorizeUrl :: "oidc_env \<Rightarrow> oidc \<Rightarrow> (stoi_error + oidc_start) \<times> oidc" where
  "buildAuthorizeUrl env s =
     (let cfg = oi_cfg s; r = \<lparr>os_success = False, os_authorizeUrl = [], os_state = [], os_error = []\<rparr> in
      if \<not> oc_enabled cfg then (Inr (r\<lparr>os_error := ''oidc disabled''\<rparr>), s)
      else case parseIssuer (oc_issuer cfg) of
        Inl e \<Rightarrow> (Inl e, s)
      | Inr None \<Rightarrow> (Inr (r\<lparr>os_error := ''bad issuer''\<rparr>), s)
      | Inr (Some ep) \<Rightarrow>
          let s = pruneExpired (oe_now env) s;
              txn = \<lparr>tx_nonce = randomToken 16 (oe_digits env), tx_codeVerifier = randomToken 32 (drop 32 (oe_digits env)),
                tx_expiresAt = oe_now env + oc_txnTtlSec cfg\<rparr>;
              state = randomToken 16 (drop 96 (oe_digits env));
              challenge = base64UrlEncode (oe_sha256 env (tx_codeVerifier txn));
              url = authorize_url cfg ep state (tx_nonce txn) challenge in
          (Inr (r\<lparr>os_success := True, os_authorizeUrl := url, os_state := state\<rparr>),
           s\<lparr>oi_txns := AList.update state txn (oi_txns s)\<rparr>))"

subsection \<open>The identity token\<close>

text \<open>Exactly two dots.\<close>

definition splitJwt :: "string \<Rightarrow> (string \<times> string \<times> string) option" where
  "splitJwt jwt =
     Option.bind (find_from ''.'' jwt 0) (\<lambda>d1.
     Option.bind (find_from ''.'' jwt (d1 + 1)) (\<lambda>d2.
     if find_from ''.'' jwt (d2 + 1) \<noteq> None then None
     else Some (take d1 jwt, take (d2 - d1 - 1) (drop (d1 + 1) jwt), drop (d2 + 1) jwt)))"

text \<open>The modulus and exponent of the first RSA key with that identifier, or empty ones.\<close>

fun find_key :: "string \<Rightarrow> json list \<Rightarrow> json_error + string \<times> string" where
  "find_key kid [] = Inr ([], [])"
| "find_key kid (k # ks) =
     bind_err (jvalue get_str ''kid'' [] k) (\<lambda>kid'.
     bind_err (if kid' = kid then map_sum id (\<lambda>kty. kty = ''RSA'') (jvalue get_str ''kty'' [] k) else Inr False) (\<lambda>hit.
       if hit then bind_err (jvalue get_str ''n'' [] k) (\<lambda>n. map_sum id (Pair n) (jvalue get_str ''e'' [] k))
       else find_key kid ks))"

definition https_get :: "string \<Rightarrow> u16 \<Rightarrow> string \<Rightarrow> int \<Rightarrow> bool \<Rightarrow> https_request" where
  "https_get host port target timeoutMs verifyTls =
     \<lparr>hq_method = ''GET'', hq_host = host, hq_port = port, hq_target = target, hq_body = [],
      hq_contentType = ''application/x-www-form-urlencoded'', hq_timeoutMs = timeoutMs, hq_verifyTls = verifyTls\<rparr>"

definition keys_request :: "oidc_config \<Rightarrow> endpoint \<Rightarrow> https_request" where
  "keys_request cfg ep =
     https_get (ep_host ep) (ep_port ep) (ep_basePath ep @ ''/v1/keys'') (oc_timeoutMs cfg) (oc_verifyTls cfg)"

definition verifySignatureRs256 :: "oidc_env \<Rightarrow> oidc_config \<Rightarrow> string \<Rightarrow> string \<Rightarrow> string \<Rightarrow> stoi_error + string option" where
  "verifySignatureRs256 env cfg signingInput signatureB64Url kid =
     map_sum id (\<lambda>ep. case ep of
         None \<Rightarrow> Some ''bad issuer''
       | Some ep \<Rightarrow>
           let resp = oe_send env (keys_request cfg ep) in
           if \<not> hp_ok resp then Some ''jwks fetch failed''
           else case bind_err (oidc_parse env (hp_body resp)) (\<lambda>jwks.
                     bind_err (jvalue get_json ''keys'' (JArr []) jwks) (\<lambda>ks. find_key kid (jiterate ks))) of
             Inl e \<Rightarrow> Some (''jwks parse: '' @ oe_what env e)
           | Inr (n64, e64) \<Rightarrow>
               if n64 = [] \<or> e64 = [] then Some ''kid not found in jwks''
               else (case (base64UrlDecode n64, base64UrlDecode e64, base64UrlDecode signatureB64Url) of
                       (Some n, Some e, Some sig) \<Rightarrow>
                         if oe_rs256 env n e sig signingInput then None else Some ''rs256 signature invalid''
                     | _ \<Rightarrow> Some ''jwks/sig decode failed''))
       (parseIssuer (oc_issuer cfg))"

definition audience_matches :: "string \<Rightarrow> json \<Rightarrow> bool" where
  "audience_matches clientId claims =
     (case jfind ''aud'' claims of
        Some (JStr a) \<Rightarrow> a = clientId
      | Some (JArr xs) \<Rightarrow> JStr clientId \<in> set xs
      | _ \<Rightarrow> False)"

text \<open>The checks of the claims: an exception, an error, or the name of the user.\<close>

definition check_claims :: "oidc_env \<Rightarrow> oidc_config \<Rightarrow> string \<Rightarrow> json \<Rightarrow> json_error + (string + string)" where
  "check_claims env cfg expectedNonce claims =
     (let now = oe_checkedAt env in
      bind_err (jvalue get_str ''iss'' [] claims) (\<lambda>iss.
      if iss \<noteq> oc_issuer cfg then Inr (Inl ''iss mismatch'')
      else if \<not> audience_matches (oc_clientId cfg) claims then Inr (Inl ''aud mismatch'')
      else bind_err (jvalue get_uint64 ''exp'' 0 claims) (\<lambda>exp.
      if exp \<le> now then Inr (Inl ''expired'')
      else bind_err (case jfind ''nbf'' claims of None \<Rightarrow> Inr False | Some j \<Rightarrow> map_sum id (\<lambda>nbf. nbf > now + 60) (get_uint64 j)) (\<lambda>early.
      if early then Inr (Inl ''not yet valid'')
      else bind_err (if expectedNonce \<noteq> [] then map_sum id (\<lambda>n. n \<noteq> expectedNonce) (jvalue get_str ''nonce'' [] claims) else Inr False) (\<lambda>wrong.
      if wrong then Inr (Inl ''nonce mismatch'')
      else bind_err (jvalue get_str ''email'' [] claims) (\<lambda>email.
      bind_err (if email = [] then jvalue get_str ''preferred_username'' [] claims else Inr email) (\<lambda>email.
      bind_err (if email = [] then jvalue get_str ''sub'' [] claims else Inr email) (\<lambda>email.
      if email = [] then Inr (Inl ''no email/sub claim'') else Inr (Inr email)))))))))"

definition verifyIdToken :: "oidc_env \<Rightarrow> oidc_config \<Rightarrow> string \<Rightarrow> string \<Rightarrow> stoi_error + (string + string)" where
  "verifyIdToken env cfg idToken expectedNonce =
     (case splitJwt idToken of
        None \<Rightarrow> Inr (Inl ''malformed jwt'')
      | Some (h64, p64, s64) \<Rightarrow>
          (case (base64UrlDecode h64, base64UrlDecode p64) of
             (Some h, Some p) \<Rightarrow>
               (case bind_err (oidc_parse env (map char_of_byte h)) (\<lambda>hdr.
                     bind_err (jvalue get_str ''alg'' [] hdr) (\<lambda>alg.
                     if alg \<noteq> ''RS256'' then Inr None else map_sum id Some (jvalue get_str ''kid'' [] hdr))) of
                  Inl e \<Rightarrow> Inr (Inl (''header parse: '' @ oe_what env e))
                | Inr None \<Rightarrow> Inr (Inl ''unexpected alg'')
                | Inr (Some kid) \<Rightarrow>
                    if kid = [] then Inr (Inl ''no kid'')
                    else bind_err (verifySignatureRs256 env cfg (h64 @ ''.'' @ p64) s64 kid) (\<lambda>err.
                      case err of Some e \<Rightarrow> Inr (Inl e)
                      | None \<Rightarrow>
                          (case bind_err (oidc_parse env (map char_of_byte p)) (check_claims env cfg expectedNonce) of
                             Inl e \<Rightarrow> Inr (Inl (''claims parse: '' @ oe_what env e))
                           | Inr r \<Rightarrow> Inr r)))
           | _ \<Rightarrow> Inr (Inl ''base64url decode failed'')))"

subsection \<open>The exchange\<close>

definition token_request :: "oidc_config \<Rightarrow> endpoint \<Rightarrow> string \<Rightarrow> string \<Rightarrow> https_request" where
  "token_request cfg ep code verifier =
     \<lparr>hq_method = ''POST'', hq_host = ep_host ep, hq_port = ep_port ep, hq_target = ep_basePath ep @ ''/v1/token'',
      hq_body = ''grant_type=authorization_code&code='' @ urlEncode code @ ''&redirect_uri='' @ urlEncode (oc_redirectUri cfg) @
        ''&client_id='' @ urlEncode (oc_clientId cfg) @ ''&client_secret='' @ urlEncode (oc_clientSecret cfg) @
        ''&code_verifier='' @ verifier,
      hq_contentType = ''application/x-www-form-urlencoded'', hq_timeoutMs = oc_timeoutMs cfg, hq_verifyTls = oc_verifyTls cfg\<rparr>"

definition oidc_fail :: "string \<Rightarrow> oidc_result" where
  "oidc_fail e = \<lparr>or_success = False, or_username = [], or_error = e\<rparr>"

definition redeem_code :: "oidc_env \<Rightarrow> oidc_config \<Rightarrow> txn \<Rightarrow> string \<Rightarrow> stoi_error + oidc_result" where
  "redeem_code env cfg txn code =
     bind_err (parseIssuer (oc_issuer cfg)) (\<lambda>ep. case ep of
         None \<Rightarrow> Inr (oidc_fail ''bad issuer'')
       | Some ep \<Rightarrow>
           let resp = oe_send env (token_request cfg ep code (tx_codeVerifier txn)) in
           if \<not> hp_ok resp
           then Inr (oidc_fail (''token endpoint failed: '' @
                  (if hp_error resp = [] then ''status '' @ to_string (hp_status resp) else hp_error resp)))
           else (case bind_err (oidc_parse env (hp_body resp)) (jvalue get_str ''id_token'' []) of
             Inl e \<Rightarrow> Inr (oidc_fail (''token response parse error: '' @ oe_what env e))
           | Inr idToken \<Rightarrow>
               if idToken = [] then Inr (oidc_fail ''no id_token in token response'')
               else map_sum id (\<lambda>r. case r of
                   Inl err \<Rightarrow> oidc_fail (''id_token verification failed: '' @ err)
                 | Inr email \<Rightarrow> \<lparr>or_success = True, or_username = email, or_error = []\<rparr>)
                 (verifyIdToken env cfg idToken (tx_nonce txn))))"

definition exchangeAndVerify :: "oidc_env \<Rightarrow> string \<Rightarrow> string \<Rightarrow> oidc \<Rightarrow> (stoi_error + oidc_result) \<times> oidc" where
  "exchangeAndVerify env code state s =
     (if \<not> oc_enabled (oi_cfg s) then (Inr (oidc_fail ''oidc disabled''), s)
      else
        let s = pruneExpired (oe_now env) s in
        case map_of (oi_txns s) state of
          None \<Rightarrow> (Inr (oidc_fail ''unknown or expired state''), s)
        | Some txn \<Rightarrow>
            let s = s\<lparr>oi_txns := AList.delete state (oi_txns s)\<rparr> in
            (redeem_code env (oi_cfg s) txn code, s))"

subsection \<open>What a token that verifies says\<close>

lemma str_find_char:
  "str_find [c] s = Some i \<Longrightarrow> i < length s \<and> s ! i = c \<and> c \<notin> set (take i s)"
  "str_find [c] s = None \<Longrightarrow> c \<notin> set s"
proof (induction s arbitrary: i)
  case (Cons d s)
  { case 1 with Cons.IH show ?case by (auto split: if_splits) }
  { case 2 with Cons.IH show ?case by (auto split: if_splits) }
qed auto

lemma splitJwt_Some:
  assumes "splitJwt jwt = Some (h, p, s)"
  shows "jwt = h @ ''.'' @ p @ ''.'' @ s" "CHR ''.'' \<notin> set h \<union> set p \<union> set s"
proof -
  obtain d1 d2 where d1: "str_find ''.'' jwt = Some d1" and d2: "find_from ''.'' jwt (d1 + 1) = Some d2"
    and d3: "find_from ''.'' jwt (d2 + 1) = None"
    and parts: "h = take d1 jwt" "p = take (d2 - d1 - 1) (drop (d1 + 1) jwt)" "s = drop (d2 + 1) jwt"
    using assms by (auto simp: splitJwt_def bind_eq_Some_conv find_from_def split: if_splits)
  note c1 = str_find_char(1) [OF d1]
  obtain e where e: "str_find ''.'' (drop (d1 + 1) jwt) = Some e" "d2 = d1 + 1 + e"
    using d2 by (auto simp: find_from_def split: if_splits)
  note c2 = str_find_char(1) [OF e(1)]
  have "drop (d1 + 1) jwt = take e (drop (d1 + 1) jwt) @ ''.'' @ drop (Suc e) (drop (d1 + 1) jwt)"
    using id_take_nth_drop [of e "drop (d1 + 1) jwt"] c2 by (metis append_Cons append_Nil)
  moreover have "drop (Suc e) (drop (d1 + 1) jwt) = s" "take e (drop (d1 + 1) jwt) = p"
    using e(2) parts(2,3) by (simp_all add: add.commute)
  ultimately have rest: "drop (d1 + 1) jwt = p @ ''.'' @ s" by simp
  have "jwt = h @ ''.'' @ drop (d1 + 1) jwt"
    using id_take_nth_drop [of d1 jwt] c1 parts(1) by simp
  then show "jwt = h @ ''.'' @ p @ ''.'' @ s" unfolding rest .
  have "d2 + 1 \<le> length jwt" using c2 e(2) by auto
  then have "str_find ''.'' s = None" using d3 parts(3) by (simp add: find_from_def)
  then have "CHR ''.'' \<notin> set s" by (rule str_find_char(2))
  with c1 c2 parts e(2) show "CHR ''.'' \<notin> set h \<union> set p \<union> set s" by simp
qed

text \<open>
  What vouches for a user: a token in three parts whose signature verifies, over the first two, with an
  RSA key the issuer publishes under the token's key identifier, and whose claims name the issuer, this
  client, an expiry in the future, the nonce that was sent, and the user.
\<close>

definition published_key :: "oidc_env \<Rightarrow> oidc_config \<Rightarrow> string \<Rightarrow> string \<Rightarrow> string \<Rightarrow> bool" where
  "published_key env cfg kid n e \<longleftrightarrow>
     (\<exists>ep resp jwks ks k. parseIssuer (oc_issuer cfg) = Inr (Some ep) \<and> resp = oe_send env (keys_request cfg ep) \<and> hp_ok resp \<and>
        oe_parse env (hp_body resp) = Some jwks \<and> jfind ''keys'' jwks = Some ks \<and> k \<in> set (jiterate ks) \<and>
        (jfind ''kid'' k = Some (JStr kid) \<and> jfind ''kty'' k = Some (JStr ''RSA'') \<and>
         jfind ''n'' k = Some (JStr n) \<and> jfind ''e'' k = Some (JStr e)))"

definition claims_vouch :: "oidc_env \<Rightarrow> oidc_config \<Rightarrow> string \<Rightarrow> json \<Rightarrow> string \<Rightarrow> bool" where
  "claims_vouch env cfg nonce claims user \<longleftrightarrow>
     jfind ''iss'' claims = Some (JStr (oc_issuer cfg)) \<and> audience_matches (oc_clientId cfg) claims \<and>
     (\<exists>exp. jfind ''exp'' claims = Some (JInt exp) \<and> oe_checkedAt env < of_int exp) \<and>
     (\<forall>nbf. jfind ''nbf'' claims = Some (JInt nbf) \<longrightarrow> of_int nbf \<le> oe_checkedAt env + 60) \<and>
     (nonce = [] \<or> jfind ''nonce'' claims = Some (JStr nonce)) \<and>
     user \<noteq> [] \<and> (\<exists>key \<in> {''email'', ''preferred_username'', ''sub''}. jfind key claims = Some (JStr user))"

definition token_vouches :: "oidc_env \<Rightarrow> oidc_config \<Rightarrow> string \<Rightarrow> string \<Rightarrow> string \<Rightarrow> bool" where
  "token_vouches env cfg nonce token user \<longleftrightarrow>
     (\<exists>h64 p64 s64 h hdr p claims kid n64 e64 n e sig. token = h64 @ ''.'' @ p64 @ ''.'' @ s64 \<and>
        base64UrlDecode h64 = Some h \<and> oe_parse env (map char_of_byte h) = Some hdr \<and>
        jfind ''alg'' hdr = Some (JStr ''RS256'') \<and> jfind ''kid'' hdr = Some (JStr kid) \<and>
        published_key env cfg kid n64 e64 \<and> base64UrlDecode n64 = Some n \<and> base64UrlDecode e64 = Some e \<and>
        base64UrlDecode s64 = Some sig \<and> oe_rs256 env n e sig (h64 @ ''.'' @ p64) \<and>
        base64UrlDecode p64 = Some p \<and> oe_parse env (map char_of_byte p) = Some claims \<and>
        claims_vouch env cfg nonce claims user)"

lemma jvalue_str_Inr: "jvalue get_str k [] j = Inr v \<Longrightarrow> v \<noteq> [] \<Longrightarrow> jfind k j = Some (JStr v)"
  by (auto simp: jvalue_def get_str_def split: if_splits option.splits json.splits)

lemma find_key_Inr:
  assumes "find_key kid ks = Inr (n, e)" and "n \<noteq> []" and "e \<noteq> []" and "kid \<noteq> []"
  shows "\<exists>k \<in> set ks. jfind ''kid'' k = Some (JStr kid) \<and> jfind ''kty'' k = Some (JStr ''RSA'') \<and>
    jfind ''n'' k = Some (JStr n) \<and> jfind ''e'' k = Some (JStr e)"
  using assms
proof (induction kid ks rule: find_key.induct)
  case (2 kid k ks)
  obtain kid' where kid': "jvalue get_str ''kid'' [] k = Inr kid'"
    using 2(2) by (cases "jvalue get_str ''kid'' [] k") auto
  show ?case
  proof (cases "kid' = kid \<and> jvalue get_str ''kty'' [] k = Inr ''RSA''")
    case True
    then have "jvalue get_str ''n'' [] k = Inr n" "jvalue get_str ''e'' [] k = Inr e"
      using 2(2) kid' by (auto simp: bind_err_Inr_iff map_sum_def split: sum.splits)
    with True kid' 2(3-5) show ?thesis by (auto dest!: jvalue_str_Inr)
  next
    case False
    then obtain hit where hit: "(if kid' = kid then map_sum id (\<lambda>kty. kty = ''RSA'') (jvalue get_str ''kty'' [] k) else Inr False) = Inr hit"
      using 2(2) kid' by (auto simp: bind_err_Inr_iff)
    with False have "\<not> hit" by (cases "jvalue get_str ''kty'' [] k") (auto split: if_splits)
    with hit 2(2) kid' have "find_key kid ks = Inr (n, e)" by (simp add: bind_err_Inr_iff)
    from 2(1) [OF \<open>\<not> hit\<close> this 2(3-5)] show ?thesis by auto
  qed
qed simp

lemma verifySignatureRs256_None:
  assumes "verifySignatureRs256 env cfg input s64 kid = Inr None" and "kid \<noteq> []"
  shows "\<exists>n64 e64 n e sig. published_key env cfg kid n64 e64 \<and> base64UrlDecode n64 = Some n \<and> base64UrlDecode e64 = Some e \<and>
    base64UrlDecode s64 = Some sig \<and> oe_rs256 env n e sig input"
proof -
  obtain ep where ep: "parseIssuer (oc_issuer cfg) = Inr (Some ep)"
    using assms(1) by (auto simp: verifySignatureRs256_def map_sum_def split: sum.splits option.splits)
  let ?resp = "oe_send env (keys_request cfg ep)"
  obtain n64 e64 where keys: "hp_ok ?resp" "n64 \<noteq> []" "e64 \<noteq> []"
    "bind_err (oidc_parse env (hp_body ?resp)) (\<lambda>jwks. bind_err (jvalue get_json ''keys'' (JArr []) jwks) (\<lambda>ks. find_key kid (jiterate ks))) = Inr (n64, e64)"
    and sig: "(case (base64UrlDecode n64, base64UrlDecode e64, base64UrlDecode s64) of
                       (Some n, Some e, Some sig) \<Rightarrow>
                         if oe_rs256 env n e sig input then None else Some ''rs256 signature invalid''
                     | _ \<Rightarrow> Some ''jwks/sig decode failed'') = (None :: string option)"
    using assms(1) ep by (auto simp: verifySignatureRs256_def Let_def split: sum.splits if_splits)
  obtain jwks ks where ks: "oe_parse env (hp_body ?resp) = Some jwks" "jvalue get_json ''keys'' (JArr []) jwks = Inr ks"
    "find_key kid (jiterate ks) = Inr (n64, e64)"
    using keys(4) by (auto simp: bind_err_Inr_iff oidc_parse_def split: option.splits)
  from find_key_Inr [OF ks(3) keys(2,3) assms(2)] obtain k where k: "k \<in> set (jiterate ks)"
    "jfind ''kid'' k = Some (JStr kid)" "jfind ''kty'' k = Some (JStr ''RSA'')"
    "jfind ''n'' k = Some (JStr n64)" "jfind ''e'' k = Some (JStr e64)" by blast
  then have "jfind ''keys'' jwks = Some ks"
    using ks(2) by (auto simp: jvalue_def get_json_def jiterate_def split: if_splits option.splits)
  with ep keys(1) ks(1) k have "published_key env cfg kid n64 e64" unfolding published_key_def by blast
  moreover obtain n e sg where "base64UrlDecode n64 = Some n" "base64UrlDecode e64 = Some e"
    "base64UrlDecode s64 = Some sg" "oe_rs256 env n e sg input"
    using sig by (auto split: option.splits if_splits)
  ultimately show ?thesis by blast
qed

lemma check_claims_Inr:
  assumes "check_claims env cfg nonce claims = Inr (Inr user)" and "oc_issuer cfg \<noteq> []"
  shows "claims_vouch env cfg nonce claims user"
proof -
  have iss: "jvalue get_str ''iss'' [] claims = Inr (oc_issuer cfg)" "audience_matches (oc_clientId cfg) claims"
    using assms(1) by (auto simp: check_claims_def Let_def bind_err_Inr_iff split: if_splits)
  obtain ex where ex: "jvalue get_uint64 ''exp'' 0 claims = Inr ex" "oe_checkedAt env < ex"
    using assms(1) by (auto simp: check_claims_def Let_def bind_err_Inr_iff split: if_splits)
  have nbf: "(case jfind ''nbf'' claims of None \<Rightarrow> Inr False | Some j \<Rightarrow> map_sum id (\<lambda>nbf. nbf > oe_checkedAt env + 60) (get_uint64 j)) = Inr False"
    using assms(1) by (auto simp: check_claims_def Let_def bind_err_Inr_iff split: if_splits)
  have nonce: "(if nonce \<noteq> [] then map_sum id (\<lambda>n. n \<noteq> nonce) (jvalue get_str ''nonce'' [] claims) else Inr False) = Inr False"
    using assms(1) by (auto simp: check_claims_def Let_def bind_err_Inr_iff split: if_splits)
  have user: "\<exists>key \<in> {''email'', ''preferred_username'', ''sub''}. jvalue get_str key [] claims = Inr user" "user \<noteq> []"
    using assms(1) by (auto simp: check_claims_def Let_def bind_err_Inr_iff split: if_splits)
  have "\<exists>i. jfind ''exp'' claims = Some (JInt i) \<and> oe_checkedAt env < of_int i"
    using ex by (auto simp: jvalue_def get_uint64_def split: if_splits option.splits json.splits)
  moreover have "of_int i \<le> oe_checkedAt env + 60" if "jfind ''nbf'' claims = Some (JInt i)" for i
    using nbf that by (simp add: get_uint64_def not_less)
  moreover have "nonce = [] \<or> jfind ''nonce'' claims = Some (JStr nonce)"
    using nonce by (cases "jvalue get_str ''nonce'' [] claims") (auto dest: jvalue_str_Inr split: if_splits)
  ultimately show ?thesis
    using iss user jvalue_str_Inr [OF iss(1) assms(2)] jvalue_str_Inr [OF _ user(2)]
    unfolding claims_vouch_def by blast
qed

lemma parseIssuer_nonempty: "parseIssuer issuer = Inr (Some ep) \<Longrightarrow> issuer \<noteq> []"
  by (auto simp: parseIssuer_def)

lemma verifyIdToken_Inr:
  assumes "verifyIdToken env cfg token nonce = Inr (Inr user)"
  shows "token_vouches env cfg nonce token user"
proof -
  obtain h64 p64 s64 where split: "splitJwt token = Some (h64, p64, s64)"
    using assms by (auto simp: verifyIdToken_def split: option.splits)
  obtain h p where hp: "base64UrlDecode h64 = Some h" "base64UrlDecode p64 = Some p"
    using assms split by (auto simp: verifyIdToken_def split: option.splits)
  let ?hdr = "bind_err (oidc_parse env (map char_of_byte h)) (\<lambda>hdr.
                     bind_err (jvalue get_str ''alg'' [] hdr) (\<lambda>alg.
                     if alg \<noteq> ''RS256'' then Inr None else map_sum id Some (jvalue get_str ''kid'' [] hdr)))"
  obtain kid where kid: "?hdr = Inr (Some kid)" "kid \<noteq> []"
    and rest: "bind_err (verifySignatureRs256 env cfg (h64 @ ''.'' @ p64) s64 kid) (\<lambda>err.
                      case err of Some e \<Rightarrow> Inr (Inl e)
                      | None \<Rightarrow>
                          (case bind_err (oidc_parse env (map char_of_byte p)) (check_claims env cfg nonce) of
                             Inl e \<Rightarrow> Inr (Inl (''claims parse: '' @ oe_what env e))
                           | Inr r \<Rightarrow> Inr r)) = Inr (Inr user)"
    using assms split hp by (auto simp: verifyIdToken_def split: sum.splits option.splits if_splits)
  obtain hdr where hdr: "oe_parse env (map char_of_byte h) = Some hdr" "jvalue get_str ''alg'' [] hdr = Inr ''RS256''"
    "jvalue get_str ''kid'' [] hdr = Inr kid"
    using kid(1) by (auto simp: bind_err_Inr_iff oidc_parse_def map_sum_def split: option.splits if_splits sum.splits)
  have sig: "verifySignatureRs256 env cfg (h64 @ ''.'' @ p64) s64 kid = Inr None"
    and claims: "bind_err (oidc_parse env (map char_of_byte p)) (check_claims env cfg nonce) = Inr (Inr user)"
    using rest by (auto simp: bind_err_Inr_iff split: option.splits sum.splits)
  from verifySignatureRs256_None [OF sig kid(2)] obtain n64 e64 n e sg where
    key: "published_key env cfg kid n64 e64" "base64UrlDecode n64 = Some n" "base64UrlDecode e64 = Some e"
    "base64UrlDecode s64 = Some sg" "oe_rs256 env n e sg (h64 @ ''.'' @ p64)" by blast
  then have "oc_issuer cfg \<noteq> []" unfolding published_key_def using parseIssuer_nonempty by blast
  then obtain cl where cl: "oe_parse env (map char_of_byte p) = Some cl" "claims_vouch env cfg nonce cl user"
    using claims check_claims_Inr by (auto simp: bind_err_Inr_iff oidc_parse_def split: option.splits)
  have alg: "jfind ''alg'' hdr = Some (JStr ''RS256'')" "jfind ''kid'' hdr = Some (JStr kid)"
    using jvalue_str_Inr [OF hdr(2)] jvalue_str_Inr [OF hdr(3) kid(2)] by simp_all
  show ?thesis
    unfolding token_vouches_def
    using splitJwt_Some(1) [OF split] hp hdr(1) alg key cl by blast
qed

subsection \<open>Transactions\<close>

datatype oidc_op = Configure oidc_config | StartSignIn | Redeem string string

fun oidc_step :: "oidc_env \<times> oidc_op \<Rightarrow> oidc \<Rightarrow> oidc" where
  "oidc_step (env, Configure cfg) s = oidc_configure cfg s"
| "oidc_step (env, StartSignIn) s = snd (buildAuthorizeUrl env s)"
| "oidc_step (env, Redeem code state) s = snd (exchangeAndVerify env code state s)"

primrec oidc_run :: "(oidc_env \<times> oidc_op) list \<Rightarrow> oidc \<Rightarrow> oidc" where
  "oidc_run [] s = s"
| "oidc_run (x # xs) s = oidc_run xs (oidc_step x s)"

lemma oidc_run_append [simp]: "oidc_run (h @ h') s = oidc_run h' (oidc_run h s)"
  by (induction h arbitrary: s) auto

definition oidc_new :: oidc where
  "oidc_new = \<lparr>oi_cfg = oidc_config_new, oi_txns = []\<rparr>"

text \<open>The request \<open>x\<close> opened the transaction \<open>state\<close> with these secrets, in the state \<open>s\<close>.\<close>

definition opens :: "oidc_env \<times> oidc_op \<Rightarrow> oidc \<Rightarrow> string \<Rightarrow> txn \<Rightarrow> bool" where
  "opens x s state t \<longleftrightarrow> snd x = StartSignIn \<and>
     (\<exists>r. fst (buildAuthorizeUrl (fst x) s) = Inr r \<and> os_success r \<and> os_state r = state) \<and>
     tx_nonce t = randomToken 16 (oe_digits (fst x)) \<and> tx_codeVerifier t = randomToken 32 (drop 32 (oe_digits (fst x))) \<and>
     tx_expiresAt t = oe_now (fst x) + oc_txnTtlSec (oi_cfg s)"

definition leaves_open :: "string \<Rightarrow> oidc_env \<times> oidc_op \<Rightarrow> bool" where
  "leaves_open state x \<longleftrightarrow> (case snd x of Configure cfg \<Rightarrow> False | StartSignIn \<Rightarrow> True | Redeem c st \<Rightarrow> st \<noteq> state)"

lemma prune_lookup:
  "map_of (oi_txns (pruneExpired now s)) state = Some t \<Longrightarrow> distinct (map fst (oi_txns s)) \<Longrightarrow>
    map_of (oi_txns s) state = Some t \<and> now \<le> tx_expiresAt t"
  by (force simp: pruneExpired_def not_less map_of_eq_Some_iff intro!: distinct_map_filter dest!: map_of_SomeD)

lemma prune_simps [simp]: "oi_cfg (pruneExpired now s) = oi_cfg s"
  "distinct (map fst (oi_txns s)) \<Longrightarrow> distinct (map fst (oi_txns (pruneExpired now s)))"
  by (simp_all add: pruneExpired_def distinct_map_filter)

definition opened :: "oidc_env \<Rightarrow> oidc \<Rightarrow> txn" where
  "opened env s = \<lparr>tx_nonce = randomToken 16 (oe_digits env), tx_codeVerifier = randomToken 32 (drop 32 (oe_digits env)),
     tx_expiresAt = oe_now env + oc_txnTtlSec (oi_cfg s)\<rparr>"

lemma buildAuthorizeUrl_cases:
  obtains (same) "snd (buildAuthorizeUrl env s) = s"
  | (started) r where "fst (buildAuthorizeUrl env s) = Inr r" "os_success r" "oc_enabled (oi_cfg s)"
      "snd (buildAuthorizeUrl env s) = (pruneExpired (oe_now env) s)\<lparr>oi_txns :=
         AList.update (os_state r) (opened env s) (oi_txns (pruneExpired (oe_now env) s))\<rparr>"
proof (cases "oc_enabled (oi_cfg s)")
  case True
  show thesis
  proof (cases "parseIssuer (oc_issuer (oi_cfg s))")
    case (Inr ep)
    show thesis
    proof (cases ep)
      case (Some e)
      show thesis by (rule started) (auto simp: buildAuthorizeUrl_def Let_def True Inr Some opened_def)
    qed (use same True Inr in \<open>simp add: buildAuthorizeUrl_def\<close>)
  qed (use same True in \<open>simp add: buildAuthorizeUrl_def\<close>)
qed (use same in \<open>simp add: buildAuthorizeUrl_def\<close>)

lemma exchange_state:
  "snd (exchangeAndVerify env code state s) =
     (if oc_enabled (oi_cfg s)
      then (pruneExpired (oe_now env) s)\<lparr>oi_txns := AList.delete state (oi_txns (pruneExpired (oe_now env) s))\<rparr> else s)"
  by (auto simp: exchangeAndVerify_def Let_def map_of_eq_None_iff delete_idem split: option.split)

text \<open>No two transactions have a state in common, and a client that is off has none.\<close>

definition oidc_ok :: "oidc \<Rightarrow> bool" where
  "oidc_ok s \<longleftrightarrow> distinct (map fst (oi_txns s)) \<and> (oc_enabled (oi_cfg s) \<or> oi_txns s = [])"

lemma oidc_step_ok: "oidc_ok s \<Longrightarrow> oidc_ok (oidc_step x s)"
proof (induction x s rule: oidc_step.induct)
  case (2 env s)
  then show ?case
    by (cases rule: buildAuthorizeUrl_cases [of env s]) (auto simp: oidc_ok_def distinct_update)
next
  case (3 env code state s)
  then show ?case by (auto simp: oidc_ok_def exchange_state distinct_delete)
qed (simp add: oidc_configure_def oidc_ok_def)

lemma oidc_run_ok: "oidc_ok s \<Longrightarrow> oidc_ok (oidc_run h s)"
  by (induction h arbitrary: s) (simp_all add: oidc_step_ok)

text \<open>A transaction that is there afterwards was there before and left alone, or has just been opened.\<close>

lemma oidc_step_txn:
  assumes "oidc_ok s" and "map_of (oi_txns (oidc_step x s)) state = Some t"
  shows "leaves_open state x \<and> map_of (oi_txns s) state = Some t \<or> opens x s state t"
proof -
  obtain env op where x: "x = (env, op)" by fastforce
  have d: "distinct (map fst (oi_txns s))" using assms(1) by (simp add: oidc_ok_def)
  show ?thesis
  proof (cases op)
    case (Configure cfg)
    with assms(2) x show ?thesis by (simp add: oidc_configure_def)
  next
    case StartSignIn
    show ?thesis
    proof (cases rule: buildAuthorizeUrl_cases [of env s])
      case same
      with assms(2) x StartSignIn show ?thesis by (simp add: leaves_open_def)
    next
      case (started r)
      with assms(2) x StartSignIn have "state = os_state r \<and> t = opened env s \<or> map_of (oi_txns (pruneExpired (oe_now env) s)) state = Some t"
        by (auto simp: update_conv' split: if_splits)
      with started x StartSignIn prune_lookup [OF _ d] show ?thesis by (auto simp: leaves_open_def opens_def opened_def)
    qed
  next
    case (Redeem code st)
    with assms x have "st \<noteq> state \<and> map_of (oi_txns (pruneExpired (oe_now env) s)) state = Some t"
      by (auto simp: exchange_state delete_conv' oidc_ok_def split: if_splits)
    with x Redeem prune_lookup [OF _ d] show ?thesis by (auto simp: leaves_open_def)
  qed
qed

lemma txn_origin:
  "map_of (oi_txns (oidc_run h oidc_new)) state = Some t \<Longrightarrow>
    \<exists>pre x post. h = pre @ x # post \<and> opens x (oidc_run pre oidc_new) state t \<and> list_all (leaves_open state) post"
proof (induction h rule: rev_induct)
  case (snoc x h)
  have "oidc_ok (oidc_run h oidc_new)" by (intro oidc_run_ok) (simp add: oidc_ok_def oidc_new_def)
  from oidc_step_txn [OF this, of x state t] snoc.prems
  consider "leaves_open state x" "map_of (oi_txns (oidc_run h oidc_new)) state = Some t"
    | "opens x (oidc_run h oidc_new) state t" by auto
  then show ?case
  proof cases
    case 1
    with snoc.IH obtain pre y post where "h = pre @ y # post" "opens y (oidc_run pre oidc_new) state t"
      "list_all (leaves_open state) post" by blast
    with 1 show ?thesis by (intro exI [of _ pre] exI [of _ y] exI [of _ "post @ [x]"]) simp
  next
    case 2
    then show ?thesis by (intro exI [of _ h] exI [of _ x] exI [of _ "[]"]) simp
  qed
qed (simp add: oidc_new_def)

text \<open>C30. Whatever requests the client has served, a sign-in through OpenID Connect succeeds only for a state that
  an earlier request of this client handed out, under the configuration still in force, and that nobody has
  presented since (so each state redeems at most once), no later than its time to live (up to the
  wrap-around of the clock); and the token the provider gave for the code is in three parts, signed over
  the first two by a key the issuer publishes under its identifier, with claims that name the issuer, this client,
  an expiry to come, the very nonce of that request, and the user.\<close>

theorem oidc_sign_in_sound:
  assumes "fst (exchangeAndVerify env code state (oidc_run h oidc_new)) = Inr r" and "or_success r"
  shows "\<exists>pre x post t token. h = pre @ x # post \<and> opens x (oidc_run pre oidc_new) state t \<and>
    list_all (leaves_open state) post \<and> oe_now env \<le> tx_expiresAt t \<and>
    token_vouches env (oi_cfg (oidc_run h oidc_new)) (tx_nonce t) token (or_username r)"
proof -
  let ?s = "oidc_run h oidc_new"
  have ok: "oidc_ok ?s" by (intro oidc_run_ok) (simp add: oidc_ok_def oidc_new_def)
  obtain t where t: "map_of (oi_txns (pruneExpired (oe_now env) ?s)) state = Some t"
    and redeem: "redeem_code env (oi_cfg ?s) t code = Inr r"
    using assms by (auto simp: exchangeAndVerify_def Let_def oidc_fail_def split: if_splits option.splits)
  from prune_lookup [OF t] ok have live: "map_of (oi_txns ?s) state = Some t" "oe_now env \<le> tx_expiresAt t"
    by (simp_all add: oidc_ok_def)
  obtain ep where ep: "parseIssuer (oc_issuer (oi_cfg ?s)) = Inr (Some ep)"
    using redeem assms(2) by (auto simp: redeem_code_def bind_err_Inr_iff oidc_fail_def split: option.splits)
  obtain token where "verifyIdToken env (oi_cfg ?s) token (tx_nonce t) = Inr (Inr (or_username r))"
    using redeem assms(2) ep
    by (auto simp: redeem_code_def oidc_fail_def Let_def map_sum_def split: if_splits sum.splits)
  from verifyIdToken_Inr [OF this] txn_origin [OF live(1)] live(2) show ?thesis by blast
qed

subsection \<open>An example\<close>

definition oidc_example_env :: oidc_env where
  "oidc_example_env = \<lparr>oe_now = 1000, oe_checkedAt = 1001, oe_digits = replicate 128 7, oe_sha256 = bytes_of_string,
     oe_send = (\<lambda>q. \<lparr>hp_ok = True, hp_status = 200, hp_body = (if hq_method q = ''GET'' then ''keys'' else ''token''), hp_error = []\<rparr>),
     oe_parse = (\<lambda>s.
       if s = ''token'' then Some (JObj [(''id_token'', JStr ''AA.AQ.Ag'')])
       else if s = ''keys'' then Some (JObj [(''keys'', JArr [JObj [(''kid'', JStr ''k1''), (''kty'', JStr ''RSA''), (''n'', JStr ''Aw''), (''e'', JStr ''BA'')]])])
       else if s = [CHR 0x00] then Some (JObj [(''alg'', JStr ''RS256''), (''kid'', JStr ''k1'')])
       else if s = [CHR 0x01] then Some (JObj [(''iss'', JStr ''https://idp''), (''aud'', JArr [JStr ''console'']), (''exp'', JInt 2000),
           (''nonce'', JStr (replicate 32 CHR ''7'')), (''email'', JStr ''ann'')])
       else None),
     oe_what = (\<lambda>_. ''error''), oe_rs256 = (\<lambda>n e sig input. n = [3] \<and> e = [4] \<and> sig = [2] \<and> input = ''AA.AQ'')\<rparr>"

definition oidc_example_history :: "(oidc_env \<times> oidc_op) list" where
  "oidc_example_history =
     [(oidc_example_env, Configure (oidc_config_new\<lparr>oc_enabled := True, oc_issuer := ''https://idp'', oc_clientId := ''console''\<rparr>)),
      (oidc_example_env, StartSignIn)]"

theorem oidc_sign_in_sound_witness:
  "\<exists>pre x post t. oidc_example_history = pre @ x # post \<and> opens x (oidc_run pre oidc_new) (replicate 32 CHR ''7'') t \<and>
     list_all (leaves_open (replicate 32 CHR ''7'')) post"
proof -
  have "fst (exchangeAndVerify oidc_example_env ''code'' (replicate 32 CHR ''7'') (oidc_run oidc_example_history oidc_new))
    = Inr \<lparr>or_success = True, or_username = ''ann'', or_error = []\<rparr>" by code_simp
  from oidc_sign_in_sound [OF this, unfolded oidc_result.simps, OF TrueI] show ?thesis by blast
qed

end
