(* ===== verification/Authd_Service.thy ===== *)
theory Authd_Service
  imports Saml_Client Oidc_Client Password_Hash Ipc_Codec
begin

text \<open>
  The service of the authentication daemon (\<^verbatim>\<open>authd/service/auth/AuthService.cpp\<close>): it reads its
  configuration, answers the five kinds of request the management daemon sends it, each by an action
  that becomes a response with the request's sequence number. The two federated clients are
  \<open>Oidc_Client\<close> and \<open>Saml_Client\<close>. The accounts table, JSON and the worlds of the clients are fields of
  \<open>authd_env\<close>. An exception that leaves a handler is a value of \<open>authd_error\<close>.
\<close>

datatype auth_method = MethodOidc | MethodSaml

datatype auth_event_type =
    AeUnknown | ReceiveLoginRequest | ReceiveOidcStartRequest | ReceiveOidcCallbackRequest
  | ReceiveSamlStartRequest | ReceiveSamlAcsRequest

datatype auth_action_type =
    AaUnknown | SendLoginResponse | SendOidcStartResponse | SendOidcCallbackResponse
  | SendSamlStartResponse | SendSamlAcsResponse

record auth_action =
  aa_type :: auth_action_type
  aa_dst :: ipc_daemon
  aa_seqNo :: u32
  aa_payload :: string

datatype authd_error = JsonThrown json_error | StoiThrown stoi_error

record authd =
  ad_method :: auth_method
  ad_okta :: oidc
  ad_saml :: saml_config
  ad_actions :: "auth_action list"
  ad_tx :: "ipc_message list"

record authd_env =
  an_oidc :: oidc_env
  an_saml :: saml_env
  an_crypto :: crypto
  an_rows :: "string \<Rightarrow> string list list"
  an_parse :: "string \<Rightarrow> json option"
  an_dump :: "json \<Rightarrow> json_error + string"

definition authd_new :: authd where
  "authd_new = \<lparr>ad_method = MethodOidc, ad_okta = oidc_new, ad_saml = saml_config_new, ad_actions = [], ad_tx = []\<rparr>"

subsection \<open>Configuration\<close>

text \<open>A section that does not have the right types leaves the client as if it were not there.\<close>

definition read_oidc_config :: "json \<Rightarrow> json_error + oidc_config" where
  "read_oidc_config j =
     bind_err (jvalue get_bool ''enabled'' False j) (\<lambda>enabled.
     bind_err (jvalue get_str ''issuer'' [] j) (\<lambda>issuer.
     bind_err (jvalue get_str ''client_id'' [] j) (\<lambda>clientId.
     bind_err (jvalue get_str ''client_secret'' [] j) (\<lambda>clientSecret.
     bind_err (jvalue get_str ''redirect_uri'' [] j) (\<lambda>redirectUri.
     bind_err (jvalue get_str ''scopes'' ''openid email profile'' j) (\<lambda>scopes.
     bind_err (jvalue get_bool ''verify_tls'' True j) (\<lambda>verifyTls.
     bind_err (jvalue get_i32 ''timeout_ms'' 5000 j) (\<lambda>timeoutMs.
     bind_err (jvalue get_uint64 ''txn_ttl_sec'' 300 j) (\<lambda>ttl.
       Inr \<lparr>oc_enabled = enabled, oc_issuer = issuer, oc_clientId = clientId, oc_clientSecret = clientSecret,
         oc_redirectUri = redirectUri, oc_scopes = scopes, oc_verifyTls = verifyTls, oc_timeoutMs = timeoutMs,
         oc_txnTtlSec = ttl\<rparr>)))))))))"

definition read_saml_config :: "json \<Rightarrow> json_error + saml_config" where
  "read_saml_config j =
     bind_err (jvalue get_bool ''enabled'' False j) (\<lambda>enabled.
     bind_err (jvalue get_str ''idp_sso_url'' [] j) (\<lambda>sso.
     bind_err (jvalue get_str ''idp_entity_id'' [] j) (\<lambda>idp.
     bind_err (jvalue get_str ''idp_cert_pem'' [] j) (\<lambda>cert.
     bind_err (jvalue get_str ''sp_entity_id'' [] j) (\<lambda>sp.
     bind_err (jvalue get_str ''acs_url'' [] j) (\<lambda>acs.
     bind_err (jvalue get_str ''admin_group'' [] j) (\<lambda>group.
     bind_err (jvalue get_str ''groups_attr'' ''groups'' j) (\<lambda>groupsAttr.
     bind_err (jvalue get_str ''email_attr'' ''email'' j) (\<lambda>emailAttr.
     bind_err (jvalue get_uint64 ''clock_skew_sec'' 120 j) (\<lambda>skew.
       Inr \<lparr>sa_enabled = enabled, sa_idpSsoUrl = sso, sa_idpEntityId = idp, sa_idpCertPem = cert, sa_spEntityId = sp,
         sa_acsUrl = acs, sa_adminGroup = group, sa_groupsAttr = groupsAttr, sa_emailAttr = emailAttr,
         sa_clockSkewSec = skew\<rparr>))))))))))"

definition section_or :: "(json \<Rightarrow> json_error + 'a) \<Rightarrow> string \<Rightarrow> 'a \<Rightarrow> json \<Rightarrow> 'a" where
  "section_or read key d cfg =
     (case jfind key cfg of None \<Rightarrow> d
      | Some j \<Rightarrow> (case read j of Inl e \<Rightarrow> d | Inr c \<Rightarrow> c))"

text \<open>\<^verbatim>\<open>AuthdServiceManager::configure\<close> hands the service an object in any case.\<close>

definition authd_configure :: "json \<Rightarrow> authd \<Rightarrow> authd" where
  "authd_configure cfg s =
     (let method = (case jvalue get_str ''method'' ''oidc'' cfg of
                      Inr m \<Rightarrow> if m = ''saml'' then MethodSaml else MethodOidc | Inl e \<Rightarrow> MethodOidc) in
      s\<lparr>ad_method := method,
        ad_okta := oidc_configure (section_or read_oidc_config ''oidc'' oidc_config_new cfg) (ad_okta s),
        ad_saml := section_or read_saml_config ''saml'' saml_config_new cfg\<rparr>)"

definition manager_configure :: "json \<Rightarrow> authd \<Rightarrow> authd" where
  "manager_configure cfg = authd_configure (if is_object cfg then cfg else JObj [])"

subsection \<open>Requests\<close>

definition payloadToString :: "ipc_message \<Rightarrow> string" where
  "payloadToString msg = map char_of_byte (msg_payload msg)"

text \<open>A member of the request, read in a \<^verbatim>\<open>try\<close> block: the empty string when it cannot be. The second
  member of two is not read after the first has failed.\<close>

definition request_member :: "authd_env \<Rightarrow> ipc_message \<Rightarrow> string \<Rightarrow> string option" where
  "request_member env msg key =
     (case an_parse env (payloadToString msg) of None \<Rightarrow> None
      | Some req \<Rightarrow> (case jvalue get_str key [] req of Inl e \<Rightarrow> None | Inr v \<Rightarrow> Some v))"

definition or_empty :: "string option \<Rightarrow> string" where
  "or_empty v = (case v of None \<Rightarrow> [] | Some s \<Rightarrow> s)"

definition request_members :: "authd_env \<Rightarrow> ipc_message \<Rightarrow> string \<Rightarrow> string \<Rightarrow> string \<times> string" where
  "request_members env msg k1 k2 =
     (case request_member env msg k1 of None \<Rightarrow> ([], [])
      | Some a \<Rightarrow> (a, or_empty (request_member env msg k2)))"

record local_result =
  lo_success :: bool
  lo_username :: string
  lo_mustChange :: bool

definition verifyLocal :: "authd_env \<Rightarrow> string \<Rightarrow> string \<Rightarrow> local_result" where
  "verifyLocal env username password =
     (let r = \<lparr>lo_success = False, lo_username = [], lo_mustChange = False\<rparr>; rows = an_rows env username in
      if rows = [] \<or> length (hd rows) < 4 then r
      else
        let hash = hd rows ! 1; salt = hd rows ! 2; mustChange = (hd rows ! 3 = ''t'') in
        if hash = [] \<or> \<not> verifyPassword (an_crypto env) password salt hash then r
        else \<lparr>lo_success = True, lo_username = hd rows ! 0, lo_mustChange = mustChange\<rparr>)"

definition auth_respond :: "authd_env \<Rightarrow> auth_action_type \<Rightarrow> ipc_message \<Rightarrow> json \<Rightarrow> authd \<Rightarrow> authd_error + authd" where
  "auth_respond env type msg body s =
     map_sum JsonThrown (\<lambda>payload. s\<lparr>ad_actions := ad_actions s @
         [\<lparr>aa_type = type, aa_dst = msg_src msg, aa_seqNo = msg_seqNo msg, aa_payload = payload\<rparr>]\<rparr>)
       (an_dump env body)"

definition not_selected :: "string \<Rightarrow> json" where
  "not_selected what = JObj [(''error'', JStr (what @ '' not selected'')), (''success'', JBool False)]"

definition sign_in_json :: "bool \<Rightarrow> string \<Rightarrow> string \<Rightarrow> json" where
  "sign_in_json success username err =
     JObj ((if success then [] else [(''error'', JStr err)]) @ [(''success'', JBool success), (''username'', JStr username)])"

fun auth_handleEvent :: "authd_env \<Rightarrow> auth_event_type \<Rightarrow> ipc_message option \<Rightarrow> authd \<Rightarrow> authd_error + authd" where
  "auth_handleEvent env type None s = Inr s"
| "auth_handleEvent env ReceiveLoginRequest (Some msg) s =
     (case request_members env msg ''username'' ''password'' of (username, password) \<Rightarrow>
        let res = verifyLocal env username password in
        auth_respond env SendLoginResponse msg
          (JObj ((if lo_success res then [] else [(''error'', JStr ''invalid credentials'')]) @
             [(''must_change'', JBool (lo_mustChange res)), (''success'', JBool (lo_success res)),
              (''username'', JStr (lo_username res))])) s)"
| "auth_handleEvent env ReceiveOidcStartRequest (Some msg) s =
     (if ad_method s \<noteq> MethodOidc then auth_respond env SendOidcStartResponse msg (not_selected ''oidc'') s
      else case buildAuthorizeUrl (an_oidc env) (ad_okta s) of (r, okta) \<Rightarrow>
        let s = s\<lparr>ad_okta := okta\<rparr> in
        bind_err (map_sum StoiThrown id r) (\<lambda>start.
          auth_respond env SendOidcStartResponse msg
            (if os_success start
             then JObj [(''authorize_url'', JStr (os_authorizeUrl start)), (''state'', JStr (os_state start)), (''success'', JBool True)]
             else JObj [(''error'', JStr (os_error start)), (''success'', JBool False)]) s))"
| "auth_handleEvent env ReceiveOidcCallbackRequest (Some msg) s =
     (if ad_method s \<noteq> MethodOidc then auth_respond env SendOidcCallbackResponse msg (not_selected ''oidc'') s
      else case request_members env msg ''code'' ''state'' of (code, state) \<Rightarrow>
        case exchangeAndVerify (an_oidc env) code state (ad_okta s) of (r, okta) \<Rightarrow>
        let s = s\<lparr>ad_okta := okta\<rparr> in
        bind_err (map_sum StoiThrown id r) (\<lambda>res.
          auth_respond env SendOidcCallbackResponse msg (sign_in_json (or_success res) (or_username res) (or_error res)) s))"
| "auth_handleEvent env ReceiveSamlStartRequest (Some msg) s =
     (if ad_method s \<noteq> MethodSaml then auth_respond env SendSamlStartResponse msg (not_selected ''saml'') s
      else
        let start = buildAuthnRedirectUrl (an_saml env) (ad_saml s) (or_empty (request_member env msg ''relay_state'')) in
        auth_respond env SendSamlStartResponse msg
          (if ss_success start
           then JObj [(''redirect_url'', JStr (ss_redirectUrl start)), (''request_id'', JStr (ss_requestId start)), (''success'', JBool True)]
           else JObj [(''error'', JStr (ss_error start)), (''success'', JBool False)]) s)"
| "auth_handleEvent env ReceiveSamlAcsRequest (Some msg) s =
     (if ad_method s \<noteq> MethodSaml then auth_respond env SendSamlAcsResponse msg (not_selected ''saml'') s
      else
        let res = verifyResponse (an_saml env) (ad_saml s) (or_empty (request_member env msg ''saml_response'')) in
        auth_respond env SendSamlAcsResponse msg (sign_in_json (sr_success res) (sr_username res) (sr_error res)) s)"
| "auth_handleEvent env AeUnknown (Some msg) s = Inr s"

definition auth_handleAction :: "auth_action \<Rightarrow> authd \<Rightarrow> authd" where
  "auth_handleAction action s =
     (let cmd = (case aa_type action of
           SendLoginResponse \<Rightarrow> Some CmdAuthLoginResponse
         | SendOidcStartResponse \<Rightarrow> Some CmdAuthOidcStartResponse
         | SendOidcCallbackResponse \<Rightarrow> Some CmdAuthOidcCallbackResponse
         | SendSamlStartResponse \<Rightarrow> Some CmdAuthSamlStartResponse
         | SendSamlAcsResponse \<Rightarrow> Some CmdAuthSamlAcsResponse
         | AaUnknown \<Rightarrow> None) in
      case cmd of None \<Rightarrow> s
      | Some c \<Rightarrow> s\<lparr>ad_tx := ad_tx s @ [mk_message DAuthd (aa_dst action) c (aa_seqNo action) (toFlag FlagResponse)
          (bytes_of_string (aa_payload action))]\<rparr>)"

text \<open>The event the factory makes of a command, as far as this service is concerned.\<close>

definition auth_event_of :: "ipc_cmd \<Rightarrow> auth_event_type option" where
  "auth_event_of cmd =
     (case cmd of CmdAuthLoginRequest \<Rightarrow> Some ReceiveLoginRequest
      | CmdAuthOidcStartRequest \<Rightarrow> Some ReceiveOidcStartRequest
      | CmdAuthOidcCallbackRequest \<Rightarrow> Some ReceiveOidcCallbackRequest
      | CmdAuthSamlStartRequest \<Rightarrow> Some ReceiveSamlStartRequest
      | CmdAuthSamlAcsRequest \<Rightarrow> Some ReceiveSamlAcsRequest
      | _ \<Rightarrow> None)"

text \<open>One request through the queues: the event, then the actions it posted.\<close>

definition auth_actions :: "authd \<Rightarrow> authd" where
  "auth_actions s = fold auth_handleAction (ad_actions s) (s\<lparr>ad_actions := []\<rparr>)"

definition auth_serve :: "authd_env \<Rightarrow> ipc_message \<Rightarrow> authd \<Rightarrow> authd_error + authd" where
  "auth_serve env msg s =
     (case auth_event_of (msg_cmd msg) of None \<Rightarrow> Inr s
      | Some t \<Rightarrow> map_sum id auth_actions (auth_handleEvent env t (Some msg) s))"

subsection \<open>Every request is answered\<close>

text \<open>The command that answers a request.\<close>

definition auth_response_cmd :: "ipc_cmd \<Rightarrow> ipc_cmd" where
  "auth_response_cmd cmd =
     (case cmd of CmdAuthLoginRequest \<Rightarrow> CmdAuthLoginResponse
      | CmdAuthOidcStartRequest \<Rightarrow> CmdAuthOidcStartResponse
      | CmdAuthOidcCallbackRequest \<Rightarrow> CmdAuthOidcCallbackResponse
      | CmdAuthSamlStartRequest \<Rightarrow> CmdAuthSamlStartResponse
      | _ \<Rightarrow> CmdAuthSamlAcsResponse)"

lemma auth_respond_Inr:
  "auth_respond env type msg body s = Inr s' \<longleftrightarrow>
     (\<exists>payload. an_dump env body = Inr payload \<and> s' = s\<lparr>ad_actions := ad_actions s @
        [\<lparr>aa_type = type, aa_dst = msg_src msg, aa_seqNo = msg_seqNo msg, aa_payload = payload\<rparr>]\<rparr>)"
  by (cases "an_dump env body") (auto simp: auth_respond_def)

fun response_type :: "auth_event_type \<Rightarrow> auth_action_type" where
  "response_type ReceiveLoginRequest = SendLoginResponse"
| "response_type ReceiveOidcStartRequest = SendOidcStartResponse"
| "response_type ReceiveOidcCallbackRequest = SendOidcCallbackResponse"
| "response_type ReceiveSamlStartRequest = SendSamlStartResponse"
| "response_type ReceiveSamlAcsRequest = SendSamlAcsResponse"
| "response_type AeUnknown = AaUnknown"

lemma auth_handleEvent_posts:
  assumes "auth_handleEvent env t (Some msg) s = Inr s'" and "t \<noteq> AeUnknown"
  shows "\<exists>body payload. an_dump env body = Inr payload \<and> ad_actions s' = ad_actions s @
      [\<lparr>aa_type = response_type t, aa_dst = msg_src msg, aa_seqNo = msg_seqNo msg, aa_payload = payload\<rparr>] \<and>
    ad_tx s' = ad_tx s \<and> ad_saml s' = ad_saml s \<and> ad_method s' = ad_method s"
  using assms
  by (cases t) (auto simp: auth_respond_Inr bind_err_Inr_iff Let_def split: prod.splits if_splits)

lemma auth_event_of_Some:
  "auth_event_of cmd = Some t \<Longrightarrow>
    (cmd, t) \<in> {(CmdAuthLoginRequest, ReceiveLoginRequest), (CmdAuthOidcStartRequest, ReceiveOidcStartRequest),
      (CmdAuthOidcCallbackRequest, ReceiveOidcCallbackRequest), (CmdAuthSamlStartRequest, ReceiveSamlStartRequest),
      (CmdAuthSamlAcsRequest, ReceiveSamlAcsRequest)}"
  by (cases cmd) (simp_all add: auth_event_of_def)

text \<open>A request that is served without an exception is answered by one message, to its sender, under its number.\<close>

theorem auth_answers:
  assumes "auth_serve env msg s = Inr s'" and "auth_event_of (msg_cmd msg) = Some t" and "ad_actions s = []"
  shows "\<exists>payload. ad_tx s' = ad_tx s @ [mk_message DAuthd (msg_src msg) (auth_response_cmd (msg_cmd msg)) (msg_seqNo msg)
      (toFlag FlagResponse) (bytes_of_string payload)] \<and> ad_actions s' = []"
proof -
  note t = auth_event_of_Some [OF assms(2)]
  then have known: "t \<noteq> AeUnknown" by auto
  from assms(1,2) obtain s1 where s1: "auth_handleEvent env t (Some msg) s = Inr s1" "s' = auth_actions s1"
    by (cases "auth_handleEvent env t (Some msg) s") (auto simp: auth_serve_def)
  from auth_handleEvent_posts [OF s1(1) known] assms(3) obtain payload where p: "ad_tx s1 = ad_tx s"
    "ad_actions s1 = [\<lparr>aa_type = response_type t, aa_dst = msg_src msg, aa_seqNo = msg_seqNo msg, aa_payload = payload\<rparr>]"
    by auto
  show ?thesis
    using p t by (auto simp: s1(2) auth_actions_def auth_handleAction_def auth_response_cmd_def)
qed

text \<open>What an answer about a SAML response says: the verdict of the verification, or that SAML is not selected.\<close>

lemma saml_answer:
  assumes "auth_serve env msg s = Inr s'" and "msg_cmd msg = CmdAuthSamlAcsRequest" and "ad_actions s = []"
  shows "\<exists>payload. ad_tx s' = ad_tx s @ [mk_message DAuthd (msg_src msg) CmdAuthSamlAcsResponse (msg_seqNo msg)
      (toFlag FlagResponse) (bytes_of_string payload)] \<and>
    (let res = verifyResponse (an_saml env) (ad_saml s) (or_empty (request_member env msg ''saml_response'')) in
     an_dump env (if ad_method s = MethodSaml then sign_in_json (sr_success res) (sr_username res) (sr_error res)
                  else not_selected ''saml'') = Inr payload)"
proof -
  have t: "auth_event_of (msg_cmd msg) = Some ReceiveSamlAcsRequest" using assms(2) by (simp add: auth_event_of_def)
  from assms(1) t obtain s1 where s1: "auth_handleEvent env ReceiveSamlAcsRequest (Some msg) s = Inr s1" "s' = auth_actions s1"
    by (cases "auth_handleEvent env ReceiveSamlAcsRequest (Some msg) s") (auto simp: auth_serve_def)
  then show ?thesis
    using assms(3) by (auto simp: auth_respond_Inr auth_actions_def auth_handleAction_def Let_def split: if_splits)
qed

end
