(* ===== verification/Mgmtd_Web.thy ===== *)
theory Mgmtd_Web
  imports Mgmtd_Settings
begin

text \<open>
  The management daemon's HTTP interface (\<^verbatim>\<open>mgmtd/service/web/WebService.cpp\<close> and, of the controllers,
  \<^verbatim>\<open>AuthController\<close>, \<^verbatim>\<open>SsoController\<close>, \<^verbatim>\<open>UserController\<close> and \<^verbatim>\<open>TopologyController\<close>): the table of
  routes, the two gates every request passes, the static files, and the handlers. A handler's result is the
  response or the exception that leaves it; nothing above \<^verbatim>\<open>WebService::handleEvent\<close> catches one. The
  handlers of the other controllers are the field \<open>we_controller\<close> of the environment.
\<close>

subsection \<open>The route table\<close>

datatype access = Public | Authenticated

datatype match = Exact | MatchPrefix

type_synonym route_row = "string \<times> string \<times> match \<times> webroute \<times> access \<times> bool"

definition kRoutes :: "route_row list" where
  "kRoutes = [
     (''GET'', ''/metrics'', Exact, RMetric, Public, False),
     (''GET'', ''/health'', Exact, RHealth, Public, False),
     (''POST'', ''/api/login'', Exact, RLogin, Public, False),
     (''POST'', ''/api/logout'', Exact, RLogout, Public, False),
     (''POST'', ''/api/change-password'', Exact, RChangePassword, Authenticated, True),
     (''GET'', ''/api/whoami'', Exact, RWhoami, Authenticated, False),
     (''POST'', ''/api/session/keepalive'', Exact, RSessionKeepalive, Authenticated, False),
     (''GET'', ''/api/auth/sso/info'', Exact, RSsoInfo, Public, False),
     (''GET'', ''/api/auth/sso/login'', Exact, RSsoLogin, Public, False),
     (''POST'', ''/api/auth/saml/acs'', Exact, RSamlAcs, Public, False),
     (''GET'', ''/api/auth/saml/result'', MatchPrefix, RSamlResult, Public, False),
     (''GET'', ''/api/settings'', Exact, RSettings, Authenticated, False),
     (''GET'', ''/api/settings/running-config'', Exact, RRunningConfig, Authenticated, False),
     (''POST'', ''/api/settings/commit'', Exact, RSettingsCommit, Authenticated, False),
     (''GET'', ''/api/settings/reload-status'', Exact, RReloadStatus, Authenticated, False),
     (''GET'', ''/api/settings/commit-queue'', Exact, RCommitQueue, Authenticated, False),
     (''POST'', ''/api/settings/save-config'', Exact, RSaveConfig, Authenticated, False),
     (''GET'', ''/api/settings/saved-configs'', Exact, RSavedConfigs, Authenticated, False),
     (''GET'', ''/api/settings/saved-config-content'', MatchPrefix, RSavedConfigContent, Authenticated, False),
     (''GET'', ''/api/status/devices'', Exact, RDeviceStatus, Authenticated, False),
     (''GET'', ''/api/topology'', MatchPrefix, RSiteTopology, Authenticated, False),
     (''POST'', ''/api/connector/keygen-test'', Exact, RKeygenTest, Authenticated, False),
     (''POST'', ''/api/connector/endpoint-test'', Exact, REndpointTest, Authenticated, False),
     (''POST'', ''/api/connector/sase-test'', Exact, RSaseTest, Authenticated, False),
     (''POST'', ''/api/connector/sase-key'', Exact, RSaseKeyStore, Authenticated, False),
     (''POST'', ''/api/connector/credential'', Exact, RCredentialStore, Authenticated, False),
     (''POST'', ''/api/connector/tls-probe'', Exact, RTlsProbe, Authenticated, False),
     (''GET'', ''/api/connector/test-result'', MatchPrefix, RApiTestResult, Authenticated, False),
     (''GET'', ''/api/connector/keys-state'', Exact, RKeysState, Authenticated, False),
     (''GET'', ''/api/ai/credentials'', Exact, RAiCredentials, Authenticated, False),
     (''POST'', ''/api/ai/credential'', Exact, RAiCredentialStore, Authenticated, False),
     (''GET'', ''/api/chat/sessions'', MatchPrefix, RChatSessions, Authenticated, False),
     (''GET'', ''/api/chat/session'', MatchPrefix, RChatSession, Authenticated, False),
     (''POST'', ''/api/chat/session/delete'', Exact, RChatSessionDelete, Authenticated, False),
     (''POST'', ''/api/chat/session/patch'', Exact, RChatSessionPatch, Authenticated, False),
     (''GET'', ''/api/user/credentials'', Exact, RUserCredentials, Authenticated, False),
     (''POST'', ''/api/user/credential'', Exact, RUserCredentialStore, Authenticated, False),
     (''GET'', ''/api/collection/overview'', MatchPrefix, RCollectionOverview, Authenticated, False),
     (''GET'', ''/api/collection/samples'', MatchPrefix, RCollectionSamples, Authenticated, False),
     (''GET'', ''/api/collection/sample'', MatchPrefix, RCollectionSample, Authenticated, False),
     (''POST'', ''/api/chat'', Exact, RChatSend, Authenticated, False),
     (''GET'', ''/api/chat/models'', Exact, RChatModels, Authenticated, False),
     (''GET'', ''/api/chat/result'', MatchPrefix, RChatResult, Authenticated, False),
     (''GET'', ''/api/techdoc/status'', Exact, RTechDocStatus, Authenticated, False),
     (''GET'', ''/api/techdoc/result'', MatchPrefix, RTechDocResult, Authenticated, False),
     (''POST'', ''/api/techdoc/refresh'', Exact, RTechDocRefresh, Authenticated, False),
     (''GET'', ''/api/techdoc/progress'', Exact, RTechDocProgress, Authenticated, False),
     (''POST'', ''/api/techdoc/cancel'', Exact, RTechDocCancel, Authenticated, False),
     (''GET'', ''/api/benchtest/datasets'', MatchPrefix, RBenchtestDatasets, Authenticated, False),
     (''POST'', ''/api/benchtest/datasets'', MatchPrefix, RBenchtestUpload, Authenticated, False),
     (''DELETE'', ''/api/benchtest/datasets'', MatchPrefix, RBenchtestDelete, Authenticated, False),
     (''GET'', ''/api/benchtest/summary'', MatchPrefix, RBenchtestSummary, Authenticated, False),
     (''GET'', ''/api/benchtest/rows'', MatchPrefix, RBenchtestRows, Authenticated, False),
     (''GET'', ''/api/benchtest/export'', MatchPrefix, RBenchtestExport, Authenticated, False),
     (''GET'', ''/api/benchtest/result'', MatchPrefix, RBenchtestResult, Authenticated, False),
     (''GET'', ''/api/benchtest/run/progress'', Exact, RBenchtestRunProgress, Authenticated, False),
     (''POST'', ''/api/benchtest/run/cancel'', Exact, RBenchtestRunCancel, Authenticated, False),
     (''GET'', ''/api/benchtest/runs'', MatchPrefix, RBenchtestRuns, Authenticated, False),
     (''GET'', ''/api/benchtest/run'', MatchPrefix, RBenchtestRunInfo, Authenticated, False),
     (''POST'', ''/api/benchtest/run'', MatchPrefix, RBenchtestRunStart, Authenticated, False),
     (''GET'', ''/api/benchtest/cases'', MatchPrefix, RBenchtestCases, Authenticated, False),
     (''GET'', ''/api/benchtest/case'', MatchPrefix, RBenchtestCase, Authenticated, False),
     (''GET'', ''/api/techdoc/documents'', MatchPrefix, RTechDocDocuments, Authenticated, False),
     (''GET'', ''/api/logs'', MatchPrefix, RLogs, Authenticated, False)]"

fun row_hit :: "string \<Rightarrow> string \<Rightarrow> route_row \<Rightarrow> bool" where
  "row_hit method target (m, path, how, rest) \<longleftrightarrow>
     method = m \<and> (case how of Exact \<Rightarrow> target = path | MatchPrefix \<Rightarrow> prefix path target)"

definition resolve :: "string \<Rightarrow> string \<Rightarrow> webroute \<times> access \<times> bool" where
  "resolve method target =
     (case List.find (row_hit method target) kRoutes of
        None \<Rightarrow> (RNone, Authenticated, False)
      | Some (m, path, how, resolved) \<Rightarrow> resolved)"

subsection \<open>Static files\<close>

definition kPublicPages :: "string list" where
  "kPublicPages = [''/'', ''/index.html'', ''/css/main.css'', ''/js/main.js'', ''/js/login.js'']"

definition isStaticTarget :: "string \<Rightarrow> bool" where
  "isStaticTarget target \<longleftrightarrow> \<not> prefix ''/api'' target"

definition serveStatic :: "web_env \<Rightarrow> http_request \<Rightarrow> http_response \<Rightarrow> http_response" where
  "serveStatic env req resp =
     (case we_staticCache env of
        None \<Rightarrow> fill_as text_type resp 503 ''static cache unavailable''
      | Some cache \<Rightarrow>
          (case cache (takeWhile (\<lambda>c. c \<noteq> CHR ''?'') (rq_target req)) of
             None \<Rightarrow> fill_as text_type resp 404 ''not found''
           | Some file \<Rightarrow> (fill_as (sf_contentType file) resp 200 (sf_body file))\<lparr>rs_etag := sf_etag file\<rparr>))"

definition staticFallback :: "web_env \<Rightarrow> http_request \<Rightarrow> http_response \<Rightarrow> mgmtd \<Rightarrow> http_response handled" where
  "staticFallback env req resp s =
     (if rq_target req \<in> set kPublicPages then (Inr (serveStatic env req resp), s)
      else
        let (valid, a) = validateSession (we_now env) (sessionCookie req) (mg_auth s);
            s = s\<lparr>mg_auth := a\<rparr> in
        if valid then (Inr (serveStatic env req resp), s)
        else (Inr (resp\<lparr>rs_status := 302, rs_contentType := text_type, rs_body := [], rs_location := ''/index.html''\<rparr>), s))"

subsection \<open>Signing in and out\<close>

definition persistCredential :: "web_env \<Rightarrow> string \<Rightarrow> credential \<Rightarrow> mgmtd \<Rightarrow> unit handled" where
  "persistCredential env username cred s =
     send_json env DEngined CmdLocalUserUpdate 0
       (JObj [(''must_change'', JBool False), (''password_hash'', JStr (cr_passwordHash cred)),
          (''salt'', JStr (cr_salt cred)), (''username'', JStr username)]) s"

definition bad_request :: "http_response \<Rightarrow> mgmtd \<Rightarrow> http_response handled" where
  "bad_request resp s = (Inr (fill resp 400 ''{\"error\":\"bad request\"}''), s)"

definition body_strings :: "web_env \<Rightarrow> string \<Rightarrow> string \<Rightarrow> string \<Rightarrow> json_error + string \<times> string" where
  "body_strings env body k1 k2 =
     bind_err (parse_body env body) (\<lambda>j.
     bind_err (bind_err (jat k1 j) get_str) (\<lambda>a.
     map_sum id (Pair a) (bind_err (jat k2 j) get_str)))"

definition session_cookie_header :: "string \<Rightarrow> string" where
  "session_cookie_header sid = ''session='' @ sid @ ''; HttpOnly; Path=/; SameSite=Strict''"

definition auth_login :: "web_env \<Rightarrow> http_request \<Rightarrow> http_response \<Rightarrow> mgmtd \<Rightarrow> http_response handled" where
  "auth_login env req resp s = catch
     (case body_strings env (rq_body req) ''username'' ''password'' of
        Inl e \<Rightarrow> (Inl e, s)
      | Inr (username, password) \<Rightarrow>
          (case login (we_auth env) username password (mg_auth s) of (outcome, a) \<Rightarrow>
             let s = s\<lparr>mg_auth := a\<rparr> in
             case outcome of
               Inl e \<Rightarrow> (Inl e, s)
             | Inr result \<Rightarrow>
                 if lr_throttled result
                 then (Inr (fill resp 429 (''{\"error\":\"too many failed attempts '' @ em_dash @ '' try again shortly\"}'')), s)
                 else if \<not> lr_success result then (Inr (fill resp 401 ''{\"error\":\"invalid credentials\"}''), s)
                 else then_do
                   (let cred = makeCredential (we_auth env) password in
                    if lr_rehashNeeded result \<and> cr_passwordHash cred \<noteq> [] then persistCredential env username cred s
                    else (Inr (), s))
                   (\<lambda>_ s. then_do
                     (fill_json env resp 200 (JObj [(''must_change'', JBool (lr_mustChange result)), (''status'', JStr ''ok'')]) s)
                     (\<lambda>resp s. (Inr (resp\<lparr>rs_setCookie := session_cookie_header (lr_sessionId result)\<rparr>), s)))))
     (bad_request resp)"

definition logout :: "web_env \<Rightarrow> http_request \<Rightarrow> http_response \<Rightarrow> mgmtd \<Rightarrow> http_response handled" where
  "logout env req resp s =
     (Inr ((fill resp 200 ''{\"status\":\"logged_out\"}'')\<lparr>rs_setCookie := ''session=; Path=/; Max-Age=0''\<rparr>),
      s\<lparr>mg_auth := auth_logout (sessionCookie req) (mg_auth s)\<rparr>)"

definition changePassword :: "web_env \<Rightarrow> http_request \<Rightarrow> http_response \<Rightarrow> mgmtd \<Rightarrow> http_response handled" where
  "changePassword env req resp s = catch
     (case body_strings env (rq_body req) ''old_password'' ''new_password'' of
        Inl e \<Rightarrow> (Inl e, s)
      | Inr (oldPass, newPass) \<Rightarrow>
          if newPass = [] then (Inr (fill resp 400 ''{\"error\":\"new password must not be empty\"}''), s)
          else
            let user = sessionUser (we_now env) (sessionCookie req) (mg_auth s) in
            if user = [] then (Inr (fill resp 401 ''{\"error\":\"unauthorized\"}''), s)
            else if \<not> checkPassword (we_auth env) user oldPass
            then (Inr (fill resp 401 ''{\"error\":\"current password is incorrect\"}''), s)
            else
              let cred = makeCredential (we_auth env) newPass in
              if cr_passwordHash cred = []
              then (Inr (fill resp 500 ''{\"error\":\"could not generate the new credential\"}''), s)
              else then_do (persistCredential env user cred s)
                (\<lambda>_ s. (Inr (fill resp 200 ''{\"status\":\"ok\"}''), s)))
     (bad_request resp)"

definition whoami :: "web_env \<Rightarrow> http_request \<Rightarrow> http_response \<Rightarrow> mgmtd \<Rightarrow> http_response handled" where
  "whoami env req resp s =
     fill_json env resp 200
       (JObj [(''role'', JStr (sessionRole (we_now env) (sessionCookie req) (mg_auth s))),
          (''username'', JStr (sessionUser (we_now env) (sessionCookie req) (mg_auth s)))]) s"

definition keepalive :: "web_env \<Rightarrow> http_request \<Rightarrow> http_response \<Rightarrow> mgmtd \<Rightarrow> http_response handled" where
  "keepalive env req resp s =
     (let (renewed, a) = renewSession (we_now env) (sessionCookie req) (mg_auth s); s = s\<lparr>mg_auth := a\<rparr> in
      if \<not> renewed then (Inr (fill resp 401 ''{\"error\":\"unauthorized\",\"code\":\"UNAUTHENTICATED\"}''), s)
      else fill_json env resp 200 (JObj [(''expires_in'', JInt (int (au_sessionTtlSec a)))]) s)"

subsection \<open>Federated sign-in\<close>

definition ssoAuthConfig :: "web_env \<Rightarrow> json" where
  "ssoAuthConfig env = cfg_section kPretzel ''auth'' (we_cfg env)"

definition sso_enabled :: "json \<Rightarrow> string \<Rightarrow> json_error + bool" where
  "sso_enabled auth method =
     bind_err (jvalue get_json (if method = ''saml'' then ''saml'' else ''oidc'') (JObj []) auth)
       (jvalue get_bool ''enabled'' False)"

definition sso_info :: "web_env \<Rightarrow> http_request \<Rightarrow> http_response \<Rightarrow> mgmtd \<Rightarrow> http_response handled" where
  "sso_info env req resp s =
     (let auth = ssoAuthConfig env in
      case bind_err (jvalue get_str ''method'' ''oidc'' auth) (\<lambda>method. map_sum id (Pair method) (sso_enabled auth method)) of
        Inl e \<Rightarrow> (Inl e, s)
      | Inr (method, enabled) \<Rightarrow>
          let adminSetup = \<not> adminSetupPending (we_auth env) in
          fill_json env resp 200
            (JObj [(''admin_setup_required'', JBool (\<not> adminSetup)), (''enabled'', JBool (enabled \<and> adminSetup)),
               (''label'', JStr ''Sign in with Okta''), (''method'', JStr method)]) s)"

definition redirectErr :: "http_response \<Rightarrow> string \<Rightarrow> mgmtd \<Rightarrow> http_response handled" where
  "redirectErr resp code s =
     (Inr ((fill_as ''text/plain'' resp 302 [])\<lparr>rs_location := ''/index.html?sso_error='' @ code\<rparr>), s)"

definition authn_request :: "string \<Rightarrow> string \<Rightarrow> string \<Rightarrow> string \<Rightarrow> string \<Rightarrow> string" where
  "authn_request id' now idp acs sp =
     ''<samlp:AuthnRequest xmlns:samlp=\"urn:oasis:names:tc:SAML:2.0:protocol\"'' @
     '' xmlns:saml=\"urn:oasis:names:tc:SAML:2.0:assertion\" ID=\"'' @
     id' @ ''\" Version=\"2.0\" IssueInstant=\"'' @ now @ ''\" Destination=\"'' @ idp @
     ''\" ProtocolBinding=\"urn:oasis:names:tc:SAML:2.0:bindings:HTTP-POST\" AssertionConsumerServiceURL=\"'' @ acs @
     ''\"><saml:Issuer>'' @ sp @ ''</saml:Issuer></samlp:AuthnRequest>''"

definition post_page :: "string \<Rightarrow> string \<Rightarrow> string" where
  "post_page idp xml =
     ''<!doctype html><html><head><meta charset=\"utf-8\"><title>Redirecting'' @ [CHR 0xE2, CHR 0x80, CHR 0xA6] @
     ''</title></head><body onload=\"document.forms[0].submit()\"><form method=\"POST\" action=\"'' @
     ssoHtmlAttr idp @
     ''\"><input type=\"hidden\" name=\"SAMLRequest\" value=\"'' @
     ssoHtmlAttr (ssoBase64 xml) @
     ''\"/><noscript><button type=\"submit\">Continue to Okta</button></noscript></form></body></html>''"

definition sso_login :: "web_env \<Rightarrow> http_request \<Rightarrow> http_response \<Rightarrow> mgmtd \<Rightarrow> http_response handled" where
  "sso_login env req resp s =
     (if adminSetupPending (we_auth env) then redirectErr resp ''setup_required'' s
      else
        let auth = ssoAuthConfig env in
        case jvalue get_str ''method'' ''oidc'' auth of
          Inl e \<Rightarrow> (Inl e, s)
        | Inr method \<Rightarrow>
            if method \<noteq> ''saml'' then redirectErr resp ''not_configured'' s
            else case bind_err (jvalue get_json ''saml'' (JObj []) auth) (\<lambda>saml.
                   map_sum id (Pair saml) (jvalue get_bool ''enabled'' False saml)) of
              Inl e \<Rightarrow> (Inl e, s)
            | Inr (saml, enabled) \<Rightarrow>
                if \<not> enabled then redirectErr resp ''disabled'' s
                else case bind_err (jvalue get_str ''idp_sso_url'' [] saml) (\<lambda>idp.
                       bind_err (jvalue get_str ''sp_entity_id'' [] saml) (\<lambda>sp.
                       map_sum id (\<lambda>acs. (idp, sp, acs)) (jvalue get_str ''acs_url'' [] saml))) of
                  Inl e \<Rightarrow> (Inl e, s)
                | Inr (idp, sp, acs) \<Rightarrow>
                    if idp = [] \<or> acs = [] then redirectErr resp ''misconfigured'' s
                    else (Inr (fill_as ''text/html; charset=utf-8'' resp 200
                      (post_page idp (authn_request (''_'' @ ssoRandomHex (take 32 (we_hexDigits env))) (we_utcNow env) idp acs sp))), s))"

text \<open>The page that polls for the verdict.\<close>

definition wait_page :: "u32 \<Rightarrow> string" where
  "wait_page ticket =
     ''<!doctype html><html><head><meta charset=\"utf-8\"><title>Signing in'' @ [CHR 0xE2, CHR 0x80, CHR 0xA6] @
     ''</title></head><body><p style=\"font-family:sans-serif\">Signing in'' @ [CHR 0xE2, CHR 0x80, CHR 0xA6] @
     ''</p><script>(function(){var t='' @
     nat_string (unat ticket) @
     '',n=0;function go(){n++;if(n>40){location.href='' @ [CHR 0x27] @ ''/index.html?sso_error=timeout'' @ [CHR 0x27] @
     '';return;}fetch('' @ [CHR 0x27] @ ''/api/auth/saml/result?ticket='' @ [CHR 0x27] @
     ''+t).then(function(r){return r.json();}).then(function(d){if(d.status==='' @ [CHR 0x27] @ ''ok'' @ [CHR 0x27] @
     ''){location.href=d.redirect||'' @ [CHR 0x27] @ ''/home.html'' @ [CHR 0x27] @ '';}else if(d.status==='' @
     [CHR 0x27] @ ''error'' @ [CHR 0x27] @ ''){location.href='' @ [CHR 0x27] @ ''/index.html?sso_error='' @ [CHR 0x27] @
     ''+encodeURIComponent(d.error||'' @ [CHR 0x27] @ ''failed'' @ [CHR 0x27] @
     '');}else{setTimeout(go,600);}}).catch(function(){setTimeout(go,900);});}go();})();</script></body></html>''"

definition samlAcs :: "web_env \<Rightarrow> http_request \<Rightarrow> http_response \<Rightarrow> mgmtd \<Rightarrow> http_response handled" where
  "samlAcs env req resp s =
     (let samlResponse = ssoFormField (rq_body req) ''SAMLResponse'' in
      if samlResponse = [] then redirectErr resp ''no_saml_response'' s
      else
        let (ticket, s) = nextSsoTicket s in
        then_do (send_json env DAuthd CmdAuthSamlAcsRequest ticket (JObj [(''saml_response'', JStr samlResponse)]) s)
          (\<lambda>_ s. (Inr (fill_as ''text/html; charset=utf-8'' resp 200 (wait_page ticket)), s)))"

text \<open>\<^verbatim>\<open>strtoul\<close> in base ten, then the cast to 32 bits.\<close>

definition is_space :: "char \<Rightarrow> bool" where
  "is_space c \<longleftrightarrow> c \<in> {CHR '' '', CHR 0x09, CHR 0x0A, CHR 0x0B, CHR 0x0C, CHR 0x0D}"

definition strtoul10 :: "string \<Rightarrow> u32" where
  "strtoul10 str =
     (let body = dropWhile is_space str;
          neg = (body \<noteq> [] \<and> hd body = CHR ''-'');
          body = (if body \<noteq> [] \<and> (hd body = CHR ''-'' \<or> hd body = CHR ''+'') then tl body else body);
          n = digits_value (takeWhile isdigit body) in
      if n \<ge> 2 ^ 64 then of_nat (2 ^ 64 - 1) else if neg then - of_nat n else of_nat n)"

definition ticket_of :: "string \<Rightarrow> u32" where
  "ticket_of target = (case str_find ''ticket='' target of None \<Rightarrow> 0 | Some pos \<Rightarrow> strtoul10 (drop (pos + 7) target))"

definition status_json :: "string \<Rightarrow> (string \<times> string) list \<Rightarrow> json" where
  "status_json st extra = JObj (map (\<lambda>(k, v). (k, JStr v)) extra @ [(''status'', JStr st)])"

text \<open>The body of the \<^verbatim>\<open>try\<close> block: what a verdict is worth.\<close>

definition redeem_verdict :: "web_env \<Rightarrow> http_response \<Rightarrow> string \<Rightarrow> mgmtd \<Rightarrow> http_response handled" where
  "redeem_verdict env resp result s =
     (case bind_err (parse_body env result) (\<lambda>verdict. map_sum id (Pair verdict) (jvalue get_bool ''success'' False verdict)) of
        Inl e \<Rightarrow> (Inl e, s)
      | Inr (verdict, False) \<Rightarrow>
          (case jvalue get_str ''error'' ''verification failed'' verdict of
             Inl e \<Rightarrow> (Inl e, s)
           | Inr err \<Rightarrow> fill_json env resp 200 (status_json ''error'' [(''error'', err)]) s)
      | Inr (verdict, True) \<Rightarrow>
          (case jvalue get_str ''username'' [] verdict of
             Inl e \<Rightarrow> (Inl e, s)
           | Inr user \<Rightarrow>
               (case createSsoSession (we_auth env) user (mg_auth s) of (outcome, a) \<Rightarrow>
                  let s = s\<lparr>mg_auth := a\<rparr> in
                  case outcome of
                    Inl e \<Rightarrow> (Inl e, s)
                  | Inr sid \<Rightarrow>
                      if sid = [] then fill_json env resp 200 (status_json ''error'' [(''error'', ''session error'')]) s
                      else then_do (fill_json env resp 200 (status_json ''ok'' [(''redirect'', ''/home'')]) s)
                        (\<lambda>resp s. (Inr (resp\<lparr>rs_setCookie := session_cookie_header sid\<rparr>), s)))))"

definition samlResult :: "web_env \<Rightarrow> http_request \<Rightarrow> http_response \<Rightarrow> mgmtd \<Rightarrow> http_response handled" where
  "samlResult env req resp s =
     (let ticket = ticket_of (rq_target req) in
      if ticket = 0 then fill_json env resp 200 (status_json ''error'' [(''error'', ''bad ticket'')]) s
      else case takeSsoResult ticket s of
        (None, s) \<Rightarrow> fill_json env resp 200 (status_json ''pending'' []) s
      | (Some result, s) \<Rightarrow> catch (redeem_verdict env resp result s)
          (fill_json env resp 200 (status_json ''error'' [(''error'', ''bad result'')])))"

text \<open>\<^verbatim>\<open>authd\<close>'s verdict, filed under the ticket it carries.\<close>

definition onSamlAcsResponse :: "ipc_message \<Rightarrow> mgmtd \<Rightarrow> mgmtd" where
  "onSamlAcsResponse msg s =
     (if msg_payload msg = []
      then setSsoResult (msg_seqNo msg) ''{\"ok\":false,\"error\":\"authd returned an empty result\"}'' s
      else setSsoResult (msg_seqNo msg) (string_of_bytes (msg_payload msg)) s)"

definition onTestResponse :: "ipc_message \<Rightarrow> mgmtd \<Rightarrow> mgmtd" where
  "onTestResponse msg s =
     (if msg_payload msg = []
      then setApiTestResult (msg_seqNo msg) ''{\"ok\":false,\"message\":\"the daemon returned an empty result\"}'' s
      else setApiTestResult (msg_seqNo msg) (string_of_bytes (msg_payload msg)) s)"

subsection \<open>Accounts\<close>

definition kMinPasswordChars :: nat where "kMinPasswordChars = 8"

definition account_rows :: "string list list \<Rightarrow> (string \<times> json) list" where
  "account_rows rows = foldl (\<lambda>out r.
     if length r < 5 \<or> r ! 0 = [] then out
     else AList.update (r ! 0) (JObj [(''must_change'', JBool (r ! 3 = ''1'')), (''stored'', JBool (r ! 2 = ''1'')),
       (''updated_at'', JStr (r ! 4)), (''username'', JStr (r ! 1))]) out) [] rows"

definition user_credentials :: "web_env \<Rightarrow> http_request \<Rightarrow> http_response \<Rightarrow> mgmtd \<Rightarrow> http_response handled" where
  "user_credentials env req resp s =
     (let out = (case we_userRows env of None \<Rightarrow> [] | Some rows \<Rightarrow> account_rows rows) in
      fill_json env resp 200
        (JObj [(''role'', JStr (sessionRole (we_now env) (sessionCookie req) (mg_auth s))),
           (''self'', JStr (sessionUser (we_now env) (sessionCookie req) (mg_auth s))), (''users'', JObj out)]) s)"

definition account_payload :: "web_env \<Rightarrow> http_response \<Rightarrow> json \<Rightarrow> string \<Rightarrow> string \<Rightarrow> string \<Rightarrow> json_error + (http_response + json)" where
  "account_payload env resp input oid username me =
     bind_err (jvalue get_bool ''remove'' False input) (\<lambda>remove.
       if remove \<and> username = me
       then Inr (Inl (fill resp 409 ''{\"error\":\"you cannot remove the account you are signed in as\"}''))
       else if remove then
         (case we_userCount env of
            None \<Rightarrow> Inr (Inl (fill resp 503 ''{\"error\":\"the account list could not be read\"}''))
          | Some rows \<Rightarrow>
              if rows \<noteq> [] \<and> hd rows \<noteq> [] \<and> hd (hd rows) = ''1''
              then Inr (Inl (fill resp 409 (''{\"error\":\"this is the last local account '' @ em_dash @
                     '' the appliance would have no way in\"}'')))
              else Inr (Inr (JObj [(''oid'', JStr oid), (''remove'', JBool True), (''username'', JStr username)])))
       else bind_err (jvalue get_str ''password'' [] input) (\<lambda>password.
         if length password < kMinPasswordChars
         then map_sum id (\<lambda>b. Inl (fill resp 400 b))
                (we_dump env (error_json (''the password must be at least '' @ nat_string kMinPasswordChars @ '' characters'')))
         else
           let cred = makeCredential (we_auth env) password in
           Inr (Inr (JObj [(''must_change'', JBool False), (''oid'', JStr oid), (''password_hash'', JStr (cr_passwordHash cred)),
             (''salt'', JStr (cr_salt cred)), (''username'', JStr username)]))))"

definition user_credentialStore :: "web_env \<Rightarrow> http_request \<Rightarrow> http_response \<Rightarrow> mgmtd \<Rightarrow> http_response handled" where
  "user_credentialStore env req resp s =
     (case we_parse env (rq_body req) of
        None \<Rightarrow> (Inr (fill resp 400 ''{\"error\":\"invalid JSON body\"}''), s)
      | Some input \<Rightarrow>
          (case bind_err (jvalue get_str ''oid'' [] input) (\<lambda>oid. map_sum id (Pair oid) (jvalue get_str ''username'' [] input)) of
             Inl e \<Rightarrow> (Inl e, s)
           | Inr (oid, username) \<Rightarrow>
               if oid = [] \<or> username = [] then (Inr (fill resp 400 ''{\"error\":\"oid and username are required\"}''), s)
               else if \<not> sessionIsAdmin (we_now env) (sessionCookie req) (mg_auth s)
               then (Inr (fill resp 403 ''{\"error\":\"only an admin may change accounts\",\"code\":\"FORBIDDEN\"}''), s)
               else case account_payload env resp input oid username (sessionUser (we_now env) (sessionCookie req) (mg_auth s)) of
                 Inl e \<Rightarrow> (Inl e, s)
               | Inr (Inl refusal) \<Rightarrow> (Inr refusal, s)
               | Inr (Inr payload) \<Rightarrow>
                   then_do (send_json env DEngined CmdLocalUserUpdate 0 payload s)
                     (\<lambda>_ s. fill_json env resp 202 (JObj [(''oid'', JStr oid), (''status'', JStr ''pending'')]) s)))"

subsection \<open>Topology\<close>

definition splice_pending :: "bool \<Rightarrow> string \<Rightarrow> string" where
  "splice_pending fresh model =
     (case str_find ''{'' model of
        None \<Rightarrow> model
      | Some brace \<Rightarrow> take (brace + 1) model @
          (if fresh then ''\"pending\":false,'' else ''\"pending\":true,'') @ drop (brace + 1) model)"

definition siteTopology :: "web_env \<Rightarrow> http_request \<Rightarrow> http_response \<Rightarrow> mgmtd \<Rightarrow> http_response handled" where
  "siteTopology env req resp s =
     (let siteOid = queryParam (rq_target req) ''site'';
          now = we_steady env;
          haveFresh = topologyFresh now siteOid 50000 s in
      then_do
        (if \<not> haveFresh \<and> \<not> topologyRequested now siteOid s
         then then_do (send_json env DTopologyd CmdTopologyRequest 0 (JObj [(''site'', JStr siteOid)]) s)
                (\<lambda>_ s. (Inr (), markTopologyRequested now siteOid s))
         else (Inr (), s))
        (\<lambda>_ s. case topology_of siteOid s of
           Some model \<Rightarrow> (Inr (fill resp 200 (splice_pending haveFresh model)), s)
         | None \<Rightarrow> fill_json env resp 200
             (JObj [(''ngfw'', JObj [(''devices'', JArr [])]), (''pending'', JBool True),
                (''sase'', JObj [(''tenants'', JArr [])]), (''site'', JStr siteOid), (''sites'', JArr []),
                (''sources'', JObj [])]) s))"

definition onTopologyResponse :: "web_env \<Rightarrow> ipc_message \<Rightarrow> mgmtd \<Rightarrow> mgmtd" where
  "onTopologyResponse env msg s =
     (if msg_payload msg = [] then s
      else
        let body = string_of_bytes (msg_payload msg) in
        case bind_err (parse_body env body) (jvalue get_str ''site'' []) of
          Inl e \<Rightarrow> s
        | Inr site \<Rightarrow> setTopology (we_steady env) site body s)"

subsection \<open>Dispatch\<close>

definition metric :: "web_env \<Rightarrow> http_response \<Rightarrow> http_response" where
  "metric env resp = fill_as ''text/plain; version=0.0.4; charset=utf-8'' resp 200 (we_metrics env)"

definition health :: "http_response \<Rightarrow> mgmtd \<Rightarrow> http_response" where
  "health resp s = fill resp 200 (case mg_heartbeat s of Some j \<Rightarrow> j | None \<Rightarrow> ''{\"timestamp_ms\":0,\"daemons\":[]}'')"

definition dispatch_route :: "web_env \<Rightarrow> webroute \<Rightarrow> http_request \<Rightarrow> http_response \<Rightarrow> mgmtd \<Rightarrow> http_response handled" where
  "dispatch_route env r req resp s =
     (case r of
        RNone \<Rightarrow> (Inr resp, s)
      | RMetric \<Rightarrow> (Inr (metric env resp), s)
      | RHealth \<Rightarrow> (Inr (health resp s), s)
      | RLogin \<Rightarrow> auth_login env req resp s
      | RLogout \<Rightarrow> logout env req resp s
      | RChangePassword \<Rightarrow> changePassword env req resp s
      | RWhoami \<Rightarrow> whoami env req resp s
      | RSessionKeepalive \<Rightarrow> keepalive env req resp s
      | RSsoInfo \<Rightarrow> sso_info env req resp s
      | RSsoLogin \<Rightarrow> sso_login env req resp s
      | RSamlAcs \<Rightarrow> samlAcs env req resp s
      | RSamlResult \<Rightarrow> samlResult env req resp s
      | RSettingsCommit \<Rightarrow> commit env req resp s
      | RReloadStatus \<Rightarrow> reloadStatus env req resp s
      | RCommitQueue \<Rightarrow> commitQueue env req resp s
      | RSavedConfigContent \<Rightarrow> savedConfigContent env req resp s
      | RSiteTopology \<Rightarrow> siteTopology env req resp s
      | RUserCredentials \<Rightarrow> user_credentials env req resp s
      | RUserCredentialStore \<Rightarrow> user_credentialStore env req resp s
      | other \<Rightarrow> we_controller env other req resp s)"

definition unauthenticated :: "http_response \<Rightarrow> http_response" where
  "unauthenticated resp = fill resp 401 ''{\"error\":\"unauthorized\",\"code\":\"UNAUTHENTICATED\"}''"

definition route :: "web_env \<Rightarrow> http_request \<Rightarrow> http_response \<Rightarrow> mgmtd \<Rightarrow> http_response handled" where
  "route env req resp s =
     (case resolve (rq_method req) (rq_target req) of (r, acc, exempt) \<Rightarrow>
        if r = RNone then (if isStaticTarget (rq_target req) then staticFallback env req resp s else (Inr resp, s))
        else if acc = Authenticated then
          let (valid, a) = validateSession (we_now env) (sessionCookie req) (mg_auth s); s = s\<lparr>mg_auth := a\<rparr> in
          if \<not> valid then (Inr (unauthenticated resp), s)
          else if \<not> exempt \<and> prefix ''/api/'' (rq_target req) \<and> mustChangePassword (we_now env) (sessionCookie req) a
          then (Inr (fill resp 403 ''{\"error\":\"password change required\",\"code\":\"MUST_CHANGE_PASSWORD\"}''), s)
          else dispatch_route env r req resp s
        else dispatch_route env r req resp s)"

text \<open>The service's event: the response of a request, or the exception that ends the process.\<close>

definition web_handleEvent :: "web_env \<Rightarrow> http_request \<Rightarrow> mgmtd \<Rightarrow> http_response handled" where
  "web_handleEvent env req s = route env req response_new s"

subsection \<open>The table\<close>

definition public_api :: "string list" where
  "public_api = [''/api/login'', ''/api/logout'', ''/api/auth/sso/info'', ''/api/auth/sso/login'', ''/api/auth/saml/acs'']"

text \<open>An earlier row takes a later row's URLs.\<close>

fun shadows :: "route_row \<Rightarrow> route_row \<Rightarrow> bool" where
  "shadows (m1, p1, how1, rest1) (m2, p2, how2, rest2) \<longleftrightarrow>
     m1 = m2 \<and> (case how1 of Exact \<Rightarrow> p1 = p2 | MatchPrefix \<Rightarrow> prefix p1 p2)"

lemma no_row_shadowed: "sorted_wrt (\<lambda>r1 r2. \<not> shadows r1 r2) kRoutes"
  unfolding kRoutes_def by code_simp

lemma paths_plain: "\<forall>(m, path, rest) \<in> set kRoutes. CHR ''?'' \<notin> set path"
  unfolding kRoutes_def by code_simp

lemma public_rows:
  "(m, path, how, r, Public, ex) \<in> set kRoutes \<Longrightarrow>
     how = Exact \<and> path \<in> {''/metrics'', ''/health''} \<union> set public_api \<or> how = MatchPrefix \<and> path = ''/api/auth/saml/result''"
  by (simp add: kRoutes_def public_api_def) (elim disjE; simp)

lemma find_append:
  "List.find P (xs @ ys) = (case List.find P xs of None \<Rightarrow> List.find P ys | Some x \<Rightarrow> Some x)"
  by (induction xs) auto

lemma resolve_row:
  assumes "kRoutes = xs @ (m, path, how, resolved) # ys" "row_hit method target (m, path, how, resolved)"
    and "\<forall>r \<in> set xs. \<not> row_hit method target r"
  shows "resolve method target = resolved"
proof -
  have "List.find (row_hit method target) xs = None" using assms(3) unfolding find_None_iff by blast
  then have "List.find (row_hit method target) kRoutes = Some (m, path, how, resolved)"
    unfolding assms(1) find_append using assms(2) by simp
  then show ?thesis by (simp add: resolve_def)
qed

lemma resolve_row_own:
  assumes "(m, path, how, resolved) \<in> set kRoutes"
  shows "resolve m path = resolved"
proof -
  from assms obtain xs ys where k: "kRoutes = xs @ (m, path, how, resolved) # ys" by (meson split_list)
  have "\<forall>r \<in> set xs. \<not> shadows r (m, path, how, resolved)"
    using no_row_shadowed unfolding k by (simp add: sorted_wrt_append)
  then have "\<forall>r \<in> set xs. \<not> row_hit m path r" by (fastforce split: match.splits)
  then show ?thesis using resolve_row [OF k] by (cases how) auto
qed

text \<open>No row of the route table is shadowed by an earlier one: the URL of every row is answered by the
  handler and under the policy of that very row, and so is the URL of a prefix row with any query string.
\<close>

theorem routes_served:
  assumes "(m, path, how, resolved) \<in> set kRoutes"
  shows "resolve m path = resolved \<and> (how = MatchPrefix \<longrightarrow> resolve m (path @ ''?'' @ q) = resolved)"
proof -
  from assms obtain xs ys where k: "kRoutes = xs @ (m, path, how, resolved) # ys" by (meson split_list)
  have sh: "\<forall>r \<in> set xs. \<not> shadows r (m, path, how, resolved)"
    using no_row_shadowed unfolding k by (simp add: sorted_wrt_append)
  have plain: "\<forall>(m1, p1, rest1) \<in> set xs. CHR ''?'' \<notin> set p1" using paths_plain unfolding k by auto
  have "\<forall>r \<in> set xs. \<not> row_hit m (path @ ''?'' @ q) r"
  proof
    fix r assume r: "r \<in> set xs"
    obtain m1 p1 how1 rest1 where row: "r = (m1, p1, how1, rest1)" by (cases r)
    have p1: "CHR ''?'' \<notin> set p1" using plain r row by auto
    then have "path @ ''?'' @ q \<noteq> p1" by auto
    moreover have "prefix p1 (path @ ''?'' @ q) \<Longrightarrow> prefix p1 path"
    proof -
      assume "prefix p1 (path @ ''?'' @ q)"
      then consider "prefix p1 path" | us where "p1 = path @ us" "prefix us (''?'' @ q)" by (auto simp: prefix_append)
      then show "prefix p1 path"
      proof cases
        case 2
        with p1 have "us = []" by (cases us) auto
        with 2 show ?thesis by simp
      qed
    qed
    ultimately show "\<not> row_hit m (path @ ''?'' @ q) r" using sh r row by (fastforce split: match.splits)
  qed
  then show ?thesis using resolve_row [OF k] resolve_row_own [OF assms] by (cases how) auto
qed

theorem routes_served_witness:
  "resolve ''GET'' ''/api/chat/session'' = (RChatSession, Authenticated, False) \<and>
   resolve ''GET'' (''/api/chat/session'' @ ''?'' @ ''oid=7'') = (RChatSession, Authenticated, False)"
proof -
  have "(''GET'', ''/api/chat/session'', MatchPrefix, RChatSession, Authenticated, False) \<in> set kRoutes"
    unfolding kRoutes_def by (intro list.set_intros)
  from routes_served [OF this, of "''oid=7''"] show ?thesis by blast
qed

subsection \<open>The gates\<close>

definition is_public :: "string \<Rightarrow> bool" where
  "is_public target \<longleftrightarrow> target \<in> set public_api \<or> prefix ''/api/auth/saml/result'' target"

lemma resolve_protected:
  assumes "prefix ''/api'' target" "\<not> is_public target" "resolve method target = (r, acc, exempt)"
  shows "acc = Authenticated"
proof (cases "List.find (row_hit method target) kRoutes")
  case None
  with assms(3) show ?thesis by (simp add: resolve_def)
next
  case (Some row)
  obtain m path how r' acc' ex' where row: "row = (m, path, how, r', acc', ex')" by (cases row)
  from Some have "row \<in> set kRoutes" "row_hit method target row" by (auto simp: find_Some_iff)
  with row have mem: "(m, path, how, r', acc', ex') \<in> set kRoutes"
    and hit: "case how of Exact \<Rightarrow> target = path | MatchPrefix \<Rightarrow> prefix path target" by simp_all
  have "acc' \<noteq> Public"
  proof
    assume "acc' = Public"
    with mem public_rows [of m path how r' ex']
    consider "how = Exact" "path = ''/metrics''" | "how = Exact" "path = ''/health''"
      | "how = Exact" "path \<in> set public_api" | "how = MatchPrefix" "path = ''/api/auth/saml/result''" by blast
    then show False
    proof cases
      case 1 with hit assms(1) show ?thesis by simp
    next
      case 2 with hit assms(1) show ?thesis by simp
    next
      case 3 with hit assms(2) show ?thesis by (simp add: is_public_def)
    next
      case 4 with hit assms(2) show ?thesis by (simp add: is_public_def)
    qed
  qed
  with Some row assms(3) show ?thesis by (cases acc') (simp_all add: resolve_def)
qed

lemma api_not_static: "prefix ''/api'' target \<Longrightarrow> \<not> isStaticTarget target"
  by (simp add: isStaticTarget_def)

text \<open>C27. Without a live session no request reaches a handler behind the gate, whichever handlers there are: a
  request for anything under \<^verbatim>\<open>/api\<close>, except the two sign-in and the four federated sign-in routes, is
  answered as unauthorized or not found, and changes nothing but that an expired session may be forgotten.
\<close>

theorem unauthenticated_refused:
  assumes "prefix ''/api'' (rq_target req)" and "\<not> is_public (rq_target req)"
    and "\<not> fst (validateSession (we_now env) (sessionCookie req) (mg_auth s))"
  shows "web_handleEvent env req s = (Inr response_new, s) \<or>
    web_handleEvent env req s = (Inr (unauthenticated response_new),
      s\<lparr>mg_auth := snd (validateSession (we_now env) (sessionCookie req) (mg_auth s))\<rparr>)"
proof -
  obtain r acc exempt where res: "resolve (rq_method req) (rq_target req) = (r, acc, exempt)" by (cases "resolve (rq_method req) (rq_target req)")
  have acc: "acc = Authenticated" by (rule resolve_protected [OF assms(1,2) res])
  obtain a where a: "validateSession (we_now env) (sessionCookie req) (mg_auth s) = (False, a)"
    using assms(3) by (cases "validateSession (we_now env) (sessionCookie req) (mg_auth s)") auto
  show ?thesis
    using res acc a api_not_static [OF assms(1)] by (cases "r = RNone") (simp_all add: web_handleEvent_def route_def)
qed

definition get_request :: "string \<Rightarrow> http_request" where
  "get_request target = \<lparr>rq_method = ''GET'', rq_target = target, rq_cookie = [], rq_body = []\<rparr>"

lemma no_cookie: "sessionCookie (get_request t) = []" "sessionCookie (post_request t) = []"
  by (simp_all add: sessionCookie_def cookie_value_def get_request_def post_request_def)

theorem unauthenticated_refused_witness:
  "rs_status (response_new) = 404 \<and>
   (web_handleEvent (env_with JNull) (get_request ''/api/settings'') mg_new = (Inr response_new, mg_new) \<or>
    web_handleEvent (env_with JNull) (get_request ''/api/settings'') mg_new =
      (Inr (unauthenticated response_new), mg_new\<lparr>mg_auth := snd (validateSession 0 [] (mg_auth mg_new))\<rparr>))"
  using unauthenticated_refused [of "get_request ''/api/settings''" "env_with JNull" mg_new]
  by (simp add: no_cookie validateSession_def) (simp add: get_request_def is_public_def public_api_def env_with_def response_new_def)

lemma exempt_row:
  "(m, path, how, r, acc, True) \<in> set kRoutes \<Longrightarrow> how = Exact \<and> path = ''/api/change-password''"
  by (simp add: kRoutes_def)

text \<open>The must-change lock: while its user has a forced password change pending, a live session reaches
  nothing under \<^verbatim>\<open>/api/\<close> that needs a session except the route that changes the password.
\<close>

theorem locked_session_confined:
  assumes "prefix ''/api/'' (rq_target req)" and "\<not> is_public (rq_target req)"
    and "rq_target req \<noteq> ''/api/change-password''"
    and "fst (validateSession (we_now env) (sessionCookie req) (mg_auth s))"
    and "mustChangePassword (we_now env) (sessionCookie req) (mg_auth s)"
  shows "\<exists>resp. web_handleEvent env req s = (Inr resp, s) \<and> (rs_status resp = 403 \<or> rs_status resp = 404)"
proof -
  obtain r acc exempt where res: "resolve (rq_method req) (rq_target req) = (r, acc, exempt)" by (cases "resolve (rq_method req) (rq_target req)")
  have api: "prefix ''/api'' (rq_target req)" using assms(1) by (auto simp: prefix_def)
  have acc: "acc = Authenticated" by (rule resolve_protected [OF api assms(2) res])
  have v: "validateSession (we_now env) (sessionCookie req) (mg_auth s) = (True, mg_auth s)"
    using assms(4) validate_unchanged [OF assms(4)] by (simp add: prod_eq_iff)
  have "\<not> exempt"
  proof
    assume exempt
    with res obtain row where find: "List.find (row_hit (rq_method req) (rq_target req)) kRoutes = Some row"
      by (cases "List.find (row_hit (rq_method req) (rq_target req)) kRoutes") (simp_all add: resolve_def)
    obtain m path how where row: "row = (m, path, how, r, acc, True)"
      using find res \<open>exempt\<close> by (cases row) (simp add: resolve_def)
    from find have "row \<in> set kRoutes" "row_hit (rq_method req) (rq_target req) row" by (auto simp: find_Some_iff)
    with row exempt_row [of m path how r acc] assms(3) show False by simp
  qed
  with res acc v assms(1,5) api_not_static [OF api] show ?thesis
    by (cases "r = RNone") (simp_all add: web_handleEvent_def route_def response_new_def)
qed

text \<open>The change itself does not lift the lock of the session it was made on.\<close>

theorem lock_survives_change: "mg_auth (snd (changePassword env req resp s)) = mg_auth s"
proof -
  have c: "mg_auth (snd (persistCredential env user cred s)) = mg_auth s" for user cred
    by (cases "we_dump env (JObj [(''must_change'', JBool False), (''password_hash'', JStr (cr_passwordHash cred)),
          (''salt'', JStr (cr_salt cred)), (''username'', JStr user)])")
      (simp_all add: persistCredential_def send_json_def mg_send_def)
  then have c: "persistCredential env user cred s = (r, s') \<Longrightarrow> mg_auth s' = mg_auth s" for user cred r s'
    by (metis snd_conv)
  have p: "mg_auth (snd (catch (then_do (persistCredential env user cred s) (\<lambda>_ s. (Inr (fill resp 200 ok), s)))
      (bad_request resp))) = mg_auth s" for user cred ok
    by (auto simp: then_do_def catch_def bad_request_def dest: c split: prod.splits sum.splits)
  show ?thesis
    using p by (auto simp: changePassword_def bad_request_def Let_def split: sum.splits)
qed

definition locked_state :: mgmtd where
  "locked_state = mg_new\<lparr>mg_auth := put_session ''01''
     \<lparr>se_expiresAt = 1800, se_username = ''admin'', se_role = kRoleAdmin, se_mustChange = True\<rparr> auth_new\<rparr>"

definition session_request :: http_request where
  "session_request = (get_request ''/api/settings'')\<lparr>rq_cookie := ''a=b; session=01; c=d''\<rparr>"

lemma session_request_cookie: "sessionCookie session_request = ''01''"
  by (simp add: sessionCookie_def session_request_def cookie_value_def cookie_loop.simps [of _ 0] find_from_def session_key_def)

theorem locked_session_confined_witness:
  "\<exists>resp. web_handleEvent (env_with JNull) session_request locked_state = (Inr resp, locked_state) \<and>
     (rs_status resp = 403 \<or> rs_status resp = 404)"
proof (rule locked_session_confined)
  show "fst (validateSession (we_now (env_with JNull)) (sessionCookie session_request) (mg_auth locked_state))"
    by (simp add: session_request_cookie env_with_def validateSession_def locked_state_def)
  show "mustChangePassword (we_now (env_with JNull)) (sessionCookie session_request) (mg_auth locked_state)"
    by (simp add: session_request_cookie env_with_def mustChangePassword_def live_session_def locked_state_def)
qed (simp_all add: session_request_def get_request_def is_public_def public_api_def)

subsection \<open>Federated sign-in\<close>

lemma fill_json_state: "snd (fill_json env resp st j s) = s"
  by (simp add: fill_json_def)

lemma then_fill_state: "snd (then_do (fill_json env resp st j s) (\<lambda>resp s. (Inr (f resp), s))) = s"
  by (cases "we_dump env j") (simp_all add: fill_json_def)

text \<open>What redeeming a verdict does to the state: nothing, or a session for the user it names.\<close>

lemma redeem_verdict_state:
  "snd (redeem_verdict env resp result s) = s \<or>
   (\<exists>verdict user. we_parse env result = Some verdict \<and> jfind ''success'' verdict = Some (JBool True) \<and>
      jvalue get_str ''username'' [] verdict = Inr user \<and>
      snd (redeem_verdict env resp result s) = s\<lparr>mg_auth := snd (createSsoSession (we_auth env) user (mg_auth s))\<rparr>)"
proof (cases "bind_err (parse_body env result) (\<lambda>verdict. map_sum id (Pair verdict) (jvalue get_bool ''success'' False verdict))")
  case (Inl e)
  then show ?thesis by (simp add: redeem_verdict_def)
next
  case (Inr p)
  obtain verdict success where p: "p = (verdict, success)" by (cases p)
  with Inr have v: "we_parse env result = Some verdict" "jvalue get_bool ''success'' False verdict = Inr success"
    by (auto simp: bind_err_Inr_iff parse_body_def map_sum_def split: option.splits sum.splits)
  show ?thesis
  proof (cases success)
    case False
    with Inr p show ?thesis
      by (cases "jvalue get_str ''error'' ''verification failed'' verdict") (simp_all add: redeem_verdict_def fill_json_state)
  next
    case True
    with v(2) have success: "jfind ''success'' verdict = Some (JBool True)"
      by (auto simp: jvalue_def get_bool_def split: if_splits option.splits json.splits)
    show ?thesis
    proof (cases "jvalue get_str ''username'' [] verdict")
      case (Inl e)
      with Inr p True show ?thesis by (simp add: redeem_verdict_def)
    next
      case user: (Inr user)
      obtain outcome a where c: "createSsoSession (we_auth env) user (mg_auth s) = (outcome, a)" by fastforce
      with Inr p True user have "snd (redeem_verdict env resp result s) = s\<lparr>mg_auth := a\<rparr>"
        by (cases outcome) (simp_all add: redeem_verdict_def Let_def fill_json_state then_fill_state)
      with v(1) success user c show ?thesis by auto
    qed
  qed
qed

lemma catch_fill_state: "snd (catch r (fill_json env resp st j)) = snd r"
  by (cases r; cases "fst r") (auto simp: fill_json_state)

text \<open>Polling for the result of a federated sign-in touches the sessions only on \<^verbatim>\<open>authd\<close>'s word: if it does,
  the verdict filed under the polled ticket reported success, a session was made for the user it names, and
  the verdict is gone, so that no second poll is served by it.
\<close>

theorem sso_session_needs_verdict:
  assumes "samlResult env req resp s = (r, s')" and "mg_auth s' \<noteq> mg_auth s"
  shows "\<exists>result verdict user. map_of (mg_ssoResults s) (ticket_of (rq_target req)) = Some result \<and>
    we_parse env result = Some verdict \<and> jfind ''success'' verdict = Some (JBool True) \<and>
    jvalue get_str ''username'' [] verdict = Inr user \<and>
    mg_auth s' = snd (createSsoSession (we_auth env) user (mg_auth s)) \<and>
    map_of (mg_ssoResults s') (ticket_of (rq_target req)) = None"
proof (cases "ticket_of (rq_target req) = 0")
  case True
  with assms show ?thesis using fill_json_state by (auto simp: samlResult_def) (metis snd_conv)
next
  case False
  let ?t = "ticket_of (rq_target req)"
  let ?s1 = "snd (takeSsoResult ?t s)"
  have gone: "map_of (mg_ssoResults ?s1) ?t = None" "mg_auth ?s1 = mg_auth s" by (simp_all add: store_take_laws)
  show ?thesis
  proof (cases "map_of (mg_ssoResults s) ?t")
    case None
    then have "takeSsoResult ?t s = (None, ?s1)" by (simp add: prod_eq_iff store_take_laws)
    with False have "samlResult env req resp s = fill_json env resp 200 (status_json ''pending'' []) ?s1"
      by (simp add: samlResult_def)
    then have "s' = ?s1" using assms(1) fill_json_state by (metis snd_conv)
    with gone(2) assms(2) show ?thesis by simp
  next
    case (Some result)
    then have "takeSsoResult ?t s = (Some result, ?s1)" by (simp add: prod_eq_iff store_take_laws)
    with False have "samlResult env req resp s = catch (redeem_verdict env resp result ?s1)
        (fill_json env resp 200 (status_json ''error'' [(''error'', ''bad result'')]))"
      by (simp add: samlResult_def)
    then have "s' = snd (redeem_verdict env resp result ?s1)" using assms(1) catch_fill_state by (metis snd_conv)
    with redeem_verdict_state [of env resp result ?s1] gone assms(2) Some show ?thesis by auto
  qed
qed

definition verdict_json :: json where
  "verdict_json = JObj [(''success'', JBool True), (''username'', JStr ''op'')]"

definition verdict_state :: mgmtd where
  "verdict_state = setSsoResult 1 ''verdict'' mg_new"

lemma ticket_example: "ticket_of ''/api/auth/saml/result?ticket=1'' = 1"
  by (simp add: ticket_of_def strtoul10_def is_space_def isdigit_def is_between_def digits_value_def)

lemma redeem_example:
  "mg_auth (snd (samlResult (env_with verdict_json) (get_request ''/api/auth/saml/result?ticket=1'') response_new verdict_state)) =
     put_session ''01'' \<lparr>se_expiresAt = 1800, se_username = ''op'', se_role = kRoleUser, se_mustChange = False\<rparr> auth_new"
proof -
  have "takeSsoResult 1 verdict_state = (Some ''verdict'', snd (takeSsoResult 1 verdict_state))"
    by (simp add: prod_eq_iff store_take_laws verdict_state_def setSsoResult_def store_set_def mg_new_def)
  moreover have "mg_auth verdict_state = auth_new" by (simp add: verdict_state_def setSsoResult_def mg_new_def)
  moreover have "createSsoSession (we_auth (env_with verdict_json)) ''op'' auth_new = (Inr ''01'',
      put_session ''01'' \<lparr>se_expiresAt = 1800, se_username = ''op'', se_role = kRoleUser, se_mustChange = False\<rparr> auth_new)"
    by (simp add: createSsoSession_def env_with_def auth_new_def Let_def)
  ultimately show ?thesis
    by (simp add: samlResult_def get_request_def ticket_example catch_fill_state)
      (simp add: redeem_verdict_def parse_body_def env_with_def verdict_json_def jvalue_def get_bool_def get_str_def
        fill_json_state then_fill_state Let_def)
qed

theorem sso_session_needs_verdict_witness:
  "\<exists>s' :: mgmtd. mg_auth s' \<noteq> mg_auth verdict_state \<and> map_of (mg_ssoResults verdict_state) 1 \<noteq> None \<and>
     map_of (mg_ssoResults s') 1 = None"
proof -
  obtain r s' where run: "samlResult (env_with verdict_json) (get_request ''/api/auth/saml/result?ticket=1'') response_new verdict_state = (r, s')"
    by fastforce
  have "mg_auth s' \<noteq> mg_auth verdict_state"
    using redeem_example run by (simp add: verdict_state_def setSsoResult_def mg_new_def put_session_def auth_new_def)
  moreover from sso_session_needs_verdict [OF run this]
  have "map_of (mg_ssoResults verdict_state) 1 \<noteq> None" "map_of (mg_ssoResults s') 1 = None"
    by (auto simp: get_request_def ticket_example)
  ultimately show ?thesis by blast
qed

text \<open>
  A request anyone can send ends the process: a form field that does not decode to UTF-8 cannot be printed
  into the message for \<^verbatim>\<open>authd\<close>, and nothing catches the exception.
\<close>

theorem saml_acs_throws:
  assumes "rq_method req = ''POST''" and "rq_target req = ''/api/auth/saml/acs''"
    and "ssoFormField (rq_body req) ''SAMLResponse'' \<noteq> []"
    and "we_dump env (JObj [(''saml_response'', JStr (ssoFormField (rq_body req) ''SAMLResponse''))]) = Inl e"
  shows "fst (web_handleEvent env req s) = Inl e"
proof -
  have "(''POST'', ''/api/auth/saml/acs'', Exact, RSamlAcs, Public, False) \<in> set kRoutes"
    unfolding kRoutes_def by (intro list.set_intros)
  then have "resolve ''POST'' ''/api/auth/saml/acs'' = (RSamlAcs, Public, False)"
    by (rule resolve_row_own)
  with assms show ?thesis
    by (simp add: web_handleEvent_def route_def dispatch_route_def samlAcs_def nextSsoTicket_def send_json_def)
qed

end
