(* ===== verification/Sso_Pipeline.thy ===== *)
theory Sso_Pipeline
  imports Authd_Service Mgmtd_Web
begin

text \<open>
  The federated sign-in across the two daemons: the management daemon takes the browser's form and asks the
  authentication daemon (\<^verbatim>\<open>SsoController::samlAcs\<close>), which verifies the response
  (\<^verbatim>\<open>authd/service/auth/AuthService.cpp\<close>); its answer is filed (\<^verbatim>\<open>mgmtd/service/auth/AuthService.cpp\<close>)
  and polled for (\<^verbatim>\<open>SsoController::samlResult\<close>). Both daemons use the same JSON library.
\<close>

text \<open>What one daemon prints the other reads.\<close>

definition understands :: "(string \<Rightarrow> json option) \<Rightarrow> (json \<Rightarrow> json_error + string) \<Rightarrow> bool" where
  "understands parse dump \<longleftrightarrow> (\<forall>j t. dump j = Inr t \<longrightarrow> t \<noteq> [] \<and> parse t = Some j)"

lemma string_bytes: "map char_of_byte (bytes_of_string t) = t" "string_of_bytes (bytes_of_string t) = t"
proof -
  have "char_of_byte (of_char c) = c" for c by (simp add: char_of_byte_def unat_of_char)
  then show "map char_of_byte (bytes_of_string t) = t" by (simp add: bytes_of_string_def comp_def)
  then show "string_of_bytes (bytes_of_string t) = t" by (simp add: string_of_bytes_def)
qed

text \<open>The request that leaves the management daemon carries the form's response.\<close>

lemma samlAcs_request:
  assumes "samlAcs env req resp s = (Inr resp', s')" and "ssoFormField (rq_body req) ''SAMLResponse'' \<noteq> []"
  shows "\<exists>ticket body. we_dump env (JObj [(''saml_response'', JStr (ssoFormField (rq_body req) ''SAMLResponse''))]) = Inr body \<and>
    mg_out s' = mg_out s @ [TxIpc (mk_message DMgmtd DAuthd CmdAuthSamlAcsRequest ticket (toFlag FlagRequest) (bytes_of_string body))] \<and>
    ticket = fst (nextSsoTicket s)"
  using assms
  by (auto simp: samlAcs_def send_json_def mg_send_def nextSsoTicket_def Let_def split: prod.splits sum.splits)

text \<open>C31. A session that a federated sign-in makes was vouched for: when the management daemon sent a browser's SAML
  response to the authentication daemon, that daemon answered, the answer was filed, and a poll under the answer's
  number then changed the sessions, the authentication daemon has SAML selected, its verification of the very
  response the browser posted succeeded, and the session was made for the user it found.\<close>

theorem federated_session_verified:
  assumes "understands (an_parse aenv) (we_dump env)" and "understands (we_parse env') (an_dump aenv)"
    and "samlAcs env req resp s = (Inr resp', s')" and "ssoFormField (rq_body req) ''SAMLResponse'' \<noteq> []"
    and "mg_out s' = mg_out s @ [TxIpc request]"
    and "auth_serve aenv request a = Inr a'" and "ad_actions a = []" and "ad_tx a' = ad_tx a @ [answer]"
    and "samlResult env' poll resp'' (onSamlAcsResponse answer t) = (r, t')"
    and "ticket_of (rq_target poll) = msg_seqNo answer"
    and "mg_auth t' \<noteq> mg_auth t"
  defines "res \<equiv> verifyResponse (an_saml aenv) (ad_saml a) (ssoFormField (rq_body req) ''SAMLResponse'')"
  shows "ad_method a = MethodSaml \<and> sr_success res \<and> mg_auth t' = snd (createSsoSession (we_auth env') (sr_username res) (mg_auth t))"
proof -
  let ?form = "ssoFormField (rq_body req) ''SAMLResponse''"
  from samlAcs_request [OF assms(3,4)] assms(5) obtain ticket body where
    body: "we_dump env (JObj [(''saml_response'', JStr ?form)]) = Inr body"
    and request: "request = mk_message DMgmtd DAuthd CmdAuthSamlAcsRequest ticket (toFlag FlagRequest) (bytes_of_string body)"
    by auto
  have "an_parse aenv body = Some (JObj [(''saml_response'', JStr ?form)])"
    using assms(1) body by (simp add: understands_def)
  then have read: "or_empty (request_member aenv request ''saml_response'') = ?form"
    by (simp add: request_member_def payloadToString_def request string_bytes or_empty_def jvalue_def get_str_def)
  have head: "msg_cmd request = CmdAuthSamlAcsRequest" "msg_src request = DMgmtd" "msg_seqNo request = ticket"
    by (simp_all add: request)
  from saml_answer [OF assms(6) head(1) assms(7), unfolded read Let_def] assms(8) obtain payload where
    answer: "answer = mk_message DAuthd DMgmtd CmdAuthSamlAcsResponse ticket (toFlag FlagResponse) (bytes_of_string payload)"
    and payload: "an_dump aenv (if ad_method a = MethodSaml then sign_in_json (sr_success res) (sr_username res) (sr_error res)
                  else not_selected ''saml'') = Inr payload"
    unfolding head res_def by auto
  have json: "we_parse env' payload = Some (if ad_method a = MethodSaml then sign_in_json (sr_success res) (sr_username res) (sr_error res)
                  else not_selected ''saml'')" "payload \<noteq> []"
    using assms(2) payload by (simp_all add: understands_def)
  have filed: "onSamlAcsResponse answer t = setSsoResult ticket payload t" "mg_auth (onSamlAcsResponse answer t) = mg_auth t"
  proof -
    have "bytes_of_string payload \<noteq> []" using json(2) by (simp add: bytes_of_string_def)
    then show "onSamlAcsResponse answer t = setSsoResult ticket payload t"
      by (simp add: onSamlAcsResponse_def answer string_bytes)
    then show "mg_auth (onSamlAcsResponse answer t) = mg_auth t" by (simp add: setSsoResult_def)
  qed
  have held: "map_of (mg_ssoResults (setSsoResult ticket payload t)) ticket = Some payload"
    by (simp add: setSsoResult_def store_set_def update_conv')
  from sso_session_needs_verdict [OF assms(9)] assms(10,11) filed held obtain verdict user where
    v: "we_parse env' payload = Some verdict" "jfind ''success'' verdict = Some (JBool True)"
    "jvalue get_str ''username'' [] verdict = Inr user" "mg_auth t' = snd (createSsoSession (we_auth env') user (mg_auth t))"
    by (auto simp: answer)
  have saml: "ad_method a = MethodSaml" using v(1,2) json(1) by (auto simp: not_selected_def split: if_splits)
  then have "verdict = sign_in_json (sr_success res) (sr_username res) (sr_error res)" using v(1) json(1) by simp
  then have "sr_success res" "user = sr_username res"
    using v(2,3) by (auto simp: sign_in_json_def jvalue_def get_str_def split: if_splits)
  with saml v(4) show ?thesis by simp
qed

subsection \<open>An example\<close>

definition sso_question :: json where
  "sso_question = JObj [(''saml_response'', JStr ''AA=='')]"

definition sso_verdict :: json where
  "sso_verdict = sign_in_json True ''ann'' []"

definition sso_parse :: "string \<Rightarrow> json option" where
  "sso_parse s = (if s = ''q'' then Some sso_question else if s = ''a'' then Some sso_verdict else None)"

definition sso_dump :: "json \<Rightarrow> json_error + string" where
  "sso_dump j = (if j = sso_question then Inr ''q'' else if j = sso_verdict then Inr ''a'' else Inl (TypeError 316))"

definition sso_web_env :: web_env where
  "sso_web_env = (env_with JNull)\<lparr>we_parse := sso_parse, we_dump := sso_dump\<rparr>"

definition sso_authd_env :: authd_env where
  "sso_authd_env = \<lparr>an_oidc = oidc_example_env, an_saml = saml_example_env, an_crypto = ae_crypto (sign_env 0), an_rows = (\<lambda>_. []),
     an_parse = sso_parse, an_dump = sso_dump\<rparr>"

definition sso_authd :: authd where
  "sso_authd = authd_new\<lparr>ad_method := MethodSaml, ad_saml := saml_example_cfg\<rparr>"

definition sso_form :: http_request where
  "sso_form = (post_request ''/api/auth/saml/acs'')\<lparr>rq_body := ''SAMLResponse=AA==''\<rparr>"

definition sso_request :: ipc_message where
  "sso_request = mk_message DMgmtd DAuthd CmdAuthSamlAcsRequest 1 (toFlag FlagRequest) (bytes_of_string ''q'')"

definition sso_answer :: ipc_message where
  "sso_answer = mk_message DAuthd DMgmtd CmdAuthSamlAcsResponse 1 (toFlag FlagResponse) (bytes_of_string ''a'')"

lemma sso_understands: "understands sso_parse sso_dump"
  by (auto simp: understands_def sso_parse_def sso_dump_def split: if_splits)

lemma sso_acs_example:
  "samlAcs sso_web_env sso_form response_new mg_new =
    (Inr (fill_as ''text/html; charset=utf-8'' response_new 200 (wait_page 1)),
     mg_send (TxIpc sso_request) (snd (nextSsoTicket mg_new)))"
proof -
  have form: "ssoFormField (rq_body sso_form) ''SAMLResponse'' = ''AA==''" by code_simp
  have ticket: "nextSsoTicket mg_new = (1, snd (nextSsoTicket mg_new))" by (simp add: nextSsoTicket_def mg_new_def)
  have dump: "we_dump sso_web_env (JObj [(''saml_response'', JStr ''AA=='')]) = Inr ''q''"
    by (simp add: sso_web_env_def sso_dump_def sso_question_def)
  show ?thesis
    unfolding samlAcs_def form by (subst ticket) (simp add: send_json_def dump sso_request_def)
qed

lemma sso_answer_example:
  "auth_serve sso_authd_env sso_request sso_authd = Inr (sso_authd\<lparr>ad_tx := [sso_answer]\<rparr>)"
proof -
  have "an_parse sso_authd_env (payloadToString sso_request) = Some sso_question"
    by (simp add: sso_authd_env_def payloadToString_def sso_request_def string_bytes sso_parse_def)
  then have read: "or_empty (request_member sso_authd_env sso_request ''saml_response'') = ''AA==''"
    by (simp add: request_member_def sso_question_def jvalue_def get_str_def or_empty_def)
  have saml: "an_saml sso_authd_env = saml_example_env" "ad_saml sso_authd = saml_example_cfg" "ad_method sso_authd = MethodSaml"
    by (simp_all add: sso_authd_env_def sso_authd_def)
  have "an_dump sso_authd_env (sign_in_json True ''ann'' []) = Inr ''a''"
    by (simp add: sso_authd_env_def sso_dump_def sso_question_def sso_verdict_def sign_in_json_def)
  then have "auth_handleEvent sso_authd_env ReceiveSamlAcsRequest (Some sso_request) sso_authd =
    Inr (sso_authd\<lparr>ad_actions := [\<lparr>aa_type = SendSamlAcsResponse, aa_dst = DMgmtd, aa_seqNo = 1, aa_payload = ''a''\<rparr>]\<rparr>)"
    by (simp add: saml read saml_example_accepted auth_respond_def Let_def) (simp add: sso_request_def sso_authd_def authd_new_def)
  then show ?thesis
    by (simp add: auth_serve_def auth_event_of_def auth_actions_def auth_handleAction_def sso_request_def sso_answer_def
        sso_authd_def authd_new_def)
qed

lemma sso_poll_example:
  "mg_auth (snd (samlResult sso_web_env (get_request ''/api/auth/saml/result?ticket=1'') response_new (onSamlAcsResponse sso_answer mg_new)))
    = put_session ''01'' \<lparr>se_expiresAt = 1800, se_username = ''ann'', se_role = kRoleUser, se_mustChange = False\<rparr> auth_new"
proof -
  let ?s = "onSamlAcsResponse sso_answer mg_new"
  have "bytes_of_string ''a'' \<noteq> []" by (simp add: bytes_of_string_def)
  then have s: "?s = setSsoResult 1 ''a'' mg_new" by (simp add: onSamlAcsResponse_def sso_answer_def string_bytes)
  have take: "takeSsoResult 1 ?s = (Some ''a'', snd (takeSsoResult 1 ?s))"
    unfolding s by (simp add: prod_eq_iff store_take_laws setSsoResult_def store_set_def mg_new_def)
  have auth: "mg_auth ?s = auth_new" unfolding s by (simp add: setSsoResult_def mg_new_def)
  have "createSsoSession (we_auth sso_web_env) ''ann'' auth_new = (Inr ''01'',
      put_session ''01'' \<lparr>se_expiresAt = 1800, se_username = ''ann'', se_role = kRoleUser, se_mustChange = False\<rparr> auth_new)"
    by (simp add: createSsoSession_def sso_web_env_def env_with_def auth_new_def Let_def)
  with take auth show ?thesis
    by (simp add: samlResult_def get_request_def ticket_example catch_fill_state)
      (simp add: redeem_verdict_def parse_body_def sso_web_env_def sso_parse_def sso_verdict_def sign_in_json_def jvalue_def
        get_bool_def get_str_def fill_json_state then_fill_state store_take_laws Let_def)
qed

theorem federated_session_verified_witness:
  "\<exists>t' :: mgmtd. mg_auth t' \<noteq> mg_auth mg_new \<and>
     mg_auth t' = snd (createSsoSession (we_auth sso_web_env) ''ann'' (mg_auth mg_new))"
proof -
  let ?poll = "get_request ''/api/auth/saml/result?ticket=1''"
  obtain r t' where run: "samlResult sso_web_env ?poll response_new (onSamlAcsResponse sso_answer mg_new) = (r, t')" by fastforce
  have new: "mg_auth t' \<noteq> mg_auth mg_new"
    using sso_poll_example unfolding run by (simp add: put_session_def auth_new_def mg_new_def)
  have form: "ssoFormField (rq_body sso_form) ''SAMLResponse'' = ''AA==''" by code_simp
  have u: "understands (an_parse sso_authd_env) (we_dump sso_web_env)" "understands (we_parse sso_web_env) (an_dump sso_authd_env)"
    using sso_understands by (simp_all add: sso_authd_env_def sso_web_env_def)
  have "mg_auth t' = snd (createSsoSession (we_auth sso_web_env)
      (sr_username (verifyResponse (an_saml sso_authd_env) (ad_saml sso_authd) (ssoFormField (rq_body sso_form) ''SAMLResponse''))) (mg_auth mg_new))"
    by (rule federated_session_verified [OF u sso_acs_example _ _ sso_answer_example _ _ run _ new, THEN conjunct2, THEN conjunct2])
      (simp_all add: form mg_send_def nextSsoTicket_def sso_authd_def authd_new_def sso_answer_def get_request_def ticket_example)
  moreover have "an_saml sso_authd_env = saml_example_env" "ad_saml sso_authd = saml_example_cfg"
    by (simp_all add: sso_authd_env_def sso_authd_def)
  ultimately show ?thesis using new by (metis form saml_example_accepted(2))
qed

end
