(* ===== verification/Topology_Service.thy ===== *)
theory Topology_Service
  imports Topology_Ngfw Sso_Pipeline
begin

text \<open>
  The topology daemon's service (\<^verbatim>\<open>TopologyService::handleEvent\<close>, \<^verbatim>\<open>compose\<close>, \<^verbatim>\<open>reply\<close>) and its work with the
  management daemon, which asks for one site's picture, files the answer and serves it
  (\<^verbatim>\<open>TopologyController\<close>, in \<open>Mgmtd_Web\<close>).
\<close>

definition generated_at :: "topo_env \<Rightarrow> string" where
  "generated_at env =
     (case tn_now_rows env of None \<Rightarrow> []
      | Some rows \<Rightarrow> if rows \<noteq> [] \<and> rows ! 0 \<noteq> [] then rows ! 0 ! 0 else [])"

definition compose :: "topo_env \<Rightarrow> string \<Rightarrow> topo_error + json" where
  "compose env siteOid =
     bind_err (lift_thrown (site_entries env)) (\<lambda>sites.
       let samples = latestSamples env in
       bind_err (lift_thrown (composeSase env siteOid samples)) (\<lambda>(sase, sources).
       bind_err (composeNgfw env siteOid samples) (\<lambda>(ngfw, sources').
         Inr (JObj [(''site'', JStr siteOid),
           (''sites'', JArr (map (\<lambda>(oid, name). JObj [(''oid'', JStr oid), (''name'', JStr name)]) sites)),
           (''generated_at'', JStr (generated_at env)), (''sase'', sase), (''ngfw'', ngfw),
           (''sources'', JObj (sources @ sources'))]))))"

text \<open>A payload that is not an object with a string under \<^verbatim>\<open>site\<close> asks for every site.\<close>

definition requested_site :: "topo_env \<Rightarrow> ipc_message \<Rightarrow> string" where
  "requested_site env msg =
     (if msg_payload msg = [] then []
      else case tn_parse env (payloadToString msg) of None \<Rightarrow> []
        | Some req \<Rightarrow> (case jvalue get_str ''site'' [] req of Inl e \<Rightarrow> [] | Inr s \<Rightarrow> s))"

definition composition_failed :: json where
  "composition_failed = JObj [(''error'', JStr ''composition failed'')]"

definition topo_reply :: "topo_env \<Rightarrow> u32 \<Rightarrow> json \<Rightarrow> ipc_message list \<Rightarrow> topo_error + ipc_message list" where
  "topo_reply env seqNo model tx =
     (case tn_dump env model of Inl e \<Rightarrow> Inl (Thrown e)
      | Inr body \<Rightarrow> Inr (tx @ [mk_message DTopologyd DMgmtd CmdTopologyResponse seqNo (toFlag FlagResponse)
          (bytes_of_string body)]))"

datatype topo_event_type = TeUnknown | TeReceiveRequest

definition topo_handleEvent ::
  "topo_env \<Rightarrow> topo_event_type \<Rightarrow> ipc_message option \<Rightarrow> ipc_message list \<Rightarrow> topo_error + ipc_message list" where
  "topo_handleEvent env t m tx =
     (if t \<noteq> TeReceiveRequest then Inr tx
      else case m of None \<Rightarrow> Inr tx
        | Some msg \<Rightarrow>
            (case compose env (requested_site env msg) of
               Inr model \<Rightarrow> topo_reply env (msg_seqNo msg) model tx
             | Inl (Thrown e) \<Rightarrow> topo_reply env (msg_seqNo msg) composition_failed tx
             | Inl Aborted \<Rightarrow> Inl Aborted))"

text \<open>What the daemon does with a message that reaches its topology service.\<close>

definition topo_serve :: "topo_env \<Rightarrow> ipc_message \<Rightarrow> ipc_message list \<Rightarrow> topo_error + ipc_message list" where
  "topo_serve env msg tx =
     (if msg_cmd msg = CmdTopologyRequest then topo_handleEvent env TeReceiveRequest (Some msg) tx else Inr tx)"

subsection \<open>A site's picture\<close>

text \<open>
  What belongs in a site's picture, read off the configuration without the code's own filter: every entry
  under the key that is an object with an identifier, and whose site is the one asked for; a request that
  names no site asks for all of them. A member that is absent counts as empty text.
\<close>

definition text_member :: "string \<Rightarrow> json \<Rightarrow> string" where
  "text_member k d = (case jfind k d of Some (JStr s) \<Rightarrow> s | _ \<Rightarrow> [])"

definition declared_at :: "string \<Rightarrow> json \<Rightarrow> bool" where
  "declared_at siteOid d \<longleftrightarrow> is_object d \<and> text_member ''oid'' d \<noteq> [] \<and>
     (siteOid = [] \<or> text_member ''site'' d = siteOid)"

definition declared_devices :: "topo_env \<Rightarrow> string \<Rightarrow> json list" where
  "declared_devices env key = (case jfind key (tn_site env) of Some ds \<Rightarrow> jiterate ds | None \<Rightarrow> [])"

definition site_devices :: "topo_env \<Rightarrow> string \<Rightarrow> string \<Rightarrow> (string \<times> string) list" where
  "site_devices env key siteOid =
     map (\<lambda>d. (text_member ''oid'' d, text_member ''site'' d)) (filter (declared_at siteOid) (declared_devices env key))"

lemma text_member_jvalue: "jvalue get_str k [] d = Inr s \<Longrightarrow> text_member k d = s"
  by (auto simp: jvalue_def text_member_def get_str_def split: if_splits option.splits json.splits)

text \<open>The filter of the code, where it does not throw, keeps just those.\<close>

lemma shown_device_declared:
  assumes "device_in_site siteOid d = Inr here"
  shows "shown_device siteOid d =
    (if declared_at siteOid d then [(text_member ''oid'' d, text_member ''site'' d)] else [])"
proof (cases "is_object d")
  case True
  with assms obtain oid devSite where j: "jvalue get_str ''oid'' [] d = Inr oid" "jvalue get_str ''site'' [] d = Inr devSite"
    by (auto simp: device_in_site_def bind_err_Inr_iff)
  then have "device_in_site siteOid d =
      Inr (if oid = [] \<or> (siteOid \<noteq> [] \<and> devSite \<noteq> siteOid) then None else Some (oid, devSite))"
    using True by (simp add: device_in_site_def bind_err_def)
  with True j [THEN text_member_jvalue] show ?thesis by (simp add: shown_device_def declared_at_def)
qed (simp add: shown_device_def device_in_site_def declared_at_def)

lemma shown_devices_declared:
  assumes "\<And>d. d \<in> set ds \<Longrightarrow> \<exists>here. device_in_site siteOid d = Inr here"
  shows "concat (map (shown_device siteOid) ds) =
    map (\<lambda>d. (text_member ''oid'' d, text_member ''site'' d)) (filter (declared_at siteOid) ds)"
  using assms
proof (induction ds)
  case (Cons d ds)
  obtain here where "device_in_site siteOid d = Inr here" using Cons.prems [of d] by auto
  with Cons show ?case by (simp add: shown_device_declared)
qed simp

lemma for_each_stops: "for_each f xs s = Inr t \<Longrightarrow> x \<in> set xs \<Longrightarrow> \<exists>u u'. f x u = Inr u'"
  by (induction xs arbitrary: s) (auto simp: bind_err_Inr_iff)

text \<open>The identifier and site of each entry a half of a picture holds, and where its links start.\<close>

definition part_of :: "string \<Rightarrow> string \<Rightarrow> json \<Rightarrow> json list" where
  "part_of half part m =
     (case jfind half m of None \<Rightarrow> [] | Some h \<Rightarrow> (case jfind part h of None \<Rightarrow> [] | Some xs \<Rightarrow> jitems xs))"

definition link_start :: "json \<Rightarrow> (string \<times> string) option" where
  "link_start l = (case (jfind ''device'' l, jfind ''site'' l) of (Some (JStr d), Some (JStr s)) \<Rightarrow> Some (d, s) | _ \<Rightarrow> None)"

lemma link_start_json: "link_start (link_json l) = Some (ln_device l, ln_site l)"
  by (simp add: link_start_def link_json_def)

lemma lift_thrown_Inr: "lift_thrown r = Inr x \<longleftrightarrow> r = Inr x"
  by (cases r) (auto simp: lift_thrown_def)

lemma declared_devices_jvalue:
  "jvalue get_json key (JArr []) (tn_site env) = Inr devices \<Longrightarrow> declared_devices env key = jiterate devices"
  by (auto simp: jvalue_def declared_devices_def get_json_def jiterate_def split: if_splits option.splits)

lemma sase_tenant_placed:
  "sase_tenant env siteOid samples names d h = Inr h' \<Longrightarrow> \<exists>here. device_in_site siteOid d = Inr here"
  by (auto simp: sase_tenant_def bind_err_Inr_iff)

lemma ngfw_device_placed:
  "ngfw_device env siteOid samples names d h = Inr h' \<Longrightarrow> \<exists>here. device_in_site siteOid d = Inr here"
  by (auto simp: ngfw_device_def bind_err_Inr_iff lift_thrown_Inr)

lemma composeSase_devices:
  assumes "composeSase env siteOid samples = Inr (half, sources)"
  shows "\<exists>ts. half = JObj [(''tenants'', JArr ts)] \<and> map device_of ts = map Some (site_devices env ''sase_devices'' siteOid)"
proof -
  from assms obtain names devices h where
    d: "jvalue get_json ''sase_devices'' (JArr []) (tn_site env) = Inr devices"
    and h: "for_each (sase_tenant env siteOid samples names) (jiterate devices) \<lparr>sh_tenants = [], sh_ztnaStreams = 0\<rparr> = Inr h"
    and half: "half = JObj [(''tenants'', JArr (sh_tenants h))]"
    by (auto simp: composeSase_def bind_err_Inr_iff)
  from for_each_collects [OF h, of "\<lambda>h. map device_of (sh_tenants h)" "\<lambda>d. map Some (shown_device siteOid d)"]
  have "map device_of (sh_tenants h) = concat (map (\<lambda>d. map Some (shown_device siteOid d)) (jiterate devices))"
    by (simp add: sase_tenant_shows)
  then have "map device_of (sh_tenants h) = map Some (concat (map (shown_device siteOid) (jiterate devices)))"
    by (simp add: map_concat comp_def)
  also have "concat (map (shown_device siteOid) (jiterate devices)) = site_devices env ''sase_devices'' siteOid"
    unfolding site_devices_def declared_devices_jvalue [OF d]
    using for_each_stops [OF h] sase_tenant_placed by (intro shown_devices_declared) blast
  finally show ?thesis by (simp add: half)
qed

lemma ngfw_device_links:
  assumes "ngfw_device env siteOid samples names d h = Inr h'"
    and "\<forall>l \<in> set (nh_links h). Some (ln_device l, ln_site l) \<in> set (map device_of (nh_devices h))"
  shows "\<forall>l \<in> set (nh_links h'). Some (ln_device l, ln_site l) \<in> set (map device_of (nh_devices h'))"
proof -
  from assms(1) obtain here where here: "device_in_site siteOid d = Inr here"
    by (auto simp: ngfw_device_def bind_err_Inr_iff lift_thrown_Inr)
  show ?thesis
  proof (cases here)
    case None
    with here assms show ?thesis by (simp add: ngfw_device_def lift_thrown_def)
  next
    case (Some x)
    obtain oid devSite where x: "x = (oid, devSite)" by (cases x)
    from here Some x assms(1) obtain ds name picture links where
      p: "fw_picture (tn_print env) oid name devSite ds = Some (picture, links)" "nh_links h' = nh_links h @ links"
      by (auto simp: ngfw_device_def bind_err_Inr_iff lift_thrown_Inr Let_def split: option.splits prod.splits)
    then have "\<forall>l \<in> set links. ln_device l = oid \<and> ln_site l = devSite"
      by (auto simp: fw_picture_def Let_def link_of_def split: if_splits)
    moreover have "shown_device siteOid d = [(oid, devSite)]" by (simp add: shown_device_def here Some x)
    ultimately show ?thesis using assms(2) p(2) unfolding ngfw_device_shows [OF assms(1)] by auto
  qed
qed

lemma composeNgfw_devices:
  assumes "composeNgfw env siteOid samples = Inr (half, sources)"
  shows "\<exists>ds ls shape. half = JObj [(''devices'', JArr ds), (''links'', JArr ls), (''shape'', shape)] \<and>
    map device_of ds = map Some (site_devices env ''ngfw_devices'' siteOid) \<and> link_start ` set ls \<subseteq> set (map device_of ds)"
proof -
  from assms obtain names devices h where
    d: "jvalue get_json ''ngfw_devices'' (JArr []) (tn_site env) = Inr devices"
    and h: "for_each (ngfw_device env siteOid samples names) (jiterate devices)
        \<lparr>nh_devices = [], nh_links = [], nh_counts = counts_new\<rparr> = Inr h"
    and half: "\<exists>shape. half = JObj [(''devices'', JArr (nh_devices h)), (''links'', JArr (map link_json (nh_links h))), (''shape'', shape)]"
    by (auto simp: composeNgfw_def bind_err_Inr_iff lift_thrown_Inr Let_def)
  from for_each_collects [OF h, of "\<lambda>h. map device_of (nh_devices h)" "\<lambda>d. map Some (shown_device siteOid d)"]
  have shown: "map device_of (nh_devices h) = concat (map (\<lambda>d. map Some (shown_device siteOid d)) (jiterate devices))"
    by (simp add: ngfw_device_shows)
  have "\<forall>l \<in> set (nh_links h). Some (ln_device l, ln_site l) \<in> set (map device_of (nh_devices h))"
    by (rule for_each_preserves [OF h, where P = "\<lambda>h. \<forall>l \<in> set (nh_links h). Some (ln_device l, ln_site l) \<in> set (map device_of (nh_devices h))"])
      (simp, rule ngfw_device_links)
  then have "link_start ` set (map link_json (nh_links h)) \<subseteq> set (map device_of (nh_devices h))"
    by (auto simp: link_start_json)
  moreover have declared: "concat (map (shown_device siteOid) (jiterate devices)) = site_devices env ''ngfw_devices'' siteOid"
    unfolding site_devices_def declared_devices_jvalue [OF d]
    using for_each_stops [OF h] ngfw_device_placed by (intro shown_devices_declared) blast
  then have "map device_of (nh_devices h) = map Some (site_devices env ''ngfw_devices'' siteOid)"
    by (simp add: shown map_concat comp_def flip: declared)
  ultimately show ?thesis using half by blast
qed

text \<open>C33. A site's picture, when its composition does not throw, shows exactly the tenants and firewalls the configuration declares for the site
  (every entry with an identifier whose site member is the one asked for; all of them when no site is named),
  in the order of the configuration, and every link of it starts at a firewall it shows.\<close>

theorem picture_is_the_sites:
  assumes "compose env siteOid = Inr m"
  shows "map device_of (part_of ''sase'' ''tenants'' m) = map Some (site_devices env ''sase_devices'' siteOid) \<and>
    map device_of (part_of ''ngfw'' ''devices'' m) = map Some (site_devices env ''ngfw_devices'' siteOid) \<and>
    link_start ` set (part_of ''ngfw'' ''links'' m) \<subseteq> set (map device_of (part_of ''ngfw'' ''devices'' m))"
proof -
  from assms obtain sase s1 ngfw s2 where
    sase: "composeSase env siteOid (latestSamples env) = Inr (sase, s1)" and ngfw: "composeNgfw env siteOid (latestSamples env) = Inr (ngfw, s2)"
    and m: "jfind ''sase'' m = Some sase" "jfind ''ngfw'' m = Some ngfw"
    by (auto simp: compose_def bind_err_Inr_iff lift_thrown_Inr Let_def)
  from composeSase_devices [OF sase] m(1)
  have tenants: "map device_of (part_of ''sase'' ''tenants'' m) = map Some (site_devices env ''sase_devices'' siteOid)"
    by (auto simp: part_of_def jitems_def)
  from composeNgfw_devices [OF ngfw] obtain ds ls shape where
    half: "ngfw = JObj [(''devices'', JArr ds), (''links'', JArr ls), (''shape'', shape)]"
    and shown: "map device_of ds = map Some (site_devices env ''ngfw_devices'' siteOid)" "link_start ` set ls \<subseteq> set (map device_of ds)"
    by blast
  have parts: "part_of ''ngfw'' ''devices'' m = ds" "part_of ''ngfw'' ''links'' m = ls"
    using m(2) by (simp_all add: half part_of_def jitems_def)
  with tenants shown show ?thesis unfolding parts by blast
qed

subsection \<open>Between the daemons\<close>

lemma siteTopology_request:
  assumes "siteTopology env req resp s = (Inr resp', s')" and "mg_out s' = mg_out s @ [TxIpc request]"
  shows "\<exists>body. we_dump env (JObj [(''site'', JStr (queryParam (rq_target req) ''site''))]) = Inr body \<and>
    request = mk_message DMgmtd DTopologyd CmdTopologyRequest 0 (toFlag FlagRequest) (bytes_of_string body)"
proof (cases "we_dump env (JObj [(''site'', JStr (queryParam (rq_target req) ''site''))])")
  case (Inl e)
  with assms show ?thesis
    by (auto simp: siteTopology_def send_json_def fill_json_def Let_def split: if_splits option.splits sum.splits)
next
  case (Inr body)
  with assms show ?thesis
    by (auto simp: siteTopology_def send_json_def fill_json_def mg_send_def markTopologyRequested_def Let_def
        split: if_splits option.splits sum.splits)
qed

lemma request_asks_for:
  assumes "understands (tn_parse tenv) (we_dump env)" and "we_dump env (JObj [(''site'', JStr site)]) = Inr body"
  shows "requested_site tenv (mk_message DMgmtd DTopologyd CmdTopologyRequest 0 (toFlag FlagRequest) (bytes_of_string body)) = site"
proof -
  from assms have "tn_parse tenv body = Some (JObj [(''site'', JStr site)])" "body \<noteq> []" by (auto simp: understands_def)
  moreover from this have "bytes_of_string body \<noteq> []" by (simp add: bytes_of_string_def)
  ultimately show ?thesis
    by (simp add: requested_site_def payloadToString_def string_bytes jvalue_def get_str_def)
qed

text \<open>What the management daemon files is what the daemon printed, under the site the document names.\<close>

lemma answer_filed:
  assumes "understands (we_parse env') (tn_dump tenv)" and "tn_dump tenv m = Inr body"
    and "jvalue get_str ''site'' [] m = Inr site" and "msg_payload answer = bytes_of_string body"
  shows "onTopologyResponse env' answer t = setTopology (we_steady env') site body t"
proof -
  from assms(1,2) have "we_parse env' body = Some m" "body \<noteq> []" by (auto simp: understands_def)
  with assms(3,4) show ?thesis
    by (simp add: onTopologyResponse_def bytes_of_string_def [symmetric] string_bytes parse_body_def)
      (simp add: bytes_of_string_def)
qed

text \<open>C34. What the browser asked for is what it gets: when the management daemon's request for a site's picture has been
  composed and the answer filed, every request for that site that arrives less than fifty seconds after the filing, and
  before another picture of the site is filed, is answered with the composition of that very site, marked as not pending,
  and nothing more is asked of the topology daemon; each daemon's JSON library reads what the other's prints. (From fifty seconds on the code marks it pending and asks again.)\<close>

theorem site_picture_arrives:
  assumes "understands (tn_parse tenv) (we_dump env)" and "understands (we_parse env') (tn_dump tenv)"
    and "siteTopology env req resp s = (Inr resp', s')" and "mg_out s' = mg_out s @ [TxIpc request]"
    and "queryParam (rq_target req) ''site'' = site" and "compose tenv site = Inr m"
    and "topo_serve tenv request tx = Inr (tx @ [answer])"
    and "map_of (mg_topology u) site = map_of (mg_topology (onTopologyResponse env' answer t)) site"
    and "map_of (mg_topologyAt u) site = map_of (mg_topologyAt (onTopologyResponse env' answer t)) site"
    and "queryParam (rq_target req'') ''site'' = site" and "we_steady env'' < we_steady env' + 50000"
  shows "\<exists>body. tn_dump tenv m = Inr body \<and>
    siteTopology env'' req'' resp'' u = (Inr (fill resp'' 200 (splice_pending True body)), u)"
proof -
  from siteTopology_request [OF assms(3,4)] assms(5) obtain q where q: "we_dump env (JObj [(''site'', JStr site)]) = Inr q"
    and request: "request = mk_message DMgmtd DTopologyd CmdTopologyRequest 0 (toFlag FlagRequest) (bytes_of_string q)" by blast
  note asked = request_asks_for [OF assms(1) q, folded request]
  have "msg_cmd request = CmdTopologyRequest" by (simp add: request)
  with assms(6,7) asked obtain body where body: "tn_dump tenv m = Inr body" "msg_payload answer = bytes_of_string body"
    by (auto simp: topo_serve_def topo_handleEvent_def topo_reply_def split: sum.splits)
  have "jvalue get_str ''site'' [] m = Inr site"
    using assms(6) by (auto simp: compose_def bind_err_Inr_iff Let_def jvalue_def get_str_def)
  note filed = answer_filed [OF assms(2) body(1) this body(2), of t]
  then have "topologyFresh (we_steady env'') site 50000 u" "topology_of site u = Some body"
    using assms(8,9,11) by (simp_all add: setTopology_def topologyFresh_def topology_of_def update_conv')
  with body(1) assms(10) show ?thesis by (simp add: siteTopology_def Let_def)
qed

text \<open>C35. A composition that fails is filed under the wrong site: its document names none, so the answer to a request for one
  site becomes the picture of every site, and the asked site's picture stays as it was.\<close>

theorem failed_composition_misfiled:
  assumes "understands (tn_parse tenv) (we_dump env)" and "understands (we_parse env') (tn_dump tenv)"
    and "siteTopology env req resp s = (Inr resp', s')" and "mg_out s' = mg_out s @ [TxIpc request]"
    and "compose tenv (queryParam (rq_target req) ''site'') = Inl (Thrown e)" and "queryParam (rq_target req) ''site'' \<noteq> []"
    and "topo_serve tenv request tx = Inr (tx @ [answer])"
  shows "\<exists>body. tn_dump tenv composition_failed = Inr body \<and>
    topology_of [] (onTopologyResponse env' answer t) = Some body \<and>
    topology_of (queryParam (rq_target req) ''site'') (onTopologyResponse env' answer t) =
      topology_of (queryParam (rq_target req) ''site'') t"
proof -
  let ?site = "queryParam (rq_target req) ''site''"
  from siteTopology_request [OF assms(3,4)] obtain q where q: "we_dump env (JObj [(''site'', JStr ?site)]) = Inr q"
    and request: "request = mk_message DMgmtd DTopologyd CmdTopologyRequest 0 (toFlag FlagRequest) (bytes_of_string q)" by blast
  note asked = request_asks_for [OF assms(1) q, folded request]
  have "msg_cmd request = CmdTopologyRequest" by (simp add: request)
  with assms(5,7) asked obtain body where body: "tn_dump tenv composition_failed = Inr body" "msg_payload answer = bytes_of_string body"
    by (auto simp: topo_serve_def topo_handleEvent_def topo_reply_def split: sum.splits)
  have "jvalue get_str ''site'' [] composition_failed = Inr []" by (simp add: composition_failed_def jvalue_def)
  note filed = answer_filed [OF assms(2) body(1) this body(2), of t]
  with assms(6) body(1) show ?thesis by (auto simp: setTopology_def topology_of_def update_conv')
qed

subsection \<open>An example\<close>

text \<open>Two sites with a firewall each; the first firewall's gateways have been collected.\<close>

definition topo_sites :: json where
  "topo_sites = JObj [(''sites'', JArr [JObj [(''oid'', JStr ''s1''), (''name'', JStr ''HQ'')]]),
     (''ngfw_devices'', JArr [JObj [(''oid'', JStr ''f1''), (''site'', JStr ''s1'')], JObj [(''oid'', JStr ''f2''), (''site'', JStr ''s2'')]])]"

definition topo_connectors :: json where
  "topo_connectors = JObj [(''endpoints'', JArr [JObj [(''oid'', JStr ''e1''), (''path'', JStr ''/IKEGateways'')]]),
     (''connectors'', JArr [JObj [(''oid'', JStr ''c1''), (''object'', JStr ''f1''), (''items'', JArr [JObj [(''endpoint'', JStr ''e1'')]])]])]"

definition topo_ike :: json where
  "topo_ike = JObj [(''entry'', JArr [JObj [(''@name'', JStr ''gw''), (''peer-address'', JObj [(''ip'', JStr ''203.0.113.1'')])]])]"

definition topo_env_of :: "json \<Rightarrow> (string \<Rightarrow> json option) \<Rightarrow> (json \<Rightarrow> json_error + string) \<Rightarrow> topo_env" where
  "topo_env_of site parse dump =
     \<lparr>tn_now_rows = None, tn_sample_rows = Some [[''c1'', ''e1'', ''t'', ''1'', ''ike'']], tn_sase_rows = None, tn_ngfw_rows = None,
      tn_site = site, tn_connector = topo_connectors, tn_parse = parse, tn_print = (\<lambda>j. []), tn_dump = dump\<rparr>"

definition topo_question :: json where
  "topo_question = JObj [(''site'', JStr ''s1'')]"

definition topo_pending :: json where
  "topo_pending = JObj [(''ngfw'', JObj [(''devices'', JArr [])]), (''pending'', JBool True),
     (''sase'', JObj [(''tenants'', JArr [])]), (''site'', JStr ''s1''), (''sites'', JArr []), (''sources'', JObj [])]"

definition topo_parse :: "string \<Rightarrow> json option" where
  "topo_parse s = (if s = ''ike'' then Some topo_ike else if s = ''q'' then Some topo_question
     else if s = ''p'' then Some topo_pending else None)"

definition topo_picture :: json where
  "topo_picture = (case compose (topo_env_of topo_sites topo_parse (\<lambda>j. Inr [])) ''s1'' of Inr m \<Rightarrow> m | Inl e \<Rightarrow> JNull)"

definition topo_dump :: "json \<Rightarrow> json_error + string" where
  "topo_dump j = (if j = composition_failed then Inr ''e'' else if j = topo_picture then Inr ''a'' else Inl (TypeError 316))"

definition topo_web_env :: web_env where
  "topo_web_env = (env_with JNull)
     \<lparr>we_parse := (\<lambda>s. if s = ''e'' then Some composition_failed else if s = ''a'' then Some topo_picture else None),
      we_dump := (\<lambda>j. if j = topo_question then Inr ''q'' else if j = topo_pending then Inr ''p'' else Inl (TypeError 316)),
      we_steady := 0\<rparr>"

definition topo_ask :: http_request where
  "topo_ask = get_request ''/api/topology?site=s1''"

definition topo_request :: ipc_message where
  "topo_request = mk_message DMgmtd DTopologyd CmdTopologyRequest 0 (toFlag FlagRequest) (bytes_of_string ''q'')"

definition topo_answer :: "string \<Rightarrow> ipc_message" where
  "topo_answer body = mk_message DTopologyd DMgmtd CmdTopologyResponse 0 (toFlag FlagResponse) (bytes_of_string body)"

lemma topo_compose_example:
  "compose (topo_env_of topo_sites topo_parse topo_dump) ''s1'' = Inr topo_picture"
  "map device_of (part_of ''ngfw'' ''devices'' topo_picture) = [Some (''f1'', ''s1'')]"
  "map link_start (part_of ''ngfw'' ''links'' topo_picture) = [Some (''f1'', ''s1'')]"
  "topo_picture \<noteq> composition_failed"
  by code_simp+

lemma topo_broken_example: "compose (topo_env_of (JObj [(''sites'', JArr [JObj [(''oid'', JInt 5)]])]) topo_parse topo_dump) ''s1'' = Inl (Thrown (TypeError 302))"
  by code_simp

lemma topo_understands:
  "understands (tn_parse (topo_env_of site topo_parse topo_dump)) (we_dump topo_web_env)"
  "understands (we_parse topo_web_env) (tn_dump (topo_env_of site topo_parse topo_dump))"
  using topo_compose_example(4)
  by (auto simp: understands_def topo_env_of_def topo_web_env_def topo_parse_def topo_dump_def split: if_splits)

lemma topo_ask_site: "queryParam (rq_target topo_ask) ''site'' = ''s1''"
  by code_simp

lemma topo_ask_example:
  "\<exists>resp s'. siteTopology topo_web_env topo_ask response_new mg_new = (Inr resp, s') \<and> mg_out s' = mg_out mg_new @ [TxIpc topo_request]"
proof -
  have "topo_pending \<noteq> topo_question" by code_simp
  then show ?thesis
    by (simp add: siteTopology_def topo_ask_site topologyFresh_def topologyRequested_def topology_of_def mg_new_def send_json_def
        fill_json_def mg_send_def markTopologyRequested_def topo_web_env_def topo_request_def
        topo_question_def [symmetric] topo_pending_def [symmetric] Let_def)
qed

lemma topo_asked: "requested_site (topo_env_of site topo_parse topo_dump) topo_request = ''s1''"
proof -
  have "we_dump topo_web_env (JObj [(''site'', JStr ''s1'')]) = Inr ''q''"
    by (simp add: topo_web_env_def topo_question_def)
  from request_asks_for [OF topo_understands(1) this] show ?thesis by (simp add: topo_request_def)
qed

lemma topo_serve_example:
  "topo_serve (topo_env_of topo_sites topo_parse topo_dump) topo_request tx = Inr (tx @ [topo_answer ''a''])"
  "topo_serve (topo_env_of (JObj [(''sites'', JArr [JObj [(''oid'', JInt 5)]])]) topo_parse topo_dump) topo_request tx
     = Inr (tx @ [topo_answer ''e''])"
  using topo_compose_example(1,4)
  by (simp_all add: topo_serve_def topo_handleEvent_def topo_asked topo_broken_example topo_reply_def)
    (simp_all add: topo_env_of_def topo_dump_def topo_answer_def topo_request_def)

theorem picture_is_the_sites_witness:
  "compose (topo_env_of topo_sites topo_parse topo_dump) ''s1'' = Inr topo_picture \<and>
   declared_devices (topo_env_of topo_sites topo_parse topo_dump) ''ngfw_devices'' =
     [JObj [(''oid'', JStr ''f1''), (''site'', JStr ''s1'')], JObj [(''oid'', JStr ''f2''), (''site'', JStr ''s2'')]] \<and>
   map device_of (part_of ''ngfw'' ''devices'' topo_picture) = [Some (''f1'', ''s1'')] \<and>
   map link_start (part_of ''ngfw'' ''links'' topo_picture) = [Some (''f1'', ''s1'')]"
proof -
  have d: "site_devices (topo_env_of topo_sites topo_parse topo_dump) ''ngfw_devices'' ''s1'' = [(''f1'', ''s1'')]"
    "declared_devices (topo_env_of topo_sites topo_parse topo_dump) ''ngfw_devices'' =
     [JObj [(''oid'', JStr ''f1''), (''site'', JStr ''s1'')], JObj [(''oid'', JStr ''f2''), (''site'', JStr ''s2'')]]"
    by code_simp+
  from picture_is_the_sites [OF topo_compose_example(1)] d topo_compose_example(1,3) show ?thesis by simp
qed

text \<open>Another tab asks for the site forty-nine seconds after the filing, when another site's picture has been filed too.\<close>

definition topo_later :: web_env where
  "topo_later = topo_web_env\<lparr>we_steady := 49000\<rparr>"

theorem site_picture_arrives_witness:
  "siteTopology topo_later topo_ask response_new
      (setTopology 20000 ''s2'' ''{}'' (onTopologyResponse topo_web_env (topo_answer ''a'') mg_new)) =
    (Inr (fill response_new 200 (splice_pending True ''a'')),
     setTopology 20000 ''s2'' ''{}'' (onTopologyResponse topo_web_env (topo_answer ''a'') mg_new))"
proof -
  from topo_ask_example obtain resp s' where ask: "siteTopology topo_web_env topo_ask response_new mg_new = (Inr resp, s')"
    "mg_out s' = mg_out mg_new @ [TxIpc topo_request]" by blast
  have "tn_dump (topo_env_of topo_sites topo_parse topo_dump) topo_picture = Inr ''a''"
    using topo_compose_example(4) by (simp add: topo_env_of_def topo_dump_def)
  moreover have "we_steady topo_later < we_steady topo_web_env + 50000"
    by (simp add: topo_later_def topo_web_env_def)
  ultimately show ?thesis
    using site_picture_arrives [OF topo_understands ask topo_ask_site topo_compose_example(1) topo_serve_example(1) [of "[]"],
        where env'' = topo_later and req'' = topo_ask and resp'' = response_new and t = mg_new
          and u = "setTopology 20000 ''s2'' ''{}'' (onTopologyResponse topo_web_env (topo_answer ''a'') mg_new)"]
    by (auto simp: setTopology_def update_conv' topo_ask_site)
qed

theorem failed_composition_misfiled_witness:
  "topology_of [] (onTopologyResponse topo_web_env (topo_answer ''e'') mg_new) = Some ''e''"
proof -
  from topo_ask_example obtain resp s' where ask: "siteTopology topo_web_env topo_ask response_new mg_new = (Inr resp, s')"
    "mg_out s' = mg_out mg_new @ [TxIpc topo_request]" by blast
  have "tn_dump (topo_env_of site topo_parse topo_dump) composition_failed = Inr ''e''" for site
    by (simp add: topo_env_of_def topo_dump_def)
  with failed_composition_misfiled [OF topo_understands ask _ _ topo_serve_example(2) [of "[]"], unfolded topo_ask_site, OF topo_broken_example]
  show ?thesis by auto
qed

end
