(* ===== verification/Http_Client.thy ===== *)
theory Http_Client
  imports Text_Codec Config_Store
begin

text \<open>
  The outbound HTTPS client (\<^verbatim>\<open>shared/http/HttpClientSession.cpp\<close>): one session per request, a chain of
  asynchronous operations of the network library, each completed with an error or its result. Between the
  handshake and the first byte of the request stands the pin gate. Certificates, the chain of trust and
  the wire are the library's; the session's own state and decisions are modelled.
\<close>

subsection \<open>Requests, responses, fingerprints\<close>

record client_request =
  cq_host :: string
  cq_port :: u16
  cq_method :: string
  cq_target :: string
  cq_headers :: "(string \<times> string) list"
  cq_body :: string
  cq_expectedFingerprint :: string
  cq_verifyCa :: bool
  cq_timeoutMs :: int

definition client_request_new :: client_request where
  "client_request_new = \<lparr>cq_host = [], cq_port = 443, cq_method = ''GET'', cq_target = ''/'', cq_headers = [], cq_body = [],
     cq_expectedFingerprint = [], cq_verifyCa = False, cq_timeoutMs = 8000\<rparr>"

record client_response =
  cp_tlsOk :: bool
  cp_pinMatched :: bool
  cp_requestSent :: bool
  cp_status :: int
  cp_body :: string
  cp_error :: string
  cp_fingerprint :: string
  cp_certSubject :: string

definition client_response_new :: client_response where
  "client_response_new = \<lparr>cp_tlsOk = False, cp_pinMatched = False, cp_requestSent = False, cp_status = 0, cp_body = [],
     cp_error = [], cp_fingerprint = [], cp_certSubject = []\<rparr>"

text \<open>The digest of the certificate in hexadecimal, the bytes separated by colons; nothing without one.\<close>

definition hex_byte :: "u8 \<Rightarrow> string" where
  "hex_byte b = [hex_upper ! unat (drop_bit 4 b AND 0xF), hex_upper ! unat (b AND 0xF)]"

fun fingerprint_text :: "bytes \<Rightarrow> string" where
  "fingerprint_text [] = []"
| "fingerprint_text [b] = hex_byte b"
| "fingerprint_text (b # bs) = hex_byte b @ '':'' @ fingerprint_text bs"

definition sha256Fingerprint :: "bytes option \<Rightarrow> string" where
  "sha256Fingerprint md = (case md of None \<Rightarrow> [] | Some bs \<Rightarrow> fingerprint_text bs)"

definition to_upper :: "char \<Rightarrow> char" where
  "to_upper c = (if is_between (CHR ''a'') (CHR ''z'') c then char_of (of_char c - (32 :: nat)) else c)"

definition canon :: "string \<Rightarrow> string" where
  "canon s = map to_upper (filter isxdigit s)"

definition sameFingerprint :: "string \<Rightarrow> string \<Rightarrow> bool" where
  "sameFingerprint a b \<longleftrightarrow> canon a \<noteq> [] \<and> canon a = canon b"

subsection \<open>The request on the wire\<close>

text \<open>\<^verbatim>\<open>set\<close> of a header field replaces the fields of that name, whatever the case of its letters.
  A body that is not empty gets its length.\<close>

definition same_field :: "string \<Rightarrow> string \<Rightarrow> bool" where
  "same_field a b \<longleftrightarrow> map to_lower a = map to_lower b"

definition header_set :: "string \<Rightarrow> string \<Rightarrow> (string \<times> string) list \<Rightarrow> (string \<times> string) list" where
  "header_set name v hs = filter (\<lambda>(n, _). \<not> same_field n name) hs @ [(name, v)]"

definition header_value :: "string \<Rightarrow> (string \<times> string) list \<Rightarrow> string option" where
  "header_value name hs = map_option snd (find (\<lambda>(n, _). same_field n name) hs)"

record wire_request =
  wq_method :: string
  wq_target :: string
  wq_headers :: "(string \<times> string) list"
  wq_body :: string

definition wire_of :: "client_request \<Rightarrow> wire_request" where
  "wire_of req =
     (let hs = fold (\<lambda>(name, v). header_set name v) (cq_headers req)
        (header_set ''User-Agent'' ''pretzel'' (header_set ''Host'' (cq_host req) [])) in
      \<lparr>wq_method = cq_method req, wq_target = cq_target req,
       wq_headers = (if cq_body req \<noteq> [] then header_set ''Content-Length'' (to_string (int (length (cq_body req)))) hs else hs),
       wq_body = cq_body req\<rparr>)"

subsection \<open>The session\<close>

datatype client_op = OpResolve | OpConnect | OpHandshake | OpWrite | OpRead

fun stage_name :: "client_op \<Rightarrow> string" where
  "stage_name OpResolve = ''resolve''"
| "stage_name OpConnect = ''connect''"
| "stage_name OpHandshake = ''handshake''"
| "stage_name OpWrite = ''write''"
| "stage_name OpRead = ''read''"

text \<open>\<open>ks_wire\<close> is what has been given to the stream to write, \<open>ks_answers\<close> the calls of the caller's handler.\<close>

record client_session =
  ks_req :: client_request
  ks_out :: client_response
  ks_done :: bool
  ks_op :: "client_op option"
  ks_wire :: "wire_request option"
  ks_answers :: "client_response list"

definition ks_finish :: "client_session \<Rightarrow> client_session" where
  "ks_finish s = (if ks_done s then s else s\<lparr>ks_done := True, ks_op := None, ks_answers := ks_answers s @ [ks_out s]\<rparr>)"

definition ks_fail :: "client_op \<Rightarrow> string \<Rightarrow> client_session \<Rightarrow> client_session" where
  "ks_fail op message s = ks_finish (s\<lparr>ks_out := (ks_out s)\<lparr>cp_error := stage_name op @ '': '' @ message\<rparr>\<rparr>)"

text \<open>What happens while the session starts: an exception, or whether the server's name could be set.\<close>

record client_net =
  kn_throws :: "string option"
  kn_sni :: bool

definition ks_run :: "client_net \<Rightarrow> client_request \<Rightarrow> client_session" where
  "ks_run net req =
     (let s = \<lparr>ks_req = req, ks_out = client_response_new, ks_done = False, ks_op = None, ks_wire = None, ks_answers = []\<rparr> in
      case kn_throws net of
        Some what \<Rightarrow> ks_finish (s\<lparr>ks_out := (ks_out s)\<lparr>cp_error := what\<rparr>\<rparr>)
      | None \<Rightarrow>
          if \<not> kn_sni net then ks_finish (s\<lparr>ks_out := (ks_out s)\<lparr>cp_error := ''failed to set TLS SNI hostname''\<rparr>\<rparr>)
          else s\<lparr>ks_op := Some OpResolve\<rparr>)"

definition ks_onHandshake :: "bytes option \<Rightarrow> string \<Rightarrow> client_session \<Rightarrow> client_session" where
  "ks_onHandshake digest subject s =
     (let req = ks_req s;
          out = (ks_out s)\<lparr>cp_tlsOk := True, cp_fingerprint := sha256Fingerprint digest, cp_certSubject := subject\<rparr>;
          s = s\<lparr>ks_out := out\<rparr> in
      if \<not> cq_verifyCa req \<and> cq_expectedFingerprint req = [] then ks_finish s
      else if \<not> cq_verifyCa req \<and> \<not> sameFingerprint (cq_expectedFingerprint req) (cp_fingerprint out) then ks_finish s
      else s\<lparr>ks_out := out\<lparr>cp_pinMatched := True, cp_requestSent := True\<rparr>, ks_wire := Some (wire_of req),
             ks_op := Some OpWrite\<rparr>)"

definition ks_onRead :: "int \<Rightarrow> string \<Rightarrow> client_session \<Rightarrow> client_session" where
  "ks_onRead status body s = ks_finish (s\<lparr>ks_out := (ks_out s)\<lparr>cp_status := status, cp_body := body\<rparr>\<rparr>)"

text \<open>How the outstanding operation completes; a result that does not belong to it does not occur.\<close>

datatype client_event =
    OpFailed string | OpDone | HandshakeDone "bytes option" string | ReadDone int string

fun ks_complete :: "client_event \<Rightarrow> client_session \<Rightarrow> client_session" where
  "ks_complete ev s =
     (case ks_op s of None \<Rightarrow> s
      | Some op \<Rightarrow>
          (case (ev, op) of
             (OpFailed message, _) \<Rightarrow> ks_fail op message s
           | (OpDone, OpResolve) \<Rightarrow> s\<lparr>ks_op := Some OpConnect\<rparr>
           | (OpDone, OpConnect) \<Rightarrow> s\<lparr>ks_op := Some OpHandshake\<rparr>
           | (HandshakeDone digest subject, OpHandshake) \<Rightarrow> ks_onHandshake digest subject s
           | (OpDone, OpWrite) \<Rightarrow> s\<lparr>ks_op := Some OpRead\<rparr>
           | (ReadDone status body, OpRead) \<Rightarrow> ks_onRead status body s
           | _ \<Rightarrow> s))"

declare ks_complete.simps [simp del]

inductive exchange :: "client_net \<Rightarrow> client_request \<Rightarrow> client_event list \<Rightarrow> client_session \<Rightarrow> bool"
  for net req where
  exchange_start: "exchange net req [] (ks_run net req)"
| exchange_step: "exchange net req evs s \<Longrightarrow> exchange net req (evs @ [ev]) (ks_complete ev s)"

lemmas ks_defs = ks_finish_def ks_fail_def ks_onHandshake_def ks_onRead_def

lemma ks_req_finish [simp]: "ks_req (ks_finish s) = ks_req s" by (simp add: ks_finish_def)

lemma ks_complete_cases:
  "ks_complete ev s = s \<or>
   (\<exists>op message. ks_op s = Some op \<and> ev = OpFailed message \<and> ks_complete ev s = ks_fail op message s) \<or>
   (ks_op s = Some OpResolve \<and> ks_complete ev s = s\<lparr>ks_op := Some OpConnect\<rparr>) \<or>
   (ks_op s = Some OpConnect \<and> ks_complete ev s = s\<lparr>ks_op := Some OpHandshake\<rparr>) \<or>
   (\<exists>digest subject. ks_op s = Some OpHandshake \<and> ev = HandshakeDone digest subject \<and> ks_complete ev s = ks_onHandshake digest subject s) \<or>
   (ks_op s = Some OpWrite \<and> ks_complete ev s = s\<lparr>ks_op := Some OpRead\<rparr>) \<or>
   (\<exists>status body. ks_op s = Some OpRead \<and> ks_complete ev s = ks_onRead status body s)"
  by (auto simp: ks_complete.simps split: option.splits client_event.splits client_op.splits)

text \<open>What holds in every state of a session: nothing is on the wire before the gate was passed, the handler has been called once when
  nothing is outstanding, and not at all before.\<close>

definition gate_passed :: "client_request \<Rightarrow> client_event list \<Rightarrow> bool" where
  "gate_passed req evs \<longleftrightarrow>
     (\<exists>digest subject. HandshakeDone digest subject \<in> set evs \<and>
        (cq_verifyCa req \<or> sameFingerprint (cq_expectedFingerprint req) (sha256Fingerprint digest)))"

definition session_ok :: "client_request \<Rightarrow> client_event list \<Rightarrow> client_session \<Rightarrow> bool" where
  "session_ok req evs s \<longleftrightarrow>
     ks_req s = req \<and> (ks_wire s \<noteq> None \<longrightarrow> ks_wire s = Some (wire_of req) \<and> gate_passed req evs) \<and>
     (cp_requestSent (ks_out s) \<longleftrightarrow> ks_wire s \<noteq> None) \<and> (cp_pinMatched (ks_out s) \<longleftrightarrow> ks_wire s \<noteq> None) \<and>
     (if ks_op s = None then ks_done s \<and> ks_answers s = [ks_out s] else \<not> ks_done s \<and> ks_answers s = []) \<and>
     (ks_op s \<in> {Some OpResolve, Some OpConnect, Some OpHandshake} \<longrightarrow> ks_wire s = None)"

lemma gate_passed_more: "gate_passed req evs \<Longrightarrow> gate_passed req (evs @ [ev])"
  by (auto simp: gate_passed_def)

lemma session_ok_step:
  assumes "session_ok req evs s"
  shows "session_ok req (evs @ [ev]) (ks_complete ev s)"
proof -
  have more: "session_ok req (evs @ [ev]) s" using assms by (auto simp: session_ok_def gate_passed_more)
  from ks_complete_cases [of ev s] show ?thesis
  proof (elim disjE exE conjE)
    fix digest subject
    assume op: "ks_op s = Some OpHandshake" and ev: "ev = HandshakeDone digest subject"
      and s': "ks_complete ev s = ks_onHandshake digest subject s"
    have "gate_passed req (evs @ [ev])" if "cq_verifyCa req \<or> sameFingerprint (cq_expectedFingerprint req) (sha256Fingerprint digest)"
      using that ev by (auto simp: gate_passed_def)
    then show ?thesis unfolding s' using op assms by (auto simp: session_ok_def ks_onHandshake_def ks_finish_def Let_def)
  qed (use more in \<open>auto simp: session_ok_def ks_fail_def ks_finish_def ks_onRead_def\<close>)
qed

lemma exchange_ok: "exchange net req evs s \<Longrightarrow> session_ok req evs s"
  by (induction rule: exchange.induct)
    (auto simp: session_ok_step, simp add: session_ok_def ks_run_def ks_finish_def client_response_new_def Let_def split: option.split)

text \<open>C36. No byte of a request reaches a peer that was not verified: in every exchange the request is written only after a
  handshake whose certificate either the chain of trust vouched for, as the request asked, or has exactly the pinned
  fingerprint, case and separators aside; and the response says that it was sent just when it was.\<close>

theorem pin_gate:
  assumes "exchange net req evs s"
  shows "(ks_wire s \<noteq> None \<longrightarrow> ks_wire s = Some (wire_of req) \<and>
      (\<exists>digest subject. HandshakeDone digest subject \<in> set evs \<and>
        (cq_verifyCa req \<or> sameFingerprint (cq_expectedFingerprint req) (sha256Fingerprint digest)))) \<and>
    (\<forall>out \<in> set (ks_answers s). cp_requestSent out \<longleftrightarrow> ks_wire s \<noteq> None)"
  using exchange_ok [OF assms] by (auto simp: session_ok_def gate_passed_def split: if_splits)

text \<open>How many completions a session can still wait for.\<close>

fun op_weight :: "client_op option \<Rightarrow> nat" where
  "op_weight None = 0"
| "op_weight (Some OpResolve) = 5"
| "op_weight (Some OpConnect) = 4"
| "op_weight (Some OpHandshake) = 3"
| "op_weight (Some OpWrite) = 2"
| "op_weight (Some OpRead) = 1"

text \<open>The events that can complete an operation.\<close>

definition completes :: "client_event \<Rightarrow> client_op option \<Rightarrow> bool" where
  "completes ev op = (case (ev, op) of
       (_, None) \<Rightarrow> True
     | (OpFailed m, _) \<Rightarrow> True
     | (OpDone, Some p) \<Rightarrow> p = OpResolve \<or> p = OpConnect \<or> p = OpWrite
     | (HandshakeDone d c, Some p) \<Rightarrow> p = OpHandshake
     | (ReadDone st b, Some p) \<Rightarrow> p = OpRead)"

lemma op_weight_decreases:
  "completes ev (ks_op s) \<Longrightarrow> \<not> ks_done s \<Longrightarrow> op_weight (ks_op (ks_complete ev s)) \<le> op_weight (ks_op s) - 1"
  by (auto simp: ks_complete.simps completes_def ks_defs Let_def split: option.splits client_event.splits client_op.splits)

text \<open>A run of completions that each belong to the operation that is outstanding.\<close>

fun ks_exchange :: "client_event list \<Rightarrow> client_session \<Rightarrow> client_session" where
  "ks_exchange [] s = s"
| "ks_exchange (ev # evs) s = ks_exchange evs (ks_complete ev s)"

fun proper :: "client_event list \<Rightarrow> client_session \<Rightarrow> bool" where
  "proper [] s = True"
| "proper (ev # evs) s = (completes ev (ks_op s) \<and> proper evs (ks_complete ev s))"

lemma exchange_run: "exchange net req evs0 s \<Longrightarrow> exchange net req (evs0 @ evs) (ks_exchange evs s)"
proof (induction evs arbitrary: evs0 s)
  case (Cons ev evs)
  from Cons.IH [OF exchange_step [OF Cons.prems]] show ?case by simp
qed simp

lemma ks_exchange_ends:
  "exchange net req evs0 s \<Longrightarrow> proper evs s \<Longrightarrow> op_weight (ks_op s) \<le> length evs \<Longrightarrow> ks_op (ks_exchange evs s) = None"
proof (induction evs arbitrary: evs0 s)
  case Nil then show ?case by (cases "ks_op s" rule: op_weight.cases) auto
next
  case (Cons ev evs)
  from exchange_ok [OF Cons.prems(1)] have d: "ks_done s \<longleftrightarrow> ks_op s = None" by (auto simp: session_ok_def split: if_splits)
  have "op_weight (ks_op (ks_complete ev s)) \<le> length evs"
  proof (cases "ks_op s")
    case None then show ?thesis by (simp add: ks_complete.simps)
  next
    case (Some op)
    with op_weight_decreases [of ev s] d Cons.prems(2,3) show ?thesis by simp
  qed
  with Cons.IH [OF exchange_step [OF Cons.prems(1)]] Cons.prems(2) show ?case by simp
qed

text \<open>C37. Every request is answered once: after the start the caller's handler has been called at most once, and as soon as five
  operations of the network have completed, however they did, exactly once, with the outcome.\<close>

theorem client_answers_once:
  assumes "proper evs (ks_run net req)"
  defines "s \<equiv> ks_exchange evs (ks_run net req)"
  shows "length (ks_answers s) \<le> 1 \<and> (5 \<le> length evs \<longrightarrow> ks_answers s = [ks_out s])"
proof -
  have run: "exchange net req evs s" using exchange_run [OF exchange_start, of net req evs] by (simp add: s_def)
  have "op_weight (ks_op (ks_run net req)) \<le> 5" by (simp add: ks_run_def ks_finish_def Let_def split: option.split)
  then have "5 \<le> length evs \<Longrightarrow> ks_op s = None"
    using ks_exchange_ends [OF exchange_start assms(1)] by (simp add: s_def)
  with exchange_ok [OF run] show ?thesis by (auto simp: session_ok_def split: if_splits)
qed

subsection \<open>An example\<close>

definition pinned_request :: client_request where
  "pinned_request = client_request_new\<lparr>cq_host := ''fw'', cq_expectedFingerprint := ''ab cd''\<rparr>"

definition pinned_events :: "client_event list" where
  "pinned_events = [OpDone, OpDone, HandshakeDone (Some [0xAB, 0xCD]) ''CN=fw'', OpDone, ReadDone 200 ''ok'']"

definition willing :: client_net where
  "willing = \<lparr>kn_throws = None, kn_sni = True\<rparr>"

lemma pinned_example:
  "ks_wire (ks_exchange pinned_events (ks_run willing pinned_request)) = Some (wire_of pinned_request)"
  "proper pinned_events (ks_run willing pinned_request)"
  "map cp_status (ks_answers (ks_exchange pinned_events (ks_run willing pinned_request))) = [200]"
  by code_simp+

theorem pin_gate_witness:
  "\<exists>digest subject. HandshakeDone digest subject \<in> set pinned_events \<and>
     sameFingerprint (cq_expectedFingerprint pinned_request) (sha256Fingerprint digest)"
proof -
  have "\<not> cq_verifyCa pinned_request" by code_simp
  with pin_gate [OF exchange_run [OF exchange_start, of willing pinned_request pinned_events]] pinned_example(1)
  show ?thesis by simp
qed

theorem client_answers_once_witness:
  "length (ks_answers (ks_exchange pinned_events (ks_run willing pinned_request))) = 1"
proof -
  have "5 \<le> length pinned_events" by (simp add: pinned_events_def)
  with client_answers_once [OF pinned_example(2)] show ?thesis by auto
qed

end
