(* ===== verification/Collect_Util.thy ===== *)
theory Collect_Util
  imports Http_Client Oidc_Client Api_Refs Ipc_Codec
begin

text \<open>
  The state of the collector daemon and what its controllers share
  (\<^verbatim>\<open>collectord/service/api/ApiUtil.cpp\<close>, \<^verbatim>\<open>ConnectorTest.h\<close>, the records of \<^verbatim>\<open>ApiService.h\<close>). A call of
  \<^verbatim>\<open>requestAsync\<close> adds the request and its completion handler to the calls in flight; a timer is a job with
  the time it is due. The credential store's cipher, the JSON library, the clocks and the configuration are
  fields of \<open>collect_env\<close>. A step's outcome is its result, or the exception it let escape, and the state it
  leaves.
\<close>

subsection \<open>Configuration objects\<close>

record auth_profile =
  pf_oid :: string
  pf_name :: string
  pf_vendor :: string
  pf_username :: string
  pf_tls :: string
  pf_fingerprint :: string
  pf_device :: string
  pf_endpoint :: string
  pf_refreshMode :: string
  pf_refreshIntervalMin :: int

datatype api_vendor = VendorNgfw | VendorSase

datatype api_subtype = SubRest | SubXml | SubZtna | SubPab | SubScm

record api_endpoint =
  xe_oid :: string
  xe_name :: string
  xe_path :: string
  xe_params :: "(string \<times> string) list"
  xe_vendor :: api_vendor
  xe_subtype :: api_subtype
  xe_host :: string
  xe_headers :: "(string \<times> string) list"

record collection_item =
  ci_endpointOid :: string
  ci_pollIntervalSec :: int
  ci_enabled :: bool

record api_connector =
  cn_oid :: string
  cn_name :: string
  cn_objectOid :: string
  cn_authProfileOid :: string
  cn_items :: "collection_item list"

subsection \<open>Tests, jobs, the daemon\<close>

record test_target =
  tt_host :: string
  tt_port :: u16
  tt_fingerprint :: string
  tt_username :: string
  tt_password :: string
  tt_keygenEndpoint :: string
  tt_authProfileOid :: string
  tt_deviceType :: string

definition test_target_new :: test_target where
  "test_target_new = \<lparr>tt_host = [], tt_port = 443, tt_fingerprint = [], tt_username = [], tt_password = [],
     tt_keygenEndpoint = [], tt_authProfileOid = [], tt_deviceType = ''ngfw''\<rparr>"

record connector_test =
  ct_seqNo :: u32
  ct_target :: test_target
  ct_keyOid :: string
  ct_expiresAt :: string
  ct_input :: json
  ct_out :: json

definition connector_test_new :: "u32 \<Rightarrow> json \<Rightarrow> connector_test" where
  "connector_test_new seqNo input = \<lparr>ct_seqNo = seqNo, ct_target = test_target_new, ct_keyOid = [], ct_expiresAt = [],
     ct_input = input, ct_out = JNull\<rparr>"

record job =
  jb_connectorOid :: string
  jb_endpointOid :: string
  jb_authProfileOid :: string
  jb_objectOid :: string
  jb_interval :: int

text \<open>The completion handlers of the calls.\<close>

datatype continuation =
    OnKeygen connector_test | OnSaseResponse connector_test | OnTlsProbe connector_test
  | OnEndpointResponse connector_test | OnKeygenForEndpoint connector_test
  | OnSaseEndpointResponse connector_test | OnTokenForEndpoint connector_test
  | OnSaseTest connector_test string string bool
  | OnResponse job int | OnStatus string

record status_state =
  st_lastRun :: int
  st_result :: "(string \<times> bool) list"
  st_inFlight :: "(string \<times> bool) list"
  st_egress :: "(string \<times> json) list"

record collectord =
  co_profiles :: "auth_profile list"
  co_endpoints :: "api_endpoint list"
  co_connectors :: "api_connector list"
  co_issuedKeys :: "(string \<times> string) list"
  co_credentials :: "(string \<times> string \<times> string) list"
  co_lastRefresh :: "(string \<times> int) list"
  co_setupDone :: bool
  co_lastPeriodicAt :: int
  co_status :: status_state
  co_timers :: "(job \<times> int) list"
  co_calls :: "(client_request \<times> continuation) list"
  co_keyRequests :: nat
  co_tx :: "ipc_message list"

definition collectord_new :: collectord where
  "collectord_new = \<lparr>co_profiles = [], co_endpoints = [], co_connectors = [], co_issuedKeys = [], co_credentials = [],
     co_lastRefresh = [], co_setupDone = False, co_lastPeriodicAt = 0,
     co_status = \<lparr>st_lastRun = 0, st_result = [], st_inFlight = [], st_egress = []\<rparr>,
     co_timers = [], co_calls = [], co_keyRequests = 0, co_tx = []\<rparr>"

text \<open>\<open>ce_now\<close> is the steady clock in milliseconds, \<open>ce_expiry n\<close> the text of the time in \<open>n\<close> seconds.\<close>

record collect_env =
  ce_now :: int
  ce_expiry :: "int \<Rightarrow> string"
  ce_encrypt :: "string \<Rightarrow> string option"
  ce_decrypt :: "string \<Rightarrow> string option"
  ce_available :: bool
  ce_parse :: "string \<Rightarrow> json option"
  ce_dump :: "json \<Rightarrow> json_error + string"
  ce_what :: "json_error \<Rightarrow> string"
  ce_site :: json
  ce_connector :: json

type_synonym 'a costep = "(json_error + 'a) \<times> collectord"

definition co_send :: "ipc_message \<Rightarrow> collectord \<Rightarrow> collectord" where
  "co_send msg s = s\<lparr>co_tx := co_tx s @ [msg]\<rparr>"

definition requestAsync :: "client_request \<Rightarrow> continuation \<Rightarrow> collectord \<Rightarrow> collectord" where
  "requestAsync req onDone s = s\<lparr>co_calls := co_calls s @ [(req, onDone)]\<rparr>"

definition send_doc :: "collect_env \<Rightarrow> ipc_daemon \<Rightarrow> ipc_cmd \<Rightarrow> u32 \<Rightarrow> ipc_flag \<Rightarrow> json \<Rightarrow> collectord \<Rightarrow> unit costep" where
  "send_doc env dst cmd seqNo flag j s =
     (case ce_dump env j of Inl e \<Rightarrow> (Inl e, s)
      | Inr payload \<Rightarrow> (Inr (), co_send (mk_message DCollectord dst cmd seqNo (toFlag flag) (bytes_of_string payload)) s))"

text \<open>Reading first, an exception ends the function; what a \<^verbatim>\<open>catch\<close> around a whole test answers.\<close>

definition read_then :: "json_error + 'a \<Rightarrow> collectord \<Rightarrow> ('a \<Rightarrow> 'b costep) \<Rightarrow> 'b costep" where
  "read_then r s f = (case r of Inl e \<Rightarrow> (Inl e, s) | Inr x \<Rightarrow> f x)"

lemma read_then_simps [simp]: "read_then (Inl e) s f = (Inl e, s)" "read_then (Inr x) s f = f x"
  by (simp_all add: read_then_def)

text \<open>\<^verbatim>\<open>long\<close> and \<^verbatim>\<open>int64_t\<close> are the library's own integer type, for which a boolean is not converted.\<close>

definition get_long :: "json \<Rightarrow> json_error + int" where
  "get_long j = (case j of JInt i \<Rightarrow> Inr (sint (of_int i :: u64)) | _ \<Rightarrow> Inl (TypeError 302))"

text \<open>Assigning a member of a document that is an object or has not been touched yet.\<close>

definition jput :: "string \<Rightarrow> json \<Rightarrow> json \<Rightarrow> json" where
  "jput k v j = (case j of JObj kvs \<Rightarrow> JObj (AList.update k v kvs) | _ \<Rightarrow> JObj [(k, v)])"

definition jput2 :: "string \<Rightarrow> string \<Rightarrow> json \<Rightarrow> json \<Rightarrow> json" where
  "jput2 k k' v j = jput k (jput k' v (case jfind k j of None \<Rightarrow> JNull | Some m \<Rightarrow> m)) j"

definition out_put :: "string \<Rightarrow> json \<Rightarrow> connector_test \<Rightarrow> connector_test" where
  "out_put k v ctx = ctx\<lparr>ct_out := jput k v (ct_out ctx)\<rparr>"

definition out_step :: "string \<Rightarrow> json \<Rightarrow> connector_test \<Rightarrow> connector_test" where
  "out_step name v ctx = ctx\<lparr>ct_out := jput2 ''steps'' name v (ct_out ctx)\<rparr>"

subsection \<open>The cloud's addresses\<close>

text \<open>One character of input shifts a byte in; as many sextets as are complete come out.\<close>

function b64_emit :: "u32 \<Rightarrow> int \<Rightarrow> string \<times> int" where
  "b64_emit val bits =
     (if 0 \<le> bits then
        (case b64_emit val (bits - 6) of (out, bits') \<Rightarrow> (b64_std ! unat (drop_bit (nat bits) val AND 0x3F) # out, bits'))
      else ([], bits))"
  by pat_completeness auto

termination b64_emit
  by (relation "measure (\<lambda>(val, bits). nat (bits + 6))") auto

declare b64_emit.simps [simp del]

fun b64_loop :: "u32 \<Rightarrow> int \<Rightarrow> string \<Rightarrow> string" where
  "b64_loop val bits [] =
     (if -6 < bits then [b64_std ! unat (drop_bit (nat (bits + 8)) (push_bit 8 val) AND 0x3F)] else [])"
| "b64_loop val bits (c # cs) =
     (let val = push_bit 8 val + of_char c in
      case b64_emit val (bits + 8) of (out, bits) \<Rightarrow> out @ b64_loop val bits cs)"

definition collect_base64 :: "string \<Rightarrow> string" where
  "collect_base64 s = (let out = b64_loop 0 (- 6) s in out @ replicate ((4 - length out mod 4) mod 4) CHR ''='')"

record host_path =
  hp_host :: string
  hp_port :: u16
  hp_path :: string

text \<open>Before and after the last occurrence of a character.\<close>

definition split_last :: "char \<Rightarrow> string \<Rightarrow> (string \<times> string) option" where
  "split_last c s =
     (if c \<in> set s
      then Some (rev (tl (dropWhile (\<lambda>d. d \<noteq> c) (rev s))), rev (takeWhile (\<lambda>d. d \<noteq> c) (rev s)))
      else None)"

definition read_port :: "string \<Rightarrow> u16 option" where
  "read_port s = (case stoi s of Inl e \<Rightarrow> None | Inr i \<Rightarrow> Some (of_int i))"

definition splitHostPath :: "string \<Rightarrow> string \<Rightarrow> string \<Rightarrow> host_path" where
  "splitHostPath urlish defaultHost defaultPath =
     (if urlish = [] then \<lparr>hp_host = defaultHost, hp_port = 443, hp_path = defaultPath\<rparr>
      else
        let rest = (case str_find ''://'' urlish of None \<Rightarrow> urlish | Some i \<Rightarrow> drop (i + 3) urlish);
            hostport = takeWhile (\<lambda>c. c \<noteq> CHR ''/'') rest;
            path = (if CHR ''/'' \<in> set rest then dropWhile (\<lambda>c. c \<noteq> CHR ''/'') rest else ''/'');
            (hostport, port) = (case split_last CHR '':'' hostport of None \<Rightarrow> (hostport, 443)
              | Some (h, p) \<Rightarrow> (case read_port p of None \<Rightarrow> (hostport, 443) | Some port \<Rightarrow> (h, port))) in
        \<lparr>hp_host = (if hostport = [] then defaultHost else hostport), hp_port = port, hp_path = path\<rparr>)"

definition kSaseAuthHost :: string where "kSaseAuthHost = ''auth.apps.paloaltonetworks.com''"
definition kSaseTokenPath :: string where "kSaseTokenPath = ''/oauth2/access_token''"

definition buildOAuthTokenRequest :: "host_path \<Rightarrow> string \<Rightarrow> string \<Rightarrow> string \<Rightarrow> client_request" where
  "buildOAuthTokenRequest hp clientId clientSecret tsgId =
     client_request_new\<lparr>cq_host := hp_host hp, cq_port := hp_port hp, cq_verifyCa := True, cq_method := ''POST'',
       cq_target := hp_path hp, cq_timeoutMs := 15000,
       cq_headers := [(''Authorization'', ''Basic '' @ collect_base64 (clientId @ '':'' @ clientSecret)),
         (''Content-Type'', ''application/x-www-form-urlencoded'')],
       cq_body := ''grant_type=client_credentials&scope=tsg_id:'' @ urlEncode tsgId\<rparr>"

subsection \<open>Paths and their parameters\<close>

definition query_sep :: "string \<Rightarrow> string" where
  "query_sep path = (if CHR ''?'' \<in> set path then ''&'' else ''?'')"

definition add_query :: "string \<Rightarrow> string \<Rightarrow> string \<Rightarrow> string" where
  "add_query name v path = path @ query_sep path @ urlEncode name @ ''='' @ urlEncode v"

fun add_params :: "json list \<Rightarrow> string \<Rightarrow> json_error + string" where
  "add_params [] path = Inr path"
| "add_params (p # ps) path =
     (if \<not> is_object p then add_params ps path
      else bind_err (jvalue get_str ''name'' [] p) (\<lambda>name.
        if name = [] then add_params ps path
        else bind_err (jvalue get_str ''value'' [] p) (\<lambda>v. add_params ps (add_query name v path))))"

definition request_path :: "string \<Rightarrow> json \<Rightarrow> json_error + string" where
  "request_path endpoint input =
     bind_err (jvalue get_json ''params'' (JArr []) input) (\<lambda>ps. add_params (jiterate ps) endpoint)"

subsection \<open>Helpers of the connector tests\<close>

definition stepJson :: "bool \<Rightarrow> string \<Rightarrow> json" where
  "stepJson ok detail = JObj [(''ok'', JBool ok), (''detail'', JStr detail)]"

text \<open>A host with at most one colon may carry a port; a bracketed literal is left alone.\<close>

definition host_and_port :: "string \<Rightarrow> string \<times> u16" where
  "host_and_port t =
     (if t \<noteq> [] \<and> hd t \<noteq> CHR ''['' \<and> length (filter (\<lambda>c. c = CHR '':'') t) = 1
      then (case split_last CHR '':'' t of None \<Rightarrow> (t, 443)
            | Some (h, p) \<Rightarrow> (case read_port p of None \<Rightarrow> (t, 443) | Some port \<Rightarrow> (h, port)))
      else (t, 443))"

text \<open>The default of a \<^verbatim>\<open>value\<close> that is another \<^verbatim>\<open>value\<close> is read first, and read in any case.\<close>

definition value_or :: "string \<Rightarrow> (json_error + string) \<Rightarrow> json \<Rightarrow> json_error + string" where
  "value_or k d j = bind_err d (\<lambda>d. jvalue get_str k d j)"

definition parseTestTarget :: "json \<Rightarrow> json_error + test_target" where
  "parseTestTarget body =
     bind_err (jvalue get_str ''target'' [] body) (\<lambda>target.
     bind_err (jvalue get_str ''fingerprint'' [] body) (\<lambda>fingerprint.
     bind_err (jvalue get_json ''secrets'' (JObj []) body) (\<lambda>secrets.
     bind_err (if is_object secrets
               then bind_err (value_or ''username'' (jvalue get_str ''username'' [] body) secrets) (\<lambda>u.
                      map_sum id (Pair u) (jvalue get_str ''password'' [] secrets))
               else map_sum id (\<lambda>u. (u, [])) (jvalue get_str ''username'' [] body)) (\<lambda>(username, password).
     bind_err (value_or ''keygen_endpoint'' (jvalue get_str ''endpoint'' [] body) body) (\<lambda>keygenEndpoint.
     bind_err (jvalue get_str ''api_key_oid'' [] body) (\<lambda>authProfileOid.
     bind_err (jvalue get_str ''device_type'' ''ngfw'' body) (\<lambda>deviceType.
       Inr \<lparr>tt_host = fst (host_and_port target), tt_port = snd (host_and_port target), tt_fingerprint = fingerprint,
         tt_username = username, tt_password = password, tt_keygenEndpoint = keygenEndpoint,
         tt_authProfileOid = authProfileOid, tt_deviceType = deviceType\<rparr>)))))))"

definition baseRequest :: "test_target \<Rightarrow> client_request" where
  "baseRequest t = client_request_new\<lparr>cq_host := tt_host t, cq_port := tt_port t, cq_expectedFingerprint := tt_fingerprint t,
     cq_timeoutMs := 10000\<rparr>"

definition or_text :: "string \<Rightarrow> string \<Rightarrow> string" where
  "or_text s d = (if s = [] then d else s)"

definition recordTlsStep :: "client_response \<Rightarrow> bool \<Rightarrow> connector_test \<Rightarrow> bool \<times> connector_test" where
  "recordTlsStep r hadPin ctx =
     (let ctx = out_put ''fingerprint'' (JStr (cp_fingerprint r)) ctx;
          ctx = out_put ''cert_subject'' (JStr (cp_certSubject r)) ctx;
          ctx = out_put ''fingerprint_trusted'' (JBool (cp_pinMatched r)) ctx in
      if \<not> cp_tlsOk r then
        (False, out_put ''message'' (JStr (cp_error r))
           (out_step ''tls'' (stepJson False (or_text (cp_error r) ''TLS handshake failed'')) ctx))
      else if \<not> cp_pinMatched r then
        let firstContact = (\<not> hadPin \<and> cp_fingerprint r \<noteq> []) in
        (False, out_put ''message''
           (JStr (if firstContact then ''confirm the device certificate to continue''
                  else ''certificate fingerprint mismatch '' @ em_dash @ '' possible interception''))
           (out_step ''tls'' (stepJson False
              (if firstContact then ''certificate not yet trusted '' @ em_dash @ '' confirm the fingerprint''
               else ''certificate fingerprint does not match the pinned value'')) ctx))
      else (True, out_step ''tls'' (stepJson True ''TLS established, certificate pinned'') ctx))"

definition extractXmlTag :: "string \<Rightarrow> string \<Rightarrow> string" where
  "extractXmlTag xml tag =
     (let opening = ''<'' @ tag @ ''>''; closing = ''</'' @ tag @ ''>'' in
      case str_find opening xml of None \<Rightarrow> []
      | Some b \<Rightarrow>
          let rest = drop (b + length opening) xml in
          (case str_find closing rest of None \<Rightarrow> [] | Some e \<Rightarrow> take e rest))"

definition xmlErrorMessage :: "string \<Rightarrow> string" where
  "xmlErrorMessage xml = or_text (extractXmlTag xml ''msg'') ''device rejected the request''"

definition buildKeygenRequest :: "test_target \<Rightarrow> client_request" where
  "buildKeygenRequest t =
     (let base = or_text (tt_keygenEndpoint t) ''/api/?type=keygen'' in
      (baseRequest t)\<lparr>cq_target := base @ query_sep base @ ''user='' @ urlEncode (tt_username t) @
        ''&password='' @ urlEncode (tt_password t)\<rparr>)"

definition readKeygenKey :: "client_response \<Rightarrow> bool \<Rightarrow> connector_test \<Rightarrow> string \<times> connector_test" where
  "readKeygenKey res hadPin ctx =
     (case recordTlsStep res hadPin ctx of
        (False, ctx) \<Rightarrow> ([], ctx)
      | (True, ctx) \<Rightarrow>
          let refuse = (\<lambda>detail. ([], out_put ''message'' (JStr (xmlErrorMessage (cp_body res)))
                (out_step ''auth'' (stepJson False detail) ctx))) in
          if cp_status res \<noteq> 200
          then refuse (''HTTP '' @ to_string (cp_status res) @ '' '' @ em_dash @ '' '' @ xmlErrorMessage (cp_body res))
          else
            let key = extractXmlTag (cp_body res) ''key'' in
            if key = [] then refuse (xmlErrorMessage (cp_body res))
            else (key, out_step ''auth'' (stepJson True (''API key issued ('' @ to_string (int (length key)) @ '' chars)'')) ctx))"

subsection \<open>The caches\<close>

definition issuedKey :: "string \<Rightarrow> collectord \<Rightarrow> string" where
  "issuedKey oid s = (case map_of (co_issuedKeys s) oid of None \<Rightarrow> [] | Some key \<Rightarrow> key)"

definition rememberIssuedKey :: "string \<Rightarrow> string \<Rightarrow> collectord \<Rightarrow> collectord" where
  "rememberIssuedKey oid key s = s\<lparr>co_issuedKeys := AList.update oid key (co_issuedKeys s)\<rparr>"

definition credentialFor :: "string \<Rightarrow> collectord \<Rightarrow> (string \<times> string) option" where
  "credentialFor oid s = map_of (co_credentials s) oid"

definition rememberCredential :: "string \<Rightarrow> string \<Rightarrow> string \<Rightarrow> collectord \<Rightarrow> collectord" where
  "rememberCredential oid ident pw s = s\<lparr>co_credentials := AList.update oid (ident, pw) (co_credentials s)\<rparr>"

subsection \<open>Answers and stored credentials\<close>

text \<open>Nobody waits for an answer under the number 0.\<close>

definition sendTestResponse :: "collect_env \<Rightarrow> u32 \<Rightarrow> json \<Rightarrow> collectord \<Rightarrow> unit costep" where
  "sendTestResponse env seqNo out s =
     (if seqNo = 0 then (Inr (), s) else send_doc env DMgmtd CmdApiConnectorTestResponse seqNo FlagResponse out s)"

definition seal_into :: "collect_env \<Rightarrow> string \<Rightarrow> string \<Rightarrow> json \<Rightarrow> json" where
  "seal_into env fld plain state =
     (if plain = [] then state else case ce_encrypt env plain of None \<Rightarrow> state | Some sealed \<Rightarrow> jput fld (JStr sealed) state)"

definition credential_state ::
  "collect_env \<Rightarrow> string \<Rightarrow> string \<Rightarrow> string \<Rightarrow> string \<Rightarrow> string \<Rightarrow> bool \<Rightarrow> string \<Rightarrow> json" where
  "credential_state env keyOid ident pw key expiresAt ok note =
     (let state = JObj [(''oid'', JStr keyOid), (''ok'', JBool ok), (''note'', JStr note)];
          state = (if expiresAt \<noteq> [] then jput ''expires_at'' (JStr expiresAt) state else state) in
      seal_into env ''key_enc'' key (seal_into env ''pw_enc'' pw (seal_into env ''id_enc'' ident state)))"

definition sendApiCredentialState ::
  "collect_env \<Rightarrow> string \<Rightarrow> string \<Rightarrow> string \<Rightarrow> string \<Rightarrow> string \<Rightarrow> bool \<Rightarrow> string \<Rightarrow> collectord \<Rightarrow> unit costep" where
  "sendApiCredentialState env keyOid ident pw key expiresAt ok note s =
     send_doc env DEngined CmdApiCredentialStateUpdate 0 FlagRequest (credential_state env keyOid ident pw key expiresAt ok note) s"

text \<open>\<open>None\<close>: a field could not be sealed. Nothing is sent either when there is nothing to store.\<close>

definition seal_or_fail :: "collect_env \<Rightarrow> string \<Rightarrow> string \<Rightarrow> json \<Rightarrow> json option" where
  "seal_or_fail env fld plain state =
     (if plain = [] then Some state else map_option (\<lambda>sealed. jput fld (JStr sealed) state) (ce_encrypt env plain))"

definition sendApiCredentialStore :: "collect_env \<Rightarrow> string \<Rightarrow> string \<Rightarrow> string \<Rightarrow> collectord \<Rightarrow> bool costep" where
  "sendApiCredentialStore env keyOid ident pw s =
     (case Option.bind (seal_or_fail env ''id_enc'' ident (JObj [(''oid'', JStr keyOid)])) (seal_or_fail env ''pw_enc'' pw) of
        None \<Rightarrow> (Inr False, s)
      | Some state \<Rightarrow>
          if ident = [] \<and> pw = [] then (Inr False, s)
          else then_do (send_doc env DEngined CmdApiCredentialStateUpdate 0 FlagRequest state s) (\<lambda>_ s. (Inr True, s)))"

definition failed_answer :: "string \<Rightarrow> json" where
  "failed_answer message = JObj [(''ok'', JBool False), (''steps'', JObj []), (''message'', JStr message)]"

definition rejectTest :: "collect_env \<Rightarrow> connector_test \<Rightarrow> string \<Rightarrow> collectord \<Rightarrow> unit costep" where
  "rejectTest env ctx message s = sendTestResponse env (ct_seqNo ctx) (failed_answer message) s"

text \<open>The \<^verbatim>\<open>try\<close> around a whole test: whoever waits on the number gets an answer.\<close>

definition start_or_answer :: "collect_env \<Rightarrow> string \<Rightarrow> u32 \<Rightarrow> unit costep \<Rightarrow> unit costep" where
  "start_or_answer env what seqNo r = (case r of
       (Inl e, s) \<Rightarrow> sendTestResponse env seqNo (failed_answer (what @ '' could not be started: '' @ ce_what env e)) s
     | (Inr x, s) \<Rightarrow> (Inr x, s))"

subsection \<open>Collection samples\<close>

definition kMaxSampleBody :: nat where "kMaxSampleBody = 65536"

definition buildCollectionSample :: "string \<Rightarrow> string \<Rightarrow> client_response \<Rightarrow> int \<Rightarrow> nat \<Rightarrow> json" where
  "buildCollectionSample connectorOid endpointOid res latencyMs maxBody =
     (let ok = (cp_tlsOk res \<and> cp_requestSent res \<and> cp_status res = 200);
          truncated = (length (cp_body res) > maxBody) in
      JObj ([(''connector_oid'', JStr connectorOid), (''endpoint_oid'', JStr endpointOid), (''ok'', JBool ok),
             (''latency_ms'', JInt latencyMs), (''bytes'', JInt (int (length (cp_body res))))] @
            (if cp_requestSent res then [(''http_status'', JInt (cp_status res))] else []) @
            [(''truncated'', JBool truncated), (''body'', JStr (take maxBody (cp_body res)))] @
            (if ok then []
             else [(''error'', JStr
               (if \<not> cp_tlsOk res then or_text (cp_error res) ''TLS handshake failed''
                else if \<not> cp_requestSent res
                then or_text (cp_error res) (''certificate not trusted '' @ em_dash @ '' pin the device first'')
                else ''HTTP '' @ to_string (cp_status res)))])))"

end
