(* ===== verification/Collect_Tests.thy ===== *)
theory Collect_Tests
  imports Collect_Util
begin

text \<open>
  The connector tests of the collector daemon: issuing a key and probing a certificate
  (\<^verbatim>\<open>collectord/service/api/controller/CredentialController.cpp\<close>), calling an endpoint of a firewall or of the
  cloud (\<^verbatim>\<open>NgfwController.cpp\<close>, \<^verbatim>\<open>SaseController.cpp\<close>), the health of a cloud tenant
  (\<^verbatim>\<open>StatusController.cpp\<close>). Each starts with a handler of the request and goes on in the completion handlers of
  the calls it makes, which are the functions named \<open>on...\<close>. A request whose session could not even be started
  is completed by the next event.
\<close>

subsection \<open>Issuing a key\<close>

definition finishKeygen :: "collect_env \<Rightarrow> connector_test \<Rightarrow> string \<Rightarrow> collectord \<Rightarrow> unit costep" where
  "finishKeygen env ctx key s =
     (let ctx = out_put ''ok'' (JBool (key \<noteq> [])) ctx;
          ctx = (if key \<noteq> [] then out_put ''message'' (JStr ''API key generated'') ctx else ctx);
          ctx = (if key \<noteq> [] then out_put ''key'' (JStr key) ctx else ctx);
          ctx = (if key \<noteq> [] \<and> ct_expiresAt ctx \<noteq> [] then out_put ''expires_at'' (JStr (ct_expiresAt ctx)) ctx else ctx);
          answer = sendTestResponse env (ct_seqNo ctx) (ct_out (out_put ''stored'' (JBool (ce_available env)) ctx)) in
      if ct_keyOid ctx = [] then answer s
      else read_then (jvalue get_str ''message'' [] (ct_out ctx)) s (\<lambda>note.
        then_do (sendApiCredentialState env (ct_keyOid ctx) (tt_username (ct_target ctx)) (tt_password (ct_target ctx)) key
            (ct_expiresAt ctx) (key \<noteq> []) note s)
          (\<lambda>_ s. answer (if key \<noteq> [] then rememberIssuedKey (ct_keyOid ctx) key s else s))))"

definition onKeygen :: "collect_env \<Rightarrow> connector_test \<Rightarrow> client_response \<Rightarrow> collectord \<Rightarrow> unit costep" where
  "onKeygen env ctx res s =
     (case readKeygenKey res (tt_fingerprint (ct_target ctx) \<noteq> []) ctx of (key, ctx) \<Rightarrow> finishKeygen env ctx key s)"

definition onSaseResponse :: "collect_env \<Rightarrow> connector_test \<Rightarrow> client_response \<Rightarrow> collectord \<Rightarrow> unit costep" where
  "onSaseResponse env ctx res s =
     (if \<not> cp_tlsOk res then
        let detail = or_text (cp_error res) ''could not reach the SASE auth server'' in
        finishKeygen env (out_put ''message'' (JStr detail) (out_step ''tls'' (stepJson False detail) ctx)) [] s
      else
        let ctx = out_step ''tls'' (stepJson True ''connected to the SASE auth server'') ctx;
            body = (case ce_parse env (cp_body res) of Some j \<Rightarrow> if is_object j then Some j else None | None \<Rightarrow> None) in
        if cp_status res \<noteq> 200 then
          read_then (case body of None \<Rightarrow> Inr []
              | Some j \<Rightarrow> value_or ''error_description'' (jvalue get_str ''error'' [] j) j) s (\<lambda>e.
            let detail = or_text e (''auth server returned HTTP '' @ to_string (cp_status res)) in
            finishKeygen env (out_put ''message'' (JStr detail) (out_step ''auth'' (stepJson False detail) ctx)) [] s)
        else
          read_then (case body of None \<Rightarrow> Inr [] | Some j \<Rightarrow> jvalue get_str ''access_token'' [] j) s (\<lambda>token.
            if token = [] then
              finishKeygen env (out_put ''message'' (JStr ''token issuance failed'')
                (out_step ''auth'' (stepJson False ''no access_token in the auth server response'') ctx)) [] s
            else
              read_then (case body of None \<Rightarrow> Inr 0 | Some j \<Rightarrow> jvalue get_long ''expires_in'' 0 j) s (\<lambda>expiresIn.
                let ctx = (if expiresIn > 0 then ctx\<lparr>ct_expiresAt := ce_expiry env expiresIn\<rparr> else ctx) in
                finishKeygen env (out_step ''auth'' (stepJson True ''access token issued'') ctx) token s)))"

definition runSaseToken :: "connector_test \<Rightarrow> collectord \<Rightarrow> collectord" where
  "runSaseToken ctx =
     (let t = ct_target ctx in
      requestAsync (buildOAuthTokenRequest (splitHostPath (tt_keygenEndpoint t) kSaseAuthHost kSaseTokenPath)
        (tt_username t) (tt_password t) (tt_host t)) (OnSaseResponse ctx))"

definition no_key_yet :: string where
  "no_key_yet = ''no key has been issued for this API key yet, and its password is not available '' @ em_dash @
     '' enter the password on the API Key page and run the key generation once''"

text \<open>A request that carries no password is run with the stored one.\<close>

definition with_stored :: "string \<Rightarrow> test_target \<Rightarrow> collectord \<Rightarrow> test_target" where
  "with_stored oid t s =
     (if tt_password t \<noteq> [] then t
      else case credentialFor oid s of None \<Rightarrow> t
        | Some (ident, pw) \<Rightarrow> t\<lparr>tt_username := or_text (tt_username t) ident, tt_password := pw\<rparr>)"

definition runKeygenTest :: "collect_env \<Rightarrow> u32 \<Rightarrow> json \<Rightarrow> collectord \<Rightarrow> unit costep" where
  "runKeygenTest env seqNo input s =
     start_or_answer env ''test'' seqNo
       (read_then (jvalue get_str ''oid'' [] input) s (\<lambda>oid.
        read_then (parseTestTarget input) s (\<lambda>target.
          let t = with_stored oid target s;
              ctx = (connector_test_new seqNo input)\<lparr>ct_keyOid := oid, ct_target := t\<rparr>;
              started = out_put ''steps'' (JObj []) ctx in
          if tt_host t = [] then rejectTest env ctx ''target is required'' s
          else if tt_deviceType t = ''sase'' then
            if tt_username t = [] \<or> tt_password t = []
            then rejectTest env ctx ''the SASE client id and client secret are required to issue a token'' s
            else (Inr (), runSaseToken started s)
          else
            let stored = issuedKey (tt_authProfileOid t) s in
            if stored \<noteq> [] then
              finishKeygen env (out_put ''used_stored_key'' (JBool True)
                (out_step ''auth'' (stepJson True ''using the key already issued for this profile'') started)) stored s
            else if tt_username t = [] \<or> tt_password t = [] then rejectTest env ctx no_key_yet s
            else (Inr (), requestAsync (buildKeygenRequest t) (OnKeygen started) s))))"

definition store_answer :: "bool \<Rightarrow> string \<Rightarrow> json" where
  "store_answer ok message = JObj [(''steps'', JObj []), (''ok'', JBool ok), (''message'', JStr message)]"

text \<open>The answer to a request to store something, or the text of the exception on the way there.\<close>

definition answer_stored :: "collect_env \<Rightarrow> u32 \<Rightarrow> string \<Rightarrow> json costep \<Rightarrow> unit costep" where
  "answer_stored env seqNo what r = (case r of
       (Inl e, s) \<Rightarrow> sendTestResponse env seqNo (store_answer False (what @ ce_what env e)) s
     | (Inr out, s) \<Rightarrow> sendTestResponse env seqNo out s)"

definition storeCredential :: "collect_env \<Rightarrow> u32 \<Rightarrow> json \<Rightarrow> collectord \<Rightarrow> unit costep" where
  "storeCredential env seqNo input s =
     answer_stored env seqNo ''the credential could not be saved: ''
       (read_then (jvalue get_str ''oid'' [] input) s (\<lambda>oid.
        read_then (jvalue get_json ''secrets'' (JObj []) input) s (\<lambda>secrets.
        read_then (if is_object secrets then jvalue get_str ''username'' [] secrets else Inr []) s (\<lambda>username.
        read_then (if is_object secrets then jvalue get_str ''password'' [] secrets else Inr []) s (\<lambda>password.
          if oid = [] \<or> password = []
          then (Inr (store_answer False ''the API Key and its password are both required''), s)
          else then_do (sendApiCredentialStore env oid username password s) (\<lambda>stored s.
            if \<not> stored then (Inr (store_answer False (''the credential store is unavailable '' @ em_dash @ '' the password was not saved'')), s)
            else (Inr (store_answer True ''credential saved''), rememberCredential oid username password s)))))))"

definition onTlsProbe :: "collect_env \<Rightarrow> connector_test \<Rightarrow> client_response \<Rightarrow> collectord \<Rightarrow> unit costep" where
  "onTlsProbe env ctx res s =
     (let hadPin = (tt_fingerprint (ct_target ctx) \<noteq> []) in
      case recordTlsStep res hadPin ctx of (trusted, ctx) \<Rightarrow>
        read_then (jvalue get_str ''fingerprint'' [] (ct_out ctx)) s (\<lambda>fingerprint.
          let ctx = out_put ''ok'' (JBool (fingerprint \<noteq> [])) ctx;
              ctx = (if trusted then out_put ''message'' (JStr ''certificate already trusted'') ctx
                     else if fingerprint \<noteq> [] \<and> \<not> hadPin
                     then out_put ''message'' (JStr (''certificate retrieved '' @ em_dash @ '' confirm the fingerprint to trust it'')) ctx
                     else ctx) in
          sendTestResponse env (ct_seqNo ctx) (ct_out ctx) s))"

definition runTlsProbe :: "collect_env \<Rightarrow> u32 \<Rightarrow> json \<Rightarrow> collectord \<Rightarrow> unit costep" where
  "runTlsProbe env seqNo input s =
     start_or_answer env ''probe'' seqNo
       (read_then (parseTestTarget input) s (\<lambda>t.
          let ctx = out_put ''steps'' (JObj []) ((connector_test_new seqNo input)\<lparr>ct_target := t\<rparr>) in
          if tt_host t = [] then rejectTest env ctx ''target is required'' s
          else (Inr (), requestAsync ((baseRequest t)\<lparr>cq_method := ''GET'', cq_target := ''/''\<rparr>) (OnTlsProbe ctx) s)))"

subsection \<open>Calling an endpoint of a firewall\<close>

definition api_type :: "json \<Rightarrow> json_error + string" where
  "api_type input = value_or ''subtype'' (jvalue get_str ''api_type'' ''rest'' input) input"

definition endpoint_response :: "nat \<Rightarrow> client_response \<Rightarrow> json" where
  "endpoint_response maxBody res =
     JObj [(''status'', JInt (cp_status res)), (''body'', JStr (take maxBody (cp_body res))),
       (''bytes'', JInt (int (length (cp_body res)))), (''truncated'', JBool (length (cp_body res) > maxBody))]"

text \<open>An exchange that did not come to a request.\<close>

definition endpoint_not_sent :: "collect_env \<Rightarrow> connector_test \<Rightarrow> client_response \<Rightarrow> collectord \<Rightarrow> unit costep" where
  "endpoint_not_sent env ctx res s =
     (let ctx = out_step ''endpoint'' (stepJson False (or_text (cp_error res) ''request was not sent'')) ctx;
          ctx = out_put ''message'' (JStr (cp_error res)) (out_put ''ok'' (JBool False) ctx) in
      sendTestResponse env (ct_seqNo ctx) (ct_out ctx) s)"

definition onEndpointResponse :: "collect_env \<Rightarrow> connector_test \<Rightarrow> client_response \<Rightarrow> collectord \<Rightarrow> unit costep" where
  "onEndpointResponse env ctx res s =
     read_then (api_type (ct_input ctx)) s (\<lambda>apiType.
       if \<not> cp_tlsOk res \<or> \<not> cp_requestSent res then endpoint_not_sent env ctx res s
       else
         let ok = (cp_status res = 200);
             http = ''HTTP '' @ to_string (cp_status res);
             ctx = out_step ''endpoint'' (stepJson ok (http @ (if ok then []
               else '' '' @ em_dash @ '' '' @ (if apiType = ''xml'' then xmlErrorMessage (cp_body res) else take 160 (cp_body res))))) ctx;
             ctx = out_put ''response'' (endpoint_response kMaxSampleBody res) (out_put ''ok'' (JBool ok) ctx);
             ctx = out_put ''message'' (JStr (if ok then ''endpoint responded'' else ''endpoint returned '' @ http)) ctx in
         sendTestResponse env (ct_seqNo ctx) (ct_out ctx) s)"

definition callEndpoint :: "collect_env \<Rightarrow> connector_test \<Rightarrow> string \<Rightarrow> collectord \<Rightarrow> unit costep" where
  "callEndpoint env ctx key s =
     (let input = ct_input ctx; t = ct_target ctx in
      read_then (api_type input) s (\<lambda>apiType.
      read_then (jvalue get_str ''endpoint'' [] input) s (\<lambda>endpoint.
      read_then (request_path endpoint input) s (\<lambda>path.
        let xml = (apiType = ''xml'');
            call = (baseRequest t)\<lparr>cq_target := (if xml then path @ query_sep path @ ''key='' @ urlEncode key else path),
              cq_headers := (if xml then [] else [(''X-PAN-KEY'', key)])\<rparr>;
            shown = (if xml then path @ query_sep path @ ''key=<redacted>'' else path);
            url = ''https://'' @ tt_host t @ (if tt_port t = 443 then [] else '':'' @ to_string (uint (tt_port t))) @ shown;
            ctx = out_put ''request'' (JObj [(''method'', JStr ''GET''), (''url'', JStr url),
              (''key_delivery'', JStr (if xml then ''key= query parameter'' else ''X-PAN-KEY header''))]) ctx in
        (Inr (), requestAsync call (OnEndpointResponse ctx) s)))))"

definition onKeygenForEndpoint :: "collect_env \<Rightarrow> connector_test \<Rightarrow> client_response \<Rightarrow> collectord \<Rightarrow> unit costep" where
  "onKeygenForEndpoint env ctx res s =
     (case readKeygenKey res (tt_fingerprint (ct_target ctx) \<noteq> []) ctx of (key, ctx) \<Rightarrow>
        if key = [] then sendTestResponse env (ct_seqNo ctx) (ct_out (out_put ''ok'' (JBool False) ctx)) s
        else callEndpoint env ctx key s)"

text \<open>Reading the parameters or the headers as an array of pairs.\<close>

definition is_list :: "string \<Rightarrow> json \<Rightarrow> json_error + bool" where
  "is_list key input = map_sum id is_array (jvalue get_json key (JArr []) input)"

definition bad_path :: "string \<Rightarrow> bool" where
  "bad_path endpoint \<longleftrightarrow> endpoint = [] \<or> hd endpoint \<noteq> CHR ''/''"

definition ngfw_runEndpointTest :: "collect_env \<Rightarrow> u32 \<Rightarrow> json \<Rightarrow> collectord \<Rightarrow> unit costep" where
  "ngfw_runEndpointTest env seqNo input s =
     start_or_answer env ''test'' seqNo
       (read_then (parseTestTarget input) s (\<lambda>t.
          let ctx = (connector_test_new seqNo input)\<lparr>ct_target := t\<rparr>;
              started = out_put ''steps'' (JObj []) ctx in
          if tt_host t = [] then rejectTest env ctx ''target is required'' s
          else
            read_then (jvalue get_str ''endpoint'' [] input) s (\<lambda>endpoint.
            read_then (api_type input) s (\<lambda>apiType.
              if bad_path endpoint then rejectTest env ctx ''endpoint must be a path starting with /'' s
              else if apiType \<noteq> ''xml'' \<and> apiType \<noteq> ''rest'' then rejectTest env ctx ''subtype must be xml or rest'' s
              else read_then (is_list ''params'' input) s (\<lambda>pairs.
                if \<not> pairs then rejectTest env ctx ''params must be an array of {name, value}'' s
                else
                  let stored = issuedKey (tt_authProfileOid t) s in
                  if stored \<noteq> [] then
                    callEndpoint env (out_put ''used_stored_key'' (JBool True)
                      (out_step ''auth'' (stepJson True ''using the key already issued for this profile'') started)) stored s
                  else if tt_username t = [] \<or> tt_password t = [] then rejectTest env ctx no_key_yet s
                  else (Inr (), requestAsync (buildKeygenRequest t) (OnKeygenForEndpoint started) s))))))"

subsection \<open>Calling an endpoint of the cloud\<close>

definition kMaxBody :: nat where "kMaxBody = 16000"

definition sase_detail :: "client_response \<Rightarrow> string" where
  "sase_detail res =
     ''HTTP '' @ to_string (cp_status res) @
     (if cp_status res = 200 then []
      else '' '' @ em_dash @ '' '' @
        (if cp_status res = 424 then ''the tenant was not found in this region. Check the x-panw-region header.''
         else if cp_status res = 401 \<or> cp_status res = 403
         then ''the token was rejected. Check the credential'' @ [CHR 0x27] @ ''s scope for this tenant.''
         else take 160 (cp_body res)))"

definition onSaseEndpointResponse :: "collect_env \<Rightarrow> connector_test \<Rightarrow> client_response \<Rightarrow> collectord \<Rightarrow> unit costep" where
  "onSaseEndpointResponse env ctx res s =
     (if \<not> cp_tlsOk res \<or> \<not> cp_requestSent res then endpoint_not_sent env ctx res s
      else
        let ok = (cp_status res = 200);
            ctx = out_put ''ok'' (JBool ok) (out_step ''endpoint'' (stepJson ok (sase_detail res)) ctx);
            ctx = out_put ''response'' (endpoint_response kMaxBody res) ctx;
            ctx = out_put ''message'' (JStr (if ok then ''endpoint responded'' else sase_detail res)) ctx in
        sendTestResponse env (ct_seqNo ctx) (ct_out ctx) s)"

text \<open>
  The operator's headers of a request: all but the authorization. \<^verbatim>\<open>strcasecmp\<close> sees a name up to its
  first null character.
\<close>

definition is_authorization :: "string \<Rightarrow> bool" where
  "is_authorization name \<longleftrightarrow> map to_lower (takeWhile (\<lambda>c. c \<noteq> CHR 0x00) name) = ''authorization''"

fun sase_headers :: "json list \<Rightarrow> json_error + (string \<times> string) list" where
  "sase_headers [] = Inr []"
| "sase_headers (h # hs) =
     (if \<not> is_object h then sase_headers hs
      else bind_err (jvalue get_str ''name'' [] h) (\<lambda>name.
        if name = [] \<or> is_authorization name then sase_headers hs
        else bind_err (jvalue get_str ''value'' [] h) (\<lambda>v. map_sum id (\<lambda>rest. (name, v) # rest) (sase_headers hs))))"

definition sase_call :: "string \<Rightarrow> string \<Rightarrow> string \<Rightarrow> (string \<times> string) list \<Rightarrow> client_request" where
  "sase_call host path token headers =
     client_request_new\<lparr>cq_host := host, cq_verifyCa := True, cq_target := path, cq_timeoutMs := 30000,
       cq_headers := (''Authorization'', ''Bearer '' @ token) # headers\<rparr>"

definition callSaseEndpoint :: "collect_env \<Rightarrow> connector_test \<Rightarrow> string \<Rightarrow> collectord \<Rightarrow> unit costep" where
  "callSaseEndpoint env ctx token s =
     (let input = ct_input ctx in
      read_then (jvalue get_str ''host'' [] input) s (\<lambda>host.
      read_then (jvalue get_str ''endpoint'' [] input) s (\<lambda>endpoint.
      read_then (request_path endpoint input) s (\<lambda>path.
      read_then (bind_err (jvalue get_json ''headers'' (JArr []) input) (\<lambda>hs. sase_headers (jiterate hs))) s (\<lambda>headers.
        let ctx = out_put ''request'' (JObj [(''method'', JStr ''GET''), (''url'', JStr (''https://'' @ host @ path)),
              (''headers'', JArr (map (\<lambda>(n, v). JObj [(''name'', JStr n), (''value'', JStr v)]) headers)),
              (''key_delivery'', JStr ''Authorization: Bearer <redacted>'')]) ctx in
        (Inr (), requestAsync (sase_call host path token headers) (OnSaseEndpointResponse ctx) s))))))"

definition onTokenForEndpoint :: "collect_env \<Rightarrow> connector_test \<Rightarrow> client_response \<Rightarrow> collectord \<Rightarrow> unit costep" where
  "onTokenForEndpoint env ctx res s =
     (let refuse = (\<lambda>detail. sendTestResponse env (ct_seqNo ctx)
            (ct_out (out_put ''ok'' (JBool False) (out_step ''auth'' (stepJson False detail) ctx))) s) in
      if \<not> cp_tlsOk res \<or> \<not> cp_requestSent res then refuse (or_text (cp_error res) ''the token request was not sent'')
      else if cp_status res \<noteq> 200
      then refuse (''the auth server answered HTTP '' @ to_string (cp_status res) @
        (if cp_status res = 401 then '' '' @ em_dash @ '' check the client id and secret'' else []))
      else
        let token = (case ce_parse env (cp_body res) of None \<Rightarrow> []
            | Some j \<Rightarrow> (case jvalue get_str ''access_token'' [] j of Inl e \<Rightarrow> [] | Inr token \<Rightarrow> token)) in
        if token = [] then refuse ''the auth server returned no access_token''
        else callSaseEndpoint env (out_step ''auth'' (stepJson True ''token issued for this test'') ctx) token s)"

definition no_token_yet :: string where
  "no_token_yet = ''no token has been issued for this credential yet, and its client secret is not available '' @ em_dash @
     '' enter it on the API Credential page and run the credential test once''"

definition sase_runEndpointTest :: "collect_env \<Rightarrow> u32 \<Rightarrow> json \<Rightarrow> collectord \<Rightarrow> unit costep" where
  "sase_runEndpointTest env seqNo input s =
     start_or_answer env ''test'' seqNo
       (read_then (parseTestTarget input) s (\<lambda>t.
        read_then (jvalue get_str ''host'' [] input) s (\<lambda>host.
        read_then (jvalue get_str ''endpoint'' [] input) s (\<lambda>endpoint.
          let ctx = (connector_test_new seqNo input)\<lparr>ct_target := t\<rparr>;
              started = out_step ''tls'' (stepJson True ''verified against the public CA chain'') ctx in
          if tt_host t = [] then rejectTest env ctx ''the tenant (TSG id) is required'' s
          else if host = [] then rejectTest env ctx ''host is required, e.g. api.sase.paloaltonetworks.com'' s
          else if bad_path endpoint then rejectTest env ctx ''endpoint must be a path starting with /'' s
          else read_then (is_list ''params'' input) s (\<lambda>pairs.
            if \<not> pairs then rejectTest env ctx ''params must be an array of {name, value}'' s
            else read_then (is_list ''headers'' input) s (\<lambda>pairs.
              if \<not> pairs then rejectTest env ctx ''headers must be an array of {name, value}'' s
              else
                let stored = issuedKey (tt_authProfileOid t) s in
                if stored \<noteq> [] then
                  callSaseEndpoint env (out_put ''used_stored_key'' (JBool True)
                    (out_step ''auth'' (stepJson True ''using the token already issued for this credential'') started)) stored s
                else if tt_username t = [] \<or> tt_password t = [] then rejectTest env ctx no_token_yet s
                else (Inr (), requestAsync (buildOAuthTokenRequest
                    (splitHostPath (tt_keygenEndpoint t) kSaseAuthHost kSaseTokenPath)
                    (tt_username t) (tt_password t) (tt_host t)) (OnTokenForEndpoint started) s)))))))"

subsection \<open>The health of a cloud tenant\<close>

definition kStatusInterval :: int where "kStatusInterval = 60000"

record parsed_url =
  pu_host :: string
  pu_port :: u16
  pu_path :: string
  pu_ok :: bool

text \<open>The host and port text before the first slash, the path from there on.\<close>

definition split_slash :: "string \<Rightarrow> string \<times> string" where
  "split_slash rest =
     (takeWhile (\<lambda>c. c \<noteq> CHR ''/'') rest,
      if CHR ''/'' \<in> set rest then dropWhile (\<lambda>c. c \<noteq> CHR ''/'') rest else ''/'')"

text \<open>The host before the first colon, with what follows it.\<close>

definition split_colon :: "string \<Rightarrow> string \<times> string option" where
  "split_colon hostport =
     (takeWhile (\<lambda>c. c \<noteq> CHR '':'') hostport,
      if CHR '':'' \<in> set hostport then Some (tl (dropWhile (\<lambda>c. c \<noteq> CHR '':'') hostport)) else None)"

definition parseUrl :: "string \<Rightarrow> parsed_url" where
  "parseUrl url =
     (if \<not> prefix ''https://'' url then \<lparr>pu_host = [], pu_port = 443, pu_path = ''/'', pu_ok = False\<rparr>
      else
        case split_slash (drop 8 url) of (hostport, path) \<Rightarrow>
        case split_colon hostport of (host, port) \<Rightarrow>
        case port of None \<Rightarrow> \<lparr>pu_host = host, pu_port = 443, pu_path = path, pu_ok = (host \<noteq> [])\<rparr>
        | Some p \<Rightarrow> (case read_port p of
              None \<Rightarrow> \<lparr>pu_host = host, pu_port = 443, pu_path = path, pu_ok = False\<rparr>
            | Some port \<Rightarrow> \<lparr>pu_host = host, pu_port = port, pu_path = path, pu_ok = (host \<noteq> [])\<rparr>))"

definition sealAndStoreApiKey :: "collect_env \<Rightarrow> string \<Rightarrow> string \<Rightarrow> collectord \<Rightarrow> bool costep" where
  "sealAndStoreApiKey env oid apiKey s =
     (case ce_encrypt env apiKey of None \<Rightarrow> (Inr False, s)
      | Some sealed \<Rightarrow>
          then_do (send_doc env DEngined CmdSaseApiKeyUpdate 0 FlagRequest
              (JObj [(''oid'', JStr oid), (''api_key_enc'', JStr sealed)]) s) (\<lambda>_ s. (Inr True, s)))"

definition health_request :: "string \<Rightarrow> u16 \<Rightarrow> string \<Rightarrow> string \<Rightarrow> string \<Rightarrow> client_request" where
  "health_request host port path apiKey body =
     client_request_new\<lparr>cq_host := host, cq_port := port, cq_method := ''POST'', cq_target := path,
       cq_headers := [(''header-api-key'', apiKey), (''Content-Type'', ''application/json'')], cq_body := body,
       cq_verifyCa := True, cq_timeoutMs := 25000\<rparr>"

text \<open>Whether a body says that the call succeeded; the document it holds.\<close>

definition health_success :: "json option \<Rightarrow> json_error + bool" where
  "health_success parsed = (case parsed of None \<Rightarrow> Inr False
     | Some j \<Rightarrow> if \<not> is_object j then Inr False
         else map_sum id (\<lambda>st. st = ''success'') (jvalue get_str ''status'' [] j))"

definition set_status :: "(status_state \<Rightarrow> status_state) \<Rightarrow> collectord \<Rightarrow> collectord" where
  "set_status f s = s\<lparr>co_status := f (co_status s)\<rparr>"

definition onStatus :: "collect_env \<Rightarrow> string \<Rightarrow> client_response \<Rightarrow> collectord \<Rightarrow> unit costep" where
  "onStatus env target res s =
     (let s = set_status (\<lambda>st. st\<lparr>st_inFlight := AList.update target False (st_inFlight st)\<rparr>) s;
          parsed = ce_parse env (cp_body res) in
      read_then (if cp_status res = 200 then health_success parsed else Inr False) s (\<lambda>ok.
        let s = (case parsed of Some j \<Rightarrow> if ok then set_status (\<lambda>st. st\<lparr>st_egress := AList.update target j (st_egress st)\<rparr>) s else s
              | None \<Rightarrow> s) in
        (Inr (), set_status (\<lambda>st. st\<lparr>st_result := AList.update target ok (st_result st)\<rparr>) s)))"

definition health_body :: "collect_env \<Rightarrow> json \<Rightarrow> json_error + string" where
  "health_body env health = (case jfind ''body'' health of
       None \<Rightarrow> Inr ''{}'' | Some (JStr b) \<Rightarrow> Inr b | Some j \<Rightarrow> ce_dump env j)"

definition probe_device :: "collect_env \<Rightarrow> json \<Rightarrow> collectord \<Rightarrow> unit costep" where
  "probe_device env d s =
     (if \<not> is_object d then (Inr (), s)
      else
        read_then (jvalue get_str ''oid'' [] d) s (\<lambda>oid.
        read_then (jvalue get_str ''target'' [] d) s (\<lambda>target.
          if oid = [] \<or> target = [] then (Inr (), s)
          else
            read_then (jvalue get_json ''health'' (JObj []) d) s (\<lambda>health.
            read_then (jvalue get_str ''url'' [] health) s (\<lambda>url.
              let apiKey = issuedKey oid s in
              if url = [] \<or> apiKey = [] then (Inr (), s)
              else if map_of (st_inFlight (co_status s)) target = Some True then (Inr (), s)
              else
                let u = parseUrl url in
                if \<not> pu_ok u
                then (Inr (), set_status (\<lambda>st. st\<lparr>st_result := AList.update target False (st_result st)\<rparr>) s)
                else
                  read_then (health_body env health) s (\<lambda>body.
                    let s = set_status (\<lambda>st. st\<lparr>st_inFlight := AList.update target True (st_inFlight st)\<rparr>) s in
                    (Inr (), requestAsync (health_request (pu_host u) (pu_port u) (pu_path u) apiKey body) (OnStatus target) s)))))))"

fun probe_devices :: "collect_env \<Rightarrow> json list \<Rightarrow> collectord \<Rightarrow> unit costep" where
  "probe_devices env [] s = (Inr (), s)"
| "probe_devices env (d # ds) s = then_do (probe_device env d s) (\<lambda>_. probe_devices env ds)"

definition health_report :: "status_state \<Rightarrow> json" where
  "health_report st =
     JObj [(''sase_alive'', JArr (map (JStr \<circ> fst) (filter snd (st_result st)))),
       (''sase_down'', JArr (map (JStr \<circ> fst) (filter (\<lambda>(t, ok). \<not> ok) (st_result st)))),
       (''sase_egress'', JObj (st_egress st))]"

definition status_tick :: "collect_env \<Rightarrow> collectord \<Rightarrow> unit costep" where
  "status_tick env s =
     (let before = st_lastRun (co_status s) in
      if before \<noteq> 0 \<and> ce_now env - before < kStatusInterval then (Inr (), s)
      else
        let s = set_status (\<lambda>st. st\<lparr>st_lastRun := ce_now env\<rparr>) s in
        then_do (send_doc env DEngined CmdSaseHealthResult 0 FlagResponse (health_report (co_status s)) s) (\<lambda>_ s.
          read_then (jvalue get_json ''sase_devices'' (JArr []) (ce_site env)) s (\<lambda>devices.
            probe_devices env (jiterate devices) s)))"

definition default_health_body :: string where
  "default_health_body = ''{\"serviceType\":\"all\",\"addrType\":\"all\",\"location\":\"all\"}''"

definition runSaseTest :: "collect_env \<Rightarrow> u32 \<Rightarrow> json \<Rightarrow> collectord \<Rightarrow> unit costep" where
  "runSaseTest env seqNo input s =
     start_or_answer env ''test'' seqNo
       (read_then (jvalue get_str ''oid'' [] input) s (\<lambda>oid.
        read_then (jvalue get_str ''url'' [] input) s (\<lambda>url.
        read_then (jvalue get_str ''api_key'' [] input) s (\<lambda>typed.
        read_then (jvalue get_str ''body'' [] input) s (\<lambda>body.
          let apiKey = or_text typed (issuedKey oid s);
              ctx = connector_test_new seqNo input in
          if oid = [] \<or> url = [] then rejectTest env ctx ''the device and probe URL are both required'' s
          else if apiKey = []
          then rejectTest env ctx (''no api-key is stored for this device '' @ em_dash @ '' paste the command again'') s
          else if \<not> prefix ''https://'' url then rejectTest env ctx ''the probe URL must be https'' s
          else
            case split_slash (drop 8 url) of (hostport, path) \<Rightarrow>
            case split_colon hostport of (host, port) \<Rightarrow>
            let port = (case port of None \<Rightarrow> 443 | Some p \<Rightarrow> (case read_port p of None \<Rightarrow> 443 | Some port \<Rightarrow> port)) in
            (Inr (), requestAsync (health_request host port path apiKey (or_text body default_health_body))
              (OnSaseTest (out_put ''steps'' (JObj []) ctx) oid apiKey (typed \<noteq> [])) s))))))"

definition sase_note :: "client_response \<Rightarrow> string" where
  "sase_note res =
     (if cp_status res = 200 then ''reached the API but the response was not a success''
      else if cp_status res = 401 \<or> cp_status res = 403
      then ''the api-key was rejected (HTTP '' @ to_string (cp_status res) @ '')''
      else if cp_status res \<noteq> 0 then ''the API answered HTTP '' @ to_string (cp_status res)
      else or_text (cp_error res) ''could not reach the SASE API'')"

definition onSaseTest ::
  "collect_env \<Rightarrow> connector_test \<Rightarrow> string \<Rightarrow> string \<Rightarrow> bool \<Rightarrow> client_response \<Rightarrow> collectord \<Rightarrow> unit costep" where
  "onSaseTest env ctx oid apiKey keyFromOperator res s =
     (let parsed = ce_parse env (cp_body res) in
      read_then (if cp_status res = 200 then health_success parsed else Inr False) s (\<lambda>ok.
        let ctx = out_put ''message'' (JStr (if ok then ''SASE health check passed '' @ em_dash @ '' api-key saved'' else sase_note res))
              (out_put ''ok'' (JBool ok) ctx);
            ctx = out_put ''http_status'' (JInt (cp_status res)) ctx;
            ctx = (case parsed of Some j \<Rightarrow> out_put ''egress'' j ctx
              | None \<Rightarrow> if cp_body res \<noteq> [] then out_put ''egress_raw'' (JStr (cp_body res)) ctx else ctx) in
        then_do (if ok \<and> keyFromOperator then sealAndStoreApiKey env oid apiKey s else (Inr True, s)) (\<lambda>saved s.
          sendTestResponse env (ct_seqNo ctx)
            (ct_out (if saved then ctx
              else out_put ''message'' (JStr ''health check passed, but the credential store is unavailable to save the key'') ctx)) s)))"

definition storeApiKey :: "collect_env \<Rightarrow> u32 \<Rightarrow> json \<Rightarrow> collectord \<Rightarrow> unit costep" where
  "storeApiKey env seqNo input s =
     answer_stored env seqNo ''the api-key could not be saved: ''
       (read_then (jvalue get_str ''oid'' [] input) s (\<lambda>oid.
        read_then (jvalue get_str ''api_key'' [] input) s (\<lambda>apiKey.
          if oid = [] \<or> apiKey = [] then (Inr (store_answer False ''the device and api-key are both required''), s)
          else then_do (sealAndStoreApiKey env oid apiKey s) (\<lambda>stored s.
            (Inr (if \<not> stored
              then store_answer False (''the credential store is unavailable '' @ em_dash @ '' the api-key was not saved'')
              else store_answer True ''api-key saved''), s)))))"

end
