(* ===== verification/Collect_Service.thy ===== *)
theory Collect_Service
  imports Collect_Tests
begin

text \<open>
  The collector's service (\<^verbatim>\<open>collectord/service/api/ApiService.cpp\<close>) and the scheduled collection
  (\<^verbatim>\<open>controller/ConnectorController.cpp\<close>): reading the configuration objects, dispatching the events, the caches,
  the re-issue of credentials, and the jobs that poll one endpoint each. The daemon's run is a sequence of
  \<open>collect_event\<close>s: an event from the queue, a call that completed, a timer that ran off.
\<close>

subsection \<open>Reading the configuration\<close>

text \<open>A loop over objects that fills a vector: what came before an exception has been added.\<close>

fun load_each :: "(json \<Rightarrow> json_error + 'a option) \<Rightarrow> json list \<Rightarrow> json_error option \<times> 'a list" where
  "load_each read [] = (None, [])"
| "load_each read (j # js) =
     (if \<not> is_object j then load_each read js
      else case read j of Inl e \<Rightarrow> (Some e, [])
        | Inr None \<Rightarrow> load_each read js
        | Inr (Some x) \<Rightarrow> (case load_each read js of (e, xs) \<Rightarrow> (e, x # xs)))"

text \<open>The elements of a member that is an array, else none.\<close>

definition array_member :: "string \<Rightarrow> json \<Rightarrow> json list" where
  "array_member key cfg = (case jfind key cfg of Some (JArr xs) \<Rightarrow> xs | _ \<Rightarrow> [])"

definition legacy_oid :: "json \<Rightarrow> json_error + string" where
  "legacy_oid j = value_or ''oid'' (value_or ''uuid'' (jvalue get_str ''id'' [] j) j) j"

definition read_profile :: "json \<Rightarrow> json_error + auth_profile option" where
  "read_profile p =
     bind_err (legacy_oid p) (\<lambda>oid.
     bind_err (jvalue get_str ''name'' [] p) (\<lambda>name.
     bind_err (jvalue get_str ''vendor'' [] p) (\<lambda>vendor.
     bind_err (jvalue get_str ''username'' [] p) (\<lambda>username.
     bind_err (jvalue get_str ''tls'' ''pin'' p) (\<lambda>tls.
     bind_err (jvalue get_str ''fingerprint'' [] p) (\<lambda>fingerprint.
     bind_err (jvalue get_str ''device'' [] p) (\<lambda>device.
     bind_err (jvalue get_str ''endpoint'' [] p) (\<lambda>endpoint.
     bind_err (jvalue get_str ''refresh_mode'' ''manual'' p) (\<lambda>mode.
     bind_err (jvalue get_i32 ''refresh_interval_min'' 60 p) (\<lambda>interval.
       Inr (if oid = [] then None
         else Some \<lparr>pf_oid = oid, pf_name = name, pf_vendor = vendor, pf_username = username, pf_tls = tls,
           pf_fingerprint = fingerprint, pf_device = device, pf_endpoint = endpoint, pf_refreshMode = mode,
           pf_refreshIntervalMin = interval\<rparr>)))))))))))"

fun read_pair_list :: "json list \<Rightarrow> json_error + (string \<times> string) list" where
  "read_pair_list [] = Inr []"
| "read_pair_list (p # ps) =
     (if \<not> is_object p then read_pair_list ps
      else bind_err (jvalue get_str ''name'' [] p) (\<lambda>name.
           bind_err (jvalue get_str ''value'' [] p) (\<lambda>v.
             if name = [] then read_pair_list ps else map_sum id (\<lambda>rest. (name, v) # rest) (read_pair_list ps))))"

definition readPairs :: "json \<Rightarrow> string \<Rightarrow> json_error + (string \<times> string) list" where
  "readPairs e key = read_pair_list (array_member key e)"

definition read_endpoint :: "json \<Rightarrow> json_error + api_endpoint option" where
  "read_endpoint e =
     bind_err (value_or ''oid'' (jvalue get_str ''uuid'' [] e) e) (\<lambda>oid.
     bind_err (jvalue get_str ''name'' [] e) (\<lambda>name.
     bind_err (jvalue get_str ''path'' [] e) (\<lambda>path.
     bind_err (readPairs e ''params'') (\<lambda>params.
     bind_err (jvalue get_str ''device_type'' ''ngfw'' e) (\<lambda>deviceType.
     bind_err (value_or ''subtype'' (if deviceType = ''sase'' then jvalue get_str ''product'' ''ztna'' e
         else jvalue get_str ''api_type'' [] e) e) (\<lambda>subtype.
       let ep = \<lparr>xe_oid = oid, xe_name = name, xe_path = path, xe_params = params, xe_vendor = VendorNgfw,
                 xe_subtype = SubRest, xe_host = [], xe_headers = []\<rparr>;
           accept = (\<lambda>ep. Inr (if oid = [] \<or> bad_path path then None else Some ep)) in
       if deviceType = ''sase'' then
         if subtype \<noteq> ''ztna'' then Inr None
         else
           bind_err (jvalue get_str ''host'' [] e) (\<lambda>host.
           bind_err (readPairs e ''headers'') (\<lambda>headers.
             if host = [] then Inr None
             else accept (ep\<lparr>xe_vendor := VendorSase, xe_subtype := SubZtna, xe_host := host, xe_headers := headers\<rparr>)))
       else
         let xml = (if subtype = [] then \<not> prefix ''/restapi/'' path else subtype = ''xml'') in
         accept (ep\<lparr>xe_subtype := (if xml then SubXml else SubRest)\<rparr>)))))))"

definition read_item :: "json \<Rightarrow> json_error + collection_item option" where
  "read_item i =
     bind_err (jvalue get_str ''endpoint'' [] i) (\<lambda>endpoint.
     bind_err (jvalue get_long ''poll_interval_sec'' 60 i) (\<lambda>interval.
     bind_err (jvalue get_bool ''enabled'' True i) (\<lambda>enabled.
       Inr (if endpoint = [] then None
         else Some \<lparr>ci_endpointOid = endpoint, ci_pollIntervalSec = (if interval < 1 then 60 else interval),
           ci_enabled = enabled\<rparr>))))"

definition read_connector :: "json \<Rightarrow> json_error + api_connector option" where
  "read_connector c =
     bind_err (value_or ''oid'' (jvalue get_str ''uuid'' [] c) c) (\<lambda>oid.
     bind_err (jvalue get_str ''name'' [] c) (\<lambda>name.
     bind_err (jvalue get_str ''object'' [] c) (\<lambda>objectOid.
     bind_err (jvalue get_str ''auth_profile'' [] c) (\<lambda>authProfileOid.
       if jcontains ''endpoint'' c \<or> jcontains ''params'' c then Inr None
       else case load_each read_item (array_member ''items'' c) of
         (Some e, items) \<Rightarrow> Inl e
       | (None, items) \<Rightarrow>
           Inr (if oid = [] \<or> objectOid = [] \<or> authProfileOid = [] then None
             else Some \<lparr>cn_oid = oid, cn_name = name, cn_objectOid = objectOid, cn_authProfileOid = authProfileOid,
               cn_items = items\<rparr>)))))"

definition load_into :: "json_error option \<times> 'a list \<Rightarrow> ('a list \<Rightarrow> collectord \<Rightarrow> collectord) \<Rightarrow> collectord \<Rightarrow> unit costep" where
  "load_into r add_all s = (case r of (e, xs) \<Rightarrow> (case e of None \<Rightarrow> Inr () | Some e \<Rightarrow> Inl e, add_all xs s))"

definition loadProfiles :: "json \<Rightarrow> collectord \<Rightarrow> unit costep" where
  "loadProfiles cfg = load_into (load_each read_profile (array_member ''api_credentials'' cfg))
     (\<lambda>xs s. s\<lparr>co_profiles := co_profiles s @ xs\<rparr>)"

definition loadEndpoints :: "json \<Rightarrow> collectord \<Rightarrow> unit costep" where
  "loadEndpoints cfg = load_into (load_each read_endpoint (array_member ''endpoints'' cfg))
     (\<lambda>xs s. s\<lparr>co_endpoints := co_endpoints s @ xs\<rparr>)"

definition loadConnectors :: "json \<Rightarrow> collectord \<Rightarrow> unit costep" where
  "loadConnectors cfg = load_into (load_each read_connector (array_member ''connectors'' cfg))
     (\<lambda>xs s. s\<lparr>co_connectors := co_connectors s @ xs\<rparr>)"

definition api_start :: "collect_env \<Rightarrow> collectord \<Rightarrow> unit costep" where
  "api_start env s =
     then_do (loadProfiles (ce_connector env) (s\<lparr>co_profiles := [], co_endpoints := [], co_connectors := []\<rparr>)) (\<lambda>_ s.
     then_do (loadEndpoints (ce_connector env) s) (\<lambda>_. loadConnectors (ce_connector env)))"

definition findEndpoint :: "string \<Rightarrow> collectord \<Rightarrow> api_endpoint option" where
  "findEndpoint oid s = find (\<lambda>e. xe_oid e = oid) (co_endpoints s)"

subsection \<open>Scheduled collection\<close>

definition kInitialDelay :: int where "kInitialDelay = 3"

text \<open>The devices of both kinds.\<close>

definition site_devices :: "json \<Rightarrow> json_error + (json list \<times> json list)" where
  "site_devices site =
     bind_err (jvalue get_json ''ngfw_devices'' (JArr []) site) (\<lambda>ngfw.
     map_sum id (\<lambda>sase. (jiterate ngfw, jiterate sase)) (jvalue get_json ''sase_devices'' (JArr []) site))"

fun find_device :: "string \<Rightarrow> json list \<Rightarrow> json_error + (string \<times> u16 \<times> string) option" where
  "find_device oid [] = Inr None"
| "find_device oid (d # ds) =
     (if \<not> is_object d then find_device oid ds
      else bind_err (jvalue get_str ''oid'' [] d) (\<lambda>doid.
        if doid \<noteq> oid then find_device oid ds
        else bind_err (jvalue get_str ''target'' [] d) (\<lambda>target.
          if target = [] then Inr None
          else map_sum id (\<lambda>fp. Some (fst (host_and_port target), snd (host_and_port target), fp))
            (jvalue get_str ''fingerprint'' [] d))))"

definition resolveDevice :: "json \<Rightarrow> string \<Rightarrow> json_error + (string \<times> u16 \<times> string) option" where
  "resolveDevice site objectOid = bind_err (site_devices site) (\<lambda>(ngfw, sase). find_device objectOid (ngfw @ sase))"

definition armJob :: "collect_env \<Rightarrow> job \<Rightarrow> int \<Rightarrow> collectord \<Rightarrow> collectord" where
  "armJob env j delay s = s\<lparr>co_timers := co_timers s @ [(j, ce_now env + 1000 * delay)]\<rparr>"

definition endpoint_path :: "api_endpoint \<Rightarrow> string" where
  "endpoint_path ep = fold (\<lambda>(name, v) path. if name = [] then path else add_query name v path) (xe_params ep) (xe_path ep)"

definition collectSaseOnce :: "collect_env \<Rightarrow> job \<Rightarrow> api_endpoint \<Rightarrow> string \<Rightarrow> collectord \<Rightarrow> collectord" where
  "collectSaseOnce env j ep token =
     requestAsync (sase_call (xe_host ep) (endpoint_path ep) token
       (filter (\<lambda>(name, _). \<not> (name = [] \<or> is_authorization name)) (xe_headers ep))) (OnResponse j (ce_now env))"

definition ngfw_call :: "api_endpoint \<Rightarrow> string \<times> u16 \<times> string \<Rightarrow> string \<Rightarrow> client_request" where
  "ngfw_call ep dev key =
     (case dev of (host, port, fingerprint) \<Rightarrow>
      let xml = (xe_subtype ep = SubXml); path = endpoint_path ep in
      client_request_new\<lparr>cq_host := host, cq_port := port, cq_expectedFingerprint := fingerprint, cq_timeoutMs := 10000,
        cq_headers := (if xml then [] else [(''X-PAN-KEY'', key)]),
        cq_target := (if xml then path @ query_sep path @ ''key='' @ urlEncode key else path)\<rparr>)"

definition collectOnce :: "collect_env \<Rightarrow> job \<Rightarrow> collectord \<Rightarrow> unit costep" where
  "collectOnce env j s =
     (let skip = (Inr (), armJob env j (jb_interval j) s) in
      case findEndpoint (jb_endpointOid j) s of None \<Rightarrow> skip
      | Some ep \<Rightarrow>
          let key = issuedKey (jb_authProfileOid j) s in
          if key = [] then skip
          else if xe_vendor ep = VendorSase then (Inr (), collectSaseOnce env j ep key s)
          else
            read_then (resolveDevice (ce_site env) (jb_objectOid j)) s (\<lambda>dev.
              case dev of None \<Rightarrow> skip
              | Some dev \<Rightarrow> (Inr (), requestAsync (ngfw_call ep dev key) (OnResponse j (ce_now env)) s)))"

definition onResponse :: "collect_env \<Rightarrow> job \<Rightarrow> int \<Rightarrow> client_response \<Rightarrow> collectord \<Rightarrow> unit costep" where
  "onResponse env j startedAt res s =
     then_do (send_doc env DEngined CmdApiCollectionSample 0 FlagRequest
         (buildCollectionSample (jb_connectorOid j) (jb_endpointOid j) res (ce_now env - startedAt) kMaxSampleBody) s)
       (\<lambda>_ s. (Inr (), armJob env j (jb_interval j) s))"

text \<open>One job for every enabled item of every connector.\<close>

definition jobs_of :: "api_connector \<Rightarrow> job list" where
  "jobs_of conn = map (\<lambda>item. \<lparr>jb_connectorOid = cn_oid conn, jb_endpointOid = ci_endpointOid item,
       jb_authProfileOid = cn_authProfileOid conn, jb_objectOid = cn_objectOid conn,
       jb_interval = (if ci_pollIntervalSec item < 1 then 60 else ci_pollIntervalSec item)\<rparr>)
     (filter ci_enabled (cn_items conn))"

definition collector_start :: "collect_env \<Rightarrow> collectord \<Rightarrow> collectord" where
  "collector_start env s =
     fold (\<lambda>j. armJob env j (min kInitialDelay (jb_interval j))) (concat (map jobs_of (co_connectors s))) s"

subsection \<open>The caches of keys and credentials\<close>

fun cache_each :: "collect_env \<Rightarrow> json list \<Rightarrow> (string \<times> string) list \<times> (string \<times> string \<times> string) list \<Rightarrow>
    json_error + (string \<times> string) list \<times> (string \<times> string \<times> string) list" where
  "cache_each env [] caches = Inr caches"
| "cache_each env (k # ks) (plains, creds) =
     (if \<not> is_object k then cache_each env ks (plains, creds)
      else bind_err (jvalue get_str ''oid'' [] k) (\<lambda>oid.
        if oid = [] then cache_each env ks (plains, creds)
        else
          bind_err (jvalue get_str ''key_enc'' [] k) (\<lambda>sealed.
          bind_err (jvalue get_str ''id_enc'' [] k) (\<lambda>idEnc.
          bind_err (jvalue get_str ''pw_enc'' [] k) (\<lambda>pwEnc.
            let plains = (if sealed = [] then plains
                  else case ce_decrypt env sealed of None \<Rightarrow> plains | Some plain \<Rightarrow> plains @ [(oid, plain)]);
                creds = (if idEnc = [] \<or> pwEnc = [] then creds
                  else case (ce_decrypt env idEnc, ce_decrypt env pwEnc) of
                    (Some ident, Some pw) \<Rightarrow> creds @ [(oid, ident, pw)] | _ \<Rightarrow> creds) in
            cache_each env ks (plains, creds))))))"

text \<open>The entry made first stays when an identifier comes twice. An exception leaves the caches as they were.\<close>

definition cacheKeys :: "collect_env \<Rightarrow> json \<Rightarrow> collectord \<Rightarrow> unit costep" where
  "cacheKeys env payload s =
     read_then (jvalue get_json ''keys'' (JArr []) payload) s (\<lambda>keys.
       if \<not> is_array keys then (Inr (), s)
       else read_then (cache_each env (jitems keys) ([], [])) s (\<lambda>(plains, creds).
         (Inr (), s\<lparr>co_issuedKeys := plains, co_credentials := creds\<rparr>)))"

definition requestKeys :: "collectord \<Rightarrow> collectord" where
  "requestKeys = co_send (mk_message DCollectord DEngined CmdApiCredentialStateRequest 0 (toFlag FlagRequest) [])"

subsection \<open>Re-issuing credentials\<close>

fun refresh_target :: "string \<Rightarrow> (string \<times> json) list \<Rightarrow> json_error + string \<times> string \<times> string" where
  "refresh_target device [] = Inr ([], ''ngfw'', [])"
| "refresh_target device ((kind, d) # ds) =
     (if \<not> is_object d then refresh_target device ds
      else bind_err (legacy_oid d) (\<lambda>doid.
        if doid \<noteq> device then refresh_target device ds
        else bind_err (jvalue get_str ''target'' [] d) (\<lambda>target.
          map_sum id (\<lambda>fp. (target, kind, fp)) (jvalue get_str ''fingerprint'' [] d))))"

definition refresh_interval :: "auth_profile \<Rightarrow> int" where
  "refresh_interval p = 60000 * (if pf_refreshIntervalMin p > 0 then pf_refreshIntervalMin p else 60)"

definition refresh_input :: "auth_profile \<Rightarrow> string \<Rightarrow> string \<Rightarrow> string \<Rightarrow> string \<times> string \<Rightarrow> json" where
  "refresh_input p deviceType target fingerprint cred =
     JObj [(''oid'', JStr (pf_oid p)), (''mode'', JStr ''keygen''), (''device_type'', JStr deviceType), (''target'', JStr target),
       (''fingerprint'', JStr fingerprint), (''endpoint'', JStr (pf_endpoint p)),
       (''secrets'', JObj [(''username'', JStr (fst cred)), (''password'', JStr (snd cred))])]"

definition refresh_one :: "collect_env \<Rightarrow> (string \<times> json) list \<Rightarrow> auth_profile \<Rightarrow> collectord \<Rightarrow> unit costep" where
  "refresh_one env devices p s =
     (if pf_refreshMode p \<noteq> ''auto'' then (Inr (), s)
      else if (case map_of (co_lastRefresh s) (pf_oid p) of None \<Rightarrow> False | Some before \<Rightarrow> ce_now env - before < refresh_interval p)
      then (Inr (), s)
      else case credentialFor (pf_oid p) s of None \<Rightarrow> (Inr (), s)
        | Some cred \<Rightarrow>
            read_then (refresh_target (pf_device p) devices) s (\<lambda>(target, deviceType, fingerprint).
              let s = s\<lparr>co_lastRefresh := AList.update (pf_oid p) (ce_now env) (co_lastRefresh s)\<rparr> in
              if target = [] then (Inr (), s)
              else runKeygenTest env 0 (refresh_input p deviceType target fingerprint cred) s))"

fun refresh_each :: "collect_env \<Rightarrow> (string \<times> json) list \<Rightarrow> auth_profile list \<Rightarrow> collectord \<Rightarrow> unit costep" where
  "refresh_each env devices [] s = (Inr (), s)"
| "refresh_each env devices (p # ps) s = then_do (refresh_one env devices p s) (\<lambda>_. refresh_each env devices ps)"

definition autoRefreshTick :: "collect_env \<Rightarrow> collectord \<Rightarrow> unit costep" where
  "autoRefreshTick env s =
     read_then (site_devices (ce_site env)) s (\<lambda>(ngfw, sase).
       refresh_each env (map (Pair ''ngfw'') ngfw @ map (Pair ''sase'') sase) (co_profiles s) s)"

subsection \<open>The events\<close>

datatype api_event_type =
    RunKeygenTest | RunEndpointTest | RunSaseTest | ReceiveKeyState | RunTlsProbe | StoreSaseKey | StoreCredential
  | Setup | RunPeriodic

datatype api_event = ApiEvent api_event_type "ipc_message option"

text \<open>The commands of the wire that become events of this service (\<^verbatim>\<open>CollectordEventFactory.cpp\<close>).\<close>

definition api_event_of :: "ipc_message \<Rightarrow> api_event option" where
  "api_event_of msg = map_option (\<lambda>ty. ApiEvent ty (Some msg)) (case msg_cmd msg of
       CmdApiKeygenRequest \<Rightarrow> Some RunKeygenTest
     | CmdApiEndpointTestRequest \<Rightarrow> Some RunEndpointTest
     | CmdApiSaseTestRequest \<Rightarrow> Some RunSaseTest
     | CmdApiTlsProbeRequest \<Rightarrow> Some RunTlsProbe
     | CmdApiSaseKeyStoreRequest \<Rightarrow> Some StoreSaseKey
     | CmdApiCredentialStoreRequest \<Rightarrow> Some StoreCredential
     | CmdApiCredentialStateResponse \<Rightarrow> Some ReceiveKeyState
     | _ \<Rightarrow> None)"

definition decodeTest :: "collect_env \<Rightarrow> ipc_message option \<Rightarrow> (u32 \<times> json) option" where
  "decodeTest env m = (case m of None \<Rightarrow> None
     | Some msg \<Rightarrow> if msg_payload msg = [] then None
         else map_option (Pair (msg_seqNo msg)) (ce_parse env (string_of_bytes (msg_payload msg))))"

definition handleKeyState :: "collect_env \<Rightarrow> ipc_message option \<Rightarrow> collectord \<Rightarrow> collectord" where
  "handleKeyState env m s = (case decodeTest env m of None \<Rightarrow> s | Some (_, j) \<Rightarrow> snd (cacheKeys env j s))"

definition handleSetup :: "collect_env \<Rightarrow> collectord \<Rightarrow> collectord" where
  "handleSetup env s = collector_start env (s\<lparr>co_keyRequests := Suc (co_keyRequests s)\<rparr>)"

definition handleRunPeriodic :: "collect_env \<Rightarrow> collectord \<Rightarrow> unit costep" where
  "handleRunPeriodic env s = then_do (status_tick env s) (\<lambda>_. autoRefreshTick env)"

definition runEndpointTest :: "collect_env \<Rightarrow> u32 \<Rightarrow> json \<Rightarrow> collectord \<Rightarrow> unit costep" where
  "runEndpointTest env seqNo input s =
     read_then (jvalue get_str ''device_type'' ''ngfw'' input) s (\<lambda>deviceType.
       if deviceType = ''sase'' then sase_runEndpointTest env seqNo input s else ngfw_runEndpointTest env seqNo input s)"

fun test_handler :: "api_event_type \<Rightarrow> (collect_env \<Rightarrow> u32 \<Rightarrow> json \<Rightarrow> collectord \<Rightarrow> unit costep) option" where
  "test_handler RunKeygenTest = Some runKeygenTest"
| "test_handler RunEndpointTest = Some runEndpointTest"
| "test_handler RunSaseTest = Some runSaseTest"
| "test_handler RunTlsProbe = Some runTlsProbe"
| "test_handler StoreSaseKey = Some storeApiKey"
| "test_handler StoreCredential = Some storeCredential"
| "test_handler _ = None"

fun api_route :: "collect_env \<Rightarrow> api_event \<Rightarrow> collectord \<Rightarrow> unit costep" where
  "api_route env (ApiEvent ReceiveKeyState m) s = (Inr (), handleKeyState env m s)"
| "api_route env (ApiEvent Setup m) s = (Inr (), handleSetup env s)"
| "api_route env (ApiEvent RunPeriodic m) s = handleRunPeriodic env s"
| "api_route env (ApiEvent ty m) s = (case (test_handler ty, decodeTest env m) of
       (Some run, Some (seqNo, input)) \<Rightarrow> run env seqNo input s
     | _ \<Rightarrow> (Inr (), s))"

text \<open>The event the main loop injects in a tick.\<close>

definition api_schedule :: "collect_env \<Rightarrow> collectord \<Rightarrow> api_event option \<times> collectord" where
  "api_schedule env s =
     (if \<not> co_setupDone s then (Some (ApiEvent Setup None), s\<lparr>co_setupDone := True\<rparr>)
      else if co_lastPeriodicAt s = 0 \<or> ce_now env - co_lastPeriodicAt s \<ge> 1000
      then (Some (ApiEvent RunPeriodic None), s\<lparr>co_lastPeriodicAt := ce_now env\<rparr>)
      else (None, s))"

fun complete :: "collect_env \<Rightarrow> continuation \<Rightarrow> client_response \<Rightarrow> collectord \<Rightarrow> unit costep" where
  "complete env (OnKeygen ctx) = onKeygen env ctx"
| "complete env (OnSaseResponse ctx) = onSaseResponse env ctx"
| "complete env (OnTlsProbe ctx) = onTlsProbe env ctx"
| "complete env (OnEndpointResponse ctx) = onEndpointResponse env ctx"
| "complete env (OnKeygenForEndpoint ctx) = onKeygenForEndpoint env ctx"
| "complete env (OnSaseEndpointResponse ctx) = onSaseEndpointResponse env ctx"
| "complete env (OnTokenForEndpoint ctx) = onTokenForEndpoint env ctx"
| "complete env (OnSaseTest ctx oid apiKey typed) = onSaseTest env ctx oid apiKey typed"
| "complete env (OnResponse j startedAt) = onResponse env j startedAt"
| "complete env (OnStatus target) = onStatus env target"

datatype collect_event =
    FromWire ipc_message | Tick | KeyAction | CallDone nat client_response | TimerDone nat

text \<open>One step of the daemon's loop: a message of the wire, the scheduled event of a tick, the queued action, the completion of
  a call, a timer that has run off.\<close>

fun collect_step :: "collect_env \<Rightarrow> collect_event \<Rightarrow> collectord \<Rightarrow> unit costep" where
  "collect_step env (FromWire msg) s = (case api_event_of msg of None \<Rightarrow> (Inr (), s) | Some ev \<Rightarrow> api_route env ev s)"
| "collect_step env Tick s = (case api_schedule env s of
       (None, s) \<Rightarrow> (Inr (), s) | (Some ev, s) \<Rightarrow> api_route env ev s)"
| "collect_step env KeyAction s =
     (Inr (), if co_keyRequests s = 0 then s else requestKeys (s\<lparr>co_keyRequests := co_keyRequests s - 1\<rparr>))"
| "collect_step env (CallDone i res) s =
     (if i < length (co_calls s)
      then complete env (snd (co_calls s ! i)) res (s\<lparr>co_calls := take i (co_calls s) @ drop (Suc i) (co_calls s)\<rparr>)
      else (Inr (), s))"
| "collect_step env (TimerDone i) s =
     (if i < length (co_timers s) \<and> snd (co_timers s ! i) \<le> ce_now env
      then collectOnce env (fst (co_timers s ! i)) (s\<lparr>co_timers := take i (co_timers s) @ drop (Suc i) (co_timers s)\<rparr>)
      else (Inr (), s))"

text \<open>A run that no exception ended.\<close>

inductive collects :: "collect_env \<Rightarrow> (collect_env \<times> collect_event) list \<Rightarrow> collectord \<Rightarrow> bool" for env0 where
  collects_start: "api_start env0 collectord_new = (Inr (), s) \<Longrightarrow> collects env0 [] s"
| collects_step: "collects env0 evs s \<Longrightarrow> collect_step env ev s = (Inr (), s') \<Longrightarrow> collects env0 (evs @ [(env, ev)]) s'"

end
