(* ===== verification/Collect_Run.thy ===== *)
theory Collect_Run
  imports Collect_Service
begin

text \<open>
  What holds in every run of the collector. The numbers of the tests on which somebody waits are counted:
  those in the answers sent, and those in the completion handlers of the calls in flight; likewise the
  jobs, in the timers and in the calls. Every operation is one of \<open>settles\<close>: it adds at most the one number
  or job it was given, and nothing when an exception ends it.
\<close>

subsection \<open>Counting\<close>

fun ticket :: "continuation \<Rightarrow> u32" where
  "ticket (OnKeygen ctx) = ct_seqNo ctx"
| "ticket (OnSaseResponse ctx) = ct_seqNo ctx"
| "ticket (OnTlsProbe ctx) = ct_seqNo ctx"
| "ticket (OnEndpointResponse ctx) = ct_seqNo ctx"
| "ticket (OnKeygenForEndpoint ctx) = ct_seqNo ctx"
| "ticket (OnSaseEndpointResponse ctx) = ct_seqNo ctx"
| "ticket (OnTokenForEndpoint ctx) = ct_seqNo ctx"
| "ticket (OnSaseTest ctx oid apiKey typed) = ct_seqNo ctx"
| "ticket (OnResponse j startedAt) = 0"
| "ticket (OnStatus target) = 0"

fun polled :: "continuation \<Rightarrow> job option" where
  "polled (OnResponse j startedAt) = Some j"
| "polled _ = None"

definition is_answer :: "u32 \<Rightarrow> ipc_message \<Rightarrow> bool" where
  "is_answer n m \<longleftrightarrow> msg_cmd m = CmdApiConnectorTestResponse \<and> msg_seqNo m = n"

definition answered :: "u32 \<Rightarrow> collectord \<Rightarrow> nat" where
  "answered n s = length (filter (is_answer n) (co_tx s))"

definition waiting :: "u32 \<Rightarrow> collectord \<Rightarrow> nat" where
  "waiting n s = length (filter (\<lambda>(_, k). ticket k = n) (co_calls s))"

definition polls :: "job \<Rightarrow> collectord \<Rightarrow> nat" where
  "polls j s = length (filter (\<lambda>(j', _). j' = j) (co_timers s)) + length (filter (\<lambda>(_, k). polled k = Some j) (co_calls s))"

definition adds :: "u32 \<Rightarrow> job option \<Rightarrow> collectord \<Rightarrow> collectord \<Rightarrow> bool" where
  "adds m jo s s' \<longleftrightarrow>
     (\<forall>n. n \<noteq> 0 \<longrightarrow> answered n s' + waiting n s' = answered n s + waiting n s + of_bool (n = m)) \<and>
     (\<forall>j. polls j s' = polls j s + of_bool (jo = Some j)) \<and>
     co_connectors s' = co_connectors s \<and> co_setupDone s' = co_setupDone s"

definition settles :: "u32 \<Rightarrow> job option \<Rightarrow> collectord \<Rightarrow> 'a costep \<Rightarrow> bool" where
  "settles m jo s r \<longleftrightarrow> (case fst r of Inl e \<Rightarrow> adds 0 None s (snd r) | Inr x \<Rightarrow> adds m jo s (snd r))"

lemmas counts = answered_def waiting_def polls_def

lemma adds_refl [simp]: "adds 0 None s s" by (simp add: adds_def)

lemma adds_trans: "adds 0 None s s' \<Longrightarrow> adds m jo s' s'' \<Longrightarrow> adds m jo s s''"
  by (auto simp: adds_def)

text \<open>What does not touch the counted fields.\<close>

lemma adds_other:
  assumes "adds m jo s s'" "co_tx t = co_tx s'" "co_calls t = co_calls s'" "co_timers t = co_timers s'"
    "co_connectors t = co_connectors s'" "co_setupDone t = co_setupDone s'"
  shows "adds m jo s t"
  using assms by (simp add: adds_def counts)

lemma settles_simps [simp]:
  "settles m jo s (Inl e, s') \<longleftrightarrow> adds 0 None s s'"
  "settles m jo s (Inr x, s') \<longleftrightarrow> adds m jo s s'"
  by (simp_all add: settles_def)

lemma settles_from: "adds 0 None s s' \<Longrightarrow> settles m jo s' r \<Longrightarrow> settles m jo s r"
  by (auto simp: settles_def intro: adds_trans split: sum.splits)

lemma settles_other:
  assumes "settles m jo s r" "co_tx t = co_tx s" "co_calls t = co_calls s" "co_timers t = co_timers s"
    "co_connectors t = co_connectors s" "co_setupDone t = co_setupDone s"
  shows "settles m jo t r"
  using assms by (simp add: settles_def adds_def counts split: sum.splits)

lemma settles_read_then:
  "adds 0 None s s' \<Longrightarrow> (\<And>x. r = Inr x \<Longrightarrow> settles m jo s (f x)) \<Longrightarrow> settles m jo s (read_then r s' f)"
  by (cases r) auto

lemma read_then_Inr_iff: "read_then r s f = (Inr y, s') \<longleftrightarrow> (\<exists>x. r = Inr x \<and> f x = (Inr y, s'))"
  by (cases r) auto

lemma settles_then_do:
  assumes "settles 0 None s r" "\<And>x s'. r = (Inr x, s') \<Longrightarrow> settles m jo s' (f x s')"
  shows "settles m jo s (then_do r f)"
  using assms by (cases r; cases "fst r") (auto intro: settles_from)

lemma adds_requestAsync: "adds (ticket k) (polled k) s (requestAsync req k s)"
  by (simp add: adds_def counts requestAsync_def)

lemma adds_call [simp]: "ticket k = m \<Longrightarrow> polled k = jo \<Longrightarrow> adds m jo s (requestAsync req k s)"
  using adds_requestAsync by blast

lemma adds_armJob [simp]: "adds 0 (Some j) s (armJob env j delay s)"
  by (simp add: adds_def counts armJob_def)

lemma settles_send_doc [simp]:
  "cmd \<noteq> CmdApiConnectorTestResponse \<Longrightarrow> settles 0 None s (send_doc env dst cmd seqNo flag j s)"
  by (auto simp: send_doc_def co_send_def adds_def counts is_answer_def split: sum.split)

lemma settles_answer [simp]: "settles m None s (sendTestResponse env m out s)"
  by (auto simp: sendTestResponse_def send_doc_def co_send_def adds_def counts is_answer_def split: sum.split)

lemma settles_rejectTest [simp]: "ct_seqNo ctx = m \<Longrightarrow> settles m None s (rejectTest env ctx message s)"
  by (auto simp: rejectTest_def)

lemma settles_start_or_answer:
  "settles m None s r \<Longrightarrow> settles m None s (start_or_answer env what m r)"
  by (cases r; cases "fst r") (auto simp: start_or_answer_def intro: settles_from)

lemma settles_answer_stored:
  "settles 0 None s r \<Longrightarrow> settles m None s (answer_stored env m what r)"
  by (cases r; cases "fst r") (auto simp: answer_stored_def intro: settles_from)

text \<open>The number of a test stays while its document is written.\<close>

lemma seqNo_kept [simp]:
  "ct_seqNo (out_put k v ctx) = ct_seqNo ctx" "ct_seqNo (out_step k v ctx) = ct_seqNo ctx"
  "ct_seqNo (connector_test_new m input) = m"
  by (simp_all add: out_put_def out_step_def connector_test_new_def)

lemma seqNo_tls: "recordTlsStep r hadPin ctx = (b, ctx') \<Longrightarrow> ct_seqNo ctx' = ct_seqNo ctx"
  by (auto simp: recordTlsStep_def Let_def split: if_splits)

lemma seqNo_key: "readKeygenKey r hadPin ctx = (key, ctx') \<Longrightarrow> ct_seqNo ctx' = ct_seqNo ctx"
  by (auto simp: readKeygenKey_def Let_def dest!: seqNo_tls split: prod.splits bool.splits if_splits)

text \<open>Taking something away first, and adding it again.\<close>

lemma adds_back:
  assumes "adds m jo t s" "adds m jo t s'" shows "adds 0 None s s'"
  using assms by (auto simp: adds_def)

subsection \<open>The tests\<close>

lemma settles_credential_state [simp]: "settles 0 None s (sendApiCredentialState env oid i p key e ok note s)"
  by (simp add: sendApiCredentialState_def)

lemma settles_credential_store [simp]: "settles 0 None s (sendApiCredentialStore env oid i p s)"
  by (auto simp: sendApiCredentialStore_def intro!: settles_then_do split: option.split)

lemma settles_seal_api_key [simp]: "settles 0 None s (sealAndStoreApiKey env oid key s)"
  by (auto simp: sealAndStoreApiKey_def intro!: settles_then_do split: option.split)

lemma adds_rememberCredential [simp]: "adds 0 None s (rememberCredential oid i p s)"
  by (rule adds_other [OF adds_refl]) (simp_all add: rememberCredential_def)

lemma settles_remembered_answer [simp]:
  "settles m None s (sendTestResponse env m out (rememberIssuedKey oid key s))"
proof -
  have "adds 0 None s (rememberIssuedKey oid key s)"
    by (rule adds_other [OF adds_refl]) (simp_all add: rememberIssuedKey_def)
  then show ?thesis by (rule settles_from [OF _ settles_answer])
qed

lemma settles_finishKeygen: "ct_seqNo ctx = m \<Longrightarrow> settles m None s (finishKeygen env ctx key s)"
  by (auto simp: finishKeygen_def Let_def intro!: settles_read_then settles_then_do)

lemma settles_onKeygen: "settles (ct_seqNo ctx) None s (onKeygen env ctx res s)"
  by (auto simp: onKeygen_def intro!: settles_finishKeygen dest: seqNo_key split: prod.split)

lemma settles_onSaseResponse: "settles (ct_seqNo ctx) None s (onSaseResponse env ctx res s)"
  by (auto simp: onSaseResponse_def Let_def intro!: settles_read_then settles_finishKeygen)

lemma settles_onTlsProbe: "settles (ct_seqNo ctx) None s (onTlsProbe env ctx res s)"
  by (auto simp: onTlsProbe_def Let_def dest!: seqNo_tls intro!: settles_read_then split: prod.split)

lemma settles_runKeygenTest: "settles m None s (runKeygenTest env m input s)"
  by (auto simp: runKeygenTest_def runSaseToken_def Let_def
      intro!: settles_start_or_answer settles_read_then settles_finishKeygen)

lemma settles_storeCredential: "settles m None s (storeCredential env m input s)"
  by (auto simp: storeCredential_def intro!: settles_answer_stored settles_read_then settles_then_do)

lemma settles_runTlsProbe: "settles m None s (runTlsProbe env m input s)"
  by (auto simp: runTlsProbe_def Let_def intro!: settles_start_or_answer settles_read_then)

lemma settles_not_sent [simp]: "ct_seqNo ctx = m \<Longrightarrow> settles m None s (endpoint_not_sent env ctx res s)"
  by (auto simp: endpoint_not_sent_def Let_def)

lemma settles_onEndpointResponse: "settles (ct_seqNo ctx) None s (onEndpointResponse env ctx res s)"
  by (auto simp: onEndpointResponse_def Let_def intro!: settles_read_then)

lemma settles_callEndpoint: "ct_seqNo ctx = m \<Longrightarrow> settles m None s (callEndpoint env ctx key s)"
  by (auto simp: callEndpoint_def Let_def intro!: settles_read_then)

lemma settles_onKeygenForEndpoint: "settles (ct_seqNo ctx) None s (onKeygenForEndpoint env ctx res s)"
  by (auto simp: onKeygenForEndpoint_def dest!: seqNo_key intro!: settles_callEndpoint split: prod.split)

lemma settles_ngfw_test: "settles m None s (ngfw_runEndpointTest env m input s)"
  by (auto simp: ngfw_runEndpointTest_def Let_def intro!: settles_start_or_answer settles_read_then settles_callEndpoint)

lemma settles_onSaseEndpointResponse: "settles (ct_seqNo ctx) None s (onSaseEndpointResponse env ctx res s)"
  by (auto simp: onSaseEndpointResponse_def Let_def)

lemma settles_callSaseEndpoint: "ct_seqNo ctx = m \<Longrightarrow> settles m None s (callSaseEndpoint env ctx token s)"
  by (auto simp: callSaseEndpoint_def Let_def intro!: settles_read_then)

lemma settles_onTokenForEndpoint: "settles (ct_seqNo ctx) None s (onTokenForEndpoint env ctx res s)"
  by (auto simp: onTokenForEndpoint_def Let_def intro!: settles_callSaseEndpoint)

lemma settles_sase_test: "settles m None s (sase_runEndpointTest env m input s)"
  by (auto simp: sase_runEndpointTest_def Let_def intro!: settles_start_or_answer settles_read_then settles_callSaseEndpoint)

lemma settles_runEndpointTest: "settles m None s (runEndpointTest env m input s)"
  by (auto simp: runEndpointTest_def intro!: settles_read_then settles_ngfw_test settles_sase_test)

lemma settles_runSaseTest: "settles m None s (runSaseTest env m input s)"
  by (auto simp: runSaseTest_def Let_def intro!: settles_start_or_answer settles_read_then split: prod.split)

lemma settles_onSaseTest: "settles (ct_seqNo ctx) None s (onSaseTest env ctx oid key typed res s)"
  by (auto simp: onSaseTest_def Let_def intro!: settles_read_then settles_then_do split: option.split)

lemma settles_storeApiKey: "settles m None s (storeApiKey env m input s)"
  by (auto simp: storeApiKey_def intro!: settles_answer_stored settles_read_then settles_then_do)

lemmas settles_tests = settles_runKeygenTest settles_runEndpointTest settles_runSaseTest settles_runTlsProbe
  settles_storeApiKey settles_storeCredential

subsection \<open>The periodic work and the jobs\<close>

lemma adds_set_status [simp]: "adds m jo s (set_status f t) \<longleftrightarrow> adds m jo s t"
  by (simp add: adds_def counts set_status_def)

lemma adds_call_set_status [simp]:
  "ticket k = m \<Longrightarrow> polled k = jo \<Longrightarrow> adds m jo s (requestAsync req k (set_status f s))"
  by (auto simp: adds_def counts set_status_def requestAsync_def)

lemma settles_onStatus: "settles 0 None s (onStatus env target res s)"
  by (auto simp: onStatus_def Let_def intro!: settles_read_then split: option.split)

lemma settles_probe_device: "settles 0 None s (probe_device env d s)"
  by (auto simp: probe_device_def Let_def intro!: settles_read_then)

lemma settles_probe_devices: "settles 0 None s (probe_devices env ds s)"
  by (induction ds arbitrary: s) (auto intro!: settles_then_do settles_probe_device)

lemma settles_status_tick: "settles 0 None s (status_tick env s)"
proof -
  let ?s = "set_status (\<lambda>st. st\<lparr>st_lastRun := ce_now env\<rparr>) s"
  have "settles 0 None ?s (then_do (send_doc env DEngined CmdSaseHealthResult 0 FlagResponse (health_report (co_status ?s)) ?s)
      (\<lambda>_ s. read_then (jvalue get_json ''sase_devices'' (JArr []) (ce_site env)) s (\<lambda>devices.
            probe_devices env (jiterate devices) s)))"
    by (auto intro!: settles_then_do settles_read_then settles_probe_devices)
  from settles_from [OF _ this, of s] show ?thesis by (simp add: status_tick_def Let_def)
qed

lemma settles_refresh_one: "settles 0 None s (refresh_one env devices p s)"
proof -
  have marked: "adds 0 None s (s\<lparr>co_lastRefresh := xs\<rparr>)" for xs by (rule adds_other [OF adds_refl]) simp_all
  show ?thesis
    by (auto simp: refresh_one_def Let_def marked
        intro!: settles_read_then settles_from [OF marked settles_runKeygenTest] split: option.split)
qed

lemma settles_refresh_each: "settles 0 None s (refresh_each env devices ps s)"
  by (induction ps arbitrary: s) (auto intro!: settles_then_do settles_refresh_one)

lemma settles_autoRefreshTick: "settles 0 None s (autoRefreshTick env s)"
  by (auto simp: autoRefreshTick_def intro!: settles_read_then settles_refresh_each)

lemma settles_handleRunPeriodic: "settles 0 None s (handleRunPeriodic env s)"
  by (auto simp: handleRunPeriodic_def intro!: settles_then_do settles_status_tick settles_autoRefreshTick)

lemma settles_collectOnce: "settles 0 (Some j) s (collectOnce env j s)"
  by (auto simp: collectOnce_def collectSaseOnce_def Let_def intro!: settles_read_then split: option.split)

lemma settles_onResponse: "settles 0 (Some j) s (onResponse env j startedAt res s)"
  by (auto simp: onResponse_def intro!: settles_then_do)

lemma adds_handleKeyState: "adds 0 None s (handleKeyState env m s)"
proof -
  have "adds 0 None s (snd (cacheKeys env j s))" for j
    by (auto simp: cacheKeys_def read_then_def adds_def counts split: sum.split prod.split)
  then show ?thesis by (auto simp: handleKeyState_def split: option.split prod.split)
qed

lemma settles_complete: "settles (ticket k) (polled k) s (complete env k res s)"
  by (cases k) (auto intro: settles_onKeygen settles_onSaseResponse settles_onTlsProbe settles_onEndpointResponse
    settles_onKeygenForEndpoint settles_onSaseEndpointResponse settles_onTokenForEndpoint settles_onSaseTest
    settles_onResponse settles_onStatus)

subsection \<open>The runs\<close>

definition configured :: "collectord \<Rightarrow> job list" where
  "configured s = concat (map jobs_of (co_connectors s))"

text \<open>What the step of an event adds; \<open>test_of\<close> is the number of a test the event starts.\<close>

definition test_of :: "collect_env \<Rightarrow> collect_event \<Rightarrow> u32 option" where
  "test_of env ev = (case ev of
     FromWire msg \<Rightarrow> (case api_event_of msg of None \<Rightarrow> None
       | Some (ApiEvent ty m) \<Rightarrow> if test_handler ty = None then None else map_option fst (decodeTest env m))
   | _ \<Rightarrow> None)"

definition number_of :: "collect_env \<Rightarrow> collect_event \<Rightarrow> u32" where
  "number_of env ev = (case test_of env ev of None \<Rightarrow> 0 | Some n \<Rightarrow> n)"

lemma settles_api_route:
  assumes "ty \<noteq> Setup"
  shows "settles (case test_handler ty of None \<Rightarrow> 0 | Some run \<Rightarrow> (case decodeTest env m of None \<Rightarrow> 0 | Some (n, j) \<Rightarrow> n)) None s
    (api_route env (ApiEvent ty m) s)"
  using assms
  by (cases ty) (auto intro: settles_tests settles_handleRunPeriodic adds_handleKeyState split: option.split prod.split)

lemma settles_FromWire: "settles (number_of env (FromWire msg)) None s (collect_step env (FromWire msg) s)"
proof (cases "api_event_of msg")
  case None then show ?thesis by (simp add: number_of_def test_of_def)
next
  case (Some ev)
  then obtain ty m where ev: "ev = ApiEvent ty m" and ty: "ty \<noteq> Setup"
    by (cases ev) (auto simp: api_event_of_def split: ipc_cmd.splits)
  show ?thesis using Some settles_api_route [OF ty, of env m s]
    by (auto simp: ev number_of_def test_of_def split: option.splits)
qed

text \<open>Taking an element out of a list.\<close>

lemma length_filter_take_out:
  "i < length xs \<Longrightarrow> length (filter P xs) = length (filter P (take i xs @ drop (Suc i) xs)) + of_bool (P (xs ! i))"
  by (subst id_take_nth_drop [of i xs]) auto

lemma settles_result: "settles m jo s r \<Longrightarrow> r = (Inr x, s') \<Longrightarrow> adds m jo s s'"
  by simp

lemma CallDone_adds:
  assumes "collect_step env (CallDone i res) s = (Inr (), s')"
  shows "adds 0 None s s'"
proof (cases "i < length (co_calls s)")
  case True
  let ?k = "snd (co_calls s ! i)" and ?s = "s\<lparr>co_calls := take i (co_calls s) @ drop (Suc i) (co_calls s)\<rparr>"
  have out: "adds (ticket ?k) (polled ?k) ?s s"
    using length_filter_take_out [OF True] by (auto simp: adds_def counts case_prod_beta)
  have "complete env ?k res ?s = (Inr (), s')" using assms True by simp
  then show ?thesis by (rule adds_back [OF out settles_result [OF settles_complete]])
qed (use assms in auto)

lemma TimerDone_adds:
  assumes "collect_step env (TimerDone i) s = (Inr (), s')"
  shows "adds 0 None s s'"
proof (cases "i < length (co_timers s) \<and> snd (co_timers s ! i) \<le> ce_now env")
  case True
  let ?j = "fst (co_timers s ! i)" and ?s = "s\<lparr>co_timers := take i (co_timers s) @ drop (Suc i) (co_timers s)\<rparr>"
  have out: "adds 0 (Some ?j) ?s s"
    using length_filter_take_out [of i "co_timers s"] True by (auto simp: adds_def counts case_prod_beta)
  have "collectOnce env ?j ?s = (Inr (), s')" using assms True by simp
  then show ?thesis by (rule adds_back [OF out settles_result [OF settles_collectOnce]])
qed (use assms in auto)

lemma KeyAction_adds: "collect_step env KeyAction s = (Inr (), s') \<Longrightarrow> adds 0 None s s'"
  by (auto simp: requestKeys_def co_send_def adds_def counts is_answer_def split: if_splits)

lemma start_jobs:
  "answered n (fold (\<lambda>j. armJob env j (d j)) js s) = answered n s"
  "waiting n (fold (\<lambda>j. armJob env j (d j)) js s) = waiting n s"
  "polls j (fold (\<lambda>j. armJob env j (d j)) js s) = polls j s + length (filter (\<lambda>j'. j' = j) js)"
  "co_connectors (fold (\<lambda>j. armJob env j (d j)) js s) = co_connectors s"
  "co_setupDone (fold (\<lambda>j. armJob env j (d j)) js s) = co_setupDone s"
  by (induction js arbitrary: s) (simp_all add: armJob_def counts)

text \<open>A tick is the one-time setup, the periodic work, or nothing.\<close>

lemma Tick_effect:
  assumes "collect_step env Tick s = (Inr (), s')"
  shows "co_setupDone s' \<and> co_connectors s' = co_connectors s \<and>
    (\<forall>n. n \<noteq> 0 \<longrightarrow> answered n s' + waiting n s' = answered n s + waiting n s) \<and>
    (\<forall>j. polls j s' = polls j s + (if co_setupDone s then 0 else length (filter (\<lambda>j'. j' = j) (configured s))))"
proof (cases "co_setupDone s")
  case False
  then have "s' = handleSetup env (s\<lparr>co_setupDone := True\<rparr>)" using assms by (simp add: api_schedule_def)
  then show ?thesis using False
    by (simp add: handleSetup_def collector_start_def start_jobs configured_def) (simp add: counts)
next
  case True
  have "adds 0 None s s'"
  proof (cases "api_schedule env s")
    case (Pair ev t)
    have "adds 0 None s t" and "ev = None \<or> ev = Some (ApiEvent RunPeriodic None)"
      using Pair True by (auto simp: api_schedule_def adds_def counts split: if_splits)
    then show ?thesis using assms Pair settles_result [OF settles_handleRunPeriodic] by (auto intro: adds_trans)
  qed
  then show ?thesis using True by (simp add: adds_def)
qed

lemma loaded:
  "loadProfiles cfg s = (r, s') \<Longrightarrow> co_tx s' = co_tx s \<and> co_calls s' = co_calls s \<and> co_timers s' = co_timers s \<and> co_setupDone s' = co_setupDone s"
  "loadEndpoints cfg s = (r, s') \<Longrightarrow> co_tx s' = co_tx s \<and> co_calls s' = co_calls s \<and> co_timers s' = co_timers s \<and> co_setupDone s' = co_setupDone s"
  "loadConnectors cfg s = (r, s') \<Longrightarrow> co_tx s' = co_tx s \<and> co_calls s' = co_calls s \<and> co_timers s' = co_timers s \<and> co_setupDone s' = co_setupDone s"
  by (auto simp: loadProfiles_def loadEndpoints_def loadConnectors_def load_into_def split: prod.splits)

lemma started_empty:
  assumes "api_start env collectord_new = (Inr (), s)"
  shows "co_tx s = []" "co_calls s = []" "co_timers s = []" "\<not> co_setupDone s"
  using assms by (auto simp: api_start_def collectord_new_def then_do_def dest!: loaded split: prod.splits sum.splits)

text \<open>C38. Every connector test is answered exactly once: as long as no exception ends the daemon, the tests of a number that were
  accepted are those that have been answered under it and those that a call in flight will answer. So when no
  call is in flight any more, there are as many answers as there were tests.\<close>

theorem tests_answered_once:
  assumes "collects env0 evs s" "n \<noteq> 0"
  shows "answered n s + waiting n s = length (filter (\<lambda>(env, ev). test_of env ev = Some n) evs)"
  using assms(1)
proof (induction rule: collects.induct)
  case (collects_start s)
  with started_empty show ?case by (auto simp: counts)
next
  case (collects_step evs s env ev s')
  note step = collects_step.hyps(2)
  show ?case
  proof (cases ev)
    case (FromWire msg)
    from settles_result [OF settles_FromWire step [unfolded FromWire]] collects_step.IH assms(2)
    show ?thesis by (auto simp: FromWire adds_def number_of_def split: option.splits)
  next
    case Tick
    from Tick_effect [OF step [unfolded Tick]] collects_step.IH assms(2) show ?thesis by (simp add: Tick test_of_def)
  next
    case KeyAction
    from KeyAction_adds [OF step [unfolded KeyAction]] collects_step.IH assms(2) show ?thesis by (simp add: KeyAction test_of_def adds_def)
  next
    case (CallDone i res)
    from CallDone_adds [OF step [unfolded CallDone]] collects_step.IH assms(2) show ?thesis by (simp add: CallDone test_of_def adds_def)
  next
    case (TimerDone i)
    from TimerDone_adds [OF step [unfolded TimerDone]] collects_step.IH assms(2) show ?thesis by (simp add: TimerDone test_of_def adds_def)
  qed
qed

text \<open>C39. No collection job is lost or doubled: from the setup on, every configured job, an enabled item of a connector, is at any
  time exactly once either waiting for its timer or waiting for the answer of its call, however the polls before went.\<close>

theorem jobs_conserved:
  assumes "collects env0 evs s"
  shows "polls j s = (if co_setupDone s then length (filter (\<lambda>j'. j' = j) (configured s)) else 0)"
  using assms
proof (induction rule: collects.induct)
  case (collects_start s)
  with started_empty show ?case by (auto simp: counts)
next
  case (collects_step evs s env ev s')
  note step = collects_step.hyps(2)
  have "adds (number_of env ev) None s s'" if "ev \<noteq> Tick"
  proof (cases ev)
    case (FromWire msg) then show ?thesis using settles_result [OF settles_FromWire] step by blast
  qed (use that step KeyAction_adds CallDone_adds TimerDone_adds in \<open>auto simp: number_of_def test_of_def simp del: collect_step.simps\<close>)
  then show ?case
    using collects_step.IH Tick_effect step by (cases "ev = Tick") (auto simp: adds_def configured_def)
qed

subsection \<open>The token of a request\<close>

lemma header_value_set:
  "header_value n (header_set m v hs) = (if same_field m n then Some v else header_value n hs)"
proof -
  have "find (\<lambda>(k, _). same_field k n) (filter (\<lambda>(k, _). \<not> same_field k m) hs @ [(m, v)]) =
      (if same_field m n then Some (m, v) else find (\<lambda>(k, _). same_field k n) hs)"
    by (induction hs) (auto simp: same_field_def)
  then show ?thesis by (simp add: header_value_def header_set_def)
qed

lemma header_value_fold:
  "\<forall>(k, _) \<in> set hs. \<not> same_field k n \<Longrightarrow> header_value n (fold (\<lambda>(name, v). header_set name v) hs base) = header_value n base"
  by (induction hs arbitrary: base) (auto simp: header_value_set)

lemma authorization_field:
  "same_field name ''Authorization'' \<Longrightarrow> is_authorization name" "\<not> same_field ''Content-Length'' ''Authorization''"
proof -
  have lower: "map to_lower ''Authorization'' = ''authorization''" by code_simp
  have null: "to_lower (CHR 0x00) \<notin> set ''authorization''" by code_simp
  assume "same_field name ''Authorization''"
  then have name: "map to_lower name = ''authorization''" by (simp only: same_field_def lower)
  then have "CHR 0x00 \<notin> set name" using null by (metis image_eqI set_map)
  then have "takeWhile (\<lambda>c. c \<noteq> CHR 0x00) name = name" by (auto simp: takeWhile_eq_all_conv)
  with name show "is_authorization name" by (simp only: is_authorization_def)
next
  show "\<not> same_field ''Content-Length'' ''Authorization''" by code_simp
qed

lemma sase_call_token:
  assumes "\<forall>(k, _) \<in> set hs. \<not> is_authorization k"
  shows "header_value ''Authorization'' (wq_headers (wire_of (sase_call host path token hs))) = Some (''Bearer '' @ token)"
proof -
  have "same_field ''Authorization'' ''Authorization''" by (simp add: same_field_def)
  moreover have "\<forall>(k, _) \<in> set hs. \<not> same_field k ''Authorization''"
    using assms authorization_field(1) by fast
  ultimately show ?thesis
    by (simp add: wire_of_def sase_call_def client_request_new_def header_value_set header_value_fold authorization_field(2))
qed

lemma sase_headers_kept: "sase_headers js = Inr hs \<Longrightarrow> \<forall>(k, _) \<in> set hs. \<not> is_authorization k"
proof (induction js arbitrary: hs)
  case (Cons j js)
  then show ?case
    by (auto simp: bind_err_Inr_iff map_sum_Inr_iff split: if_splits)
qed simp

text \<open>C40. The bearer token of a request to the cloud is the daemon's: whatever headers the operator gave an endpoint, in a test or in
  the configuration, the request on the wire carries the token issued for it, and goes only to a host the chain of
  trust vouches for.\<close>

theorem token_not_replaceable:
  "(callSaseEndpoint env ctx token s = (Inr (), s') \<longrightarrow>
      (\<exists>req k. co_calls s' = co_calls s @ [(req, k)] \<and> cq_verifyCa req \<and>
        header_value ''Authorization'' (wq_headers (wire_of req)) = Some (''Bearer '' @ token))) \<and>
    (\<exists>req k. co_calls (collectSaseOnce env j ep token s) = co_calls s @ [(req, k)] \<and> cq_verifyCa req \<and>
        header_value ''Authorization'' (wq_headers (wire_of req)) = Some (''Bearer '' @ token))"
proof -
  have ca: "cq_verifyCa (sase_call host path token hs)" for host path hs by (simp add: sase_call_def)
  have "\<forall>(k, _) \<in> set (filter (\<lambda>(name, _). \<not> (name = [] \<or> is_authorization name)) (xe_headers ep)). \<not> is_authorization k" by auto
  from sase_call_token [OF this] ca show ?thesis
    by (auto simp: collectSaseOnce_def callSaseEndpoint_def requestAsync_def read_then_Inr_iff bind_err_Inr_iff Let_def
        dest!: sase_headers_kept intro: sase_call_token [simplified append_Cons append_Nil])
qed

subsection \<open>What ends the daemon, and what leaves it\<close>

text \<open>The device type of an endpoint test is read outside every \<^verbatim>\<open>try\<close>: a payload that is no object ends the daemon.\<close>

lemma endpoint_test_ends_daemon:
  assumes "msg_cmd msg = CmdApiEndpointTestRequest" "decodeTest env (Some msg) = Some (n, j)" "\<not> is_object j"
  shows "collect_step env (FromWire msg) s = (Inl (TypeError 306), s)"
  using assms by (simp add: api_event_of_def runEndpointTest_def jvalue_def)

text \<open>So does the answer of a tenant whose status is no text; the completion handlers have no \<^verbatim>\<open>catch\<close>.\<close>

lemma health_answer_ends_daemon:
  assumes "ce_parse env (cp_body res) = Some (JObj [(''status'', JInt i)])" "cp_status res = 200"
  shows "fst (complete env (OnStatus target) res s) = Inl (TypeError 302)"
  using assms by (simp add: onStatus_def health_success_def jvalue_def get_str_def Let_def)

text \<open>A test of a key that has been issued before asks no device: it reports success and hands the stored key to whoever runs it.\<close>

definition stored_key_answer :: "collect_env \<Rightarrow> string \<Rightarrow> json" where
  "stored_key_answer env key =
     JObj [(''steps'', JObj [(''auth'', stepJson True ''using the key already issued for this profile'')]),
       (''used_stored_key'', JBool True), (''ok'', JBool True), (''message'', JStr ''API key generated''),
       (''key'', JStr key), (''stored'', JBool (ce_available env))]"

lemma stored_key_handed_out:
  assumes "jvalue get_str ''oid'' [] input = Inr []" "parseTestTarget input = Inr t" "tt_host t \<noteq> []" "tt_deviceType t \<noteq> ''sase''"
    "issuedKey (tt_authProfileOid t) s = key" "key \<noteq> []" "tt_password t \<noteq> []"
  shows "runKeygenTest env n input s = start_or_answer env ''test'' n (sendTestResponse env n (stored_key_answer env key) s)"
  using assms
  by (auto simp: runKeygenTest_def with_stored_def finishKeygen_def Let_def out_put_def out_step_def jput_def jput2_def
      connector_test_new_def update_conv' stored_key_answer_def)

subsection \<open>An example\<close>

fun collect_run :: "(collect_env \<times> collect_event) list \<Rightarrow> collectord \<Rightarrow> collectord option" where
  "collect_run [] s = Some s"
| "collect_run ((env, ev) # evs) s = (case collect_step env ev s of (Inl e, s') \<Rightarrow> None | (Inr x, s') \<Rightarrow> collect_run evs s')"

lemma collects_run:
  "collects env0 evs0 s \<Longrightarrow> collect_run evs s = Some s' \<Longrightarrow> collects env0 (evs0 @ evs) s'"
proof (induction evs arbitrary: evs0 s)
  case (Cons e evs)
  obtain env ev where e: "e = (env, ev)" by fastforce
  with Cons.prems(2) obtain t where t: "collect_step env ev s = (Inr (), t)" "collect_run evs t = Some s'"
    by (auto split: prod.splits sum.splits)
  from Cons.IH [OF collects.collects_step [OF Cons.prems(1) t(1)] t(2)] show ?case by (simp add: e)
qed simp

definition demo_config :: json where
  "demo_config = JObj [(''api_credentials'', JArr [JObj [(''oid'', JStr ''p'')]]),
     (''endpoints'', JArr [JObj [(''oid'', JStr ''e''), (''path'', JStr ''/x''), (''device_type'', JStr ''sase''), (''host'', JStr ''h''),
        (''headers'', JArr [JObj [(''name'', JStr ''AUTHORIZATION''), (''value'', JStr ''mine'')]])]]),
     (''connectors'', JArr [JObj [(''oid'', JStr ''c''), (''object'', JStr ''o''), (''auth_profile'', JStr ''p''),
        (''items'', JArr [JObj [(''endpoint'', JStr ''e'')]])]])]"

definition demo_env :: "int \<Rightarrow> collect_env" where
  "demo_env now = \<lparr>ce_now = now, ce_expiry = (\<lambda>n. ''soon''), ce_encrypt = Some, ce_decrypt = Some, ce_available = True,
     ce_parse = (\<lambda>s. Some (JObj [(''target'', JStr ''fw'')])), ce_dump = (\<lambda>j. Inr ''x''), ce_what = (\<lambda>e. ''e''),
     ce_site = JObj [], ce_connector = demo_config\<rparr>"

definition demo_events :: "(collect_env \<times> collect_event) list" where
  "demo_events = [(demo_env 1, Tick), (demo_env 2, KeyAction),
     (demo_env 3, FromWire (mk_message DMgmtd DCollectord CmdApiTlsProbeRequest 7 0 [1])),
     (demo_env 4, CallDone 0 client_response_new), (demo_env 5000, TimerDone 0)]"

definition demo_start :: collectord where "demo_start = snd (api_start (demo_env 0) collectord_new)"
definition demo_state :: collectord where "demo_state = the (collect_run demo_events demo_start)"

definition demo_job :: job where
  "demo_job = \<lparr>jb_connectorOid = ''c'', jb_endpointOid = ''e'', jb_authProfileOid = ''p'', jb_objectOid = ''o'', jb_interval = 60\<rparr>"

lemma demo_collects: "collects (demo_env 0) demo_events demo_state"
proof -
  have "fst (api_start (demo_env 0) collectord_new) = Inr ()" by code_simp
  then have "collects (demo_env 0) [] demo_start" by (intro collects.collects_start) (simp add: demo_start_def prod_eq_iff)
  moreover have "collect_run demo_events demo_start \<noteq> None" by code_simp
  ultimately show ?thesis using collects_run by (fastforce simp: demo_state_def)
qed

theorem tests_answered_once_witness: "answered 7 demo_state = 1"
proof -
  have "waiting 7 demo_state = 0" by code_simp
  moreover have "length (filter (\<lambda>(env, ev). test_of env ev = Some 7) demo_events) = 1" by code_simp
  ultimately show ?thesis using tests_answered_once [OF demo_collects, of 7] by simp
qed

theorem jobs_conserved_witness: "polls demo_job demo_state = 1"
proof -
  have "co_setupDone demo_state" by code_simp
  moreover have "length (filter (\<lambda>j. j = demo_job) (configured demo_state)) = 1" by code_simp
  ultimately show ?thesis using jobs_conserved [OF demo_collects, of demo_job] by simp
qed

definition demo_test :: connector_test where
  "demo_test = connector_test_new 7 (JObj [(''host'', JStr ''h''), (''endpoint'', JStr ''/x''),
     (''headers'', JArr [JObj [(''name'', JStr ''AUTHORIZATION''), (''value'', JStr ''mine'')]])])"

theorem token_not_replaceable_witness:
  "\<exists>req k. co_calls (snd (callSaseEndpoint (demo_env 0) demo_test ''t'' collectord_new)) = [(req, k)] \<and>
     header_value ''Authorization'' (wq_headers (wire_of req)) = Some (''Bearer '' @ ''t'')"
proof -
  have "fst (callSaseEndpoint (demo_env 0) demo_test ''t'' collectord_new) = Inr ()" by code_simp
  then have "callSaseEndpoint (demo_env 0) demo_test ''t'' collectord_new =
      (Inr (), snd (callSaseEndpoint (demo_env 0) demo_test ''t'' collectord_new))" by (simp add: prod_eq_iff)
  with token_not_replaceable [of "demo_env 0" demo_test "''t''" collectord_new] show ?thesis
    by (simp only: collectord_new_def collectord.select_convs append_Nil) blast
qed

end
