(* ===== verification/Spec2Isabelle.thy ===== *)
theory Spec2Isabelle
  imports Ipcd_Routing Ipc_Client Api_Refs Engined_Reload Engined_Converge Engined_Rounds Service_Daemon Icmp_Engine Icmp_Sessions Mgmtd_Pipeline Topology_Service Collect_Run
begin

text \<open>
  A model of \<^verbatim>\<open>pretzel\<close>, a network management system of cooperating C++ daemons, and what makes it work.

  \<^bold>\<open>The program.\<close> \<^verbatim>\<open>ipcd\<close> is a broker: every other daemon keeps one connection to it over a Unix
  socket and sends frames that it routes by the daemon named in the header. \<^verbatim>\<open>engined\<close> applies settings commits, keeps the
  versioned configuration and watches that the fleet converges on it. \<^verbatim>\<open>mgmtd\<close> is the web front: sign-in, the settings
  editor, and questions it passes on and whose answers the browser polls for. \<^verbatim>\<open>authd\<close> verifies SAML and OpenID Connect
  sign-ins, \<^verbatim>\<open>probed\<close> pings the devices, \<^verbatim>\<open>collectord\<close> calls the devices' and the cloud's APIs,
  \<^verbatim>\<open>topologyd\<close> composes the picture of a site, \<^verbatim>\<open>apid\<close> takes samples in. Within a daemon a tick polls the
  sockets, which posts events; events run before actions until both queues are empty.

  \<^bold>\<open>Theories and code.\<close> Each theory names its files; definitions carry the names of the functions they translate.
  \<^item> \<open>Prelude\<close>: machine integers, byte order, association lists, the theorem collections. \<open>Json_Model\<close>: the values and
    accessors of \<^verbatim>\<open>nlohmann::json\<close> with their exceptions. \<open>Text_Codec\<close>: percent encoding and Base64.
  \<^item> Transport (\<^verbatim>\<open>shared/algorithm\<close>, \<^verbatim>\<open>shared/ipc\<close>): \<open>Byte_Ring\<close> (a ring refined to a bounded queue,
    with a locale for the interface), \<open>Ipc_Protocol\<close>, \<open>Ipc_Codec\<close> (the frame format), \<open>Ipc_Framing\<close> (a connection and
    the receive loop, whose virtual \<^verbatim>\<open>ingress\<close> is an argument with a locale for its contract), \<open>Ipc_Client\<close> (the other end).
  \<^item> \<^verbatim>\<open>ipcd\<close>: \<open>Ipcd_Server\<close> (routes, connections, handshake), \<open>Ipcd_Invariant\<close>, \<open>Ipcd_Routing\<close>.
  \<^item> \<^verbatim>\<open>shared/config\<close>, \<^verbatim>\<open>shared/db\<close>: \<open>Config_Store\<close> (the statements as constructors, their outcomes as
    arguments), \<open>Api_Refs\<close> (references between the API objects).
  \<^item> \<^verbatim>\<open>engined\<close>: \<open>Engined_State\<close>, \<open>Engined_Bootstrap\<close>, \<open>Engined_Commit\<close>, \<open>Engined_Heartbeat\<close>, \<open>Engined_Manager\<close>
    (the services and the loop); \<open>Engined_Reach\<close>, \<open>Engined_Reload\<close>, \<open>Engined_Rounds\<close>, \<open>Engined_Converge\<close> (what holds of them).
  \<^item> \<open>Service_Daemon\<close>: the bootstrap, heartbeat and reload services that the daemons behind the broker have in common.
  \<^item> \<^verbatim>\<open>probed\<close>: \<open>Icmp_Codec\<close>, \<open>Icmp_Engine\<close> (the raw socket), \<open>Icmp_Service\<close>, \<open>Icmp_Sessions\<close>.
  \<^item> \<^verbatim>\<open>mgmtd\<close>: \<open>Password_Hash\<close>, \<open>Mgmtd_Auth\<close>, \<open>Mgmtd_State\<close> (answers by ticket, with a locale for the stores), \<open>Mgmtd_Http\<close>,
    \<open>Mgmtd_Commit\<close> (schemas), \<open>Mgmtd_Settings\<close>, \<open>Mgmtd_Web\<close> (routes and gates); \<open>Mgmtd_Pipeline\<close> joins it to \<^verbatim>\<open>engined\<close>.
  \<^item> \<^verbatim>\<open>authd\<close>: \<open>Saml_Client\<close>, \<open>Oidc_Client\<close>, \<open>Authd_Service\<close>; \<open>Sso_Pipeline\<close> joins it to \<^verbatim>\<open>mgmtd\<close>.
  \<^item> \<^verbatim>\<open>topologyd\<close>: \<open>Ngfw_Model\<close>, \<open>Topology_Sase\<close>, \<open>Topology_Ngfw\<close>, \<open>Topology_Service\<close>, the last with \<^verbatim>\<open>mgmtd\<close>'s side of it.
  \<^item> \<^verbatim>\<open>collectord\<close>: \<open>Http_Client\<close> (\<^verbatim>\<open>shared/http/HttpClientSession.cpp\<close>), \<open>Collect_Util\<close>, \<open>Collect_Tests\<close>,
    \<open>Collect_Service\<close>, \<open>Collect_Run\<close>.
  \<^item> This theory: the broker, the service daemons and \<^verbatim>\<open>engined\<close> together, from the reports to the start of the fleet.

  \<^bold>\<open>How it is modelled.\<close> A class is a record of its members, a method a function of it, with the results of the calls that leave
  the program (kernel, database, clock, random source) as arguments: a list of outcomes, an environment record or a function. An
  exception is the left side of a sum; one that nothing catches ends the run. An \<^verbatim>\<open>unordered_map\<close> is an association list in
  one of its iteration orders, and where the code takes its first element an argument says which. Integers have the width of the
  code where it matters (headers, versions, ticket numbers, checksums, the clock of \<open>Saml_Client\<close>); times are nanoseconds as \<open>int\<close>, seconds as
  \<open>nat\<close> in \<open>Mgmtd_Auth\<close>, sizes bounded by a buffer are \<open>nat\<close>.

  \<^bold>\<open>What is shown.\<close> For the transport: decoding is the inverse of encoding, the ring is a queue, and what is cut out of a stream
  is a prefix of what was sent, all of it unless a chunk fills the ring. For the broker: an invariant of every reachable state, and that a
  live route cannot be taken over. For the configuration: a commit is atomic and read back, and stores no secret. For
  \<^verbatim>\<open>engined\<close>: commits run one at a time in order, each reload is answered once, no tick leaves a commit stalled, and the fleet is
  started exactly when it has converged. For the service daemons: released only after the handshake. For \<^verbatim>\<open>probed\<close>: which
  replies count and that a session ends. For \<^verbatim>\<open>mgmtd\<close>: every session was earned, what the back-off counts, nothing is served
  without a session, a batch is published whole or not at all, and its references resolve in the configuration that results. For \<^verbatim>\<open>authd\<close>:
  what an accepted sign-in has been through, with an attack by signature wrapping, and that the session is the verified user's. For
  \<^verbatim>\<open>topologyd\<close>: the shape, whose devices a picture shows, and how it arrives. For \<^verbatim>\<open>collectord\<close>: the certificate
  gate, one answer per call, one response per test, one future run per job, and the token nobody can replace. Where the code does
  not do what it or its documents say, a theorem says what it does and its text says how that differs: the version that is active at once
  (\<open>commit_atomic\<close>), the shape of the topology (\<open>shape_is_fan_out\<close>), the overtaken result of a probe, the misfiled composition.

  \<^bold>\<open>Termination.\<close> The loops are total functions. The loop of a tick runs until both queues are empty: each dispatch lowers \<open>eng_weight\<close>,
  \<open>svc_weight\<close> or \<open>probe_weight\<close>, which count what is queued together with what it can still post; for \<^verbatim>\<open>engined\<close>,
  \<open>execute_ends_idle\<close> states it with a bound: as many dispatches as the weight, and one more, are enough. The receive loop ends because the ring gets shorter, an outbound call because \<open>op_weight\<close> falls from
  five with every completion. Where the kernel's answers are a list, a loop that would use more answers than given is \<open>None\<close>.

  \<^bold>\<open>What is left out.\<close> Parsing and printing of JSON, merge patches, XML and its signatures, OpenSSL, TLS and the HTTPS
  library are parameters, with their documented behaviour as named hypotheses where a property needs it; JSON has no floating-point
  numbers here, because no modelled code reads or writes one. XML namespaces are ignored because the code ignores them. The Base64 decoders shift a
  32-bit integer until its upper bits fall off, which C++17 leaves undefined and the model lets wrap. Task numbers and the version numbers of the store do not wrap. Logging is left
  out. \<^verbatim>\<open>mgmtd\<close>'s cached configuration is a field of a request's environment, and its controllers that are not modelled are
  a parameter of the route table. In \<open>Collect_Run\<close> an exception ends the run, and a call that fails before it starts completes with
  the next event. Not modelled at all: the web server and the database client (libraries' asynchronous I/O), the inventory, chat,
  collection and log services of \<^verbatim>\<open>engined\<close> (SQL text), the other pages' handlers, \<^verbatim>\<open>apid\<close>'s ingest, logging and start-up.
\<close>

subsection \<open>From the daemons' reports to the decision to start\<close>

text \<open>The broker handles the reports of some daemons one after the other.\<close>

fun deliver_reports :: "jlib \<Rightarrow> (ipc_daemon \<times> u64) list \<Rightarrow> ipcd \<Rightarrow> json_error + ipcd" where
  "deliver_reports L [] b = Inr b"
| "deliver_reports L ((d, v) # rest) b =
     bind_err (boot_handleEvent L (BootEvent ReceiveRuntimeReady (Some (buildRuntimeReady L d v))) b)
       (deliver_reports L rest)"

lemma report_read:
  assumes "json_lib L"
  shows "reported_version L (msg_payload (buildRuntimeReady L d v)) = Inr v"
  using json_lib.parse_dump [OF assms] json_lib.dump_nonempty [OF assms]
  by (simp add: reported_version_def buildRuntimeReady_def runtime_ready_json_def jvalue_def get_u64_def)

lemma report_handled:
  assumes "json_lib L"
  shows "boot_handleEvent L (BootEvent ReceiveRuntimeReady (Some (buildRuntimeReady L d v))) b
    = Inr (markRuntimeReady d True v b)"
  using report_read [OF assms, of d v] by (simp add: buildRuntimeReady_def)

lemma report_recorded:
  "map_of (s_runtimeTable (markRuntimeReady d True v b)) d' =
     (if d' = d then map_option (\<lambda>st. st\<lparr>rs_ready := True, rs_appliedVersion := (if v > 0 then v else rs_appliedVersion st)\<rparr>)
        (map_of (s_runtimeTable b) d)
      else map_of (s_runtimeTable b) d')"
  by (auto simp: markRuntimeReady_def update_conv' Let_def split: option.split)

lemma reports_recorded:
  assumes "json_lib L"
  shows "distinct (map fst rs) \<Longrightarrow> \<forall>(d, v) \<in> set rs. 0 < v \<Longrightarrow> ipcd_ok b \<Longrightarrow>
    \<exists>b'. deliver_reports L rs b = Inr b' \<and> ipcd_ok b' \<and>
      (\<forall>d. map_of (s_runtimeTable b') d = (case map_of rs d of
         None \<Rightarrow> map_of (s_runtimeTable b) d
       | Some v \<Rightarrow> map_option (\<lambda>st. st\<lparr>rs_ready := True, rs_appliedVersion := v\<rparr>) (map_of (s_runtimeTable b) d)))"
proof (induction rs arbitrary: b)
  case (Cons r rs)
  obtain d v where r: "r = (d, v)" by fastforce
  let ?b = "markRuntimeReady d True v b"
  have ok: "ipcd_ok ?b"
    using ipcd_ok_boot(1) [OF Cons.prems(3) report_handled [OF assms]] .
  have d: "map_of rs d = None" using Cons.prems(1) r by (simp add: map_of_eq_None_iff)
  from Cons.IH [OF _ _ ok] Cons.prems r obtain b' where b': "deliver_reports L rs ?b = Inr b'" "ipcd_ok b'"
    "\<And>d'. map_of (s_runtimeTable b') d' = (case map_of rs d' of
         None \<Rightarrow> map_of (s_runtimeTable ?b) d'
       | Some v \<Rightarrow> map_option (\<lambda>st. st\<lparr>rs_ready := True, rs_appliedVersion := v\<rparr>) (map_of (s_runtimeTable ?b) d'))"
    by auto
  have "deliver_reports L (r # rs) b = Inr b'"
    using b'(1) by (simp only: r deliver_reports.simps report_handled [OF assms] bind_err_simps)
  then show ?case
    using b'(2,3) d r Cons.prems(2)
    by (intro exI [of _ b']) (auto simp: report_recorded split: option.split)
qed simp

text \<open>C18. Three daemons together. Let \<^verbatim>\<open>engined\<close> be reconciling, let every service daemon have a live
  route to the broker and report, in any order, a version above zero and not older than the engine's target, and let
  the broker count for at least one of them a newer generation than the one last started, that is, it has connected
  anew since; the JSON library reads back what it prints. Then the broker's next report makes \<^verbatim>\<open>engined\<close> start the fleet; no daemon has to report
  twice and nothing else is needed. Without a newer generation \<^verbatim>\<open>onSyncResponse\<close> starts nothing: the fleet
  is running already.\<close>

theorem reported_fleet_is_started:
  assumes "json_lib L" and "ipcd_ok b" and "engined_reachable L' env s" and "b_state (e_boot s) = Reconcile"
    and "distinct (map fst rs)" and "set (map fst rs) = set service_daemons"
    and "\<forall>(d, v) \<in> set rs. 0 < v \<and> b_targetVersion (e_boot s) \<le> v \<and>
      (\<exists>st. map_of (s_runtimeTable b) d = Some st \<and> 0 \<le> rs_fd st)"
    and "d \<in> set service_daemons" and "map_of (s_runtimeTable b) d = Some st"
    and "map_of (b_processMap (e_boot s)) d = Some ps" and "ps_blessedGeneration ps < rs_generation st"
  shows "\<exists>b'. deliver_reports L rs b = Inr b' \<and>
    e_actions (onSyncResponse L (buildSyncResponse L req b') s) = e_actions s @ [ActBootstrap EbActSendRuntimeStart]"
proof -
  obtain b' where b': "deliver_reports L rs b = Inr b'" "ipcd_ok b'"
    "\<And>d. map_of (s_runtimeTable b') d = (case map_of rs d of
         None \<Rightarrow> map_of (s_runtimeTable b) d
       | Some v \<Rightarrow> map_option (\<lambda>st. st\<lparr>rs_ready := True, rs_appliedVersion := v\<rparr>) (map_of (s_runtimeTable b) d))"
    using reports_recorded [OF assms(1,5) _ assms(2)] assms(7) by blast
  have live: "\<exists>st. map_of (s_runtimeTable b') d = Some st \<and> 0 \<le> rs_fd st \<and> connected (rs_fd st) b' \<and>
      b_targetVersion (e_boot s) \<le> rs_appliedVersion st" if d: "d \<in> set service_daemons" for d
  proof -
    obtain v where v: "map_of rs d = Some v"
      using d assms(6) by (metis map_of_eq_None_iff not_Some_eq set_map)
    from map_of_SomeD [OF v] assms(7) obtain st where
      "map_of (s_runtimeTable b) d = Some st" "0 \<le> rs_fd st" "b_targetVersion (e_boot s) \<le> v" by blast
    with b'(3) [of d] v ipcd_ok_route [OF b'(2)] show ?thesis by fastforce
  qed
  obtain st' where "map_of (s_runtimeTable b') d = Some st'" "rs_generation st' = rs_generation st"
    using assms(9) b'(3) [of d] by (auto split: option.splits)
  with assms(8,10,11) have "\<exists>d \<in> set service_daemons. \<exists>st ps. map_of (s_runtimeTable b') d = Some st \<and>
      map_of (b_processMap (e_boot s)) d = Some ps \<and> ps_blessedGeneration ps < rs_generation st"
    by (intro bexI [of _ d]) simp_all
  with live b'(1) runtime_start_when_converged [OF assms(1) b'(2) assms(4,3), of req] show ?thesis
    by (intro exI [of _ b']) simp
qed

text \<open>The witness: five connected daemons that have not reported yet, after a cold start.\<close>

definition silent_broker :: ipcd where
  "silent_broker = fleet_broker\<lparr>s_runtimeTable :=
     map (\<lambda>(d, fd). (d, \<lparr>rs_fd = fd, rs_ready = False, rs_generation = 1, rs_appliedVersion = 0\<rparr>))
       (zip service_daemons fleet_fds)\<rparr>"

lemma silent_broker_ok: "ipcd_ok silent_broker"
  by (simp add: silent_broker_def fleet_broker_def fleet_fds_def service_daemons_def ipcd_init_def ipcd_ok_def
      conn_ok_def route_ok_def connected_def conn_new_def new_ring_ok)

theorem reported_fleet_is_started_witness:
  "\<exists>s b'. handshaken = Inr s \<and> deliver_reports unary_lib (map (\<lambda>d. (d, 1)) service_daemons) silent_broker = Inr b' \<and>
    e_actions (onSyncResponse unary_lib (buildSyncResponse unary_lib hello_example b') s) =
      [ActBootstrap EbActSendRuntimeStart]"
proof -
  obtain s where s: "handshaken = Inr s" "b_state (e_boot s) = Reconcile" "b_targetVersion (e_boot s) = 1"
    "e_actions s = []" "b_processMap (e_boot s) = map (\<lambda>d. (d, fresh_process)) service_daemons"
    using handshaken_run by (auto split: sum.splits)
  have r: "engined_reachable unary_lib still_env s"
    using s(1) unfolding handshaken_def bind_err_Inr_iff by (blast intro: reachable_tick er_start)
  let ?rs = "map (\<lambda>d. (d, 1 :: u64)) service_daemons"
  have rs: "distinct (map fst ?rs)" "set (map fst ?rs) = set service_daemons"
    "\<forall>(d, v) \<in> set ?rs. 0 < v \<and> b_targetVersion (e_boot s) \<le> v \<and>
      (\<exists>st. map_of (s_runtimeTable silent_broker) d = Some st \<and> 0 \<le> rs_fd st)"
    by (simp_all add: s(3) service_daemons_def silent_broker_def fleet_fds_def)
  have d: "DAuthd \<in> set service_daemons"
    "map_of (s_runtimeTable silent_broker) DAuthd =
       Some \<lparr>rs_fd = 11, rs_ready = False, rs_generation = 1, rs_appliedVersion = 0\<rparr>"
    "map_of (b_processMap (e_boot s)) DAuthd = Some fresh_process"
    "ps_blessedGeneration fresh_process <
       rs_generation \<lparr>rs_fd = 11, rs_ready = False, rs_generation = 1, rs_appliedVersion = 0\<rparr>"
    by (simp_all add: s(5) service_daemons_def silent_broker_def fleet_fds_def fresh_process_def)
  show ?thesis
    using reported_fleet_is_started [OF unary.json_lib_axioms silent_broker_ok r s(2) rs d, of hello_example] s(1,4)
    by auto
qed

end
